(* ===== verification/Twirx_Prelude.thy ===== *)
theory Twirx_Prelude
  imports Main "HOL-Library.Word" "HOL-Library.Char_ord" "HOL-Library.List_Lexorder"
begin

text \<open>
  Shared vocabulary of the development. Go strings and byte slices are both finite
  sequences of octets; strings are kept as \<open>string\<close> (lists of characters, one
  character per octet) and byte slices as lists of \<open>8 word\<close>, with the two Go
  conversions written out. The order on strings and on byte slices is Go's bytewise
  lexicographic order (theories Char_ord and List_Lexorder). The theory also holds the error
  values, the early-return idiom of the validators, big-endian integers, UTF-8 validity,
  hexadecimal text, and the generic lemmas the components share.
\<close>

section \<open>Lemma collections\<close>

named_theorems emit_simps "bytes appended by an encoder method"
named_theorems accept_simps "when a validator accepts"
named_theorems decode_simps "parsing what an encoder emitted"
named_theorems sound_intros "soundness of the parsers, one rule per parser"
named_theorems length_simps "lengths of encodings"

section \<open>Errors and early returns\<close>

text \<open>
  A Go \<open>error\<close> value that is not nil. Sentinel errors are constructors, text built
  by \<open>errors.New\<close> is \<open>Msg\<close>, and \<open>fmt.Errorf\<close> with a \<open>%w\<close> verb is
  \<open>Wrap\<close>. The numbers a message prints are left out, the literal text is shortened.
\<close>

datatype error =
    Msg string
  | Wrap string error
  | ErrUnexpectedEOF
  | ErrUnsupportedType
  | ErrNonCanonical
  | ErrInvalidUTF8
  | ErrInvalidResult
  | ErrInvalid
  | ErrTrailingBytes
  | ErrNotExist
  | ErrSyscall

text \<open>The error at the bottom of a chain of wrappers, what \<open>errors.Is\<close> compares.\<close>

fun root_cause :: "error \<Rightarrow> error" where
  "root_cause (Wrap _ e) = root_cause e"
| "root_cause e = e"

text \<open>
  A function of type \<open>error\<close> is modelled by \<open>error option\<close> (\<open>None\<close> is nil),
  a function of type \<open>(T, error)\<close> by the sum \<open>error + T\<close>.
  \<open>first_err\<close> is a sequence of statements of the form
  \<^verbatim>\<open>if err := check(); err != nil { return err }\<close>; \<open>fail_if\<close> is
  \<^verbatim>\<open>if cond { return e }\<close>.
\<close>

fun first_err :: "error option list \<Rightarrow> error option" where
  "first_err [] = None"
| "first_err (c # cs) = (case c of None \<Rightarrow> first_err cs | Some e \<Rightarrow> Some e)"

definition fail_if :: "bool \<Rightarrow> error \<Rightarrow> error option" where
  "fail_if b e = (if b then Some e else None)"

definition wrap_err :: "string \<Rightarrow> error option \<Rightarrow> error option" where
  "wrap_err m c = map_option (Wrap m) c"

definition after :: "error option \<Rightarrow> (error + 'a) \<Rightarrow> (error + 'a)" where
  "after c r = (case c of None \<Rightarrow> r | Some e \<Rightarrow> Inl e)"

definition ebind :: "(error + 'a) \<Rightarrow> ('a \<Rightarrow> error + 'b) \<Rightarrow> (error + 'b)" where
  "ebind m f = (case m of Inl e \<Rightarrow> Inl e | Inr x \<Rightarrow> f x)"

definition isOK :: "(error + 'a) \<Rightarrow> bool" where
  "isOK r = (case r of Inl _ \<Rightarrow> False | Inr _ \<Rightarrow> True)"

lemma first_err_None [accept_simps]:
  "first_err (c # cs) = None \<longleftrightarrow> c = None \<and> first_err cs = None"
  by (simp split: option.splits)

declare first_err.simps(2) [simp del]

lemma first_err_map_None: "first_err (map f xs) = None \<longleftrightarrow> (\<forall>x \<in> set xs. f x = None)"
  by (induction xs) (auto simp: first_err_None)

lemma first_err_all_None: "first_err cs = None \<longleftrightarrow> (\<forall>c \<in> set cs. c = None)"
  by (induction cs) (auto simp: first_err_None)

lemma first_err_Nil [accept_simps]: "first_err [] = None"
  by simp

lemma fail_if_None [accept_simps]: "fail_if b e = None \<longleftrightarrow> \<not> b"
  by (simp add: fail_if_def)

lemma wrap_err_None [accept_simps]: "wrap_err m c = None \<longleftrightarrow> c = None"
  by (simp add: wrap_err_def)

lemma after_None [simp]: "after None r = r"
  by (simp add: after_def)

lemma after_Inr: "after c r = Inr x \<longleftrightarrow> c = None \<and> r = Inr x"
  by (simp add: after_def split: option.splits)

lemma ebind_Inr [simp]: "ebind (Inr x) f = f x" and ebind_Inl [simp]: "ebind (Inl e) f = Inl e"
  by (simp_all add: ebind_def)

lemma ebind_eq_Inr: "ebind m f = Inr y \<longleftrightarrow> (\<exists>x. m = Inr x \<and> f x = Inr y)"
  by (cases m) simp_all

lemma isOK_simps [simp]: "isOK (Inr x)" "\<not> isOK (Inl e)"
  by (simp_all add: isOK_def)

lemma isOK_iff: "isOK r \<longleftrightarrow> (\<exists>x. r = Inr x)"
  by (cases r) simp_all

section \<open>Octets and strings\<close>

type_synonym byte = "8 word"
type_synonym uint64 = "64 word"

definition byte_of_char :: "char \<Rightarrow> byte" where
  "byte_of_char c = word_of_nat (of_char c)"

definition char_of_byte :: "byte \<Rightarrow> char" where
  "char_of_byte b = char_of (unat b)"

text \<open>The Go conversions \<open>[]byte(s)\<close> and \<open>string(b)\<close>.\<close>

definition bytes_of_string :: "string \<Rightarrow> byte list" where
  "bytes_of_string s = map byte_of_char s"

definition string_of_bytes :: "byte list \<Rightarrow> string" where
  "string_of_bytes bs = map char_of_byte bs"

lemma unat_byte_bound: "unat (b :: byte) < 256"
  by (rule order_less_le_trans [OF unsigned_less]) simp

lemma unat_uint64_bound: "unat (v :: uint64) < 2 ^ 64"
  by (rule order_less_le_trans [OF unsigned_less]) simp

lemma unat_byte_of_char: "unat (byte_of_char c) = of_char c"
  by (simp add: byte_of_char_def unat_of_nat)

lemma char_of_byte_of_char [simp]: "char_of_byte (byte_of_char c) = c"
  by (simp add: char_of_byte_def unat_byte_of_char)

lemma byte_of_char_of_byte [simp]: "byte_of_char (char_of_byte b) = b"
  using unat_byte_bound [of b] by (simp add: char_of_byte_def byte_of_char_def)

lemma string_of_bytes_of_string [simp]: "string_of_bytes (bytes_of_string s) = s"
  by (simp add: string_of_bytes_def bytes_of_string_def comp_def)

lemma bytes_of_string_of_bytes [simp]: "bytes_of_string (string_of_bytes bs) = bs"
  by (simp add: string_of_bytes_def bytes_of_string_def comp_def)

lemma length_bytes_of_string [simp]: "length (bytes_of_string s) = length s"
  by (simp add: bytes_of_string_def)

lemma length_string_of_bytes [simp]: "length (string_of_bytes s) = length s"
  by (simp add: string_of_bytes_def)

lemma bytes_of_string_inject [simp]: "bytes_of_string s = bytes_of_string t \<longleftrightarrow> s = t"
  by (metis string_of_bytes_of_string)

lemma bytes_of_string_append [simp]:
  "bytes_of_string (s @ t) = bytes_of_string s @ bytes_of_string t"
  by (simp add: bytes_of_string_def)

section \<open>Big-endian integers\<close>

text \<open>
  \<open>encoding/binary\<close>: \<open>be_bytes k n\<close> are the \<open>k\<close> octets that
  \<open>BigEndian.PutUintXX\<close> writes for \<open>n\<close>, \<open>be_nat\<close> is the number that
  \<open>BigEndian.UintXX\<close> reads.
\<close>

primrec be_bytes :: "nat \<Rightarrow> nat \<Rightarrow> byte list" where
  "be_bytes 0 n = []"
| "be_bytes (Suc k) n = word_of_nat (n div 256 ^ k) # be_bytes k n"

fun be_nat :: "byte list \<Rightarrow> nat" where
  "be_nat [] = 0"
| "be_nat (b # bs) = unat b * 256 ^ length bs + be_nat bs"

lemma length_be_bytes [simp]: "length (be_bytes k n) = k"
  by (induction k) simp_all

lemma be_nat_bound: "be_nat bs < 256 ^ length bs"
proof (induction bs)
  case (Cons b bs)
  have "unat b + 1 \<le> 256" using unat_byte_bound [of b] by simp
  then have "(unat b + 1) * 256 ^ length bs \<le> 256 ^ length (b # bs)"
    using mult_le_mono1 [of "unat b + 1" 256 "256 ^ length bs"] by simp
  moreover have "be_nat (b # bs) < (unat b + 1) * 256 ^ length bs"
    using Cons by simp
  ultimately show ?case by (rule less_le_trans [rotated])
qed simp

lemma be_nat_be_bytes: "be_nat (be_bytes k n) = n mod 256 ^ k"
proof (induction k)
  case (Suc k)
  have "unat (word_of_nat (n div 256 ^ k) :: byte) = n div 256 ^ k mod 256"
    by (simp add: unat_of_nat)
  moreover have "n mod 256 ^ Suc k = n div 256 ^ k mod 256 * 256 ^ k + n mod 256 ^ k"
    by (metis mod_mult2_eq mult.commute power_Suc2)
  ultimately show ?case using Suc by simp
qed simp

lemma be_bytes_mod: "be_bytes k (n + m * 256 ^ k) = be_bytes k n"
proof (induction k arbitrary: m)
  case (Suc k)
  have "(n + m * 256 ^ Suc k) div 256 ^ k = n div 256 ^ k + m * 256"
    by (simp add: mult.assoc [symmetric])
  moreover have "be_bytes k (n + (m * 256) * 256 ^ k) = be_bytes k n"
    by (rule Suc)
  moreover have "word_of_nat (k + m * 256) = (word_of_nat k :: byte)" for k
    by (simp add: word_unat_eq_iff unat_of_nat del: of_nat_add of_nat_mult)
  ultimately show ?case by (simp add: mult.assoc)
qed simp

lemma be_bytes_be_nat: "be_bytes (length bs) (be_nat bs) = bs"
proof (induction bs)
  case (Cons b bs)
  have "(unat b * 256 ^ length bs + be_nat bs) div 256 ^ length bs = unat b"
    using be_nat_bound [of bs] by simp
  moreover have "be_bytes (length bs) (be_nat bs + unat b * 256 ^ length bs) = bs"
    by (simp add: be_bytes_mod Cons)
  ultimately show ?case by (simp add: add.commute)
qed simp

section \<open>UTF-8\<close>

text \<open>\<open>utf8.Valid\<close>: well-formed UTF-8, without overlong forms and surrogates.\<close>

definition utf8_cont :: "byte \<Rightarrow> bool" where
  "utf8_cont b \<longleftrightarrow> 0x80 \<le> b \<and> b \<le> 0xBF"

fun utf8_valid :: "byte list \<Rightarrow> bool" where
  "utf8_valid [] = True"
| "utf8_valid (b # bs) =
     (if b < 0x80 then utf8_valid bs
      else if 0xC2 \<le> b \<and> b \<le> 0xDF then
        (case bs of c1 # r \<Rightarrow> utf8_cont c1 \<and> utf8_valid r | _ \<Rightarrow> False)
      else if 0xE0 \<le> b \<and> b \<le> 0xEF then
        (case bs of c1 # c2 # r \<Rightarrow>
            utf8_cont c1 \<and> utf8_cont c2 \<and> (b = 0xE0 \<longrightarrow> 0xA0 \<le> c1) \<and> (b = 0xED \<longrightarrow> c1 \<le> 0x9F) \<and>
            utf8_valid r
         | _ \<Rightarrow> False)
      else if 0xF0 \<le> b \<and> b \<le> 0xF4 then
        (case bs of c1 # c2 # c3 # r \<Rightarrow>
            utf8_cont c1 \<and> utf8_cont c2 \<and> utf8_cont c3 \<and>
            (b = 0xF0 \<longrightarrow> 0x90 \<le> c1) \<and> (b = 0xF4 \<longrightarrow> c1 \<le> 0x8F) \<and> utf8_valid r
         | _ \<Rightarrow> False)
      else False)"

declare utf8_valid.simps(2) [simp del]

lemma utf8_valid_ascii: "\<forall>b \<in> set bs. b < 0x80 \<Longrightarrow> utf8_valid bs"
  by (induction bs) (auto simp: utf8_valid.simps)

definition utf8_valid_string :: "string \<Rightarrow> bool" where
  "utf8_valid_string s \<longleftrightarrow> utf8_valid (bytes_of_string s)"

definition is_ascii :: "string \<Rightarrow> bool" where
  "is_ascii s \<longleftrightarrow> list_all (\<lambda>c. of_char c < (128 :: nat)) s"

lemma utf8_valid_string_ascii: "is_ascii s \<Longrightarrow> utf8_valid_string s"
proof -
  assume *: "is_ascii s"
  have "b < 0x80" if "b \<in> set (bytes_of_string s)" for b
  proof -
    from that obtain c where c: "c \<in> set s" "b = byte_of_char c"
      by (auto simp: bytes_of_string_def)
    with * have "of_char c < (128 :: nat)" by (auto simp: is_ascii_def list_all_iff)
    with c show ?thesis by (simp add: word_less_nat_alt unat_byte_of_char)
  qed
  then show ?thesis unfolding utf8_valid_string_def by (blast intro: utf8_valid_ascii)
qed

lemma utf8_valid_string_Nil [simp]: "utf8_valid_string []"
  by (simp add: utf8_valid_string_def bytes_of_string_def)

lemma utf8_valid_string_Cons [simp]:
  "of_char c < (128 :: nat) \<Longrightarrow> utf8_valid_string (c # s) = utf8_valid_string s"
  by (simp add: utf8_valid_string_def bytes_of_string_def utf8_valid.simps word_less_nat_alt
      unat_byte_of_char)

lemma utf8_valid_string_append_ascii [simp]:
  "is_ascii s \<Longrightarrow> utf8_valid_string (s @ t) = utf8_valid_string t"
  by (induction s) (simp_all add: is_ascii_def)

text \<open>\<open>utf8.AppendRune\<close>\<close>

definition encode_rune :: "nat \<Rightarrow> string" where
  "encode_rune r =
     (let r = (if 0xD800 \<le> r \<and> r \<le> 0xDFFF \<or> 0x10FFFF < r then 0xFFFD else r);
          tail = (\<lambda>k. char_of (0x80 + r div 64 ^ k mod 64))
      in if r < 0x80 then [char_of r]
         else if r < 0x800 then [char_of (0xC0 + r div 64), tail 0]
         else if r < 0x10000 then [char_of (0xE0 + r div 4096), tail 1, tail 0]
         else [char_of (0xF0 + r div 262144), tail 2, tail 1, tail 0])"

text \<open>\<open>strings.Join\<close>\<close>

fun strings_Join :: "string list \<Rightarrow> string \<Rightarrow> string" where
  "strings_Join [] sep = []"
| "strings_Join [x] sep = x"
| "strings_Join (x # y # rest) sep = x @ sep @ strings_Join (y # rest) sep"

section \<open>Hexadecimal text\<close>

text \<open>\<open>hex.EncodeToString\<close> (lower case) and \<open>hex.DecodeString\<close> (either case).\<close>

definition hex_digit :: "nat \<Rightarrow> char" where
  "hex_digit n = (if n < 10 then char_of (48 + n) else char_of (87 + n))"

definition hex_value :: "char \<Rightarrow> nat option" where
  "hex_value c =
     (let n = of_char c :: nat in
      if 48 \<le> n \<and> n \<le> 57 then Some (n - 48)
      else if 97 \<le> n \<and> n \<le> 102 then Some (n - 87)
      else if 65 \<le> n \<and> n \<le> 70 then Some (n - 55)
      else None)"

fun hex_encode :: "byte list \<Rightarrow> string" where
  "hex_encode [] = []"
| "hex_encode (b # bs) = hex_digit (unat b div 16) # hex_digit (unat b mod 16) # hex_encode bs"

fun hex_decode :: "string \<Rightarrow> byte list option" where
  "hex_decode [] = Some []"
| "hex_decode [c] = None"
| "hex_decode (c # d # cs) =
     (case hex_value c of None \<Rightarrow> None | Some h \<Rightarrow>
      (case hex_value d of None \<Rightarrow> None | Some l \<Rightarrow>
       (case hex_decode cs of None \<Rightarrow> None | Some bs \<Rightarrow> Some (word_of_nat (16 * h + l) # bs))))"

lemma hex_value_digit: "n < 16 \<Longrightarrow> hex_value (hex_digit n) = Some n"
  by (auto simp: hex_value_def hex_digit_def)

lemma length_hex_encode [simp]: "length (hex_encode bs) = 2 * length bs"
  by (induction bs) simp_all

lemma hex_decode_encode [simp]: "hex_decode (hex_encode bs) = Some bs"
proof (induction bs)
  case (Cons b bs)
  have "unat b div 16 < 16" using unat_byte_bound [of b] by simp
  then show ?case using Cons by (simp add: hex_value_digit)
qed simp

lemma hex_encode_inject [simp]: "hex_encode a = hex_encode b \<longleftrightarrow> a = b"
  by (metis hex_decode_encode option.inject)

lemma length_hex_decode: "hex_decode s = Some bs \<Longrightarrow> length s = 2 * length bs"
  by (induction s arbitrary: bs rule: hex_decode.induct) (auto split: option.splits)

lemma hex_value_ascii: "hex_value c = Some h \<Longrightarrow> of_char c < (128 :: nat)"
  by (auto simp: hex_value_def Let_def split: if_splits)

lemma hex_decode_ascii: "hex_decode s = Some bs \<Longrightarrow> is_ascii s"
  by (induction s arbitrary: bs rule: hex_decode.induct)
    (auto simp: is_ascii_def hex_value_ascii split: option.splits)

section \<open>Lower case\<close>

definition lower_char :: "char \<Rightarrow> char" where
  "lower_char c = (let n = of_char c :: nat in if 65 \<le> n \<and> n \<le> 90 then char_of (n + 32) else c)"

text \<open>
  \<open>strings.ToLower\<close> as far as a comparison with ASCII text can tell: besides the ASCII
  letters, U+0130 and U+212A are the only code points whose lower case is ASCII.
\<close>

fun to_lower :: "string \<Rightarrow> string" where
  "to_lower (c # d # e # cs) =
     (if c = CHR 0xC4 \<and> d = CHR 0xB0 then CHR ''i'' # to_lower (e # cs)
      else if c = CHR 0xE2 \<and> d = CHR 0x84 \<and> e = CHR 0xAA then CHR ''k'' # to_lower cs
      else lower_char c # to_lower (d # e # cs))"
| "to_lower [c, d] = (if c = CHR 0xC4 \<and> d = CHR 0xB0 then ''i'' else [lower_char c, lower_char d])"
| "to_lower [c] = [lower_char c]"
| "to_lower [] = []"

text \<open>
  \<open>strings.EqualFold\<close> where one of the texts is ASCII: the code points that fold to an ASCII
  letter are that letter's two cases, U+017F (for s) and U+212A (for k).
\<close>

fun fold_ascii :: "string \<Rightarrow> string" where
  "fold_ascii (c # d # e # cs) =
     (if c = CHR 0xC5 \<and> d = CHR 0xBF then CHR ''s'' # fold_ascii (e # cs)
      else if c = CHR 0xE2 \<and> d = CHR 0x84 \<and> e = CHR 0xAA then CHR ''k'' # fold_ascii cs
      else lower_char c # fold_ascii (d # e # cs))"
| "fold_ascii [c, d] = (if c = CHR 0xC5 \<and> d = CHR 0xBF then ''s'' else [lower_char c, lower_char d])"
| "fold_ascii [c] = [lower_char c]"
| "fold_ascii [] = []"

lemma char_of_eq: "n < 256 \<Longrightarrow> (char_of (n :: nat) = c) = (n = of_char c)"
  by (metis char_of_char of_char_of mod_less)

lemma sint_word_of_int_small: "- (2 ^ 63) \<le> x \<Longrightarrow> x < 2 ^ 63 \<Longrightarrow> sint (word_of_int x :: uint64) = x"
  unfolding sint_sbintrunc' by (rule signed_take_bit_int_eq_self) simp_all

end
