(* ===== verification/Cborlite.thy ===== *)
theory Cborlite
  imports Twirx_Prelude
begin

unbundle bit_operations_syntax

text \<open>
  \<open>internal/cborlite\<close>: the deterministic CBOR subset. The encoder is its buffer and the
  five methods that append to it (a value of \<open>enc_call\<close> is one method call, so a
  marshalling function is the list of calls it makes); the decoder is the input with the
  offset, each method returning an error or the value with the advanced decoder. The locale
  \<open>codec\<close> states what a document relies on: decoding undoes encoding in front of any
  further input, and whatever is decoded is the encoding of the result.
\<close>

section \<open>Encoder\<close>

record encoder =
  buf :: "byte list"

definition NewEncoder :: encoder where
  "NewEncoder = \<lparr>buf = []\<rparr>"

definition appendHead :: "byte \<Rightarrow> uint64 \<Rightarrow> encoder \<Rightarrow> encoder" where
  "appendHead major value e =
     (if value < 24 then e\<lparr>buf := buf e @ [push_bit 5 major OR ucast value]\<rparr>
      else if value \<le> 0xff then e\<lparr>buf := buf e @ [push_bit 5 major OR 24, ucast value]\<rparr>
      else if value \<le> 0xffff then
        e\<lparr>buf := (buf e @ [push_bit 5 major OR 25]) @ be_bytes 2 (unat value)\<rparr>
      else if value \<le> 0xffffffff then
        e\<lparr>buf := (buf e @ [push_bit 5 major OR 26]) @ be_bytes 4 (unat value)\<rparr>
      else e\<lparr>buf := (buf e @ [push_bit 5 major OR 27]) @ be_bytes 8 (unat value)\<rparr>)"

definition enc_Array :: "uint64 \<Rightarrow> encoder \<Rightarrow> encoder" where
  "enc_Array n = appendHead 4 n"

definition enc_Uint :: "uint64 \<Rightarrow> encoder \<Rightarrow> encoder" where
  "enc_Uint v = appendHead 0 v"

definition enc_Nil :: "encoder \<Rightarrow> encoder" where
  "enc_Nil e = e\<lparr>buf := buf e @ [0xf6]\<rparr>"

definition enc_Text :: "string \<Rightarrow> encoder \<Rightarrow> encoder" where
  "enc_Text v e =
     (let e1 = appendHead 3 (word_of_nat (length v)) e
      in e1\<lparr>buf := buf e1 @ bytes_of_string v\<rparr>)"

definition enc_Bytestring :: "byte list \<Rightarrow> encoder \<Rightarrow> encoder" where
  "enc_Bytestring v e =
     (let e1 = appendHead 2 (word_of_nat (length v)) e in e1\<lparr>buf := buf e1 @ v\<rparr>)"

text \<open>One method call on the encoder, and a run of calls in order.\<close>

datatype enc_call =
    CArray uint64
  | CUint uint64
  | CNil
  | CText string
  | CBytes "byte list"

fun exec_call :: "enc_call \<Rightarrow> encoder \<Rightarrow> encoder" where
  "exec_call (CArray n) = enc_Array n"
| "exec_call (CUint v) = enc_Uint v"
| "exec_call CNil = enc_Nil"
| "exec_call (CText v) = enc_Text v"
| "exec_call (CBytes v) = enc_Bytestring v"

definition run_calls :: "enc_call list \<Rightarrow> encoder \<Rightarrow> encoder" where
  "run_calls cs e = fold exec_call cs e"

text \<open>\<open>Encoder.Bytes\<close> of a fresh encoder after the calls.\<close>

definition emit :: "enc_call list \<Rightarrow> byte list" where
  "emit cs = buf (run_calls cs NewEncoder)"

definition head_bytes :: "byte \<Rightarrow> uint64 \<Rightarrow> byte list" where
  "head_bytes major value = buf (appendHead major value NewEncoder)"

fun call_bytes :: "enc_call \<Rightarrow> byte list" where
  "call_bytes (CArray n) = head_bytes 4 n"
| "call_bytes (CUint v) = head_bytes 0 v"
| "call_bytes CNil = [0xf6]"
| "call_bytes (CText v) = head_bytes 3 (word_of_nat (length v)) @ bytes_of_string v"
| "call_bytes (CBytes v) = head_bytes 2 (word_of_nat (length v)) @ v"

lemma appendHead_buf: "appendHead m v e = e\<lparr>buf := buf e @ head_bytes m v\<rparr>"
  by (simp add: appendHead_def head_bytes_def NewEncoder_def)

lemma exec_call_buf: "exec_call c e = e\<lparr>buf := buf e @ call_bytes c\<rparr>"
  by (cases c)
    (simp_all add: enc_Array_def enc_Uint_def enc_Nil_def enc_Text_def enc_Bytestring_def
      appendHead_buf Let_def)

lemma run_calls_buf: "buf (run_calls cs e) = buf e @ concat (map call_bytes cs)"
  unfolding run_calls_def
  by (induction cs arbitrary: e) (simp_all add: exec_call_buf)

lemma emit_eq: "emit cs = concat (map call_bytes cs)"
  by (simp add: emit_def run_calls_buf NewEncoder_def)

lemma emit_Nil [emit_simps]: "emit [] = []"
  and emit_Cons: "emit (c # cs) = call_bytes c @ emit cs"
  and emit_append [emit_simps]: "emit (cs @ ds) = emit cs @ emit ds"
  by (simp_all add: emit_eq)

lemma emit_Cons2 [emit_simps]: "emit (c # d # cs) = emit [c] @ emit (d # cs)"
  by (simp add: emit_eq)

lemma emit_Cons_append [emit_simps]: "emit (c # cs @ ds) = emit [c] @ emit cs @ emit ds"
  by (simp add: emit_eq)

lemma head_bytes_length: "length (head_bytes m v) \<le> 9"
  by (simp add: head_bytes_def appendHead_def NewEncoder_def)

text \<open>An upper bound of what a call appends.\<close>

fun call_size :: "enc_call \<Rightarrow> nat" where
  "call_size (CText v) = 9 + length v"
| "call_size (CBytes v) = 9 + length v"
| "call_size _ = 9"

lemma call_bytes_length: "length (call_bytes c) \<le> call_size c"
  using head_bytes_length by (cases c) (auto intro: order_trans)

lemma emit_length: "length (emit cs) \<le> sum_list (map call_size cs)"
  by (induction cs) (auto simp: emit_eq intro: add_mono call_bytes_length)

section \<open>Decoder\<close>

record decoder =
  data :: "byte list"
  off :: nat

type_synonym 'a parser = "decoder \<Rightarrow> error + ('a \<times> decoder)"

definition NewDecoder :: "byte list \<Rightarrow> decoder" where
  "NewDecoder bs = \<lparr>data = bs, off = 0\<rparr>"

definition Remaining :: "decoder \<Rightarrow> nat" where
  "Remaining d = length (data d) - off d"

definition dret :: "'a \<Rightarrow> 'a parser" where
  "dret x d = Inr (x, d)"

definition dfail :: "error \<Rightarrow> 'a parser" where
  "dfail e d = Inl e"

definition dbind :: "'a parser \<Rightarrow> ('a \<Rightarrow> 'b parser) \<Rightarrow> 'b parser" where
  "dbind p f d = (case p d of Inl e \<Rightarrow> Inl e | Inr (x, d1) \<Rightarrow> f x d1)"

text \<open>\<open>dguard b e\<close>: continue when \<open>b\<close> holds, return \<open>e\<close> otherwise.\<close>

definition dguard :: "bool \<Rightarrow> error \<Rightarrow> unit parser" where
  "dguard b e = (if b then dret () else dfail e)"

text \<open>The error of a call wrapped (\<open>%w\<close>), or replaced by another one.\<close>

definition dwrap :: "string \<Rightarrow> 'a parser \<Rightarrow> 'a parser" where
  "dwrap m p d = (case p d of Inl e \<Rightarrow> Inl (Wrap m e) | Inr r \<Rightarrow> Inr r)"

definition delse :: "error \<Rightarrow> 'a parser \<Rightarrow> 'a parser" where
  "delse e p d = (case p d of Inl _ \<Rightarrow> Inl e | Inr r \<Rightarrow> Inr r)"

text \<open>A counted loop that appends one decoded element per round.\<close>

fun drepeat :: "nat \<Rightarrow> 'a parser \<Rightarrow> 'a list parser" where
  "drepeat 0 p = dret []"
| "drepeat (Suc n) p = dbind p (\<lambda>x. dbind (drepeat n p) (\<lambda>xs. dret (x # xs)))"

definition dec_take :: "uint64 \<Rightarrow> byte list parser" where
  "dec_take n d =
     (if length (data d) - off d < unat n then Inl ErrUnexpectedEOF
      else Inr (take (unat n) (drop (off d) (data d)), d\<lparr>off := off d + unat n\<rparr>))"

text \<open>
  The four wide heads differ in the number of octets and in the values that would have had a
  shorter encoding: \<open>dec_wide n short major\<close> reads \<open>n\<close> octets and rejects those.
\<close>

definition dec_wide :: "uint64 \<Rightarrow> (uint64 \<Rightarrow> bool) \<Rightarrow> byte \<Rightarrow> (byte \<times> uint64) parser" where
  "dec_wide n short major = dbind (dec_take n) (\<lambda>b. let value = word_of_nat (be_nat b) in
     if short value then dfail ErrNonCanonical else dret (major, value))"

definition dec_head :: "(byte \<times> uint64) parser" where
  "dec_head d =
     (if length (data d) \<le> off d then Inl ErrUnexpectedEOF
      else
        let initial = data d ! off d;
            d1 = d\<lparr>off := off d + 1\<rparr>;
            major = drop_bit 5 initial;
            ai = initial AND 0x1f
        in if ai < 24 then Inr ((major, ucast ai), d1)
           else if ai = 24 then dec_wide 1 (\<lambda>value. value < 24) major d1
           else if ai = 25 then dec_wide 2 (\<lambda>value. value \<le> 0xff) major d1
           else if ai = 26 then dec_wide 4 (\<lambda>value. value \<le> 0xffff) major d1
           else if ai = 27 then dec_wide 8 (\<lambda>value. value \<le> 0xffffffff) major d1
           else Inl (Wrap ''indefinite or reserved additional information'' ErrUnsupportedType))"

definition dec_Array :: "uint64 parser" where
  "dec_Array = dbind dec_head (\<lambda>(major, value).
     if major \<noteq> 4 then dfail (Wrap ''expected array'' ErrUnsupportedType) else dret value)"

definition dec_Uint :: "uint64 parser" where
  "dec_Uint = dbind dec_head (\<lambda>(major, value).
     if major \<noteq> 0 then dfail (Wrap ''expected unsigned integer'' ErrUnsupportedType)
     else dret value)"

definition dec_TryNil :: "bool parser" where
  "dec_TryNil d =
     (if length (data d) \<le> off d then Inl ErrUnexpectedEOF
      else if data d ! off d = 0xf6 then Inr (True, d\<lparr>off := off d + 1\<rparr>)
      else Inr (False, d))"

definition dec_Text :: "uint64 \<Rightarrow> string parser" where
  "dec_Text limit = dbind dec_head (\<lambda>(major, n).
     if major \<noteq> 3 then dfail (Wrap ''expected text string'' ErrUnsupportedType)
     else if n > limit then dfail (Msg ''text length exceeds limit'')
     else dbind (dec_take n) (\<lambda>b.
       if \<not> utf8_valid b then dfail ErrInvalidUTF8 else dret (string_of_bytes b)))"

definition dec_Bytestring :: "uint64 \<Rightarrow> byte list parser" where
  "dec_Bytestring limit = dbind dec_head (\<lambda>(major, n).
     if major \<noteq> 2 then dfail (Wrap ''expected byte string'' ErrUnsupportedType)
     else if n > limit then dfail (Msg ''byte-string length exceeds limit'')
     else dec_take n)"

section \<open>The head of a data item\<close>

lemma byte_take5: "v < 32 \<Longrightarrow> take_bit 5 v = (v :: byte)"
  by (simp add: word_unat_eq_iff unsigned_take_bit_eq word_less_nat_alt take_bit_nat_def)

lemma byte_take3: "v < 8 \<Longrightarrow> take_bit 3 v = (v :: byte)"
  by (simp add: word_unat_eq_iff unsigned_take_bit_eq word_less_nat_alt take_bit_nat_def)

lemma head_major:
  assumes "m < 8" "v < 32"
  shows "drop_bit 5 (push_bit 5 m OR v) = (m :: byte)"
proof -
  have "drop_bit 5 v = drop_bit 5 (take_bit 5 v)" using assms(2) by (simp add: byte_take5)
  also have "\<dots> = 0" by (rule bit_word_eqI) (auto simp: bit_simps)
  finally have v: "drop_bit 5 v = 0" .
  have "drop_bit 5 (push_bit 5 m) = take_bit 3 m"
    by (rule bit_word_eqI) (auto simp: bit_simps)
  then show ?thesis using assms v by (simp add: byte_take3 drop_bit_or)
qed

lemma head_ai:
  assumes "v < 32"
  shows "(push_bit 5 m OR v) AND 0x1f = (v :: byte)"
proof -
  have m: "(0x1f::byte) = mask 5" by (simp add: mask_eq_exp_minus_1)
  have "take_bit 5 (push_bit 5 m) = (0::byte)"
    by (rule bit_word_eqI) (auto simp: bit_simps)
  then show ?thesis using assms
    by (simp add: m flip: take_bit_eq_mask) (simp add: byte_take5)
qed

lemma head_join: "push_bit 5 (drop_bit 5 i) OR (i AND 0x1f) = (i :: byte)"
proof -
  have m: "(0x1f::byte) = mask 5" by (simp add: mask_eq_exp_minus_1)
  show ?thesis by (rule bit_word_eqI) (auto simp: bit_simps m)
qed

lemma head_major_bound: "drop_bit 5 (i :: byte) < 8"
proof -
  have "unat i div 32 < 8" using unat_byte_bound [of i] by simp
  then show ?thesis by (simp add: word_less_nat_alt unat_drop_bit_eq drop_bit_nat_def)
qed

lemma head_ai_bound: "(i :: byte) AND 0x1f < 32"
  by (rule order_le_less_trans [OF word_and_le1]) (simp add: word_less_nat_alt)

lemma unat_ucast_byte: "v < 256 \<Longrightarrow> unat (ucast (v::uint64) :: byte) = unat v"
  by (simp add: unsigned_ucast_eq word_less_nat_alt take_bit_nat_def)

lemma unat_ucast_64: "unat (ucast (b::byte) :: uint64) = unat b"
  by (simp add: unsigned_ucast_eq take_bit_nat_def less_trans [OF unat_byte_bound])

lemma ucast_byte_64: "v < 256 \<Longrightarrow> ucast (ucast (v::uint64) :: byte) = v"
  by (simp add: word_unat_eq_iff unat_ucast_64 unat_ucast_byte)

lemma ucast_byte_less: "v < 24 \<Longrightarrow> (ucast (v::uint64) :: byte) < 24"
  using unat_ucast_byte [of v] by (simp add: word_less_nat_alt)

lemma ucast_64_byte: "ucast (ucast (b::byte) :: uint64) = b"
  using unat_byte_bound [of b]
  by (simp add: word_unat_eq_iff unat_ucast_64 unat_ucast_byte word_less_nat_alt)

lemma be_bytes_unat_of_nat:
  "length bs \<le> 8 \<Longrightarrow> be_bytes (length bs) (unat (word_of_nat (be_nat bs) :: uint64)) = bs"
proof -
  assume "length bs \<le> 8"
  then have "(256::nat) ^ length bs \<le> 256 ^ 8" by (rule power_increasing) simp
  then have "be_nat bs < 2 ^ 64" using be_nat_bound [of bs] by simp
  then show ?thesis by (simp add: unat_of_nat be_bytes_be_nat)
qed

lemma be_nat_be_bytes_64: "unat (v :: uint64) < 256 ^ k \<Longrightarrow> word_of_nat (be_nat (be_bytes k (unat v))) = v"
  by (simp add: be_nat_be_bytes)

section \<open>Decoding in front of further input\<close>

text \<open>A decoder that has read \<open>pre\<close> and still has \<open>s\<close> to read.\<close>

definition dec_at :: "byte list \<Rightarrow> byte list \<Rightarrow> decoder" where
  "dec_at pre s = \<lparr>data = pre @ s, off = length pre\<rparr>"

lemma NewDecoder_at: "NewDecoder bs = dec_at [] bs"
  by (simp add: NewDecoder_def dec_at_def)

lemma Remaining_at [simp]: "Remaining (dec_at pre s) = length s"
  by (simp add: Remaining_def dec_at_def)

lemma dec_at_inject: "dec_at pre s = dec_at pre t \<longleftrightarrow> s = t"
  by (simp add: dec_at_def)

lemma dret_Inr: "dret x d = Inr (y, d') \<longleftrightarrow> y = x \<and> d' = d"
  by (auto simp: dret_def)

lemma dfail_Inr [simp]: "dfail e d \<noteq> Inr r"
  by (simp add: dfail_def)

lemma dbind_Inr: "dbind p f d = Inr r \<longleftrightarrow> (\<exists>x d1. p d = Inr (x, d1) \<and> f x d1 = Inr r)"
  by (auto simp: dbind_def split: sum.splits)

lemma dwrap_Inr [simp]: "dwrap m p d = Inr r \<longleftrightarrow> p d = Inr r"
  by (simp add: dwrap_def split: sum.splits)

lemma delse_Inr [simp]: "delse e p d = Inr r \<longleftrightarrow> p d = Inr r"
  by (simp add: delse_def split: sum.splits)

lemma dguard_Inr: "dguard b e d = Inr r \<longleftrightarrow> b \<and> r = ((), d)"
  by (auto simp: dguard_def dret_def)

text \<open>Stepping lemmas: a decoding step whose result is known.\<close>

lemma dbind_step: "p d = Inr (x, d1) \<Longrightarrow> dbind p f d = f x d1"
  by (simp add: dbind_def)

lemma dwrap_step: "p d = Inr r \<Longrightarrow> dwrap m p d = Inr r"
  and delse_step: "p d = Inr r \<Longrightarrow> delse e p d = Inr r"
  and dguard_step: "b \<Longrightarrow> dguard b e d = Inr ((), d)"
  by (simp_all add: dguard_def dret_def)

lemma dec_take_at:
  "unat n = length c \<Longrightarrow> dec_take n (dec_at pre (c @ r)) = Inr (c, dec_at (pre @ c) r)"
  by (simp add: dec_take_def dec_at_def)

lemma dec_take_at_Inr:
  "dec_take n (dec_at pre s) = Inr (b, d') \<longleftrightarrow>
     (\<exists>r. s = b @ r \<and> length b = unat n \<and> d' = dec_at (pre @ b) r)"
proof
  assume "dec_take n (dec_at pre s) = Inr (b, d')"
  then have le: "unat n \<le> length s" and b: "b = take (unat n) s"
    and d': "d' = \<lparr>data = pre @ s, off = length pre + unat n\<rparr>"
    by (auto simp: dec_take_def dec_at_def split: if_splits)
  show "\<exists>r. s = b @ r \<and> length b = unat n \<and> d' = dec_at (pre @ b) r"
    using le by (intro exI [of _ "drop (unat n) s"]) (simp add: b d' dec_at_def)
next
  assume "\<exists>r. s = b @ r \<and> length b = unat n \<and> d' = dec_at (pre @ b) r"
  then show "dec_take n (dec_at pre s) = Inr (b, d')"
    by (auto simp: dec_take_at)
qed

lemma head_bytes_eq:
  "head_bytes m v =
     (if v < 24 then [push_bit 5 m OR ucast v]
      else if v \<le> 0xff then [push_bit 5 m OR 24, ucast v]
      else if v \<le> 0xffff then (push_bit 5 m OR 25) # be_bytes 2 (unat v)
      else if v \<le> 0xffffffff then (push_bit 5 m OR 26) # be_bytes 4 (unat v)
      else (push_bit 5 m OR 27) # be_bytes 8 (unat v))"
  by (simp add: head_bytes_def appendHead_def NewEncoder_def del: be_bytes.simps)

lemma head_bytes_cases:
  obtains "v < 24" "head_bytes m v = [push_bit 5 m OR ucast v]"
  | "24 \<le> v" "v \<le> 0xff" "head_bytes m v = [push_bit 5 m OR 24, ucast v]"
  | "0xff < v" "v \<le> 0xffff" "head_bytes m v = (push_bit 5 m OR 25) # be_bytes 2 (unat v)"
  | "0xffff < v" "v \<le> 0xffffffff" "head_bytes m v = (push_bit 5 m OR 26) # be_bytes 4 (unat v)"
  | "0xffffffff < v" "head_bytes m v = (push_bit 5 m OR 27) # be_bytes 8 (unat v)"
  by (cases "v < 24"; cases "v \<le> 0xff"; cases "v \<le> 0xffff"; cases "v \<le> 0xffffffff")
    (simp_all add: head_bytes_eq not_le not_less del: be_bytes.simps)

lemma dec_head_Nil: "dec_head (dec_at pre []) = Inl ErrUnexpectedEOF"
  by (simp add: dec_head_def dec_at_def)

lemma dec_head_Cons:
  "dec_head (dec_at pre (x # t)) =
     (let d1 = dec_at (pre @ [x]) t; major = drop_bit 5 x; ai = x AND 0x1f
      in if ai < 24 then Inr ((major, ucast ai), d1)
         else if ai = 24 then dec_wide 1 (\<lambda>value. value < 24) major d1
         else if ai = 25 then dec_wide 2 (\<lambda>value. value \<le> 0xff) major d1
         else if ai = 26 then dec_wide 4 (\<lambda>value. value \<le> 0xffff) major d1
         else if ai = 27 then dec_wide 8 (\<lambda>value. value \<le> 0xffffffff) major d1
         else Inl (Wrap ''indefinite or reserved additional information'' ErrUnsupportedType))"
proof -
  have "(dec_at pre (x # t))\<lparr>off := off (dec_at pre (x # t)) + 1\<rparr> = dec_at (pre @ [x]) t"
    and "data (dec_at pre (x # t)) ! off (dec_at pre (x # t)) = x"
    and "\<not> length (data (dec_at pre (x # t))) \<le> off (dec_at pre (x # t))"
    by (simp_all add: dec_at_def)
  then show ?thesis unfolding dec_head_def by (simp only: if_False Let_def)
qed

lemma take_one: "v \<le> 0xff \<Longrightarrow> be_bytes 1 (unat (v :: uint64)) = [ucast v]"
  by (simp add: word_unat_eq_iff unat_ucast_byte unat_of_nat word_less_nat_alt word_le_nat_alt)

lemma dec_wide_at:
  assumes "unat v < 256 ^ unat n" and "\<not> short v"
  shows "dec_wide n short m (dec_at p (be_bytes (unat n) (unat v) @ r)) =
         Inr ((m, v), dec_at (p @ be_bytes (unat n) (unat v)) r)"
proof -
  have "dec_take n (dec_at p (be_bytes (unat n) (unat v) @ r)) =
        Inr (be_bytes (unat n) (unat v), dec_at (p @ be_bytes (unat n) (unat v)) r)"
    by (rule dec_take_at) simp
  then show ?thesis
    using assms by (simp add: dec_wide_def dbind_step be_nat_be_bytes_64 dret_def)
qed

lemma dec_wide_at_Inr:
  assumes "dec_wide n short major (dec_at p t) = Inr ((m, v), d')" and n: "unat n \<le> 8"
  shows "m = major \<and> \<not> short v \<and> unat v < 256 ^ unat n \<and>
         (\<exists>r. t = be_bytes (unat n) (unat v) @ r \<and> d' = dec_at (p @ be_bytes (unat n) (unat v)) r)"
proof -
  from assms(1) obtain b r where b: "t = b @ r" "length b = unat n" "d' = dec_at (p @ b) r"
    and m: "m = major" and v: "v = word_of_nat (be_nat b)" and np: "\<not> short v"
    by (auto simp: dec_wide_def dbind_Inr dec_take_at_Inr Let_def dret_def split: if_splits)
  have eq: "be_bytes (unat n) (unat v) = b"
    using be_bytes_unat_of_nat [of b] b(2) n unfolding v by simp
  have "unat v \<le> be_nat b" by (simp add: v unat_of_nat)
  then have "unat v < 256 ^ unat n" using be_nat_bound [of b] b(2) by simp
  with eq b m np show ?thesis by auto
qed

text \<open>The head law, in both directions.\<close>

lemma dec_head_at:
  assumes "m < 8"
  shows "dec_head (dec_at pre (head_bytes m v @ r)) =
         Inr ((m, v), dec_at (pre @ head_bytes m v) r)"
proof (cases m v rule: head_bytes_cases)
  case 1
  have "(ucast v :: byte) < 24" using 1(1) by (rule ucast_byte_less)
  moreover from this have "(ucast v :: byte) < 32" by (rule less_trans) simp
  moreover have "v < 256" using 1(1) by (rule order_less_trans) simp
  ultimately show ?thesis
    using assms 1 by (simp add: dec_head_Cons head_major head_ai ucast_byte_64 del: drop_bit_or)
next
  case 2
  have "head_bytes m v = (push_bit 5 m OR 24) # be_bytes (unat (1::uint64)) (unat v)"
    using 2 take_one [of v] by simp
  then show ?thesis
    using assms 2(1,2) dec_wide_at [of v 1 "\<lambda>v. v < 24" m "pre @ [push_bit 5 m OR 24]" r]
    by (simp add: dec_head_Cons head_major head_ai word_le_nat_alt word_less_nat_alt
        del: be_bytes.simps One_nat_def drop_bit_or)
next
  case 3
  then show ?thesis
    using assms dec_wide_at [of v 2 "\<lambda>v. v \<le> 0xff" m "pre @ [push_bit 5 m OR 25]" r]
    by (simp add: dec_head_Cons head_major head_ai word_le_nat_alt word_less_nat_alt del: drop_bit_or)
next
  case 4
  then show ?thesis
    using assms dec_wide_at [of v 4 "\<lambda>v. v \<le> 0xffff" m "pre @ [push_bit 5 m OR 26]" r]
    by (simp add: dec_head_Cons head_major head_ai word_le_nat_alt word_less_nat_alt del: drop_bit_or)
next
  case 5
  then show ?thesis
    using assms dec_wide_at [of v 8 "\<lambda>v. v \<le> 0xffffffff" m "pre @ [push_bit 5 m OR 27]" r]
      unat_uint64_bound [of v]
    by (simp add: dec_head_Cons head_major head_ai word_le_nat_alt word_less_nat_alt del: drop_bit_or)
qed

lemma head_bytes_from:
  assumes x: "push_bit 5 m OR ai = x"
  shows "v < 24 \<Longrightarrow> ai = ucast v \<Longrightarrow> head_bytes m v = [x]"
    and "24 \<le> v \<Longrightarrow> unat v < 256 \<Longrightarrow> ai = 24 \<Longrightarrow> head_bytes m v = x # be_bytes 1 (unat v)"
    and "0xff < v \<Longrightarrow> unat v < 65536 \<Longrightarrow> ai = 25 \<Longrightarrow> head_bytes m v = x # be_bytes 2 (unat v)"
    and "0xffff < v \<Longrightarrow> unat v < 4294967296 \<Longrightarrow> ai = 26 \<Longrightarrow> head_bytes m v = x # be_bytes 4 (unat v)"
    and "0xffffffff < v \<Longrightarrow> ai = 27 \<Longrightarrow> head_bytes m v = x # be_bytes 8 (unat v)"
  using x take_one [of v]
  by (cases m v rule: head_bytes_cases;
      clarsimp simp: word_le_nat_alt word_less_nat_alt simp del: be_bytes.simps One_nat_def)+

lemma dec_head_at_Inr:
  assumes "dec_head (dec_at pre s) = Inr ((m, v), d')"
  shows "m < 8 \<and> (\<exists>r. s = head_bytes m v @ r \<and> d' = dec_at (pre @ head_bytes m v) r)"
proof (cases s)
  case Nil
  with assms show ?thesis by (simp add: dec_head_Nil)
next
  case (Cons x t)
  have join: "push_bit 5 (drop_bit 5 x) OR (x AND 0x1f) = x" by (rule head_join)
  note fromx = head_bytes_from [OF join]
  note eq = assms [unfolded Cons dec_head_Cons Let_def]
  have "m = drop_bit 5 x \<and> (\<exists>r. s = head_bytes m v @ r \<and> d' = dec_at (pre @ head_bytes m v) r)"
  proof (cases "x AND 0x1f < 24")
    case True
    with eq have e: "m = drop_bit 5 x" "v = ucast (x AND 0x1f)" "d' = dec_at (pre @ [x]) t"
      by simp_all
    have "unat v = unat (x AND 0x1f)" unfolding e(2) by (rule unat_ucast_64)
    with True have "v < 24" by (simp add: word_less_nat_alt)
    then have "head_bytes (drop_bit 5 x) v = [x]"
      by (rule fromx(1)) (simp only: e(2) ucast_64_byte)
    then show ?thesis using e(1,3) Cons by simp
  next
    case False
    then consider
        "x AND 0x1f = 24" "dec_wide 1 (\<lambda>v. v < 24) (drop_bit 5 x) (dec_at (pre @ [x]) t) = Inr ((m, v), d')"
      | "x AND 0x1f = 25" "dec_wide 2 (\<lambda>v. v \<le> 0xff) (drop_bit 5 x) (dec_at (pre @ [x]) t) = Inr ((m, v), d')"
      | "x AND 0x1f = 26" "dec_wide 4 (\<lambda>v. v \<le> 0xffff) (drop_bit 5 x) (dec_at (pre @ [x]) t) = Inr ((m, v), d')"
      | "x AND 0x1f = 27" "dec_wide 8 (\<lambda>v. v \<le> 0xffffffff) (drop_bit 5 x) (dec_at (pre @ [x]) t) = Inr ((m, v), d')"
      using eq by (simp split: if_splits)
    then show ?thesis
    proof cases
      case 1
      from dec_wide_at_Inr [OF 1(2)] show ?thesis
        using fromx(2) [of v] 1(1) Cons by (auto simp: not_less simp del: be_bytes.simps)
    next
      case 2
      from dec_wide_at_Inr [OF 2(2)] show ?thesis
        using fromx(3) [of v] 2(1) Cons by (auto simp: not_le simp del: be_bytes.simps)
    next
      case 3
      from dec_wide_at_Inr [OF 3(2)] show ?thesis
        using fromx(4) [of v] 3(1) Cons by (auto simp: not_le simp del: be_bytes.simps)
    next
      case 4
      from dec_wide_at_Inr [OF 4(2)] show ?thesis
        using fromx(5) [of v] 4(1) Cons by (auto simp: not_le simp del: be_bytes.simps)
    qed
  qed
  then show ?thesis using head_major_bound [of x] by auto
qed

section \<open>Sound parsers\<close>

text \<open>
  \<open>dec_sound p P\<close>: whatever \<open>p\<close> returns, it has consumed octets \<open>c\<close> that
  are related to the result by \<open>P\<close>. The rules follow the combinators, so the soundness
  of a document's parser is one rule application per field.
\<close>

definition dec_sound :: "'a parser \<Rightarrow> ('a \<Rightarrow> byte list \<Rightarrow> bool) \<Rightarrow> bool" where
  "dec_sound p P \<longleftrightarrow> (\<forall>pre s x d'. p (dec_at pre s) = Inr (x, d') \<longrightarrow>
     (\<exists>c r. s = c @ r \<and> d' = dec_at (pre @ c) r \<and> P x c))"

lemma dec_soundI:
  assumes "\<And>pre s x d'. p (dec_at pre s) = Inr (x, d') \<Longrightarrow>
    \<exists>c r. s = c @ r \<and> d' = dec_at (pre @ c) r \<and> P x c"
  shows "dec_sound p P"
  using assms unfolding dec_sound_def by simp

lemma dec_soundD:
  assumes "dec_sound p P" and "p (dec_at pre s) = Inr (x, d')"
  obtains c r where "s = c @ r" "d' = dec_at (pre @ c) r" "P x c"
proof -
  from assms have "\<exists>c r. s = c @ r \<and> d' = dec_at (pre @ c) r \<and> P x c"
    unfolding dec_sound_def by simp
  with that show ?thesis by (elim exE conjE)
qed

lemma dec_sound_mono:
  assumes "dec_sound p P" and "\<And>x c. P x c \<Longrightarrow> Q x c"
  shows "dec_sound p Q"
  by (rule dec_soundI, erule dec_soundD [OF assms(1)]) (intro exI conjI, assumption+, rule assms(2))

lemma dec_sound_bind:
  assumes "dec_sound p P" and "\<And>x c. P x c \<Longrightarrow> dec_sound (f x) (\<lambda>y c'. Q y (c @ c'))"
  shows "dec_sound (dbind p f) Q"
proof (rule dec_soundI)
  fix pre s y d'
  assume "dbind p f (dec_at pre s) = Inr (y, d')"
  then obtain x d1 where 1: "p (dec_at pre s) = Inr (x, d1)" and 2: "f x d1 = Inr (y, d')"
    by (auto simp: dbind_Inr)
  from assms(1) 1 obtain c r where c: "s = c @ r" "d1 = dec_at (pre @ c) r" "P x c"
    by (rule dec_soundD)
  from assms(2) [OF c(3)] 2 [unfolded c(2)]
  obtain c' r' where c': "r = c' @ r'" "d' = dec_at ((pre @ c) @ c') r'" "Q y (c @ c')"
    by (rule dec_soundD)
  show "\<exists>c r. s = c @ r \<and> d' = dec_at (pre @ c) r \<and> Q y c"
    by (rule exI [of _ "c @ c'"], rule exI [of _ r']) (simp add: c(1) c')
qed

lemma dec_sound_ret: "Q x [] \<Longrightarrow> dec_sound (dret x) Q"
  by (rule dec_soundI, rule exI [of _ "[]"]) (simp add: dret_Inr)

lemma dec_sound_fail: "dec_sound (dfail e) Q"
  unfolding dec_sound_def by simp

lemma dec_sound_guard: "dec_sound (dguard b e) (\<lambda>x c. b \<and> c = [])"
  unfolding dec_sound_def by (auto simp: dguard_Inr)

lemma dec_sound_if:
  "(b \<Longrightarrow> dec_sound p Q) \<Longrightarrow> (\<not> b \<Longrightarrow> dec_sound q Q) \<Longrightarrow> dec_sound (if b then p else q) Q"
  by simp

lemma dec_sound_wrap: "dec_sound p Q \<Longrightarrow> dec_sound (dwrap m p) Q"
  and dec_sound_else: "dec_sound p Q \<Longrightarrow> dec_sound (delse e p) Q"
  unfolding dec_sound_def by simp_all

lemma dec_sound_head: "dec_sound dec_head (\<lambda>(m, v) c. m < 8 \<and> c = head_bytes m v)"
  unfolding dec_sound_def by (auto dest: dec_head_at_Inr)

lemma dec_sound_take: "dec_sound (dec_take n) (\<lambda>b c. c = b \<and> length b = unat n)"
  unfolding dec_sound_def by (auto simp: dec_take_at_Inr)

lemma dec_sound_repeat:
  assumes "dec_sound p (\<lambda>x c. ok x \<and> c = enc x)"
  shows "dec_sound (drepeat n p) (\<lambda>xs c. length xs = n \<and> list_all ok xs \<and> c = concat (map enc xs))"
proof (induction n)
  case 0
  then show ?case by (simp add: dec_sound_ret)
next
  case (Suc n)
  show ?case
    by (simp only: drepeat.simps)
      (rule dec_sound_bind [OF assms], rule dec_sound_bind [OF Suc], rule dec_sound_ret, auto)
qed

lemma emit_concat: "emit (concat (map f xs)) = concat (map (\<lambda>x. emit (f x)) xs)"
  by (induction xs) (simp_all add: emit_simps)

section \<open>The codec interface\<close>

text \<open>
  What a document asks of the encoding of a part: \<open>enc\<close> are the encoder calls for a value,
  \<open>dec\<close> is the parser, \<open>ok\<close> the values the parser can return. A law for each
  direction, in front of any further input.
\<close>

locale codec =
  fixes enc :: "'a \<Rightarrow> enc_call list"
    and dec :: "'a parser"
    and ok :: "'a \<Rightarrow> bool"
  assumes complete: "ok x \<Longrightarrow>
      dec (dec_at pre (emit (enc x) @ r)) = Inr (x, dec_at (pre @ emit (enc x)) r)"
    and sound: "dec_sound dec (\<lambda>x c. ok x \<and> c = emit (enc x))"
begin

lemma complete_last: "ok x \<Longrightarrow> dec (dec_at pre (emit (enc x))) = Inr (x, dec_at (pre @ emit (enc x)) [])"
  using complete [of x pre "[]"] by simp

lemma decode_iff:
  "dec (dec_at pre s) = Inr (x, d') \<longleftrightarrow>
     ok x \<and> (\<exists>r. s = emit (enc x) @ r \<and> d' = dec_at (pre @ emit (enc x)) r)"
  using complete sound by (auto elim!: dec_soundD)

lemma unambiguous:
  assumes "ok x" "ok y" "emit (enc x) @ r = emit (enc y) @ s"
  shows "x = y \<and> r = s"
  using complete [OF assms(1), of "[]" r] complete [OF assms(2), of "[]" s] assms(3) by simp

lemma injective: "ok x \<Longrightarrow> ok y \<Longrightarrow> emit (enc x) = emit (enc y) \<Longrightarrow> x = y"
  using unambiguous [of x y "[]" "[]"] by simp

lemma nonempty_progress: "dec (dec_at pre s) = Inr (x, d') \<Longrightarrow> Remaining d' \<le> length s"
  by (auto simp: decode_iff)

lemma repeat_complete:
  "list_all ok xs \<Longrightarrow> n = length xs \<Longrightarrow>
     drepeat n dec (dec_at pre (emit (concat (map enc xs)) @ r)) =
     Inr (xs, dec_at (pre @ emit (concat (map enc xs))) r)"
proof (induction xs arbitrary: pre n)
  case Nil
  then show ?case by (simp add: dret_def emit_simps)
next
  case (Cons x xs)
  then show ?case by (simp add: dbind_def complete dret_def emit_simps)
qed

lemma repeat_sound:
  "dec_sound (drepeat n dec) (\<lambda>xs c. length xs = n \<and> list_all ok xs \<and> c = emit (concat (map enc xs)))"
  by (rule dec_sound_mono [OF dec_sound_repeat [OF sound]]) (simp add: emit_concat)

lemma wrap_codec: "codec enc (dwrap m dec) ok"
  using complete sound by unfold_locales (auto simp: dwrap_step intro: dec_sound_wrap)

lemma else_codec: "codec enc (delse e dec) ok"
  using complete sound by unfold_locales (auto simp: delse_step intro: dec_sound_else)

end

section \<open>The methods are codecs\<close>

text \<open>What \<open>Text\<close> and \<open>Bytestring\<close> can carry under a limit.\<close>

definition text_ok :: "uint64 \<Rightarrow> string \<Rightarrow> bool" where
  "text_ok limit s \<longleftrightarrow> length s \<le> unat limit \<and> utf8_valid_string s"

definition bytes_ok :: "uint64 \<Rightarrow> byte list \<Rightarrow> bool" where
  "bytes_ok limit b \<longleftrightarrow> length b \<le> unat limit"

lemma unat_of_length: "n \<le> unat (limit :: uint64) \<Longrightarrow> unat (word_of_nat n :: uint64) = n"
  using unat_uint64_bound [of limit] by (simp add: unat_of_nat)

lemma word_of_length_le: "n \<le> unat (limit :: uint64) \<Longrightarrow> \<not> limit < (word_of_nat n :: uint64)"
  by (simp add: word_less_nat_alt unat_of_length)

interpretation cbor_array: codec "\<lambda>n. [CArray n]" dec_Array "\<lambda>_. True"
proof
  show "dec_Array (dec_at pre (emit [CArray x] @ r)) = Inr (x, dec_at (pre @ emit [CArray x]) r)"
    for x pre r
    by (simp add: dec_Array_def dbind_def dec_head_at dret_def emit_Cons emit_Nil)
  show "dec_sound dec_Array (\<lambda>x c. True \<and> c = emit [CArray x])"
    unfolding dec_Array_def
    by (rule dec_sound_bind [OF dec_sound_head])
      (auto intro!: dec_sound_ret dec_sound_fail simp: emit_Cons emit_Nil)
qed

interpretation cbor_uint: codec "\<lambda>v. [CUint v]" dec_Uint "\<lambda>_. True"
proof
  show "dec_Uint (dec_at pre (emit [CUint x] @ r)) = Inr (x, dec_at (pre @ emit [CUint x]) r)"
    for x pre r
    by (simp add: dec_Uint_def dbind_def dec_head_at dret_def emit_Cons emit_Nil)
  show "dec_sound dec_Uint (\<lambda>x c. True \<and> c = emit [CUint x])"
    unfolding dec_Uint_def
    by (rule dec_sound_bind [OF dec_sound_head])
      (auto intro!: dec_sound_ret dec_sound_fail simp: emit_Cons emit_Nil)
qed

interpretation cbor_text: codec "\<lambda>s. [CText s]" "dec_Text limit" "text_ok limit" for limit
proof
  fix x pre r
  assume ok: "text_ok limit x"
  let ?h = "head_bytes 3 (word_of_nat (length x))"
  have e: "emit [CText x] = ?h @ bytes_of_string x" by (simp add: emit_Cons emit_Nil)
  have "dec_take (word_of_nat (length x)) (dec_at (pre @ ?h) (bytes_of_string x @ r)) =
        Inr (bytes_of_string x, dec_at ((pre @ ?h) @ bytes_of_string x) r)"
    using ok by (intro dec_take_at) (simp add: text_ok_def unat_of_length [of _ limit])
  then show "dec_Text limit (dec_at pre (emit [CText x] @ r)) =
      Inr (x, dec_at (pre @ emit [CText x]) r)"
    using ok
    by (simp add: e dec_Text_def dbind_def dec_head_at text_ok_def word_of_length_le dret_def
        utf8_valid_string_def)
next
  show "dec_sound (dec_Text limit) (\<lambda>x c. text_ok limit x \<and> c = emit [CText x])"
    unfolding dec_Text_def
  proof (rule dec_sound_bind [OF dec_sound_head], clarsimp split del: if_split)
    fix n :: uint64
    have fin: "text_ok limit (string_of_bytes b) \<and>
        head_bytes m n @ b = emit [CText (string_of_bytes b)]"
      if "m = 3" "\<not> limit < n" "length b = unat n" "utf8_valid b" for m b
      using that
      by (simp add: text_ok_def utf8_valid_string_def emit_Cons emit_Nil word_less_nat_alt)
    show "dec_sound
        (if m \<noteq> 3 then dfail (Wrap ''expected text string'' ErrUnsupportedType)
         else if limit < n then dfail (Msg ''text length exceeds limit'')
         else dbind (dec_take n) (\<lambda>b. if \<not> utf8_valid b then dfail ErrInvalidUTF8
                                     else dret (string_of_bytes b)))
        (\<lambda>y c'. text_ok limit y \<and> head_bytes m n @ c' = emit [CText y])" for m
      by (intro dec_sound_if dec_sound_fail dec_sound_bind [OF dec_sound_take] dec_sound_ret)
        (use fin in auto)
  qed
qed

text \<open>A text beyond the limit of the reading method is refused.\<close>

lemma dec_Text_too_long:
  assumes "unat limit < length s" "length s < 2 ^ 64"
  shows "dec_Text limit (dec_at pre (emit [CText s] @ r)) = Inl (Msg ''text length exceeds limit'')"
proof -
  have e: "emit [CText s] = head_bytes 3 (word_of_nat (length s)) @ bytes_of_string s"
    by (simp add: emit_Cons emit_Nil)
  have "limit < word_of_nat (length s)"
    using assms by (simp add: word_less_nat_alt unat_of_nat)
  then show ?thesis by (simp add: e dec_Text_def dbind_def dec_head_at dfail_def)
qed

interpretation cbor_bytes: codec "\<lambda>b. [CBytes b]" "dec_Bytestring limit" "bytes_ok limit" for limit
proof
  fix x pre r
  assume ok: "bytes_ok limit x"
  let ?h = "head_bytes 2 (word_of_nat (length x))"
  have e: "emit [CBytes x] = ?h @ x" by (simp add: emit_Cons emit_Nil)
  have "dec_take (word_of_nat (length x)) (dec_at (pre @ ?h) (x @ r)) =
        Inr (x, dec_at ((pre @ ?h) @ x) r)"
    using ok by (intro dec_take_at) (simp add: bytes_ok_def unat_of_length [of _ limit])
  then show "dec_Bytestring limit (dec_at pre (emit [CBytes x] @ r)) =
      Inr (x, dec_at (pre @ emit [CBytes x]) r)"
    using ok by (simp add: e dec_Bytestring_def dbind_def dec_head_at bytes_ok_def word_of_length_le)
next
  show "dec_sound (dec_Bytestring limit) (\<lambda>x c. bytes_ok limit x \<and> c = emit [CBytes x])"
    unfolding dec_Bytestring_def
  proof (rule dec_sound_bind [OF dec_sound_head], clarsimp split del: if_split)
    fix n :: uint64
    have fin: "bytes_ok limit b \<and> head_bytes m n @ b = emit [CBytes b]"
      if "m = 2" "\<not> limit < n" "length b = unat n" for m b
      using that by (simp add: bytes_ok_def emit_Cons emit_Nil word_less_nat_alt)
    show "dec_sound
        (if m \<noteq> 2 then dfail (Wrap ''expected byte string'' ErrUnsupportedType)
         else if limit < n then dfail (Msg ''byte-string length exceeds limit'')
         else dec_take n)
        (\<lambda>y c'. bytes_ok limit y \<and> head_bytes m n @ c' = emit [CBytes y])" for m
      by (intro dec_sound_if dec_sound_fail dec_sound_mono [OF dec_sound_take]) (use fin in auto)
  qed
qed

section \<open>Arrays of a fixed or bounded length\<close>

text \<open>
  \<^verbatim>\<open>n, err := dec.Array(); if err != nil || n != want { return e }\<close> and the same
  with bounds, followed by the loop that decodes the elements.
\<close>

definition expect_Array :: "uint64 \<Rightarrow> error \<Rightarrow> unit parser" where
  "expect_Array want e = dbind (delse e dec_Array) (\<lambda>n. dguard (n = want) e)"

definition dec_counted :: "uint64 \<Rightarrow> uint64 \<Rightarrow> error \<Rightarrow> 'a parser \<Rightarrow> 'a list parser" where
  "dec_counted lo hi e p =
     dbind (delse e dec_Array) (\<lambda>n. dbind (dguard (lo \<le> n \<and> n \<le> hi) e) (\<lambda>_. drepeat (unat n) p))"

definition enc_counted :: "('a \<Rightarrow> enc_call list) \<Rightarrow> 'a list \<Rightarrow> enc_call list" where
  "enc_counted f xs = CArray (word_of_nat (length xs)) # concat (map f xs)"

lemma emit_Cons_counted [emit_simps]: "emit (c # enc_counted f xs) = emit [c] @ emit (enc_counted f xs)"
  by (simp add: emit_eq)

interpretation cbor_expect: codec "\<lambda>_ :: unit. [CArray want]" "expect_Array want e" "\<lambda>_. True" for want e
proof
  show "expect_Array want e (dec_at pre (emit [CArray want] @ r)) =
      Inr (x, dec_at (pre @ emit [CArray want]) r)" for x pre r
    by (simp add: expect_Array_def dbind_def delse_def cbor_array.complete dguard_def dret_def)
  show "dec_sound (expect_Array want e) (\<lambda>x c. True \<and> c = emit [CArray want])"
    unfolding expect_Array_def
    by (rule dec_sound_bind [OF dec_sound_else [OF cbor_array.sound]],
        rule dec_sound_mono [OF dec_sound_guard]) simp
qed

context codec
begin

lemma counted_codec:
  "codec (enc_counted enc) (dec_counted lo hi e dec)
     (\<lambda>xs. list_all ok xs \<and> unat lo \<le> length xs \<and> length xs \<le> unat hi)"
proof
  fix xs pre r
  assume ok: "list_all ok xs \<and> unat lo \<le> length xs \<and> length xs \<le> unat hi"
  then have n: "unat (word_of_nat (length xs) :: uint64) = length xs"
    by (blast intro: unat_of_length)
  have s: "emit (enc_counted enc xs) = emit [CArray (word_of_nat (length xs))] @ emit (concat (map enc xs))"
    by (simp add: enc_counted_def emit_Cons emit_Nil)
  show "dec_counted lo hi e dec (dec_at pre (emit (enc_counted enc xs) @ r)) =
      Inr (xs, dec_at (pre @ emit (enc_counted enc xs)) r)"
    using ok n
    by (simp add: s dec_counted_def dbind_def delse_def cbor_array.complete dguard_def dret_def
        word_le_nat_alt repeat_complete)
next
  show "dec_sound (dec_counted lo hi e dec) (\<lambda>xs c. (list_all ok xs \<and> unat lo \<le> length xs \<and>
      length xs \<le> unat hi) \<and> c = emit (enc_counted enc xs))"
    unfolding dec_counted_def
    by (rule dec_sound_bind [OF dec_sound_else [OF cbor_array.sound]],
        rule dec_sound_bind [OF dec_sound_guard],
        rule dec_sound_mono [OF repeat_sound])
      (auto simp: enc_counted_def emit_Cons emit_Nil word_le_nat_alt)
qed

end

text \<open>An explicit null in front of an optional part.\<close>

lemma dec_TryNil_nil [decode_simps]:
  "dec_TryNil (dec_at pre (emit [CNil] @ r)) = Inr (True, dec_at (pre @ emit [CNil]) r)"
  by (simp add: dec_TryNil_def dec_at_def emit_Cons emit_Nil)

definition not_nil :: "byte list \<Rightarrow> bool" where
  "not_nil c \<longleftrightarrow> (\<exists>b c'. c = b # c' \<and> b \<noteq> 0xf6)"

lemma dec_TryNil_other: "not_nil c \<Longrightarrow> dec_TryNil (dec_at pre (c @ r)) = Inr (False, dec_at pre (c @ r))"
  by (auto simp: dec_TryNil_def dec_at_def not_nil_def)

lemma dec_sound_TryNil:
  "dec_sound dec_TryNil (\<lambda>b c. c = (if b then emit [CNil] else []))"
proof (rule dec_soundI)
  fix pre s b d'
  assume a: "dec_TryNil (dec_at pre s) = Inr (b, d')"
  show "\<exists>c r. s = c @ r \<and> d' = dec_at (pre @ c) r \<and> c = (if b then emit [CNil] else [])"
  proof (cases s)
    case Nil
    with a show ?thesis by (simp add: dec_TryNil_def dec_at_def)
  next
    case (Cons x t)
    with a show ?thesis
      by (cases "x = 0xf6") (auto simp: dec_TryNil_def dec_at_def emit_Cons emit_Nil)
  qed
qed

lemma head_bytes_not_nil:
  assumes m: "m < 7"
  shows "not_nil (head_bytes m v @ c)"
proof -
  have ne: "push_bit 5 m OR a \<noteq> 0xf6" if "a < 32" for a :: byte
  proof
    assume e: "push_bit 5 m OR a = 0xf6"
    have "m = drop_bit 5 (push_bit 5 m OR a)"
      by (rule head_major [symmetric]) (use m that in \<open>auto intro: less_trans\<close>)
    also have "\<dots> = 7" unfolding e by simp
    finally show False using m by simp
  qed
  obtain a t where "head_bytes m v = (push_bit 5 m OR a) # t" "a < 32"
  proof (cases m v rule: head_bytes_cases)
    case 1
    have "(ucast v :: byte) < 32"
      by (rule less_trans [OF ucast_byte_less [OF 1(1)]]) simp
    then show ?thesis using that 1(2) by simp
  qed (use that in auto)
  then show ?thesis using ne by (simp add: not_nil_def)
qed

lemma emit_not_nil:
  "not_nil (emit (CText s # cs))" "not_nil (emit (CBytes b # cs))"
  "not_nil (emit (CArray n # cs))" "not_nil (emit (CUint n # cs))"
  by (simp_all add: emit_Cons head_bytes_not_nil)

lemma emit_nonempty: "cs \<noteq> [] \<Longrightarrow> hd cs \<noteq> CNil \<Longrightarrow> emit cs \<noteq> []"
proof (cases cs)
  case (Cons c t)
  assume "hd cs \<noteq> CNil"
  with Cons have "not_nil (emit cs)" by (cases c) (simp_all add: emit_not_nil)
  then show ?thesis by (auto simp: not_nil_def)
qed simp

lemma emit_text_member: "CText s \<in> set cs \<Longrightarrow> length s \<le> length (emit cs)"
  by (induction cs) (auto simp: emit_Cons)

text \<open>The octets determine the calls: no sequence of items is the encoding of two runs.\<close>

definition call_ok :: "enc_call \<Rightarrow> bool" where
  "call_ok c = (case c of CText s \<Rightarrow> length s < 2 ^ 64 | CBytes b \<Rightarrow> length b < 2 ^ 64 | _ \<Rightarrow> True)"

lemma head_bytes_prefix:
  assumes "m < 8" "n < 8" "head_bytes m v @ r = head_bytes n w @ s"
  shows "m = n \<and> v = w \<and> r = s"
  using dec_head_at [OF assms(1), of "[]" v r] dec_head_at [OF assms(2), of "[]" w s] assms(3)
  by simp

lemma of_length_inject:
  "length a < 2 ^ 64 \<Longrightarrow> length b < 2 ^ 64 \<Longrightarrow> (word_of_nat (length a) :: uint64) = word_of_nat (length b) \<Longrightarrow>
   length a = length b"
  by (drule arg_cong [where f = unat]) (simp add: unat_of_nat)

lemma call_bytes_nonempty: "call_bytes c \<noteq> []"
  by (cases c) (auto simp: head_bytes_eq)

lemma head_not_nil: "m < 7 \<Longrightarrow> head_bytes m v @ r \<noteq> 0xf6 # s"
  using head_bytes_not_nil [of m v r] by (auto simp: not_nil_def)

lemma text_bytes_prefix:
  assumes "length a < 2 ^ 64" "length b < 2 ^ 64" "m < 8" "n < 8"
    and "head_bytes m (word_of_nat (length a)) @ f a @ r = head_bytes n (word_of_nat (length b)) @ f b @ s"
    and f: "\<And>x. length (f x) = length x" "\<And>x y. f x = f y \<Longrightarrow> x = y"
  shows "m = n \<and> a = b \<and> r = s"
proof -
  from head_bytes_prefix [OF assms(3,4,5)]
  have h: "m = n" "(word_of_nat (length a) :: uint64) = word_of_nat (length b)" "f a @ r = f b @ s"
    by blast+
  from of_length_inject [OF assms(1,2) h(2)] h(1,3) f show ?thesis
    by (metis append_eq_append_conv)
qed

lemma call_bytes_prefix:
  "call_ok c \<Longrightarrow> call_ok d \<Longrightarrow> call_bytes c @ r = call_bytes d @ s \<Longrightarrow> c = d \<and> r = s"
  by (cases c; cases d)
    (auto simp: call_ok_def head_not_nil head_not_nil [symmetric]
      dest: head_bytes_prefix [rotated 2] text_bytes_prefix [where f = bytes_of_string, rotated 4]
        text_bytes_prefix [where f = "\<lambda>x. x", rotated 4])

lemma emit_inject:
  "list_all call_ok cs \<Longrightarrow> list_all call_ok ds \<Longrightarrow> emit cs = emit ds \<Longrightarrow> cs = ds"
proof (induction cs arbitrary: ds)
  case Nil
  then show ?case by (cases ds) (simp_all add: emit_eq call_bytes_nonempty)
next
  case (Cons c cs)
  show ?case
  proof (cases ds)
    case Nil
    with Cons.prems show ?thesis by (simp add: emit_eq call_bytes_nonempty)
  next
    case (Cons d ds')
    with Cons.prems call_bytes_prefix [of c d "emit cs" "emit ds'"] Cons.IH [of ds'] show ?thesis
      by (simp add: emit_Cons)
  qed
qed

lemma call_bytes_in_emit: "c \<in> set cs \<Longrightarrow> length (call_bytes c) \<le> length (emit cs)"
  by (induction cs) (auto simp: emit_Cons)

lemma emit_calls_ok:
  assumes "length (emit cs) < 2 ^ 64"
  shows "list_all call_ok cs"
proof -
  have "call_ok c" if "c \<in> set cs" for c
    using order_le_less_trans [OF call_bytes_in_emit [OF that] assms]
    by (cases c) (simp_all add: call_ok_def)
  then show ?thesis by (simp add: list_all_iff)
qed

lemma emit_calls_inject:
  "emit cs = emit ds \<Longrightarrow> length (emit ds) < 2 ^ 64 \<Longrightarrow> cs = ds"
  by (rule emit_inject) (simp_all add: emit_calls_ok)

text \<open>
  \<open>dec_nullable p\<close>: null, or the part. In the code this is \<open>TryNil\<close> followed by the
  part's parser when it reports false.
\<close>

definition dec_nullable :: "'a parser \<Rightarrow> 'a option parser" where
  "dec_nullable p = dbind dec_TryNil (\<lambda>nil.
     if nil then dret None else dbind p (\<lambda>x. dret (Some x)))"

definition enc_nullable :: "('a \<Rightarrow> enc_call list) \<Rightarrow> 'a option \<Rightarrow> enc_call list" where
  "enc_nullable f x = (case x of None \<Rightarrow> [CNil] | Some y \<Rightarrow> f y)"

lemma emit_Cons_nullable [emit_simps]: "emit (c # enc_nullable f x) = emit [c] @ emit (enc_nullable f x)"
  by (simp add: emit_eq)

context codec
begin

lemma nullable_codec:
  assumes nn: "\<And>x. not_nil (emit (enc x))"
  shows "codec (enc_nullable enc) (dec_nullable dec) (pred_option ok)"
proof
  fix x pre r
  assume ok: "pred_option ok x"
  show "dec_nullable dec (dec_at pre (emit (enc_nullable enc x) @ r)) =
      Inr (x, dec_at (pre @ emit (enc_nullable enc x)) r)"
    using ok nn
    by (cases x) (simp_all add: dec_nullable_def enc_nullable_def dbind_def dec_TryNil_nil
        dec_TryNil_other complete dret_def)
next
  show "dec_sound (dec_nullable dec) (\<lambda>x c. pred_option ok x \<and> c = emit (enc_nullable enc x))"
    unfolding dec_nullable_def
    by (rule dec_sound_bind [OF dec_sound_TryNil], rule dec_sound_if)
      (auto intro!: dec_sound_ret dec_sound_bind [OF sound] simp: enc_nullable_def)
qed

end

lemmas cbor_complete [decode_simps] =
  cbor_array.complete cbor_uint.complete cbor_text.complete cbor_bytes.complete
  cbor_expect.complete [where x = "()"]
  cbor_array.complete_last cbor_uint.complete_last cbor_text.complete_last cbor_bytes.complete_last
  cbor_expect.complete_last [where x = "()"] dbind_def delse_def dwrap_def dguard_def dret_def
  sum.case prod.case

lemmas cbor_sound [sound_intros] =
  cbor_array.sound cbor_uint.sound cbor_text.sound cbor_bytes.sound cbor_expect.sound
  dec_sound_guard

section \<open>Properties\<close>

text \<open>
  C22: the encoder is injective. Two sequences of encoder calls write the same octets only if
  they are the same sequence of calls.
\<close>

theorem encoder_unambiguous:
  assumes "length (emit cs) < 2 ^ 64"
  shows "emit cs = emit ds \<longleftrightarrow> cs = ds"
  using assms emit_calls_inject [of cs ds] by auto

theorem encoder_unambiguous_witness:
  "length (emit [CArray 2, CUint 23, CText ''a'']) < 2 ^ 64 \<and>
   (emit [CArray 2, CUint 23, CText ''a''] = emit [CArray 2, CUint 24, CText ''a''] \<longleftrightarrow>
    [CArray 2, CUint 23, CText ''a''] = [CArray 2, CUint 24, CText ''a''])"
proof
  show l: "length (emit [CArray 2, CUint 23, CText ''a'']) < 2 ^ 64"
    by (rule le_less_trans [OF emit_length]) simp
  show "emit [CArray 2, CUint 23, CText ''a''] = emit [CArray 2, CUint 24, CText ''a''] \<longleftrightarrow>
    [CArray 2, CUint 23, CText ''a''] = [CArray 2, CUint 24, CText ''a'']"
    by (rule encoder_unambiguous [OF l])
qed

text \<open>
  The decoder reads an initial octet and its argument exactly when they are the shortest
  form of the argument, and it leaves the rest of the input unread.
\<close>

theorem head_canonical:
  "dec_head (NewDecoder bs) = Inr ((m, v), d) \<longleftrightarrow>
     m < 8 \<and> (\<exists>r. bs = head_bytes m v @ r \<and> d = dec_at (head_bytes m v) r)"
  unfolding NewDecoder_at
  using dec_head_at_Inr [of "[]" bs m v d] dec_head_at [of m "[]" v] by auto

text \<open>
  \<open>Text\<close> accepts exactly what the encoder writes for a text of at most \<open>limit\<close>
  octets that is valid UTF-8.
\<close>

theorem text_canonical:
  "dec_Text limit (NewDecoder bs) = Inr (s, d) \<longleftrightarrow>
     length s \<le> unat limit \<and> utf8_valid_string s \<and>
     (\<exists>r. bs = emit [CText s] @ r \<and> d = dec_at (emit [CText s]) r)"
  unfolding NewDecoder_at cbor_text.decode_iff by (simp add: text_ok_def)

end
