(* ===== verification/Sha256.thy ===== *)
theory Sha256
  imports Twirx_Prelude
begin

unbundle bit_operations_syntax

text \<open>
  \<open>crypto/sha256\<close>: the digest every artifact is named by. The function is the one of
  FIPS 180-4, its constants in decimal; the components use it only through \<open>sha256\<close> and the fact that a digest has
  32 octets. A Go \<open>[32]byte\<close> is a list of octets of that length (\<open>digest32\<close>).
\<close>

type_synonym u32 = "32 word"

definition round_constants :: "u32 list" where
  "round_constants = [
    1116352408, 1899447441, 3049323471, 3921009573, 961987163, 1508970993, 2453635748, 2870763221,
    3624381080, 310598401, 607225278, 1426881987, 1925078388, 2162078206, 2614888103, 3248222580,
    3835390401, 4022224774, 264347078, 604807628, 770255983, 1249150122, 1555081692, 1996064986,
    2554220882, 2821834349, 2952996808, 3210313671, 3336571891, 3584528711, 113926993, 338241895,
    666307205, 773529912, 1294757372, 1396182291, 1695183700, 1986661051, 2177026350, 2456956037,
    2730485921, 2820302411, 3259730800, 3345764771, 3516065817, 3600352804, 4094571909, 275423344,
    430227734, 506948616, 659060556, 883997877, 958139571, 1322822218, 1537002063, 1747873779,
    1955562222, 2024104815, 2227730452, 2361852424, 2428436474, 2756734187, 3204031479, 3329325298]"

definition initial_hash :: "u32 list" where
  "initial_hash = [1779033703, 3144134277, 1013904242, 2773480762,
    1359893119, 2600822924, 528734635, 1541459225]"

definition rotr :: "nat \<Rightarrow> u32 \<Rightarrow> u32" where
  "rotr n x = drop_bit n x OR push_bit (32 - n) x"

definition pad_message :: "byte list \<Rightarrow> byte list" where
  "pad_message m =
     m @ [0x80] @ replicate ((119 - length m mod 64) mod 64) 0 @ be_bytes 8 (8 * length m)"

definition words_of_block :: "byte list \<Rightarrow> u32 list" where
  "words_of_block b = map (\<lambda>i. word_of_nat (be_nat (take 4 (drop (4 * i) b)))) [0..<16]"

text \<open>The message schedule, kept as the last sixteen words.\<close>

definition schedule_step :: "u32 list \<Rightarrow> u32" where
  "schedule_step w =
     (let w15 = w ! 1; w2 = w ! 14;
          s0 = rotr 7 w15 XOR rotr 18 w15 XOR drop_bit 3 w15;
          s1 = rotr 17 w2 XOR rotr 19 w2 XOR drop_bit 10 w2
      in w ! 0 + s0 + w ! 9 + s1)"

fun compress_round :: "u32 \<Rightarrow> u32 \<Rightarrow> u32 list \<Rightarrow> u32 list" where
  "compress_round k w [a, b, c, d, e, f, g, h] =
     (let s1 = rotr 6 e XOR rotr 11 e XOR rotr 25 e;
          ch = (e AND f) XOR (NOT e AND g);
          t1 = h + s1 + ch + k + w;
          s0 = rotr 2 a XOR rotr 13 a XOR rotr 22 a;
          maj = (a AND b) XOR (a AND c) XOR (b AND c)
      in [t1 + s0 + maj, a, b, c, d + t1, e, f, g])"
| "compress_round k w hs = hs"

fun compress :: "u32 list \<Rightarrow> u32 list \<Rightarrow> u32 list \<Rightarrow> u32 list" where
  "compress [] ws hs = hs"
| "compress (k # ks) ws hs =
     compress ks (tl ws @ [schedule_step ws]) (compress_round k (hd ws) hs)"

definition hash_block :: "u32 list \<Rightarrow> byte list \<Rightarrow> u32 list" where
  "hash_block hs b = map2 (+) hs (compress round_constants (words_of_block b) hs)"

fun hash_blocks :: "nat \<Rightarrow> u32 list \<Rightarrow> byte list \<Rightarrow> u32 list" where
  "hash_blocks 0 hs m = hs"
| "hash_blocks (Suc n) hs m = hash_blocks n (hash_block hs (take 64 m)) (drop 64 m)"

definition sha256 :: "byte list \<Rightarrow> byte list" where
  "sha256 m =
     (let p = pad_message m
      in concat (map (\<lambda>w. be_bytes 4 (unat w)) (hash_blocks (length p div 64) initial_hash p)))"

definition digest32 :: "byte list \<Rightarrow> bool" where
  "digest32 d \<longleftrightarrow> length d = 32"

definition zero_digest :: "byte list" where
  "zero_digest = replicate 32 0"

lemma length_compress_round: "length (compress_round k w hs) = length hs"
  by (induction k w hs rule: compress_round.induct) (simp_all add: Let_def)

lemma length_compress: "length (compress ks ws hs) = length hs"
  by (induction ks ws hs rule: compress.induct) (simp_all add: length_compress_round)

lemma length_hash_blocks: "length (hash_blocks n hs m) = length hs"
  by (induction n hs m rule: hash_blocks.induct) (simp_all add: hash_block_def length_compress)

lemma length_concat_be4: "length (concat (map (\<lambda>w. be_bytes 4 (unat (w :: u32))) ws)) = 4 * length ws"
  by (induction ws) simp_all

lemma length_sha256 [simp]: "length (sha256 m) = 32"
  unfolding sha256_def Let_def
  by (simp only: length_concat_be4 length_hash_blocks) (simp add: initial_hash_def)

lemma digest32_sha256 [simp]: "digest32 (sha256 m)"
  by (simp add: digest32_def)

lemma digest32_zero [simp]: "digest32 zero_digest"
  by (simp add: digest32_def zero_digest_def)

end
