(* ===== verification/Cbor_Document.thy ===== *)
theory Cbor_Document
  imports Cborlite Sha256
begin

text \<open>
  What the canonical documents of the program have in common: a parser run on the whole input
  with nothing left over, digests of 32 octets as parts, and the contract between a marshalling
  and an unmarshalling function (locale \<open>document\<close>) from which the identity of documents
  by their octets follows.
\<close>

section \<open>Whole documents\<close>

text \<open>\<^verbatim>\<open>if dec.Remaining() != 0 { return e }\<close>\<close>

definition dec_finish :: "error \<Rightarrow> unit parser" where
  "dec_finish e d = (if Remaining d \<noteq> 0 then Inl e else Inr ((), d))"

definition run_document :: "'a parser \<Rightarrow> byte list \<Rightarrow> error + 'a" where
  "run_document p bs = (case p (NewDecoder bs) of Inl e \<Rightarrow> Inl e | Inr (x, _) \<Rightarrow> Inr x)"

lemma dec_finish_done [decode_simps]: "dec_finish e (dec_at pre []) = Inr ((), dec_at pre [])"
  by (simp add: dec_finish_def)

lemma run_document_Inr: "run_document p bs = Inr x \<longleftrightarrow> (\<exists>d. p (dec_at [] bs) = Inr (x, d))"
  by (auto simp: run_document_def NewDecoder_at split: sum.splits)

text \<open>A parser whose last step was \<open>dec_finish\<close> has read all of its input.\<close>

definition ends_input :: "'a parser \<Rightarrow> bool" where
  "ends_input p \<longleftrightarrow> (\<forall>pre s x d. p (dec_at pre s) = Inr (x, d) \<longrightarrow> Remaining d = 0)"

lemma ends_input_finish: "ends_input (dbind (dec_finish e) (\<lambda>_. dret x))"
  by (auto simp: ends_input_def dbind_Inr dec_finish_def dret_Inr split: if_splits)

lemma ends_input_bind:
  assumes "dec_sound p P" and "\<And>x. ends_input (f x)"
  shows "ends_input (dbind p f)"
  unfolding ends_input_def
proof (intro allI impI)
  fix pre s x d
  assume "dbind p f (dec_at pre s) = Inr (x, d)"
  then obtain y d1 where 1: "p (dec_at pre s) = Inr (y, d1)" and 2: "f y d1 = Inr (x, d)"
    by (auto simp: dbind_Inr)
  from assms(1) 1 obtain c r where "d1 = dec_at (pre @ c) r" by (rule dec_soundD)
  with 2 assms(2) show "Remaining d = 0" by (auto simp: ends_input_def)
qed

lemma dec_sound_finish: "dec_sound (dec_finish e) (\<lambda>x c. c = [])"
  by (rule dec_soundI) (auto simp: dec_finish_def split: if_splits)

text \<open>The octets a sound whole-document parser accepts are the ones it relates to its result.\<close>

lemma run_document_sound:
  assumes "dec_sound p P" and "ends_input p" and "run_document p bs = Inr x"
  shows "P x bs"
proof -
  from assms(3) obtain d where d: "p (dec_at [] bs) = Inr (x, d)" by (auto simp: run_document_Inr)
  with assms(1) obtain c r where c: "bs = c @ r" "d = dec_at ([] @ c) r" "P x c"
    by (rule dec_soundD)
  moreover have "Remaining d = 0" using assms(2) d by (simp add: ends_input_def)
  ultimately show ?thesis by simp
qed

section \<open>Digests\<close>

text \<open>
  \<open>encodeDigest\<close>/\<open>decodeDigest\<close>, which several packages declare alike:
  a byte string of at most and of exactly 32 octets.
\<close>

definition enc_digest :: "byte list \<Rightarrow> enc_call list" where
  "enc_digest d = [CBytes d]"

lemma emit_Cons_digest [emit_simps]: "emit (c # enc_digest d) = emit [c] @ emit (enc_digest d)"
  by (simp add: emit_eq)

definition dec_digest_or :: "error \<Rightarrow> byte list parser" where
  "dec_digest_or e = dbind (delse e (dec_Bytestring 32)) (\<lambda>v. dbind (dguard (length v = 32) e) (\<lambda>_. dret v))"

interpretation cbor_digest: codec enc_digest "dec_digest_or e" digest32 for e
proof
  show "dec_digest_or e (dec_at pre (emit (enc_digest x) @ r)) =
      Inr (x, dec_at (pre @ emit (enc_digest x)) r)" if "digest32 x" for x pre r
    using that by (simp add: dec_digest_or_def enc_digest_def decode_simps digest32_def bytes_ok_def)
  show "dec_sound (dec_digest_or e) (\<lambda>x c. digest32 x \<and> c = emit (enc_digest x))"
    unfolding dec_digest_or_def
    by (rule dec_sound_bind [OF dec_sound_else [OF cbor_bytes.sound]],
        rule dec_sound_bind [OF dec_sound_guard], rule dec_sound_ret)
      (simp add: enc_digest_def digest32_def)
qed

lemmas digest_complete [decode_simps] = cbor_digest.complete cbor_digest.complete_last

section \<open>Flags\<close>

text \<open>\<open>boolUint\<close>/\<open>decodeBool\<close>, which two packages declare alike.\<close>

definition boolUint :: "bool \<Rightarrow> uint64" where
  "boolUint value = (if value then 1 else 0)"

definition dec_bool_or :: "error \<Rightarrow> bool parser" where
  "dec_bool_or e = dbind (delse e dec_Uint) (\<lambda>value.
     dbind (dguard (\<not> value > 1) e) (\<lambda>_. dret (value = 1)))"

interpretation cbor_bool: codec "\<lambda>b. [CUint (boolUint b)]" "dec_bool_or e" "\<lambda>_. True" for e
proof
  show "dec_bool_or e (dec_at pre (emit [CUint (boolUint x)] @ r)) =
      Inr (x, dec_at (pre @ emit [CUint (boolUint x)]) r)" for x pre r
    by (cases x) (simp_all add: dec_bool_or_def boolUint_def decode_simps)
  show "dec_sound (dec_bool_or e) (\<lambda>x c. True \<and> c = emit [CUint (boolUint x)])"
    unfolding dec_bool_or_def
  proof (rule dec_sound_bind [OF dec_sound_else [OF cbor_uint.sound]],
      rule dec_sound_bind [OF dec_sound_guard], rule dec_sound_ret)
    fix x c u and c' :: "byte list"
    assume "True \<and> c = emit [CUint x]" "\<not> (1::uint64) < x \<and> c' = []"
    moreover from this have "x = 0 \<or> x = 1"
      by (simp add: word_less_nat_alt word_unat_eq_iff) arith
    ultimately show "True \<and> c @ c' @ [] = emit [CUint (boolUint (x = 1))]"
      by (auto simp: boolUint_def)
  qed
qed

section \<open>The contract of a document type\<close>

text \<open>
  \<open>wf\<close> are the values of the Go type (arrays of 32 octets have 32 octets). The two laws are
  what a content-addressed store needs of a format: a value survives, and an accepted byte
  string is the only one of its value.
\<close>

locale document =
  fixes marshal :: "'a \<Rightarrow> error + byte list"
    and unmarshal :: "byte list \<Rightarrow> error + 'a"
    and wf :: "'a \<Rightarrow> bool"
  assumes marshal_unmarshal: "wf x \<Longrightarrow> marshal x = Inr b \<Longrightarrow> unmarshal b = Inr x"
    and unmarshal_marshal: "unmarshal b = Inr x \<Longrightarrow> marshal x = Inr b"
    and unmarshal_wf: "unmarshal b = Inr x \<Longrightarrow> wf x"
begin

lemma accepted_iff: "unmarshal b = Inr x \<longleftrightarrow> wf x \<and> marshal x = Inr b"
  using marshal_unmarshal unmarshal_marshal unmarshal_wf by blast

lemma marshal_inject:
  assumes "wf x" "wf y" "marshal x = Inr b" "marshal y = Inr b"
  shows "x = y"
  using marshal_unmarshal [OF assms(1,3)] marshal_unmarshal [OF assms(2,4)] by simp

lemma not_malleable:
  assumes "unmarshal b = Inr x" "unmarshal c = Inr x"
  shows "b = c"
  using unmarshal_marshal [OF assms(1)] unmarshal_marshal [OF assms(2)] by simp

end

end
