(* ===== verification/Go_Time.thy ===== *)
theory Go_Time
  imports Twirx_Prelude
begin

text \<open>
  The timestamps of the code. \<open>time.Parse\<close> followed by a comparison of the re-formatted
  time with the input accepts exactly the texts the format prints; these are described here,
  with the calendar (\<open>days_in\<close>) that decides which dates exist, and the instant a text
  denotes in nanoseconds since the start of year 0.
\<close>

definition is_digit :: "char \<Rightarrow> bool" where
  "is_digit c \<longleftrightarrow> CHR ''0'' \<le> c \<and> c \<le> CHR ''9''"

definition digit_value :: "char \<Rightarrow> nat" where
  "digit_value c = of_char c - 48"

definition all_digits :: "string \<Rightarrow> bool" where
  "all_digits s \<longleftrightarrow> list_all is_digit s"

definition decimal_value :: "string \<Rightarrow> nat" where
  "decimal_value s = foldl (\<lambda>n c. 10 * n + digit_value c) 0 s"

text \<open>\<open>strconv.ParseUint\<close> in base ten.\<close>

definition ParseUint :: "nat \<Rightarrow> string \<Rightarrow> nat option" where
  "ParseUint bits s =
     (if s \<noteq> [] \<and> all_digits s \<and> decimal_value s < 2 ^ bits then Some (decimal_value s) else None)"

definition is_leap :: "nat \<Rightarrow> bool" where
  "is_leap y \<longleftrightarrow> y mod 4 = 0 \<and> (y mod 100 \<noteq> 0 \<or> y mod 400 = 0)"

definition days_in :: "nat \<Rightarrow> nat \<Rightarrow> nat" where
  "days_in y m =
     (if m = 2 then (if is_leap y then 29 else 28)
      else if m \<in> {4, 6, 9, 11} then 30 else 31)"

definition sub_text :: "nat \<Rightarrow> nat \<Rightarrow> string \<Rightarrow> string" where
  "sub_text i n s = take n (drop i s)"

text \<open>\<open>time.Parse("2006-01-02", s)\<close> succeeds and formats back to \<open>s\<close>.\<close>

definition canonical_date :: "string \<Rightarrow> bool" where
  "canonical_date s \<longleftrightarrow>
     length s = 10 \<and> all_digits (sub_text 0 4 s) \<and> s ! 4 = CHR ''-'' \<and>
     all_digits (sub_text 5 2 s) \<and> s ! 7 = CHR ''-'' \<and> all_digits (sub_text 8 2 s) \<and>
     (let y = decimal_value (sub_text 0 4 s); m = decimal_value (sub_text 5 2 s);
          d = decimal_value (sub_text 8 2 s)
      in 1 \<le> m \<and> m \<le> 12 \<and> 1 \<le> d \<and> d \<le> days_in y m)"

definition canonical_clock :: "string \<Rightarrow> bool" where
  "canonical_clock s \<longleftrightarrow>
     length s = 8 \<and> all_digits (sub_text 0 2 s) \<and> s ! 2 = CHR '':'' \<and>
     all_digits (sub_text 3 2 s) \<and> s ! 5 = CHR '':'' \<and> all_digits (sub_text 6 2 s) \<and>
     decimal_value (sub_text 0 2 s) \<le> 23 \<and> decimal_value (sub_text 3 2 s) \<le> 59 \<and>
     decimal_value (sub_text 6 2 s) \<le> 59"

text \<open>The layout \<open>2006-01-02T15:04:05Z\<close>.\<close>

definition canonical_utc_second :: "string \<Rightarrow> bool" where
  "canonical_utc_second s \<longleftrightarrow>
     length s = 20 \<and> canonical_date (sub_text 0 10 s) \<and> s ! 10 = CHR ''T'' \<and>
     canonical_clock (sub_text 11 8 s) \<and> s ! 19 = CHR ''Z''"

text \<open>
  \<open>RFC3339Nano\<close> in UTC: an optional fraction of one to nine digits that does not end in
  zero.
\<close>

definition canonical_rfc3339nano :: "string \<Rightarrow> bool" where
  "canonical_rfc3339nano s \<longleftrightarrow>
     canonical_utc_second s \<or>
     22 \<le> length s \<and> length s \<le> 30 \<and> canonical_utc_second (sub_text 0 19 s @ ''Z'') \<and>
     s ! 19 = CHR ''.'' \<and> last s = CHR ''Z'' \<and>
     (let f = sub_text 20 (length s - 21) s in all_digits f \<and> last f \<noteq> CHR ''0'')"

section \<open>Instants\<close>

definition leap_years_before :: "nat \<Rightarrow> nat" where
  "leap_years_before y = (if y = 0 then 0 else (y - 1) div 4 - (y - 1) div 100 + (y - 1) div 400 + 1)"

definition day_number :: "nat \<Rightarrow> nat \<Rightarrow> nat \<Rightarrow> nat" where
  "day_number y m d = 365 * y + leap_years_before y + sum_list (map (days_in y) [1..<m]) + (d - 1)"

definition utc_second_value :: "string \<Rightarrow> int" where
  "utc_second_value s =
     (let y = decimal_value (sub_text 0 4 s); m = decimal_value (sub_text 5 2 s);
          d = decimal_value (sub_text 8 2 s); hh = decimal_value (sub_text 11 2 s);
          mm = decimal_value (sub_text 14 2 s); ss = decimal_value (sub_text 17 2 s)
      in int (((day_number y m d * 24 + hh) * 60 + mm) * 60 + ss))"

lemma canonical_utc_second_length: "canonical_utc_second s \<Longrightarrow> length s = 20"
  by (simp add: canonical_utc_second_def)

lemma canonical_rfc3339nano_length:
  "canonical_rfc3339nano s \<Longrightarrow> 20 \<le> length s \<and> length s \<le> 30"
  by (auto simp: canonical_rfc3339nano_def canonical_utc_second_def)

lemma canonical_utc_second_example: "canonical_utc_second ''2024-02-29T23:59:59Z''"
  by code_simp

lemma canonical_utc_second_leap: "\<not> canonical_utc_second ''2023-02-29T00:00:00Z''"
  by code_simp

lemma canonical_rfc3339nano_example: "canonical_rfc3339nano ''2026-07-01T08:00:00.25Z''"
  by code_simp

lemma canonical_rfc3339nano_trailing: "\<not> canonical_rfc3339nano ''2026-07-01T08:00:00.250Z''"
  by code_simp

end
