(* ===== verification/Safefetch.thy ===== *)
theory Safefetch
  imports Twirx_Prelude Go_Time
begin

text \<open>
  The data \<open>internal/safefetch\<close> hands to the evidence formats: the fetch result with its
  redirect chain and recorded headers. A \<open>time.Time\<close> in UTC is its civil fields.
\<close>

record civil_time =
  year :: nat
  month :: nat
  day :: nat
  hour :: nat
  minute :: nat
  second :: nat
  nanosecond :: nat

definition digit_char :: "nat \<Rightarrow> char" where
  "digit_char d = ''0123456789'' ! d"

primrec dec_pad :: "nat \<Rightarrow> nat \<Rightarrow> string" where
  "dec_pad 0 n = []"
| "dec_pad (Suc w) n = digit_char (n div 10 ^ w mod 10) # dec_pad w n"

lemma dec_pad_numeral [simp]:
  "dec_pad (numeral k) n =
     digit_char (n div 10 ^ pred_numeral k mod 10) # dec_pad (pred_numeral k) n"
  by (simp only: numeral_eq_Suc dec_pad.simps)

lemma length_dec_pad [simp]: "length (dec_pad w n) = w"
  by (induction w) simp_all

definition strip_zeros :: "string \<Rightarrow> string" where
  "strip_zeros s = rev (dropWhile (\<lambda>c. c = CHR ''0'') (rev s))"

definition fraction_text :: "nat \<Rightarrow> string" where
  "fraction_text ns = (let f = strip_zeros (dec_pad 9 ns) in if f = [] then [] else CHR ''.'' # f)"

text \<open>\<open>t.Format(time.RFC3339Nano)\<close> for a year of four digits.\<close>

definition format_rfc3339nano :: "civil_time \<Rightarrow> string" where
  "format_rfc3339nano t =
     dec_pad 4 (year t) @ ''-'' @ dec_pad 2 (month t) @ ''-'' @ dec_pad 2 (day t) @ ''T'' @
     dec_pad 2 (hour t) @ '':'' @ dec_pad 2 (minute t) @ '':'' @ dec_pad 2 (second t) @
     fraction_text (nanosecond t) @ ''Z''"

record redirect =
  FromURL :: string
  rd_Status :: int
  ToURL :: string

record header =
  hd_Name :: string
  hd_Value :: string

record fetch_result =
  fr_RequestURL :: string
  fr_FinalURL :: string
  fr_Method :: string
  fr_Status :: int
  fr_MediaType :: string
  fr_RetrievedAt :: civil_time
  fr_Body :: "byte list"
  fr_Redirects :: "redirect list"
  fr_Headers :: "header list"
  fr_RequestedRange :: string
  fr_ContentRange :: string

lemma format_example:
  "format_rfc3339nano \<lparr>year = 2026, month = 7, day = 1, hour = 8, minute = 5, second = 9,
     nanosecond = 250000000\<rparr> = ''2026-07-01T08:05:09.25Z''"
  by (simp add: format_rfc3339nano_def fraction_text_def strip_zeros_def digit_char_def)

end
