(* ===== verification/Observation.thy ===== *)
theory Observation
  imports Cbor_Document Go_Time Safefetch
begin

text \<open>
  \<open>internal/observation\<close>: the envelope that binds a retrieval to the digest of the body it
  returned. The envelope's record, its validation, the canonical CBOR form with its parser, the
  body and envelope digests, and the laws that make the envelope a document.
\<close>

section \<open>The envelope\<close>

definition EnvelopeFields :: uint64 where "EnvelopeFields = 11"
definition MaxEnvelopeBytes :: nat where "MaxEnvelopeBytes = 65536"
definition MaxURLBytes :: nat where "MaxURLBytes = 8192"
definition MaxMediaTypeBytes :: nat where "MaxMediaTypeBytes = 256"
definition MaxRetrievedAtBytes :: nat where "MaxRetrievedAtBytes = 30"
definition MaxIDBytes :: nat where "MaxIDBytes = 256"
definition MaxBodyBytes :: uint64 where "MaxBodyBytes = 2097152"
definition ObserverID :: string where "ObserverID = ''typed-web-go/0.1''"

lemmas observation_limits [simp] =
  EnvelopeFields_def MaxEnvelopeBytes_def MaxURLBytes_def MaxMediaTypeBytes_def
  MaxRetrievedAtBytes_def MaxIDBytes_def MaxBodyBytes_def

record envelope =
  env_Version :: uint64
  env_RequestURL :: string
  env_FinalURL :: string
  env_Method :: string
  env_Status :: uint64
  env_MediaType :: string
  env_RetrievedAt :: string
  env_BodySHA256 :: "byte list"
  env_BodySize :: uint64
  env_PolicyID :: string
  env_ObserverID :: string

definition obs_validateText :: "string \<Rightarrow> string \<Rightarrow> nat \<Rightarrow> error option" where
  "obs_validateText name value limit = first_err [
     fail_if (value = []) (Msg (name @ '' is required'')),
     fail_if (length value > limit) (Msg (name @ '' exceeds limit'')),
     fail_if (\<not> utf8_valid_string value) (Msg (name @ '' is not valid UTF-8'')),
     fail_if (CHR 0x00 \<in> set value) (Msg (name @ '' contains U+0000''))]"

definition Envelope_Validate :: "envelope \<Rightarrow> error option" where
  "Envelope_Validate e = first_err [
     fail_if (env_Version e \<noteq> 1) (Msg ''unsupported version''),
     fail_if (env_Method e \<noteq> ''GET'') (Msg ''method is not allowed in Genesis''),
     fail_if (env_Status e < 100 \<or> env_Status e > 599) (Msg ''invalid HTTP status''),
     obs_validateText ''request_url'' (env_RequestURL e) MaxURLBytes,
     obs_validateText ''final_url'' (env_FinalURL e) MaxURLBytes,
     obs_validateText ''method'' (env_Method e) (length ''GET''),
     obs_validateText ''media_type'' (env_MediaType e) MaxMediaTypeBytes,
     obs_validateText ''retrieved_at'' (env_RetrievedAt e) MaxRetrievedAtBytes,
     obs_validateText ''policy_id'' (env_PolicyID e) MaxIDBytes,
     obs_validateText ''observer_id'' (env_ObserverID e) MaxIDBytes,
     fail_if (\<not> canonical_rfc3339nano (env_RetrievedAt e))
       (Msg ''retrieved_at is not canonical RFC3339Nano UTC''),
     fail_if (env_BodySize e > MaxBodyBytes) (Msg ''body size exceeds Genesis limit'')]"

definition FromFetch :: "fetch_result option \<Rightarrow> string \<Rightarrow> error + envelope" where
  "FromFetch result policyID = (case result of
     None \<Rightarrow> Inl (Msg ''fetch result is nil'')
   | Some r \<Rightarrow>
       let env = \<lparr>env_Version = 1, env_RequestURL = fr_RequestURL r, env_FinalURL = fr_FinalURL r,
             env_Method = fr_Method r, env_Status = word_of_int (fr_Status r),
             env_MediaType = fr_MediaType r,
             env_RetrievedAt = format_rfc3339nano (fr_RetrievedAt r),
             env_BodySHA256 = sha256 (fr_Body r),
             env_BodySize = word_of_nat (length (fr_Body r)),
             env_PolicyID = policyID, env_ObserverID = ObserverID\<rparr>
       in after (Envelope_Validate env) (Inr env))"

section \<open>Canonical form\<close>

definition envelope_calls :: "envelope \<Rightarrow> enc_call list" where
  "envelope_calls e =
     [CArray EnvelopeFields, CUint (env_Version e), CText (env_RequestURL e),
      CText (env_FinalURL e), CText (env_Method e), CUint (env_Status e),
      CText (env_MediaType e), CText (env_RetrievedAt e), CBytes (env_BodySHA256 e),
      CUint (env_BodySize e), CText (env_PolicyID e), CText (env_ObserverID e)]"

definition Envelope_MarshalCBOR :: "envelope \<Rightarrow> error + byte list" where
  "Envelope_MarshalCBOR e = after (Envelope_Validate e) (Inr (emit (envelope_calls e)))"

definition dec_envelope :: "envelope parser" where
  "dec_envelope =
     dbind (dwrap ''decode array'' dec_Array) (\<lambda>n.
     dbind (dguard (n = EnvelopeFields) (Msg ''expected 11 fields'')) (\<lambda>_.
     dbind (dwrap ''version'' dec_Uint) (\<lambda>version.
     dbind (dwrap ''request URL'' (dec_Text (word_of_nat MaxURLBytes))) (\<lambda>requestURL.
     dbind (dwrap ''final URL'' (dec_Text (word_of_nat MaxURLBytes))) (\<lambda>finalURL.
     dbind (dwrap ''method'' (dec_Text (word_of_nat (length ''GET'')))) (\<lambda>meth.
     dbind (dwrap ''status'' dec_Uint) (\<lambda>status.
     dbind (dwrap ''media type'' (dec_Text (word_of_nat MaxMediaTypeBytes))) (\<lambda>mediaType.
     dbind (dwrap ''retrieval time'' (dec_Text (word_of_nat MaxRetrievedAtBytes))) (\<lambda>retrievedAt.
     dbind (dwrap ''body hash'' (dec_Bytestring 32)) (\<lambda>hashBytes.
     dbind (dguard (length hashBytes = 32) (Msg ''body hash length'')) (\<lambda>_.
     dbind (dwrap ''body size'' dec_Uint) (\<lambda>bodySize.
     dbind (dwrap ''policy ID'' (dec_Text (word_of_nat MaxIDBytes))) (\<lambda>policyID.
     dbind (dwrap ''observer ID'' (dec_Text (word_of_nat MaxIDBytes))) (\<lambda>observerID.
     dbind (dec_finish (Msg ''trailing bytes'')) (\<lambda>_.
     dret \<lparr>env_Version = version, env_RequestURL = requestURL, env_FinalURL = finalURL,
           env_Method = meth, env_Status = status, env_MediaType = mediaType,
           env_RetrievedAt = retrievedAt, env_BodySHA256 = hashBytes, env_BodySize = bodySize,
           env_PolicyID = policyID, env_ObserverID = observerID\<rparr>)))))))))))))))"

definition Envelope_UnmarshalCBOR :: "byte list \<Rightarrow> error + envelope" where
  "Envelope_UnmarshalCBOR bs =
     (if bs = [] \<or> length bs > MaxEnvelopeBytes
      then Inl (Msg ''envelope size is outside allowed range'')
      else ebind (run_document dec_envelope bs) (\<lambda>e. after (Envelope_Validate e) (Inr e)))"

definition BodyDigest :: "envelope \<Rightarrow> string" where
  "BodyDigest e = ''sha256:'' @ hex_encode (env_BodySHA256 e)"

definition EnvelopeDigest :: "byte list \<Rightarrow> string" where
  "EnvelopeDigest bs = ''sha256:'' @ hex_encode (sha256 bs)"

section \<open>Laws\<close>

definition envelope_wf :: "envelope \<Rightarrow> bool" where
  "envelope_wf e \<longleftrightarrow> digest32 (env_BodySHA256 e)"

lemma obs_validateText_None [accept_simps]:
  "obs_validateText name s limit = None \<longleftrightarrow>
     s \<noteq> [] \<and> length s \<le> limit \<and> utf8_valid_string s \<and> CHR 0x00 \<notin> set s"
  by (simp add: obs_validateText_def accept_simps not_less)


lemma dec_envelope_sound: "dec_sound dec_envelope (\<lambda>e c. envelope_wf e \<and> c = emit (envelope_calls e))"
  unfolding dec_envelope_def
  apply (rule dec_sound_bind, ((rule dec_sound_wrap)?, rule sound_intros))+
  apply (rule dec_sound_bind, rule dec_sound_finish, rule dec_sound_ret)
  apply (simp add: envelope_calls_def envelope_wf_def digest32_def emit_simps)
  done

lemma dec_envelope_ends: "ends_input dec_envelope"
  unfolding dec_envelope_def
  by (rule ends_input_bind, ((rule dec_sound_wrap)?, rule sound_intros))+ (rule ends_input_finish)

lemma Envelope_Validate_fits:
  assumes "Envelope_Validate e = None"
  shows "text_ok 8192 (env_RequestURL e)" "text_ok 8192 (env_FinalURL e)" "text_ok 3 (env_Method e)"
    "text_ok 256 (env_MediaType e)" "text_ok 30 (env_RetrievedAt e)" "text_ok 256 (env_PolicyID e)"
    "text_ok 256 (env_ObserverID e)"
  using assms by (simp_all add: Envelope_Validate_def accept_simps text_ok_def)

lemma dec_envelope_complete:
  assumes "Envelope_Validate e = None" "envelope_wf e"
  shows "dec_envelope (dec_at pre (emit (envelope_calls e))) =
         Inr (e, dec_at (pre @ emit (envelope_calls e)) [])"
  using assms(2) Envelope_Validate_fits [OF assms(1)]
  by (simp add: dec_envelope_def envelope_calls_def emit_simps decode_simps envelope_wf_def digest32_def bytes_ok_def)

lemma envelope_size:
  assumes "Envelope_Validate e = None" "envelope_wf e"
  shows "emit (envelope_calls e) \<noteq> []" "length (emit (envelope_calls e)) \<le> MaxEnvelopeBytes"
proof -
  show "emit (envelope_calls e) \<noteq> []"
    by (rule emit_nonempty) (simp_all add: envelope_calls_def)
  show "length (emit (envelope_calls e)) \<le> MaxEnvelopeBytes"
    using assms(2) Envelope_Validate_fits [OF assms(1)]
    by (intro order_trans [OF emit_length])
      (simp add: envelope_calls_def text_ok_def envelope_wf_def digest32_def)
qed

interpretation envelope_doc: document Envelope_MarshalCBOR Envelope_UnmarshalCBOR envelope_wf
proof
  show "Envelope_UnmarshalCBOR b = Inr e" if "envelope_wf e" "Envelope_MarshalCBOR e = Inr b" for e b
  proof -
    from that have v: "Envelope_Validate e = None" and b: "b = emit (envelope_calls e)"
      by (auto simp: Envelope_MarshalCBOR_def after_Inr)
    have "run_document dec_envelope b = Inr e"
      unfolding run_document_Inr b using dec_envelope_complete [OF v that(1)] by (rule exI)
    with envelope_size [OF v that(1)] v show ?thesis
      by (simp add: Envelope_UnmarshalCBOR_def b)
  qed
  show "Envelope_MarshalCBOR e = Inr b" "envelope_wf e" if "Envelope_UnmarshalCBOR b = Inr e" for e b
  proof -
    from that have v: "Envelope_Validate e = None" and r: "run_document dec_envelope b = Inr e"
      by (auto simp: Envelope_UnmarshalCBOR_def ebind_eq_Inr after_Inr split: if_splits)
    from run_document_sound [OF dec_envelope_sound dec_envelope_ends r] v
    show "Envelope_MarshalCBOR e = Inr b" "envelope_wf e"
      by (simp_all add: Envelope_MarshalCBOR_def)
  qed
qed

lemma FromFetch_wf: "FromFetch r p = Inr e \<Longrightarrow> envelope_wf e \<and> Envelope_Validate e = None"
  by (auto simp: FromFetch_def Let_def after_Inr envelope_wf_def split: option.splits)

lemma FromFetch_body: "FromFetch (Some r) p = Inr e \<Longrightarrow> BodyDigest e = EnvelopeDigest (fr_Body r)"
  by (auto simp: FromFetch_def Let_def after_Inr BodyDigest_def EnvelopeDigest_def)

section \<open>Properties\<close>

text \<open>
  An observation envelope survives marshalling, and the octets that are accepted for an
  envelope are the ones marshalling it gives.
\<close>

theorem envelope_accepted:
  "Envelope_UnmarshalCBOR bs = Inr e \<longleftrightarrow>
     digest32 (env_BodySHA256 e) \<and> Envelope_MarshalCBOR e = Inr bs"
  using envelope_doc.accepted_iff by (simp add: envelope_wf_def)

text \<open>
  The envelope made from a fetch can always be marshalled and read back, and names the
  digest of the body that was fetched.
\<close>

theorem envelope_of_fetch:
  assumes "FromFetch (Some r) policy = Inr e"
  shows "\<exists>bs. Envelope_MarshalCBOR e = Inr bs \<and> Envelope_UnmarshalCBOR bs = Inr e \<and>
    BodyDigest e = EnvelopeDigest (fr_Body r)"
proof -
  from FromFetch_wf [OF assms] have "Envelope_MarshalCBOR e = Inr (emit (envelope_calls e))" "envelope_wf e"
    by (simp_all add: Envelope_MarshalCBOR_def)
  with envelope_doc.marshal_unmarshal FromFetch_body [OF assms] show ?thesis by blast
qed

definition sample_fetch :: fetch_result where
  "sample_fetch = \<lparr>fr_RequestURL = ''https://a.example/'', fr_FinalURL = ''https://a.example/'',
     fr_Method = ''GET'', fr_Status = 200, fr_MediaType = ''text/html'',
     fr_RetrievedAt = \<lparr>year = 2026, month = 7, day = 1, hour = 8, minute = 5, second = 9, nanosecond = 250000000\<rparr>,
     fr_Body = [104, 105], fr_Redirects = [], fr_Headers = [], fr_RequestedRange = [], fr_ContentRange = []\<rparr>"

definition sample_envelope :: envelope where
  "sample_envelope = \<lparr>env_Version = 1, env_RequestURL = ''https://a.example/'',
     env_FinalURL = ''https://a.example/'', env_Method = ''GET'', env_Status = 200,
     env_MediaType = ''text/html'', env_RetrievedAt = ''2026-07-01T08:05:09.25Z'',
     env_BodySHA256 = sha256 [104, 105], env_BodySize = 2, env_PolicyID = ''p'', env_ObserverID = ObserverID\<rparr>"

lemma sample_time: "canonical_rfc3339nano ''2026-07-01T08:05:09.25Z''"
  by code_simp

lemma sample_envelope_valid: "Envelope_Validate sample_envelope = None"
  using sample_time
  by (simp add: sample_envelope_def Envelope_Validate_def accept_simps MaxBodyBytes_def ObserverID_def
      utf8_valid_string_ascii is_ascii_def)

lemma sample_FromFetch: "FromFetch (Some sample_fetch) ''p'' = Inr sample_envelope"
  using sample_envelope_valid format_example
  by (simp add: FromFetch_def Let_def sample_fetch_def sample_envelope_def after_def)

theorem envelope_of_fetch_witness:
  "FromFetch (Some sample_fetch) ''p'' = Inr sample_envelope \<and>
   (\<exists>bs. Envelope_MarshalCBOR sample_envelope = Inr bs \<and> Envelope_UnmarshalCBOR bs = Inr sample_envelope \<and>
      BodyDigest sample_envelope = EnvelopeDigest (fr_Body sample_fetch))"
  using sample_FromFetch envelope_of_fetch [OF sample_FromFetch] by blast

end
