(* ===== verification/Go_Url.thy ===== *)
theory Go_Url
  imports Twirx_Prelude
begin

text \<open>
  The parts of \<open>net/url\<close> (Go 1.23) that the components use: \<open>Parse\<close>,
  \<open>Hostname\<close>, \<open>Port\<close> and \<open>String\<close>, with the percent encodings of paths, hosts,
  zones, user names and fragments. A string is taken apart octet by octet, as the library does.
\<close>

section \<open>Cutting strings\<close>

definition has_prefix :: "string \<Rightarrow> string \<Rightarrow> bool" where
  "has_prefix p s \<longleftrightarrow> take (length p) s = p"

definition has_suffix :: "string \<Rightarrow> string \<Rightarrow> bool" where
  "has_suffix p s \<longleftrightarrow> has_prefix (rev p) (rev s)"

text \<open>\<open>strings.Cut\<close> at an octet: the text before its first occurrence and the text after it.\<close>

definition cut_at :: "char \<Rightarrow> string \<Rightarrow> string \<times> string" where
  "cut_at c s = (takeWhile (\<lambda>x. x \<noteq> c) s, tl (dropWhile (\<lambda>x. x \<noteq> c) s))"

text \<open>The text before the last occurrence of an octet and the text after it, if it occurs.\<close>

definition cut_last :: "char \<Rightarrow> string \<Rightarrow> (string \<times> string) option" where
  "cut_last c s =
     (if c \<in> set s
      then Some (rev (tl (dropWhile (\<lambda>x. x \<noteq> c) (rev s))), rev (takeWhile (\<lambda>x. x \<noteq> c) (rev s)))
      else None)"

text \<open>The text before the first occurrence of a text, and the text from there on.\<close>

fun find_text :: "string \<Rightarrow> string \<Rightarrow> (string \<times> string) option" where
  "find_text p [] = (if p = [] then Some ([], []) else None)"
| "find_text p (c # s) =
     (if has_prefix p (c # s) then Some ([], c # s)
      else map_option (\<lambda>(a, b). (c # a, b)) (find_text p s))"

section \<open>Escapes\<close>

datatype url_mode = PathMode | UserMode | HostMode | ZoneMode | FragmentMode

definition is_alnum :: "char \<Rightarrow> bool" where
  "is_alnum c = (let n = of_char c :: nat in
     48 \<le> n \<and> n \<le> 57 \<or> 65 \<le> n \<and> n \<le> 90 \<or> 97 \<le> n \<and> n \<le> 122)"

definition shouldEscape :: "char \<Rightarrow> url_mode \<Rightarrow> bool" where
  "shouldEscape c m =
     (if is_alnum c then False
      else if (m = HostMode \<or> m = ZoneMode) \<and> c \<in> set ''!$&()*+,;=:[]<>'' \<union> {CHR 0x22, CHR 0x27} then False
      else if c \<in> set ''-_.~'' then False
      else if c \<in> set ''$&+,/:;=?@'' \<and> m = PathMode then c = CHR ''?''
      else if c \<in> set ''$&+,/:;=?@'' \<and> m = UserMode then c \<in> set ''@/?:''
      else if c \<in> set ''$&+,/:;=?@'' \<and> m = FragmentMode then False
      else if m = FragmentMode \<and> c \<in> set ''!()*'' then False
      else True)"

definition is_host_mode :: "url_mode \<Rightarrow> bool" where
  "is_host_mode m \<longleftrightarrow> m = HostMode \<or> m = ZoneMode"

definition escape_refused :: "url_mode \<Rightarrow> char \<Rightarrow> char \<Rightarrow> nat \<Rightarrow> nat \<Rightarrow> bool" where
  "escape_refused m d e h l \<longleftrightarrow>
     [d, e] \<noteq> ''25'' \<and>
     (m = HostMode \<and> h < 8 \<or>
      m = ZoneMode \<and> 16 * h + l \<noteq> 32 \<and> shouldEscape (char_of (16 * h + l)) HostMode)"

fun url_unescape :: "url_mode \<Rightarrow> string \<Rightarrow> error + string" where
  "url_unescape m [] = Inr []"
| "url_unescape m (c # r) =
     (if c = CHR ''%'' then
        (case r of
           d # e # rest \<Rightarrow>
             (case (hex_value d, hex_value e) of
                (Some h, Some l) \<Rightarrow>
                  if escape_refused m d e h l then Inl (Msg ''invalid URL escape'')
                  else ebind (url_unescape m rest) (\<lambda>out. Inr (char_of (16 * h + l) # out))
              | _ \<Rightarrow> Inl (Msg ''invalid URL escape''))
         | _ \<Rightarrow> Inl (Msg ''invalid URL escape''))
      else if is_host_mode m \<and> of_char c < (128 :: nat) \<and> shouldEscape c m then
        Inl (Msg ''invalid character in host name'')
      else ebind (url_unescape m r) (\<lambda>out. Inr (c # out)))"

definition url_percent :: "char \<Rightarrow> string" where
  "url_percent c = (let n = of_char c :: nat in
     [CHR ''%'', ''0123456789ABCDEF'' ! (n div 16), ''0123456789ABCDEF'' ! (n mod 16)])"

definition url_escape :: "url_mode \<Rightarrow> string \<Rightarrow> string" where
  "url_escape m s = concat (map (\<lambda>c. if shouldEscape c m then url_percent c else [c]) s)"

definition validEncoded :: "url_mode \<Rightarrow> string \<Rightarrow> bool" where
  "validEncoded m s \<longleftrightarrow>
     list_all (\<lambda>c. c \<in> set ''!$&()*+,;=:@[]%'' \<or> c = CHR 0x27 \<or> \<not> shouldEscape c m) s"

section \<open>URLs\<close>

record url =
  u_Scheme :: string
  u_Opaque :: string
  u_User :: "(string \<times> string option) option"
  u_Host :: string
  u_Path :: string
  u_RawPath :: string
  u_OmitHost :: bool
  u_ForceQuery :: bool
  u_RawQuery :: string
  u_Fragment :: string
  u_RawFragment :: string

definition empty_url :: url where
  "empty_url = \<lparr>u_Scheme = [], u_Opaque = [], u_User = None, u_Host = [], u_Path = [], u_RawPath = [],
     u_OmitHost = False, u_ForceQuery = False, u_RawQuery = [], u_Fragment = [], u_RawFragment = []\<rparr>"

definition is_letter :: "char \<Rightarrow> bool" where
  "is_letter c = (let n = of_char c :: nat in 65 \<le> n \<and> n \<le> 90 \<or> 97 \<le> n \<and> n \<le> 122)"

definition scheme_char :: "char \<Rightarrow> bool" where
  "scheme_char c \<longleftrightarrow> is_alnum c \<or> c \<in> set ''+-.''"

text \<open>\<open>getScheme\<close>: a letter, then letters, digits and three signs up to the first colon.\<close>

definition getScheme :: "string \<Rightarrow> error + string \<times> string" where
  "getScheme raw =
     (let head = takeWhile scheme_char raw in
      case drop (length head) raw of
        [] \<Rightarrow> Inr ([], raw)
      | c # rest \<Rightarrow>
          if c \<noteq> CHR '':'' then Inr ([], raw)
          else if head = [] then Inl (Msg ''missing protocol scheme'')
          else if \<not> is_letter (hd head) then Inr ([], raw)
          else Inr (head, rest))"

definition validOptionalPort :: "string \<Rightarrow> bool" where
  "validOptionalPort port =
     (case port of [] \<Rightarrow> True
      | c # ds \<Rightarrow> c = CHR '':'' \<and> list_all (\<lambda>d. CHR ''0'' \<le> d \<and> d \<le> CHR ''9'') ds)"

definition validUserinfo :: "string \<Rightarrow> bool" where
  "validUserinfo s \<longleftrightarrow> list_all (\<lambda>c. is_alnum c \<or> c \<in> set ''-._:~!$&()*+,;=%@'' \<or> c = CHR 0x27) s"

definition parseHost :: "string \<Rightarrow> error + string" where
  "parseHost host =
     (if has_prefix ''['' host then
        (case cut_last (CHR '']'') host of
           None \<Rightarrow> Inl (Msg ''missing bracket in host'')
         | Some (before, port) \<Rightarrow>
             if \<not> validOptionalPort port then Inl (Msg ''invalid port after host'')
             else (case find_text ''%25'' before of
                 None \<Rightarrow> url_unescape HostMode host
               | Some (a, zone) \<Rightarrow>
                   ebind (url_unescape HostMode a) (\<lambda>h1.
                   ebind (url_unescape ZoneMode zone) (\<lambda>h2.
                   ebind (url_unescape HostMode (CHR '']'' # port)) (\<lambda>h3. Inr (h1 @ h2 @ h3))))))
      else
        (case cut_last (CHR '':'') host of
           Some (_, port) \<Rightarrow>
             if \<not> validOptionalPort (CHR '':'' # port) then Inl (Msg ''invalid port after host'')
             else url_unescape HostMode host
         | None \<Rightarrow> url_unescape HostMode host))"

definition parseUser :: "string \<Rightarrow> error + string \<times> string option" where
  "parseUser info =
     (if \<not> validUserinfo info then Inl (Msg ''net/url: invalid userinfo'')
      else if CHR '':'' \<notin> set info then
        ebind (url_unescape UserMode info) (\<lambda>name. Inr (name, None))
      else
        ebind (url_unescape UserMode (fst (cut_at (CHR '':'') info))) (\<lambda>name.
        ebind (url_unescape UserMode (snd (cut_at (CHR '':'') info))) (\<lambda>password.
          Inr (name, Some password))))"

definition parseAuthority :: "string \<Rightarrow> error + (string \<times> string option) option \<times> string" where
  "parseAuthority authority =
     (case cut_last (CHR ''@'') authority of
        None \<Rightarrow> ebind (parseHost authority) (\<lambda>host. Inr (None, host))
      | Some (info, rest) \<Rightarrow>
          ebind (parseHost rest) (\<lambda>host. ebind (parseUser info) (\<lambda>user. Inr (Some user, host))))"

definition setPath :: "string \<Rightarrow> url \<Rightarrow> error + url" where
  "setPath p u =
     ebind (url_unescape PathMode p) (\<lambda>path.
       Inr (u\<lparr>u_Path := path, u_RawPath := (if url_escape PathMode path = p then [] else p)\<rparr>))"

definition setFragment :: "string \<Rightarrow> url \<Rightarrow> error + url" where
  "setFragment f u =
     ebind (url_unescape FragmentMode f) (\<lambda>frag.
       Inr (u\<lparr>u_Fragment := frag, u_RawFragment := (if url_escape FragmentMode frag = f then [] else f)\<rparr>))"

definition has_control :: "string \<Rightarrow> bool" where
  "has_control s \<longleftrightarrow> list_ex (\<lambda>c. let n = of_char c :: nat in n < 32 \<or> n = 127) s"

text \<open>The query: a question mark that ends the text only sets \<open>ForceQuery\<close>.\<close>

definition split_query :: "string \<Rightarrow> string \<times> bool \<times> string" where
  "split_query rest =
     (if has_suffix ''?'' rest \<and> count_list rest (CHR ''?'') = 1 then (butlast rest, True, [])
      else (fst (cut_at (CHR ''?'') rest), False, snd (cut_at (CHR ''?'') rest)))"

definition parse_hier :: "string \<Rightarrow> url \<Rightarrow> error + url" where
  "parse_hier rest u =
     (if has_prefix ''//'' rest \<and> (u_Scheme u \<noteq> [] \<or> \<not> has_prefix ''///'' rest) then
        let authority = drop 2 rest in
        ebind (parseAuthority (fst (cut_at (CHR ''/'') authority))) (\<lambda>(user, host).
          setPath (dropWhile (\<lambda>c. c \<noteq> CHR ''/'') authority) (u\<lparr>u_User := user, u_Host := host\<rparr>))
      else setPath rest (u\<lparr>u_OmitHost := (u_Scheme u \<noteq> [] \<and> has_prefix ''/'' rest)\<rparr>))"

definition parse_url :: "string \<Rightarrow> error + url" where
  "parse_url raw =
     (if has_control raw then Inl (Msg ''net/url: invalid control character in URL'')
      else if raw = ''*'' then Inr (empty_url\<lparr>u_Path := ''*''\<rparr>)
      else ebind (getScheme raw) (\<lambda>(scheme, rest0).
        let (rest, force, query) = split_query rest0;
            u = empty_url\<lparr>u_Scheme := map lower_char scheme, u_ForceQuery := force, u_RawQuery := query\<rparr> in
        if \<not> has_prefix ''/'' rest then
          if u_Scheme u \<noteq> [] then Inr (u\<lparr>u_Opaque := rest\<rparr>)
          else if CHR '':'' \<in> set (fst (cut_at (CHR ''/'') rest)) then
            Inl (Msg ''first path segment in URL cannot contain colon'')
          else parse_hier rest u
        else parse_hier rest u))"

definition url_Parse :: "string \<Rightarrow> error + url" where
  "url_Parse raw =
     (let (body, frag) = cut_at (CHR ''#'') raw in
      ebind (parse_url body) (\<lambda>u. if frag = [] then Inr u else setFragment frag u))"

section \<open>Reading and printing a URL\<close>

definition splitHostPort :: "string \<Rightarrow> string \<times> string" where
  "splitHostPort hp =
     (let (host, port) = (case cut_last (CHR '':'') hp of
            Some (h, p) \<Rightarrow> if validOptionalPort (CHR '':'' # p) then (h, p) else (hp, [])
          | None \<Rightarrow> (hp, []))
      in (if has_prefix ''['' host \<and> has_suffix '']'' host then butlast (tl host) else host, port))"

definition url_Hostname :: "url \<Rightarrow> string" where "url_Hostname u = fst (splitHostPort (u_Host u))"
definition url_Port :: "url \<Rightarrow> string" where "url_Port u = snd (splitHostPort (u_Host u))"

definition EscapedPath :: "url \<Rightarrow> string" where
  "EscapedPath u =
     (if u_RawPath u \<noteq> [] \<and> validEncoded PathMode (u_RawPath u) \<and>
         url_unescape PathMode (u_RawPath u) = Inr (u_Path u) then u_RawPath u
      else if u_Path u = ''*'' then ''*''
      else url_escape PathMode (u_Path u))"

definition EscapedFragment :: "url \<Rightarrow> string" where
  "EscapedFragment u =
     (if u_RawFragment u \<noteq> [] \<and> validEncoded FragmentMode (u_RawFragment u) \<and>
         url_unescape FragmentMode (u_RawFragment u) = Inr (u_Fragment u) then u_RawFragment u
      else url_escape FragmentMode (u_Fragment u))"

definition user_text :: "string \<times> string option \<Rightarrow> string" where
  "user_text user = (case user of
      (name, None) \<Rightarrow> url_escape UserMode name
    | (name, Some password) \<Rightarrow> url_escape UserMode name @ '':'' @ url_escape UserMode password)"

definition authority_text :: "url \<Rightarrow> string" where
  "authority_text u =
     (if u_Scheme u = [] \<and> u_Host u = [] \<and> u_User u = None then []
      else if u_OmitHost u \<and> u_Host u = [] \<and> u_User u = None then []
      else (if u_Host u \<noteq> [] \<or> u_Path u \<noteq> [] \<or> u_User u \<noteq> None then ''//'' else []) @
           (case u_User u of None \<Rightarrow> [] | Some user \<Rightarrow> user_text user @ ''@'') @
           url_escape HostMode (u_Host u))"

definition url_String :: "url \<Rightarrow> string" where
  "url_String u =
     (let scheme = (if u_Scheme u = [] then [] else u_Scheme u @ '':'');
          path = EscapedPath u;
          front = scheme @ authority_text u;
          slash = (if path \<noteq> [] \<and> \<not> has_prefix ''/'' path \<and> u_Host u \<noteq> [] then ''/'' else []);
          dot = (if front @ slash = [] \<and> CHR '':'' \<in> set (fst (cut_at (CHR ''/'') path)) then ''./'' else [])
      in (if u_Opaque u \<noteq> [] then scheme @ u_Opaque u else front @ slash @ dot @ path) @
         (if u_ForceQuery u \<or> u_RawQuery u \<noteq> [] then CHR ''?'' # u_RawQuery u else []) @
         (if u_Fragment u \<noteq> [] then CHR ''#'' # EscapedFragment u else []))"

section \<open>Examples and lemmas\<close>

lemma url_Parse_example:
  "map_sum id url_String (url_Parse ''HTTPS://u@Example.org:8443/a%20b/%2F?q=1#f'') =
     Inr ''https://u@Example.org:8443/a%20b/%2F?q=1#f''"
  by code_simp

lemma url_Parse_bad_port: "\<not> isOK (url_Parse ''https://example.org:80a/'')"
  by code_simp

lemma url_Parse_ipv6:
  "map_sum id (\<lambda>u. (url_Hostname u, url_Port u)) (url_Parse ''http://[::1%25lo]:80/'') = Inr (''::1%lo'', ''80'')"
  by code_simp

section \<open>Origins\<close>

lemma cut_at_absent: "c \<notin> set s \<Longrightarrow> cut_at c s = (s, [])"
  by (induction s) (auto simp: cut_at_def)

lemma cut_at_append: "c \<notin> set a \<Longrightarrow> cut_at c (a @ c # b) = (a, b)"
  by (induction a) (auto simp: cut_at_def)

lemma cut_at_split: "c \<in> set s \<Longrightarrow> s = fst (cut_at c s) @ c # snd (cut_at c s)"
proof -
  assume "c \<in> set s"
  then obtain a b where "s = a @ c # b" "c \<notin> set a" by (meson split_list_first)
  then show ?thesis by (simp add: cut_at_append)
qed

lemma cut_at_first: "c \<notin> set (fst (cut_at c s))"
  by (auto simp: cut_at_def dest: set_takeWhileD)

lemma cut_last_None [simp]: "cut_last c s = None \<longleftrightarrow> c \<notin> set s"
  by (simp add: cut_last_def)

lemma has_prefix_append: "has_prefix p s \<longleftrightarrow> (\<exists>r. s = p @ r)"
  by (auto simp: has_prefix_def) (metis append_take_drop_id)

definition host_char :: "char \<Rightarrow> bool" where
  "host_char c \<longleftrightarrow> is_alnum c \<or> c = CHR ''.'' \<or> c = CHR ''-''"

lemma host_char_facts:
  assumes "host_char c"
  shows "c \<notin> set ''[]:/@?#%*'' \<and> \<not> shouldEscape c HostMode \<and>
     32 \<le> (of_char c :: nat) \<and> of_char c < (127 :: nat)"
proof -
  have "c \<notin> set ''[]:/@?#%*''"
    using assms by (auto simp: host_char_def is_alnum_def)
  moreover have "\<not> shouldEscape c HostMode"
    using assms by (auto simp: host_char_def shouldEscape_def)
  moreover have "32 \<le> (of_char c :: nat) \<and> of_char c < (127 :: nat)"
    using assms by (auto simp: host_char_def is_alnum_def Let_def)
  ultimately show ?thesis by simp
qed

lemma unescape_plain: "list_all host_char s \<Longrightarrow> url_unescape HostMode s = Inr s"
proof (induction s)
  case (Cons c s)
  then show ?case using host_char_facts [of c] by (simp add: is_host_mode_def)
qed simp

lemma hex_value_less: "hex_value c = Some h \<Longrightarrow> h < 16"
  by (auto simp: hex_value_def Let_def split: if_splits)

lemma escaped_not_host:
  assumes "hex_value d = Some h" "hex_value e = Some l" "\<not> escape_refused HostMode d e h l"
  shows "\<not> host_char (char_of (16 * h + l))"
proof (cases "[d, e] = ''25''")
  case True
  with assms have "h = 2" "l = 5" by (auto simp: hex_value_def)
  moreover have "\<not> host_char (char_of (37 :: nat))" by code_simp
  ultimately show ?thesis by simp
next
  case False
  with assms(3) have "8 \<le> h" by (auto simp: escape_refused_def)
  with hex_value_less [OF assms(1)] hex_value_less [OF assms(2)]
  have "128 \<le> (of_char (char_of (16 * h + l) :: char) :: nat)" by simp
  then show ?thesis using host_char_facts [of "char_of (16 * h + l)"] by auto
qed

lemma unescape_host_plain:
  "url_unescape HostMode a = Inr out \<Longrightarrow> list_all host_char out \<Longrightarrow> a = out"
proof (induction a arbitrary: out)
  case (Cons c r)
  show ?case
  proof (cases "c = CHR ''%''")
    case True
    with Cons.prems(1) obtain d e rest h l o' where
      "r = d # e # rest" "hex_value d = Some h" "hex_value e = Some l" "\<not> escape_refused HostMode d e h l"
      "out = char_of (16 * h + l) # o'"
      by (auto simp: ebind_eq_Inr split: list.splits option.splits if_splits)
    then show ?thesis using escaped_not_host Cons.prems(2) by fastforce
  next
    case False
    with Cons.prems(1) obtain o' where "url_unescape HostMode r = Inr o'" "out = c # o'"
      by (auto simp: ebind_eq_Inr split: if_splits)
    with Cons show ?thesis by simp
  qed
qed simp

lemma parseHost_plain: "list_all host_char h \<Longrightarrow> parseHost h = Inr h"
proof -
  assume *: "list_all host_char h"
  then have "c \<notin> set ''[]:/@?#%*''" if "c \<in> set h" for c
    using host_char_facts [of c] that by (auto simp: list_all_iff)
  then have "CHR '':'' \<notin> set h" "\<not> has_prefix ''['' h"
    by (fastforce simp: has_prefix_append)+
  then show ?thesis by (simp add: parseHost_def cut_last_def unescape_plain [OF *])
qed

lemma unescape_first:
  "url_unescape m (c # s) = Inr out \<Longrightarrow> c \<noteq> CHR ''%'' \<Longrightarrow> hd out = c \<and> out \<noteq> []"
  by (auto simp: ebind_eq_Inr split: if_splits)

lemma cut_last_Some: "cut_last c s = Some (a, b) \<Longrightarrow> s = a @ c # b \<and> c \<notin> set b"
proof -
  assume "cut_last c s = Some (a, b)"
  then have c: "c \<in> set (rev s)" and ab: "a = rev (tl (dropWhile (\<lambda>x. x \<noteq> c) (rev s)))"
    "b = rev (takeWhile (\<lambda>x. x \<noteq> c) (rev s))" by (simp_all add: cut_last_def split: if_splits)
  from c obtain u v where uv: "rev s = u @ c # v" "c \<notin> set u" by (meson split_list_first)
  then have "a = rev v" "b = rev u" using ab cut_at_append [of c u v] by (simp_all add: cut_at_def)
  moreover have "s = rev v @ c # rev u" using uv(1) by (metis rev_append rev_rev_ident rev.simps(2) append.assoc append_Cons append_Nil)
  ultimately show ?thesis using uv(2) by simp
qed

lemma find_text_Some: "find_text p s = Some (a, b) \<Longrightarrow> s = a @ b \<and> has_prefix p b"
  by (induction p s arbitrary: a b rule: find_text.induct) (auto simp: has_prefix_def split: if_splits)

lemma parseHost_host:
  assumes "parseHost a = Inr h" "list_all host_char h" "h \<noteq> []"
  shows "a = h"
proof (cases "has_prefix ''['' a")
  case True
  then obtain s where a: "a = CHR ''['' # s" by (auto simp: has_prefix_append)
  have "hd h = CHR ''[''"
  proof -
    from True assms(1) obtain before port where c: "cut_last (CHR '']'') a = Some (before, port)"
      by (auto simp: parseHost_def split: option.splits)
    then obtain s' where b: "before = CHR ''['' # s'"
      using cut_last_Some [OF c] a by (cases before) auto
    show ?thesis
    proof (cases "find_text ''%25'' before")
      case None
      with assms(1) True c have "url_unescape HostMode a = Inr h" by (auto simp: parseHost_def split: if_splits)
      with a unescape_first show ?thesis by blast
    next
      case (Some xz)
      obtain x z where xz: "xz = (x, z)" by (cases xz)
      from find_text_Some [OF Some [unfolded xz]] b obtain x' where x: "x = CHR ''['' # x'"
        by (cases x) (auto simp: has_prefix_def)
      from assms(1) True c Some xz obtain h1 h2 h3 where "url_unescape HostMode x = Inr h1" "h = h1 @ h2 @ h3"
        by (auto simp: parseHost_def ebind_eq_Inr split: if_splits)
      with x unescape_first [of HostMode "CHR ''[''" x' h1] show ?thesis by auto
    qed
  qed
  then show ?thesis using assms(2,3) host_char_facts [of "hd h"] by (cases h) auto
next
  case False
  with assms(1) have "url_unescape HostMode a = Inr h"
    by (auto simp: parseHost_def split: option.splits if_splits)
  from unescape_host_plain [OF this assms(2)] show ?thesis .
qed

text \<open>The texts that parse to a bare origin: the scheme in either case, an empty query or fragment.\<close>

definition bare_origin :: "string \<Rightarrow> string \<Rightarrow> string \<Rightarrow> bool" where
  "bare_origin scheme host raw \<longleftrightarrow>
     (\<exists>s q f. map lower_char s = scheme \<and> q \<in> {[], ''?''} \<and> f \<in> {[], ''#''} \<and> raw = s @ ''://'' @ host @ q @ f)"
lemma lower_char_eq: "lower_char c = x \<Longrightarrow> c = x \<or> c = char_of (of_char x - 32 :: nat)"
  by (auto simp: lower_char_def Let_def split: if_splits)

lemma scheme_letters:
  assumes "map lower_char s = ''https''"
  shows "s \<noteq> [] \<and> list_all scheme_char s \<and> is_letter (hd s) \<and>
    list_all (\<lambda>c. c \<notin> set ''#?:/'' \<and> 32 \<le> (of_char c :: nat) \<and> of_char c < (127 :: nat)) s"
proof -
  have cs: "c \<in> set ''hHtTpPsS''" if "c \<in> set s" for c
  proof -
    have "set (map lower_char s) = set ''https''" using assms by (rule arg_cong)
    then have "lower_char c \<in> set ''https''" using that by auto
    moreover have "char_of (72 :: nat) = CHR ''H''" "char_of (84 :: nat) = CHR ''T''"
      "char_of (80 :: nat) = CHR ''P''" "char_of (83 :: nat) = CHR ''S''" by code_simp+
    ultimately show ?thesis by (auto dest!: lower_char_eq)
  qed
  have t: "list_all (\<lambda>c. scheme_char c \<and> is_letter c \<and> c \<notin> set ''#?:/'' \<and> 32 \<le> (of_char c :: nat) \<and>
      of_char c < (127 :: nat)) ''hHtTpPsS''"
    by code_simp
  then have "list_all (\<lambda>c. scheme_char c \<and> is_letter c \<and> c \<notin> set ''#?:/'' \<and> 32 \<le> (of_char c :: nat) \<and>
      of_char c < (127 :: nat)) s"
    using cs unfolding list_all_iff by blast
  moreover have "s \<noteq> []" using assms by auto
  ultimately show ?thesis by (cases s) (auto simp: list_all_iff)
qed

lemma getScheme_split:
  "list_all scheme_char s \<Longrightarrow> s \<noteq> [] \<Longrightarrow> is_letter (hd s) \<Longrightarrow> getScheme (s @ CHR '':'' # rest) = Inr (s, rest)"
proof -
  assume *: "list_all scheme_char s" "s \<noteq> []" "is_letter (hd s)"
  have "takeWhile scheme_char (s @ CHR '':'' # rest) = s"
    using *(1) by (simp add: takeWhile_append list_all_iff scheme_char_def is_alnum_def)
  with * show ?thesis by (simp add: getScheme_def)
qed

lemma getScheme_Inr: "getScheme raw = Inr (s, rest) \<Longrightarrow> s \<noteq> [] \<Longrightarrow> raw = s @ CHR '':'' # rest"
  by (auto simp: getScheme_def Let_def split: list.splits if_splits) (metis append_take_drop_id length_takeWhile_le takeWhile_eq_take)

lemma split_query_none: "CHR ''?'' \<notin> set r \<Longrightarrow> split_query r = (r, False, [])"
  by (auto simp: split_query_def cut_at_absent count_list_0_iff)

lemma split_query_force: "CHR ''?'' \<notin> set r \<Longrightarrow> split_query (r @ ''?'') = (r, True, [])"
  by (simp add: split_query_def has_suffix_def has_prefix_def count_list_0_iff)

lemma split_query_empty: "split_query rest0 = (rest, force, []) \<Longrightarrow> \<exists>q \<in> {[], ''?''}. rest0 = rest @ q"
proof (cases "has_suffix ''?'' rest0 \<and> count_list rest0 (CHR ''?'') = 1")
  case True
  assume "split_query rest0 = (rest, force, [])"
  with True have "rest = butlast rest0" by (simp add: split_query_def)
  moreover from True obtain r where "rev rest0 = CHR ''?'' # r" by (auto simp: has_suffix_def has_prefix_append)
  then have "rest0 = rev r @ ''?''" by (metis rev.simps(2) rev_rev_ident)
  ultimately show ?thesis by simp
next
  case False
  assume "split_query rest0 = (rest, force, [])"
  with False have c: "rest = fst (cut_at (CHR ''?'') rest0)" "snd (cut_at (CHR ''?'') rest0) = []"
    by (auto simp: split_query_def)
  then show ?thesis
    using cut_at_split [of "CHR ''?''" rest0] cut_at_absent [of "CHR ''?''" rest0]
    by (cases "CHR ''?'' \<in> set rest0") auto
qed

lemma host_plain_chars: "list_all host_char h \<Longrightarrow> c \<in> set ''[]:/@?#%*'' \<Longrightarrow> c \<notin> set h"
  using host_char_facts by (auto simp: list_all_iff)

lemma url_Parse_origin:
  assumes "bare_origin ''https'' host raw" "list_all host_char host" "host \<noteq> []"
  shows "\<exists>u. url_Parse raw = Inr u \<and> u_Scheme u = ''https'' \<and> u_Host u = host \<and> u_User u = None \<and>
    u_Path u = [] \<and> u_RawQuery u = [] \<and> u_Fragment u = []"
proof -
  from assms(1) obtain s q f where s: "map lower_char s = ''https''" and q: "q \<in> {[], ''?''}" and f: "f \<in> {[], ''#''}"
    and "raw = s @ ''://'' @ host @ q @ f" unfolding bare_origin_def by (elim exE conjE) (rule that)
  then have raw: "raw = (s @ ''://'' @ host @ q) @ f" by (simp only: append_assoc)
  note sl = scheme_letters [OF s]
  let ?body = "s @ ''://'' @ host @ q" and ?rest = "''//'' @ host"
  have noq: "CHR ''?'' \<notin> set ?rest" "CHR ''/'' \<notin> set host" "CHR ''@'' \<notin> set host" "CHR '':'' \<notin> set host"
    using host_plain_chars [OF assms(2)] by simp_all
  have "CHR ''#'' \<notin> set ?body"
  proof -
    have "CHR ''#'' \<notin> set s" using sl by (auto simp: list_all_iff)
    moreover have "CHR ''#'' \<notin> set host" using host_plain_chars [OF assms(2), of "CHR ''#''"] by simp
    ultimately show ?thesis using q by auto
  qed
  then have cut: "cut_at (CHR ''#'') raw = (?body, [])"
    using f cut_at_absent cut_at_append [of "CHR ''#''" ?body "[]"] by (auto simp: raw)
  have ctl: "\<not> has_control ?body"
  proof -
    have "32 \<le> (of_char c :: nat) \<and> of_char c \<noteq> (127 :: nat)" if "c \<in> set ?body" for c
      using that sl q assms(2) host_char_facts [of c] by (fastforce simp: list_all_iff)
    then show ?thesis by (fastforce simp: has_control_def list_ex_iff Let_def)
  qed
  have star: "?body \<noteq> ''*''" by (cases s) (use sl in auto)
  have gs: "getScheme ?body = Inr (s, ?rest @ q)" using getScheme_split [of s "?rest @ q"] sl by simp
  have sq: "split_query (?rest @ q) = (?rest, q = ''?'', [])"
    using q split_query_none [OF noq(1)] split_query_force [OF noq(1)] by auto
  have pa: "parseAuthority host = Inr (None, host)"
    using noq parseHost_plain [OF assms(2)] by (simp add: parseAuthority_def cut_last_def)
  have dw: "dropWhile (\<lambda>c. c \<noteq> CHR ''/'') host = []" using noq by (auto simp: dropWhile_eq_Nil_conv)
  have "parse_url ?body = Inr (empty_url\<lparr>u_Scheme := ''https'', u_ForceQuery := (q = ''?''), u_RawQuery := [],
      u_User := None, u_Host := host, u_Path := [], u_RawPath := []\<rparr>)"
    unfolding parse_url_def using ctl star
    by (simp only: if_False gs ebind_Inr prod.case sq Let_def s)
      (simp add: has_prefix_def parse_hier_def cut_at_absent noq pa dw setPath_def url_escape_def Let_def)
  then show ?thesis unfolding url_Parse_def cut by (simp add: empty_url_def)
qed
lemma unescape_Nil: "url_unescape m s = Inr [] \<Longrightarrow> s = []"
  by (cases s) (auto simp: ebind_eq_Inr split: list.splits option.splits if_splits)

lemma parse_hier_host:
  assumes "parse_hier rest u0 = Inr u" "u_Host u0 = []" "u_Host u \<noteq> []"
  shows "\<exists>authority user. rest = ''//'' @ authority \<and>
    parseAuthority (fst (cut_at (CHR ''/'') authority)) = Inr (user, u_Host u) \<and> u_User u = user \<and>
    url_unescape PathMode (dropWhile (\<lambda>c. c \<noteq> CHR ''/'') authority) = Inr (u_Path u)"
proof (cases "has_prefix ''//'' rest \<and> (u_Scheme u0 \<noteq> [] \<or> \<not> has_prefix ''///'' rest)")
  case True
  then obtain authority where a: "rest = ''//'' @ authority" by (auto simp: has_prefix_append)
  with assms(1) True show ?thesis
    by (auto simp: parse_hier_def setPath_def ebind_eq_Inr Let_def split: prod.splits)
next
  case False
  then have "parse_hier rest u0 = setPath rest (u0\<lparr>u_OmitHost := (u_Scheme u0 \<noteq> [] \<and> has_prefix ''/'' rest)\<rparr>)"
    unfolding parse_hier_def by (rule if_not_P)
  with assms show ?thesis by (auto simp: setPath_def ebind_eq_Inr)
qed

lemma parse_hier_keeps:
  "parse_hier rest u0 = Inr u \<Longrightarrow> u_Scheme u = u_Scheme u0 \<and> u_RawQuery u = u_RawQuery u0"
  by (auto simp: parse_hier_def setPath_def ebind_eq_Inr Let_def split: prod.splits if_splits)

lemma parse_url_host:
  assumes "parse_url raw = Inr u" "u_Host u \<noteq> []"
  shows "\<exists>scheme rest0 rest force. getScheme raw = Inr (scheme, rest0) \<and>
    split_query rest0 = (rest, force, u_RawQuery u) \<and> u_Scheme u = map lower_char scheme \<and>
    parse_hier rest (empty_url\<lparr>u_Scheme := map lower_char scheme, u_ForceQuery := force,
      u_RawQuery := u_RawQuery u\<rparr>) = Inr u"
proof -
  have "raw \<noteq> ''*''" using assms by (auto simp: parse_url_def has_control_def empty_url_def)
  with assms(1) obtain scheme rest0 where g: "getScheme raw = Inr (scheme, rest0)"
    by (auto simp: parse_url_def ebind_eq_Inr split: if_splits)
  obtain rest force query where s: "split_query rest0 = (rest, force, query)" by (cases "split_query rest0")
  let ?u = "empty_url\<lparr>u_Scheme := map lower_char scheme, u_ForceQuery := force, u_RawQuery := query\<rparr>"
  have "u \<noteq> ?u\<lparr>u_Opaque := rest\<rparr>" using assms(2) by (auto simp: empty_url_def)
  with assms(1) \<open>raw \<noteq> ''*''\<close> have h: "parse_hier rest ?u = Inr u"
    by (auto simp: parse_url_def g s Let_def split: if_splits)
  with parse_hier_keeps [OF h] g s show ?thesis by auto
qed

lemma parseAuthority_bare: "parseAuthority a = Inr (None, h) \<Longrightarrow> parseHost a = Inr h"
  by (auto simp: parseAuthority_def ebind_eq_Inr split: option.splits prod.splits)

lemma parse_url_origin:
  assumes "parse_url raw = Inr u" "u_Scheme u = ''https''" "u_Host u = host" "u_User u = None"
    "u_Path u = []" "u_RawQuery u = []" "list_all host_char host" "host \<noteq> []"
  shows "\<exists>s q. map lower_char s = ''https'' \<and> q \<in> {[], ''?''} \<and> raw = s @ ''://'' @ host @ q"
proof -
  from parse_url_host [OF assms(1)] assms(2,3,6,8) obtain s rest0 rest force where
    g: "getScheme raw = Inr (s, rest0)" and sq: "split_query rest0 = (rest, force, [])"
    and s: "map lower_char s = ''https''"
    and h: "parse_hier rest (empty_url\<lparr>u_Scheme := map lower_char s, u_ForceQuery := force, u_RawQuery := []\<rparr>) = Inr u"
    by auto
  from parse_hier_host [OF h] assms(3,4,8) obtain a where rest: "rest = ''//'' @ a"
    and pa: "parseAuthority (fst (cut_at (CHR ''/'') a)) = Inr (None, host)"
    and pu: "url_unescape PathMode (dropWhile (\<lambda>c. c \<noteq> CHR ''/'') a) = Inr []"
    by (auto simp: empty_url_def assms(5))
  from unescape_Nil [OF pu] have "CHR ''/'' \<notin> set a" by (auto simp: dropWhile_eq_Nil_conv)
  then have "cut_at (CHR ''/'') a = (a, [])" by (rule cut_at_absent)
  with pa have "a = host" using parseHost_host [OF parseAuthority_bare] assms(7,8) by simp
  moreover obtain q where "q \<in> {[], ''?''}" "rest0 = rest @ q" using split_query_empty [OF sq] by blast
  moreover have "raw = s @ CHR '':'' # rest0" using getScheme_Inr [OF g] s by auto
  ultimately have "raw = s @ ''://'' @ host @ q" using rest by simp
  with s \<open>q \<in> {[], ''?''}\<close> show ?thesis by (intro exI conjI)
qed

lemma setFragment_Inr: "setFragment f u = Inr v \<Longrightarrow> f \<noteq> [] \<Longrightarrow> u_Fragment v \<noteq> []"
  by (auto simp: setFragment_def ebind_eq_Inr dest: unescape_Nil)

lemma url_Parse_bare:
  assumes "url_Parse raw = Inr u" "u_Scheme u = ''https''" "u_Host u = host" "u_User u = None"
    "u_Path u = []" "u_RawQuery u = []" "u_Fragment u = []" "list_all host_char host" "host \<noteq> []"
  shows "bare_origin ''https'' host raw"
proof -
  obtain body frag where c: "cut_at (CHR ''#'') raw = (body, frag)" by fastforce
  have f: "frag = []" using assms(1,7) setFragment_Inr by (auto simp: url_Parse_def c ebind_eq_Inr split: if_splits)
  with assms(1) have p: "parse_url body = Inr u" by (simp add: url_Parse_def c ebind_eq_Inr)
  obtain s q where sq: "map lower_char s = ''https''" "q \<in> {[], ''?''}" "body = s @ ''://'' @ host @ q"
    using parse_url_origin [OF p assms(2-6,8,9)] by (elim exE conjE) (rule that)
  moreover have "raw = body \<or> raw = body @ ''#''"
    using cut_at_split [of "CHR ''#''" raw] cut_at_absent [of "CHR ''#''" raw] c f
    by (cases "CHR ''#'' \<in> set raw") auto
  then have "\<exists>f. f \<in> {[], ''#''} \<and> raw = body @ f" by auto
  ultimately show ?thesis unfolding bare_origin_def by (metis append_assoc)
qed

lemma splitHostPort_plain:
  "list_all host_char host \<Longrightarrow> splitHostPort host = (host, [])"
proof -
  assume h: "list_all host_char host"
  have c: "CHR '':'' \<notin> set host" "CHR ''['' \<notin> set host"
    using host_plain_chars [OF h, of "CHR '':''"] host_plain_chars [OF h, of "CHR ''[''"] by simp_all
  then have "\<not> has_prefix ''['' host" by (auto simp: has_prefix_append)
  with c(1) show ?thesis by (simp add: splitHostPort_def cut_last_def)
qed

text \<open>The texts that are a bare \<open>https\<close> origin for a plain host.\<close>

lemma bare_origin_iff:
  assumes "list_all host_char host" "host \<noteq> []"
  shows "(\<exists>u. url_Parse raw = Inr u \<and> u_Scheme u = ''https'' \<and> u_Host u = host \<and> u_User u = None \<and>
      u_Path u = [] \<and> u_RawQuery u = [] \<and> u_Fragment u = []) \<longleftrightarrow> bare_origin ''https'' host raw"
  using url_Parse_origin [OF _ assms] url_Parse_bare assms by blast

end
