(* ===== verification/Transport.thy ===== *)
theory Transport
  imports Cbor_Document Safefetch "HOL-Library.Multiset"
begin

text \<open>
  \<open>internal/transportevidence\<close>: the redirect chain and the allowed response headers of a
  retrieval. The evidence record, its validation (the loops that follow the chain and check the
  order of the headers), the canonical form with its parser, and where the two disagree: the
  parser bounds the policy identifier more tightly than the validator.
\<close>

section \<open>Data\<close>

definition tr_Version_const :: string where "tr_Version_const = ''tw.transport/0.2''"
definition tr_MaxBytes :: nat where "tr_MaxBytes = 131072"
definition tr_MaxURLBytes :: nat where "tr_MaxURLBytes = 8192"
definition tr_MaxHeaders :: nat where "tr_MaxHeaders = 32"
definition tr_MaxHeaderValueBytes :: nat where "tr_MaxHeaderValueBytes = 8192"

lemmas transport_limits [simp] =
  tr_MaxBytes_def tr_MaxURLBytes_def tr_MaxHeaders_def tr_MaxHeaderValueBytes_def

definition allowedHeaderNames :: "string list" where
  "allowedHeaderNames =
     [''content-encoding'', ''content-language'', ''content-location'', ''content-type'']"

record evidence =
  ev_Version :: string
  ev_RequestURL :: string
  ev_FinalURL :: string
  ev_PolicyID :: string
  ev_Redirects :: "redirect list"
  ev_Headers :: "header list"

section \<open>Validation\<close>

definition tr_bounded :: "string \<Rightarrow> string \<Rightarrow> nat \<Rightarrow> error option" where
  "tr_bounded name value limit =
     fail_if (value = [] \<or> length value > limit \<or> \<not> utf8_valid_string value \<or> CHR 0x00 \<in> set value)
       (Msg (name @ '' is invalid or outside bounds''))"

text \<open>
  The loop over the redirects: \<open>expected\<close> is the request URL in round 0 and the previous
  target afterwards.
\<close>

fun validate_redirects :: "bool \<Rightarrow> string \<Rightarrow> redirect list \<Rightarrow> error option" where
  "validate_redirects first expected [] = None"
| "validate_redirects first expected (r # rs) = first_err [
     tr_bounded ''redirect from'' (FromURL r) tr_MaxURLBytes,
     tr_bounded ''redirect to'' (ToURL r) tr_MaxURLBytes,
     fail_if (rd_Status r < 300 \<or> rd_Status r > 399) (Msg ''redirect has non-redirect status''),
     fail_if (first \<and> FromURL r \<noteq> expected) (Msg ''redirect chain does not start at request URL''),
     fail_if (\<not> first \<and> FromURL r \<noteq> expected) (Msg ''redirect chain is discontinuous''),
     validate_redirects False (ToURL r) rs]"

fun validate_headers :: "string \<Rightarrow> string \<Rightarrow> header list \<Rightarrow> error option" where
  "validate_headers previousName previousValue [] = None"
| "validate_headers previousName previousValue (h # hs) = first_err [
     fail_if (hd_Name h \<notin> set allowedHeaderNames) (Msg ''header is not allowed''),
     fail_if (hd_Name h < previousName \<or> (hd_Name h = previousName \<and> hd_Value h < previousValue))
       (Msg ''headers are not sorted''),
     tr_bounded ''header value'' (hd_Value h) tr_MaxHeaderValueBytes,
     validate_headers (hd_Name h) (hd_Value h) hs]"

definition Evidence_Validate :: "evidence \<Rightarrow> error option" where
  "Evidence_Validate e = first_err [
     fail_if (ev_Version e \<noteq> tr_Version_const) (Msg ''unsupported version''),
     first_err (map (\<lambda>value. tr_bounded [] value tr_MaxURLBytes)
       [ev_RequestURL e, ev_FinalURL e, ev_PolicyID e]),
     fail_if (length (ev_Redirects e) > 20) (Msg ''too many redirects''),
     validate_redirects True (ev_RequestURL e) (ev_Redirects e),
     fail_if (length (ev_Redirects e) > 0 \<and> ToURL (last (ev_Redirects e)) \<noteq> ev_FinalURL e)
       (Msg ''redirect chain does not end at final URL''),
     fail_if (ev_Redirects e = [] \<and> ev_RequestURL e \<noteq> ev_FinalURL e)
       (Msg ''changed final URL requires redirect evidence''),
     fail_if (length (ev_Headers e) > tr_MaxHeaders) (Msg ''too many headers''),
     validate_headers [] [] (ev_Headers e)]"

definition tr_FromFetch :: "fetch_result option \<Rightarrow> string \<Rightarrow> error + evidence" where
  "tr_FromFetch result policyID = (case result of
     None \<Rightarrow> Inl (Msg ''nil fetch result'')
   | Some r \<Rightarrow>
       let e = \<lparr>ev_Version = tr_Version_const, ev_RequestURL = fr_RequestURL r,
             ev_FinalURL = fr_FinalURL r, ev_PolicyID = policyID,
             ev_Redirects = fr_Redirects r, ev_Headers = fr_Headers r\<rparr>
       in after (Evidence_Validate e) (Inr e))"

section \<open>Canonical form\<close>

definition redirect_calls :: "redirect \<Rightarrow> enc_call list" where
  "redirect_calls r = [CArray 3, CText (FromURL r), CUint (word_of_int (rd_Status r)), CText (ToURL r)]"

definition header_calls :: "header \<Rightarrow> enc_call list" where
  "header_calls h = [CArray 2, CText (hd_Name h), CText (hd_Value h)]"

definition evidence_calls :: "evidence \<Rightarrow> enc_call list" where
  "evidence_calls e =
     [CArray 7, CText (ev_Version e), CText (ev_RequestURL e), CText (ev_FinalURL e),
      CText (ev_PolicyID e)]
     @ enc_counted redirect_calls (ev_Redirects e)
     @ enc_counted header_calls (ev_Headers e) @ [CArray 0]"

definition Evidence_MarshalCBOR :: "evidence \<Rightarrow> error + byte list" where
  "Evidence_MarshalCBOR e = after (Evidence_Validate e)
     (let encoded = emit (evidence_calls e) in
      if length encoded > tr_MaxBytes then Inl (Msg ''encoded artifact exceeds bound'')
      else Inr encoded)"

definition dec_redirect :: "redirect parser" where
  "dec_redirect =
     dbind (expect_Array 3 (Msg ''invalid redirect entry'')) (\<lambda>_.
     dbind (dec_Text (word_of_nat tr_MaxURLBytes)) (\<lambda>from.
     dbind (delse (Msg ''invalid redirect status'') dec_Uint) (\<lambda>status.
     dbind (dguard (\<not> status > 599) (Msg ''invalid redirect status'')) (\<lambda>_.
     dbind (dec_Text (word_of_nat tr_MaxURLBytes)) (\<lambda>to.
     dret \<lparr>FromURL = from, rd_Status = uint status, ToURL = to\<rparr>)))))"

definition dec_header :: "header parser" where
  "dec_header =
     dbind (expect_Array 2 (Msg ''invalid header entry'')) (\<lambda>_.
     dbind (dec_Text 64) (\<lambda>name.
     dbind (dec_Text (word_of_nat tr_MaxHeaderValueBytes)) (\<lambda>value.
     dret \<lparr>hd_Name = name, hd_Value = value\<rparr>)))"

definition dec_evidence :: "evidence parser" where
  "dec_evidence =
     dbind (expect_Array 7 (Msg ''invalid top-level array'')) (\<lambda>_.
     dbind (dec_Text 128) (\<lambda>version.
     dbind (dec_Text (word_of_nat tr_MaxURLBytes)) (\<lambda>requestURL.
     dbind (dec_Text (word_of_nat tr_MaxURLBytes)) (\<lambda>finalURL.
     dbind (dec_Text 256) (\<lambda>policyID.
     dbind (dec_counted 0 20 (Msg ''invalid redirect array'') dec_redirect) (\<lambda>redirects.
     dbind (dec_counted 0 (word_of_nat tr_MaxHeaders) (Msg ''invalid header array'') dec_header) (\<lambda>headers.
     dbind (expect_Array 0 (Msg ''extensions must be empty'')) (\<lambda>_.
     dbind (dec_finish (Msg ''trailing bytes'')) (\<lambda>_.
     dret \<lparr>ev_Version = version, ev_RequestURL = requestURL, ev_FinalURL = finalURL,
           ev_PolicyID = policyID, ev_Redirects = redirects, ev_Headers = headers\<rparr>)))))))))"

definition Evidence_UnmarshalCBOR :: "byte list \<Rightarrow> error + evidence" where
  "Evidence_UnmarshalCBOR bs =
     (if bs = [] \<or> length bs > tr_MaxBytes then Inl (Msg ''byte length outside bounds'')
      else ebind (run_document dec_evidence bs) (\<lambda>e. after (Evidence_Validate e) (Inr e)))"

text \<open>
  \<open>SortHeaders\<close>: the comparison of \<open>sort.Slice\<close> is a total order on the pairs,
  so that the result does not depend on the sorting algorithm.
\<close>

definition header_key :: "header \<Rightarrow> string \<times> string" where
  "header_key h = (hd_Name h, hd_Value h)"

definition header_less :: "header \<Rightarrow> header \<Rightarrow> bool" where
  "header_less a b = (if hd_Name a = hd_Name b then hd_Value a < hd_Value b else hd_Name a < hd_Name b)"

fun insert_header :: "header \<Rightarrow> header list \<Rightarrow> header list" where
  "insert_header h [] = [h]"
| "insert_header h (g # gs) = (if header_less g h then g # insert_header h gs else h # g # gs)"

definition SortHeaders :: "header list \<Rightarrow> header list" where
  "SortHeaders headers = foldr insert_header headers []"

section \<open>Laws\<close>

lemma tr_bounded_None [accept_simps]:
  "tr_bounded name s limit = None \<longleftrightarrow>
     s \<noteq> [] \<and> length s \<le> limit \<and> utf8_valid_string s \<and> CHR 0x00 \<notin> set s"
  by (auto simp: tr_bounded_def accept_simps)

definition redirect_fits :: "redirect \<Rightarrow> bool" where
  "redirect_fits r \<longleftrightarrow> text_ok 8192 (FromURL r) \<and> text_ok 8192 (ToURL r) \<and>
     0 \<le> rd_Status r \<and> rd_Status r \<le> 599"

definition header_fits :: "header \<Rightarrow> bool" where
  "header_fits h \<longleftrightarrow> text_ok 64 (hd_Name h) \<and> text_ok 8192 (hd_Value h)"

lemma uint_small: "0 \<le> n \<Longrightarrow> n \<le> 599 \<Longrightarrow> uint (word_of_int n :: uint64) = n"
  by (simp add: uint_word_of_int)

interpretation tr_redirect: codec redirect_calls dec_redirect redirect_fits
proof
  show "dec_redirect (dec_at pre (emit (redirect_calls x) @ r)) =
      Inr (x, dec_at (pre @ emit (redirect_calls x)) r)" if "redirect_fits x" for x pre r
    using that
    by (simp add: dec_redirect_def redirect_calls_def redirect_fits_def emit_simps decode_simps
        uint_small word_less_def)
  show "dec_sound dec_redirect (\<lambda>x c. redirect_fits x \<and> c = emit (redirect_calls x))"
    unfolding dec_redirect_def transport_limits of_nat_numeral
    apply (rule dec_sound_bind, ((rule dec_sound_else)?, rule sound_intros))+
    apply (rule dec_sound_ret)
    apply (simp add: redirect_calls_def redirect_fits_def emit_simps word_less_def not_less)
    done
qed

interpretation tr_header: codec header_calls dec_header header_fits
proof
  show "dec_header (dec_at pre (emit (header_calls x) @ r)) =
      Inr (x, dec_at (pre @ emit (header_calls x)) r)" if "header_fits x" for x pre r
    using that by (simp add: dec_header_def header_calls_def header_fits_def emit_simps decode_simps)
  show "dec_sound dec_header (\<lambda>x c. header_fits x \<and> c = emit (header_calls x))"
    unfolding dec_header_def transport_limits of_nat_numeral
    apply (rule dec_sound_bind, rule sound_intros)+
    apply (rule dec_sound_ret)
    apply (simp add: header_calls_def header_fits_def emit_simps)
    done
qed

interpretation tr_redirects: codec "enc_counted redirect_calls"
    "dec_counted 0 20 (Msg ''invalid redirect array'') dec_redirect"
    "\<lambda>xs. list_all redirect_fits xs \<and> unat (0::uint64) \<le> length xs \<and> length xs \<le> unat (20::uint64)"
  by (rule tr_redirect.counted_codec)

interpretation tr_headers: codec "enc_counted header_calls"
    "dec_counted 0 32 (Msg ''invalid header array'') dec_header"
    "\<lambda>xs. list_all header_fits xs \<and> unat (0::uint64) \<le> length xs \<and> length xs \<le> unat (32::uint64)"
  by (rule tr_header.counted_codec)

lemmas tr_complete [decode_simps] =
  tr_redirects.complete tr_redirects.complete_last tr_headers.complete tr_headers.complete_last

lemmas tr_sound [sound_intros] = tr_redirects.sound tr_headers.sound

lemma validate_redirects_fits:
  "validate_redirects first u rs = None \<Longrightarrow> list_all redirect_fits rs"
  by (induction rs arbitrary: first u)
    (auto simp: accept_simps redirect_fits_def text_ok_def)

text \<open>The chain the loop accepts: consecutive redirects meet.\<close>

fun chain_from :: "string \<Rightarrow> redirect list \<Rightarrow> bool" where
  "chain_from u [] = True"
| "chain_from u (r # rs) = (FromURL r = u \<and> chain_from (ToURL r) rs)"

fun chain_end :: "string \<Rightarrow> redirect list \<Rightarrow> string" where
  "chain_end u [] = u"
| "chain_end u (r # rs) = chain_end (ToURL r) rs"

lemma validate_redirects_chain: "validate_redirects first u rs = None \<Longrightarrow> chain_from u rs"
  by (induction rs arbitrary: first u) (auto simp: accept_simps)

lemma chain_end_last: "chain_end u rs = (if rs = [] then u else ToURL (last rs))"
  by (induction rs arbitrary: u) simp_all

lemma allowed_fits: "n \<in> set allowedHeaderNames \<Longrightarrow> text_ok 64 n"
  by (auto simp: allowedHeaderNames_def text_ok_def)

lemma validate_headers_fits:
  "validate_headers n v hs = None \<Longrightarrow> list_all header_fits hs"
  by (induction hs arbitrary: n v)
    (auto simp: accept_simps header_fits_def text_ok_def dest: allowed_fits)

lemma Evidence_Validate_fits:
  assumes "Evidence_Validate e = None"
  shows "text_ok 128 (ev_Version e)" "text_ok 8192 (ev_RequestURL e)" "text_ok 8192 (ev_FinalURL e)"
    "utf8_valid_string (ev_PolicyID e)"
    "list_all redirect_fits (ev_Redirects e)" "length (ev_Redirects e) \<le> 20"
    "list_all header_fits (ev_Headers e)" "length (ev_Headers e) \<le> 32"
  using assms
  by (auto simp: Evidence_Validate_def accept_simps text_ok_def tr_Version_const_def
      intro: validate_redirects_fits validate_headers_fits)

definition evidence_wf :: "evidence \<Rightarrow> bool" where
  "evidence_wf e \<longleftrightarrow> length (ev_PolicyID e) \<le> 256"

lemma dec_evidence_sound:
  "dec_sound dec_evidence (\<lambda>e c. evidence_wf e \<and> c = emit (evidence_calls e))"
  unfolding dec_evidence_def transport_limits of_nat_numeral
  apply (rule dec_sound_bind, rule sound_intros)+
  apply (rule dec_sound_bind, rule dec_sound_finish, rule dec_sound_ret)
  apply (simp add: evidence_calls_def evidence_wf_def text_ok_def emit_simps)
  done

lemma dec_evidence_ends: "ends_input dec_evidence"
  unfolding dec_evidence_def transport_limits of_nat_numeral
  by (rule ends_input_bind, rule sound_intros)+ (rule ends_input_finish)

lemma dec_evidence_complete:
  assumes "Evidence_Validate e = None" "evidence_wf e"
  shows "dec_evidence (dec_at pre (emit (evidence_calls e))) =
         Inr (e, dec_at (pre @ emit (evidence_calls e)) [])"
proof -
  have "text_ok 256 (ev_PolicyID e)"
    using Evidence_Validate_fits(4) [OF assms(1)] assms(2) by (simp add: text_ok_def evidence_wf_def)
  with Evidence_Validate_fits [OF assms(1)] show ?thesis
    by (simp add: dec_evidence_def evidence_calls_def emit_simps decode_simps)
qed

interpretation evidence_doc: document Evidence_MarshalCBOR Evidence_UnmarshalCBOR evidence_wf
proof
  show "Evidence_UnmarshalCBOR b = Inr e" if "evidence_wf e" "Evidence_MarshalCBOR e = Inr b" for e b
  proof -
    from that have v: "Evidence_Validate e = None" and b: "b = emit (evidence_calls e)"
      and l: "length b \<le> tr_MaxBytes"
      by (auto simp: Evidence_MarshalCBOR_def after_Inr Let_def split: if_splits)
    have "run_document dec_evidence b = Inr e"
      unfolding run_document_Inr b using dec_evidence_complete [OF v that(1)] by (rule exI)
    moreover have "b \<noteq> []"
      unfolding b by (rule emit_nonempty) (simp_all add: evidence_calls_def)
    ultimately show ?thesis using v l by (simp add: Evidence_UnmarshalCBOR_def)
  qed
  show "Evidence_MarshalCBOR e = Inr b" "evidence_wf e" if "Evidence_UnmarshalCBOR b = Inr e" for e b
  proof -
    from that have v: "Evidence_Validate e = None" and r: "run_document dec_evidence b = Inr e"
      and l: "length b \<le> tr_MaxBytes"
      by (auto simp: Evidence_UnmarshalCBOR_def ebind_eq_Inr after_Inr split: if_splits)
    from run_document_sound [OF dec_evidence_sound dec_evidence_ends r] v l
    show "Evidence_MarshalCBOR e = Inr b" "evidence_wf e"
      by (simp_all add: Evidence_MarshalCBOR_def)
  qed
qed

text \<open>A policy identifier between the two limits is marshalled and never read back.\<close>

lemma dec_evidence_long_policy:
  assumes "Evidence_Validate e = None" "256 < length (ev_PolicyID e)"
  shows "dec_evidence (dec_at [] (emit (evidence_calls e))) = Inl (Msg ''text length exceeds limit'')"
proof -
  have "length (ev_PolicyID e) \<le> 8192"
    using assms(1) by (simp add: Evidence_Validate_def accept_simps)
  then have "dec_Text 256 (dec_at pre (emit [CText (ev_PolicyID e)] @ r)) =
      Inl (Msg ''text length exceeds limit'')" for pre r
    using assms(2) by (intro dec_Text_too_long) simp_all
  with Evidence_Validate_fits [OF assms(1)] show ?thesis
    by (simp add: dec_evidence_def evidence_calls_def emit_simps decode_simps)
qed

text \<open>Sorting.\<close>

lemma insert_header_mset [simp]: "mset (insert_header h hs) = add_mset h (mset hs)"
  by (induction hs) auto

lemma SortHeaders_mset: "mset (SortHeaders hs) = mset hs"
  unfolding SortHeaders_def by (induction hs) simp_all

lemma header_less_trans: "\<not> header_less b a \<Longrightarrow> \<not> header_less c b \<Longrightarrow> \<not> header_less c a"
  by (auto simp: header_less_def split: if_splits)

lemma insert_header_sorted:
  "sorted_wrt (\<lambda>a b. \<not> header_less b a) hs \<Longrightarrow>
   sorted_wrt (\<lambda>a b. \<not> header_less b a) (insert_header h hs)"
proof (induction hs)
  case (Cons g gs)
  have s: "set (insert_header h gs) = insert h (set gs)"
    by (metis insert_header_mset set_mset_add_mset_insert set_mset_mset)
  have "header_less g h \<Longrightarrow> \<not> header_less h g" by (auto simp: header_less_def split: if_splits)
  then show ?case using Cons by (auto simp: s) (metis header_less_trans)
qed simp

lemma SortHeaders_sorted: "sorted_wrt (\<lambda>a b. \<not> header_less b a) (SortHeaders hs)"
  unfolding SortHeaders_def by (induction hs) (simp_all add: insert_header_sorted)

definition header_acceptable :: "header \<Rightarrow> bool" where
  "header_acceptable h \<longleftrightarrow> hd_Name h \<in> set allowedHeaderNames \<and>
     tr_bounded ''header value'' (hd_Value h) tr_MaxHeaderValueBytes = None"

lemma validate_headers_iff:
  "validate_headers n v hs = None \<longleftrightarrow>
     (\<forall>h \<in> set hs. header_acceptable h) \<and>
     sorted_wrt (\<lambda>a b. \<not> header_less b a) (\<lparr>hd_Name = n, hd_Value = v\<rparr> # hs)"
proof (induction hs arbitrary: n v)
  case (Cons h hs)
  let ?p = "\<lparr>hd_Name = n, hd_Value = v\<rparr>"
  have step: "\<not> (hd_Name h < n \<or> (hd_Name h = n \<and> hd_Value h < v)) \<longleftrightarrow> \<not> header_less h ?p"
    by (auto simp: header_less_def)
  have h: "\<lparr>hd_Name = hd_Name h, hd_Value = hd_Value h\<rparr> = h" by simp
  have "validate_headers n v (h # hs) = None \<longleftrightarrow>
      header_acceptable h \<and> \<not> header_less h ?p \<and> validate_headers (hd_Name h) (hd_Value h) hs = None"
    unfolding validate_headers.simps first_err_None first_err_Nil fail_if_None header_acceptable_def step
    by blast
  also have "\<dots> \<longleftrightarrow> header_acceptable h \<and> \<not> header_less h ?p \<and>
      (\<forall>g \<in> set hs. header_acceptable g) \<and> sorted_wrt (\<lambda>a b. \<not> header_less b a) (h # hs)"
    unfolding Cons.IH h by blast
  also have "\<dots> \<longleftrightarrow> (\<forall>g \<in> set (h # hs). header_acceptable g) \<and>
      sorted_wrt (\<lambda>a b. \<not> header_less b a) (?p # h # hs)"
    by auto (metis header_less_trans)
  finally show ?case .
qed simp

section \<open>Properties\<close>

text \<open>
  Transport evidence whose policy identifier has at most 256 octets survives marshalling;
  the octets that are accepted for it are the ones marshalling it gives.
\<close>

theorem evidence_accepted:
  "Evidence_UnmarshalCBOR bs = Inr e \<longleftrightarrow>
     length (ev_PolicyID e) \<le> 256 \<and> Evidence_MarshalCBOR e = Inr bs"
  using evidence_doc.accepted_iff by (simp add: evidence_wf_def)

text \<open>
  Marshalled evidence is read back exactly when its policy identifier has at most 256
  octets, although validation accepts up to 8192: the longer ones are marshalled and then
  always refused.
\<close>

theorem evidence_long_policy_unreadable:
  assumes "Evidence_MarshalCBOR e = Inr bs"
  shows "isOK (Evidence_UnmarshalCBOR bs) \<longleftrightarrow> length (ev_PolicyID e) \<le> 256"
proof
  assume "length (ev_PolicyID e) \<le> 256"
  then have "evidence_wf e" by (simp add: evidence_wf_def)
  from evidence_doc.marshal_unmarshal [OF this assms] show "isOK (Evidence_UnmarshalCBOR bs)" by simp
next
  assume ok: "isOK (Evidence_UnmarshalCBOR bs)"
  show "length (ev_PolicyID e) \<le> 256"
  proof (rule ccontr)
    assume "\<not> length (ev_PolicyID e) \<le> 256"
    moreover from assms have "Evidence_Validate e = None" and bs: "bs = emit (evidence_calls e)"
      by (auto simp: Evidence_MarshalCBOR_def after_Inr Let_def split: if_splits)
    ultimately have "run_document dec_evidence bs = Inl (Msg ''text length exceeds limit'')"
      using dec_evidence_long_policy [of e] by (simp add: run_document_def NewDecoder_at)
    with ok show False by (simp add: Evidence_UnmarshalCBOR_def split: if_splits)
  qed
qed

definition sample_evidence :: "string \<Rightarrow> evidence" where
  "sample_evidence policy = \<lparr>ev_Version = tr_Version_const, ev_RequestURL = ''https://a.example/'',
     ev_FinalURL = ''https://a.example/b'', ev_PolicyID = policy,
     ev_Redirects = [\<lparr>FromURL = ''https://a.example/'', rd_Status = 301, ToURL = ''https://a.example/b''\<rparr>],
     ev_Headers = [\<lparr>hd_Name = ''content-type'', hd_Value = ''text/html''\<rparr>]\<rparr>"

definition long_policy :: string where
  "long_policy = replicate 300 CHR ''p''"

lemma long_policy_facts:
  "length long_policy = 300" "long_policy \<noteq> []" "utf8_valid_string long_policy" "CHR 0x00 \<notin> set long_policy"
  by (simp_all add: long_policy_def utf8_valid_string_ascii is_ascii_def list_all_iff)

lemma sample_evidence_valid: "Evidence_Validate (sample_evidence long_policy) = None"
  using long_policy_facts
  by (simp add: Evidence_Validate_def sample_evidence_def accept_simps tr_Version_const_def allowedHeaderNames_def
      utf8_valid_string_ascii is_ascii_def)

lemma sample_evidence_marshals:
  "Evidence_MarshalCBOR (sample_evidence long_policy) = Inr (emit (evidence_calls (sample_evidence long_policy)))"
proof -
  have "length (emit (evidence_calls (sample_evidence long_policy))) \<le> tr_MaxBytes"
    by (rule order_trans [OF emit_length])
      (simp add: evidence_calls_def sample_evidence_def redirect_calls_def header_calls_def enc_counted_def
        tr_Version_const_def long_policy_facts)
  then show ?thesis by (simp add: Evidence_MarshalCBOR_def sample_evidence_valid Let_def)
qed

theorem evidence_long_policy_unreadable_witness:
  "Evidence_MarshalCBOR (sample_evidence long_policy) = Inr (emit (evidence_calls (sample_evidence long_policy))) \<and>
   \<not> isOK (Evidence_UnmarshalCBOR (emit (evidence_calls (sample_evidence long_policy))))"
  using sample_evidence_marshals evidence_long_policy_unreadable [OF sample_evidence_marshals]
  by (simp add: sample_evidence_def long_policy_facts)

text \<open>
  The redirects of valid evidence form a chain from the request URL to the final URL, so
  that a changed URL always has a redirect as its evidence.
\<close>

theorem evidence_redirect_chain:
  assumes "Evidence_Validate e = None"
  shows "chain_from (ev_RequestURL e) (ev_Redirects e) \<and>
    chain_end (ev_RequestURL e) (ev_Redirects e) = ev_FinalURL e \<and> length (ev_Redirects e) \<le> 20"
proof -
  from assms have "validate_redirects True (ev_RequestURL e) (ev_Redirects e) = None"
    and l: "length (ev_Redirects e) \<le> 20"
    and "ev_Redirects e \<noteq> [] \<Longrightarrow> ToURL (last (ev_Redirects e)) = ev_FinalURL e"
    "ev_Redirects e = [] \<Longrightarrow> ev_RequestURL e = ev_FinalURL e"
    by (auto simp: Evidence_Validate_def first_err_None fail_if_None)
  then show ?thesis using validate_redirects_chain by (simp add: chain_end_last)
qed

theorem evidence_redirect_chain_witness:
  "Evidence_Validate (sample_evidence long_policy) = None \<and>
   chain_end ''https://a.example/'' (ev_Redirects (sample_evidence long_policy)) = ''https://a.example/b''"
  using sample_evidence_valid evidence_redirect_chain [OF sample_evidence_valid]
  by (simp add: sample_evidence_def)

text \<open>
  \<open>SortHeaders\<close> keeps the headers with their multiplicity and makes them pass the
  order check of validation; validation then accepts them exactly when it accepts each of them.
\<close>

theorem sorted_headers_accepted:
  "mset (SortHeaders hs) = mset hs \<and>
   (validate_headers [] [] (SortHeaders hs) = None \<longleftrightarrow>
      list_all (\<lambda>h. hd_Name h \<in> set allowedHeaderNames \<and>
         tr_bounded ''header value'' (hd_Value h) tr_MaxHeaderValueBytes = None) hs)"
proof
  show m: "mset (SortHeaders hs) = mset hs" by (rule SortHeaders_mset)
  then have s: "set (SortHeaders hs) = set hs" by (rule mset_eq_setD)
  have "\<not> header_less h \<lparr>hd_Name = [], hd_Value = []\<rparr>" for h
    by (simp add: header_less_def)
  then show "validate_headers [] [] (SortHeaders hs) = None \<longleftrightarrow>
      list_all (\<lambda>h. hd_Name h \<in> set allowedHeaderNames \<and>
         tr_bounded ''header value'' (hd_Value h) tr_MaxHeaderValueBytes = None) hs"
    unfolding validate_headers_iff s using SortHeaders_sorted [of hs]
    by (simp add: s header_acceptable_def list_all_iff)
qed

end
