(* ===== verification/Fetch_Policy.thy ===== *)
theory Fetch_Policy
  imports Safefetch Go_Url Transport
begin

text \<open>
  \<open>internal/safefetch/safefetch.go\<close>: what may be fetched. The checks on a URL, the
  addresses that may be dialled, and a fetch with its redirects. The HTTP exchange, the resolver,
  the dialer, the clock and \<open>mime.ParseMediaType\<close> are arguments; following a redirect, the
  calls of \<open>CheckRedirect\<close> and the limited read of the body are written out as
  \<open>net/http\<close> and \<open>io\<close> do them.
\<close>

unbundle bit_operations_syntax

section \<open>Policy\<close>

record fetch_policy =
  fp_ID :: string
  AllowLoopback :: bool
  AllowNonStandardPorts :: bool
  MaxRedirects :: int
  fp_MaxBodyBytes :: uint64
  RequestTimeout :: int
  ConnectTimeout :: int
  ResponseHeaderTimeout :: int
  UserAgent :: string
  AllowedHosts :: "string list"

definition DefaultPolicyID :: string where "DefaultPolicyID = ''tw.fetch.public-v0''"

definition DefaultPolicy :: fetch_policy where
  "DefaultPolicy =
     \<lparr>fp_ID = DefaultPolicyID, AllowLoopback = False, AllowNonStandardPorts = False, MaxRedirects = 5,
      fp_MaxBodyBytes = 2097152, RequestTimeout = 20000000000, ConnectTimeout = 5000000000,
      ResponseHeaderTimeout = 10000000000,
      UserAgent = ''TypedWebObserver/0.1 (+https://typedweb.org)'', AllowedHosts = []\<rparr>"

record fetcher =
  ft_policy :: fetch_policy
  allowedHosts :: "string list"

definition allowed_host_ok :: "string \<Rightarrow> bool" where
  "allowed_host_ok host \<longleftrightarrow>
     \<not> (host = [] \<or> length host > 253 \<or> host \<noteq> to_lower host \<or> list_ex (\<lambda>c. c \<in> set ''/@[]:'') host)"

definition fetcher_New :: "fetch_policy \<Rightarrow> error + fetcher" where
  "fetcher_New policy =
     after (first_err [
       fail_if (fp_ID policy = []) (Msg ''policy ID is required''),
       fail_if (MaxRedirects policy < 0 \<or> MaxRedirects policy > 20)
         (Msg ''redirect limit must be between 0 and 20''),
       fail_if (sint (fp_MaxBodyBytes policy) \<le> 0) (Msg ''body limit must be positive''),
       fail_if (RequestTimeout policy \<le> 0 \<or> ConnectTimeout policy \<le> 0 \<or> ResponseHeaderTimeout policy \<le> 0)
         (Msg ''timeouts must be positive''),
       fail_if (length (AllowedHosts policy) > 32) (Msg ''too many allowed hosts''),
       first_err (map (\<lambda>host. fail_if (\<not> allowed_host_ok host) (Msg ''invalid allowed host''))
         (AllowedHosts policy))])
       (Inr \<lparr>ft_policy = policy, allowedHosts = AllowedHosts policy\<rparr>)"

section \<open>URLs\<close>

definition hostAllowed :: "string list \<Rightarrow> string \<Rightarrow> bool" where
  "hostAllowed allowed candidate \<longleftrightarrow> list_ex (\<lambda>host. fold_ascii host = fold_ascii candidate) allowed"

definition standard_port :: "url \<Rightarrow> bool" where
  "standard_port u \<longleftrightarrow>
     \<not> (u_Scheme u = ''http'' \<and> url_Port u \<noteq> [] \<and> url_Port u \<noteq> ''80'' \<or>
        u_Scheme u = ''https'' \<and> url_Port u \<noteq> [] \<and> url_Port u \<noteq> ''443'')"

definition validateURL :: "fetcher \<Rightarrow> string \<Rightarrow> error + url" where
  "validateURL f raw =
     (if raw = [] \<or> length raw > 4096 then Inl (Msg ''URL is empty or too long'')
      else case url_Parse raw of Inl e \<Rightarrow> Inl (Wrap ''parse URL'' e) | Inr u \<Rightarrow>
        after (first_err [
          fail_if (u_Scheme u \<noteq> ''http'' \<and> u_Scheme u \<noteq> ''https'') (Msg ''scheme is not allowed''),
          fail_if (u_User u \<noteq> None) (Msg ''embedded credentials are not allowed''),
          fail_if (url_Hostname u = []) (Msg ''hostname is required''),
          fail_if (length (allowedHosts f) > 0 \<and> \<not> hostAllowed (allowedHosts f) (url_Hostname u))
            (Msg ''hostname is not admitted''),
          fail_if (\<not> AllowNonStandardPorts (ft_policy f) \<and> \<not> standard_port u)
            (Msg ''non-standard port is not allowed'')])
          (Inr (u\<lparr>u_Fragment := []\<rparr>)))"

section \<open>Addresses\<close>

text \<open>
  \<open>netip.Addr\<close>: the zero address, an IPv4 address, or an IPv6 address with its zone. The
  class tests read the octets of an address as numbers.
\<close>

datatype addr = NoAddr | V4 "32 word" | V6 "128 word" string

definition octet4 :: "nat \<Rightarrow> 32 word \<Rightarrow> nat" where
  "octet4 i a = unat a div 2 ^ (24 - 8 * i) mod 256"

definition top6 :: "nat \<Rightarrow> 128 word \<Rightarrow> nat" where
  "top6 bits a = unat a div 2 ^ (128 - bits)"

definition Unmap :: "addr \<Rightarrow> addr" where
  "Unmap ip = (case ip of
      V6 a zone \<Rightarrow> if top6 96 a = 0xFFFF then V4 (word_of_nat (unat a mod 2 ^ 32)) else ip
    | _ \<Rightarrow> ip)"

definition IsLoopback :: "addr \<Rightarrow> bool" where
  "IsLoopback ip = (case ip of NoAddr \<Rightarrow> False | V4 a \<Rightarrow> octet4 0 a = 127 | V6 a zone \<Rightarrow> a = 1)"

definition IsPrivate :: "addr \<Rightarrow> bool" where
  "IsPrivate ip = (case ip of NoAddr \<Rightarrow> False
    | V4 a \<Rightarrow> octet4 0 a = 10 \<or> octet4 0 a = 172 \<and> octet4 1 a div 16 = 1 \<or>
        octet4 0 a = 192 \<and> octet4 1 a = 168
    | V6 a zone \<Rightarrow> top6 7 a = 0x7E)"

definition IsLinkLocalUnicast :: "addr \<Rightarrow> bool" where
  "IsLinkLocalUnicast ip = (case ip of NoAddr \<Rightarrow> False
    | V4 a \<Rightarrow> octet4 0 a = 169 \<and> octet4 1 a = 254 | V6 a zone \<Rightarrow> top6 10 a = 0x3FA)"

definition IsMulticast :: "addr \<Rightarrow> bool" where
  "IsMulticast ip = (case ip of NoAddr \<Rightarrow> False
    | V4 a \<Rightarrow> octet4 0 a div 16 = 14 | V6 a zone \<Rightarrow> top6 8 a = 0xFF)"

definition IsLinkLocalMulticast :: "addr \<Rightarrow> bool" where
  "IsLinkLocalMulticast ip = (case ip of NoAddr \<Rightarrow> False
    | V4 a \<Rightarrow> octet4 0 a = 224 \<and> octet4 1 a = 0 \<and> octet4 2 a = 0
    | V6 a zone \<Rightarrow> top6 8 a = 0xFF \<and> top6 16 a mod 16 = 2)"

definition IsUnspecified :: "addr \<Rightarrow> bool" where
  "IsUnspecified ip \<longleftrightarrow> ip = V4 0 \<or> ip = V6 0 []"

definition IsGlobalUnicast :: "addr \<Rightarrow> bool" where
  "IsGlobalUnicast ip \<longleftrightarrow>
     ip \<noteq> NoAddr \<and> ip \<noteq> V4 0 \<and> ip \<noteq> V4 (- 1) \<and> ip \<noteq> V6 0 [] \<and>
     \<not> IsLoopback ip \<and> \<not> IsMulticast ip \<and> \<not> IsLinkLocalUnicast ip"

text \<open>\<open>netip.Prefix\<close> and \<open>Contains\<close>: an address with a zone is in no prefix.\<close>

datatype prefix = P4 "32 word" nat | P6 "128 word" nat

definition prefix_Contains :: "prefix \<Rightarrow> addr \<Rightarrow> bool" where
  "prefix_Contains p ip = (case (p, ip) of
      (P4 base bits, V4 a) \<Rightarrow> drop_bit (32 - bits) (a XOR base) = 0
    | (P6 base bits, V6 a zone) \<Rightarrow> zone = [] \<and> drop_bit (128 - bits) (a XOR base) = 0
    | _ \<Rightarrow> False)"

definition deniedPrefixes :: "prefix list" where
  "deniedPrefixes = [
     P4 0x00000000 8, P4 0x64400000 10, P4 0xC0000000 24, P4 0xC0000200 24, P4 0xC6120000 15,
     P4 0xC6336400 24, P4 0xCB007100 24, P4 0xE0000000 4, P4 0xF0000000 4,
     P6 0x0064FF9B000100000000000000000000 48, P6 0x01000000000000000000000000000000 64,
     P6 0x20010002000000000000000000000000 48, P6 0x20010DB8000000000000000000000000 32,
     P6 0x20010010000000000000000000000000 28, P6 0x3FFF0000000000000000000000000000 20]"

definition validateIP :: "fetcher \<Rightarrow> addr \<Rightarrow> error option" where
  "validateIP f addr0 =
     (if addr0 = NoAddr then Some (Msg ''invalid address'')
      else let addr = Unmap addr0 in
        if IsLoopback addr then
          fail_if (\<not> AllowLoopback (ft_policy f)) (Msg ''loopback address denied'')
        else first_err [
          fail_if (IsPrivate addr \<or> IsLinkLocalUnicast addr \<or> IsLinkLocalMulticast addr \<or>
              IsMulticast addr \<or> IsUnspecified addr) (Msg ''non-public address denied''),
          fail_if (list_ex (\<lambda>p. prefix_Contains p addr) deniedPrefixes) (Msg ''address in denied range''),
          fail_if (\<not> IsGlobalUnicast addr) (Msg ''address is not global unicast'')])"

section \<open>Dialling\<close>

text \<open>\<open>net.SplitHostPort\<close> and \<open>strconv.ParseUint(s, 10, bits)\<close>.\<close>

definition SplitHostPort :: "string \<Rightarrow> error + string \<times> string" where
  "SplitHostPort hp =
     (case cut_last (CHR '':'') hp of
        None \<Rightarrow> Inl (Msg ''missing port in address'')
      | Some (front, port) \<Rightarrow>
          if has_prefix ''['' hp then
            let inner = takeWhile (\<lambda>c. c \<noteq> CHR '']'') (tl hp) in
            if CHR '']'' \<notin> set hp then Inl (Msg ''missing bracket in address'')
            else if front \<noteq> CHR ''['' # inner @ '']'' then Inl (Msg ''missing port or too many colons'')
            else if CHR ''['' \<in> set inner \<or> CHR ''['' \<in> set port then Inl (Msg ''unexpected bracket in address'')
            else if CHR '']'' \<in> set port then Inl (Msg ''unexpected bracket in address'')
            else Inr (inner, port)
          else if CHR '':'' \<in> set front then Inl (Msg ''too many colons in address'')
          else if CHR ''['' \<in> set hp \<or> CHR '']'' \<in> set hp then Inl (Msg ''unexpected bracket in address'')
          else Inr (front, port))"

text \<open>
  The dial function: the result and the addresses that were dialled, in order. \<open>resolve\<close> is
  the resolver, \<open>dial\<close> connects to an address and port.
\<close>

fun dial_first :: "(addr \<Rightarrow> string \<Rightarrow> error + 'conn) \<Rightarrow> string \<Rightarrow> addr list \<Rightarrow> 'conn option \<times> addr list" where
  "dial_first dial port [] = (None, [])"
| "dial_first dial port (a # as) =
     (case dial a port of
        Inr conn \<Rightarrow> (Some conn, [a])
      | Inl _ \<Rightarrow> (let (r, tried) = dial_first dial port as in (r, a # tried)))"

definition safeDialContext ::
  "fetcher \<Rightarrow> (string \<Rightarrow> error + addr list) \<Rightarrow> (addr \<Rightarrow> string \<Rightarrow> error + 'conn) \<Rightarrow> string \<Rightarrow>
   (error + 'conn) \<times> addr list" where
  "safeDialContext f resolve dial address =
     (case SplitHostPort address of
        Inl e \<Rightarrow> (Inl (Wrap ''split dial address'' e), [])
      | Inr (host, port) \<Rightarrow>
          if ParseUint 16 port = None then (Inl (Msg ''invalid port''), [])
          else case resolve host of
            Inl e \<Rightarrow> (Inl (Wrap ''resolve'' e), [])
          | Inr ips \<Rightarrow>
              let addrs = map Unmap ips;
                  rejected = filter (\<lambda>a. validateIP f a \<noteq> None) addrs;
                  validated = filter (\<lambda>a. validateIP f a = None) addrs in
              if ips = [] then (Inl (Msg ''no addresses''), [])
              else if rejected \<noteq> [] then (Inl (Msg ''DNS answer contains denied addresses''), [])
              else (case dial_first dial port validated of
                  (Some conn, tried) \<Rightarrow> (Inr conn, tried)
                | (None, tried) \<Rightarrow> (Inl (Msg ''no resolved address was reachable''), tried)))"

section \<open>Fetching\<close>

text \<open>
  A reply of a server: status, the URL that its \<open>Location\<close> header resolves to, the header
  fields under their canonical names, the decoded body and whether reading past it fails.
\<close>

record reply =
  rp_Status :: int
  rp_Location :: "string option"
  rp_Headers :: "(string \<times> string list) list"
  rp_Body :: "byte list"
  rp_Fault :: bool

type_synonym exchange = "nat \<Rightarrow> (string \<times> string) list \<Rightarrow> string \<Rightarrow> error + reply"

definition check_redirect ::
  "fetcher \<Rightarrow> nat \<Rightarrow> string \<Rightarrow> int \<Rightarrow> string \<Rightarrow> redirect list \<Rightarrow> error + redirect list" where
  "check_redirect f via from status to redirects =
     (if int via > MaxRedirects (ft_policy f) then Inl (Msg ''redirect limit exceeded'')
      else case validateURL f to of
        Inl e \<Rightarrow> Inl (Wrap ''redirect rejected'' e)
      | Inr _ \<Rightarrow> Inr (redirects @ [\<lparr>FromURL = from, rd_Status = status, ToURL = to\<rparr>]))"

definition redirect_target :: "reply \<Rightarrow> string option" where
  "redirect_target r = (if rp_Status r \<in> {301, 302, 303, 307, 308} then rp_Location r else None)"

text \<open>
  \<open>client.Do\<close>: \<open>n\<close> requests were made before this one. The recursion ends because
  \<open>CheckRedirect\<close> refuses when more requests were made than redirects are allowed.
\<close>

function client_Do ::
  "fetcher \<Rightarrow> exchange \<Rightarrow> (string \<times> string) list \<Rightarrow> nat \<Rightarrow> string \<Rightarrow> redirect list \<Rightarrow>
   error + string \<times> reply \<times> redirect list" where
  "client_Do f ex headers n target redirects =
     (case ex n headers target of
        Inl e \<Rightarrow> Inl e
      | Inr r \<Rightarrow>
          (case redirect_target r of
             None \<Rightarrow> Inr (target, r, redirects)
           | Some next_url \<Rightarrow>
               (case check_redirect f (Suc n) target (rp_Status r) next_url redirects of
                  Inl e \<Rightarrow> Inl e
                | Inr redirects' \<Rightarrow> client_Do f ex headers (Suc n) next_url redirects')))"
  by pat_completeness auto
termination
  by (relation "measure (\<lambda>(f, ex, headers, n, target, redirects). nat (MaxRedirects (ft_policy f)) - n)")
    (auto simp: check_redirect_def split: if_splits sum.splits)

declare client_Do.simps [simp del]

text \<open>\<open>io.ReadAll(io.LimitReader(resp.Body, max+1))\<close>.\<close>

definition read_limited :: "uint64 \<Rightarrow> reply \<Rightarrow> error + byte list" where
  "read_limited maxBytes r =
     (let limit = nat (sint (maxBytes + 1)) in
      if length (rp_Body r) < limit \<and> rp_Fault r then Inl (Wrap ''read response'' ErrUnexpectedEOF)
      else Inr (take limit (rp_Body r)))"

definition header_Values :: "(string \<times> string list) list \<Rightarrow> string \<Rightarrow> string list" where
  "header_Values headers name = (case map_of headers name of None \<Rightarrow> [] | Some vs \<Rightarrow> vs)"

definition header_Get :: "(string \<times> string list) list \<Rightarrow> string \<Rightarrow> string" where
  "header_Get headers name = (case header_Values headers name of [] \<Rightarrow> [] | v # _ \<Rightarrow> v)"

definition recordedResponseHeaders :: "string list" where
  "recordedResponseHeaders = [''Content-Encoding'', ''Content-Language'', ''Content-Location'', ''Content-Type'']"

definition selectedHeaders :: "(string \<times> string list) list \<Rightarrow> header list" where
  "selectedHeaders headers =
     SortHeaders (concat (map (\<lambda>name.
       map (\<lambda>v. \<lparr>hd_Name = to_lower name, hd_Value = v\<rparr>) (header_Values headers name)) recordedResponseHeaders))"

definition request_headers :: "fetch_policy \<Rightarrow> string \<Rightarrow> (string \<times> string) list" where
  "request_headers policy brange =
     (if brange = [] then [(''Accept'', ''application/json, application/ld+json, text/html;q=0.9, */*;q=0.1'')]
      else [(''Accept'', ''application/octet-stream''), (''Accept-Encoding'', ''identity''), (''Range'', brange)])
     @ [(''User-Agent'', UserAgent policy)]"

text \<open>\<open>http.NewRequest\<close> parses the URL again and drops a colon without a port.\<close>

definition removeEmptyPort :: "string \<Rightarrow> string" where
  "removeEmptyPort host = (if has_suffix '':'' host then butlast host else host)"

definition new_request :: "string \<Rightarrow> error + string" where
  "new_request target =
     (case url_Parse target of Inl e \<Rightarrow> Inl (Wrap ''construct request'' e)
      | Inr u \<Rightarrow> Inr (url_String (u\<lparr>u_Host := removeEmptyPort (u_Host u)\<rparr>)))"

definition media_type :: "(string \<Rightarrow> error + string) \<Rightarrow> reply \<Rightarrow> error + string" where
  "media_type parseMediaType r =
     (let contentType = header_Get (rp_Headers r) ''Content-Type'' in
      if contentType = [] then Inr ''application/octet-stream''
      else case parseMediaType contentType of
        Inl e \<Rightarrow> Inl (Wrap ''invalid content type'' e)
      | Inr t \<Rightarrow> Inr (to_lower t))"

definition fetch_with ::
  "fetcher \<Rightarrow> exchange \<Rightarrow> (string \<Rightarrow> error + string) \<Rightarrow> civil_time \<Rightarrow> string \<Rightarrow> string \<Rightarrow> error + fetch_result" where
  "fetch_with f ex parseMediaType now rawURL brange =
     ebind (validateURL f rawURL) (\<lambda>parsed.
     ebind (new_request (url_String parsed)) (\<lambda>target.
     (case client_Do f ex (request_headers (ft_policy f) brange) 0 target [] of
        Inl e \<Rightarrow> Inl (Wrap ''request failed'' e)
      | Inr (final, r, redirects) \<Rightarrow>
     ebind (read_limited (fp_MaxBodyBytes (ft_policy f)) r) (\<lambda>body.
     if int (length body) > sint (fp_MaxBodyBytes (ft_policy f)) then Inl (Msg ''response exceeds decompressed limit'')
     else ebind (media_type parseMediaType r) (\<lambda>mediaType.
       Inr \<lparr>fr_RequestURL = url_String parsed, fr_FinalURL = final, fr_Method = ''GET'',
         fr_Status = rp_Status r, fr_MediaType = mediaType, fr_RetrievedAt = now, fr_Body = body,
         fr_Redirects = redirects, fr_Headers = selectedHeaders (rp_Headers r),
         fr_RequestedRange = brange, fr_ContentRange = header_Get (rp_Headers r) ''Content-Range''\<rparr>)))))"

definition Fetch ::
  "fetcher \<Rightarrow> exchange \<Rightarrow> (string \<Rightarrow> error + string) \<Rightarrow> civil_time \<Rightarrow> string \<Rightarrow> error + fetch_result" where
  "Fetch f ex parseMediaType now rawURL = fetch_with f ex parseMediaType now rawURL []"

definition byte_range_parts :: "string \<Rightarrow> (string \<times> string) option" where
  "byte_range_parts s =
     (let digits = drop 6 s; (a, b) = cut_at (CHR ''-'') digits in
      if has_prefix ''bytes='' s \<and> CHR ''-'' \<in> set digits \<and> all_digits a \<and> all_digits b \<and>
         1 \<le> length a \<and> length a \<le> 20 \<and> 1 \<le> length b \<and> length b \<le> 20 then Some (a, b) else None)"

definition FetchRange ::
  "fetcher \<Rightarrow> exchange \<Rightarrow> (string \<Rightarrow> error + string) \<Rightarrow> civil_time \<Rightarrow> string \<Rightarrow> string \<Rightarrow> error + fetch_result" where
  "FetchRange f ex parseMediaType now rawURL brange =
     (case byte_range_parts brange of
        None \<Rightarrow> Inl (Msg ''byte range must use exact bytes=START-END form'')
      | Some (a, b) \<Rightarrow>
          (case (ParseUint 64 a, ParseUint 64 b) of
             (Some start, Some stop) \<Rightarrow>
               if stop < start \<or> word_of_nat (stop - start) \<ge> fp_MaxBodyBytes (ft_policy f)
               then Inl (Msg ''byte range is malformed or exceeds the response bound'')
               else fetch_with f ex parseMediaType now rawURL brange
           | _ \<Rightarrow> Inl (Msg ''byte range is malformed or exceeds the response bound'')))"

section \<open>Which addresses are public\<close>

lemma div_eq_interval: "0 < k \<Longrightarrow> n div k = m \<longleftrightarrow> m * k \<le> n \<and> n < (m + 1) * (k :: nat)"
  by (metis Suc_eq_plus1 div_less_iff_less_mult less_eq_div_iff_mult_less_eq less_Suc_eq_le order_antisym_conv order_refl)

lemma xor_zero_iff: "a XOR b = 0 \<longleftrightarrow> a = (b :: 'a::len word)"
proof
  assume *: "a XOR b = 0"
  have "b = (a XOR b) XOR b" unfolding * by simp
  also have "\<dots> = a" by (simp only: xor.assoc xor_self_eq xor.right_neutral)
  finally show "a = b" ..
qed simp

lemma prefix_word: "drop_bit k (a XOR b) = 0 \<longleftrightarrow> unat (a :: 'a::len word) div 2 ^ k = unat b div 2 ^ k"
proof -
  have "drop_bit k (a XOR b) = 0 \<longleftrightarrow> drop_bit k a = drop_bit k b"
    by (simp only: drop_bit_xor xor_zero_iff)
  also have "\<dots> \<longleftrightarrow> unat (drop_bit k a) = unat (drop_bit k b)" by (rule word_unat_eq_iff)
  finally show ?thesis unfolding unat_drop_bit_eq by (simp only: drop_bit_eq_div)
qed

lemma unat_32_bound: "unat (a :: 32 word) < 4294967296"
  by (rule order_less_le_trans [OF unsigned_less]) simp

lemma unat_128_bound: "unat (a :: 128 word) < 2 ^ 128"
  by (rule order_less_le_trans [OF unsigned_less]) simp

text \<open>The special-purpose blocks, as intervals of numbers.\<close>

definition ip4 :: "nat \<Rightarrow> nat \<Rightarrow> nat \<Rightarrow> nat \<Rightarrow> nat" where
  "ip4 a b c d = ((a * 256 + b) * 256 + c) * 256 + d"

definition reserved4 :: "(nat \<times> nat) list" where
  "reserved4 = [
     (ip4 0 0 0 0, ip4 0 255 255 255), (ip4 10 0 0 0, ip4 10 255 255 255),
     (ip4 100 64 0 0, ip4 100 127 255 255), (ip4 127 0 0 0, ip4 127 255 255 255),
     (ip4 169 254 0 0, ip4 169 254 255 255), (ip4 172 16 0 0, ip4 172 31 255 255),
     (ip4 192 0 0 0, ip4 192 0 0 255), (ip4 192 0 2 0, ip4 192 0 2 255),
     (ip4 192 168 0 0, ip4 192 168 255 255), (ip4 198 18 0 0, ip4 198 19 255 255),
     (ip4 198 51 100 0, ip4 198 51 100 255), (ip4 203 0 113 0, ip4 203 0 113 255),
     (ip4 224 0 0 0, ip4 255 255 255 255)]"

definition among :: "(nat \<times> nat) list \<Rightarrow> nat \<Rightarrow> bool" where
  "among blocks n \<longleftrightarrow> list_ex (\<lambda>(low, high). low \<le> n \<and> n \<le> high) blocks"

lemma div_digit:
  fixes m :: nat
  assumes "0 < b"
  shows "m div b = p \<and> m mod b = q \<longleftrightarrow> m = p * b + q \<and> q < b"
proof
  assume "m div b = p \<and> m mod b = q"
  with assms show "m = p * b + q \<and> q < b" by (metis div_mult_mod_eq mod_less_divisor)
next
  assume "m = p * b + q \<and> q < b"
  with assms show "m div b = p \<and> m mod b = q" by simp
qed

lemma octet4_unfold:
  "octet4 0 a = unat a div 16777216"
  "octet4 0 a = p \<and> octet4 1 a = q \<longleftrightarrow> unat a div 65536 = p * 256 + q \<and> q < 256"
  "octet4 0 a = p \<and> octet4 1 a div 16 = q \<longleftrightarrow> unat a div 1048576 = p * 16 + q \<and> q < 16"
  "octet4 0 a div 16 = unat a div 268435456"
proof -
  have o: "octet4 0 a = unat a div 16777216"
    using unat_32_bound [of a] by (simp add: octet4_def)
  have m: "unat a div 16777216 = unat a div 65536 div 256" "unat a div 16777216 = unat a div 1048576 div 16"
    "unat a div 1048576 = unat a div 65536 div 16"
    by (simp_all add: div_mult2_eq [symmetric])
  show "octet4 0 a = unat a div 16777216" by (rule o)
  show "octet4 0 a = p \<and> octet4 1 a = q \<longleftrightarrow> unat a div 65536 = p * 256 + q \<and> q < 256"
    unfolding o m(1) by (simp add: octet4_def div_digit)
  have "octet4 1 a div 16 = unat a div 1048576 mod 16"
    using mod_mult2_eq [of "unat a div 65536" 16 16] by (simp add: octet4_def m(3))
  then show "octet4 0 a = p \<and> octet4 1 a div 16 = q \<longleftrightarrow> unat a div 1048576 = p * 16 + q \<and> q < 16"
    unfolding o m(2) by (simp add: div_digit)
  show "octet4 0 a div 16 = unat a div 268435456"
    unfolding o by (simp add: div_mult2_eq [symmetric])
qed
lemmas class_tests = IsPrivate_def IsLinkLocalUnicast_def IsLinkLocalMulticast_def IsMulticast_def
  IsLoopback_def IsUnspecified_def IsGlobalUnicast_def

lemma word_0_iff: "a = 0 \<longleftrightarrow> unat (a :: 'a::len word) = 0"
  by (simp add: unat_eq_0)

lemma word_max_32: "a = - 1 \<longleftrightarrow> unat (a :: 32 word) = 4294967295"
proof -
  have "unat (- 1 :: 32 word) = 4294967295" by (simp add: unsigned_minus_1_eq_mask mask_eq_exp_minus_1)
  then show ?thesis by (metis word_unat_eq_iff)
qed

definition denied4 :: "32 word \<Rightarrow> bool" where
  "denied4 a \<longleftrightarrow>
     IsPrivate (V4 a) \<or> IsLinkLocalUnicast (V4 a) \<or> IsLinkLocalMulticast (V4 a) \<or> IsMulticast (V4 a) \<or>
     IsUnspecified (V4 a) \<or> list_ex (\<lambda>p. prefix_Contains p (V4 a)) deniedPrefixes \<or> \<not> IsGlobalUnicast (V4 a)"

lemma class4:
  "IsLoopback (V4 a) \<longleftrightarrow> unat a div 16777216 = 127"
  "IsPrivate (V4 a) \<longleftrightarrow> unat a div 16777216 = 10 \<or> unat a div 1048576 = 2753 \<or> unat a div 65536 = 49320"
  "IsLinkLocalUnicast (V4 a) \<longleftrightarrow> unat a div 65536 = 43518"
  "IsMulticast (V4 a) \<longleftrightarrow> unat a div 268435456 = 14"
  "IsUnspecified (V4 a) \<longleftrightarrow> unat a = 0"
  "IsLinkLocalMulticast (V4 a) \<Longrightarrow> IsMulticast (V4 a)"
  unfolding class_tests addr.case octet4_unfold(2-4)
  by (simp_all add: octet4_unfold(1) word_0_iff div_mult2_eq [of _ 16777216 16, simplified])

lemma contains4: "prefix_Contains (P4 base bits) (V4 a) \<longleftrightarrow> unat a div 2 ^ (32 - bits) = unat base div 2 ^ (32 - bits)"
  by (simp only: prefix_Contains_def prod.case prefix.case addr.case prefix_word)

lemma contains6:
  "prefix_Contains (P6 base bits) (V6 a zone) \<longleftrightarrow>
     zone = [] \<and> unat a div 2 ^ (128 - bits) = unat base div 2 ^ (128 - bits)"
  by (simp only: prefix_Contains_def prod.case prefix.case addr.case prefix_word)

lemma contains_mixed: "\<not> prefix_Contains (P6 base bits) (V4 a)" "\<not> prefix_Contains (P4 b bits) (V6 c zone)"
  by (simp_all add: prefix_Contains_def)

lemma denied_prefixes4:
  "list_ex (\<lambda>p. prefix_Contains p (V4 a)) deniedPrefixes \<longleftrightarrow>
     unat a div 16777216 = 0 \<or> unat a div 4194304 = 401 \<or> unat a div 256 = 12582912 \<or>
     unat a div 256 = 12582914 \<or> unat a div 131072 = 25353 \<or> unat a div 256 = 12989284 \<or>
     unat a div 256 = 13303921 \<or> unat a div 268435456 = 14 \<or> unat a div 268435456 = 15"
  by (simp add: deniedPrefixes_def contains4 contains_mixed)

lemma denied4_numbers:
  "denied4 a \<longleftrightarrow> (let n = unat a in
     n div 16777216 = 10 \<or> n div 1048576 = 2753 \<or> n div 65536 = 49320 \<or> n div 65536 = 43518 \<or>
     n div 268435456 = 14 \<or> n div 16777216 = 0 \<or> n div 4194304 = 401 \<or> n div 256 = 12582912 \<or>
     n div 256 = 12582914 \<or> n div 131072 = 25353 \<or> n div 256 = 12989284 \<or> n div 256 = 13303921 \<or>
     n div 268435456 = 15 \<or> n div 16777216 = 127)"
proof -
  have g: "IsGlobalUnicast (V4 a) \<longleftrightarrow> unat a \<noteq> 0 \<and> unat a \<noteq> 4294967295 \<and> \<not> IsLoopback (V4 a) \<and>
      \<not> IsMulticast (V4 a) \<and> \<not> IsLinkLocalUnicast (V4 a)"
    by (simp add: IsGlobalUnicast_def word_0_iff word_max_32)
  have z: "unat a = 0 \<Longrightarrow> unat a div 16777216 = 0" "unat a = 4294967295 \<Longrightarrow> unat a div 268435456 = 15"
    by simp_all
  show ?thesis
    unfolding denied4_def denied_prefixes4 g Let_def
    using class4(6) [of a] z unfolding class4(1-5) by blast
qed

lemma denied4_intervals: "denied4 a \<longleftrightarrow> among reserved4 (unat a)"
proof -
  let ?n = "unat a"
  have b: "?n < 4294967296" by (rule unat_32_bound)
  show ?thesis
    unfolding denied4_numbers Let_def among_def reserved4_def ip4_def
    apply (simp add: div_eq_interval)
    apply (rule iffI)
     apply (elim disjE; simp)
    apply (elim disjE; simp)
    using b by arith
qed
definition reserved6 :: "(nat \<times> nat) list" where
  "reserved6 = [
     (0, 1),
     (0x0064FF9B000100000000000000000000, 0x0064FF9B0001FFFFFFFFFFFFFFFFFFFF),
     (0x01000000000000000000000000000000, 0x0100000000000000FFFFFFFFFFFFFFFF),
     (0x20010002000000000000000000000000, 0x200100020000FFFFFFFFFFFFFFFFFFFF),
     (0x20010010000000000000000000000000, 0x2001001FFFFFFFFFFFFFFFFFFFFFFFFF),
     (0x20010DB8000000000000000000000000, 0x20010DB8FFFFFFFFFFFFFFFFFFFFFFFF),
     (0x3FFF0000000000000000000000000000, 0x3FFF0FFFFFFFFFFFFFFFFFFFFFFFFFFF),
     (0xFC000000000000000000000000000000, 0xFDFFFFFFFFFFFFFFFFFFFFFFFFFFFFFF),
     (0xFE800000000000000000000000000000, 0xFEBFFFFFFFFFFFFFFFFFFFFFFFFFFFFF),
     (0xFF000000000000000000000000000000, 0xFFFFFFFFFFFFFFFFFFFFFFFFFFFFFFFF)]"

definition denied6 :: "128 word \<Rightarrow> bool" where
  "denied6 a \<longleftrightarrow>
     IsPrivate (V6 a []) \<or> IsLinkLocalUnicast (V6 a []) \<or> IsLinkLocalMulticast (V6 a []) \<or>
     IsMulticast (V6 a []) \<or> IsUnspecified (V6 a []) \<or>
     list_ex (\<lambda>p. prefix_Contains p (V6 a [])) deniedPrefixes \<or> \<not> IsGlobalUnicast (V6 a [])"

lemma class6:
  "IsLoopback (V6 a zone) \<longleftrightarrow> unat a = 1"
  "IsPrivate (V6 a zone) \<longleftrightarrow> unat a div 2 ^ 121 = 126"
  "IsLinkLocalUnicast (V6 a zone) \<longleftrightarrow> unat a div 2 ^ 118 = 1018"
  "IsMulticast (V6 a zone) \<longleftrightarrow> unat a div 2 ^ 120 = 255"
  "IsUnspecified (V6 a zone) \<longleftrightarrow> unat a = 0 \<and> zone = []"
  "IsLinkLocalMulticast (V6 a zone) \<Longrightarrow> IsMulticast (V6 a zone)"
  by (auto simp: class_tests top6_def word_0_iff word_unat_eq_iff)

lemma denied_prefixes6:
  "list_ex (\<lambda>p. prefix_Contains p (V6 a [])) deniedPrefixes \<longleftrightarrow>
     unat a div 2 ^ 80 = 0x64FF9B0001 \<or> unat a div 2 ^ 64 = 0x100000000000000 \<or>
     unat a div 2 ^ 80 = 0x200100020000 \<or> unat a div 2 ^ 96 = 0x20010DB8 \<or>
     unat a div 2 ^ 100 = 0x2001001 \<or> unat a div 2 ^ 108 = 0x3FFF0"
  by (simp add: deniedPrefixes_def contains6 contains_mixed)

lemma denied6_numbers:
  "denied6 a \<longleftrightarrow> (let n = unat a in
     n = 0 \<or> n = 1 \<or> n div 2 ^ 80 = 0x64FF9B0001 \<or> n div 2 ^ 64 = 0x100000000000000 \<or>
     n div 2 ^ 80 = 0x200100020000 \<or> n div 2 ^ 100 = 0x2001001 \<or> n div 2 ^ 96 = 0x20010DB8 \<or>
     n div 2 ^ 108 = 0x3FFF0 \<or> n div 2 ^ 121 = 126 \<or> n div 2 ^ 118 = 1018 \<or> n div 2 ^ 120 = 255)"
proof -
  have g: "IsGlobalUnicast (V6 a []) \<longleftrightarrow> unat a \<noteq> 0 \<and> \<not> IsLoopback (V6 a []) \<and>
      \<not> IsMulticast (V6 a []) \<and> \<not> IsLinkLocalUnicast (V6 a [])"
    by (simp add: IsGlobalUnicast_def word_0_iff)
  show ?thesis
    unfolding denied6_def denied_prefixes6 g Let_def
    using class6(6) [of a "[]"] unfolding class6(1-5) by blast
qed

lemma denied6_intervals: "denied6 a \<longleftrightarrow> among reserved6 (unat a)"
proof -
  let ?n = "unat a"
  have b: "?n < 2 ^ 128" by (rule unat_128_bound)
  show ?thesis
    unfolding denied6_numbers Let_def among_def reserved6_def
    apply (simp add: div_eq_interval)
    apply (rule iffI)
     apply (elim disjE; simp)
    apply (elim disjE; simp)
    using b by arith
qed

definition public_addr :: "addr \<Rightarrow> bool" where
  "public_addr ip = (case ip of
      NoAddr \<Rightarrow> False
    | V4 a \<Rightarrow> \<not> among reserved4 (unat a)
    | V6 a zone \<Rightarrow> \<not> among reserved6 (unat a))"

definition zone_free :: "addr \<Rightarrow> bool" where
  "zone_free ip = (case ip of V6 a zone \<Rightarrow> zone = [] | _ \<Rightarrow> True)"

lemma Unmap_Unmap [simp]: "Unmap (Unmap ip) = Unmap ip"
  by (simp add: Unmap_def split: addr.splits)

lemma Unmap_NoAddr [simp]: "Unmap ip = NoAddr \<longleftrightarrow> ip = NoAddr"
  by (cases ip) (simp_all add: Unmap_def)

lemma loopback_reserved: "IsLoopback ip \<Longrightarrow> \<not> public_addr ip"
  by (cases ip) (auto simp: public_addr_def class4 class6 div_eq_interval among_def reserved4_def
      reserved6_def ip4_def IsLoopback_def[of NoAddr])

lemma public_denied:
  "\<not> IsLoopback ip \<Longrightarrow> zone_free ip \<Longrightarrow> ip \<noteq> NoAddr \<Longrightarrow>
   public_addr ip \<longleftrightarrow> \<not> (IsPrivate ip \<or> IsLinkLocalUnicast ip \<or> IsLinkLocalMulticast ip \<or>
     IsMulticast ip \<or> IsUnspecified ip) \<and> \<not> list_ex (\<lambda>p. prefix_Contains p ip) deniedPrefixes \<and>
     IsGlobalUnicast ip"
  using denied4_intervals denied6_intervals
  by (cases ip) (auto simp: public_addr_def zone_free_def denied4_def denied6_def)

lemma validateIP_None:
  assumes "zone_free ip"
  shows "validateIP f ip = None \<longleftrightarrow>
    public_addr (Unmap ip) \<or> AllowLoopback (ft_policy f) \<and> IsLoopback (Unmap ip)"
proof (cases "ip = NoAddr")
  case True
  then show ?thesis by (simp add: validateIP_def public_addr_def IsLoopback_def Unmap_def)
next
  case False
  have z: "zone_free (Unmap ip)"
    using assms by (simp add: zone_free_def Unmap_def split: addr.splits if_splits)
  show ?thesis
  proof (cases "IsLoopback (Unmap ip)")
    case True
    then show ?thesis using False loopback_reserved by (auto simp: validateIP_def Let_def fail_if_None)
  next
    case nl: False
    have "validateIP f ip = None \<longleftrightarrow> public_addr (Unmap ip)"
      unfolding public_denied [OF nl z, unfolded Unmap_NoAddr, OF False]
      using nl False by (simp add: validateIP_def Let_def first_err_None fail_if_None)
    with nl show ?thesis by simp
  qed
qed
section \<open>Dialling and fetching\<close>

lemma dial_first_tried: "set (snd (dial_first dial port as)) \<subseteq> set as"
  by (induction as) (auto split: sum.splits prod.splits)

lemma dial_first_Some:
  "fst (dial_first dial port as) = Some conn \<Longrightarrow>
     \<exists>a \<in> set as. dial a port = Inr conn \<and> last (snd (dial_first dial port as)) = a"
proof (induction as)
  case (Cons a as)
  show ?case
  proof (cases "dial a port")
    case (Inl e)
    obtain r tried where s: "dial_first dial port as = (r, tried)" by fastforce
    with Inl Cons have "\<exists>b \<in> set as. dial b port = Inr conn \<and> last tried = b" by simp
    moreover from s Inl Cons.prems have "tried \<noteq> []" by (cases as) (auto split: sum.splits prod.splits)
    ultimately show ?thesis using s Inl by auto
  next
    case (Inr c)
    with Cons.prems show ?thesis by simp
  qed
qed simp

lemma filter_none: "filter (\<lambda>a. validateIP f a \<noteq> None) as = [] \<Longrightarrow> filter (\<lambda>a. validateIP f a = None) as = as"
  by (metis (mono_tags, lifting) filter_True filter_empty_conv)

lemma safeDialContext_tried:
  assumes "safeDialContext f resolve dial address = (r, tried)"
  shows "tried = [] \<or> (\<exists>host port ips. SplitHostPort address = Inr (host, port) \<and> resolve host = Inr ips \<and>
     set tried \<subseteq> set (map Unmap ips) \<and> list_all (\<lambda>a. validateIP f (Unmap a) = None) ips)"
proof (cases "SplitHostPort address")
  case (Inl e)
  with assms show ?thesis by (simp add: safeDialContext_def)
next
  case (Inr hp)
  obtain host port where hp: "hp = (host, port)" by (cases hp)
  show ?thesis
  proof (cases "resolve host")
    case (Inl e)
    with assms Inr hp show ?thesis by (auto simp: safeDialContext_def split: if_splits)
  next
    case (Inr ips)
    let ?addrs = "map Unmap ips"
    show ?thesis
    proof (cases "filter (\<lambda>a. validateIP f a \<noteq> None) ?addrs = []")
      case False
      with assms Inr \<open>SplitHostPort address = Inr hp\<close> hp show ?thesis
        by (auto simp: safeDialContext_def Let_def split: if_splits)
    next
      case True
      then have v: "list_all (\<lambda>a. validateIP f (Unmap a) = None) ips"
        by (auto simp: filter_empty_conv list_all_iff)
      have "tried = [] \<or> set tried \<subseteq> set ?addrs"
        using assms Inr \<open>SplitHostPort address = Inr hp\<close> hp True filter_none [OF True]
          dial_first_tried [of dial port ?addrs]
        by (auto simp: safeDialContext_def Let_def split: if_splits prod.splits option.splits)
      with v Inr \<open>SplitHostPort address = Inr hp\<close> hp show ?thesis by blast
    qed
  qed
qed

text \<open>What a URL must satisfy to be requested.\<close>

definition url_admitted :: "fetcher \<Rightarrow> string \<Rightarrow> bool" where
  "url_admitted f raw \<longleftrightarrow> isOK (validateURL f raw)"

lemma check_redirect_Inr:
  "check_redirect f via from status to rs = Inr rs' \<longleftrightarrow>
     int via \<le> MaxRedirects (ft_policy f) \<and> url_admitted f to \<and>
     rs' = rs @ [\<lparr>FromURL = from, rd_Status = status, ToURL = to\<rparr>]"
  by (auto simp: check_redirect_def url_admitted_def isOK_iff split: sum.splits)

definition redirect_status :: "int \<Rightarrow> bool" where
  "redirect_status s \<longleftrightarrow> s \<in> {301, 302, 303, 307, 308}"

lemma chain_from_snoc:
  "chain_from u (rs @ [r]) \<longleftrightarrow> chain_from u rs \<and> FromURL r = chain_end u rs"
  by (induction rs arbitrary: u) auto

lemma chain_end_snoc: "chain_end u (rs @ [r]) = ToURL r"
  by (induction rs arbitrary: u) auto

lemma client_Do_sound:
  assumes "client_Do f ex headers n target redirects = Inr (final, r, rs)"
    and "chain_from start redirects" "chain_end start redirects = target" "length redirects = n"
    and "list_all (\<lambda>x. url_admitted f (ToURL x) \<and> redirect_status (rd_Status x)) redirects"
    and "n = 0 \<or> int n \<le> MaxRedirects (ft_policy f)"
  shows "chain_from start rs \<and> chain_end start rs = final \<and>
    list_all (\<lambda>x. url_admitted f (ToURL x) \<and> redirect_status (rd_Status x)) rs \<and>
    (rs = [] \<or> int (length rs) \<le> MaxRedirects (ft_policy f))"
  using assms
proof (induction f ex headers n target redirects rule: client_Do.induct)
  case (1 f ex headers n target redirects)
  show ?case
  proof (cases "ex n headers target")
    case (Inl e)
    with 1(2) show ?thesis by (subst (asm) client_Do.simps) simp
  next
    case (Inr q)
    show ?thesis
    proof (cases "redirect_target q")
      case None
      from 1(2) have "final = target \<and> rs = redirects"
        by (subst (asm) client_Do.simps) (simp add: Inr None)
      with 1(3-7) show ?thesis by auto
    next
      case (Some to)
      from 1(2) obtain rs' where c: "check_redirect f (Suc n) target (rp_Status q) to redirects = Inr rs'"
        and d: "client_Do f ex headers (Suc n) to rs' = Inr (final, r, rs)"
        by (subst (asm) client_Do.simps) (auto simp: Inr Some split: sum.splits)
      from Some have s: "redirect_status (rp_Status q)"
        by (simp add: redirect_target_def redirect_status_def split: if_splits)
      from c have rs': "rs' = redirects @ [\<lparr>FromURL = target, rd_Status = rp_Status q, ToURL = to\<rparr>]"
        and m: "int (Suc n) \<le> MaxRedirects (ft_policy f)" and a: "url_admitted f to"
        by (simp_all add: check_redirect_Inr)
      show ?thesis
      proof (rule 1(1) [OF Inr Some c d])
        show "chain_from start rs'" using 1(3,4) by (simp add: rs' chain_from_snoc)
        show "chain_end start rs' = to" by (simp add: rs' chain_end_snoc)
        show "length rs' = Suc n" using 1(5) by (simp add: rs')
        show "list_all (\<lambda>x. url_admitted f (ToURL x) \<and> redirect_status (rd_Status x)) rs'"
          using 1(6) s a by (simp add: rs')
        show "Suc n = 0 \<or> int (Suc n) \<le> MaxRedirects (ft_policy f)" using m by simp
      qed
    qed
  qed
qed
definition default_fetcher :: fetcher where
  "default_fetcher = \<lparr>ft_policy = DefaultPolicy, allowedHosts = []\<rparr>"

lemma fetch_with_Inr:
  assumes "fetch_with f ex media now rawURL brange = Inr r"
  obtains u target q where "validateURL f rawURL = Inr u" "new_request (url_String u) = Inr target"
    "client_Do f ex (request_headers (ft_policy f) brange) 0 target [] = Inr (fr_FinalURL r, q, fr_Redirects r)"
    "read_limited (fp_MaxBodyBytes (ft_policy f)) q = Inr (fr_Body r)"
    "int (length (fr_Body r)) \<le> sint (fp_MaxBodyBytes (ft_policy f))"
    "fr_RequestURL r = url_String u" "fr_Headers r = selectedHeaders (rp_Headers q)"
    "fr_Status r = rp_Status q"
proof -
  from assms obtain u target where h: "validateURL f rawURL = Inr u" "new_request (url_String u) = Inr target"
    by (auto simp: fetch_with_def ebind_eq_Inr)
  let ?do = "client_Do f ex (request_headers (ft_policy f) brange) 0 target []"
  obtain final q rs where d: "?do = Inr (final, q, rs)"
    using assms h by (cases ?do) (auto simp: fetch_with_def)
  obtain body where b: "read_limited (fp_MaxBodyBytes (ft_policy f)) q = Inr body"
      "\<not> int (length body) > sint (fp_MaxBodyBytes (ft_policy f))"
    using assms by (auto simp: fetch_with_def h d ebind_eq_Inr split: if_splits)
  then obtain mt where
    "r = \<lparr>fr_RequestURL = url_String u, fr_FinalURL = final, fr_Method = ''GET'',
         fr_Status = rp_Status q, fr_MediaType = mt, fr_RetrievedAt = now, fr_Body = body,
         fr_Redirects = rs, fr_Headers = selectedHeaders (rp_Headers q),
         fr_RequestedRange = brange, fr_ContentRange = header_Get (rp_Headers q) ''Content-Range''\<rparr>"
    using assms by (auto simp: fetch_with_def h d ebind_eq_Inr)
  note h = h d b this
  show thesis by (rule that [OF h(1,2)]) (use h in simp_all)
qed

lemma SortHeaders_set: "set (SortHeaders hs) = set hs"
  by (metis SortHeaders_mset set_mset_mset)

lemma selectedHeaders_sorted:
  "sorted_wrt (\<lambda>a b. \<not> header_less b a) (selectedHeaders hs) \<and>
   list_all (\<lambda>h. hd_Name h \<in> set allowedHeaderNames) (selectedHeaders hs)"
proof
  show "sorted_wrt (\<lambda>a b. \<not> header_less b a) (selectedHeaders hs)"
    by (simp add: selectedHeaders_def SortHeaders_sorted)
  have "to_lower ''Content-Encoding'' = ''content-encoding''" "to_lower ''Content-Language'' = ''content-language''"
    "to_lower ''Content-Location'' = ''content-location''" "to_lower ''Content-Type'' = ''content-type''"
    by code_simp+
  then show "list_all (\<lambda>h. hd_Name h \<in> set allowedHeaderNames) (selectedHeaders hs)"
    by (auto simp: selectedHeaders_def SortHeaders_set list_all_iff recordedResponseHeaders_def allowedHeaderNames_def)
qed

text \<open>
  C7: only public addresses are dialled. With loopback disabled and addresses without zones,
  the dial function connects to no address of a special-purpose block, and it connects to none
  at all when one of the addresses the name resolves to is in such a block.
\<close>

theorem dial_only_public:
  assumes dial: "safeDialContext f resolve dial address = (r, tried)"
    and policy: "\<not> AllowLoopback (ft_policy f)"
    and zones: "\<And>host ips. resolve host = Inr ips \<Longrightarrow> list_all zone_free ips"
  shows "list_all public_addr tried \<and>
    (tried \<noteq> [] \<longrightarrow> (\<exists>host port ips. SplitHostPort address = Inr (host, port) \<and> resolve host = Inr ips \<and>
       list_all (\<lambda>a. public_addr (Unmap a)) ips))"
proof -
  have *: "list_all (\<lambda>a. public_addr (Unmap a)) ips"
    if "resolve host = Inr ips" "list_all (\<lambda>a. validateIP f (Unmap a) = None) ips" for host ips
  proof -
    have "public_addr (Unmap a)" if "a \<in> set ips" for a
    proof -
      have "zone_free (Unmap a)" using zones [OF \<open>resolve host = Inr ips\<close>] that
        by (auto simp: list_all_iff zone_free_def Unmap_def split: addr.splits if_splits)
      moreover have "validateIP f (Unmap a) = None"
        using \<open>list_all (\<lambda>a. validateIP f (Unmap a) = None) ips\<close> that by (simp add: list_all_iff)
      ultimately show ?thesis using validateIP_None [of "Unmap a" f] policy by simp
    qed
    then show ?thesis by (simp add: list_all_iff)
  qed
  from safeDialContext_tried [OF dial] show ?thesis
  proof
    assume "\<exists>host port ips. SplitHostPort address = Inr (host, port) \<and> resolve host = Inr ips \<and>
      set tried \<subseteq> set (map Unmap ips) \<and> list_all (\<lambda>a. validateIP f (Unmap a) = None) ips"
    then obtain host port ips where h: "SplitHostPort address = Inr (host, port)" "resolve host = Inr ips"
      "set tried \<subseteq> set (map Unmap ips)" "list_all (\<lambda>a. validateIP f (Unmap a) = None) ips" by blast
    from * [OF h(2,4)] h show ?thesis by (fastforce simp: list_all_iff)
  qed simp
qed

definition sample_resolve :: "string \<Rightarrow> error + addr list" where
  "sample_resolve host = Inr [V4 0x5DB8D822, V6 0xFFFF08080808 []]"

definition sample_dial :: "addr \<Rightarrow> string \<Rightarrow> error + addr" where
  "sample_dial a port = (if a = V4 0x08080808 then Inr a else Inl ErrSyscall)"

lemma sample_addresses:
  "validateIP default_fetcher (V4 0x5DB8D822) = None" "validateIP default_fetcher (V4 0x08080808) = None"
  "Unmap (V6 0xFFFF08080808 []) = V4 0x08080808" "Unmap (V4 a) = V4 a"
proof -
  show "Unmap (V6 0xFFFF08080808 []) = V4 0x08080808" "Unmap (V4 a) = V4 a"
    by (simp_all add: Unmap_def top6_def)
  show "validateIP default_fetcher (V4 0x5DB8D822) = None" "validateIP default_fetcher (V4 0x08080808) = None"
    by (simp_all add: validateIP_None zone_free_def Unmap_def public_addr_def among_def reserved4_def ip4_def)
qed

lemma sample_address: "SplitHostPort ''example.org:443'' = Inr (''example.org'', ''443'')" "ParseUint 16 ''443'' = Some 443"
proof -
  show "SplitHostPort ''example.org:443'' = Inr (''example.org'', ''443'')" by code_simp
  have "all_digits ''443''" by code_simp
  then show "ParseUint 16 ''443'' = Some 443" by (simp add: ParseUint_def decimal_value_def digit_value_def)
qed

lemma sample_dialled:
  "safeDialContext default_fetcher sample_resolve sample_dial ''example.org:443'' =
     (Inr (V4 0x08080808), [V4 0x5DB8D822, V4 0x08080808])"
  by (simp add: safeDialContext_def sample_address sample_resolve_def sample_addresses sample_dial_def Let_def)

theorem dial_only_public_witness:
  "list_all public_addr [V4 0x5DB8D822, V4 0x08080808]"
  using dial_only_public [OF sample_dialled]
  by (simp add: default_fetcher_def DefaultPolicy_def sample_resolve_def zone_free_def)


text \<open>
  C8: a fetch stays within its policy. The requested URL and the target of every redirect were
  admitted, the redirects form a chain from the first request to the final URL and are no more
  than allowed, the body is within its limit, and the headers that are kept are sorted and among
  the four recorded ones.
\<close>

theorem fetch_confined:
  assumes "fetch_with f ex media now rawURL brange = Inr r"
  shows "url_admitted f rawURL \<and>
    list_all (\<lambda>x. url_admitted f (ToURL x) \<and> redirect_status (rd_Status x)) (fr_Redirects r) \<and>
    (fr_Redirects r = [] \<or> int (length (fr_Redirects r)) \<le> MaxRedirects (ft_policy f)) \<and>
    (\<exists>target. new_request (fr_RequestURL r) = Inr target \<and> chain_from target (fr_Redirects r) \<and>
       chain_end target (fr_Redirects r) = fr_FinalURL r) \<and>
    int (length (fr_Body r)) \<le> sint (fp_MaxBodyBytes (ft_policy f)) \<and>
    sorted_wrt (\<lambda>a b. \<not> header_less b a) (fr_Headers r) \<and>
    list_all (\<lambda>h. hd_Name h \<in> set allowedHeaderNames) (fr_Headers r)"
proof -
  from assms obtain u target q where h: "validateURL f rawURL = Inr u" "new_request (url_String u) = Inr target"
    "client_Do f ex (request_headers (ft_policy f) brange) 0 target [] = Inr (fr_FinalURL r, q, fr_Redirects r)"
    "int (length (fr_Body r)) \<le> sint (fp_MaxBodyBytes (ft_policy f))"
    "fr_RequestURL r = url_String u" "fr_Headers r = selectedHeaders (rp_Headers q)"
    by (rule fetch_with_Inr)
  from client_Do_sound [OF h(3), of target] have
    "chain_from target (fr_Redirects r) \<and> chain_end target (fr_Redirects r) = fr_FinalURL r \<and>
     list_all (\<lambda>x. url_admitted f (ToURL x) \<and> redirect_status (rd_Status x)) (fr_Redirects r) \<and>
     (fr_Redirects r = [] \<or> int (length (fr_Redirects r)) \<le> MaxRedirects (ft_policy f))"
    by simp
  with h selectedHeaders_sorted [of "rp_Headers q"] show ?thesis by (auto simp: url_admitted_def)
qed

definition sample_exchange :: exchange where
  "sample_exchange n headers target =
     (if n = 0 then Inr \<lparr>rp_Status = 302, rp_Location = Some ''https://a.example/b'', rp_Headers = [],
        rp_Body = [], rp_Fault = False\<rparr>
      else Inr \<lparr>rp_Status = 200, rp_Location = None, rp_Headers = [(''Content-Language'', [''en''])],
        rp_Body = [104, 105], rp_Fault = False\<rparr>)"

definition sample_time :: civil_time where
  "sample_time = \<lparr>year = 2026, month = 7, day = 1, hour = 8, minute = 0, second = 0, nanosecond = 0\<rparr>"

definition sample_fetched :: fetch_result where
  "sample_fetched =
     \<lparr>fr_RequestURL = ''http://a.example/'', fr_FinalURL = ''https://a.example/b'', fr_Method = ''GET'',
      fr_Status = 200, fr_MediaType = ''application/octet-stream'', fr_RetrievedAt = sample_time,
      fr_Body = [104, 105],
      fr_Redirects = [\<lparr>FromURL = ''http://a.example/'', rd_Status = 302, ToURL = ''https://a.example/b''\<rparr>],
      fr_Headers = [\<lparr>hd_Name = ''content-language'', hd_Value = ''en''\<rparr>], fr_RequestedRange = [],
      fr_ContentRange = []\<rparr>"

lemma sample_request:
  "map_sum id url_String (validateURL default_fetcher ''http://a.example/#f'') = Inr ''http://a.example/''"
  "new_request ''http://a.example/'' = Inr ''http://a.example/''"
  "isOK (validateURL default_fetcher ''https://a.example/b'')"
  "selectedHeaders [(''Content-Language'', [''en''])] = [\<lparr>hd_Name = ''content-language'', hd_Value = ''en''\<rparr>]"
  by code_simp+

lemma sample_client_Do:
  "client_Do default_fetcher sample_exchange headers 0 ''http://a.example/'' [] =
     Inr (''https://a.example/b'', \<lparr>rp_Status = 200, rp_Location = None, rp_Headers = [(''Content-Language'', [''en''])],
        rp_Body = [104, 105], rp_Fault = False\<rparr>, fr_Redirects sample_fetched)"
proof -
  have "check_redirect default_fetcher 1 ''http://a.example/'' 302 ''https://a.example/b'' [] =
      Inr (fr_Redirects sample_fetched)"
    using sample_request(3)
    by (simp add: check_redirect_Inr url_admitted_def default_fetcher_def DefaultPolicy_def sample_fetched_def)
  then show ?thesis
    by (subst client_Do.simps)
      (simp add: sample_exchange_def redirect_target_def client_Do.simps [of _ _ _ "Suc 0"])
qed

lemma sample_fetch:
  "fetch_with default_fetcher sample_exchange Inr sample_time ''http://a.example/#f'' [] = Inr sample_fetched"
proof -
  from sample_request(1) obtain u where u: "validateURL default_fetcher ''http://a.example/#f'' = Inr u"
    "url_String u = ''http://a.example/''"
    by (cases "validateURL default_fetcher ''http://a.example/#f''") auto
  show ?thesis
    by (simp add: fetch_with_def u sample_request(2) sample_client_Do read_limited_def media_type_def
        header_Get_def header_Values_def sample_request(4))
      (simp add: sample_fetched_def default_fetcher_def DefaultPolicy_def)
qed

theorem fetch_confined_witness:
  "list_all (\<lambda>x. url_admitted default_fetcher (ToURL x)) (fr_Redirects sample_fetched) \<and>
   length (fr_Redirects sample_fetched) = 1"
  using fetch_confined [OF sample_fetch] by (simp add: list_all_iff sample_fetched_def)
lemma tr_bounded_iff: "tr_bounded n s limit = None \<longleftrightarrow> tr_bounded [] s limit = None"
  by (simp add: tr_bounded_None)

lemma validate_redirects_of_chain:
  "chain_from u rs \<Longrightarrow> list_all (\<lambda>x. redirect_status (rd_Status x)) rs \<Longrightarrow>
   validate_redirects first u rs = None \<longleftrightarrow>
     list_all (\<lambda>x. tr_bounded [] (FromURL x) tr_MaxURLBytes = None \<and> tr_bounded [] (ToURL x) tr_MaxURLBytes = None) rs"
proof (induction rs arbitrary: u first)
  case (Cons r rs)
  have "tr_bounded ''redirect from'' (FromURL r) tr_MaxURLBytes = None \<longleftrightarrow> tr_bounded [] (FromURL r) tr_MaxURLBytes = None"
    "tr_bounded ''redirect to'' (ToURL r) tr_MaxURLBytes = None \<longleftrightarrow> tr_bounded [] (ToURL r) tr_MaxURLBytes = None"
    by (rule tr_bounded_iff)+
  moreover have "300 \<le> rd_Status r \<and> rd_Status r \<le> 399" using Cons.prems(2) by (auto simp: redirect_status_def)
  ultimately show ?case using Cons by (simp add: first_err_None fail_if_None del: transport_limits)
qed simp

lemma validate_headers_of_sorted:
  assumes "sorted_wrt (\<lambda>a b. \<not> header_less b a) hs" "list_all (\<lambda>h. hd_Name h \<in> set allowedHeaderNames) hs"
  shows "validate_headers [] [] hs = None \<longleftrightarrow>
     list_all (\<lambda>h. tr_bounded ''header value'' (hd_Value h) tr_MaxHeaderValueBytes = None) hs"
proof -
  have "\<not> header_less h \<lparr>hd_Name = [], hd_Value = []\<rparr>" for h by (simp add: header_less_def)
  then show ?thesis using assms
    by (auto simp: validate_headers_iff header_acceptable_def list_all_iff simp del: transport_limits)
qed

text \<open>
  C9: a fetch yields transport evidence exactly when its texts are within the bounds of the
  evidence format, there are at most 32 headers, and the request that was made had the URL that
  the result names.
\<close>

theorem fetch_evidence_iff:
  assumes "fetch_with f ex media now rawURL brange = Inr r" and "MaxRedirects (ft_policy f) \<le> 20"
  shows "isOK (tr_FromFetch (Some r) policyID) \<longleftrightarrow>
    new_request (fr_RequestURL r) = Inr (fr_RequestURL r) \<and>
    list_all (\<lambda>s. tr_bounded [] s tr_MaxURLBytes = None)
      ([fr_RequestURL r, fr_FinalURL r, policyID] @ map FromURL (fr_Redirects r) @ map ToURL (fr_Redirects r)) \<and>
    length (fr_Headers r) \<le> 32 \<and>
    list_all (\<lambda>h. tr_bounded ''header value'' (hd_Value h) tr_MaxHeaderValueBytes = None) (fr_Headers r)"
proof -
  note c = fetch_confined [OF assms(1)]
  then obtain target where t: "new_request (fr_RequestURL r) = Inr target" "chain_from target (fr_Redirects r)"
    "chain_end target (fr_Redirects r) = fr_FinalURL r" by blast
  have l: "length (fr_Redirects r) \<le> 20" using c assms(2) by (cases "fr_Redirects r") auto
  have st: "list_all (\<lambda>x. redirect_status (rd_Status x)) (fr_Redirects r)"
    using c by (simp add: list_all_iff)
  have h: "validate_headers [] [] (fr_Headers r) = None \<longleftrightarrow>
     list_all (\<lambda>h. tr_bounded ''header value'' (hd_Value h) tr_MaxHeaderValueBytes = None) (fr_Headers r)"
    by (rule validate_headers_of_sorted) (use c in blast)+
  have e: "Evidence_Validate \<lparr>ev_Version = tr_Version_const, ev_RequestURL = fr_RequestURL r,
      ev_FinalURL = fr_FinalURL r, ev_PolicyID = policyID, ev_Redirects = fr_Redirects r,
      ev_Headers = fr_Headers r\<rparr> = None \<longleftrightarrow>
    list_all (\<lambda>s. tr_bounded [] s tr_MaxURLBytes = None) [fr_RequestURL r, fr_FinalURL r, policyID] \<and>
    validate_redirects True (fr_RequestURL r) (fr_Redirects r) = None \<and>
    (fr_Redirects r \<noteq> [] \<longrightarrow> ToURL (last (fr_Redirects r)) = fr_FinalURL r) \<and>
    (fr_Redirects r = [] \<longrightarrow> fr_RequestURL r = fr_FinalURL r) \<and>
    length (fr_Headers r) \<le> 32 \<and> validate_headers [] [] (fr_Headers r) = None"
    using l by (auto simp: Evidence_Validate_def first_err_None fail_if_None not_less
        simp del: tr_MaxBytes_def tr_MaxURLBytes_def tr_MaxHeaderValueBytes_def)
  show ?thesis
  proof (cases "target = fr_RequestURL r")
    case True
    have v: "validate_redirects True (fr_RequestURL r) (fr_Redirects r) = None \<longleftrightarrow>
        list_all (\<lambda>s. tr_bounded [] s tr_MaxURLBytes = None) (map FromURL (fr_Redirects r) @ map ToURL (fr_Redirects r))"
      using validate_redirects_of_chain [OF t(2) st] by (auto simp: True list_all_iff simp del: transport_limits)
    show ?thesis
      using t(1,3) True unfolding tr_FromFetch_def option.case Let_def after_Inr isOK_iff e h v
      by (auto simp: chain_end_last simp del: transport_limits split: if_splits)
  next
    case False
    have "\<not> (validate_redirects True (fr_RequestURL r) (fr_Redirects r) = None \<and>
        (fr_Redirects r = [] \<longrightarrow> fr_RequestURL r = fr_FinalURL r))"
      using False t(2,3) validate_redirects_chain [of True "fr_RequestURL r" "fr_Redirects r"]
      by (cases "fr_Redirects r") auto
    with False t(1) show ?thesis
      unfolding tr_FromFetch_def option.case Let_def after_Inr isOK_iff e by auto
  qed
qed

theorem fetch_evidence_iff_witness:
  "isOK (tr_FromFetch (Some sample_fetched) ''p'')"
proof -
  have "list_all (\<lambda>s. tr_bounded [] s tr_MaxURLBytes = None)
      [''http://a.example/'', ''https://a.example/b'', ''p'', ''en'']"
    by (simp add: tr_bounded_None)
  moreover have "MaxRedirects (ft_policy default_fetcher) \<le> 20" by (simp add: default_fetcher_def DefaultPolicy_def)
  ultimately show ?thesis
    using fetch_evidence_iff [OF sample_fetch] sample_request(2)
    by (simp add: sample_fetched_def tr_bounded_None)
qed

text \<open>
  A URL whose host ends in a colon without a port is admitted and fetched, but the request
  is made without the colon, so that no evidence of the fetch can be recorded.
\<close>

theorem empty_port_no_evidence:
  assumes "fetch_with default_fetcher ex media now ''http://a.example:/'' [] = Inr r"
  shows "\<not> isOK (tr_FromFetch (Some r) policyID)"
proof -
  have "map_sum id url_String (validateURL default_fetcher ''http://a.example:/'') = Inr ''http://a.example:/''"
    by code_simp
  then have "fr_RequestURL r = ''http://a.example:/''"
    using assms by (auto elim!: fetch_with_Inr)
  moreover have "new_request ''http://a.example:/'' = Inr ''http://a.example/''" by code_simp
  moreover have "MaxRedirects (ft_policy default_fetcher) \<le> 20" by (simp add: default_fetcher_def DefaultPolicy_def)
  ultimately show ?thesis using fetch_evidence_iff [OF assms] by auto
qed

lemma empty_port_fetch:
  "\<exists>r. fetch_with default_fetcher sample_exchange Inr sample_time ''http://a.example:/'' [] = Inr r"
proof -
  have "map_sum id url_String (validateURL default_fetcher ''http://a.example:/'') = Inr ''http://a.example:/''"
    by code_simp
  then obtain u where u: "validateURL default_fetcher ''http://a.example:/'' = Inr u"
    "url_String u = ''http://a.example:/''"
    by (cases "validateURL default_fetcher ''http://a.example:/''") auto
  moreover have "new_request ''http://a.example:/'' = Inr ''http://a.example/''" by code_simp
  ultimately show ?thesis
    by (simp add: fetch_with_def sample_client_Do read_limited_def media_type_def
        header_Get_def header_Values_def)
      (simp add: default_fetcher_def DefaultPolicy_def)
qed

theorem empty_port_no_evidence_witness:
  "\<exists>r. fetch_with default_fetcher sample_exchange Inr sample_time ''http://a.example:/'' [] = Inr r \<and>
    \<not> isOK (tr_FromFetch (Some r) ''p'')"
  using empty_port_fetch empty_port_no_evidence by blast

end
