(* ===== verification/File_System.thy ===== *)
theory File_System
  imports Twirx_Prelude
begin

text \<open>
  The operating system as the program uses it: \<open>path/filepath\<close> on slash-separated paths,
  and the calls of package \<open>os\<close> on a tree of nodes. Every call consults the next step of a
  plan, which says what other processes publish before the call and whether the call is done,
  fails, or is the point where the process is killed. A statement over all plans is therefore a
  statement over all faults, crashes and interleavings. A path is one spelling of one node
  (no links), and a completed call is durable: the effect of a power loss on unsynchronised
  data is not modelled.
\<close>

section \<open>Paths\<close>

fun path_split :: "string \<Rightarrow> string list" where
  "path_split [] = [[]]"
| "path_split (c # cs) =
     (if c = CHR ''/'' then [] # path_split cs
      else case path_split cs of [] \<Rightarrow> [[c]] | w # ws \<Rightarrow> (c # w) # ws)"

fun path_join :: "string list \<Rightarrow> string" where
  "path_join [] = []"
| "path_join [w] = w"
| "path_join (w # v # ws) = w @ ''/'' @ path_join (v # ws)"

fun clean_parts :: "bool \<Rightarrow> string list \<Rightarrow> string list \<Rightarrow> string list" where
  "clean_parts rooted stack [] = rev stack"
| "clean_parts rooted stack (c # cs) =
     (if c = [] \<or> c = ''.'' then clean_parts rooted stack cs
      else if c = ''..'' then
        (case stack of
           [] \<Rightarrow> if rooted then clean_parts rooted [] cs else clean_parts rooted [c] cs
         | t # ts \<Rightarrow> if t = ''..'' then clean_parts rooted (c # stack) cs
                    else clean_parts rooted ts cs)
      else clean_parts rooted (c # stack) cs)"

definition filepath_Clean :: "string \<Rightarrow> string" where
  "filepath_Clean p =
     (if p = [] then ''.'' else
      let rooted = (hd p = CHR ''/''); cs = clean_parts rooted [] (path_split p)
      in if rooted then CHR ''/'' # path_join cs
         else if cs = [] then ''.'' else path_join cs)"

definition filepath_Join :: "string list \<Rightarrow> string" where
  "filepath_Join elems =
     (case dropWhile (\<lambda>e. e = []) elems of [] \<Rightarrow> [] | es \<Rightarrow> filepath_Clean (path_join es))"

definition filepath_Base :: "string \<Rightarrow> string" where
  "filepath_Base p =
     (if p = [] then ''.'' else
      let q = rev (dropWhile (\<lambda>c. c = CHR ''/'') (rev p));
          b = last (path_split q)
      in if b = [] then ''/'' else b)"

definition filepath_Dir :: "string \<Rightarrow> string" where
  "filepath_Dir p = filepath_Clean (rev (dropWhile (\<lambda>c. c \<noteq> CHR ''/'') (rev p)))"

lemma path_split_not_Nil [simp]: "path_split s \<noteq> []"
  by (cases s) (auto split: list.splits)

lemma path_split_append: "path_split (a @ CHR ''/'' # b) = path_split a @ path_split b"
  by (induction a) (auto split: list.splits)

lemma path_split_single: "CHR ''/'' \<notin> set s \<Longrightarrow> path_split s = [s]"
  by (induction s) auto

lemma clean_parts_snoc:
  assumes "x \<noteq> []" "x \<noteq> ''.''" "x \<noteq> ''..''"
  shows "clean_parts rooted stack (cs @ [x]) = clean_parts rooted stack cs @ [x]"
  using assms by (induction rooted stack cs rule: clean_parts.induct) (auto split: list.splits)

lemma path_join_snoc: "cs \<noteq> [] \<Longrightarrow> path_join (cs @ [x]) = path_join cs @ CHR ''/'' # x"
  by (induction cs rule: path_join.induct) auto

text \<open>A proper last element ends the joined path, and is its base.\<close>

lemma filepath_Clean_last:
  assumes "CHR ''/'' \<notin> set x" "x \<noteq> []" "x \<noteq> ''.''" "x \<noteq> ''..''"
  shows "\<exists>pre. filepath_Clean (q @ CHR ''/'' # x) = pre @ x \<and> (pre = [] \<or> last pre = CHR ''/'')"
proof -
  let ?rooted = "hd (q @ CHR ''/'' # x) = CHR ''/''"
  let ?cs = "clean_parts ?rooted [] (path_split q)"
  have "clean_parts ?rooted [] (path_split (q @ CHR ''/'' # x)) = ?cs @ [x]"
    by (simp only: path_split_append path_split_single [OF assms(1)] clean_parts_snoc [OF assms(2-4)])
  then have eq: "filepath_Clean (q @ CHR ''/'' # x) =
      (if ?rooted then CHR ''/'' # path_join (?cs @ [x]) else path_join (?cs @ [x]))"
    by (cases ?rooted) (simp_all add: filepath_Clean_def Let_def)
  show ?thesis
  proof (cases "?cs = []")
    case True
    with eq show ?thesis by (cases ?rooted) auto
  next
    case False
    with eq path_join_snoc [OF False, of x] show ?thesis
      by (intro exI [of _ "(if ?rooted then ''/'' else []) @ path_join ?cs @ ''/''"]) auto
  qed
qed

lemma filepath_Clean_snoc:
  assumes "CHR ''/'' \<notin> set x" "x \<noteq> []" "x \<noteq> ''.''" "x \<noteq> ''..''"
    and "q \<noteq> []" "filepath_Clean q \<noteq> ''.''" "filepath_Clean q \<noteq> ''/''"
  shows "filepath_Clean (q @ CHR ''/'' # x) = filepath_Clean q @ CHR ''/'' # x"
proof -
  let ?rooted = "hd q = CHR ''/''"
  let ?cs = "clean_parts ?rooted [] (path_split q)"
  have hd: "hd (q @ CHR ''/'' # x) = hd q" using assms(5) by (cases q) auto
  have "?cs \<noteq> []"
    using assms(5-7) by (cases ?rooted) (auto simp: filepath_Clean_def Let_def)
  then have j: "path_join (?cs @ [x]) = path_join ?cs @ CHR ''/'' # x" by (rule path_join_snoc)
  have "clean_parts ?rooted [] (path_split (q @ CHR ''/'' # x)) = ?cs @ [x]"
    by (simp only: path_split_append path_split_single [OF assms(1)] clean_parts_snoc [OF assms(2-4)])
  with j \<open>?cs \<noteq> []\<close> assms(5) show ?thesis
    by (cases ?rooted) (simp_all add: filepath_Clean_def Let_def hd)
qed

lemma filepath_Base_last:
  assumes "CHR ''/'' \<notin> set x" "x \<noteq> []" "pre = [] \<or> last pre = CHR ''/''"
  shows "filepath_Base (pre @ x) = x"
proof -
  have "dropWhile (\<lambda>c. c = CHR ''/'') (rev (pre @ x)) = rev (pre @ x)"
    using assms(1,2) by (cases x rule: rev_cases) auto
  moreover have "last (path_split (pre @ x)) = x"
  proof (cases pre rule: rev_cases)
    case Nil
    then show ?thesis by (simp add: path_split_single assms(1))
  next
    case (snoc pre' c)
    with assms(3) have "pre @ x = pre' @ CHR ''/'' # x" by simp
    then show ?thesis by (simp add: path_split_append path_split_single assms(1))
  qed
  ultimately show ?thesis using assms(2) by (simp add: filepath_Base_def Let_def)
qed

section \<open>The tree and the plan\<close>

datatype node = Regular "byte list" | Directory | Special

datatype outcome = Done nat | Fail nat | Crash nat

record os =
  nodes :: "string \<Rightarrow> node option"
  plan :: "((string \<times> byte list) list \<times> outcome) list"
  crashed :: bool

type_synonym 'a io = "os \<Rightarrow> (error + 'a) \<times> os"

text \<open>What other processes publish: whole files, renamed into place.\<close>

definition publish :: "(string \<times> byte list) list \<Rightarrow> (string \<Rightarrow> node option) \<Rightarrow> (string \<Rightarrow> node option)" where
  "publish env t = fold (\<lambda>(p, b) u. u(p := Some (Regular b))) env t"

definition next_step :: "os \<Rightarrow> outcome \<times> os" where
  "next_step s =
     (if crashed s then (Crash 0, s)
      else case plan s of
        [] \<Rightarrow> (Fail 0, s)
      | (env, out) # rest \<Rightarrow>
          (out, s\<lparr>nodes := publish env (nodes s), plan := rest,
                  crashed := (case out of Crash _ \<Rightarrow> True | _ \<Rightarrow> False)\<rparr>))"

definition io_ret :: "'a \<Rightarrow> 'a io" where "io_ret x s = (Inr x, s)"
definition io_err :: "error \<Rightarrow> 'a io" where "io_err e s = (Inl e, s)"

definition io_bind :: "'a io \<Rightarrow> ('a \<Rightarrow> 'b io) \<Rightarrow> 'b io" where
  "io_bind m f s = (case m s of (Inl e, s1) \<Rightarrow> (Inl e, s1) | (Inr x, s1) \<Rightarrow> f x s1)"

definition io_wrap :: "string \<Rightarrow> 'a io \<Rightarrow> 'a io" where
  "io_wrap msg m s = (case m s of (Inl e, s1) \<Rightarrow> (Inl (Wrap msg e), s1) | (Inr x, s1) \<Rightarrow> (Inr x, s1))"

text \<open>\<open>io_onerr m c\<close> runs \<open>c\<close> when \<open>m\<close> failed; \<open>io_defer c m\<close> runs it in any case.\<close>

definition io_onerr :: "unit io \<Rightarrow> 'a io \<Rightarrow> 'a io" where
  "io_onerr c m s = (case m s of (Inl e, s1) \<Rightarrow> (Inl e, snd (c s1)) | (Inr x, s1) \<Rightarrow> (Inr x, s1))"

definition io_defer :: "unit io \<Rightarrow> 'a io \<Rightarrow> 'a io" where
  "io_defer c m s = (case m s of (r, s1) \<Rightarrow> (r, snd (c s1)))"

section \<open>Calls\<close>

text \<open>A call that only succeeds or fails: \<open>Chmod\<close>, \<open>Sync\<close>, \<open>Close\<close>, opening a directory.\<close>

definition os_call :: "unit io" where
  "os_call s = (case next_step s of (Done _, s1) \<Rightarrow> (Inr (), s1) | (_, s1) \<Rightarrow> (Inl ErrSyscall, s1))"

definition os_ReadFile :: "string \<Rightarrow> byte list io" where
  "os_ReadFile p s = (case next_step s of
     (Done _, s1) \<Rightarrow> (case nodes s1 p of
         Some (Regular b) \<Rightarrow> (Inr b, s1)
       | None \<Rightarrow> (Inl ErrNotExist, s1)
       | _ \<Rightarrow> (Inl ErrSyscall, s1))
   | (_, s1) \<Rightarrow> (Inl ErrSyscall, s1))"

definition os_Lstat :: "string \<Rightarrow> node io" where
  "os_Lstat p s = (case next_step s of
     (Done _, s1) \<Rightarrow> (case nodes s1 p of Some n \<Rightarrow> (Inr n, s1) | None \<Rightarrow> (Inl ErrNotExist, s1))
   | (_, s1) \<Rightarrow> (Inl ErrSyscall, s1))"

definition os_Mkdir :: "string \<Rightarrow> unit io" where
  "os_Mkdir p s = (case next_step s of
     (Done _, s1) \<Rightarrow>
       if nodes s1 p = None then (Inr (), s1\<lparr>nodes := (nodes s1)(p \<mapsto> Directory)\<rparr>)
       else (Inl ErrSyscall, s1)
   | (_, s1) \<Rightarrow> (Inl ErrSyscall, s1))"

definition mkdir_missing :: "string \<Rightarrow> unit io" where
  "mkdir_missing p s = (if nodes s p = Some Directory then (Inr (), s) else os_Mkdir p s)"

fun mkdir_each :: "string list \<Rightarrow> unit io" where
  "mkdir_each [] = io_ret ()"
| "mkdir_each (p # ps) = io_bind (mkdir_missing p) (\<lambda>_. mkdir_each ps)"

text \<open>The directories above a path, outermost first.\<close>

definition ancestors :: "string \<Rightarrow> string list" where
  "ancestors p = [take i p. i \<leftarrow> [1..<length p], p ! i = CHR ''/''] @ [p]"

definition os_MkdirAll :: "string \<Rightarrow> unit io" where
  "os_MkdirAll p = mkdir_each (ancestors p)"

text \<open>
  \<open>os.CreateTemp(dir, prefix + "*")\<close>: the step's number is the random part of the name, a
  name in use is tried again with the next step.
\<close>

primrec digits_of :: "nat \<Rightarrow> nat \<Rightarrow> string" where
  "digits_of 0 n = []"
| "digits_of (Suc k) n = (if n < 10 then [char_of (48 + n)] else digits_of k (n div 10) @ [char_of (48 + n mod 10)])"

definition temp_name :: "string \<Rightarrow> string \<Rightarrow> nat \<Rightarrow> string" where
  "temp_name dir prefix n =
     dir @ (if dir \<noteq> [] \<and> last dir = CHR ''/'' then [] else ''/'') @ prefix @ digits_of 20 n"

fun create_temp :: "nat \<Rightarrow> string \<Rightarrow> string \<Rightarrow> string io" where
  "create_temp 0 dir prefix s = (Inl ErrSyscall, s)"
| "create_temp (Suc k) dir prefix s = (case next_step s of
     (Done n, s1) \<Rightarrow>
       let name = temp_name dir prefix n in
       if nodes s1 name = None then (Inr name, s1\<lparr>nodes := (nodes s1)(name \<mapsto> Regular [])\<rparr>)
       else create_temp k dir prefix s1
   | (_, s1) \<Rightarrow> (Inl ErrSyscall, s1))"

lemma digits_of_chars: "c \<in> set (digits_of k n) \<Longrightarrow> c \<noteq> CHR ''/''"
  by (induction k arbitrary: n)
    (auto simp: char_of_eq eq_commute [of "CHR ''/''"] split: if_splits)

lemma temp_name_base: "CHR ''/'' \<notin> set prefix \<Longrightarrow> prefix \<noteq> [] \<Longrightarrow>
    filepath_Base (temp_name dir prefix n) = prefix @ digits_of 20 n"
proof -
  assume p: "CHR ''/'' \<notin> set prefix" "prefix \<noteq> []"
  have "CHR ''/'' \<notin> set (prefix @ digits_of 20 n)" using p digits_of_chars by auto
  moreover have "temp_name dir prefix n =
      (dir @ (if dir \<noteq> [] \<and> last dir = CHR ''/'' then [] else ''/'')) @ (prefix @ digits_of 20 n)"
    by (simp add: temp_name_def)
  ultimately show ?thesis
    using filepath_Base_last [of "prefix @ digits_of 20 n"
        "dir @ (if dir \<noteq> [] \<and> last dir = CHR ''/'' then [] else ''/'')"] p
    by auto
qed

definition os_CreateTemp :: "string \<Rightarrow> string \<Rightarrow> string io" where
  "os_CreateTemp = create_temp 10000"

text \<open>Writing an open file appends; a failed or interrupted write leaves a prefix of the data.\<close>

definition os_Write :: "string \<Rightarrow> byte list \<Rightarrow> unit io" where
  "os_Write p bs s = (case next_step s of (out, s1) \<Rightarrow>
     (case nodes s1 p of
        Some (Regular old) \<Rightarrow>
          (case out of
             Done _ \<Rightarrow> (Inr (), s1\<lparr>nodes := (nodes s1)(p \<mapsto> Regular (old @ bs))\<rparr>)
           | Fail k \<Rightarrow> (Inl ErrSyscall, s1\<lparr>nodes := (nodes s1)(p \<mapsto> Regular (old @ take k bs))\<rparr>)
           | Crash k \<Rightarrow> (Inl ErrSyscall,
               if crashed s then s1 else s1\<lparr>nodes := (nodes s1)(p \<mapsto> Regular (old @ take k bs))\<rparr>))
      | _ \<Rightarrow> (Inl ErrSyscall, s1)))"

definition os_Rename :: "string \<Rightarrow> string \<Rightarrow> unit io" where
  "os_Rename old new s = (case next_step s of
     (Done _, s1) \<Rightarrow>
       if old = new then (if nodes s1 old = None then (Inl ErrNotExist, s1) else (Inr (), s1)) else
       (case (nodes s1 old, nodes s1 new) of
          (Some n, Some Directory) \<Rightarrow> (Inl ErrSyscall, s1)
        | (Some n, _) \<Rightarrow> (Inr (), s1\<lparr>nodes := (nodes s1)(new \<mapsto> n, old := None)\<rparr>)
        | (None, _) \<Rightarrow> (Inl ErrNotExist, s1))
   | (_, s1) \<Rightarrow> (Inl ErrSyscall, s1))"

definition os_Remove :: "string \<Rightarrow> unit io" where
  "os_Remove p s = (case next_step s of
     (Done _, s1) \<Rightarrow>
       (case nodes s1 p of None \<Rightarrow> (Inl ErrNotExist, s1)
        | Some _ \<Rightarrow> (Inr (), s1\<lparr>nodes := (nodes s1)(p := None)\<rparr>))
   | (_, s1) \<Rightarrow> (Inl ErrSyscall, s1))"

definition below :: "string \<Rightarrow> string \<Rightarrow> bool" where
  "below dir p \<longleftrightarrow> p = dir \<or> take (Suc (length dir)) p = dir @ ''/''"

definition os_RemoveAll :: "string \<Rightarrow> unit io" where
  "os_RemoveAll dir s = (case next_step s of
     (Done _, s1) \<Rightarrow> (Inr (), s1\<lparr>nodes := (\<lambda>p. if below dir p then None else nodes s1 p)\<rparr>)
   | (_, s1) \<Rightarrow> (Inl ErrSyscall, s1))"

section \<open>Triples\<close>

text \<open>
  \<open>io_triple P m Q E\<close>: from a state with \<open>P\<close>, a run of \<open>m\<close> that returns a value
  ends in \<open>Q\<close> and a run that returns an error ends in \<open>E\<close>, whatever the plan.
\<close>

definition io_triple :: "(os \<Rightarrow> bool) \<Rightarrow> 'a io \<Rightarrow> ('a \<Rightarrow> os \<Rightarrow> bool) \<Rightarrow> (os \<Rightarrow> bool) \<Rightarrow> bool" where
  "io_triple P m Q E \<longleftrightarrow>
     (\<forall>s. P s \<longrightarrow> (\<forall>e s1. m s = (Inl e, s1) \<longrightarrow> E s1) \<and> (\<forall>x s1. m s = (Inr x, s1) \<longrightarrow> Q x s1))"

lemma io_tripleI:
  assumes "\<And>s e s1. P s \<Longrightarrow> m s = (Inl e, s1) \<Longrightarrow> E s1"
    and "\<And>s x s1. P s \<Longrightarrow> m s = (Inr x, s1) \<Longrightarrow> Q x s1"
  shows "io_triple P m Q E"
  using assms unfolding io_triple_def by blast

lemma io_tripleD:
  assumes "io_triple P m Q E"
  shows "m s = (Inl e, s1) \<Longrightarrow> P s \<Longrightarrow> E s1" and "m s = (Inr x, s1) \<Longrightarrow> P s \<Longrightarrow> Q x s1"
  using assms unfolding io_triple_def by blast+

lemma io_triple_ret: "(\<And>s. P s \<Longrightarrow> Q x s) \<Longrightarrow> io_triple P (io_ret x) Q E"
  by (simp add: io_triple_def io_ret_def)

lemma io_triple_err: "(\<And>s. P s \<Longrightarrow> E s) \<Longrightarrow> io_triple P (io_err e) Q E"
  by (simp add: io_triple_def io_err_def)

lemma io_triple_if:
  "(b \<Longrightarrow> io_triple P m Q E) \<Longrightarrow> (\<not> b \<Longrightarrow> io_triple P n Q E) \<Longrightarrow> io_triple P (if b then m else n) Q E"
  by simp

lemma io_triple_bind:
  assumes "io_triple P m R E" and "\<And>x. io_triple (R x) (f x) Q E"
  shows "io_triple P (io_bind m f) Q E"
  by (rule io_tripleI)
    (auto simp: io_bind_def split: prod.splits sum.splits
      dest: io_tripleD [OF assms(1)] io_tripleD [OF assms(2)])

lemma io_triple_wrap: "io_triple P m Q E \<Longrightarrow> io_triple P (io_wrap msg m) Q E"
  by (rule io_tripleI)
    (auto simp: io_wrap_def split: prod.splits sum.splits dest: io_tripleD)

lemma io_triple_always: "io_triple F c (\<lambda>_. E) E \<Longrightarrow> F s \<Longrightarrow> E (snd (c s))"
  by (cases "c s"; cases "fst (c s)") (auto dest: io_tripleD)

lemma io_triple_onerr:
  assumes "io_triple P m Q F" "io_triple F c (\<lambda>_. E) E"
  shows "io_triple P (io_onerr c m) Q E"
  by (rule io_tripleI)
    (auto simp: io_onerr_def split: prod.splits sum.splits
      dest: io_tripleD [OF assms(1)] intro: io_triple_always [OF assms(2)])

lemma io_triple_defer:
  assumes "io_triple P m R F" "\<And>x. io_triple (R x) c (\<lambda>_. Q x) (Q x)" "io_triple F c (\<lambda>_. E) E"
  shows "io_triple P (io_defer c m) Q E"
  by (rule io_tripleI)
    (auto simp: io_defer_def split: prod.splits
      dest: io_tripleD [OF assms(1)]
      intro: io_triple_always [OF assms(2)] io_triple_always [OF assms(3)])

lemma io_triple_weaken:
  assumes "io_triple P m Q E" "\<And>s. P' s \<Longrightarrow> P s" "\<And>x s. Q x s \<Longrightarrow> Q' x s" "\<And>s. E s \<Longrightarrow> E' s"
  shows "io_triple P' m Q' E'"
  by (rule io_tripleI) (blast intro: assms(3,4) dest: assms(2) io_tripleD [OF assms(1)])+

text \<open>The temporary-file protocol both writers of the program use.\<close>

definition write_temp :: "string \<Rightarrow> byte list \<Rightarrow> unit io" where
  "write_temp tmp bs =
     io_bind (io_onerr os_call (io_wrap ''chmod temporary file'' os_call)) (\<lambda>_.
     io_bind (io_onerr os_call (io_wrap ''write temporary file'' (os_Write tmp bs))) (\<lambda>_.
     io_bind (io_onerr os_call (io_wrap ''sync temporary file'' os_call)) (\<lambda>_.
     io_wrap ''close temporary file'' os_call)))"

text \<open>A predicate that the steps of the plan keep, and the triples of the calls for it.\<close>

definition steps_keep :: "(os \<Rightarrow> bool) \<Rightarrow> bool" where
  "steps_keep P \<longleftrightarrow> (\<forall>s. P s \<longrightarrow> P (snd (next_step s)))"

lemma steps_keepD: "steps_keep P \<Longrightarrow> P s \<Longrightarrow> next_step s = (out, s1) \<Longrightarrow> P s1"
  unfolding steps_keep_def by (metis snd_conv)

lemma triple_call: "steps_keep P \<Longrightarrow> io_triple P os_call (\<lambda>_. P) P"
  by (rule io_tripleI) (auto simp: os_call_def split: prod.splits outcome.splits dest: steps_keepD)

lemma triple_ReadFile:
  assumes "steps_keep P"
  shows "io_triple P (os_ReadFile p) (\<lambda>b s. P s \<and> nodes s p = Some (Regular b)) P"
  by (rule io_tripleI)
    (auto simp: os_ReadFile_def split: prod.splits outcome.splits option.splits node.splits
      dest: steps_keepD [OF assms])

lemma triple_Mkdir:
  assumes "steps_keep P"
    and "\<And>s. P s \<Longrightarrow> nodes s p = None \<Longrightarrow> P (s\<lparr>nodes := (nodes s)(p \<mapsto> Directory)\<rparr>)"
  shows "io_triple P (os_Mkdir p) (\<lambda>_. P) P"
  by (rule io_tripleI)
    (auto simp: os_Mkdir_def split: prod.splits outcome.splits if_splits
      dest: steps_keepD [OF assms(1)] intro: assms(2))

lemma triple_mkdir_each:
  assumes "steps_keep P"
    and "\<And>s p. P s \<Longrightarrow> nodes s p = None \<Longrightarrow> P (s\<lparr>nodes := (nodes s)(p \<mapsto> Directory)\<rparr>)"
  shows "io_triple P (mkdir_each ps) (\<lambda>_. P) P"
proof (induction ps)
  case Nil
  show ?case by (simp add: io_triple_ret)
next
  case (Cons p ps)
  have m: "io_triple P (os_Mkdir p) (\<lambda>_. P) P"
    by (rule triple_Mkdir) (use assms in auto)
  have "io_triple P (mkdir_missing p) (\<lambda>_. P) P"
    by (rule io_tripleI) (auto simp: mkdir_missing_def split: if_splits dest: io_tripleD [OF m])
  then show ?case using Cons by (simp add: io_triple_bind)
qed

lemma triple_MkdirAll:
  assumes "steps_keep P"
    and "\<And>s p. P s \<Longrightarrow> nodes s p = None \<Longrightarrow> P (s\<lparr>nodes := (nodes s)(p \<mapsto> Directory)\<rparr>)"
  shows "io_triple P (os_MkdirAll p) (\<lambda>_. P) P"
  unfolding os_MkdirAll_def using assms by (rule triple_mkdir_each)

lemma triple_create_temp:
  assumes "steps_keep P"
    and "\<And>s n. P s \<Longrightarrow> nodes s (temp_name dir prefix n) = None \<Longrightarrow>
      Q (temp_name dir prefix n) (s\<lparr>nodes := (nodes s)(temp_name dir prefix n \<mapsto> Regular [])\<rparr>)"
  shows "io_triple P (create_temp k dir prefix) Q P"
proof (induction k)
  case 0
  show ?case by (rule io_tripleI) simp_all
next
  case (Suc k)
  show ?case
    by (rule io_tripleI)
      (auto simp: Let_def split: prod.splits outcome.splits if_splits
        dest: steps_keepD [OF assms(1)] io_tripleD [OF Suc] intro: assms(2))
qed

lemma triple_Write:
  assumes "\<And>s out s1. P s \<Longrightarrow> next_step s = (out, s1) \<Longrightarrow> P' s1"
    and "\<And>s old. P' s \<Longrightarrow> nodes s p = Some (Regular old) \<Longrightarrow>
      Q (s\<lparr>nodes := (nodes s)(p \<mapsto> Regular (old @ bs))\<rparr>)"
    and "\<And>s old k. P' s \<Longrightarrow> nodes s p = Some (Regular old) \<Longrightarrow>
      E (s\<lparr>nodes := (nodes s)(p \<mapsto> Regular (old @ take k bs))\<rparr>)"
    and "\<And>s. P' s \<Longrightarrow> E s"
  shows "io_triple P (os_Write p bs) (\<lambda>_. Q) E"
  by (rule io_tripleI)
    (auto simp: os_Write_def split: prod.splits outcome.splits option.splits node.splits if_splits
      dest!: assms(1) intro: assms(2-4))

lemma triple_Remove:
  assumes "\<And>s out s1. P s \<Longrightarrow> next_step s = (out, s1) \<Longrightarrow> P' s1"
    and "\<And>s. P' s \<Longrightarrow> Q (s\<lparr>nodes := (nodes s)(p := None)\<rparr>)" and "\<And>s. P' s \<Longrightarrow> Q s"
  shows "io_triple P (os_Remove p) (\<lambda>_. Q) Q"
  by (rule io_tripleI)
    (auto simp: os_Remove_def split: prod.splits outcome.splits option.splits
      dest!: assms(1) intro: assms(2,3))

lemma triple_Rename:
  assumes "\<And>s out s1. P s \<Longrightarrow> next_step s = (out, s1) \<Longrightarrow> P' s1" and "old \<noteq> new"
    and "\<And>s n. P' s \<Longrightarrow> nodes s old = Some n \<Longrightarrow> nodes s new \<noteq> Some Directory \<Longrightarrow>
      Q (s\<lparr>nodes := (nodes s)(new \<mapsto> n, old := None)\<rparr>)"
    and "\<And>s. P' s \<Longrightarrow> E s"
  shows "io_triple P (os_Rename old new) (\<lambda>_. Q) E"
  by (rule io_tripleI)
    (auto simp: os_Rename_def assms(2) split: prod.splits outcome.splits option.splits node.splits
      dest!: assms(1) intro!: assms(3,4))

end
