(* ===== verification/Cas_Store.thy ===== *)
theory Cas_Store
  imports File_System Sha256
begin

text \<open>
  \<open>internal/cas\<close>: the content-addressed store on the file system. The operations, the store
  invariant (a regular file at a blob path holds the octets its name is the digest of), that
  \<open>Put\<close> keeps it under every fault, crash and concurrent publication, and the contract of a
  content store as a locale, interpreted on \<open>Put\<close> and \<open>Read\<close>.
\<close>

section \<open>Operations\<close>

definition cas_Digest :: "byte list \<Rightarrow> string" where
  "cas_Digest bs = ''sha256'' @ '':'' @ hex_encode (sha256 bs)"

definition cas_ParseDigest :: "string \<Rightarrow> error + byte list" where
  "cas_ParseDigest digest =
     (if take 7 digest \<noteq> ''sha256:'' then Inl (Msg ''unsupported digest'')
      else case hex_decode (drop 7 digest) of
             None \<Rightarrow> Inl (Msg ''decode digest'')
           | Some raw \<Rightarrow> if length raw \<noteq> 32 then Inl (Msg ''digest length'') else Inr raw)"

definition blob_path :: "string \<Rightarrow> byte list \<Rightarrow> string" where
  "blob_path root raw = (let hexDigest = hex_encode raw in
     filepath_Join [root, ''sha256'', take 2 hexDigest, take 2 (drop 2 hexDigest), hexDigest])"

definition cas_Path :: "string \<Rightarrow> string \<Rightarrow> error + string" where
  "cas_Path root digest = ebind (cas_ParseDigest digest) (\<lambda>raw. Inr (blob_path root raw))"

text \<open>The part of \<open>Put\<close> after the blob was found missing.\<close>

definition commit_blob :: "string \<Rightarrow> string \<Rightarrow> string \<Rightarrow> (string \<times> string) io" where
  "commit_blob digest path tmp s = (case os_Rename tmp path s of
     (Inr _, s1) \<Rightarrow> (Inr (digest, path), s1)
   | (Inl e, s1) \<Rightarrow> (case os_ReadFile path s1 of
        (Inr existing, s2) \<Rightarrow>
          if cas_Digest existing = digest then (Inr (digest, path), s2)
          else (Inl (Wrap ''commit blob'' e), s2)
      | (Inl _, s2) \<Rightarrow> (Inl (Wrap ''commit blob'' e), s2)))"

definition put_new :: "string \<Rightarrow> string \<Rightarrow> byte list \<Rightarrow> (string \<times> string) io" where
  "put_new digest path bs =
     io_bind (io_wrap ''create temporary blob'' (os_CreateTemp (filepath_Dir path) ''.tw-cas-'')) (\<lambda>tmp.
     io_defer (os_Remove tmp)
       (io_bind (write_temp tmp bs) (\<lambda>_. commit_blob digest path tmp)))"

definition put_at :: "string \<Rightarrow> string \<Rightarrow> byte list \<Rightarrow> (string \<times> string) io" where
  "put_at digest path bs s = (case os_ReadFile path s of
     (Inr existing, s1) \<Rightarrow>
       if cas_Digest existing \<noteq> digest
       then (Inl (Msg ''existing blob does not match its path digest''), s1)
       else (Inr (digest, path), s1)
   | (Inl e, s1) \<Rightarrow>
       if root_cause e \<noteq> ErrNotExist then (Inl (Wrap ''inspect existing blob'' e), s1)
       else put_new digest path bs s1)"

definition cas_Put :: "string \<Rightarrow> byte list \<Rightarrow> (string \<times> string) io" where
  "cas_Put root bs = (let digest = cas_Digest bs in
     case cas_Path root digest of
       Inl e \<Rightarrow> io_err e
     | Inr path \<Rightarrow>
         io_bind (io_wrap ''create parent'' (os_MkdirAll (filepath_Dir path))) (\<lambda>_.
         put_at digest path bs))"

text \<open>
  \<open>Open\<close> followed by reading at most \<open>maxBytes+1\<close> octets; \<open>maxBytes\<close> is an
  \<open>int64\<close>, so that the sum wraps.
\<close>

definition cas_Read :: "string \<Rightarrow> string \<Rightarrow> 64 word \<Rightarrow> byte list io" where
  "cas_Read root digest maxBytes = (case cas_Path root digest of
     Inl e \<Rightarrow> io_err e
   | Inr path \<Rightarrow>
       io_bind (io_wrap ''open blob'' (os_ReadFile path)) (\<lambda>content.
       let limited = take (nat (sint (maxBytes + 1))) content in
       if int (length limited) > sint maxBytes then io_err (Msg ''blob exceeds read limit'')
       else if cas_Digest limited \<noteq> digest then io_err (Msg ''blob digest mismatch'')
       else io_ret limited))"

section \<open>Paths of blobs\<close>

lemma hex_digit_range: "n < 16 \<Longrightarrow> hex_digit n \<noteq> CHR ''/'' \<and> hex_digit n \<noteq> CHR ''.''"
  by (simp add: hex_digit_def char_of_eq)

lemma hex_encode_chars: "c \<in> set (hex_encode bs) \<Longrightarrow> c \<noteq> CHR ''/'' \<and> c \<noteq> CHR ''.''"
proof (induction bs)
  case (Cons b bs)
  have "unat b div 16 < 16" using unat_byte_bound [of b] by simp
  with Cons show ?case by (auto simp: hex_digit_range)
qed simp

lemma blob_path_last:
  assumes "digest32 d"
  shows "\<exists>pre. blob_path root d = pre @ hex_encode d \<and> (pre = [] \<or> last pre = CHR ''/'')"
proof -
  let ?h = "hex_encode d"
  have len: "length ?h = 64" using assms by (simp add: digest32_def)
  have sl: "CHR ''/'' \<notin> set ?h" using hex_encode_chars by blast
  have "length x < 64 \<Longrightarrow> ?h \<noteq> x" for x using len by (metis less_irrefl)
  then have dots: "?h \<noteq> []" "?h \<noteq> ''.''" "?h \<noteq> ''..''" by simp_all
  have ne: "take 2 ?h \<noteq> []" "take 2 (drop 2 ?h) \<noteq> []" using len dots(1) by auto
  define es where "es = (if root = [] then [] else [root]) @ [''sha256'', take 2 ?h, take 2 (drop 2 ?h)]"
  have es: "dropWhile (\<lambda>e. e = []) [root, ''sha256'', take 2 ?h, take 2 (drop 2 ?h), ?h] = es @ [?h]"
    by (simp add: es_def)
  have "es \<noteq> []" by (simp add: es_def)
  then have j: "path_join (es @ [?h]) = path_join es @ CHR ''/'' # ?h" by (rule path_join_snoc)
  have "blob_path root d = (case es @ [?h] of [] \<Rightarrow> [] | es \<Rightarrow> filepath_Clean (path_join es))"
    by (simp only: blob_path_def filepath_Join_def Let_def es)
  also have "\<dots> = filepath_Clean (path_join (es @ [?h]))" by (cases "es @ [?h]") auto
  finally have "blob_path root d = filepath_Clean (path_join es @ CHR ''/'' # ?h)" unfolding j .
  with filepath_Clean_last [OF sl dots, of "path_join es"] show ?thesis by simp
qed

lemma blob_path_base: "digest32 d \<Longrightarrow> filepath_Base (blob_path root d) = hex_encode d"
proof -
  assume d: "digest32 d"
  then obtain pre where "blob_path root d = pre @ hex_encode d" "pre = [] \<or> last pre = CHR ''/''"
    using blob_path_last by blast
  moreover have "CHR ''/'' \<notin> set (hex_encode d)" using hex_encode_chars by blast
  moreover have "hex_encode d \<noteq> []" using d by (auto simp: digest32_def simp flip: length_0_conv)
  ultimately show ?thesis by (simp add: filepath_Base_last)
qed

lemma blob_path_inject: "digest32 d \<Longrightarrow> digest32 e \<Longrightarrow> blob_path root d = blob_path root e \<longleftrightarrow> d = e"
  by (metis blob_path_base hex_encode_inject)

lemma temp_not_blob:
  assumes "digest32 d"
  shows "temp_name dir ''.tw-cas-'' n \<noteq> blob_path root d"
proof
  assume "temp_name dir ''.tw-cas-'' n = blob_path root d"
  then have "filepath_Base (temp_name dir ''.tw-cas-'' n) = hex_encode d"
    by (simp only: blob_path_base [OF assms])
  then have "hex_encode d = ''.tw-cas-'' @ digits_of 20 n"
    by (subst (asm) temp_name_base) auto
  then have "CHR ''.'' \<in> set (hex_encode d)" by simp
  then show False using hex_encode_chars by blast
qed

section \<open>The store invariant\<close>

text \<open>Other processes only publish blobs at the path of their digest, as \<open>Put\<close> does.\<close>

definition peers_ok :: "string \<Rightarrow> os \<Rightarrow> bool" where
  "peers_ok root s \<longleftrightarrow>
     (\<forall>(env, out) \<in> set (plan s). \<forall>(p, b) \<in> set env. p = blob_path root (sha256 b))"

definition blobs_ok :: "string \<Rightarrow> (string \<Rightarrow> node option) \<Rightarrow> bool" where
  "blobs_ok root t \<longleftrightarrow>
     (\<forall>d b. digest32 d \<longrightarrow> t (blob_path root d) = Some (Regular b) \<longrightarrow> sha256 b = d)"

definition holds_all :: "string \<Rightarrow> byte list set \<Rightarrow> (string \<Rightarrow> node option) \<Rightarrow> bool" where
  "holds_all root D t \<longleftrightarrow> (\<forall>d \<in> D. digest32 d \<and> (\<exists>b. t (blob_path root d) = Some (Regular b)))"

text \<open>\<open>D\<close> are digests that have a blob.\<close>

definition store_inv :: "string \<Rightarrow> byte list set \<Rightarrow> os \<Rightarrow> bool" where
  "store_inv root D s \<longleftrightarrow> peers_ok root s \<and> blobs_ok root (nodes s) \<and> holds_all root D (nodes s)"

definition with_temp :: "string \<Rightarrow> byte list set \<Rightarrow> string \<Rightarrow> byte list \<Rightarrow> os \<Rightarrow> bool" where
  "with_temp root D tmp c s \<longleftrightarrow> store_inv root D s \<and> nodes s tmp = Some (Regular c) \<and>
     (\<forall>d. digest32 d \<longrightarrow> tmp \<noteq> blob_path root d)"

lemma publish_Cons: "publish ((p, b) # env) t = publish env (t(p \<mapsto> Regular b))"
  by (simp add: publish_def del: fun_upd_apply)

lemma publish_blobs:
  "\<forall>(p, b) \<in> set env. p = blob_path root (sha256 b) \<Longrightarrow> blobs_ok root t \<Longrightarrow> blobs_ok root (publish env t)"
proof (induction env arbitrary: t)
  case (Cons e env)
  obtain p b where e: "e = (p, b)" by (cases e)
  have "blobs_ok root (t(p \<mapsto> Regular b))"
    using Cons.prems unfolding blobs_ok_def e by (auto simp: blob_path_inject)
  then show ?case using Cons by (simp only: e publish_Cons) simp
qed (simp add: publish_def)

lemma publish_holds: "holds_all root D t \<Longrightarrow> holds_all root D (publish env t)"
proof (induction env arbitrary: t)
  case (Cons e env)
  obtain p b where e: "e = (p, b)" by (cases e)
  have "holds_all root D (t(p \<mapsto> Regular b))"
    using Cons.prems unfolding holds_all_def by auto
  then show ?case using Cons by (simp only: e publish_Cons)
qed (simp add: publish_def)

lemma publish_other:
  "\<forall>(p, b) \<in> set env. p = blob_path root (sha256 b) \<Longrightarrow>
   \<forall>d. digest32 d \<longrightarrow> q \<noteq> blob_path root d \<Longrightarrow> publish env t q = t q"
proof (induction env arbitrary: t)
  case (Cons e env)
  obtain p b where e: "e = (p, b)" by (cases e)
  with Cons.prems have "q \<noteq> p" using digest32_sha256 by auto
  then show ?case using Cons by (simp only: e publish_Cons) simp
qed (simp add: publish_def)

lemma next_step_cases:
  obtains "snd (next_step s) = s"
  | env out rest where "plan s = (env, out) # rest"
      "nodes (snd (next_step s)) = publish env (nodes s)" "plan (snd (next_step s)) = rest"
proof (cases "crashed s \<or> plan s = []")
  case True
  then have "snd (next_step s) = s" by (auto simp: next_step_def)
  then show ?thesis by (rule that(1))
next
  case False
  then obtain env out rest where p: "plan s = (env, out) # rest"
    by (cases "plan s") auto
  with False show ?thesis by (intro that(2) [of env out rest]) (simp_all add: next_step_def)
qed

lemma with_temp_keep: "steps_keep (with_temp root D tmp c)"
  unfolding steps_keep_def
proof (intro allI impI)
  fix s
  assume w: "with_temp root D tmp c s"
  show "with_temp root D tmp c (snd (next_step s))"
  proof (cases s rule: next_step_cases)
    case 1
    with w show ?thesis by simp
  next
    case (2 env out rest)
    with w have "\<forall>(p, b) \<in> set env. p = blob_path root (sha256 b)"
      by (simp add: with_temp_def store_inv_def peers_ok_def)
    from publish_blobs [OF this] publish_other [OF this] w 2 show ?thesis
      by (simp add: with_temp_def store_inv_def peers_ok_def publish_holds)
  qed
qed

lemma store_inv_keep: "steps_keep (store_inv root D)"
  unfolding steps_keep_def
proof (intro allI impI)
  fix s
  assume w: "store_inv root D s"
  show "store_inv root D (snd (next_step s))"
  proof (cases s rule: next_step_cases)
    case 1
    with w show ?thesis by simp
  next
    case (2 env out rest)
    with w have "\<forall>(p, b) \<in> set env. p = blob_path root (sha256 b)"
      by (simp add: store_inv_def peers_ok_def)
    from publish_blobs [OF this] w 2 show ?thesis
      by (simp add: store_inv_def peers_ok_def publish_holds)
  qed
qed

text \<open>Changes outside the blobs.\<close>

lemma store_inv_other:
  assumes "store_inv root D s" "\<forall>d. digest32 d \<longrightarrow> p \<noteq> blob_path root d"
  shows "store_inv root D (s\<lparr>nodes := (nodes s)(p := x)\<rparr>)"
  using assms by (auto simp: store_inv_def peers_ok_def blobs_ok_def holds_all_def)

lemma store_inv_directory:
  assumes "store_inv root D s" "nodes s p = None"
  shows "store_inv root D (s\<lparr>nodes := (nodes s)(p \<mapsto> Directory)\<rparr>)"
  using assms by (fastforce simp: store_inv_def peers_ok_def blobs_ok_def holds_all_def)

lemma store_inv_blob:
  assumes "store_inv root D s" "sha256 b = d"
  shows "store_inv root (insert d D) (s\<lparr>nodes := (nodes s)(blob_path root d \<mapsto> Regular b)\<rparr>)"
  using assms by (auto simp: store_inv_def peers_ok_def blobs_ok_def holds_all_def blob_path_inject)

lemma with_temp_inv: "with_temp root D tmp c s \<Longrightarrow> store_inv root D s"
  by (simp add: with_temp_def)

lemma with_temp_change:
  "with_temp root D tmp c s \<Longrightarrow> with_temp root D tmp c' (s\<lparr>nodes := (nodes s)(tmp \<mapsto> Regular c')\<rparr>)"
  unfolding with_temp_def using store_inv_other by simp

section \<open>\<open>Put\<close> keeps the invariant\<close>

lemma triple_mkdirs: "io_triple (store_inv root D) (os_MkdirAll p) (\<lambda>_. store_inv root D) (store_inv root D)"
  by (rule triple_MkdirAll [OF store_inv_keep]) (rule store_inv_directory)

lemma triple_temp:
  "io_triple (store_inv root D) (os_CreateTemp dir ''.tw-cas-'')
     (\<lambda>tmp. with_temp root D tmp []) (store_inv root D)"
  unfolding os_CreateTemp_def
  by (rule triple_create_temp [OF store_inv_keep])
    (simp add: with_temp_def store_inv_other temp_not_blob)

definition some_temp :: "string \<Rightarrow> byte list set \<Rightarrow> string \<Rightarrow> os \<Rightarrow> bool" where
  "some_temp root D tmp s \<longleftrightarrow> (\<exists>c. with_temp root D tmp c s)"

lemma some_temp_keep: "steps_keep (some_temp root D tmp)"
  using with_temp_keep unfolding steps_keep_def some_temp_def by blast

lemma triple_write_temp:
  "io_triple (with_temp root D tmp []) (write_temp tmp bs)
     (\<lambda>_. with_temp root D tmp bs) (some_temp root D tmp)"
proof -
  note call = triple_call [OF with_temp_keep] triple_call [OF some_temp_keep]
  have weak: "io_triple (with_temp root D tmp c) os_call (\<lambda>_. with_temp root D tmp c) (some_temp root D tmp)" for c
    by (rule io_triple_weaken [OF call(1)]) (auto simp: some_temp_def)
  have w: "io_triple (with_temp root D tmp []) (os_Write tmp bs)
      (\<lambda>_. with_temp root D tmp bs) (some_temp root D tmp)"
  proof (rule triple_Write [where P' = "with_temp root D tmp []"])
    show "with_temp root D tmp [] s1" if "with_temp root D tmp [] s" "next_step s = (out, s1)" for s out s1
      using that by (rule steps_keepD [OF with_temp_keep])
  qed (auto simp: with_temp_def some_temp_def intro: store_inv_other)
  show ?thesis
    unfolding write_temp_def
    by (rule io_triple_bind [where R = "\<lambda>_. with_temp root D tmp []"],
        rule io_triple_onerr, rule io_triple_wrap, rule weak, rule call(2),
        rule io_triple_bind [where R = "\<lambda>_. with_temp root D tmp bs"],
        rule io_triple_onerr, rule io_triple_wrap, rule w, rule call(2),
        rule io_triple_bind [where R = "\<lambda>_. with_temp root D tmp bs"],
        rule io_triple_onerr, rule io_triple_wrap, rule weak, rule call(2),
        rule io_triple_wrap, rule weak)
qed

lemma store_inv_insert: "store_inv root (insert d D) s \<Longrightarrow> store_inv root D s"
  by (simp add: store_inv_def holds_all_def)

lemma triple_commit:
  assumes d: "sha256 bs = d"
  shows "io_triple (with_temp root D tmp bs) (commit_blob (cas_Digest bs) (blob_path root d) tmp)
     (\<lambda>r s. r = (cas_Digest bs, blob_path root d) \<and> store_inv root (insert d D) s) (store_inv root D)"
proof -
  have d32: "digest32 d" using d digest32_sha256 by auto
  have keep: "with_temp root D tmp bs s1" if "with_temp root D tmp bs s" "next_step s = (out, s1)" for s out s1
    using that by (rule steps_keepD [OF with_temp_keep])
  have moved: "store_inv root (insert d D) (s\<lparr>nodes := (nodes s)(blob_path root d \<mapsto> n, tmp := None)\<rparr>)"
    if w: "with_temp root D tmp bs s" and n: "nodes s tmp = Some n" for s n
  proof -
    from w n have n': "n = Regular bs" and t: "\<forall>d. digest32 d \<longrightarrow> tmp \<noteq> blob_path root d"
      and i: "store_inv root D s"
      by (auto simp: with_temp_def)
    from store_inv_other [OF store_inv_blob [OF i d] t, of None] show ?thesis by (simp add: n')
  qed
  have ren: "io_triple (with_temp root D tmp bs)
      (os_Rename tmp (blob_path root d)) (\<lambda>_. store_inv root (insert d D)) (store_inv root D)"
  proof (cases "tmp = blob_path root d")
    case True
    with d32 show ?thesis by (auto simp: io_triple_def with_temp_def)
  next
    case False
    show ?thesis
      by (rule triple_Rename [where P' = "with_temp root D tmp bs"])
        (use False in \<open>auto intro: keep moved with_temp_inv simp del: fun_upd_apply\<close>)
  qed
  have rd: "io_triple (store_inv root D) (os_ReadFile (blob_path root d))
      (\<lambda>b s. store_inv root (insert d D) s) (store_inv root D)"
    by (rule io_triple_weaken [OF triple_ReadFile [OF store_inv_keep]])
      (auto simp: store_inv_def holds_all_def d32)
  show ?thesis
    by (rule io_tripleI)
      (auto simp: commit_blob_def split: prod.splits sum.splits if_splits
        dest!: io_tripleD [OF ren] io_tripleD [OF rd] intro: store_inv_insert)
qed

lemma triple_put_new:
  assumes d: "sha256 bs = d"
  shows "io_triple (store_inv root D) (put_new (cas_Digest bs) (blob_path root d) bs)
     (\<lambda>r s. r = (cas_Digest bs, blob_path root d) \<and> store_inv root (insert d D) s) (store_inv root D)"
proof -
  let ?Q = "\<lambda>r s. r = (cas_Digest bs, blob_path root d) \<and> store_inv root (insert d D) s"
  have rm: "io_triple (\<lambda>s. store_inv root E s \<and> ok) (os_Remove tmp) (\<lambda>_ s. store_inv root E s \<and> ok)
      (\<lambda>s. store_inv root E s \<and> ok)"
    if "\<forall>d. digest32 d \<longrightarrow> tmp \<noteq> blob_path root d" for E tmp ok
    by (rule triple_Remove [where P' = "\<lambda>s. store_inv root E s \<and> ok"])
      (use that in \<open>auto intro: store_inv_other steps_keepD [OF store_inv_keep]\<close>)
  have body: "io_triple (with_temp root D tmp []) (io_bind (write_temp tmp bs)
      (\<lambda>_. commit_blob (cas_Digest bs) (blob_path root d) tmp)) ?Q (store_inv root D)" for tmp
    by (rule io_triple_bind [where R = "\<lambda>_. with_temp root D tmp bs"],
        rule io_triple_weaken [OF triple_write_temp [of root D tmp bs]])
      (auto simp: some_temp_def with_temp_inv intro: triple_commit [OF d])
  have "io_triple (with_temp root D tmp []) (io_defer (os_Remove tmp) (io_bind (write_temp tmp bs)
      (\<lambda>_. commit_blob (cas_Digest bs) (blob_path root d) tmp))) ?Q (store_inv root D)" for tmp
  proof (cases "\<forall>d. digest32 d \<longrightarrow> tmp \<noteq> blob_path root d")
    case True
    have r1: "io_triple (?Q x) (os_Remove tmp) (\<lambda>_. ?Q x) (?Q x)" for x
      using rm [OF True, of "insert d D" "x = (cas_Digest bs, blob_path root d)"]
      by (simp add: conj_commute)
    have r2: "io_triple (store_inv root D) (os_Remove tmp) (\<lambda>_. store_inv root D) (store_inv root D)"
      using rm [OF True, of D True] by simp
    show ?thesis by (rule io_triple_defer [OF body r1 r2])
  next
    case False
    then show ?thesis by (auto simp: io_triple_def with_temp_def)
  qed
  note body' = this
  show ?thesis
    unfolding put_new_def by (rule io_triple_bind, rule io_triple_wrap, rule triple_temp, rule body')
qed

lemma cas_ParseDigest_Digest: "cas_ParseDigest (cas_Digest bs) = Inr (sha256 bs)"
  by (simp add: cas_ParseDigest_def cas_Digest_def)

lemma cas_Path_Digest: "cas_Path root (cas_Digest bs) = Inr (blob_path root (sha256 bs))"
  by (simp add: cas_Path_def cas_ParseDigest_Digest)

lemma cas_Digest_inject: "cas_Digest a = cas_Digest b \<longleftrightarrow> sha256 a = sha256 b"
  by (simp add: cas_Digest_def)

lemma triple_put_at:
  "io_triple (store_inv root D) (put_at (cas_Digest bs) (blob_path root (sha256 bs)) bs)
     (\<lambda>r s. r = (cas_Digest bs, blob_path root (sha256 bs)) \<and> store_inv root (insert (sha256 bs) D) s)
     (store_inv root D)"
proof -
  have rd: "io_triple (store_inv root D) (os_ReadFile (blob_path root (sha256 bs)))
      (\<lambda>b s. store_inv root (insert (sha256 bs) D) s \<and> store_inv root D s) (store_inv root D)"
    by (rule io_triple_weaken [OF triple_ReadFile [OF store_inv_keep]])
      (auto simp: store_inv_def holds_all_def digest32_sha256)
  show ?thesis
    by (rule io_tripleI)
      (auto simp: put_at_def split: prod.splits sum.splits if_splits
        dest!: io_tripleD [OF rd] dest: io_tripleD [OF triple_put_new [OF refl]])
qed

theorem cas_Put_triple:
  "io_triple (store_inv root D) (cas_Put root bs)
     (\<lambda>r s. r = (cas_Digest bs, blob_path root (sha256 bs)) \<and> store_inv root (insert (sha256 bs) D) s)
     (store_inv root D)"
  by (simp add: cas_Put_def cas_Path_Digest)
    (rule io_triple_bind, rule io_triple_wrap, rule triple_mkdirs, rule triple_put_at)

section \<open>The contract of a content store\<close>

text \<open>
  \<open>inv D\<close> are the states in which every digest of \<open>D\<close> has its content, \<open>ready\<close>
  the states whose next read is not disturbed. \<open>put\<close> and \<open>get\<close> may fail at any time;
  what they return when they do not is fixed.
\<close>

locale content_store =
  fixes put :: "byte list \<Rightarrow> 's \<Rightarrow> (error + string) \<times> 's"
    and get :: "string \<Rightarrow> 64 word \<Rightarrow> 's \<Rightarrow> (error + byte list) \<times> 's"
    and digest :: "byte list \<Rightarrow> string"
    and inv :: "string set \<Rightarrow> 's \<Rightarrow> bool"
    and ready :: "'s \<Rightarrow> bool"
    and too_large :: error
  assumes put_returns: "inv D s \<Longrightarrow> put b s = (Inr d, s1) \<Longrightarrow> d = digest b \<and> inv (insert d D) s1"
    and put_fails: "inv D s \<Longrightarrow> put b s = (Inl e, s1) \<Longrightarrow> inv D s1"
    and inv_less: "inv (insert d D) s \<Longrightarrow> inv D s"
    and get_keeps: "inv D s \<Longrightarrow> inv D (snd (get d n s))"
    and get_digest: "get d n s = (Inr b, s1) \<Longrightarrow> digest b = d \<and> int (length b) \<le> sint n"
    and get_found: "inv D s \<Longrightarrow> d \<in> D \<Longrightarrow> ready s \<Longrightarrow> 0 \<le> sint n \<Longrightarrow> sint n < 2 ^ 63 - 1 \<Longrightarrow>
      fst (get d n s) = Inl too_large \<or> (\<exists>b. fst (get d n s) = Inr b)"
begin

lemma put_keeps: "inv D s \<Longrightarrow> inv D (snd (put b s))"
  by (cases "put b s"; cases "fst (put b s)") (auto dest: put_returns put_fails inv_less)

lemma puts_keep: "inv D s \<Longrightarrow> inv D (fold (\<lambda>b s. snd (put b s)) bs s)"
  by (induction bs arbitrary: s) (auto simp: put_keeps)

lemma put_get:
  assumes "inv D s" "put b s = (Inr d, s1)" "get d n s2 = (Inr c, s3)"
  shows "digest c = digest b"
  using put_returns [OF assms(1,2)] get_digest [OF assms(3)] by simp

lemma stays_readable:
  assumes "inv D s" "put b s = (Inr d, s1)"
    and s2: "s2 = fold (\<lambda>b s. snd (put b s)) bs s1" and "ready s2" "0 \<le> sint n" "sint n < 2 ^ 63 - 1"
  shows "fst (get d n s2) = Inl too_large \<or>
    (\<exists>c. fst (get d n s2) = Inr c \<and> digest c = digest b \<and> int (length c) \<le> sint n)"
proof -
  from put_returns [OF assms(1,2)] have d: "d = digest b" and i: "inv (insert d D) s1" by blast+
  from i have "inv (insert d D) s2" unfolding s2 by (rule puts_keep)
  from get_found [OF this _ assms(4-6), of d] d show ?thesis
    by (metis (no_types) get_digest insertI1 prod.collapse)
qed

end

definition cas_put :: "string \<Rightarrow> byte list \<Rightarrow> string io" where
  "cas_put root b s = (case cas_Put root b s of (r, s1) \<Rightarrow> (map_sum id fst r, s1))"

definition raw_reference :: "byte list \<Rightarrow> string" where
  "raw_reference d = ''sha256:'' @ hex_encode d"

definition cas_inv :: "string \<Rightarrow> string set \<Rightarrow> os \<Rightarrow> bool" where
  "cas_inv root D s \<longleftrightarrow> (\<exists>R. D = raw_reference ` R \<and> store_inv root R s)"

definition undisturbed :: "os \<Rightarrow> bool" where
  "undisturbed s \<longleftrightarrow> \<not> crashed s \<and> (case plan s of (env, Done n) # _ \<Rightarrow> True | _ \<Rightarrow> False)"

lemma raw_reference_inject: "raw_reference a = raw_reference b \<longleftrightarrow> a = b"
  by (simp add: raw_reference_def)

lemma cas_Digest_reference: "cas_Digest b = raw_reference (sha256 b)"
  by (simp add: cas_Digest_def raw_reference_def)

lemma cas_Path_reference: "digest32 d \<Longrightarrow> cas_Path root (raw_reference d) = Inr (blob_path root d)"
  by (simp add: cas_Path_def cas_ParseDigest_def raw_reference_def digest32_def)

lemma triple_Read: "io_triple (store_inv root D) (cas_Read root d n) (\<lambda>_. store_inv root D) (store_inv root D)"
proof -
  have rd: "io_triple (store_inv root D) (os_ReadFile p) (\<lambda>_. store_inv root D) (store_inv root D)" for p
    by (rule io_triple_weaken [OF triple_ReadFile [OF store_inv_keep]]) auto
  show ?thesis
    by (auto simp: cas_Read_def Let_def split: sum.splits
        intro!: io_triple_err io_triple_bind [OF io_triple_wrap [OF rd]])
      (auto intro: io_triple_err io_triple_ret split: if_splits)
qed

lemma cas_Read_returns:
  "cas_Read root d n s = (Inr b, s1) \<Longrightarrow> cas_Digest b = d \<and> int (length b) \<le> sint n"
  by (auto simp: cas_Read_def io_bind_def io_ret_def io_err_def Let_def
      split: sum.splits prod.splits if_splits)

lemma sint_plus_one: "0 \<le> sint n \<Longrightarrow> sint n < 2 ^ 63 - 1 \<Longrightarrow> sint (n + 1 :: 64 word) = sint n + 1"
  by (simp add: sint_word_ariths signed_take_bit_int_eq_self)

lemma cas_Read_found:
  assumes i: "store_inv root R s" and d: "d \<in> R" and r: "undisturbed s"
    and n: "0 \<le> sint n" "sint n < 2 ^ 63 - 1"
  shows "fst (cas_Read root (raw_reference d) n s) = Inl (Msg ''blob exceeds read limit'') \<or>
    (\<exists>b. fst (cas_Read root (raw_reference d) n s) = Inr b)"
proof -
  from r obtain env k rest where p: "\<not> crashed s" "plan s = (env, Done k) # rest"
    by (cases "plan s"; cases "snd (hd (plan s))") (auto simp: undisturbed_def split: prod.splits)
  define s1 where "s1 = s\<lparr>nodes := publish env (nodes s), plan := rest, crashed := False\<rparr>"
  have step: "next_step s = (Done k, s1)" using p by (simp add: next_step_def s1_def)
  have i1: "store_inv root R s1" by (rule steps_keepD [OF store_inv_keep i step])
  with d obtain b where d32: "digest32 d" and b: "nodes s1 (blob_path root d) = Some (Regular b)"
    by (auto simp: store_inv_def holds_all_def)
  have sha: "sha256 b = d" using i1 d32 b by (auto simp: store_inv_def blobs_ok_def)
  have rd: "os_ReadFile (blob_path root d) s = (Inr b, s1)"
    by (simp add: os_ReadFile_def step b)
  let ?l = "take (nat (sint (n + 1))) b"
  have len: "int (length ?l) \<le> sint n \<Longrightarrow> ?l = b"
    using n sint_plus_one [OF n] by (simp add: min_def split: if_splits)
  then show ?thesis
    by (auto simp: cas_Read_def cas_Path_reference [OF d32] io_bind_def io_wrap_def rd Let_def
        io_err_def io_ret_def cas_Digest_reference sha)
qed

interpretation cas_store: content_store "cas_put root" "cas_Read root" cas_Digest "cas_inv root"
  undisturbed "Msg ''blob exceeds read limit''" for root
proof
  fix D s b d s1
  assume i: "cas_inv root D s"
  then obtain R where D: "D = raw_reference ` R" and R: "store_inv root R s"
    by (auto simp: cas_inv_def)
  show "d = cas_Digest b \<and> cas_inv root (insert d D) s1" if "cas_put root b s = (Inr d, s1)"
  proof -
    from that obtain p where "cas_Put root b s = (Inr (d, p), s1)"
      by (cases "cas_Put root b s"; cases "fst (cas_Put root b s)") (auto simp: cas_put_def)
    from io_tripleD(2) [OF cas_Put_triple this R]
    show ?thesis by (auto simp: cas_inv_def D cas_Digest_reference intro!: exI [of _ "insert (sha256 b) R"])
  qed
  show "cas_inv root D s1" if "cas_put root b s = (Inl e, s1)" for e
  proof -
    from that have "cas_Put root b s = (Inl e, s1)"
      by (cases "cas_Put root b s"; cases "fst (cas_Put root b s)") (auto simp: cas_put_def)
    from io_tripleD(1) [OF cas_Put_triple this R] show ?thesis using D by (auto simp: cas_inv_def)
  qed
  show "cas_inv root D (snd (cas_Read root d n s))" for n
    using io_triple_always [OF triple_Read R] D by (auto simp: cas_inv_def)
  show "fst (cas_Read root d n s) = Inl (Msg ''blob exceeds read limit'') \<or>
      (\<exists>b. fst (cas_Read root d n s) = Inr b)"
    if "d \<in> D" "undisturbed s" "0 \<le> sint n" "sint n < 2 ^ 63 - 1" for n
    using that cas_Read_found [OF R _ that(2-4)] by (auto simp: D)
next
  show "cas_inv root D s" if "cas_inv root (insert d D) s" for D d s
  proof -
    from that obtain R where "insert d D = raw_reference ` R" and R: "store_inv root R s"
      by (auto simp: cas_inv_def)
    then have "D = raw_reference ` {r \<in> R. raw_reference r \<in> D}" by auto
    moreover have "store_inv root {r \<in> R. raw_reference r \<in> D} s"
      using R by (simp add: store_inv_def holds_all_def)
    ultimately show ?thesis unfolding cas_inv_def by blast
  qed
  show "cas_Read root d n s = (Inr b, s1) \<Longrightarrow> cas_Digest b = d \<and> int (length b) \<le> sint n" for d n s b s1
    by (rule cas_Read_returns)
qed

section \<open>Properties\<close>

text \<open>
  C3: \<open>Put\<close> keeps the store sound whatever fails, wherever the process is killed and
  whatever other writers publish in between: a blob always holds the octets its path is the
  digest of, and no blob is lost. When \<open>Put\<close> returns, it returns the digest and the path
  of the data and the blob is there.
\<close>

theorem Put_keeps_store:
  assumes "store_inv root D s" and "cas_Put root bs s = (r, s1)"
  shows "case r of
      Inl e \<Rightarrow> store_inv root D s1
    | Inr (digest, path) \<Rightarrow> digest = cas_Digest bs \<and> cas_Path root digest = Inr path \<and>
        store_inv root (insert (sha256 bs) D) s1"
proof (cases r)
  case (Inl e)
  with io_tripleD(1) [OF cas_Put_triple _ assms(1)] assms(2) show ?thesis by simp
next
  case (Inr x)
  with io_tripleD(2) [OF cas_Put_triple _ assms(1), of bs x s1] assms(2) show ?thesis
    by (cases x) (simp add: cas_Path_Digest)
qed

definition one_blob :: "string \<Rightarrow> byte list \<Rightarrow> (string \<times> byte list) list \<Rightarrow> os" where
  "one_blob root bs env = \<lparr>nodes = [blob_path root (sha256 bs) \<mapsto> Regular bs],
     plan = [([], Done 0), (env, Fail 0), ([], Done 1)], crashed = False\<rparr>"

lemma one_blob_inv:
  "\<forall>(p, b) \<in> set env. p = blob_path root (sha256 b) \<Longrightarrow> store_inv root {sha256 bs} (one_blob root bs env)"
  by (auto simp: one_blob_def store_inv_def peers_ok_def blobs_ok_def holds_all_def blob_path_inject)

definition peer_write :: "string \<Rightarrow> (string \<times> byte list) list" where
  "peer_write root = [(blob_path root (sha256 [2]), [2])]"

lemma peer_write_inv: "store_inv root {sha256 bs} (one_blob root bs (peer_write root))"
  by (rule one_blob_inv) (simp add: peer_write_def)

theorem Put_keeps_store_witness:
  "store_inv ''store'' {sha256 [1]} (one_blob ''store'' [1] (peer_write ''store'')) \<and>
   (case fst (cas_Put ''store'' [3] (one_blob ''store'' [1] (peer_write ''store''))) of
      Inl e \<Rightarrow> store_inv ''store'' {sha256 [1]} (snd (cas_Put ''store'' [3] (one_blob ''store'' [1] (peer_write ''store''))))
    | Inr (digest, path) \<Rightarrow> digest = cas_Digest [3] \<and> cas_Path ''store'' digest = Inr path \<and>
        store_inv ''store'' (insert (sha256 [3]) {sha256 [1]})
          (snd (cas_Put ''store'' [3] (one_blob ''store'' [1] (peer_write ''store'')))))"
  using peer_write_inv Put_keeps_store [OF peer_write_inv surjective_pairing] by blast



text \<open>
  Whatever a read returns has the digest that was asked for and is within the caller's limit,
  in any state of the file system and under any faults.
\<close>

theorem Read_returns_digest:
  assumes "cas_Read root digest limit s = (Inr bs, s1)"
  shows "cas_Digest bs = digest \<and> int (length bs) \<le> sint limit"
  using assms by (rule cas_Read_returns)

theorem Read_returns_digest_witness:
  "\<exists>c s1. cas_Read ''store'' (cas_Digest [1]) 100 (one_blob ''store'' [1] []) = (Inr c, s1) \<and>
     cas_Digest c = cas_Digest [1]"
proof -
  have "cas_Read ''store'' (cas_Digest [1]) 100 (one_blob ''store'' [1] []) =
      (Inr [1], snd (next_step (one_blob ''store'' [1] [])))"
    by (simp add: cas_Read_def cas_Path_Digest io_bind_def io_wrap_def os_ReadFile_def next_step_def one_blob_def
        publish_def io_ret_def)
  with Read_returns_digest [OF this] show ?thesis by blast
qed

end
