(* ===== verification/E2_Result.thy ===== *)
theory E2_Result
  imports Cbor_Document
begin

text \<open>
  \<open>internal/e2format\<close>: the typed-result envelope of an invocation. Fields with their
  native and semantic values, the validation of a field and of a result (with the loop that
  tracks duplicate identifiers and unresolved fields), the canonical form with its parser, and
  digest references.
\<close>

section \<open>Data\<close>

definition ResultVersion :: string where "ResultVersion = ''tw.result/0.2''"
definition MaxResultBytes :: nat where "MaxResultBytes = 1048576"
definition MaxFields :: nat where "MaxFields = 128"
definition MaxTransforms :: nat where "MaxTransforms = 16"
definition MaxTextBytes :: nat where "MaxTextBytes = 16384"
definition MaxLexicalBytes :: nat where "MaxLexicalBytes = 262144"
definition ResultArrayLength :: uint64 where "ResultArrayLength = 17"
definition FieldArrayLength :: uint64 where "FieldArrayLength = 12"

lemmas result_limits [simp] =
  MaxResultBytes_def MaxFields_def MaxTransforms_def MaxTextBytes_def MaxLexicalBytes_def
  ResultArrayLength_def FieldArrayLength_def

record field =
  f_ID :: string
  f_Status :: string
  f_NativeTerm :: string
  f_NativeLocator :: string
  f_NativePresent :: bool
  f_NativeLexical :: string
  f_SemanticTerm :: string
  f_SemanticType :: string
  f_SemanticPresent :: bool
  f_SemanticLexical :: string
  f_Transforms :: "string list"
  f_Mapping :: string

record e2result =
  r_Version :: string
  r_InvocationID :: string
  r_OriginID :: string
  r_OriginVersion :: string
  r_OperationID :: string
  r_OperationVersion :: string
  r_Effect :: string
  r_Status :: string
  r_ObservedAt :: string
  r_InputDigest :: "byte list"
  r_ObservationDigest :: "byte list"
  r_TransportDigest :: "byte list"
  r_AdapterDigest :: "byte list"
  r_ContractDigest :: "byte list"
  r_SemanticClosureDigest :: "byte list"
  r_Fields :: "field list"

section \<open>Validation\<close>

text \<open>
  The validators range over Go maps in an unspecified order; the name of the offending entry is
  therefore not part of the modelled error.
\<close>

definition e2_validateText :: "string \<Rightarrow> nat \<Rightarrow> bool \<Rightarrow> error option" where
  "e2_validateText value limit allowEmpty =
     fail_if ((\<not> allowEmpty \<and> value = []) \<or> length value > limit \<or>
              \<not> utf8_valid_string value \<or> CHR 0x00 \<in> set value)
       (Wrap ''text is empty, invalid UTF-8, contains NUL, or exceeds its bound'' ErrInvalidResult)"

definition Field_validate :: "field \<Rightarrow> error option" where
  "Field_validate f = first_err [
     first_err (map (\<lambda>value. e2_validateText value MaxTextBytes False)
       [f_ID f, f_Status f, f_NativeTerm f, f_NativeLocator f, f_SemanticTerm f,
        f_SemanticType f, f_Mapping f]),
     fail_if (f_Status f \<noteq> ''resolved'' \<and> f_Status f \<noteq> ''unresolved'')
       (Msg ''status must be resolved or unresolved''),
     (if f_Status f = ''resolved''
      then fail_if (\<not> f_NativePresent f \<or> \<not> f_SemanticPresent f)
             (Msg ''resolved field must contain native and semantic values'')
      else fail_if (f_NativePresent f \<or> f_SemanticPresent f \<or> f_NativeLexical f \<noteq> [] \<or>
                    f_SemanticLexical f \<noteq> [])
             (Msg ''unresolved field must omit lexical values'')),
     (if f_NativePresent f then e2_validateText (f_NativeLexical f) MaxLexicalBytes True else None),
     (if f_SemanticPresent f then e2_validateText (f_SemanticLexical f) MaxLexicalBytes True else None),
     fail_if (length (f_Transforms f) > MaxTransforms) (Msg ''too many transforms''),
     first_err (map (\<lambda>transform. e2_validateText transform MaxTextBytes False) (f_Transforms f))]"

text \<open>The loop over the fields: \<open>seen\<close> and \<open>partial\<close> are its variables.\<close>

fun validate_fields :: "string list \<Rightarrow> bool \<Rightarrow> field list \<Rightarrow> error + bool" where
  "validate_fields seen partial [] = Inr partial"
| "validate_fields seen partial (f # fs) =
     (case Field_validate f of
        Some _ \<Rightarrow> Inl (Wrap ''field'' ErrInvalidResult)
      | None \<Rightarrow>
          if f_ID f \<in> set seen then Inl (Wrap ''duplicate field ID'' ErrInvalidResult)
          else validate_fields (f_ID f # seen) (partial \<or> f_Status f = ''unresolved'') fs)"

definition Result_Validate :: "e2result \<Rightarrow> error option" where
  "Result_Validate r = first_err [
     fail_if (r_Version r \<noteq> ResultVersion) (Wrap ''version'' ErrInvalidResult),
     first_err (map (\<lambda>value. e2_validateText value MaxTextBytes False)
       [r_InvocationID r, r_OriginID r, r_OriginVersion r, r_OperationID r, r_OperationVersion r,
        r_ObservedAt r]),
     fail_if (r_Effect r \<noteq> ''read'') (Wrap ''effect must be read'' ErrInvalidResult),
     fail_if (r_Status r \<noteq> ''resolved'' \<and> r_Status r \<noteq> ''partial'')
       (Wrap ''status must be resolved or partial'' ErrInvalidResult),
     fail_if (r_Fields r = [] \<or> length (r_Fields r) > MaxFields)
       (Wrap ''field count'' ErrInvalidResult),
     (case validate_fields [] False (r_Fields r) of
        Inl e \<Rightarrow> Some e
      | Inr partial \<Rightarrow> fail_if (partial \<noteq> (r_Status r = ''partial''))
          (Wrap ''result status does not match field resolution'' ErrInvalidResult))]"

section \<open>Canonical form\<close>

definition decodeBool :: "bool parser" where
  "decodeBool = dec_bool_or (Msg ''boolean must be 0 or 1'')"

definition e2_decodeDigest :: "byte list parser" where
  "e2_decodeDigest = dec_digest_or (Msg ''digest must be 32 bytes'')"

definition marshalField :: "field \<Rightarrow> enc_call list" where
  "marshalField f =
     [CArray FieldArrayLength, CText (f_ID f), CText (f_Status f), CText (f_NativeTerm f),
      CText (f_NativeLocator f), CUint (boolUint (f_NativePresent f)), CText (f_NativeLexical f),
      CText (f_SemanticTerm f), CText (f_SemanticType f), CUint (boolUint (f_SemanticPresent f)),
      CText (f_SemanticLexical f)]
     @ enc_counted (\<lambda>transform. [CText transform]) (f_Transforms f) @ [CText (f_Mapping f)]"

definition result_calls :: "e2result \<Rightarrow> enc_call list" where
  "result_calls r =
     [CArray ResultArrayLength, CText (r_Version r), CText (r_InvocationID r),
      CText (r_OriginID r), CText (r_OriginVersion r), CText (r_OperationID r),
      CText (r_OperationVersion r), CText (r_Effect r), CText (r_Status r), CText (r_ObservedAt r)]
     @ enc_digest (r_InputDigest r) @ enc_digest (r_ObservationDigest r)
     @ enc_digest (r_TransportDigest r) @ enc_digest (r_AdapterDigest r)
     @ enc_digest (r_ContractDigest r) @ enc_digest (r_SemanticClosureDigest r)
     @ enc_counted marshalField (r_Fields r) @ [CArray 0]"

definition MarshalResult :: "e2result \<Rightarrow> error + byte list" where
  "MarshalResult r = after (Result_Validate r)
     (let encoded = emit (result_calls r) in
      if length encoded > MaxResultBytes then Inl (Wrap ''encoded result size'' ErrInvalidResult)
      else Inr encoded)"

definition unmarshalField :: "field parser" where
  "unmarshalField =
     dbind (expect_Array FieldArrayLength (Msg ''invalid field array'')) (\<lambda>_.
     dbind (dec_Text (word_of_nat MaxTextBytes)) (\<lambda>id.
     dbind (dec_Text (word_of_nat MaxTextBytes)) (\<lambda>status.
     dbind (dec_Text (word_of_nat MaxTextBytes)) (\<lambda>nativeTerm.
     dbind (dec_Text (word_of_nat MaxTextBytes)) (\<lambda>nativeLocator.
     dbind decodeBool (\<lambda>nativePresent.
     dbind (dec_Text (word_of_nat MaxLexicalBytes)) (\<lambda>nativeLexical.
     dbind (dec_Text (word_of_nat MaxTextBytes)) (\<lambda>semanticTerm.
     dbind (dec_Text (word_of_nat MaxTextBytes)) (\<lambda>semanticType.
     dbind decodeBool (\<lambda>semanticPresent.
     dbind (dec_Text (word_of_nat MaxLexicalBytes)) (\<lambda>semanticLexical.
     dbind (dec_counted 0 (word_of_nat MaxTransforms) (Msg ''invalid transforms array'')
        (dec_Text (word_of_nat MaxTextBytes))) (\<lambda>transforms.
     dbind (dec_Text (word_of_nat MaxTextBytes)) (\<lambda>mapping.
     dret \<lparr>f_ID = id, f_Status = status, f_NativeTerm = nativeTerm,
           f_NativeLocator = nativeLocator, f_NativePresent = nativePresent,
           f_NativeLexical = nativeLexical, f_SemanticTerm = semanticTerm,
           f_SemanticType = semanticType, f_SemanticPresent = semanticPresent,
           f_SemanticLexical = semanticLexical, f_Transforms = transforms,
           f_Mapping = mapping\<rparr>)))))))))))))"

definition dec_result :: "e2result parser" where
  "dec_result =
     dbind (expect_Array ResultArrayLength (Wrap ''top-level array'' ErrInvalidResult)) (\<lambda>_.
     dbind (dec_Text (word_of_nat MaxTextBytes)) (\<lambda>version.
     dbind (dec_Text (word_of_nat MaxTextBytes)) (\<lambda>invocationID.
     dbind (dec_Text (word_of_nat MaxTextBytes)) (\<lambda>originID.
     dbind (dec_Text (word_of_nat MaxTextBytes)) (\<lambda>originVersion.
     dbind (dec_Text (word_of_nat MaxTextBytes)) (\<lambda>operationID.
     dbind (dec_Text (word_of_nat MaxTextBytes)) (\<lambda>operationVersion.
     dbind (dec_Text (word_of_nat MaxTextBytes)) (\<lambda>effect.
     dbind (dec_Text (word_of_nat MaxTextBytes)) (\<lambda>status.
     dbind (dec_Text (word_of_nat MaxTextBytes)) (\<lambda>observedAt.
     dbind e2_decodeDigest (\<lambda>inputDigest.
     dbind e2_decodeDigest (\<lambda>observationDigest.
     dbind e2_decodeDigest (\<lambda>transportDigest.
     dbind e2_decodeDigest (\<lambda>adapterDigest.
     dbind e2_decodeDigest (\<lambda>contractDigest.
     dbind e2_decodeDigest (\<lambda>semanticClosureDigest.
     dbind (dec_counted 1 (word_of_nat MaxFields) (Wrap ''invalid field array'' ErrInvalidResult)
        (dwrap ''field'' unmarshalField)) (\<lambda>fields.
     dbind (expect_Array 0 (Wrap ''extensions must be an empty array'' ErrInvalidResult)) (\<lambda>_.
     dbind (dec_finish ErrTrailingBytes) (\<lambda>_.
     dret \<lparr>r_Version = version, r_InvocationID = invocationID, r_OriginID = originID,
           r_OriginVersion = originVersion, r_OperationID = operationID,
           r_OperationVersion = operationVersion, r_Effect = effect, r_Status = status,
           r_ObservedAt = observedAt, r_InputDigest = inputDigest,
           r_ObservationDigest = observationDigest, r_TransportDigest = transportDigest,
           r_AdapterDigest = adapterDigest, r_ContractDigest = contractDigest,
           r_SemanticClosureDigest = semanticClosureDigest, r_Fields = fields\<rparr>)))))))))))))))))))"

definition UnmarshalResult :: "byte list \<Rightarrow> error + e2result" where
  "UnmarshalResult bs =
     (if bs = [] \<or> length bs > MaxResultBytes
      then Inl (Wrap ''byte length outside bounds'' ErrInvalidResult)
      else ebind (run_document dec_result bs) (\<lambda>r. after (Result_Validate r) (Inr r)))"

section \<open>Digest references\<close>

definition DigestReference :: "byte list \<Rightarrow> string" where
  "DigestReference digest = ''sha256:'' @ hex_encode digest"

definition ParseDigestReference :: "string \<Rightarrow> error + byte list" where
  "ParseDigestReference value =
     (if take 7 value \<noteq> ''sha256:'' \<or> length value \<noteq> length ''sha256:'' + 64
      then Inl (Msg ''invalid SHA-256 reference'')
      else case hex_decode (drop 7 value) of
             None \<Rightarrow> Inl (Msg ''invalid SHA-256 reference'')
           | Some decoded \<Rightarrow> Inr decoded)"

section \<open>Laws\<close>

lemma e2_validateText_None [accept_simps]:
  "e2_validateText value limit allowEmpty = None \<longleftrightarrow>
     (allowEmpty \<or> value \<noteq> []) \<and> length value \<le> limit \<and> utf8_valid_string value \<and>
     CHR 0x00 \<notin> set value"
  by (auto simp: e2_validateText_def accept_simps)

interpretation e2_bool: codec "\<lambda>b. [CUint (boolUint b)]" decodeBool "\<lambda>_. True"
  unfolding decodeBool_def by unfold_locales

lemmas bool_complete [decode_simps] = e2_bool.complete e2_bool.complete_last

interpretation e2_transforms: codec "enc_counted (\<lambda>s. [CText s])"
    "dec_counted 0 16 (Msg ''invalid transforms array'') (dec_Text 16384)"
    "\<lambda>ts. list_all (text_ok 16384) ts \<and> unat (0::uint64) \<le> length ts \<and> length ts \<le> unat (16::uint64)"
  by (rule cbor_text.counted_codec)

lemmas transforms_complete [decode_simps] = e2_transforms.complete e2_transforms.complete_last

text \<open>The fields the parser can return: every text within the limit it is read with.\<close>

definition field_fits :: "field \<Rightarrow> bool" where
  "field_fits f \<longleftrightarrow>
     text_ok 16384 (f_ID f) \<and> text_ok 16384 (f_Status f) \<and> text_ok 16384 (f_NativeTerm f) \<and>
     text_ok 16384 (f_NativeLocator f) \<and> text_ok 262144 (f_NativeLexical f) \<and>
     text_ok 16384 (f_SemanticTerm f) \<and> text_ok 16384 (f_SemanticType f) \<and>
     text_ok 262144 (f_SemanticLexical f) \<and> list_all (text_ok 16384) (f_Transforms f) \<and>
     length (f_Transforms f) \<le> 16 \<and> text_ok 16384 (f_Mapping f)"

lemmas e2_sound [sound_intros] = e2_bool.sound e2_transforms.sound cbor_digest.sound

interpretation e2_field: codec marshalField unmarshalField field_fits
proof
  show "unmarshalField (dec_at pre (emit (marshalField x) @ r)) =
      Inr (x, dec_at (pre @ emit (marshalField x)) r)" if "field_fits x" for x pre r
    using that by (simp add: unmarshalField_def marshalField_def field_fits_def emit_simps decode_simps)
  show "dec_sound unmarshalField (\<lambda>x c. field_fits x \<and> c = emit (marshalField x))"
    unfolding unmarshalField_def result_limits of_nat_numeral
    apply (rule dec_sound_bind, rule sound_intros)+
    apply (rule dec_sound_ret)
    apply (simp add: marshalField_def field_fits_def emit_simps)
    done
qed

lemma Field_validate_fits: "Field_validate f = None \<Longrightarrow> field_fits f"
  by (auto simp: Field_validate_def accept_simps field_fits_def text_ok_def first_err_map_None
      list_all_iff split: if_splits)

interpretation e2_fields: codec "enc_counted marshalField"
    "dec_counted 1 128 (Wrap ''invalid field array'' ErrInvalidResult) (dwrap ''field'' unmarshalField)"
    "\<lambda>fs. list_all field_fits fs \<and> unat (1::uint64) \<le> length fs \<and> length fs \<le> unat (128::uint64)"
  by (rule codec.counted_codec, rule e2_field.wrap_codec)

lemmas fields_complete [decode_simps] = e2_fields.complete e2_fields.complete_last

lemmas e2_sound2 [sound_intros] = e2_fields.sound

definition result_wf :: "e2result \<Rightarrow> bool" where
  "result_wf r \<longleftrightarrow>
     digest32 (r_InputDigest r) \<and> digest32 (r_ObservationDigest r) \<and>
     digest32 (r_TransportDigest r) \<and> digest32 (r_AdapterDigest r) \<and>
     digest32 (r_ContractDigest r) \<and> digest32 (r_SemanticClosureDigest r)"

lemma validate_fields_Inr:
  "validate_fields seen partial fs = Inr p \<longleftrightarrow>
     (\<forall>f \<in> set fs. Field_validate f = None) \<and> distinct (map f_ID fs) \<and>
     (\<forall>f \<in> set fs. f_ID f \<notin> set seen) \<and>
     p = (partial \<or> (\<exists>f \<in> set fs. f_Status f = ''unresolved''))"
proof (induction fs arbitrary: seen partial)
  case (Cons f fs)
  have "(\<forall>g \<in> set fs. f_ID g \<notin> set (f_ID f # seen)) \<longleftrightarrow>
      f_ID f \<notin> f_ID ` set fs \<and> (\<forall>g \<in> set fs. f_ID g \<notin> set seen)"
    by (simp add: image_iff) metis
  then show ?case by (auto simp: Cons.IH split: option.splits)
qed auto

lemma Result_Validate_None:
  "Result_Validate r = None \<longleftrightarrow>
     r_Version r = ResultVersion \<and>
     (\<forall>t \<in> {r_InvocationID r, r_OriginID r, r_OriginVersion r, r_OperationID r,
             r_OperationVersion r, r_ObservedAt r}. e2_validateText t MaxTextBytes False = None) \<and>
     r_Effect r = ''read'' \<and>
     r_Fields r \<noteq> [] \<and> length (r_Fields r) \<le> 128 \<and>
     (\<forall>f \<in> set (r_Fields r). Field_validate f = None) \<and> distinct (map f_ID (r_Fields r)) \<and>
     r_Status r = (if \<exists>f \<in> set (r_Fields r). f_Status f = ''unresolved'' then ''partial'' else ''resolved'')"
proof (cases "validate_fields [] False (r_Fields r)")
  case (Inl e)
  then have "\<not> ((\<forall>f \<in> set (r_Fields r). Field_validate f = None) \<and> distinct (map f_ID (r_Fields r)))"
    using validate_fields_Inr [of "[]" False "r_Fields r" "\<exists>f \<in> set (r_Fields r). f_Status f = ''unresolved''"] by auto
  moreover from Inl have "Result_Validate r \<noteq> None"
    by (simp add: Result_Validate_def accept_simps)
  ultimately show ?thesis by blast
next
  case (Inr p)
  note v = Inr [unfolded validate_fields_Inr]
  show ?thesis
    unfolding Result_Validate_def Inr
    using v by (auto simp: accept_simps first_err_map_None not_less split: if_splits)
qed

lemma Result_Validate_fits:
  assumes "Result_Validate r = None"
  shows "text_ok 16384 (r_Version r)" "text_ok 16384 (r_InvocationID r)" "text_ok 16384 (r_OriginID r)"
    "text_ok 16384 (r_OriginVersion r)" "text_ok 16384 (r_OperationID r)"
    "text_ok 16384 (r_OperationVersion r)" "text_ok 16384 (r_Effect r)" "text_ok 16384 (r_Status r)"
    "text_ok 16384 (r_ObservedAt r)" "list_all field_fits (r_Fields r)"
    "Suc 0 \<le> length (r_Fields r)" "length (r_Fields r) \<le> 128"
  using assms unfolding Result_Validate_None
  by (auto simp: text_ok_def accept_simps ResultVersion_def list_all_iff Field_validate_fits Suc_le_eq)

lemma dec_result_sound: "dec_sound dec_result (\<lambda>r c. result_wf r \<and> c = emit (result_calls r))"
  unfolding dec_result_def e2_decodeDigest_def result_limits of_nat_numeral
  apply (rule dec_sound_bind, rule sound_intros)+
  apply (rule dec_sound_bind, rule dec_sound_finish, rule dec_sound_ret)
  apply (simp add: result_calls_def result_wf_def emit_simps)
  done

lemma dec_result_ends: "ends_input dec_result"
  unfolding dec_result_def e2_decodeDigest_def result_limits of_nat_numeral
  by (rule ends_input_bind, rule sound_intros)+ (rule ends_input_finish)

lemma dec_result_complete:
  assumes "Result_Validate r = None" "result_wf r"
  shows "dec_result (dec_at pre (emit (result_calls r))) =
         Inr (r, dec_at (pre @ emit (result_calls r)) [])"
  using assms(2) Result_Validate_fits [OF assms(1)]
  by (simp add: dec_result_def e2_decodeDigest_def result_calls_def emit_simps decode_simps result_wf_def)

interpretation result_doc: document MarshalResult UnmarshalResult result_wf
proof
  show "UnmarshalResult b = Inr r" if "result_wf r" "MarshalResult r = Inr b" for r b
  proof -
    from that have v: "Result_Validate r = None" and b: "b = emit (result_calls r)"
      and l: "length b \<le> MaxResultBytes"
      by (auto simp: MarshalResult_def after_Inr Let_def split: if_splits)
    have "run_document dec_result b = Inr r"
      unfolding run_document_Inr b using dec_result_complete [OF v that(1)] by (rule exI)
    moreover have "b \<noteq> []"
      unfolding b by (rule emit_nonempty) (simp_all add: result_calls_def)
    ultimately show ?thesis using v l by (simp add: UnmarshalResult_def)
  qed
  show "MarshalResult r = Inr b" "result_wf r" if "UnmarshalResult b = Inr r" for r b
  proof -
    from that have v: "Result_Validate r = None" and r: "run_document dec_result b = Inr r"
      and l: "length b \<le> MaxResultBytes"
      by (auto simp: UnmarshalResult_def ebind_eq_Inr after_Inr split: if_splits)
    from run_document_sound [OF dec_result_sound dec_result_ends r] v l
    show "MarshalResult r = Inr b" "result_wf r"
      by (simp_all add: MarshalResult_def)
  qed
qed

lemma ParseDigestReference_reference:
  "digest32 d \<Longrightarrow> ParseDigestReference (DigestReference d) = Inr d"
  by (simp add: ParseDigestReference_def DigestReference_def digest32_def)

lemma ParseDigestReference_digest32:
  "ParseDigestReference v = Inr d \<Longrightarrow> digest32 d"
  by (auto simp: ParseDigestReference_def digest32_def dest: length_hex_decode
      split: if_splits option.splits)

section \<open>Properties\<close>

text \<open>
  A result survives marshalling, and the octets that are accepted for a result are the ones
  marshalling it gives.
\<close>

theorem result_accepted:
  "UnmarshalResult bs = Inr r \<longleftrightarrow>
     list_all (\<lambda>d. length d = 32) [r_InputDigest r, r_ObservationDigest r, r_TransportDigest r,
       r_AdapterDigest r, r_ContractDigest r, r_SemanticClosureDigest r] \<and>
     MarshalResult r = Inr bs"
  using result_doc.accepted_iff by (auto simp: result_wf_def digest32_def)

text \<open>
  The status of a result that is accepted is \<open>partial\<close> exactly when a field is
  unresolved; its fields have distinct names, and a field carries values exactly when it is
  resolved.
\<close>

theorem result_status_of_fields:
  assumes "UnmarshalResult bs = Inr r"
  shows "r_Status r = (if \<exists>f \<in> set (r_Fields r). f_Status f = ''unresolved'' then ''partial'' else ''resolved'') \<and>
    distinct (map f_ID (r_Fields r)) \<and> r_Effect r = ''read'' \<and>
    (\<forall>f \<in> set (r_Fields r). (f_NativePresent f \<longleftrightarrow> f_Status f = ''resolved'') \<and>
       (f_SemanticPresent f \<longleftrightarrow> f_Status f = ''resolved''))"
proof -
  from result_doc.unmarshal_marshal [OF assms] have "Result_Validate r = None"
    by (simp add: MarshalResult_def after_Inr)
  then have v: "r_Status r = (if \<exists>f \<in> set (r_Fields r). f_Status f = ''unresolved'' then ''partial'' else ''resolved'')"
    "distinct (map f_ID (r_Fields r))" "r_Effect r = ''read''"
    and f: "\<forall>f \<in> set (r_Fields r). Field_validate f = None"
    unfolding Result_Validate_None by blast+
  have "(f_NativePresent f \<longleftrightarrow> f_Status f = ''resolved'') \<and> (f_SemanticPresent f \<longleftrightarrow> f_Status f = ''resolved'')"
    if "Field_validate f = None" for f
    using that by (auto simp: Field_validate_def first_err_None fail_if_None split: if_splits)
  with v f show ?thesis by blast
qed

definition sample_field :: field where
  "sample_field = \<lparr>f_ID = ''f'', f_Status = ''unresolved'', f_NativeTerm = ''n'', f_NativeLocator = ''l'',
     f_NativePresent = False, f_NativeLexical = [], f_SemanticTerm = ''s'', f_SemanticType = ''t'',
     f_SemanticPresent = False, f_SemanticLexical = [], f_Transforms = [], f_Mapping = ''m''\<rparr>"

definition sample_result :: e2result where
  "sample_result = \<lparr>r_Version = ResultVersion, r_InvocationID = ''i'', r_OriginID = ''o'', r_OriginVersion = ''1'',
     r_OperationID = ''p'', r_OperationVersion = ''1'', r_Effect = ''read'', r_Status = ''partial'',
     r_ObservedAt = ''t'', r_InputDigest = zero_digest, r_ObservationDigest = zero_digest,
     r_TransportDigest = zero_digest, r_AdapterDigest = zero_digest, r_ContractDigest = zero_digest,
     r_SemanticClosureDigest = zero_digest, r_Fields = [sample_field]\<rparr>"

lemma sample_result_valid: "Result_Validate sample_result = None"
  by (simp add: Result_Validate_None sample_result_def sample_field_def Field_validate_def accept_simps
      utf8_valid_string_ascii is_ascii_def)

lemma sample_result_marshals: "MarshalResult sample_result = Inr (emit (result_calls sample_result))"
proof -
  have "length (emit (result_calls sample_result)) \<le> MaxResultBytes"
    by (rule order_trans [OF emit_length])
      (simp add: result_calls_def sample_result_def sample_field_def marshalField_def enc_counted_def
        enc_digest_def zero_digest_def ResultVersion_def)
  then show ?thesis by (simp add: MarshalResult_def sample_result_valid Let_def)
qed

lemma sample_result_accepted: "UnmarshalResult (emit (result_calls sample_result)) = Inr sample_result"
  by (rule result_doc.marshal_unmarshal [OF _ sample_result_marshals]) (simp add: result_wf_def sample_result_def)

theorem result_status_of_fields_witness:
  "UnmarshalResult (emit (result_calls sample_result)) = Inr sample_result \<and>
   r_Status sample_result =
     (if \<exists>f \<in> set (r_Fields sample_result). f_Status f = ''unresolved'' then ''partial'' else ''resolved'')"
  using sample_result_accepted result_status_of_fields [OF sample_result_accepted] by blast

end
