(* ===== verification/Atomic_File.thy ===== *)
theory Atomic_File
  imports File_System
begin

text \<open>
  \<open>internal/atomicfile\<close>: publishing a file through a temporary file and a rename. The
  operation with every step it takes, and that no fault or crash leaves a torn file at the
  destination or disturbs another one.
\<close>

definition atomic_Write :: "string \<Rightarrow> byte list \<Rightarrow> int \<Rightarrow> unit io" where
  "atomic_Write path bs maxBytes =
     (if path = [] then io_err (Msg ''path is required'')
      else if maxBytes \<le> 0 then io_err (Msg ''byte limit must be positive'')
      else if int (length bs) > maxBytes then io_err (Msg ''data size exceeds limit'')
      else
        let dir = filepath_Dir path in
        io_bind (io_wrap ''create destination directory'' (os_MkdirAll dir)) (\<lambda>_.
        io_bind (io_wrap ''create temporary file'' (os_CreateTemp dir ''.tw-write-'')) (\<lambda>tmp.
        io_defer (os_Remove tmp)
          (io_bind (write_temp tmp bs) (\<lambda>_.
           io_bind (io_wrap ''commit file'' (os_Rename tmp path)) (\<lambda>_.
           io_bind (io_wrap ''open destination directory'' os_call) (\<lambda>_.
           io_bind (io_onerr os_call (io_wrap ''sync destination directory'' os_call)) (\<lambda>_.
           io_wrap ''close destination directory'' os_call))))))))"

section \<open>No torn file\<close>

text \<open>A plan without other processes; faults and a crash are still possible.\<close>

definition quiet :: "os \<Rightarrow> bool" where
  "quiet s \<longleftrightarrow> (\<forall>(env, out) \<in> set (plan s). env = [])"

text \<open>
  The files \<open>F\<close> are in place, no path of \<open>N\<close> is a regular file, a regular file at
  \<open>path\<close> holds one of the contents \<open>S\<close>, and there is one if \<open>ex\<close>.
\<close>

definition af_inv :: "string set \<Rightarrow> (string \<times> byte list) set \<Rightarrow> string \<Rightarrow> byte list set \<Rightarrow> bool \<Rightarrow> os \<Rightarrow> bool" where
  "af_inv N F path S ex s \<longleftrightarrow> quiet s \<and> (\<forall>f \<in> F. nodes s (fst f) = Some (Regular (snd f))) \<and>
     (\<forall>b. nodes s path = Some (Regular b) \<longrightarrow> b \<in> S) \<and>
     (\<forall>p \<in> N. \<forall>b. nodes s p \<noteq> Some (Regular b)) \<and>
     (ex \<longrightarrow> (\<exists>b. nodes s path = Some (Regular b)))"

definition af_temp :: "string set \<Rightarrow> (string \<times> byte list) set \<Rightarrow> string \<Rightarrow> byte list set \<Rightarrow> bool \<Rightarrow> string \<Rightarrow> byte list \<Rightarrow> os \<Rightarrow> bool" where
  "af_temp N F path S ex tmp c s \<longleftrightarrow> af_inv N F path S ex s \<and> nodes s tmp = Some (Regular c) \<and>
     tmp \<noteq> path \<and> tmp \<notin> fst ` F \<and> tmp \<notin> N"

definition af_some :: "string set \<Rightarrow> (string \<times> byte list) set \<Rightarrow> string \<Rightarrow> byte list set \<Rightarrow> bool \<Rightarrow> string \<Rightarrow> os \<Rightarrow> bool" where
  "af_some N F path S ex tmp s \<longleftrightarrow> af_inv N F path S ex s \<and> tmp \<noteq> path \<and> tmp \<notin> fst ` F \<and> tmp \<notin> N"

lemma quiet_step: "quiet s \<Longrightarrow> nodes (snd (next_step s)) = nodes s \<and> quiet (snd (next_step s))"
  by (auto simp: quiet_def next_step_def publish_def split: list.splits)

lemma af_inv_keep: "steps_keep (af_inv N F path S ex)"
  and af_temp_keep: "steps_keep (af_temp N F path S ex tmp c)"
  and af_some_keep: "steps_keep (af_some N F path S ex tmp)"
  by (auto simp: steps_keep_def af_temp_def af_some_def af_inv_def quiet_step)

lemma af_inv_cong:
  "af_inv N F path S ex s \<Longrightarrow> \<forall>p \<in> insert path (fst ` F \<union> N). t p = nodes s p \<Longrightarrow> af_inv N F path S ex (s\<lparr>nodes := t\<rparr>)"
  by (auto simp: af_inv_def quiet_def)

lemma af_inv_other:
  "af_inv N F path S ex s \<Longrightarrow> p \<noteq> path \<Longrightarrow> p \<notin> fst ` F \<Longrightarrow> p \<notin> N \<Longrightarrow> af_inv N F path S ex (s\<lparr>nodes := (nodes s)(p := x)\<rparr>)"
  by (erule af_inv_cong) auto

lemma af_inv_directory:
  "af_inv N F path S ex s \<Longrightarrow> nodes s p = None \<Longrightarrow> af_inv N F path S ex (s\<lparr>nodes := (nodes s)(p \<mapsto> Directory)\<rparr>)"
  by (auto simp: af_inv_def quiet_def)

lemma af_inv_placed:
  "af_inv N F path S ex s \<Longrightarrow> path \<notin> fst ` F \<Longrightarrow> path \<notin> N \<Longrightarrow>
   af_inv N (insert (path, bs) F) path {bs} True (s\<lparr>nodes := (nodes s)(path \<mapsto> Regular bs)\<rparr>)"
  by (auto simp: af_inv_def quiet_def image_iff)

lemma af_some_inv: "af_some N F path S ex tmp s \<Longrightarrow> af_inv N F path S ex s"
  and af_temp_some: "af_temp N F path S ex tmp c s \<Longrightarrow> af_some N F path S ex tmp s"
  by (simp_all add: af_some_def af_temp_def)

lemma af_write_temp:
  "io_triple (af_temp N F path S ex tmp []) (write_temp tmp bs)
     (\<lambda>_. af_temp N F path S ex tmp bs) (af_some N F path S ex tmp)"
proof -
  note call = triple_call [OF af_some_keep]
  have weak: "io_triple (af_temp N F path S ex tmp c) os_call
      (\<lambda>_. af_temp N F path S ex tmp c) (af_some N F path S ex tmp)" for c
    by (rule io_triple_weaken [OF triple_call [OF af_temp_keep]]) (auto intro: af_temp_some)
  have w: "io_triple (af_temp N F path S ex tmp []) (os_Write tmp bs)
      (\<lambda>_. af_temp N F path S ex tmp bs) (af_some N F path S ex tmp)"
  proof (rule triple_Write [where P' = "af_temp N F path S ex tmp []"])
    show "af_temp N F path S ex tmp [] s1" if "af_temp N F path S ex tmp [] s" "next_step s = (out, s1)" for s out s1
      using that by (rule steps_keepD [OF af_temp_keep])
  qed (auto simp: af_temp_def af_some_def intro: af_inv_other)
  show ?thesis
    unfolding write_temp_def
    by (rule io_triple_bind [where R = "\<lambda>_. af_temp N F path S ex tmp []"],
        rule io_triple_onerr, rule io_triple_wrap, rule weak, rule call,
        rule io_triple_bind [where R = "\<lambda>_. af_temp N F path S ex tmp bs"],
        rule io_triple_onerr, rule io_triple_wrap, rule w, rule call,
        rule io_triple_bind [where R = "\<lambda>_. af_temp N F path S ex tmp bs"],
        rule io_triple_onerr, rule io_triple_wrap, rule weak, rule call,
        rule io_triple_wrap, rule weak)
qed

text \<open>The destination is not itself named like a temporary file.\<close>

definition proper_target :: "string \<Rightarrow> bool" where
  "proper_target path \<longleftrightarrow> (\<forall>n. temp_name (filepath_Dir path) ''.tw-write-'' n \<noteq> path)"

theorem atomic_Write_triple:
  assumes pt: "proper_target path" and F: "path \<notin> fst ` F" "path \<notin> N"
    and N: "\<And>n. temp_name (filepath_Dir path) ''.tw-write-'' n \<notin> N"
  shows "io_triple (af_inv N F path S ex) (atomic_Write path bs maxBytes)
     (\<lambda>_. af_inv N (insert (path, bs) F) path {bs} True) (af_inv N F path (insert bs S) ex)"
proof -
  let ?A = "af_some N (insert (path, bs) F) path {bs} True"
  let ?E = "af_some N F path (insert bs S) ex"
  have loose: "af_inv N F path S ex s \<Longrightarrow> af_inv N F path (insert bs S) ex s" for s
    by (auto simp: af_inv_def)
  have loose': "?A tmp s \<Longrightarrow> ?E tmp s" for tmp s
    unfolding af_some_def af_inv_def by (elim conjE, intro conjI impI allI) simp_all
  have call: "io_triple (?A tmp) os_call (\<lambda>_. ?A tmp) (?E tmp)" for tmp
    by (rule io_triple_weaken [OF triple_call [OF af_some_keep, of N "insert (path, bs) F" path "{bs}" True tmp]])
      (auto intro: loose')
  have ecall: "io_triple (?E tmp) os_call (\<lambda>_. ?E tmp) (?E tmp)" for tmp
    by (rule triple_call [OF af_some_keep])
  have ren: "io_triple (af_temp N F path S ex tmp bs) (os_Rename tmp path) (\<lambda>_. ?A tmp) (?E tmp)" for tmp
  proof (cases "tmp = path")
    case True
    then show ?thesis by (simp add: io_triple_def af_temp_def)
  next
    case False
    show ?thesis
    proof (rule triple_Rename [where P' = "af_temp N F path S ex tmp bs"])
      fix s n
      assume w: "af_temp N F path S ex tmp bs s" and n: "nodes s tmp = Some n"
      then have "n = Regular bs" by (simp add: af_temp_def)
      moreover from w F have "af_inv N (insert (path, bs) F) path {bs} True (s\<lparr>nodes := (nodes s)(path \<mapsto> Regular bs)\<rparr>)"
        by (intro af_inv_placed [of N F path S ex]) (simp_all add: af_temp_def)
      from af_inv_other [OF this, of tmp None]
      have "af_inv N (insert (path, bs) F) path {bs} True (s\<lparr>nodes := (nodes s)(path \<mapsto> Regular bs, tmp := None)\<rparr>)"
        using w False by (simp add: af_temp_def)
      ultimately show "?A tmp (s\<lparr>nodes := (nodes s)(path \<mapsto> n, tmp := None)\<rparr>)"
        using w by (simp add: af_some_def af_temp_def)
    next
      show "af_temp N F path S ex tmp bs s1" if "af_temp N F path S ex tmp bs s" "next_step s = (out, s1)" for s out s1
        using that by (rule steps_keepD [OF af_temp_keep])
    qed (use False in \<open>auto simp: af_temp_def af_some_def intro: loose\<close>)
  qed
  have body: "io_triple (af_temp N F path S ex tmp []) (io_bind (write_temp tmp bs) (\<lambda>_.
           io_bind (io_wrap ''commit file'' (os_Rename tmp path)) (\<lambda>_.
           io_bind (io_wrap ''open destination directory'' os_call) (\<lambda>_.
           io_bind (io_onerr os_call (io_wrap ''sync destination directory'' os_call)) (\<lambda>_.
           io_wrap ''close destination directory'' os_call))))) (\<lambda>_. ?A tmp) (?E tmp)" for tmp
    apply (rule io_triple_bind [where R = "\<lambda>_. af_temp N F path S ex tmp bs"])
     apply (rule io_triple_weaken [OF af_write_temp [of N F path S ex]])
       apply (auto simp: af_some_def intro: loose)[3]
    apply (rule io_triple_bind [where R = "\<lambda>_. ?A tmp"], rule io_triple_wrap, rule ren)
    apply (rule io_triple_bind [where R = "\<lambda>_. ?A tmp"], rule io_triple_wrap, rule call)
    apply (rule io_triple_bind [where R = "\<lambda>_. ?A tmp"], rule io_triple_onerr, rule io_triple_wrap, rule call, rule ecall)
    by (rule io_triple_wrap, rule call)
  have rm: "io_triple (af_some N G path T x tmp) (os_Remove tmp) (\<lambda>_. af_inv N G path T x) (af_inv N G path T x)" for G T x tmp
    by (rule triple_Remove [where P' = "af_some N G path T x tmp"])
      (auto simp: af_some_def intro: af_inv_other steps_keepD [OF af_inv_keep])
  have tmp: "io_triple (af_inv N F path S ex) (os_CreateTemp dir ''.tw-write-'')
      (\<lambda>tmp. af_temp N F path S ex tmp []) (af_inv N F path (insert bs S) ex)" if "dir = filepath_Dir path" for dir
    unfolding os_CreateTemp_def
  proof (rule io_triple_weaken [OF triple_create_temp [OF af_inv_keep [of N F path S ex]]])
    fix s n
    assume s: "af_inv N F path S ex s" and n: "nodes s (temp_name dir ''.tw-write-'' n) = None"
    from s n have "temp_name dir ''.tw-write-'' n \<notin> fst ` F" by (auto simp: af_inv_def)
    moreover have "temp_name dir ''.tw-write-'' n \<noteq> path"
      using pt that by (simp add: proper_target_def)
    moreover have "temp_name dir ''.tw-write-'' n \<notin> N" using N that by simp
    ultimately show "af_temp N F path S ex (temp_name dir ''.tw-write-'' n)
        [] (s\<lparr>nodes := (nodes s)(temp_name dir ''.tw-write-'' n \<mapsto> Regular [])\<rparr>)"
      using s by (simp add: af_temp_def af_inv_other)
  qed (auto intro: loose)
  have mk: "io_triple (af_inv N F path S ex) (os_MkdirAll p) (\<lambda>_. af_inv N F path S ex) (af_inv N F path (insert bs S) ex)" for p
    by (rule io_triple_weaken [OF triple_MkdirAll [OF af_inv_keep [of N F path S ex] af_inv_directory]]) (auto intro: loose)
  show ?thesis
    unfolding atomic_Write_def Let_def
    by (rule io_triple_if, rule io_triple_err, rule loose, assumption)+
      (rule io_triple_bind, rule io_triple_wrap, rule mk, rule io_triple_bind, rule io_triple_wrap,
        rule tmp, rule refl, rule io_triple_defer, rule body, rule rm, rule rm)
qed

section \<open>Properties\<close>

text \<open>
  C2: a write through a temporary file is atomic. Whatever call fails and wherever the process
  is killed, the destination holds its old content or all of the new one, it exists if it
  existed, no other file is changed, and when the operation returns without an error the
  destination holds the new content.
\<close>

theorem atomic_Write_untorn:
  assumes "quiet s" and "proper_target path" and "q \<noteq> path" and "nodes s q = Some (Regular c)"
    and run: "atomic_Write path bs maxBytes s = (r, s1)"
  shows "(\<forall>b. nodes s1 path = Some (Regular b) \<longrightarrow> b = bs \<or> nodes s path = Some (Regular b)) \<and>
    ((\<exists>b. nodes s path = Some (Regular b)) \<longrightarrow> (\<exists>b. nodes s1 path = Some (Regular b))) \<and>
    nodes s1 q = Some (Regular c) \<and>
    (isOK r \<longrightarrow> nodes s1 path = Some (Regular bs))"
proof -
  let ?S = "{b. nodes s path = Some (Regular b)}" and ?ex = "\<exists>b. nodes s path = Some (Regular b)"
  have i: "af_inv {} {(q, c)} path ?S ?ex s" using assms(1,4) by (simp add: af_inv_def)
  have t: "io_triple (af_inv {} {(q, c)} path ?S ?ex) (atomic_Write path bs maxBytes)
      (\<lambda>_. af_inv {} (insert (path, bs) {(q, c)}) path {bs} True) (af_inv {} {(q, c)} path (insert bs ?S) ?ex)"
    by (rule atomic_Write_triple [OF assms(2)]) (use assms(3) in auto)
  show ?thesis
  proof (cases r)
    case (Inl e)
    with io_tripleD(1) [OF t _ i] run have a: "af_inv {} {(q, c)} path (insert bs ?S) ?ex s1" by simp
    then have "\<forall>b. nodes s1 path = Some (Regular b) \<longrightarrow> b \<in> insert bs ?S"
      "?ex \<longrightarrow> (\<exists>b. nodes s1 path = Some (Regular b))" "nodes s1 q = Some (Regular c)"
      unfolding af_inv_def by simp_all
    with Inl show ?thesis by simp
  next
    case (Inr u)
    with io_tripleD(2) [OF t _ i] run have a: "af_inv {} (insert (path, bs) {(q, c)}) path {bs} True s1" by simp
    then have "\<forall>f \<in> {(path, bs), (q, c)}. nodes s1 (fst f) = Some (Regular (snd f))"
      unfolding af_inv_def by blast
    then have "nodes s1 path = Some (Regular bs)" "nodes s1 q = Some (Regular c)" by simp_all
    with Inr show ?thesis by simp
  qed
qed

definition two_files :: "outcome list \<Rightarrow> os" where
  "two_files outs = \<lparr>nodes = [''/d'' \<mapsto> Directory, ''/d/f'' \<mapsto> Regular [1], ''/d/g'' \<mapsto> Regular [2]],
     plan = map (\<lambda>out. ([], out)) outs, crashed = False\<rparr>"

lemma two_files_target: "proper_target ''/d/f''"
proof -
  have "length (temp_name dir ''.tw-write-'' n) \<noteq> length ''/d/f''" for dir n by (simp add: temp_name_def)
  then show ?thesis unfolding proper_target_def by metis
qed

theorem atomic_Write_untorn_witness:
  "let s = two_files [Done 0, Done 7, Done 0, Crash 1];
       s1 = snd (atomic_Write ''/d/f'' [5, 6] 10 s)
   in quiet s \<and> nodes s1 ''/d/f'' = Some (Regular [1]) \<and> nodes s1 ''/d/g'' = Some (Regular [2])"
proof -
  let ?s = "two_files [Done 0, Done 7, Done 0, Crash 1]"
  let ?s1 = "snd (atomic_Write ''/d/f'' [5, 6] 10 ?s)"
  have q: "quiet ?s" by (simp add: quiet_def two_files_def)
  have g: "nodes ?s ''/d/g'' = Some (Regular [2])" by (simp add: two_files_def)
  have "nodes ?s1 ''/d/f'' = Some (Regular [1])" by code_simp
  with q atomic_Write_untorn [OF q two_files_target _ g surjective_pairing, of "[5, 6]" 10] show ?thesis
    by (simp add: Let_def)
qed

end
