(* ===== verification/Proof_Bundle.thy ===== *)
theory Proof_Bundle
  imports E2_Result Atomic_File "HOL-Library.Multiset"
begin

text \<open>
  \<open>internal/proofbundle\<close>: publishing a set of artifacts with a manifest written last, and
  verifying such a directory. The manifest is a document; \<open>Write\<close> and \<open>Verify\<close> run on
  the file system under its plan of faults and crashes.
\<close>

section \<open>Data\<close>

definition ManifestVersion :: string where "ManifestVersion = ''tw.bundle-manifest/0.1''"
definition ManifestName :: string where "ManifestName = ''manifest.cbor''"
definition MaxArtifacts :: nat where "MaxArtifacts = 32"
definition MaxArtifactBytes :: nat where "MaxArtifactBytes = 4194304"
definition MaxManifestBytes :: nat where "MaxManifestBytes = 65536"

lemmas bundle_limits [simp] = MaxArtifacts_def MaxArtifactBytes_def MaxManifestBytes_def

definition RequiredArtifacts :: "string list" where
  "RequiredArtifacts =
     [''adapter.cbor'', ''contract.cbor'', ''input.cbor'', ''observation.cbor'',
      ''representation.body'', ''result.cbor'', ''semantic-closure.cbor'', ''transcript.json'',
      ''transport.cbor'']"

record entry =
  en_Name :: string
  en_Digest :: "byte list"
  en_Size :: uint64

record manifest =
  mf_Version :: string
  mf_ResultID :: string
  mf_Entries :: "entry list"

record publication =
  pub_ResultID :: string
  pub_ResultDigest :: string
  pub_BundleID :: string
  pub_Directory :: string

section \<open>Manifest\<close>

definition validName :: "string \<Rightarrow> bool" where
  "validName name \<longleftrightarrow> name \<noteq> [] \<and> name = filepath_Base name \<and>
     list_all (\<lambda>c. c \<noteq> CHR 0x5C \<and> c \<noteq> CHR ''/'' \<and> c \<noteq> CHR 0x00) name"

definition containsEntry :: "entry list \<Rightarrow> string \<Rightarrow> bool" where
  "containsEntry entries name = list_ex (\<lambda>e. en_Name e = name) entries"

text \<open>The loop over the entries: \<open>previous\<close> and \<open>foundResult\<close> are its variables.\<close>

fun validate_entries :: "byte list \<Rightarrow> string \<Rightarrow> bool \<Rightarrow> entry list \<Rightarrow> error + bool" where
  "validate_entries resultDigest previous foundResult [] = Inr foundResult"
| "validate_entries resultDigest previous foundResult (e # es) =
     (if \<not> validName (en_Name e) \<or> en_Name e \<le> previous
      then Inl (Msg ''entries must have unique sorted safe names'')
      else if en_Size e = 0 \<or> en_Size e > word_of_nat MaxArtifactBytes
      then Inl (Msg ''artifact is empty or exceeds size limit'')
      else if en_Name e = ManifestName then Inl (Msg ''manifest cannot list itself'')
      else if en_Name e = ''result.cbor'' \<and> en_Digest e \<noteq> resultDigest
      then Inl (Msg ''result ID does not match result entry'')
      else validate_entries resultDigest (en_Name e)
             (foundResult \<or> en_Name e = ''result.cbor'') es)"

definition Manifest_validate :: "manifest \<Rightarrow> error option" where
  "Manifest_validate m =
     (if mf_Version m \<noteq> ManifestVersion then Some (Msg ''unsupported manifest version'')
      else case ParseDigestReference (mf_ResultID m) of
        Inl e \<Rightarrow> Some (Wrap ''result ID'' e)
      | Inr resultDigest \<Rightarrow>
          if mf_Entries m = [] \<or> length (mf_Entries m) > MaxArtifacts
          then Some (Msg ''invalid entry count'')
          else case validate_entries resultDigest [] False (mf_Entries m) of
            Inl e \<Rightarrow> Some e
          | Inr foundResult \<Rightarrow> first_err [
              fail_if (\<not> foundResult) (Msg ''result.cbor is required''),
              first_err (map (\<lambda>required. fail_if (\<not> containsEntry (mf_Entries m) required)
                (Msg ''missing required artifact'')) RequiredArtifacts)])"

definition entry_calls :: "entry \<Rightarrow> enc_call list" where
  "entry_calls e = [CArray 3, CText (en_Name e), CBytes (en_Digest e), CUint (en_Size e)]"

definition manifest_calls :: "manifest \<Rightarrow> enc_call list" where
  "manifest_calls m =
     [CArray 3, CText (mf_Version m), CText (mf_ResultID m)] @ enc_counted entry_calls (mf_Entries m)"

definition MarshalManifest :: "manifest \<Rightarrow> error + byte list" where
  "MarshalManifest m = after (Manifest_validate m)
     (let encoded = emit (manifest_calls m) in
      if length encoded > MaxManifestBytes then Inl (Msg ''manifest exceeds limit'')
      else Inr encoded)"

definition dec_entry :: "entry parser" where
  "dec_entry =
     dbind (expect_Array 3 (Msg ''invalid entry array'')) (\<lambda>_.
     dbind (dec_Text 255) (\<lambda>name.
     dbind (dec_digest_or (Msg ''invalid entry digest'')) (\<lambda>digest.
     dbind dec_Uint (\<lambda>size.
     dret \<lparr>en_Name = name, en_Digest = digest, en_Size = size\<rparr>))))"

definition dec_manifest :: "manifest parser" where
  "dec_manifest =
     dbind (expect_Array 3 (Msg ''invalid manifest array'')) (\<lambda>_.
     dbind (dec_Text 128) (\<lambda>version.
     dbind (dec_Text 128) (\<lambda>resultID.
     dbind (dec_counted 1 (word_of_nat MaxArtifacts) (Msg ''invalid entry count'') dec_entry) (\<lambda>entries.
     dbind (dec_finish (Msg ''trailing manifest bytes'')) (\<lambda>_.
     dret \<lparr>mf_Version = version, mf_ResultID = resultID, mf_Entries = entries\<rparr>)))))"

definition UnmarshalManifest :: "byte list \<Rightarrow> error + manifest" where
  "UnmarshalManifest bs =
     (if bs = [] \<or> length bs > MaxManifestBytes then Inl (Msg ''invalid manifest size'')
      else ebind (run_document dec_manifest bs) (\<lambda>m. after (Manifest_validate m) (Inr m)))"

section \<open>Write and Verify\<close>

definition artifact_path :: "string \<Rightarrow> string \<Rightarrow> string" where
  "artifact_path dir name = filepath_Join [dir, name]"

definition bundle_entry :: "string \<Rightarrow> byte list \<Rightarrow> entry" where
  "bundle_entry name bs = \<lparr>en_Name = name, en_Digest = sha256 bs, en_Size = word_of_nat (length bs)\<rparr>"

text \<open>The loop of \<open>Write\<close> over the sorted names of the artifact map.\<close>

fun write_artifacts :: "string \<Rightarrow> (string \<times> byte list) list \<Rightarrow> entry list io" where
  "write_artifacts dir [] = io_ret []"
| "write_artifacts dir ((name, bs) # rest) =
     (if \<not> validName name \<or> bs = [] \<or> length bs > MaxArtifactBytes
      then io_err (Msg ''invalid artifact'')
      else io_bind (atomic_Write (artifact_path dir name) bs (int MaxArtifactBytes)) (\<lambda>_.
           io_bind (write_artifacts dir rest) (\<lambda>entries.
           io_ret (bundle_entry name bs # entries))))"

text \<open>
  \<open>artifacts\<close> is the map as the list of its items; \<open>sort_key fst\<close> is the order
  \<open>sort.Strings\<close> gives the names.
\<close>

definition write_body :: "string \<Rightarrow> (string \<times> byte list) list \<Rightarrow> publication io" where
  "write_body dir artifacts =
     io_bind (write_artifacts dir (sort_key fst artifacts)) (\<lambda>entries.
     let resultDigest = sha256 (the (map_of artifacts ''result.cbor''));
         manifest = \<lparr>mf_Version = ManifestVersion, mf_ResultID = DigestReference resultDigest,
                     mf_Entries = entries\<rparr>
     in case MarshalManifest manifest of
          Inl e \<Rightarrow> io_err e
        | Inr manifestBytes \<Rightarrow>
            io_bind (atomic_Write (artifact_path dir ManifestName) manifestBytes (int MaxManifestBytes)) (\<lambda>_.
            io_ret \<lparr>pub_ResultID = mf_ResultID manifest, pub_ResultDigest = DigestReference resultDigest,
                    pub_BundleID = DigestReference (sha256 manifestBytes), pub_Directory = dir\<rparr>))"

definition bundle_Write :: "string \<Rightarrow> (string \<times> byte list) list \<Rightarrow> publication io" where
  "bundle_Write dir artifacts =
     (if artifacts = [] \<or> length artifacts > MaxArtifacts
      then io_err (Msg ''invalid artifact count'')
      else if map_of artifacts ManifestName \<noteq> None
      then io_err (Msg ''caller cannot provide manifest'')
      else if list_ex (\<lambda>required. map_of artifacts required = None) RequiredArtifacts
      then io_err (Msg ''missing required artifact'')
      else io_bind (io_wrap ''create new directory'' (os_Mkdir dir)) (\<lambda>_.
           io_onerr (os_RemoveAll dir) (write_body dir artifacts)))"

definition readRegular :: "string \<Rightarrow> nat \<Rightarrow> byte list io" where
  "readRegular path maximum =
     io_bind (os_Lstat path) (\<lambda>info. case info of
        Regular b \<Rightarrow>
          if length b = 0 \<or> length b > maximum
          then io_err (Msg ''artifact is not a bounded regular file'')
          else os_ReadFile path
      | _ \<Rightarrow> io_err (Msg ''artifact is not a bounded regular file''))"

fun verify_entries :: "string \<Rightarrow> entry list \<Rightarrow> unit io" where
  "verify_entries dir [] = io_ret ()"
| "verify_entries dir (e # es) =
     io_bind (io_wrap ''read'' (readRegular (artifact_path dir (en_Name e)) MaxArtifactBytes)) (\<lambda>bs.
     if word_of_nat (length bs) \<noteq> en_Size e \<or> sha256 bs \<noteq> en_Digest e
     then io_err (Msg ''size or digest mismatch'')
     else verify_entries dir es)"

definition bundle_Verify :: "string \<Rightarrow> publication io" where
  "bundle_Verify dir =
     io_bind (io_wrap ''final manifest unavailable''
       (readRegular (artifact_path dir ManifestName) MaxManifestBytes)) (\<lambda>manifestBytes.
     case UnmarshalManifest manifestBytes of
       Inl e \<Rightarrow> io_err e
     | Inr manifest \<Rightarrow>
         io_bind (verify_entries dir (mf_Entries manifest)) (\<lambda>_.
         io_bind (readRegular (artifact_path dir ''result.cbor'') MaxArtifactBytes) (\<lambda>resultData.
         case UnmarshalResult resultData of
           Inl e \<Rightarrow> io_err (Wrap ''result validation'' e)
         | Inr _ \<Rightarrow>
             io_ret \<lparr>pub_ResultID = mf_ResultID manifest,
                     pub_ResultDigest = DigestReference (sha256 resultData),
                     pub_BundleID = DigestReference (sha256 manifestBytes), pub_Directory = dir\<rparr>)))"

section \<open>The manifest is a document\<close>

definition entry_fits :: "entry \<Rightarrow> bool" where
  "entry_fits e \<longleftrightarrow> text_ok 255 (en_Name e) \<and> digest32 (en_Digest e)"

definition manifest_wf :: "manifest \<Rightarrow> bool" where
  "manifest_wf m \<longleftrightarrow> list_all entry_fits (mf_Entries m)"

interpretation mf_entry: codec entry_calls dec_entry entry_fits
proof
  show "dec_entry (dec_at pre (emit (entry_calls x) @ r)) =
      Inr (x, dec_at (pre @ emit (entry_calls x)) r)" if "entry_fits x" for x pre r
    using that
    by (simp add: dec_entry_def entry_calls_def entry_fits_def emit_simps decode_simps
        digest_complete [unfolded enc_digest_def])
  show "dec_sound dec_entry (\<lambda>x c. entry_fits x \<and> c = emit (entry_calls x))"
    unfolding dec_entry_def
    apply (rule dec_sound_bind, rule sound_intros)+
    apply (rule dec_sound_ret)
    apply (simp add: entry_calls_def entry_fits_def emit_simps enc_digest_def)
    done
qed

interpretation mf_entries: codec "enc_counted entry_calls"
    "dec_counted 1 32 (Msg ''invalid entry count'') dec_entry"
    "\<lambda>xs. list_all entry_fits xs \<and> unat (1::uint64) \<le> length xs \<and> length xs \<le> unat (32::uint64)"
  by (rule mf_entry.counted_codec)

lemmas manifest_complete [decode_simps] = mf_entries.complete mf_entries.complete_last

lemmas manifest_sound [sound_intros] = mf_entries.sound

lemma is_ascii_sha: "is_ascii ''sha256:''"
  by (simp add: is_ascii_def)

lemma Manifest_validate_fits:
  assumes "Manifest_validate m = None"
  shows "text_ok 128 (mf_Version m)" "text_ok 128 (mf_ResultID m)"
    "mf_Entries m \<noteq> []" "length (mf_Entries m) \<le> 32"
proof -
  show "text_ok 128 (mf_Version m)" "mf_Entries m \<noteq> []" "length (mf_Entries m) \<le> 32"
    using assms by (auto simp: Manifest_validate_def text_ok_def ManifestVersion_def
        split: if_splits sum.splits)
  from assms obtain d where "ParseDigestReference (mf_ResultID m) = Inr d"
    by (auto simp: Manifest_validate_def split: if_splits sum.splits)
  then have len: "length (mf_ResultID m) = 71" and pre: "take 7 (mf_ResultID m) = ''sha256:''"
    and asc: "is_ascii (drop 7 (mf_ResultID m))"
    by (auto simp: ParseDigestReference_def hex_decode_ascii split: if_splits option.splits)
  have "mf_ResultID m = ''sha256:'' @ drop 7 (mf_ResultID m)"
    by (metis append_take_drop_id pre)
  then have "utf8_valid_string (mf_ResultID m)"
    using utf8_valid_string_ascii [OF asc] by (metis utf8_valid_string_append_ascii is_ascii_sha)
  with len show "text_ok 128 (mf_ResultID m)" by (simp add: text_ok_def)
qed

lemma dec_manifest_sound:
  "dec_sound dec_manifest (\<lambda>m c. manifest_wf m \<and> c = emit (manifest_calls m))"
  unfolding dec_manifest_def bundle_limits of_nat_numeral
  apply (rule dec_sound_bind, rule sound_intros)+
  apply (rule dec_sound_bind, rule dec_sound_finish, rule dec_sound_ret)
  apply (simp add: manifest_calls_def manifest_wf_def emit_simps)
  done

lemma dec_manifest_ends: "ends_input dec_manifest"
  unfolding dec_manifest_def bundle_limits of_nat_numeral
  by (rule ends_input_bind, rule sound_intros)+ (rule ends_input_finish)

lemma dec_manifest_complete:
  assumes "Manifest_validate m = None" "manifest_wf m"
  shows "dec_manifest (dec_at pre (emit (manifest_calls m))) =
         Inr (m, dec_at (pre @ emit (manifest_calls m)) [])"
proof -
  have "Suc 0 \<le> length (mf_Entries m)"
    using Manifest_validate_fits(3) [OF assms(1)] by (cases "mf_Entries m") auto
  with assms(2) Manifest_validate_fits [OF assms(1)] show ?thesis
    by (simp add: dec_manifest_def manifest_calls_def manifest_wf_def emit_simps decode_simps)
qed

interpretation manifest_doc: document MarshalManifest UnmarshalManifest manifest_wf
proof
  show "UnmarshalManifest b = Inr m" if "manifest_wf m" "MarshalManifest m = Inr b" for m b
  proof -
    from that have v: "Manifest_validate m = None" and b: "b = emit (manifest_calls m)"
      and l: "length b \<le> MaxManifestBytes"
      by (auto simp: MarshalManifest_def after_Inr Let_def split: if_splits)
    have "run_document dec_manifest b = Inr m"
      unfolding run_document_Inr b using dec_manifest_complete [OF v that(1)] by (rule exI)
    moreover have "b \<noteq> []"
      unfolding b by (rule emit_nonempty) (simp_all add: manifest_calls_def)
    ultimately show ?thesis using v l by (simp add: UnmarshalManifest_def)
  qed
  show "MarshalManifest m = Inr b" "manifest_wf m" if "UnmarshalManifest b = Inr m" for m b
  proof -
    from that have v: "Manifest_validate m = None" and r: "run_document dec_manifest b = Inr m"
      and l: "length b \<le> MaxManifestBytes"
      by (auto simp: UnmarshalManifest_def ebind_eq_Inr after_Inr split: if_splits)
    from run_document_sound [OF dec_manifest_sound dec_manifest_ends r] v l
    show "MarshalManifest m = Inr b" "manifest_wf m"
      by (simp_all add: MarshalManifest_def)
  qed
qed

text \<open>A marshalled manifest is read back exactly when its names are short, valid UTF-8.\<close>

lemma entries_calls_inject: "concat (map entry_calls xs) = concat (map entry_calls ys) \<Longrightarrow> xs = ys"
proof (induction xs arbitrary: ys)
  case Nil
  then show ?case by (cases ys) (simp_all add: entry_calls_def)
next
  case (Cons x xs)
  then show ?case by (cases ys) (auto simp: entry_calls_def)
qed

lemma manifest_calls_inject: "manifest_calls m = manifest_calls m' \<Longrightarrow> m = m'"
  by (auto simp: manifest_calls_def enc_counted_def dest: entries_calls_inject)

lemma MarshalManifest_accepted:
  assumes "MarshalManifest m = Inr b"
  shows "isOK (UnmarshalManifest b) \<longleftrightarrow> manifest_wf m"
proof
  assume "manifest_wf m"
  from manifest_doc.marshal_unmarshal [OF this assms] show "isOK (UnmarshalManifest b)" by simp
next
  assume "isOK (UnmarshalManifest b)"
  then obtain m' where u: "UnmarshalManifest b = Inr m'" by (auto simp: isOK_iff)
  from assms have b: "b = emit (manifest_calls m)" "length b \<le> 65536"
    by (auto simp: MarshalManifest_def after_Inr Let_def split: if_splits)
  from manifest_doc.unmarshal_marshal [OF u] have "b = emit (manifest_calls m')"
    by (auto simp: MarshalManifest_def after_Inr Let_def split: if_splits)
  with b have "manifest_calls m' = manifest_calls m" by (intro emit_calls_inject) simp_all
  with manifest_doc.unmarshal_wf [OF u] show "manifest_wf m" by (metis manifest_calls_inject)
qed

section \<open>Names and paths of artifacts\<close>

definition clean_dir :: "string \<Rightarrow> bool" where
  "clean_dir dir \<longleftrightarrow> dir \<noteq> [] \<and> filepath_Clean dir = dir \<and> dir \<noteq> ''.'' \<and> dir \<noteq> ''/''"

text \<open>A name that is neither a directory reference nor one the temporary files use.\<close>

definition plain_name :: "string \<Rightarrow> bool" where
  "plain_name name \<longleftrightarrow> CHR ''/'' \<notin> set name \<and> name \<noteq> [] \<and> name \<noteq> ''.'' \<and> name \<noteq> ''..'' \<and>
     take 10 name \<noteq> ''.tw-write-''"

lemma artifact_path_eq: "clean_dir dir \<Longrightarrow> plain_name name \<Longrightarrow> artifact_path dir name = dir @ CHR ''/'' # name"
  using filepath_Clean_snoc [of name dir]
  by (simp add: clean_dir_def plain_name_def artifact_path_def filepath_Join_def)

lemma plain_base: "plain_name name \<Longrightarrow> filepath_Base (dir @ CHR ''/'' # name) = name"
  using filepath_Base_last [of name "dir @ ''/''"] by (simp add: plain_name_def)

lemma artifact_not_temp:
  assumes "clean_dir dir" "plain_name name"
  shows "temp_name d ''.tw-write-'' n \<noteq> artifact_path dir name"
proof
  assume e: "temp_name d ''.tw-write-'' n = artifact_path dir name"
  have "filepath_Base (temp_name d ''.tw-write-'' n) = ''.tw-write-'' @ digits_of 20 n"
    by (rule temp_name_base) auto
  moreover have "filepath_Base (artifact_path dir name) = name"
    using assms by (simp add: artifact_path_eq plain_base)
  ultimately have "name = ''.tw-write-'' @ digits_of 20 n" using e by simp
  then have "take 10 name = ''.tw-write-''" by simp
  with assms(2) show False by (simp add: plain_name_def)
qed

lemma artifact_path_inject:
  "clean_dir dir \<Longrightarrow> plain_name a \<Longrightarrow> plain_name b \<Longrightarrow> artifact_path dir a = artifact_path dir b \<longleftrightarrow> a = b"
  by (simp add: artifact_path_eq)

lemma plain_manifest: "plain_name ManifestName"
  by (simp add: plain_name_def ManifestName_def)

section \<open>The manifest is written last\<close>

definition artifact_files :: "string \<Rightarrow> (string \<times> byte list) list \<Rightarrow> (string \<times> byte list) set" where
  "artifact_files dir items = set (map (\<lambda>(name, bs). (artifact_path dir name, bs)) items)"

definition in_place :: "string set \<Rightarrow> (string \<times> byte list) set \<Rightarrow> os \<Rightarrow> bool" where
  "in_place N F s \<longleftrightarrow> quiet s \<and> (\<forall>f \<in> F. nodes s (fst f) = Some (Regular (snd f))) \<and>
     (\<forall>p \<in> N. \<forall>b. nodes s p \<noteq> Some (Regular b))"

lemma in_place_af: "in_place N F s \<longleftrightarrow> af_inv N F p UNIV False s"
  by (auto simp: in_place_def af_inv_def)

lemma in_place_Write:
  assumes "clean_dir dir" "plain_name name" "artifact_path dir name \<notin> fst ` F"
    "artifact_path dir name \<notin> N" "\<And>d n. temp_name d ''.tw-write-'' n \<notin> N"
  shows "io_triple (in_place N F) (atomic_Write (artifact_path dir name) bs k)
     (\<lambda>_. in_place N (insert (artifact_path dir name, bs) F)) (in_place N F)"
proof -
  let ?p = "artifact_path dir name"
  have pt: "proper_target ?p"
    using artifact_not_temp [OF assms(1,2)] by (simp add: proper_target_def)
  have t: "io_triple (af_inv N F ?p UNIV False) (atomic_Write ?p bs k)
     (\<lambda>_. af_inv N (insert (?p, bs) F) ?p {bs} True) (af_inv N F ?p (insert bs UNIV) False)"
    by (rule atomic_Write_triple [OF pt assms(3,4)]) (rule assms(5))
  show ?thesis
  proof (rule io_triple_weaken [OF t])
    show "in_place N F s \<Longrightarrow> af_inv N F ?p UNIV False s" for s
      unfolding in_place_def af_inv_def by (elim conjE, intro conjI ballI allI impI) auto
    show "af_inv N (insert (?p, bs) F) ?p {bs} True s \<Longrightarrow> in_place N (insert (?p, bs) F) s" for s
      unfolding in_place_def af_inv_def by (elim conjE, intro conjI ballI allI impI) auto
    show "af_inv N F ?p (insert bs UNIV) False s \<Longrightarrow> in_place N F s" for s
      unfolding in_place_def af_inv_def by (elim conjE, intro conjI ballI allI impI) auto
  qed
qed

definition proper_sizes :: "(string \<times> byte list) list \<Rightarrow> bool" where
  "proper_sizes = list_all (\<lambda>a. snd a \<noteq> [] \<and> length (snd a) \<le> MaxArtifactBytes)"

lemma write_artifacts_triple:
  assumes "clean_dir dir" "\<forall>i \<in> set items. plain_name (fst i)" "distinct (map fst items)"
    "\<forall>i \<in> set items. artifact_path dir (fst i) \<notin> fst ` F \<union> N" "\<And>d n. temp_name d ''.tw-write-'' n \<notin> N"
  shows "io_triple (in_place N F) (write_artifacts dir items)
     (\<lambda>es s. es = map (\<lambda>(name, bs). bundle_entry name bs) items \<and> proper_sizes items \<and>
       in_place N (artifact_files dir items \<union> F) s) (in_place N {})"
  using assms(2-4)
proof (induction items arbitrary: F)
  case Nil
  show ?case by (auto intro!: io_triple_ret simp: artifact_files_def proper_sizes_def)
next
  case (Cons i items)
  obtain name bs where i: "i = (name, bs)" by (cases i)
  let ?p = "artifact_path dir name"
  have p: "plain_name name" "?p \<notin> fst ` F" "?p \<notin> N" using Cons.prems by (auto simp: i)
  have "artifact_path dir (fst j) \<noteq> ?p" if "j \<in> set items" for j
    using Cons.prems that assms(1) p(1) by (force simp: i artifact_path_inject)
  then have rest: "io_triple (in_place N (insert (?p, bs) F)) (write_artifacts dir items)
     (\<lambda>es s. es = map (\<lambda>(name, bs). bundle_entry name bs) items \<and> proper_sizes items \<and>
       in_place N (artifact_files dir items \<union> insert (?p, bs) F) s) (in_place N {})"
    using Cons.prems by (intro Cons.IH) auto
  show ?case
    unfolding i write_artifacts.simps
    apply (rule io_triple_if)
     apply (rule io_triple_err, simp add: in_place_def)
    apply (rule io_triple_bind [where R = "\<lambda>_. in_place N (insert (?p, bs) F)"])
     apply (rule io_triple_weaken [OF in_place_Write [OF assms(1) p(1-3) assms(5)]])
       apply (simp_all add: in_place_def [of _ F] in_place_def [of _ "{}"])[3]
    apply (rule io_triple_bind, rule rest)
    apply (rule io_triple_ret)
    apply (simp add: artifact_files_def proper_sizes_def)
    done
qed

definition bundle_manifest :: "(string \<times> byte list) list \<Rightarrow> manifest" where
  "bundle_manifest artifacts =
     \<lparr>mf_Version = ManifestVersion,
      mf_ResultID = DigestReference (sha256 (the (map_of artifacts ''result.cbor''))),
      mf_Entries = map (\<lambda>(name, bs). bundle_entry name bs) (sort_key fst artifacts)\<rparr>"

text \<open>A manifest that is there is the bundle's, and every artifact is there.\<close>

definition manifest_last :: "string \<Rightarrow> (string \<times> byte list) list \<Rightarrow> os \<Rightarrow> bool" where
  "manifest_last dir artifacts s \<longleftrightarrow>
     (\<forall>b. nodes s (artifact_path dir ManifestName) = Some (Regular b) \<longrightarrow>
        MarshalManifest (bundle_manifest artifacts) = Inr b \<and>
        (\<forall>a \<in> set artifacts. nodes s (artifact_path dir (fst a)) = Some (Regular (snd a))))"

definition proper_artifacts :: "(string \<times> byte list) list \<Rightarrow> bool" where
  "proper_artifacts artifacts \<longleftrightarrow>
     list_all (\<lambda>a. plain_name (fst a)) artifacts \<and> distinct (map fst artifacts)"

lemma sorted_artifacts:
  "proper_artifacts artifacts \<Longrightarrow> distinct (map fst (sort_key fst artifacts))"
  by (simp add: proper_artifacts_def)
    (metis mset_eq_imp_distinct_iff mset_map mset_sort)

lemma artifact_files_sort: "artifact_files dir (sort_key fst items) = artifact_files dir items"
  by (simp add: artifact_files_def)

lemma manifest_path_not_temp:
  "clean_dir dir \<Longrightarrow> temp_name d ''.tw-write-'' n \<notin> {artifact_path dir ManifestName}"
  using artifact_not_temp [OF _ plain_manifest] by simp

lemma manifest_path_fresh:
  assumes "clean_dir dir" "proper_artifacts artifacts" "map_of artifacts ManifestName = None"
  shows "i \<in> set artifacts \<Longrightarrow> artifact_path dir (fst i) \<noteq> artifact_path dir ManifestName"
    and "artifact_path dir ManifestName \<notin> fst ` artifact_files dir artifacts"
proof -
  show *: "artifact_path dir (fst i) \<noteq> artifact_path dir ManifestName" if "i \<in> set artifacts" for i
  proof -
    have "plain_name (fst i)" using assms(2) that by (simp add: proper_artifacts_def list_all_iff)
    moreover have "fst i \<noteq> ManifestName"
      using assms(3) that by (metis image_eqI map_of_eq_None_iff)
    ultimately show ?thesis using assms(1) by (simp add: artifact_path_inject plain_manifest)
  qed
  then show "artifact_path dir ManifestName \<notin> fst ` artifact_files dir artifacts"
    by (auto simp: artifact_files_def image_iff) (metis fst_conv)
qed

lemma in_place_manifest_last:
  "in_place {artifact_path dir ManifestName} F s \<Longrightarrow> quiet s \<and> manifest_last dir artifacts s"
  by (simp add: in_place_def manifest_last_def)

lemma write_manifest_triple:
  assumes "clean_dir dir" "proper_artifacts artifacts" "map_of artifacts ManifestName = None"
    and m: "MarshalManifest (bundle_manifest artifacts) = Inr mb"
  shows "io_triple (in_place {artifact_path dir ManifestName} (artifact_files dir artifacts))
     (atomic_Write (artifact_path dir ManifestName) mb k)
     (\<lambda>_. in_place {} (insert (artifact_path dir ManifestName, mb) (artifact_files dir artifacts)))
     (\<lambda>s. quiet s \<and> manifest_last dir artifacts s)"
proof (rule io_triple_weaken)
  let ?m = "artifact_path dir ManifestName" and ?F = "artifact_files dir artifacts"
  show "io_triple (af_inv {} ?F ?m {} False) (atomic_Write ?m mb k)
      (\<lambda>_. af_inv {} (insert (?m, mb) ?F) ?m {mb} True) (af_inv {} ?F ?m {mb} False)"
    by (rule atomic_Write_triple [OF _ manifest_path_fresh(2) [OF assms(1-3)]])
      (use artifact_not_temp [OF assms(1) plain_manifest] in \<open>auto simp: proper_target_def\<close>)
  show "in_place {?m} ?F s \<Longrightarrow> af_inv {} ?F ?m {} False s" for s
    by (simp add: in_place_def af_inv_def)
  show "af_inv {} (insert (?m, mb) ?F) ?m {mb} True s \<Longrightarrow> in_place {} (insert (?m, mb) ?F) s" for s
    unfolding in_place_def af_inv_def by blast
  show "af_inv {} ?F ?m {mb} False s \<Longrightarrow> quiet s \<and> manifest_last dir artifacts s" for s
    using m by (auto simp: af_inv_def manifest_last_def artifact_files_def)
qed

lemma write_artifacts_sorted:
  assumes "clean_dir dir" "proper_artifacts artifacts" "map_of artifacts ManifestName = None"
  shows "io_triple (in_place {artifact_path dir ManifestName} {}) (write_artifacts dir (sort_key fst artifacts))
     (\<lambda>es s. es = mf_Entries (bundle_manifest artifacts) \<and> proper_sizes artifacts \<and>
        in_place {artifact_path dir ManifestName} (artifact_files dir artifacts) s)
     (\<lambda>s. quiet s \<and> manifest_last dir artifacts s)"
proof (rule io_triple_weaken)
  let ?m = "artifact_path dir ManifestName"
  show "io_triple (in_place {?m} {}) (write_artifacts dir (sort_key fst artifacts))
     (\<lambda>es s. es = map (\<lambda>(name, bs). bundle_entry name bs) (sort_key fst artifacts) \<and>
       proper_sizes (sort_key fst artifacts) \<and> in_place {?m} (artifact_files dir (sort_key fst artifacts) \<union> {}) s) (in_place {?m} {})"
    using assms(2) manifest_path_fresh(1) [OF assms]
    by (intro write_artifacts_triple [OF assms(1) _ sorted_artifacts [OF assms(2)] _
          manifest_path_not_temp [OF assms(1)]])
      (auto simp: proper_artifacts_def list_all_iff)
qed (auto simp: bundle_manifest_def artifact_files_sort proper_sizes_def list_all_iff
      dest: in_place_manifest_last)

text \<open>What \<open>Write\<close> returns and what is on disk then.\<close>

definition published :: "string \<Rightarrow> (string \<times> byte list) list \<Rightarrow> publication \<Rightarrow> os \<Rightarrow> bool" where
  "published dir artifacts pub s \<longleftrightarrow> proper_sizes artifacts \<and> (\<exists>mb. MarshalManifest (bundle_manifest artifacts) = Inr mb \<and>
     in_place {} (insert (artifact_path dir ManifestName, mb) (artifact_files dir artifacts)) s \<and>
     pub = \<lparr>pub_ResultID = mf_ResultID (bundle_manifest artifacts),
            pub_ResultDigest = mf_ResultID (bundle_manifest artifacts),
            pub_BundleID = DigestReference (sha256 mb), pub_Directory = dir\<rparr>)"

lemma write_body_triple:
  assumes "clean_dir dir" "proper_artifacts artifacts" "map_of artifacts ManifestName = None"
  shows "io_triple (in_place {artifact_path dir ManifestName} {}) (write_body dir artifacts)
     (published dir artifacts) (\<lambda>s. quiet s \<and> manifest_last dir artifacts s)"
proof -
  let ?m = "artifact_path dir ManifestName" and ?F = "artifact_files dir artifacts"
  let ?M = "bundle_manifest artifacts"
  have id: "DigestReference (sha256 (the (map_of artifacts ''result.cbor''))) = mf_ResultID ?M"
    and eq: "\<lparr>mf_Version = ManifestVersion, mf_ResultID = mf_ResultID ?M, mf_Entries = mf_Entries ?M\<rparr> = ?M"
    by (simp_all add: bundle_manifest_def)
  have rest: "io_triple (\<lambda>s. proper_sizes artifacts \<and> in_place {?m} ?F s) (case MarshalManifest ?M of
          Inl e \<Rightarrow> io_err e
        | Inr manifestBytes \<Rightarrow>
            io_bind (atomic_Write ?m manifestBytes (int MaxManifestBytes)) (\<lambda>_.
            io_ret \<lparr>pub_ResultID = mf_ResultID ?M, pub_ResultDigest = mf_ResultID ?M,
              pub_BundleID = DigestReference (sha256 manifestBytes), pub_Directory = dir\<rparr>))
     (published dir artifacts) (\<lambda>s. quiet s \<and> manifest_last dir artifacts s)"
  proof (cases "MarshalManifest ?M")
    case (Inl x)
    then show ?thesis by (auto intro!: io_triple_err dest: in_place_manifest_last)
  next
    case (Inr mb)
    have w: "io_triple (\<lambda>s. proper_sizes artifacts \<and> in_place {?m} ?F s) (atomic_Write ?m mb k)
        (\<lambda>_ s. proper_sizes artifacts \<and> in_place {} (insert (?m, mb) ?F) s)
        (\<lambda>s. quiet s \<and> manifest_last dir artifacts s)" for k
      using write_manifest_triple [OF assms Inr, of k] by (auto simp: io_triple_def)
    from Inr show ?thesis
      by (auto intro!: io_triple_bind [OF w] io_triple_ret simp: published_def)
  qed
  show ?thesis
    unfolding write_body_def Let_def id
  proof (rule io_triple_bind [OF write_artifacts_sorted [OF assms]], rule io_tripleI, goal_cases)
    case (1 entries s e s1)
    then have e: "entries = mf_Entries ?M" and i: "proper_sizes artifacts \<and> in_place {?m} ?F s" by auto
    from io_tripleD(1) [OF rest _ i] 1(2) [unfolded manifest.select_convs e eq] show ?case .
  next
    case (2 entries s pub s1)
    then have e: "entries = mf_Entries ?M" and i: "proper_sizes artifacts \<and> in_place {?m} ?F s" by auto
    from io_tripleD(2) [OF rest _ i] 2(2) [unfolded manifest.select_convs e eq] show ?case .
  qed
qed

lemma in_place_Directory:
  "in_place N F s \<Longrightarrow> nodes s p = None \<Longrightarrow> in_place N F (s\<lparr>nodes := (nodes s)(p \<mapsto> Directory)\<rparr>)"
  by (auto simp: in_place_def quiet_def)

lemma in_place_keep: "steps_keep (in_place N F)"
  by (auto simp: steps_keep_def in_place_def quiet_step)

lemma manifest_last_removed:
  assumes "clean_dir dir"
  shows "io_triple (\<lambda>s. quiet s \<and> manifest_last dir artifacts s) (os_RemoveAll dir)
     (\<lambda>_ s. quiet s \<and> manifest_last dir artifacts s) (\<lambda>s. quiet s \<and> manifest_last dir artifacts s)"
proof (rule io_tripleI)
  have below: "below dir (artifact_path dir ManifestName)"
    by (simp add: below_def artifact_path_eq [OF assms plain_manifest])
  have step: "quiet s1 \<and> manifest_last dir artifacts s1"
    if "quiet s \<and> manifest_last dir artifacts s" "next_step s = (out, s1)" for s out s1
  proof -
    from quiet_step [of s] that have n: "nodes s1 = nodes s" and "quiet s1" by simp_all
    with that(1) show ?thesis unfolding manifest_last_def n by blast
  qed
  show "quiet s1 \<and> manifest_last dir artifacts s1"
    if q: "quiet s \<and> manifest_last dir artifacts s" and r: "os_RemoveAll dir s = (Inl e, s1)" for s e s1
  proof -
    from r obtain out where "next_step s = (out, s1)"
      by (auto simp: os_RemoveAll_def split: prod.splits outcome.splits)
    with q show ?thesis by (rule step)
  qed
  show "quiet s1 \<and> manifest_last dir artifacts s1"
    if q: "quiet s \<and> manifest_last dir artifacts s" and r: "os_RemoveAll dir s = (Inr x, s1)" for s x s1
  proof -
    from r obtain n s2 where "next_step s = (Done n, s2)"
      and s1: "s1 = s2\<lparr>nodes := (\<lambda>p. if below dir p then None else nodes s2 p)\<rparr>"
      by (auto simp: os_RemoveAll_def split: prod.splits outcome.splits)
    with step [OF q] have "quiet s2" by blast
    with below show ?thesis by (simp add: s1 quiet_def manifest_last_def)
  qed
qed

lemma bundle_Write_triple:
  assumes "clean_dir dir" "proper_artifacts artifacts"
  shows "io_triple (in_place {artifact_path dir ManifestName} {}) (bundle_Write dir artifacts)
     (published dir artifacts) (\<lambda>s. quiet s \<and> manifest_last dir artifacts s)"
proof (cases "map_of artifacts ManifestName = None")
  case False
  then show ?thesis
    unfolding bundle_Write_def
    by (auto intro!: io_triple_if io_triple_err dest: in_place_manifest_last)
next
  case True
  have mk: "io_triple (in_place {artifact_path dir ManifestName} {}) (os_Mkdir dir)
      (\<lambda>_. in_place {artifact_path dir ManifestName} {}) (\<lambda>s. quiet s \<and> manifest_last dir artifacts s)"
    by (rule io_triple_weaken [OF triple_Mkdir [OF in_place_keep [of "{artifact_path dir ManifestName}" "{}"]]])
      (auto intro: in_place_Directory dest: in_place_manifest_last)
  show ?thesis
    unfolding bundle_Write_def
    by (rule io_triple_if, rule io_triple_err, erule in_place_manifest_last)+
      (rule io_triple_bind, rule io_triple_wrap, rule mk, rule io_triple_onerr,
        rule write_body_triple [OF assms True], rule manifest_last_removed [OF assms(1)])
qed

section \<open>What \<open>Verify\<close> establishes\<close>

lemma readRegular_returns:
  assumes "quiet s" "readRegular p k s = (Inr b, s1)"
  shows "nodes s p = Some (Regular b) \<and> b \<noteq> [] \<and> length b \<le> k \<and> quiet s1 \<and> nodes s1 = nodes s"
proof -
  from assms(2) obtain c s2 where l: "os_Lstat p s = (Inr (Regular c), s2)"
    and c: "c \<noteq> []" "length c \<le> k" and r: "os_ReadFile p s2 = (Inr b, s1)"
    by (auto simp: readRegular_def io_bind_def io_err_def split: prod.splits sum.splits node.splits if_splits)
  from l obtain n where "next_step s = (Done n, s2)" and n2: "nodes s2 p = Some (Regular c)"
    by (auto simp: os_Lstat_def split: prod.splits outcome.splits option.splits)
  with quiet_step [OF assms(1)] have q2: "quiet s2" "nodes s2 = nodes s" by simp_all
  from r obtain m where "next_step s2 = (Done m, s1)" and n1: "nodes s1 p = Some (Regular b)"
    by (auto simp: os_ReadFile_def split: prod.splits outcome.splits option.splits node.splits)
  with quiet_step [OF q2(1)] have "quiet s1" "nodes s1 = nodes s2" by simp_all
  with q2 n1 n2 c show ?thesis by auto
qed

lemma verify_entries_returns:
  "quiet s \<Longrightarrow> verify_entries dir es s = (Inr u, s1) \<Longrightarrow>
   quiet s1 \<and> nodes s1 = nodes s \<and>
   (\<forall>e \<in> set es. \<exists>b. nodes s (artifact_path dir (en_Name e)) = Some (Regular b) \<and>
      word_of_nat (length b) = en_Size e \<and> sha256 b = en_Digest e)"
proof (induction es arbitrary: s)
  case Nil
  then show ?case by (simp add: io_ret_def)
next
  case (Cons e es)
  from Cons.prems(2) obtain b s2 where r: "readRegular (artifact_path dir (en_Name e)) MaxArtifactBytes s = (Inr b, s2)"
    and b: "word_of_nat (length b) = en_Size e" "sha256 b = en_Digest e"
    and v: "verify_entries dir es s2 = (Inr u, s1)"
    by (auto simp: io_bind_def io_wrap_def io_err_def split: prod.splits sum.splits if_splits)
  from readRegular_returns [OF Cons.prems(1) r] Cons.IH [OF _ v] b show ?case by auto
qed

lemma bundle_Verify_returns:
  assumes "quiet s" "bundle_Verify dir s = (Inr pub, s1)"
  obtains mb m rb r where
    "nodes s (artifact_path dir ManifestName) = Some (Regular mb)" "UnmarshalManifest mb = Inr m"
    "\<And>e. e \<in> set (mf_Entries m) \<Longrightarrow> \<exists>b. nodes s (artifact_path dir (en_Name e)) = Some (Regular b) \<and>
      word_of_nat (length b) = en_Size e \<and> sha256 b = en_Digest e"
    "nodes s (artifact_path dir ''result.cbor'') = Some (Regular rb)" "UnmarshalResult rb = Inr r"
    "pub = \<lparr>pub_ResultID = mf_ResultID m, pub_ResultDigest = DigestReference (sha256 rb),
            pub_BundleID = DigestReference (sha256 mb), pub_Directory = dir\<rparr>"
proof -
  from assms(2) obtain mb s2 m s3 rb s4 r where
    1: "readRegular (artifact_path dir ManifestName) MaxManifestBytes s = (Inr mb, s2)"
    and m: "UnmarshalManifest mb = Inr m" and 2: "verify_entries dir (mf_Entries m) s2 = (Inr (), s3)"
    and 3: "readRegular (artifact_path dir ''result.cbor'') MaxArtifactBytes s3 = (Inr rb, s4)"
    and r: "UnmarshalResult rb = Inr r"
    and p: "pub = \<lparr>pub_ResultID = mf_ResultID m, pub_ResultDigest = DigestReference (sha256 rb),
            pub_BundleID = DigestReference (sha256 mb), pub_Directory = dir\<rparr>"
    by (auto simp: bundle_Verify_def io_bind_def io_wrap_def io_err_def io_ret_def
        split: prod.splits sum.splits if_splits)
  note a = readRegular_returns [OF assms(1) 1]
  then have q2: "quiet s2" by blast
  note b = verify_entries_returns [OF q2 2]
  then have q3: "quiet s3" by blast
  note c = readRegular_returns [OF q3 3]
  show ?thesis
    by (rule that [of mb m rb r]) (use a b c m r p in auto)
qed

section \<open>Verifying what was written\<close>

text \<open>The next \<open>k\<close> calls are neither disturbed nor fail.\<close>

definition faultless :: "nat \<Rightarrow> os \<Rightarrow> bool" where
  "faultless k s \<longleftrightarrow> \<not> crashed s \<and> k \<le> length (plan s) \<and>
     list_all (\<lambda>(env, out). env = [] \<and> (case out of Done _ \<Rightarrow> True | _ \<Rightarrow> False)) (plan s)"

lemma faultless_step:
  assumes "faultless (Suc k) s"
  obtains n s1 where "next_step s = (Done n, s1)" "nodes s1 = nodes s" "faultless k s1"
proof -
  from assms obtain env out rest where p: "plan s = (env, out) # rest" "\<not> crashed s"
    by (cases "plan s") (auto simp: faultless_def)
  with assms obtain n where "env = []" "out = Done n"
    by (cases out) (auto simp: faultless_def)
  with p assms show ?thesis
    by (intro that [of n "snd (next_step s)"])
      (auto simp: next_step_def publish_def faultless_def)
qed

lemma readRegular_faultless:
  assumes "faultless (Suc (Suc k)) s" "nodes s p = Some (Regular b)" "b \<noteq> []" "length b \<le> m"
  obtains s1 where "readRegular p m s = (Inr b, s1)" "nodes s1 = nodes s" "faultless k s1"
proof -
  from assms(1) obtain n s1 where 1: "next_step s = (Done n, s1)" "nodes s1 = nodes s" "faultless (Suc k) s1"
    by (rule faultless_step)
  from 1(3) obtain n2 s2 where 2: "next_step s1 = (Done n2, s2)" "nodes s2 = nodes s1" "faultless k s2"
    by (rule faultless_step)
  show ?thesis
    by (rule that [of s2])
      (use 1 2 assms(2-4) in \<open>simp_all add: readRegular_def io_bind_def os_Lstat_def os_ReadFile_def not_less [symmetric]\<close>)
qed

lemma verify_entries_faultless:
  assumes "faultless (k + 2 * length items) s"
    and "\<forall>i \<in> set items. nodes s (artifact_path dir (fst i)) = Some (Regular (snd i)) \<and>
      snd i \<noteq> [] \<and> length (snd i) \<le> MaxArtifactBytes"
  shows "\<exists>s1. verify_entries dir (map (\<lambda>(name, bs). bundle_entry name bs) items) s = (Inr (), s1) \<and>
    nodes s1 = nodes s \<and> faultless k s1"
  using assms
proof (induction items arbitrary: s)
  case Nil
  then show ?case by (simp add: io_ret_def)
next
  case (Cons i items)
  obtain name bs where i: "i = (name, bs)" by (cases i)
  from Cons.prems have "faultless (Suc (Suc (k + 2 * length items))) s"
    "nodes s (artifact_path dir name) = Some (Regular bs)" "bs \<noteq> []" "length bs \<le> MaxArtifactBytes"
    by (auto simp: i)
  then obtain s1 where 1: "readRegular (artifact_path dir name) MaxArtifactBytes s = (Inr bs, s1)"
    "nodes s1 = nodes s" "faultless (k + 2 * length items) s1"
    by (rule readRegular_faultless)
  from Cons.prems(2) 1(2) have "\<forall>i \<in> set items. nodes s1 (artifact_path dir (fst i)) = Some (Regular (snd i)) \<and>
      snd i \<noteq> [] \<and> length (snd i) \<le> MaxArtifactBytes" by simp
  then obtain s2 where 2: "verify_entries dir (map (\<lambda>(name, bs). bundle_entry name bs) items) s1 = (Inr (), s2)"
    "nodes s2 = nodes s1" "faultless k s2"
    using Cons.IH [OF 1(3)] by blast
  show ?case
    by (rule exI [of _ s2])
      (use 1 2 in \<open>simp add: i io_bind_def io_wrap_def bundle_entry_def\<close>)
qed

lemma Manifest_validate_result:
  assumes "Manifest_validate m = None"
  shows "\<exists>e \<in> set (mf_Entries m). en_Name e = ''result.cbor''"
  using assms
  by (auto simp: Manifest_validate_def accept_simps RequiredArtifacts_def containsEntry_def list_ex_iff
      split: if_splits sum.splits)

lemma published_Verify:
  assumes p: "published dir artifacts pub s" and a: "proper_artifacts artifacts"
    and f: "faultless (2 * length artifacts + 4) s"
    and n: "list_all (\<lambda>a. text_ok 255 (fst a)) artifacts"
    and r: "isOK (UnmarshalResult (the (map_of artifacts ''result.cbor'')))"
  shows "\<exists>s1. bundle_Verify dir s = (Inr pub, s1)"
proof -
  let ?M = "bundle_manifest artifacts"
  let ?items = "sort_key fst artifacts"
  from p obtain mb where sizes: "proper_sizes artifacts" and mb: "MarshalManifest ?M = Inr mb"
    and place: "in_place {} (insert (artifact_path dir ManifestName, mb) (artifact_files dir artifacts)) s"
    and pub: "pub = \<lparr>pub_ResultID = mf_ResultID ?M, pub_ResultDigest = mf_ResultID ?M,
            pub_BundleID = DigestReference (sha256 mb), pub_Directory = dir\<rparr>"
    by (auto simp: published_def)
  have "manifest_wf ?M"
    using n by (auto simp: manifest_wf_def bundle_manifest_def list_all_iff entry_fits_def
        bundle_entry_def digest32_sha256 split: prod.splits)
  from manifest_doc.marshal_unmarshal [OF this mb] have um: "UnmarshalManifest mb = Inr ?M" .
  then have mb_ok: "mb \<noteq> []" "length mb \<le> MaxManifestBytes"
    by (auto simp: UnmarshalManifest_def split: if_splits)
  from mb have "Manifest_validate ?M = None" by (simp add: MarshalManifest_def after_Inr)
  then obtain e where "e \<in> set (mf_Entries ?M)" "en_Name e = ''result.cbor''"
    using Manifest_validate_result by blast
  then obtain rb where rb: "(''result.cbor'', rb) \<in> set artifacts"
    by (auto simp: bundle_manifest_def bundle_entry_def)
  with a have rb': "map_of artifacts ''result.cbor'' = Some rb"
    by (simp add: proper_artifacts_def)
  have at: "\<forall>i \<in> set ?items. nodes s (artifact_path dir (fst i)) = Some (Regular (snd i)) \<and>
      snd i \<noteq> [] \<and> length (snd i) \<le> MaxArtifactBytes"
    using place sizes by (auto simp: in_place_def artifact_files_def proper_sizes_def list_all_iff split: prod.splits)
  have mp: "nodes s (artifact_path dir ManifestName) = Some (Regular mb)"
    using place by (simp add: in_place_def)
  have f': "faultless (Suc (Suc (2 + 2 * length ?items))) s" using f by (simp add: faultless_def)
  from f' mp mb_ok obtain s1 where
    1: "readRegular (artifact_path dir ManifestName) MaxManifestBytes s = (Inr mb, s1)"
    "nodes s1 = nodes s" "faultless (2 + 2 * length ?items) s1"
    by (rule readRegular_faultless)
  have at1: "\<forall>i \<in> set ?items. nodes s1 (artifact_path dir (fst i)) = Some (Regular (snd i)) \<and>
      snd i \<noteq> [] \<and> length (snd i) \<le> MaxArtifactBytes" using at 1(2) by simp
  obtain s2 where 2: "verify_entries dir (mf_Entries ?M) s1 = (Inr (), s2)" "nodes s2 = nodes s1" "faultless 2 s2"
    using verify_entries_faultless [OF 1(3) at1] by (auto simp: bundle_manifest_def)
  have "faultless (Suc (Suc 0)) s2" "nodes s2 (artifact_path dir ''result.cbor'') = Some (Regular rb)"
    "rb \<noteq> []" "length rb \<le> MaxArtifactBytes"
    using 1(2) 2(2,3) at rb by (auto simp: numeral_2_eq_2)
  then obtain s3 where 3: "readRegular (artifact_path dir ''result.cbor'') MaxArtifactBytes s2 = (Inr rb, s3)"
    by (rule readRegular_faultless)
  from r obtain rr where "UnmarshalResult rb = Inr rr" by (auto simp: rb' isOK_iff)
  moreover have "DigestReference (sha256 rb) = mf_ResultID ?M" by (simp add: bundle_manifest_def rb')
  ultimately have "bundle_Verify dir s = (Inr pub, s3)"
    by (simp add: bundle_Verify_def io_bind_def io_wrap_def io_ret_def 1(1) um 2(1) 3 pub
        del: bundle_limits)
  then show ?thesis by blast
qed

section \<open>Properties\<close>

lemma published_manifest_last: "published dir artifacts pub s \<Longrightarrow> manifest_last dir artifacts s"
  by (auto simp: published_def manifest_last_def in_place_def artifact_files_def)


definition sample_artifacts :: "(string \<times> byte list) list" where
  "sample_artifacts =
     [(''adapter.cbor'', [1]), (''contract.cbor'', [1]), (''input.cbor'', [1]), (''observation.cbor'', [1]),
      (''representation.body'', [1]), (''result.cbor'', emit (result_calls sample_result)),
      (''semantic-closure.cbor'', [1]), (''transcript.json'', [1]), (''transport.cbor'', [1])]"

lemma sample_dir: "clean_dir ''out''"
  by (simp add: clean_dir_def filepath_Clean_def Let_def)

lemma sample_proper: "proper_artifacts sample_artifacts"
  by (simp add: proper_artifacts_def sample_artifacts_def plain_name_def)

definition no_files :: os where
  "no_files = \<lparr>nodes = Map.empty, plan = map (\<lambda>out. ([], out)) [Done 0, Done 1, Done 2, Crash 0], crashed = False\<rparr>"


text \<open>
  C5: verifying a published bundle on a file system that does not fail returns the identities
  its publication returned, provided that its names have at most 255 octets of valid UTF-8 and
  its result artifact is a result.
\<close>

theorem bundle_verifies:
  assumes "published dir artifacts pub s" and "proper_artifacts artifacts"
    and "faultless (2 * length artifacts + 4) s"
    and "\<forall>a \<in> set artifacts. length (fst a) \<le> 255 \<and> utf8_valid_string (fst a)"
    and "isOK (UnmarshalResult (the (map_of artifacts ''result.cbor'')))"
  shows "\<exists>s1. bundle_Verify dir s = (Inr pub, s1)"
  by (rule published_Verify [OF assms(1-3) _ assms(5)])
    (use assms(4) in \<open>simp add: list_all_iff text_ok_def\<close>)

text \<open>The bundle of the sample, as \<open>Write\<close> leaves it.\<close>

definition sample_manifest_bytes :: "byte list" where
  "sample_manifest_bytes = emit (manifest_calls (bundle_manifest sample_artifacts))"

definition sample_bundle :: os where
  "sample_bundle = \<lparr>nodes = (\<lambda>p. map_option Regular (map_of
       ((artifact_path ''out'' ManifestName, sample_manifest_bytes) #
        map (\<lambda>(n, b). (artifact_path ''out'' n, b)) sample_artifacts) p)),
     plan = replicate 30 ([], Done 0), crashed = False\<rparr>"

definition sample_publication :: publication where
  "sample_publication =
     \<lparr>pub_ResultID = mf_ResultID (bundle_manifest sample_artifacts),
      pub_ResultDigest = mf_ResultID (bundle_manifest sample_artifacts),
      pub_BundleID = DigestReference (sha256 sample_manifest_bytes), pub_Directory = ''out''\<rparr>"

lemma sample_result_size:
  "emit (result_calls sample_result) \<noteq> []" "length (emit (result_calls sample_result)) \<le> 4194304"
  using sample_result_marshals sample_result_accepted
  by (auto simp: MarshalResult_def UnmarshalResult_def after_Inr Let_def split: if_splits)

lemma sample_sorted: "sort_key fst sample_artifacts = sample_artifacts"
  by (simp add: sample_artifacts_def sort_key_def)

lemma sample_manifest_valid: "Manifest_validate (bundle_manifest sample_artifacts) = None"
proof -
  let ?n = "length (emit (result_calls sample_result))"
  have "?n < 2 ^ 64" "0 < ?n" using sample_result_size by simp_all
  then have w: "(word_of_nat ?n :: uint64) \<noteq> 0" "\<not> 4194304 < (word_of_nat ?n :: uint64)"
    using sample_result_size(2) by (simp_all add: word_less_nat_alt unat_of_nat word_unat_eq_iff)
  show ?thesis
    unfolding Manifest_validate_def bundle_manifest_def sample_sorted
    by (simp add: sample_artifacts_def ParseDigestReference_reference bundle_entry_def validName_def
        filepath_Base_def Let_def ManifestName_def w accept_simps RequiredArtifacts_def containsEntry_def)
qed

lemma sample_manifest_marshals: "MarshalManifest (bundle_manifest sample_artifacts) = Inr sample_manifest_bytes"
proof -
  have "length sample_manifest_bytes \<le> MaxManifestBytes"
    unfolding sample_manifest_bytes_def
    by (rule order_trans [OF emit_length])
      (simp add: bundle_manifest_def sample_sorted manifest_calls_def enc_counted_def sample_artifacts_def
        entry_calls_def bundle_entry_def ManifestVersion_def DigestReference_def)
  then show ?thesis
    by (simp add: MarshalManifest_def sample_manifest_valid Let_def flip: sample_manifest_bytes_def)
qed

lemma sample_published: "published ''out'' sample_artifacts sample_publication sample_bundle"
proof -
  have p: "artifact_path ''out'' n = ''out/'' @ n" if "plain_name n" for n
    using artifact_path_eq [OF sample_dir that] by simp
  have names: "list_all (\<lambda>a. plain_name (fst a)) sample_artifacts"
    using sample_proper by (simp add: proper_artifacts_def)
  have m: "artifact_path ''out'' ManifestName = ''out/manifest.cbor''"
    using p [OF plain_manifest] by (simp add: ManifestName_def)
  have "in_place {} (insert (artifact_path ''out'' ManifestName, sample_manifest_bytes)
      (artifact_files ''out'' sample_artifacts)) sample_bundle"
    using names
    by (simp add: in_place_def quiet_def sample_bundle_def artifact_files_def sample_artifacts_def p m)
  moreover have "proper_sizes sample_artifacts"
    using sample_result_size by (simp add: proper_sizes_def sample_artifacts_def)
  ultimately show ?thesis
    using sample_manifest_marshals by (simp add: published_def sample_publication_def)
qed

lemma sample_faultless: "faultless (2 * length sample_artifacts + 4) sample_bundle"
  by (simp add: faultless_def sample_bundle_def sample_artifacts_def list_all_iff)

lemma sample_names: "\<forall>a \<in> set sample_artifacts. length (fst a) \<le> 255 \<and> utf8_valid_string (fst a)"
  by (simp add: sample_artifacts_def utf8_valid_string_ascii is_ascii_def)

lemma sample_result_ok: "isOK (UnmarshalResult (the (map_of sample_artifacts ''result.cbor'')))"
  using sample_result_accepted by (simp add: sample_artifacts_def isOK_iff)

theorem bundle_verifies_witness:
  "published ''out'' sample_artifacts sample_publication sample_bundle \<and>
   (\<exists>s1. bundle_Verify ''out'' sample_bundle = (Inr sample_publication, s1))"
  using sample_published
    bundle_verifies [OF sample_published sample_proper sample_faultless sample_names sample_result_ok] by blast

text \<open>
  C6: \<open>Verify\<close> is sound. When it returns, the manifest on disk is a valid one, every
  artifact it lists is on disk with the listed size and digest, the result artifact is a
  result, and the identities returned are those of the result and of the manifest.
\<close>

theorem bundle_Verify_sound:
  assumes "quiet s" and "bundle_Verify dir s = (Inr pub, s1)"
  shows "\<exists>mb m rb r. nodes s (artifact_path dir ManifestName) = Some (Regular mb) \<and> UnmarshalManifest mb = Inr m \<and>
    (\<forall>e \<in> set (mf_Entries m). \<exists>b. nodes s (artifact_path dir (en_Name e)) = Some (Regular b) \<and>
       word_of_nat (length b) = en_Size e \<and> sha256 b = en_Digest e) \<and>
    nodes s (artifact_path dir ''result.cbor'') = Some (Regular rb) \<and> UnmarshalResult rb = Inr r \<and>
    pub_ResultID pub = mf_ResultID m \<and> pub_ResultDigest pub = DigestReference (sha256 rb) \<and>
    pub_BundleID pub = DigestReference (sha256 mb)"
proof (rule bundle_Verify_returns [OF assms])
  fix mb m rb r
  assume *: "nodes s (artifact_path dir ManifestName) = Some (Regular mb)" "UnmarshalManifest mb = Inr m"
    "\<And>e. e \<in> set (mf_Entries m) \<Longrightarrow> \<exists>b. nodes s (artifact_path dir (en_Name e)) = Some (Regular b) \<and>
      word_of_nat (length b) = en_Size e \<and> sha256 b = en_Digest e"
    "nodes s (artifact_path dir ''result.cbor'') = Some (Regular rb)" "UnmarshalResult rb = Inr r"
    "pub = \<lparr>pub_ResultID = mf_ResultID m, pub_ResultDigest = DigestReference (sha256 rb),
            pub_BundleID = DigestReference (sha256 mb), pub_Directory = dir\<rparr>"
  show ?thesis
    by (rule exI [of _ mb], rule exI [of _ m], rule exI [of _ rb], rule exI [of _ r])
      (use * in \<open>simp add: Ball_def\<close>)
qed

lemma sample_Verify: "\<exists>s1. bundle_Verify ''out'' sample_bundle = (Inr sample_publication, s1)"
  by (rule published_Verify [OF sample_published sample_proper sample_faultless _ sample_result_ok])
    (use sample_names in \<open>simp add: list_all_iff text_ok_def\<close>)

theorem bundle_Verify_sound_witness:
  "\<exists>mb m. nodes sample_bundle (artifact_path ''out'' ManifestName) = Some (Regular mb) \<and>
     UnmarshalManifest mb = Inr m \<and> pub_ResultID sample_publication = mf_ResultID m"
proof -
  obtain s1 where "bundle_Verify ''out'' sample_bundle = (Inr sample_publication, s1)"
    using sample_Verify by blast
  moreover have "quiet sample_bundle" by (simp add: quiet_def sample_bundle_def)
  ultimately show ?thesis using bundle_Verify_sound by blast
qed



end
