(* ===== verification/Robots.thy ===== *)
theory Robots
  imports Twirx_Prelude
begin

text \<open>
  \<open>internal/robotstxt\<close>: the Robots Exclusion Protocol. Parsing a document into groups of
  rules, normalising paths, matching a pattern against a target, and the decision for a product
  token and a path. The matching loop is a partial function on the loop's four variables, proved
  to return and compared with the pattern language it implements.
\<close>

section \<open>Data\<close>

definition rb_MaxBytes :: nat where "rb_MaxBytes = 512000"
definition MaxTargetBytes :: nat where "MaxTargetBytes = 16384"

lemmas robots_limits [simp] = rb_MaxBytes_def MaxTargetBytes_def

record rule =
  ru_Allow :: bool
  ru_Pattern :: string
  ru_normalized :: string
  ru_anchorEnd :: bool
  ru_specificity :: int

record group =
  gr_Agents :: "string list"
  gr_Rules :: "rule list"

record robots_document =
  rd_Groups :: "group list"
  rd_ParseErrors :: int

record decision =
  dc_Allowed :: bool
  dc_Matched :: bool
  dc_Pattern :: string
  dc_Specificity :: int

datatype fetch_outcome = FetchSuccessful | FetchUnavailable | FetchUnreachable | FetchRedirectLimit

definition ClassifyFetch :: "int \<Rightarrow> int \<Rightarrow> bool \<Rightarrow> fetch_outcome" where
  "ClassifyFetch status redirects transportFailed =
     (if transportFailed then FetchUnreachable
      else if redirects > 5 then FetchRedirectLimit
      else if status \<ge> 200 \<and> status \<le> 299 then FetchSuccessful
      else if status \<ge> 400 \<and> status \<le> 499 then FetchUnavailable
      else FetchUnreachable)"

section \<open>Text\<close>

fun replace_crlf :: "byte list \<Rightarrow> byte list" where
  "replace_crlf [] = []"
| "replace_crlf [b] = [b]"
| "replace_crlf (b # c # bs) =
     (if b = 0x0d \<and> c = 0x0a then 0x0a # replace_crlf bs else b # replace_crlf (c # bs))"

fun split_newline :: "byte list \<Rightarrow> byte list list" where
  "split_newline [] = [[]]"
| "split_newline (b # bs) =
     (if b = 0x0a then [] # split_newline bs
      else case split_newline bs of [] \<Rightarrow> [[b]] | w # ws \<Rightarrow> (b # w) # ws)"

definition splitLines :: "byte list \<Rightarrow> string list" where
  "splitLines bs = map string_of_bytes
     (split_newline (map (\<lambda>b. if b = 0x0d then 0x0a else b) (replace_crlf bs)))"

definition trim_left :: "string \<Rightarrow> string" where
  "trim_left = dropWhile (\<lambda>c. c = CHR '' '' \<or> c = CHR 0x09)"

definition trimProtocolSpace :: "string \<Rightarrow> string" where
  "trimProtocolSpace value = rev (trim_left (rev (trim_left value)))"

text \<open>\<open>strings.EqualFold\<close> with an ASCII second argument.\<close>

definition equal_fold :: "string \<Rightarrow> string \<Rightarrow> bool" where
  "equal_fold agent token \<longleftrightarrow> fold_ascii agent = map lower_char token"

definition token_char :: "char \<Rightarrow> bool" where
  "token_char c = (let n = of_char c :: nat in
     65 \<le> n \<and> n \<le> 90 \<or> 97 \<le> n \<and> n \<le> 122 \<or> c = CHR ''_'' \<or> c = CHR ''-'')"

definition validProductToken :: "string \<Rightarrow> bool \<Rightarrow> bool" where
  "validProductToken value wildcard =
     (if wildcard \<and> value = ''*'' then True
      else if value = [] then False
      else list_all token_char value)"

section \<open>Paths\<close>

definition isUnreserved :: "char \<Rightarrow> bool" where
  "isUnreserved c = (let n = of_char c :: nat in
     65 \<le> n \<and> n \<le> 90 \<or> 97 \<le> n \<and> n \<le> 122 \<or> 48 \<le> n \<and> n \<le> 57 \<or> c \<in> set ''-._~'')"

definition upperHex :: "nat \<Rightarrow> char" where
  "upperHex n = ''0123456789ABCDEF'' ! (n mod 16)"

definition percent :: "nat \<Rightarrow> string" where
  "percent n = [CHR ''%'', upperHex (n div 16), upperHex n]"

text \<open>
  The loop of \<open>normalizePath\<close>. The text is valid UTF-8, so that writing the octets of the
  decoded rune one by one is writing the octets of the text one by one.
\<close>

fun normalize_loop :: "string \<Rightarrow> error + string" where
  "normalize_loop [] = Inr []"
| "normalize_loop (c # cs) =
     (if c = CHR ''%'' then
        (case cs of
           h # l # rest \<Rightarrow>
             (case (hex_value h, hex_value l) of
                (Some high, Some low) \<Rightarrow>
                  let decoded = 16 * high + low in
                  ebind (normalize_loop rest) (\<lambda>out.
                    Inr ((if isUnreserved (char_of decoded) then [char_of decoded]
                          else percent decoded) @ out))
              | _ \<Rightarrow> Inl (Msg ''invalid percent encoding''))
         | _ \<Rightarrow> Inl (Msg ''incomplete percent encoding''))
      else let n = of_char c :: nat in
        if n < 0x80 then
          if n < 0x20 \<or> n = 0x7f then Inl (Msg ''control character in path'')
          else ebind (normalize_loop cs) (\<lambda>out. Inr (c # out))
        else ebind (normalize_loop cs) (\<lambda>out. Inr (percent n @ out)))"

definition normalizePath :: "string \<Rightarrow> bool \<Rightarrow> error + string" where
  "normalizePath value pattern =
     (if value = [] \<or> \<not> utf8_valid_string value then Inl (Msg ''path is empty or invalid UTF-8'')
      else if \<not> pattern \<and> hd value \<noteq> CHR ''/'' then Inl (Msg ''target must begin with slash'')
      else normalize_loop value)"

definition parseRule :: "bool \<Rightarrow> string \<Rightarrow> error + rule" where
  "parseRule allow pattern =
     (if hd pattern \<noteq> CHR ''/'' \<and> hd pattern \<noteq> CHR ''*''
      then Inl (Msg ''rule must begin with slash or wildcard'')
      else
        let anchor = (last pattern = CHR ''$'');
            matchPattern = (if anchor then butlast pattern else pattern)
        in ebind (normalizePath matchPattern True) (\<lambda>normalized.
           Inr \<lparr>ru_Allow = allow, ru_Pattern = pattern, ru_normalized = normalized,
                ru_anchorEnd = anchor,
                ru_specificity = int (length (filter (\<lambda>c. c \<noteq> CHR ''*'') normalized))\<rparr>))"

section \<open>Parsing\<close>

record parse_state =
  ps_document :: robots_document
  ps_current :: "group option"
  ps_hadRule :: bool

definition count_error :: "parse_state \<Rightarrow> parse_state" where
  "count_error s = s\<lparr>ps_document := (ps_document s)\<lparr>rd_ParseErrors := rd_ParseErrors (ps_document s) + 1\<rparr>\<rparr>"

definition push_group :: "group \<Rightarrow> robots_document \<Rightarrow> robots_document" where
  "push_group g d = d\<lparr>rd_Groups := rd_Groups d @ [g]\<rparr>"

definition user_agent_line :: "string \<Rightarrow> parse_state \<Rightarrow> parse_state" where
  "user_agent_line value s =
     (if \<not> validProductToken value True then count_error s
      else
        let s1 = (case ps_current s of
              None \<Rightarrow> s\<lparr>ps_current := Some \<lparr>gr_Agents = [], gr_Rules = []\<rparr>, ps_hadRule := False\<rparr>
            | Some g \<Rightarrow>
                if ps_hadRule s
                then s\<lparr>ps_document := push_group g (ps_document s),
                       ps_current := Some \<lparr>gr_Agents = [], gr_Rules = []\<rparr>, ps_hadRule := False\<rparr>
                else s)
        in s1\<lparr>ps_current := map_option (\<lambda>g. g\<lparr>gr_Agents := gr_Agents g @ [value]\<rparr>) (ps_current s1)\<rparr>)"

definition rule_line :: "bool \<Rightarrow> string \<Rightarrow> parse_state \<Rightarrow> parse_state" where
  "rule_line allow value s = (case ps_current s of
     None \<Rightarrow> s
   | Some g \<Rightarrow>
       let s1 = s\<lparr>ps_hadRule := True\<rparr> in
       if value = [] then s1
       else case parseRule allow value of
              Inl _ \<Rightarrow> count_error s1
            | Inr r \<Rightarrow> s1\<lparr>ps_current := Some (g\<lparr>gr_Rules := gr_Rules g @ [r]\<rparr>)\<rparr>)"

definition parse_line :: "string \<Rightarrow> parse_state \<Rightarrow> parse_state" where
  "parse_line rawLine s =
     (let trimmed = trimProtocolSpace rawLine;
          line = (if CHR ''#'' \<in> set trimmed
                  then trimProtocolSpace (takeWhile (\<lambda>c. c \<noteq> CHR ''#'') trimmed) else trimmed)
      in if line = [] then s
         else if CHR '':'' \<notin> set line then count_error s
         else
           let key = to_lower (trimProtocolSpace (takeWhile (\<lambda>c. c \<noteq> CHR '':'') line));
               value = trimProtocolSpace (tl (dropWhile (\<lambda>c. c \<noteq> CHR '':'') line))
           in if key = ''user-agent'' then user_agent_line value s
              else if key = ''allow'' \<or> key = ''disallow'' then rule_line (key = ''allow'') value s
              else s)"

definition parse_start :: parse_state where
  "parse_start = \<lparr>ps_document = \<lparr>rd_Groups = [], rd_ParseErrors = 0\<rparr>, ps_current = None, ps_hadRule = False\<rparr>"

definition robots_Parse :: "byte list \<Rightarrow> error + robots_document" where
  "robots_Parse bs =
     (if length bs > rb_MaxBytes then Inl (Msg ''document exceeds limit'')
      else if \<not> utf8_valid bs then Inl (Msg ''document is not valid UTF-8'')
      else
        let s = fold parse_line (splitLines bs) parse_start
        in Inr (case ps_current s of None \<Rightarrow> ps_document s | Some g \<Rightarrow> push_group g (ps_document s)))"

section \<open>Matching\<close>

text \<open>
  The loop of \<open>globMatches\<close> with its variables; \<open>starIndex\<close> of \<open>-1\<close> is \<open>None\<close>.
  Not returning would be \<open>None\<close>.
\<close>

partial_function (option) glob_loop ::
  "string \<Rightarrow> string \<Rightarrow> bool \<Rightarrow> nat \<Rightarrow> nat \<Rightarrow> nat option \<Rightarrow> nat \<Rightarrow> bool option" where
  "glob_loop pattern target anchorEnd patternIndex targetIndex starIndex retryIndex =
     (if targetIndex < length target then
        if patternIndex = length pattern then Some (\<not> anchorEnd)
        else if pattern ! patternIndex = CHR ''*''
        then glob_loop pattern target anchorEnd (patternIndex + 1) targetIndex (Some patternIndex) targetIndex
        else if pattern ! patternIndex = target ! targetIndex
        then glob_loop pattern target anchorEnd (patternIndex + 1) (targetIndex + 1) starIndex retryIndex
        else case starIndex of
          Some star \<Rightarrow> glob_loop pattern target anchorEnd (star + 1) (retryIndex + 1) (Some star) (retryIndex + 1)
        | None \<Rightarrow> Some False
      else Some (dropWhile (\<lambda>c. c = CHR ''*'') (drop patternIndex pattern) = []))"

declare glob_loop.simps [code]

definition globMatches :: "string \<Rightarrow> string \<Rightarrow> bool \<Rightarrow> bool option" where
  "globMatches pattern target anchorEnd = glob_loop pattern target anchorEnd 0 0 None 0"

section \<open>Decision\<close>

definition rulesFor :: "robots_document \<Rightarrow> string \<Rightarrow> rule list" where
  "rulesFor d productToken =
     (let matchesExact = (\<lambda>g. list_ex (\<lambda>agent. equal_fold agent productToken) (gr_Agents g));
          matchesWildcard = (\<lambda>g. list_ex (\<lambda>agent. agent = ''*'') (gr_Agents g));
          exact = concat (map gr_Rules (filter matchesExact (rd_Groups d)));
          wildcard = concat (map gr_Rules
            (filter (\<lambda>g. \<not> matchesExact g \<and> matchesWildcard g) (rd_Groups d)))
      in if list_ex matchesExact (rd_Groups d) then exact else wildcard)"

text \<open>One round of the loop over the rules.\<close>

definition consider_rule :: "string \<Rightarrow> rule \<Rightarrow> decision \<Rightarrow> decision" where
  "consider_rule target r d =
     (if globMatches (ru_normalized r) target (ru_anchorEnd r) \<noteq> Some True then d
      else if \<not> dc_Matched d \<or> ru_specificity r > dc_Specificity d \<or>
              (ru_specificity r = dc_Specificity d \<and> ru_Allow r \<and> \<not> dc_Allowed d)
      then \<lparr>dc_Allowed = ru_Allow r, dc_Matched = True, dc_Pattern = ru_Pattern r,
            dc_Specificity = ru_specificity r\<rparr>
      else d)"

definition no_match :: decision where
  "no_match = \<lparr>dc_Allowed = True, dc_Matched = False, dc_Pattern = [], dc_Specificity = 0\<rparr>"

definition robots_Evaluate :: "robots_document option \<Rightarrow> string \<Rightarrow> string \<Rightarrow> error + decision" where
  "robots_Evaluate doc productToken pathQuery = (case doc of
     None \<Rightarrow> Inl (Msg ''document is nil'')
   | Some d \<Rightarrow>
       if length productToken > 128 \<or> \<not> validProductToken productToken False
       then Inl (Msg ''invalid product token'')
       else if length pathQuery > MaxTargetBytes then Inl (Msg ''target exceeds byte limit'')
       else if pathQuery = ''/robots.txt'' \<or> take 12 pathQuery = ''/robots.txt?'' then Inr no_match
       else case normalizePath pathQuery False of
              Inl e \<Rightarrow> Inl (Wrap ''target'' e)
            | Inr normalized \<Rightarrow> Inr (fold (consider_rule normalized) (rulesFor d productToken) no_match))"

section \<open>The pattern language\<close>

text \<open>
  What a pattern means: a star stands for any text; the pattern must reach the end of the target
  unless it is open.
\<close>

fun robots_glob :: "bool \<Rightarrow> string \<Rightarrow> string \<Rightarrow> bool" where
  "robots_glob open [] t = (open \<or> t = [])"
| "robots_glob open (c # p) [] = (c = CHR ''*'' \<and> robots_glob open p [])"
| "robots_glob open (c # p) (d # t) =
     (if c = CHR ''*'' then robots_glob open p (d # t) \<or> robots_glob open (c # p) t
      else c = d \<and> robots_glob open p t)"

lemma ex_le_Suc: "(\<exists>k \<le> Suc n. Q k) \<longleftrightarrow> Q 0 \<or> (\<exists>k \<le> n. Q (Suc k))"
  by (simp only: less_Suc_eq_le [symmetric] Ex_less_Suc2)

lemma glob_star: "robots_glob e (CHR ''*'' # p) t \<longleftrightarrow> (\<exists>k \<le> length t. robots_glob e p (drop k t))"
  by (induction t) (simp_all add: ex_le_Suc)

lemma glob_literal: "CHR ''*'' \<notin> set lit \<Longrightarrow> robots_glob e (lit @ p) (lit @ t) = robots_glob e p t"
  by (induction lit) auto

lemma glob_literal_shape:
  "CHR ''*'' \<notin> set lit \<Longrightarrow> robots_glob e (lit @ p) t \<Longrightarrow> \<exists>t'. t = lit @ t' \<and> robots_glob e p t'"
proof (induction lit arbitrary: t)
  case (Cons c lit)
  then show ?case by (cases t) auto
qed simp

lemma glob_length: "robots_glob e p t \<Longrightarrow> length (filter (\<lambda>c. c \<noteq> CHR ''*'') p) \<le> length t"
  by (induction e p t rule: robots_glob.induct) (auto split: if_splits)

lemma glob_end: "robots_glob e p [] \<longleftrightarrow> dropWhile (\<lambda>c. c = CHR ''*'') p = []"
  by (induction p) auto

text \<open>The invariant of the loop, and what the loop still has to decide.\<close>

definition glob_inv :: "string \<Rightarrow> string \<Rightarrow> nat \<Rightarrow> nat \<Rightarrow> nat option \<Rightarrow> nat \<Rightarrow> bool" where
  "glob_inv P T i j star retry \<longleftrightarrow> i \<le> length P \<and> j \<le> length T \<and>
     (case star of
        None \<Rightarrow> True
      | Some s \<Rightarrow> s < i \<and> (\<exists>lit. CHR ''*'' \<notin> set lit \<and> j = retry + length lit \<and>
          drop (Suc s) P = lit @ drop i P \<and> drop retry T = lit @ drop j T))"

definition glob_val :: "bool \<Rightarrow> string \<Rightarrow> string \<Rightarrow> nat \<Rightarrow> nat \<Rightarrow> nat option \<Rightarrow> nat \<Rightarrow> bool" where
  "glob_val e P T i j star retry \<longleftrightarrow> robots_glob e (drop i P) (drop j T) \<or>
     (case star of
        None \<Rightarrow> False
      | Some s \<Rightarrow> \<exists>k. retry < k \<and> k \<le> length T \<and> robots_glob e (drop (Suc s) P) (drop k T))"

lemma glob_star_from:
  "j \<le> length T \<Longrightarrow> robots_glob e (CHR ''*'' # p) (drop j T) \<longleftrightarrow>
     (\<exists>k. j \<le> k \<and> k \<le> length T \<and> robots_glob e p (drop k T))"
proof -
  assume j: "j \<le> length T"
  have "(\<exists>m \<le> length T - j. robots_glob e p (drop (m + j) T)) \<longleftrightarrow>
      (\<exists>k. j \<le> k \<and> k \<le> length T \<and> robots_glob e p (drop k T))" (is "?l = ?r")
  proof
    assume ?l
    then obtain m where "m \<le> length T - j" "robots_glob e p (drop (m + j) T)" by blast
    with j show ?r by (intro exI [of _ "m + j"]) simp
  next
    assume ?r
    then obtain k where "j \<le> k" "k \<le> length T" "robots_glob e p (drop k T)" by blast
    then show ?l by (intro exI [of _ "k - j"]) simp
  qed
  then show ?thesis by (simp add: glob_star)
qed

lemma glob_step_star:
  assumes "glob_inv P T i j star retry" "i < length P" "P ! i = CHR ''*''"
  shows "glob_inv P T (Suc i) j (Some i) j"
    and "glob_val e P T (Suc i) j (Some i) j \<longleftrightarrow> glob_val e P T i j star retry"
proof -
  show "glob_inv P T (Suc i) j (Some i) j"
    using assms by (simp add: glob_inv_def)
  have P: "drop i P = CHR ''*'' # drop (Suc i) P"
    using assms(2,3) by (metis Cons_nth_drop_Suc)
  have j: "j \<le> length T" using assms(1) by (simp add: glob_inv_def)
  have now: "glob_val e P T (Suc i) j (Some i) j \<longleftrightarrow> robots_glob e (drop i P) (drop j T)"
    unfolding P glob_star_from [OF j] glob_val_def using j by (auto simp: le_less)
  have old: "robots_glob e (drop i P) (drop j T)"
    if o: "star = Some s" "retry < k" "k \<le> length T" "robots_glob e (drop (Suc s) P) (drop k T)" for s k
  proof -
    from assms(1) o(1) obtain lit where lit: "CHR ''*'' \<notin> set lit" "j = retry + length lit"
      "drop (Suc s) P = lit @ drop i P"
      by (auto simp: glob_inv_def)
    from glob_literal_shape [OF lit(1) o(4) [unfolded lit(3)]] obtain t' where
      t: "drop k T = lit @ t'" "robots_glob e (drop i P) t'" by blast
    define m where "m = k + length lit"
    have "t' = drop m T" using t(1) by (metis append_eq_conv_conj drop_drop add.commute m_def)
    moreover have "length (drop k T) = length lit + length t'" using t(1) by simp
    ultimately have m: "j \<le> m" "m \<le> length T" "robots_glob e (drop i P) (drop m T)"
      using t(2) o(2,3) lit(2) by (simp_all add: m_def)
    then obtain n where "m \<le> n" "n \<le> length T" "robots_glob e (drop (Suc i) P) (drop n T)"
      unfolding P glob_star_from [OF m(2)] by blast
    with m(1) show ?thesis unfolding P glob_star_from [OF j] by (meson le_trans)
  qed
  then show "glob_val e P T (Suc i) j (Some i) j \<longleftrightarrow> glob_val e P T i j star retry"
    unfolding now by (auto simp: glob_val_def split: option.splits)
qed

lemma glob_step_match:
  assumes "glob_inv P T i j star retry" "i < length P" "j < length T" "P ! i \<noteq> CHR ''*''" "P ! i = T ! j"
  shows "glob_inv P T (Suc i) (Suc j) star retry"
    and "glob_val e P T (Suc i) (Suc j) star retry \<longleftrightarrow> glob_val e P T i j star retry"
proof -
  have P: "drop i P = P ! i # drop (Suc i) P" and T: "drop j T = P ! i # drop (Suc j) T"
    using assms(2,3,5) by (metis Cons_nth_drop_Suc)+
  show "glob_val e P T (Suc i) (Suc j) star retry \<longleftrightarrow> glob_val e P T i j star retry"
    using assms(4) unfolding glob_val_def P T by simp
  show "glob_inv P T (Suc i) (Suc j) star retry"
  proof (cases star)
    case None
    with assms show ?thesis by (simp add: glob_inv_def)
  next
    case (Some s)
    with assms(1) obtain lit where "s < i" "CHR ''*'' \<notin> set lit" "j = retry + length lit"
      "drop (Suc s) P = lit @ drop i P" "drop retry T = lit @ drop j T"
      by (auto simp: glob_inv_def)
    with assms(2-4) Some P T show ?thesis
      by (auto simp: glob_inv_def intro!: exI [of _ "lit @ [P ! i]"])
  qed
qed

lemma glob_step_retry:
  assumes "glob_inv P T i j (Some s) retry" "i < length P" "j < length T" "P ! i \<noteq> CHR ''*''" "P ! i \<noteq> T ! j"
  shows "glob_inv P T (Suc s) (Suc retry) (Some s) (Suc retry)"
    and "glob_val e P T (Suc s) (Suc retry) (Some s) (Suc retry) \<longleftrightarrow> glob_val e P T i j (Some s) retry"
    and "retry < length T"
proof -
  have P: "drop i P = P ! i # drop (Suc i) P" and T: "drop j T = T ! j # drop (Suc j) T"
    using assms(2,3) by (metis Cons_nth_drop_Suc)+
  from assms(1,3) have r: "Suc retry \<le> length T" "s < length P" using assms(2) by (auto simp: glob_inv_def)
  then show "retry < length T" "glob_inv P T (Suc s) (Suc retry) (Some s) (Suc retry)"
    by (auto simp: glob_inv_def)
  have next_retry: "(\<exists>k. retry < k \<and> k \<le> length T \<and> R k) \<longleftrightarrow>
      R (Suc retry) \<or> (\<exists>k. Suc retry < k \<and> k \<le> length T \<and> R k)" for R
    using r(1) by (metis Suc_lessI Suc_lessD lessI)
  have "\<not> robots_glob e (drop i P) (drop j T)" unfolding P T using assms(4,5) by simp
  then show "glob_val e P T (Suc s) (Suc retry) (Some s) (Suc retry) \<longleftrightarrow> glob_val e P T i j (Some s) retry"
    using next_retry by (simp add: glob_val_def)
qed

lemma glob_exhausted:
  assumes "glob_inv P T i (length T) star retry"
  shows "dropWhile (\<lambda>c. c = CHR ''*'') (drop i P) = [] \<longleftrightarrow> glob_val e P T i (length T) star retry"
proof
  assume "dropWhile (\<lambda>c. c = CHR ''*'') (drop i P) = []"
  then show "glob_val e P T i (length T) star retry" by (simp add: glob_val_def glob_end)
next
  assume v: "glob_val e P T i (length T) star retry"
  show "dropWhile (\<lambda>c. c = CHR ''*'') (drop i P) = []"
  proof (rule ccontr)
    assume n: "dropWhile (\<lambda>c. c = CHR ''*'') (drop i P) \<noteq> []"
    then have "\<not> robots_glob e (drop i P) (drop (length T) T)" by (simp add: glob_end)
    with v obtain s k where s: "star = Some s" "retry < k" "k \<le> length T"
      "robots_glob e (drop (Suc s) P) (drop k T)"
      by (auto simp: glob_val_def split: option.splits)
    from assms s(1) obtain lit where lit: "CHR ''*'' \<notin> set lit" "length T = retry + length lit"
      "drop (Suc s) P = lit @ drop i P"
      by (auto simp: glob_inv_def)
    from n obtain c where "c \<in> set (drop i P)" "c \<noteq> CHR ''*''"
      by (auto simp: dropWhile_eq_Nil_conv)
    then have "0 < length (filter (\<lambda>c. c \<noteq> CHR ''*'') (drop i P))"
      by (auto simp: filter_empty_conv)
    moreover have "filter (\<lambda>c. c \<noteq> CHR ''*'') lit = lit" using lit(1) by (induction lit) auto
    ultimately have "length lit < length (filter (\<lambda>c. c \<noteq> CHR ''*'') (drop (Suc s) P))"
      using lit(3) by simp
    also have "\<dots> \<le> length (drop k T)" by (rule glob_length [OF s(4)])
    finally show False using s(2) lit(2) by simp
  qed
qed

text \<open>
  The measure of the loop: the rest of the pattern after the current star, the rest of the
  target after the retry point, the rest of the pattern.
\<close>

definition glob_measures :: "string \<Rightarrow> string \<Rightarrow> ((nat \<times> nat \<times> nat option \<times> nat) \<times> (nat \<times> nat \<times> nat option \<times> nat)) set" where
  "glob_measures P T = measures
     [\<lambda>(i, j, star, retry). length P - (case star of None \<Rightarrow> 0 | Some s \<Rightarrow> Suc s),
      \<lambda>(i, j, star, retry). length T - retry, \<lambda>(i, j, star, retry). length P - i]"

definition glob_answer :: "bool \<Rightarrow> string \<Rightarrow> string \<Rightarrow> nat \<Rightarrow> nat \<Rightarrow> nat option \<Rightarrow> nat \<Rightarrow> bool" where
  "glob_answer anchor P T i j star retry \<longleftrightarrow> (\<exists>b. glob_loop P T anchor i j star retry = Some b \<and>
     (b \<longrightarrow> glob_val (\<not> anchor) P T i j star retry) \<and>
     (\<not> anchor \<longrightarrow> glob_val True P T i j star retry \<longrightarrow> b))"

lemma glob_measures_wf: "wf (glob_measures P T)"
  by (simp add: glob_measures_def)

lemma glob_loop_correct:
  "glob_inv P T i j star retry \<Longrightarrow> glob_answer anchor P T i j star retry"
proof (induction "(i, j, star, retry)" arbitrary: i j star retry
    rule: wf_induct_rule [OF glob_measures_wf [of P T], case_names step])
  case (step i j star retry)
  note inv = step.prems
  have bounds: "i \<le> length P" "j \<le> length T" and star: "\<And>s. star = Some s \<Longrightarrow> s < i"
    using inv by (auto simp: glob_inv_def)
  have go: "glob_answer anchor P T i j star retry"
    if m: "((i', j', star', retry'), (i, j, star, retry)) \<in> glob_measures P T"
      and inv': "glob_inv P T i' j' star' retry'"
      and val: "\<And>e. glob_val e P T i' j' star' retry' \<longleftrightarrow> glob_val e P T i j star retry"
      and eq: "glob_loop P T anchor i j star retry = glob_loop P T anchor i' j' star' retry'"
    for i' j' star' retry'
    using step.hyps [OF m inv'] unfolding glob_answer_def val eq .
  note loop = glob_loop.simps [of P T anchor i j star retry]
  show ?case
  proof (cases "j < length T")
    case False
    with bounds have j: "j = length T" by simp
    have "glob_loop P T anchor i j star retry = Some (dropWhile (\<lambda>c. c = CHR ''*'') (drop i P) = [])"
      using False by (subst loop) simp
    with glob_exhausted [OF inv [unfolded j]] show ?thesis
      unfolding glob_answer_def j by blast
  next
    case j: True
    show ?thesis
    proof (cases "i = length P")
      case True
      with j have "glob_loop P T anchor i j star retry = Some (\<not> anchor)" by (subst loop) simp
      with True show ?thesis by (simp add: glob_answer_def glob_val_def)
    next
      case False
      with bounds have i: "i < length P" by simp
      show ?thesis
      proof (cases "P ! i = CHR ''*''")
        case True
        from glob_step_star [OF inv i True] show ?thesis
          by (rule go [rotated]) (use i j True star in \<open>auto simp: loop glob_measures_def split: option.splits\<close>)
      next
        case ns: False
        show ?thesis
        proof (cases "P ! i = T ! j")
          case True
          from glob_step_match [OF inv i j ns True] show ?thesis
            by (rule go [rotated]) (use i j ns True in \<open>auto simp: loop glob_measures_def\<close>)
        next
          case ne: False
          show ?thesis
          proof (cases star)
            case None
            have "\<not> robots_glob True (drop i P) (drop j T)"
              using Cons_nth_drop_Suc [OF i] Cons_nth_drop_Suc [OF j] ns ne
              by (metis robots_glob.simps(3))
            moreover have "glob_loop P T anchor i j star retry = Some False"
              using None i j ns ne by (subst loop) simp
            ultimately show ?thesis using None by (auto simp: glob_answer_def glob_val_def)
          next
            case (Some s)
            have "glob_loop P T anchor i j star retry =
                glob_loop P T anchor (Suc s) (Suc retry) (Some s) (Suc retry)"
              using Some i j ns ne by (subst loop) simp
            with glob_step_retry [OF inv [unfolded Some] i j ns ne] show ?thesis
              by (intro go [of "Suc s" "Suc retry" "Some s" "Suc retry"])
                (auto simp: Some glob_measures_def intro!: diff_less_mono2)
          qed
        qed
      qed
    qed
  qed
qed

lemma glob_start: "glob_inv P T 0 0 None 0" "glob_val e P T 0 0 None 0 = robots_glob e P T"
  by (simp_all add: glob_inv_def glob_val_def)

lemma globMatches_returns: "\<exists>b. globMatches P T anchor = Some b"
  using glob_loop_correct [OF glob_start(1) [of P T], where anchor = anchor] by (auto simp: glob_answer_def globMatches_def)

lemma globMatches_open: "globMatches P T False = Some (robots_glob True P T)"
  using glob_loop_correct [OF glob_start(1) [of P T], where anchor = False]
  by (auto simp: glob_answer_def globMatches_def glob_start(2))

lemma globMatches_anchored: "globMatches P T True = Some True \<Longrightarrow> robots_glob False P T"
  using glob_loop_correct [OF glob_start(1) [of P T], where anchor = True]
  by (auto simp: glob_answer_def globMatches_def glob_start(2))

section \<open>The decision\<close>

definition rule_matches :: "string \<Rightarrow> rule \<Rightarrow> bool" where
  "rule_matches target r \<longleftrightarrow> globMatches (ru_normalized r) target (ru_anchorEnd r) = Some True"

text \<open>
  The decision the protocol asks for: of the matching rules one of greatest specificity, an
  allowing one if there is one; without a matching rule, allowed.
\<close>

definition decision_for :: "string \<Rightarrow> rule set \<Rightarrow> decision \<Rightarrow> bool" where
  "decision_for target R d \<longleftrightarrow>
     (if \<exists>r \<in> R. rule_matches target r then
        dc_Matched d \<and>
        (\<exists>r \<in> R. rule_matches target r \<and> ru_specificity r = dc_Specificity d \<and>
           ru_Allow r = dc_Allowed d \<and> ru_Pattern r = dc_Pattern d) \<and>
        (\<forall>r \<in> R. rule_matches target r \<longrightarrow> ru_specificity r \<le> dc_Specificity d \<and>
           (ru_specificity r = dc_Specificity d \<and> ru_Allow r \<longrightarrow> dc_Allowed d))
      else d = no_match)"

lemma consider_rule_for:
  assumes "decision_for target R d"
  shows "decision_for target (insert r R) (consider_rule target r d)"
proof (cases "rule_matches target r")
  case False
  with assms show ?thesis
    by (simp add: decision_for_def consider_rule_def rule_matches_def [symmetric])
next
  case True
  show ?thesis
  proof (cases "\<exists>r \<in> R. rule_matches target r")
    case False
    with assms have "d = no_match" by (simp add: decision_for_def)
    with True False show ?thesis
      by (auto simp: decision_for_def consider_rule_def rule_matches_def [symmetric] no_match_def)
  next
    case m: True
    with assms have d: "dc_Matched d"
      "\<exists>r \<in> R. rule_matches target r \<and> ru_specificity r = dc_Specificity d \<and>
         ru_Allow r = dc_Allowed d \<and> ru_Pattern r = dc_Pattern d"
      "\<forall>r \<in> R. rule_matches target r \<longrightarrow> ru_specificity r \<le> dc_Specificity d \<and>
         (ru_specificity r = dc_Specificity d \<and> ru_Allow r \<longrightarrow> dc_Allowed d)"
      by (simp_all add: decision_for_def)
    show ?thesis
    proof (cases "ru_specificity r > dc_Specificity d \<or>
        (ru_specificity r = dc_Specificity d \<and> ru_Allow r \<and> \<not> dc_Allowed d)")
      case True
      with \<open>rule_matches target r\<close> d(1,3) show ?thesis
        by (auto simp: decision_for_def consider_rule_def rule_matches_def [symmetric])
    next
      case False
      with \<open>rule_matches target r\<close> d m have "consider_rule target r d = d"
        by (auto simp: consider_rule_def rule_matches_def [symmetric])
      with d m False show ?thesis by (auto simp: decision_for_def)
    qed
  qed
qed

lemma decision_fold:
  "decision_for target R d \<Longrightarrow> decision_for target (R \<union> set rs) (fold (consider_rule target) rs d)"
proof (induction rs arbitrary: R d)
  case (Cons r rs)
  from Cons.IH [OF consider_rule_for [OF Cons.prems, of r]] show ?case by simp
qed simp

lemma decision_of_rules: "decision_for target (set rs) (fold (consider_rule target) rs no_match)"
  using decision_fold [of target "{}" no_match rs] by (simp add: decision_for_def)

lemma decision_unique:
  "decision_for target R d \<Longrightarrow> decision_for target R d' \<Longrightarrow>
   dc_Allowed d = dc_Allowed d' \<and> dc_Specificity d = dc_Specificity d' \<and> dc_Matched d = dc_Matched d'"
  unfolding decision_for_def by (cases "\<exists>r \<in> R. rule_matches target r") (auto, (metis order_antisym)+)

section \<open>Normal paths\<close>

lemma char_of_of_nat_less: "n < 256 \<Longrightarrow> of_char (char_of n :: char) = (n :: nat)"
  by simp

lemma hex_value_upperHex: "n < 16 \<Longrightarrow> hex_value (upperHex n) = Some n"
proof -
  assume "n < 16"
  have "list_all (\<lambda>n. hex_value (upperHex n) = Some n) [0..<16]" by code_simp
  with \<open>n < 16\<close> show ?thesis by (simp add: list_all_iff)
qed

lemma unreserved_plain:
  "isUnreserved c \<Longrightarrow> c \<noteq> CHR ''%'' \<and> 0x20 \<le> (of_char c :: nat) \<and> of_char c < (0x7f :: nat)"
  by (auto simp: isUnreserved_def Let_def)

lemma normalize_percent:
  assumes "n < 256" "\<not> isUnreserved (char_of n)"
  shows "normalize_loop (percent n @ out) = ebind (normalize_loop out) (\<lambda>o1. Inr (percent n @ o1))"
proof -
  have "hex_value (upperHex (n div 16)) = Some (n div 16)"
    using assms(1) by (intro hex_value_upperHex) simp
  moreover have "upperHex n = upperHex (n mod 16)" by (simp add: upperHex_def)
  moreover have "hex_value (upperHex (n mod 16)) = Some (n mod 16)"
    by (intro hex_value_upperHex) simp
  ultimately show ?thesis using assms by (simp add: percent_def Let_def)
qed

lemma normalize_plain:
  "c \<noteq> CHR ''%'' \<Longrightarrow> 0x20 \<le> (of_char c :: nat) \<Longrightarrow> of_char c < (0x7f :: nat) \<Longrightarrow>
   normalize_loop (c # out) = ebind (normalize_loop out) (\<lambda>o1. Inr (c # o1))"
  by (simp add: Let_def)

lemma percent_ascii: "is_ascii (percent n @ r) = is_ascii r"
proof -
  have "of_char (upperHex k) < (128 :: nat)" for k
  proof -
    have "hex_value (upperHex (k mod 16)) = Some (k mod 16)" by (rule hex_value_upperHex) simp
    then show ?thesis using hex_value_ascii by (metis upperHex_def mod_mod_trivial)
  qed
  then show ?thesis by (simp add: percent_def is_ascii_def)
qed

lemma is_ascii_Cons: "is_ascii (c # r) \<longleftrightarrow> of_char c < (128 :: nat) \<and> is_ascii r"
  by (simp add: is_ascii_def)

lemma normalize_loop_normal: "normalize_loop s = Inr r \<Longrightarrow> normalize_loop r = Inr r \<and> is_ascii r"
proof (induction s arbitrary: r rule: length_induct)
  case (1 s)
  show ?case
  proof (cases s)
    case Nil
    with 1 show ?thesis by (simp add: is_ascii_def)
  next
    case (Cons c cs)
    consider n :: nat and out where "n < 256" "isUnreserved (char_of n)" "r = char_of n # out"
        "normalize_loop out = Inr out" "is_ascii out"
      | n :: nat and out where "n < 256" "\<not> isUnreserved (char_of n)" "r = percent n @ out"
        "normalize_loop out = Inr out" "is_ascii out"
      | out where "c \<noteq> CHR ''%''" "0x20 \<le> (of_char c :: nat)" "of_char c < (0x7f :: nat)" "r = c # out"
        "normalize_loop out = Inr out" "is_ascii out"
    proof (cases "c = CHR ''%''")
      case True
      with 1(2) Cons obtain h l rest high low out where cs: "cs = h # l # rest"
        and hex: "hex_value h = Some high" "hex_value l = Some low" and out: "normalize_loop rest = Inr out"
        and r: "r = (if isUnreserved (char_of (16 * high + low)) then [char_of (16 * high + low)]
             else percent (16 * high + low)) @ out"
        by (auto simp: Let_def ebind_eq_Inr split: list.splits option.splits)
      have "high < 16" "low < 16" using hex by (auto simp: hex_value_def Let_def split: if_splits)
      then have n: "16 * high + low < 256" by simp
      from 1(1) [rule_format, OF _ out] have "normalize_loop out = Inr out" "is_ascii out"
        by (simp_all add: Cons cs)
      with that(1,2) [OF n] r show ?thesis by (auto split: if_splits)
    next
      case False
      with 1(2) Cons obtain out where out: "normalize_loop cs = Inr out"
        and r: "r = (if of_char c < (0x80 :: nat) then [c] else percent (of_char c)) @ out"
        and plain: "of_char c < (0x80 :: nat) \<Longrightarrow> \<not> (of_char c < (0x20 :: nat)) \<and> of_char c \<noteq> (0x7f :: nat)"
        by (auto simp: Let_def ebind_eq_Inr split: if_splits)
      from 1(1) [rule_format, OF _ out] have o: "normalize_loop out = Inr out" "is_ascii out"
        by (simp_all add: Cons)
      show ?thesis
      proof (cases "of_char c < (0x80 :: nat)")
        case True
        with r o plain False show ?thesis by (intro that(3) [of out]) auto
      next
        case big: False
        then have "\<not> isUnreserved (char_of (of_char c :: nat))"
          using unreserved_plain [of c] by auto
        moreover have "of_char c < (256 :: nat)" by simp
        ultimately show ?thesis using r o big by (intro that(2) [of "of_char c" out]) simp_all
      qed
    qed
    then show ?thesis
    proof cases
      case (1 n out)
      with unreserved_plain [OF 1(2)] show ?thesis
        by (simp add: normalize_plain is_ascii_Cons del: normalize_loop.simps)
    next
      case (2 n out)
      then show ?thesis by (simp add: normalize_percent percent_ascii del: normalize_loop.simps)
    next
      case (3 out)
      then show ?thesis by (simp add: normalize_plain is_ascii_Cons del: normalize_loop.simps)
    qed
  qed
qed

lemma normalize_loop_nonempty: "normalize_loop (c # cs) \<noteq> Inr []"
  by (subst normalize_loop.simps(2))
    (auto simp: ebind_eq_Inr percent_def Let_def simp del: normalize_loop.simps
      split: list.split option.split)

lemma normalizePath_normal:
  assumes "normalizePath v p = Inr r"
  shows "normalizePath r True = Inr r"
proof -
  from assms have v: "v \<noteq> []" and n: "normalize_loop v = Inr r"
    by (auto simp: normalizePath_def split: if_splits)
  from n v have "r \<noteq> []" using normalize_loop_nonempty by (cases v) auto
  with normalize_loop_normal [OF n] show ?thesis
    by (simp add: normalizePath_def utf8_valid_string_ascii)
qed

section \<open>What a parsed document contains\<close>

definition rule_ok :: "rule \<Rightarrow> bool" where
  "rule_ok r \<longleftrightarrow> ru_specificity r = int (length (filter (\<lambda>c. c \<noteq> CHR ''*'') (ru_normalized r))) \<and>
     normalizePath (ru_normalized r) True = Inr (ru_normalized r) \<and>
     (ru_anchorEnd r \<longleftrightarrow> last (ru_Pattern r) = CHR ''$'')"

definition group_ok :: "group \<Rightarrow> bool" where
  "group_ok g \<longleftrightarrow> gr_Agents g \<noteq> [] \<and> list_all (\<lambda>a. validProductToken a True) (gr_Agents g) \<and>
     list_all rule_ok (gr_Rules g)"

definition state_ok :: "parse_state \<Rightarrow> bool" where
  "state_ok s \<longleftrightarrow> list_all group_ok (rd_Groups (ps_document s)) \<and> pred_option group_ok (ps_current s) \<and>
     0 \<le> rd_ParseErrors (ps_document s)"

lemma parseRule_ok: "parseRule a p = Inr r \<Longrightarrow> rule_ok r"
  by (auto simp: parseRule_def Let_def ebind_eq_Inr rule_ok_def normalizePath_normal split: if_splits)

lemma count_error_ok: "state_ok s \<Longrightarrow> state_ok (count_error s)"
  by (simp add: state_ok_def count_error_def)

lemma user_agent_line_ok: "state_ok s \<Longrightarrow> state_ok (user_agent_line v s)"
  by (cases "ps_current s")
    (auto simp: user_agent_line_def count_error_ok Let_def push_group_def, auto simp: state_ok_def group_ok_def)

lemma rule_line_ok: "state_ok s \<Longrightarrow> state_ok (rule_line a v s)"
proof (cases "ps_current s")
  case (Some g)
  assume s: "state_ok s"
  then have s1: "state_ok (s\<lparr>ps_hadRule := True\<rparr>)" by (simp add: state_ok_def)
  show ?thesis
  proof (cases "parseRule a v")
    case (Inl e)
    with Some s1 count_error_ok [OF s1] show ?thesis by (simp add: rule_line_def Let_def)
  next
    case (Inr r)
    with Some s s1 parseRule_ok [OF Inr] show ?thesis
      by (simp add: rule_line_def Let_def) (simp add: state_ok_def group_ok_def)
  qed
qed (simp add: rule_line_def)

lemma parse_line_ok: "state_ok s \<Longrightarrow> state_ok (parse_line l s)"
  by (simp add: parse_line_def Let_def count_error_ok user_agent_line_ok rule_line_ok)

lemma parse_lines_ok: "state_ok s \<Longrightarrow> state_ok (fold parse_line ls s)"
  by (induction ls arbitrary: s) (simp_all add: parse_line_ok)

lemma robots_Parse_ok:
  assumes "robots_Parse bs = Inr d"
  shows "list_all group_ok (rd_Groups d)"
proof -
  have "state_ok (fold parse_line (splitLines bs) parse_start)"
    by (rule parse_lines_ok) (simp add: state_ok_def parse_start_def)
  with assms show ?thesis
    by (auto simp: robots_Parse_def Let_def state_ok_def push_group_def split: if_splits option.splits)
qed

section \<open>Properties\<close>

text \<open>C21: matching a pattern always ends.\<close>

theorem glob_terminates: "\<exists>b. globMatches pattern target anchorEnd = Some b"
  by (rule globMatches_returns)

text \<open>
  C17: the backtracking loop decides an open pattern as the recursive definition of the pattern
  language does.
\<close>

theorem glob_open_correct: "globMatches pattern target False = Some (robots_glob True pattern target)"
  by (rule globMatches_open)

text \<open>An anchored pattern is only matched by targets of the pattern language.\<close>

theorem glob_anchored_sound:
  assumes "globMatches pattern target True = Some True"
  shows "robots_glob False pattern target"
  using assms by (rule globMatches_anchored)

lemma sample_anchored: "globMatches ''/*a'' ''/xxa'' True = Some True"
  by code_simp

theorem glob_anchored_sound_witness:
  "globMatches ''/*a'' ''/xxa'' True = Some True \<and> robots_glob False ''/*a'' ''/xxa''"
  using sample_anchored glob_anchored_sound [OF sample_anchored] by blast

text \<open>
  The converse fails: once an anchored pattern is used up before the end of the target, the
  loop answers no without trying a longer text for the last star. The rule \<open>Disallow: /*a$\<close>
  does not forbid \<open>/aXa\<close>.
\<close>

theorem glob_anchored_incomplete:
  "robots_glob False ''/*a'' ''/aXa'' \<and> globMatches ''/*a'' ''/aXa'' True = Some False"
proof
  show "robots_glob False ''/*a'' ''/aXa''" by simp
  show "globMatches ''/*a'' ''/aXa'' True = Some False" by code_simp
qed


definition sample_robots :: "string list" where
  "sample_robots = [''User-agent: *'', ''Disallow: /private'', ''Allow: /private/open'']"

definition sample_document :: robots_document where
  "sample_document = (let s = fold parse_line sample_robots parse_start
     in case ps_current s of None \<Rightarrow> ps_document s | Some g \<Rightarrow> push_group g (ps_document s))"

lemma sample_decision:
  "robots_Evaluate (Some sample_document) ''TWIRXBot'' ''/private/open/x'' =
     Inr \<lparr>dc_Allowed = True, dc_Matched = True, dc_Pattern = ''/private/open'', dc_Specificity = 13\<rparr>"
  by code_simp


text \<open>
  The answer does not depend on the order of the rules nor on their repetition: documents
  with the same rules for a product allow the same targets.
\<close>

theorem Evaluate_order_independent:
  assumes "set (rulesFor d token) = set (rulesFor d' token)"
    and "robots_Evaluate (Some d) token path = Inr dec" and "robots_Evaluate (Some d') token path = Inr dec'"
  shows "dc_Allowed dec = dc_Allowed dec' \<and> dc_Specificity dec = dc_Specificity dec' \<and> dc_Matched dec = dc_Matched dec'"
proof (cases "path = ''/robots.txt'' \<or> take 12 path = ''/robots.txt?''")
  case True
  with assms(2,3) show ?thesis by (auto simp: robots_Evaluate_def split: if_splits)
next
  case False
  then obtain target where "normalizePath path False = Inr target"
    and "dec = fold (consider_rule target) (rulesFor d token) no_match"
    and "dec' = fold (consider_rule target) (rulesFor d' token) no_match"
    using assms(2,3) by (auto simp: robots_Evaluate_def split: if_splits sum.splits)
  then show ?thesis
    using decision_of_rules [of target "rulesFor d token"] decision_of_rules [of target "rulesFor d' token"] assms(1)
    by (intro decision_unique [of target "set (rulesFor d token)"]) simp_all
qed

definition reordered_document :: robots_document where
  "reordered_document = (let s = fold parse_line [''User-agent: *'', ''Allow: /private/open'', ''Disallow: /private''] parse_start
     in case ps_current s of None \<Rightarrow> ps_document s | Some g \<Rightarrow> push_group g (ps_document s))"

lemma reordered_rules:
  "rulesFor sample_document ''b'' = rev (rulesFor reordered_document ''b'')"
  by code_simp

lemma reordered_decisions:
  "robots_Evaluate (Some sample_document) ''b'' ''/private/x'' =
     Inr \<lparr>dc_Allowed = False, dc_Matched = True, dc_Pattern = ''/private'', dc_Specificity = 8\<rparr>"
  "robots_Evaluate (Some reordered_document) ''b'' ''/private/x'' =
     Inr \<lparr>dc_Allowed = False, dc_Matched = True, dc_Pattern = ''/private'', dc_Specificity = 8\<rparr>"
  by code_simp+

theorem Evaluate_order_independent_witness:
  "\<exists>dec dec'. robots_Evaluate (Some sample_document) ''b'' ''/private/x'' = Inr dec \<and>
     robots_Evaluate (Some reordered_document) ''b'' ''/private/x'' = Inr dec' \<and> dc_Allowed dec = dc_Allowed dec'"
  using reordered_decisions
    Evaluate_order_independent [of sample_document "''b''" reordered_document, OF _ reordered_decisions]
  by (simp add: reordered_rules)

text \<open>Normalizing a normalized path changes nothing.\<close>

theorem normalizePath_idempotent:
  assumes "normalizePath value pattern = Inr r"
  shows "normalizePath r True = Inr r"
  using assms by (rule normalizePath_normal)

lemma sample_path: "normalizePath ''/%7euser/%2f'' False = Inr ''/~user/%2F''"
  by code_simp

theorem normalizePath_idempotent_witness:
  "normalizePath ''/%7euser/%2f'' False = Inr ''/~user/%2F'' \<and>
   normalizePath ''/~user/%2F'' True = Inr ''/~user/%2F''"
  using sample_path normalizePath_idempotent [OF sample_path] by blast

text \<open>
  C32: every group of a parsed document has an agent, its agents are product tokens or the
  wildcard, and its rules are normalized and carry the specificity of their pattern.
\<close>

theorem Parse_groups_ok:
  assumes "robots_Parse bs = Inr d"
  shows "\<forall>g \<in> set (rd_Groups d). gr_Agents g \<noteq> [] \<and> (\<forall>a \<in> set (gr_Agents g). validProductToken a True) \<and>
    (\<forall>r \<in> set (gr_Rules g). normalizePath (ru_normalized r) True = Inr (ru_normalized r) \<and>
       ru_specificity r = int (length (filter (\<lambda>c. c \<noteq> CHR ''*'') (ru_normalized r))))"
  using robots_Parse_ok [OF assms] by (auto simp: list_all_iff group_ok_def rule_ok_def)

definition sample_bytes :: "byte list" where
  "sample_bytes = [85, 115, 101, 114, 45, 97, 103, 101, 110, 116, 58, 42, 10, 65, 108, 108, 111, 119, 58, 47, 112]"

lemma sample_lines: "splitLines sample_bytes = [''User-agent:*'', ''Allow:/p'']"
  by (simp add: sample_bytes_def splitLines_def string_of_bytes_def char_of_byte_def) code_simp

lemma sample_fold:
  "fold parse_line [''User-agent:*'', ''Allow:/p''] parse_start =
   \<lparr>ps_document = \<lparr>rd_Groups = [], rd_ParseErrors = 0\<rparr>,
    ps_current = Some \<lparr>gr_Agents = [''*''], gr_Rules = [\<lparr>ru_Allow = True, ru_Pattern = ''/p'',
       ru_normalized = ''/p'', ru_anchorEnd = False, ru_specificity = 2\<rparr>]\<rparr>, ps_hadRule = True\<rparr>"
  by code_simp

lemma sample_parse: "\<exists>d. robots_Parse sample_bytes = Inr d"
proof -
  have "utf8_valid sample_bytes"
    by (rule utf8_valid_ascii) (simp add: sample_bytes_def word_less_nat_alt)
  then show ?thesis
    by (simp add: robots_Parse_def sample_lines sample_fold Let_def) (simp add: sample_bytes_def)
qed

theorem Parse_groups_ok_witness:
  "\<exists>d. robots_Parse sample_bytes = Inr d \<and> (\<forall>g \<in> set (rd_Groups d). gr_Agents g \<noteq> [])"
  using sample_parse Parse_groups_ok [of sample_bytes] by blast


end
