(* ===== verification/Dataplane_Common.thy ===== *)
theory Dataplane_Common
  imports Cbor_Document Go_Time
begin

text \<open>
  \<open>internal/dataplane/common.go\<close>: the parts the documents of the data plane share.
  Optional texts and digests, typed values with their canonical lexical forms, sorted sets, the
  validators, and the codec of each part.
\<close>

section \<open>Data\<close>

definition MaxDocumentBytes :: nat where "MaxDocumentBytes = 4194304"
definition MaxIdentifier :: nat where "MaxIdentifier = 512"
definition MaxLocator :: nat where "MaxLocator = 16384"
definition MaxLexical :: nat where "MaxLexical = 262144"
definition MaxShortText :: nat where "MaxShortText = 255"

lemmas dataplane_limits [simp] =
  MaxDocumentBytes_def MaxIdentifier_def MaxLocator_def MaxLexical_def MaxShortText_def

record opt_digest =
  od_Present :: bool
  od_Value :: "byte list"

record opt_text =
  ot_Present :: bool
  ot_Value :: string

record typed_value =
  tv_Type :: string
  tv_Lexical :: string
  tv_Unit :: opt_text
  tv_Currency :: opt_text

definition invalid :: "string \<Rightarrow> error" where
  "invalid m = Wrap m ErrInvalid"

section \<open>Validators\<close>

definition dp_validateText :: "string \<Rightarrow> string \<Rightarrow> nat \<Rightarrow> bool \<Rightarrow> error option" where
  "dp_validateText name value limit allowEmpty =
     fail_if ((\<not> allowEmpty \<and> value = []) \<or> length value > limit \<or>
              \<not> utf8_valid_string value \<or> CHR 0x00 \<in> set value)
       (invalid (name @ '' is empty, invalid UTF-8, contains NUL, or exceeds its bound''))"

definition validateIdentifier :: "string \<Rightarrow> string \<Rightarrow> error option" where
  "validateIdentifier name value = dp_validateText name value MaxIdentifier False"

definition validateEnum :: "string \<Rightarrow> string \<Rightarrow> string list \<Rightarrow> error option" where
  "validateEnum name value allowed =
     (if value \<in> set allowed then None else Some (invalid (''unsupported '' @ name)))"

definition validateUTCSecond :: "string \<Rightarrow> string \<Rightarrow> error option" where
  "validateUTCSecond name value =
     fail_if (\<not> canonical_utc_second value) (invalid (name @ '' must be canonical UTC seconds''))"

definition validateOptionalUTCSecond :: "string \<Rightarrow> opt_text \<Rightarrow> error option" where
  "validateOptionalUTCSecond name value =
     (if \<not> ot_Present value
      then fail_if (ot_Value value \<noteq> []) (invalid (''absent '' @ name @ '' carries a value''))
      else validateUTCSecond name (ot_Value value))"

definition validateOptionalIdentifier :: "string \<Rightarrow> opt_text \<Rightarrow> error option" where
  "validateOptionalIdentifier name value =
     (if \<not> ot_Present value
      then fail_if (ot_Value value \<noteq> []) (invalid (''absent '' @ name @ '' carries a value''))
      else validateIdentifier name (ot_Value value))"

definition validateOptionalDigest :: "string \<Rightarrow> opt_digest \<Rightarrow> error option" where
  "validateOptionalDigest name value =
     fail_if (\<not> od_Present value \<and> od_Value value \<noteq> zero_digest)
       (invalid (''absent '' @ name @ '' carries a digest''))"

text \<open>The loop over the values; \<open>previous\<close> is \<open>values[i-1]\<close> for \<open>i > 0\<close>.\<close>

fun validate_sorted_text :: "string \<Rightarrow> string option \<Rightarrow> string list \<Rightarrow> error option" where
  "validate_sorted_text name previous [] = None"
| "validate_sorted_text name previous (value # rest) = first_err [
     validateIdentifier name value,
     fail_if (case previous of None \<Rightarrow> False | Some p \<Rightarrow> \<not> p < value)
       (invalid (name @ '' must be strictly sorted and unique'')),
     validate_sorted_text name (Some value) rest]"

definition validateSortedUniqueText :: "string \<Rightarrow> string list \<Rightarrow> nat \<Rightarrow> error option" where
  "validateSortedUniqueText name values maxCount = first_err [
     fail_if (length values > maxCount) (invalid (name @ '' count exceeds the limit'')),
     validate_sorted_text name None values]"

fun strictly_sorted :: "('a :: linorder) list \<Rightarrow> bool" where
  "strictly_sorted (x # y # r) = (x < y \<and> strictly_sorted (y # r))"
| "strictly_sorted _ = True"

definition validateSortedUniqueDigests :: "string \<Rightarrow> byte list list \<Rightarrow> nat \<Rightarrow> nat \<Rightarrow> error option" where
  "validateSortedUniqueDigests name values maxCount minimum = first_err [
     fail_if (length values < minimum \<or> length values > maxCount)
       (invalid (name @ '' count outside its range'')),
     fail_if (\<not> strictly_sorted values) (invalid (name @ '' must be strictly sorted and unique''))]"

definition upper_letter :: "char \<Rightarrow> bool" where
  "upper_letter c \<longleftrightarrow> CHR ''A'' \<le> c \<and> c \<le> CHR ''Z''"

definition lower_letter :: "char \<Rightarrow> bool" where
  "lower_letter c \<longleftrightarrow> CHR ''a'' \<le> c \<and> c \<le> CHR ''z''"

definition validateCurrency :: "opt_text \<Rightarrow> error option" where
  "validateCurrency value =
     (if \<not> ot_Present value
      then fail_if (ot_Value value \<noteq> []) (invalid ''absent currency carries a value'')
      else fail_if (length (ot_Value value) \<noteq> 3 \<or> \<not> list_all upper_letter (ot_Value value))
        (invalid ''currency must be three uppercase ASCII letters''))"

section \<open>Lexical forms\<close>

definition unsigned_integer :: "string \<Rightarrow> bool" where
  "unsigned_integer s \<longleftrightarrow> s \<noteq> [] \<and> all_digits s \<and> (hd s = CHR ''0'' \<longrightarrow> length s = 1)"

definition strip_minus :: "string \<Rightarrow> string" where
  "strip_minus s = (case s of c # r \<Rightarrow> if c = CHR ''-'' then r else s | [] \<Rightarrow> s)"

text \<open>\<^verbatim>\<open>^-?(0|[1-9][0-9]*)$\<close> and \<^verbatim>\<open>^-?(0|[1-9][0-9]*)\.[0-9]+$\<close>\<close>

definition integerPattern :: "string \<Rightarrow> bool" where
  "integerPattern s = unsigned_integer (strip_minus s)"

definition decimalPattern :: "string \<Rightarrow> bool" where
  "decimalPattern s =
     (let u = strip_minus s; whole = takeWhile is_digit u; rest = dropWhile is_digit u
      in unsigned_integer whole \<and> (case rest of
           c # f \<Rightarrow> c = CHR ''.'' \<and> f \<noteq> [] \<and> all_digits f
         | [] \<Rightarrow> False))"

definition scheme_char :: "char \<Rightarrow> bool" where
  "scheme_char c \<longleftrightarrow> upper_letter c \<or> lower_letter c \<or> is_digit c \<or> c \<in> set ''+-.''"

definition validAbsoluteURI :: "string \<Rightarrow> bool" where
  "validAbsoluteURI value =
     (let scheme = takeWhile (\<lambda>c. c \<noteq> CHR '':'') value in
      if CHR '':'' \<notin> set value \<or> scheme = [] \<or> \<not> (upper_letter (hd value) \<or> lower_letter (hd value))
      then False
      else list_all (\<lambda>c. \<not> (of_char c \<le> (0x20 :: nat)) \<and> c \<noteq> CHR 0x7F) value \<and>
           list_all scheme_char (tl scheme) \<and> length scheme + 1 < length value)"

text \<open>
  \<open>validDuration\<close>: the index of the code is the rest of the text that is still to be
  read. \<open>duration_units\<close> is the loop over \<open>H\<close>, \<open>M\<close>, \<open>S\<close>; its result is
  \<open>None\<close> where the code returns false at once.
\<close>

fun duration_units :: "string \<Rightarrow> string \<Rightarrow> bool \<Rightarrow> (string \<times> bool) option" where
  "duration_units [] rest timeSeen = Some (rest, timeSeen)"
| "duration_units (unit # units) rest timeSeen =
     (if takeWhile is_digit rest = [] then duration_units units rest timeSeen
      else
        let r1 = dropWhile is_digit rest;
            fraction = (unit = CHR ''S'' \<and> r1 \<noteq> [] \<and> hd r1 = CHR ''.'')
        in if fraction \<and> takeWhile is_digit (tl r1) = [] then None
           else
             let r2 = (if fraction then dropWhile is_digit (tl r1) else r1)
             in if r2 \<noteq> [] \<and> hd r2 = unit then duration_units units (tl r2) True
                else duration_units units rest timeSeen)"

definition validDuration :: "string \<Rightarrow> bool" where
  "validDuration value =
     (if length value < 2 \<or> hd value \<noteq> CHR ''P'' then False
      else
        let r0 = tl value;
            d = dropWhile is_digit r0;
            daySeen = (takeWhile is_digit r0 \<noteq> [] \<and> d \<noteq> [] \<and> hd d = CHR ''D'');
            r1 = (if daySeen then tl d else r0)
        in if r1 \<noteq> [] \<and> hd r1 = CHR ''T''
           then (case duration_units ''HMS'' (tl r1) False of
                   None \<Rightarrow> False
                 | Some (rest, timeSeen) \<Rightarrow> timeSeen \<and> rest = [])
           else daySeen \<and> r1 = [])"

definition TypedValue_Validate :: "typed_value \<Rightarrow> error option" where
  "TypedValue_Validate v = first_err [
     validateEnum ''typed value type'' (tv_Type v)
       [''boolean'', ''integer'', ''decimal'', ''text'', ''date'', ''datetime'', ''duration'',
        ''uri'', ''identifier''],
     dp_validateText ''typed lexical'' (tv_Lexical v) MaxLexical False,
     validateOptionalIdentifier ''unit'' (tv_Unit v),
     validateCurrency (tv_Currency v),
     (if tv_Type v = ''boolean'' then
        fail_if (tv_Lexical v \<noteq> ''true'' \<and> tv_Lexical v \<noteq> ''false'') (invalid ''boolean lexical form'')
      else if tv_Type v = ''integer'' then
        fail_if (\<not> integerPattern (tv_Lexical v)) (invalid ''integer lexical form'')
      else if tv_Type v = ''decimal'' then
        fail_if (\<not> decimalPattern (tv_Lexical v)) (invalid ''decimal lexical form'')
      else if tv_Type v = ''date'' then
        fail_if (\<not> canonical_date (tv_Lexical v)) (invalid ''date lexical form'')
      else if tv_Type v = ''datetime'' then validateUTCSecond ''datetime lexical'' (tv_Lexical v)
      else if tv_Type v = ''duration'' then
        fail_if (\<not> validDuration (tv_Lexical v)) (invalid ''duration lexical form'')
      else if tv_Type v = ''uri'' then
        fail_if (\<not> validAbsoluteURI (tv_Lexical v)) (invalid ''absolute URI lexical form'')
      else if tv_Type v = ''identifier'' then validateIdentifier ''identifier lexical'' (tv_Lexical v)
      else None)]"

text \<open>\<open>strconv.ParseUint\<close> refuses a value of more than 64 bits.\<close>

definition parseCanonicalUintText :: "string \<Rightarrow> error + uint64" where
  "parseCanonicalUintText value =
     (if value = [] \<or> (length value > 1 \<and> hd value = CHR ''0'') then Inl ErrInvalid
      else if \<not> all_digits value \<or> decimal_value value \<ge> 2 ^ 64 then Inl ErrInvalid
      else Inr (word_of_nat (decimal_value value)))"

section \<open>Parts of documents\<close>

definition encodeOptionalDigest :: "opt_digest \<Rightarrow> enc_call list" where
  "encodeOptionalDigest v = (if \<not> od_Present v then [CNil] else enc_digest (od_Value v))"

definition dp_decodeDigest :: "byte list parser" where
  "dp_decodeDigest = dec_digest_or (invalid ''digest must be 32 bytes'')"

definition decodeOptionalDigest :: "opt_digest parser" where
  "decodeOptionalDigest = dbind dec_TryNil (\<lambda>nilValue.
     if nilValue then dret \<lparr>od_Present = False, od_Value = zero_digest\<rparr>
     else dbind dp_decodeDigest (\<lambda>value. dret \<lparr>od_Present = True, od_Value = value\<rparr>))"

definition encodeOptionalText :: "opt_text \<Rightarrow> enc_call list" where
  "encodeOptionalText v = (if \<not> ot_Present v then [CNil] else [CText (ot_Value v)])"

definition decodeOptionalText :: "uint64 \<Rightarrow> opt_text parser" where
  "decodeOptionalText limit = dbind dec_TryNil (\<lambda>nilValue.
     if nilValue then dret \<lparr>ot_Present = False, ot_Value = []\<rparr>
     else dbind (dec_Text limit) (\<lambda>value. dret \<lparr>ot_Present = True, ot_Value = value\<rparr>))"

definition encodeTypedValue :: "typed_value \<Rightarrow> enc_call list" where
  "encodeTypedValue v = [CArray 4, CText (tv_Type v), CText (tv_Lexical v)]
     @ encodeOptionalText (tv_Unit v) @ encodeOptionalText (tv_Currency v)"

text \<open>\<^verbatim>\<open>return value, value.Validate()\<close>\<close>

definition dcheck :: "error option \<Rightarrow> 'a \<Rightarrow> 'a parser" where
  "dcheck c x = (case c of None \<Rightarrow> dret x | Some e \<Rightarrow> dfail e)"

definition decodeTypedValue :: "typed_value parser" where
  "decodeTypedValue =
     dbind (expect_Array 4 (invalid ''typed value array'')) (\<lambda>_.
     dbind (dec_Text (word_of_nat MaxIdentifier)) (\<lambda>type.
     dbind (dec_Text (word_of_nat MaxLexical)) (\<lambda>lexical.
     dbind (decodeOptionalText (word_of_nat MaxIdentifier)) (\<lambda>unit.
     dbind (decodeOptionalText 3) (\<lambda>currency.
     let value = \<lparr>tv_Type = type, tv_Lexical = lexical, tv_Unit = unit, tv_Currency = currency\<rparr>
     in dcheck (TypedValue_Validate value) value)))))"

definition dp_decodeBool :: "bool parser" where
  "dp_decodeBool = dec_bool_or (invalid ''boolean must be 0 or 1'')"

definition encodeTextSet :: "string list \<Rightarrow> enc_call list" where
  "encodeTextSet = enc_counted (\<lambda>value. [CText value])"

definition decodeTextSet :: "nat \<Rightarrow> nat \<Rightarrow> string list parser" where
  "decodeTextSet maxCount minCount =
     dbind (dec_counted (word_of_nat minCount) (word_of_nat maxCount)
       (invalid ''text-set count outside bounds'') (dec_Text (word_of_nat MaxIdentifier))) (\<lambda>values.
     dcheck (validateSortedUniqueText ''text set'' values maxCount) values)"

definition encodeDigestSet :: "byte list list \<Rightarrow> enc_call list" where
  "encodeDigestSet = enc_counted enc_digest"

definition decodeDigestSet :: "nat \<Rightarrow> nat \<Rightarrow> byte list list parser" where
  "decodeDigestSet maxCount minCount =
     dbind (dec_counted (word_of_nat minCount) (word_of_nat maxCount)
       (invalid ''digest-set count outside bounds'') dp_decodeDigest) (\<lambda>values.
     dcheck (validateSortedUniqueDigests ''digest set'' values maxCount minCount) values)"

definition expectEmptyExtensions :: "unit parser" where
  "expectEmptyExtensions = expect_Array 0 (invalid ''extensions must be empty'')"

definition dp_finish :: "unit parser" where
  "dp_finish = dec_finish ErrTrailingBytes"

text \<open>\<open>boundedEncoding\<close> and \<open>checkedDocument\<close> with the parser that follows.\<close>

definition boundedEncoding :: "enc_call list \<Rightarrow> error + byte list" where
  "boundedEncoding cs = (let encoded = emit cs in
     if encoded = [] \<or> length encoded > MaxDocumentBytes
     then Inl (invalid ''encoded document exceeds its bound'') else Inr encoded)"

definition checkedDocument :: "byte list \<Rightarrow> nat \<Rightarrow> 'a parser \<Rightarrow> error + 'a" where
  "checkedDocument bs maximum p =
     (if bs = [] \<or> length bs > maximum then Inl (invalid ''byte length outside its range'')
      else run_document p bs)"

section \<open>When the validators accept\<close>

lemma dp_validateText_None [accept_simps]:
  "dp_validateText name value limit allowEmpty = None \<longleftrightarrow>
     (allowEmpty \<or> value \<noteq> []) \<and> length value \<le> limit \<and> utf8_valid_string value \<and> CHR 0x00 \<notin> set value"
  by (auto simp: dp_validateText_def accept_simps)

lemma validateIdentifier_None [accept_simps]:
  "validateIdentifier name value = None \<longleftrightarrow>
     value \<noteq> [] \<and> length value \<le> 512 \<and> utf8_valid_string value \<and> CHR 0x00 \<notin> set value"
  by (simp add: validateIdentifier_def accept_simps)

lemma validateEnum_None [accept_simps]: "validateEnum name value allowed = None \<longleftrightarrow> value \<in> set allowed"
  by (simp add: validateEnum_def)

lemma validateUTCSecond_None [accept_simps]:
  "validateUTCSecond name value = None \<longleftrightarrow> canonical_utc_second value"
  by (simp add: validateUTCSecond_def accept_simps)

lemma validateOptionalUTCSecond_None [accept_simps]:
  "validateOptionalUTCSecond name v = None \<longleftrightarrow>
     (if ot_Present v then canonical_utc_second (ot_Value v) else ot_Value v = [])"
  by (simp add: validateOptionalUTCSecond_def accept_simps)

lemma validateOptionalIdentifier_None [accept_simps]:
  "validateOptionalIdentifier name v = None \<longleftrightarrow>
     (if ot_Present v then validateIdentifier name (ot_Value v) = None else ot_Value v = [])"
  by (simp add: validateOptionalIdentifier_def accept_simps)

lemma validateOptionalDigest_None [accept_simps]:
  "validateOptionalDigest name v = None \<longleftrightarrow> (od_Present v \<or> od_Value v = zero_digest)"
  by (auto simp: validateOptionalDigest_def accept_simps)

lemma validateCurrency_None [accept_simps]:
  "validateCurrency v = None \<longleftrightarrow>
     (if ot_Present v then length (ot_Value v) = 3 \<and> list_all upper_letter (ot_Value v)
      else ot_Value v = [])"
  by (simp add: validateCurrency_def accept_simps)

lemma validate_sorted_text_None:
  "validate_sorted_text name previous vs = None \<longleftrightarrow>
     (\<forall>v \<in> set vs. validateIdentifier name v = None) \<and>
     strictly_sorted ((case previous of None \<Rightarrow> [] | Some p \<Rightarrow> [p]) @ vs)"
proof (induction vs arbitrary: previous)
  case Nil
  then show ?case by (simp split: option.split)
next
  case (Cons v vs)
  then show ?case
    by (cases previous) (auto simp: first_err_None fail_if_None)
qed

lemma validateSortedUniqueText_None [accept_simps]:
  "validateSortedUniqueText name values k = None \<longleftrightarrow>
     length values \<le> k \<and> (\<forall>v \<in> set values. validateIdentifier name v = None) \<and> strictly_sorted values"
  by (auto simp: validateSortedUniqueText_def first_err_None fail_if_None validate_sorted_text_None)

lemma validateSortedUniqueDigests_None [accept_simps]:
  "validateSortedUniqueDigests name values k m = None \<longleftrightarrow>
     m \<le> length values \<and> length values \<le> k \<and> strictly_sorted values"
  by (auto simp: validateSortedUniqueDigests_def accept_simps)

lemma strictly_sorted_iff: "strictly_sorted xs \<longleftrightarrow> sorted xs \<and> distinct xs"
proof (induction xs rule: strictly_sorted.induct)
  case (1 x y r)
  then show ?case by (auto dest: leD) (meson less_imp_le order_trans)
qed simp_all

text \<open>ASCII texts are valid UTF-8.\<close>

lemma is_ascii_all: "(\<And>c. Q c \<Longrightarrow> of_char c < (128 :: nat)) \<Longrightarrow> list_all Q s \<Longrightarrow> is_ascii s"
  by (induction s) (simp_all add: is_ascii_def)

lemma upper_letter_ascii: "upper_letter c \<Longrightarrow> of_char c < (128 :: nat)"
  and lower_letter_ascii: "lower_letter c \<Longrightarrow> of_char c < (128 :: nat)"
  and is_digit_ascii: "is_digit c \<Longrightarrow> of_char c < (128 :: nat)"
  by (auto simp: upper_letter_def lower_letter_def is_digit_def less_eq_char_def)

lemma all_digits_nth:
  "all_digits (sub_text i n s) \<Longrightarrow> i \<le> k \<Longrightarrow> k < i + n \<Longrightarrow> k < length s \<Longrightarrow> is_digit (s ! k)"
  by (clarsimp simp: all_digits_def sub_text_def list_all_length) (drule spec [of _ "k - i"], auto)

lemma canonical_date_ascii:
  assumes "canonical_date s"
  shows "is_ascii s"
proof -
  have l: "length s = 10" using assms by (simp add: canonical_date_def)
  have "of_char (s ! k) < (128 :: nat)" if "k < 10" for k
  proof -
    from that consider "k < 4" | "k = 4" | "5 \<le> k \<and> k < 7" | "k = 7" | "8 \<le> k" by linarith
    then show ?thesis
      using assms that l all_digits_nth [of 0 4 s k] all_digits_nth [of 5 2 s k] all_digits_nth [of 8 2 s k]
      by cases (simp_all add: canonical_date_def is_digit_ascii)
  qed
  then show ?thesis using l by (simp add: is_ascii_def list_all_length)
qed

lemma canonical_clock_ascii:
  assumes "canonical_clock s"
  shows "is_ascii s"
proof -
  have l: "length s = 8" using assms by (simp add: canonical_clock_def)
  have "of_char (s ! k) < (128 :: nat)" if "k < 8" for k
  proof -
    from that consider "k < 2" | "k = 2" | "3 \<le> k \<and> k < 5" | "k = 5" | "6 \<le> k" by linarith
    then show ?thesis
      using assms that l all_digits_nth [of 0 2 s k] all_digits_nth [of 3 2 s k] all_digits_nth [of 6 2 s k]
      by cases (simp_all add: canonical_clock_def is_digit_ascii)
  qed
  then show ?thesis using l by (simp add: is_ascii_def list_all_length)
qed

lemma canonical_utc_second_ascii:
  assumes "canonical_utc_second s"
  shows "is_ascii s"
proof -
  have l: "length s = 20" using assms by (simp add: canonical_utc_second_def)
  have d: "is_ascii (sub_text 0 10 s)" "is_ascii (sub_text 11 8 s)" "s ! 10 = CHR ''T''" "s ! 19 = CHR ''Z''"
    using assms by (auto simp: canonical_utc_second_def canonical_date_ascii canonical_clock_ascii)
  have "of_char (s ! k) < (128 :: nat)" if "k < 20" for k
  proof -
    from that consider "k < 10" | "k = 10" | "11 \<le> k \<and> k < 19" | "k = 19" by linarith
    then show ?thesis
    proof cases
      case 1
      with d(1) l show ?thesis by (auto simp: is_ascii_def list_all_length sub_text_def)
    next
      case 3
      then have "sub_text 11 8 s ! (k - 11) = s ! k" "k - 11 < length (sub_text 11 8 s)"
        using l by (auto simp: sub_text_def)
      with d(2) show ?thesis unfolding is_ascii_def list_all_length by metis
    qed (simp_all add: d)
  qed
  then show ?thesis using l by (simp add: is_ascii_def list_all_length)
qed

lemma canonical_utc_second_utf8: "canonical_utc_second s \<Longrightarrow> utf8_valid_string s"
  by (intro utf8_valid_string_ascii canonical_utc_second_ascii)

section \<open>The codecs of the parts\<close>

lemma dec_sound_dcheck: "dec_sound (dcheck c x) (\<lambda>y b. y = x \<and> c = None \<and> b = [])"
  by (cases c) (auto simp: dcheck_def intro: dec_sound_fail dec_sound_ret)

lemma dcheck_None [decode_simps]: "dcheck None x = dret x"
  by (simp add: dcheck_def)

definition opt_text_ok :: "uint64 \<Rightarrow> opt_text \<Rightarrow> bool" where
  "opt_text_ok limit v \<longleftrightarrow> (if ot_Present v then text_ok limit (ot_Value v) else ot_Value v = [])"

definition opt_digest_ok :: "opt_digest \<Rightarrow> bool" where
  "opt_digest_ok v \<longleftrightarrow> (if od_Present v then digest32 (od_Value v) else od_Value v = zero_digest)"

lemma emit_encodeOptionalText [emit_simps]:
  "emit (c # encodeOptionalText v) = emit [c] @ emit (encodeOptionalText v)"
  "emit (c # encodeOptionalDigest d) = emit [c] @ emit (encodeOptionalDigest d)"
  by (simp_all add: emit_eq)

interpretation dp_opt_text: codec encodeOptionalText "decodeOptionalText limit" "opt_text_ok limit" for limit
proof
  show "decodeOptionalText limit (dec_at pre (emit (encodeOptionalText x) @ r)) =
      Inr (x, dec_at (pre @ emit (encodeOptionalText x)) r)" if "opt_text_ok limit x" for x pre r
    using that
    by (cases x) (simp add: decodeOptionalText_def encodeOptionalText_def opt_text_ok_def decode_simps
        dec_TryNil_other [OF emit_not_nil(1)] split: if_splits)
  show "dec_sound (decodeOptionalText limit)
      (\<lambda>x c. opt_text_ok limit x \<and> c = emit (encodeOptionalText x))"
    unfolding decodeOptionalText_def
    by (rule dec_sound_bind [OF dec_sound_TryNil], rule dec_sound_if)
      (auto intro!: dec_sound_ret dec_sound_bind [OF cbor_text.sound]
        simp: encodeOptionalText_def opt_text_ok_def)
qed

interpretation dp_digest: codec enc_digest dp_decodeDigest digest32
  unfolding dp_decodeDigest_def by unfold_locales

interpretation dp_opt_digest: codec encodeOptionalDigest decodeOptionalDigest opt_digest_ok
proof
  show "decodeOptionalDigest (dec_at pre (emit (encodeOptionalDigest x) @ r)) =
      Inr (x, dec_at (pre @ emit (encodeOptionalDigest x)) r)" if "opt_digest_ok x" for x pre r
    using that
    by (cases x) (simp add: decodeOptionalDigest_def encodeOptionalDigest_def opt_digest_ok_def decode_simps
        dec_TryNil_other [OF emit_not_nil(2)] dp_digest.complete [unfolded enc_digest_def] enc_digest_def
        split: if_splits)
  show "dec_sound decodeOptionalDigest (\<lambda>x c. opt_digest_ok x \<and> c = emit (encodeOptionalDigest x))"
    unfolding decodeOptionalDigest_def
    by (rule dec_sound_bind [OF dec_sound_TryNil], rule dec_sound_if)
      (auto intro!: dec_sound_ret dec_sound_bind [OF dp_digest.sound]
        simp: encodeOptionalDigest_def opt_digest_ok_def)
qed

lemmas dp_complete [decode_simps] =
  dp_opt_text.complete dp_opt_text.complete_last dp_digest.complete dp_digest.complete_last
  dp_opt_digest.complete dp_opt_digest.complete_last

lemmas dp_sound [sound_intros] = dp_opt_text.sound dp_digest.sound dp_opt_digest.sound dec_sound_dcheck

definition typed_ok :: "typed_value \<Rightarrow> bool" where
  "typed_ok v \<longleftrightarrow> TypedValue_Validate v = None"

lemma opt_identifier_ok: "validateOptionalIdentifier n v = None \<Longrightarrow> opt_text_ok 512 v"
  by (simp add: accept_simps opt_text_ok_def text_ok_def split: if_splits)

lemma typed_ok_fits:
  assumes "typed_ok v"
  shows "text_ok 512 (tv_Type v)" "text_ok 262144 (tv_Lexical v)" "opt_text_ok 512 (tv_Unit v)"
    "opt_text_ok 3 (tv_Currency v)"
proof -
  note v = assms [unfolded typed_ok_def TypedValue_Validate_def first_err_None]
  show "text_ok 512 (tv_Type v)" using v by (auto simp: validateEnum_None text_ok_def)
  show "text_ok 262144 (tv_Lexical v)" using v by (simp add: dp_validateText_None text_ok_def)
  show "opt_text_ok 512 (tv_Unit v)" using v opt_identifier_ok by blast
  have c: "validateCurrency (tv_Currency v) = None" using v by blast
  then show "opt_text_ok 3 (tv_Currency v)"
    by (auto simp: validateCurrency_None opt_text_ok_def text_ok_def split: if_splits
        intro!: utf8_valid_string_ascii is_ascii_all [OF upper_letter_ascii])
qed

interpretation dp_typed: codec encodeTypedValue decodeTypedValue typed_ok
proof
  show "decodeTypedValue (dec_at pre (emit (encodeTypedValue x) @ r)) =
      Inr (x, dec_at (pre @ emit (encodeTypedValue x)) r)" if "typed_ok x" for x pre r
    using typed_ok_fits [OF that] that
    by (cases x) (simp add: decodeTypedValue_def encodeTypedValue_def emit_simps decode_simps typed_ok_def Let_def)
  show "dec_sound decodeTypedValue (\<lambda>x c. typed_ok x \<and> c = emit (encodeTypedValue x))"
    unfolding decodeTypedValue_def dataplane_limits of_nat_numeral Let_def
    apply (rule dec_sound_bind, rule sound_intros)+
    apply (rule dec_sound_mono, rule sound_intros)
    apply (simp add: encodeTypedValue_def typed_ok_def emit_simps)
    done
qed

definition text_set_ok :: "nat \<Rightarrow> nat \<Rightarrow> string list \<Rightarrow> bool" where
  "text_set_ok k m vs \<longleftrightarrow>
     (list_all (text_ok 512) vs \<and> unat (word_of_nat m :: uint64) \<le> length vs \<and>
      length vs \<le> unat (word_of_nat k :: uint64)) \<and>
     validateSortedUniqueText ''text set'' vs k = None"

definition digest_set_ok :: "nat \<Rightarrow> nat \<Rightarrow> byte list list \<Rightarrow> bool" where
  "digest_set_ok k m vs \<longleftrightarrow>
     (list_all digest32 vs \<and> unat (word_of_nat m :: uint64) \<le> length vs \<and>
      length vs \<le> unat (word_of_nat k :: uint64)) \<and>
     validateSortedUniqueDigests ''digest set'' vs k m = None"

lemma unat_of_small: "n < 2 ^ 64 \<Longrightarrow> unat (word_of_nat n :: uint64) = n"
  by (simp add: unat_of_nat)

lemma text_set_okI:
  "validateSortedUniqueText name vs k = None \<Longrightarrow> m \<le> length vs \<Longrightarrow> k < 2 ^ 64 \<Longrightarrow> text_set_ok k m vs"
  by (auto simp: text_set_ok_def accept_simps text_ok_def list_all_iff unat_of_small)

lemma digest_set_okI:
  "validateSortedUniqueDigests name vs k m = None \<Longrightarrow> list_all digest32 vs \<Longrightarrow> k < 2 ^ 64 \<Longrightarrow> digest_set_ok k m vs"
  by (auto simp: digest_set_ok_def accept_simps unat_of_small)

lemma checked_codec:
  assumes "codec enc dec ok"
  shows "codec enc (dbind dec (\<lambda>v. dcheck (check v) v)) (\<lambda>v. ok v \<and> check v = None)"
proof
  show "dbind dec (\<lambda>v. dcheck (check v) v) (dec_at pre (emit (enc x) @ r)) =
      Inr (x, dec_at (pre @ emit (enc x)) r)" if "ok x \<and> check x = None" for x pre r
    using that codec.complete [OF assms] by (simp add: dbind_def dcheck_def dret_def)
  show "dec_sound (dbind dec (\<lambda>v. dcheck (check v) v)) (\<lambda>x c. (ok x \<and> check x = None) \<and> c = emit (enc x))"
    by (rule dec_sound_bind [OF codec.sound [OF assms]], rule dec_sound_mono [OF dec_sound_dcheck]) simp
qed

interpretation dp_text_set: codec encodeTextSet "decodeTextSet k m" "text_set_ok k m" for k m
  unfolding encodeTextSet_def decodeTextSet_def text_set_ok_def dataplane_limits of_nat_numeral
  by (rule checked_codec, rule cbor_text.counted_codec)

interpretation dp_digest_set: codec encodeDigestSet "decodeDigestSet k m" "digest_set_ok k m" for k m
  unfolding encodeDigestSet_def decodeDigestSet_def digest_set_ok_def
  by (rule checked_codec, rule dp_digest.counted_codec)

lemma emit_sets [emit_simps]:
  "emit (c # encodeTextSet ts) = emit [c] @ emit (encodeTextSet ts)"
  "emit (c # encodeDigestSet ds) = emit [c] @ emit (encodeDigestSet ds)"
  "emit (c # encodeTypedValue v) = emit [c] @ emit (encodeTypedValue v)"
  by (simp_all add: emit_eq)

lemmas dp_complete2 [decode_simps] =
  dp_typed.complete dp_typed.complete_last dp_text_set.complete dp_text_set.complete_last
  dp_digest_set.complete dp_digest_set.complete_last

interpretation dp_extensions: codec "\<lambda>_ :: unit. [CArray 0]" expectEmptyExtensions "\<lambda>_. True"
  unfolding expectEmptyExtensions_def by unfold_locales

interpretation dp_bool: codec "\<lambda>b. [CUint (boolUint b)]" dp_decodeBool "\<lambda>_. True"
  unfolding dp_decodeBool_def by unfold_locales

lemmas dp_complete3 [decode_simps] = dp_bool.complete dp_bool.complete_last
  dp_extensions.complete [where x = "()"] dp_extensions.complete_last [where x = "()"]

lemmas dp_sound2 [sound_intros] =
  dp_bool.sound dp_typed.sound dp_text_set.sound dp_digest_set.sound dp_extensions.sound

text \<open>
  A document of the data plane: bounded parser, then validation. The laws of the \<open>document\<close>
  contract follow from those of the parser.
\<close>

lemma emit_bounded: "boundedEncoding cs = Inr b \<longleftrightarrow> b = emit cs \<and> b \<noteq> [] \<and> length b \<le> MaxDocumentBytes"
  by (auto simp: boundedEncoding_def Let_def)

lemma dp_documentI:
  assumes m: "\<And>x. marshal x = after (validate x) (boundedEncoding (calls x))"
    and u: "\<And>b. unmarshal b = ebind (checkedDocument b MaxDocumentBytes p) (\<lambda>x. after (validate x) (Inr x))"
    and s: "dec_sound p (\<lambda>x c. good x \<and> c = emit (calls x))" and e: "ends_input p"
    and c: "\<And>x. validate x = None \<Longrightarrow> good x \<Longrightarrow>
      p (dec_at [] (emit (calls x))) = Inr (x, dec_at (emit (calls x)) [])"
  shows "document marshal unmarshal good"
proof
  show "unmarshal b = Inr x" if "good x" "marshal x = Inr b" for x b
  proof -
    from that(2) have v: "validate x = None" and b: "b = emit (calls x)"
      "b \<noteq> []" "length b \<le> MaxDocumentBytes"
      by (auto simp: m after_Inr emit_bounded simp del: dataplane_limits)
    have "run_document p b = Inr x"
      unfolding run_document_Inr b(1) using c [OF v that(1)] by (rule exI)
    with b(2,3) v show ?thesis by (simp add: u checkedDocument_def)
  qed
  show "marshal x = Inr b" "good x" if "unmarshal b = Inr x" for x b
  proof -
    from that have v: "validate x = None" and r: "run_document p b = Inr x"
      and b: "b \<noteq> []" "length b \<le> MaxDocumentBytes"
      by (auto simp: u checkedDocument_def ebind_eq_Inr after_Inr split: if_splits)
    from run_document_sound [OF s e r] v b show "marshal x = Inr b" "good x"
      by (simp_all add: m emit_bounded)
  qed
qed

lemma dp_document_fitsI:
  assumes "\<And>x. marshal x = after (validate x) (boundedEncoding (calls x))"
    and "\<And>b. unmarshal b = ebind (checkedDocument b MaxDocumentBytes p) (\<lambda>x. after (validate x) (Inr x))"
    and "dec_sound p (\<lambda>x c. fits x \<and> c = emit (calls x))" and "ends_input p"
    and "\<And>x. fits x \<Longrightarrow> p (dec_at [] (emit (calls x))) = Inr (x, dec_at (emit (calls x)) [])"
    and "\<And>x. validate x = None \<Longrightarrow> good x \<Longrightarrow> fits x" and "\<And>x. fits x \<Longrightarrow> good x"
  shows "document marshal unmarshal good"
  by (rule dp_documentI [OF assms(1,2) dec_sound_mono [OF assms(3)] assms(4)])
    (simp_all add: assms(5-7))

end
