(* ===== verification/Packet.thy ===== *)
theory Packet
  imports Dataplane_Common
begin

text \<open>
  \<open>internal/dataplane/packet.go\<close>: semantic packets. The packet with its parts, its
  validation with the rules of the trust lanes, and the canonical form; the parser of the code
  is one sequence, cut here into the parts it reads.
\<close>

section \<open>Data\<close>

definition PacketVersion :: string where "PacketVersion = ''tw.semantic-packet/0.1''"

record packet_subject =
  sj_Native :: string
  sj_CanonicalCandidates :: "string list"

record packet_predicate =
  pp_Native :: string
  pp_Semantic :: opt_text

record packet_object =
  ob_NativeStatus :: string
  ob_NativeLexical :: string
  ob_MediaType :: opt_text
  ob_Language :: opt_text
  ob_Typed :: "typed_value option"

record context_dimension =
  dm_Key :: string
  dm_Value :: typed_value

record packet_context =
  cx_Dimensions :: "context_dimension list"
  cx_Jurisdiction :: opt_text
  cx_Language :: opt_text
  cx_Scope :: opt_text

record packet_time =
  tm_ObservedAt :: string
  tm_AssertedAt :: opt_text
  tm_ValidFrom :: opt_text
  tm_ValidUntil :: opt_text
  tm_SourceModified :: opt_text

record packet_source =
  sr_OriginID :: string
  sr_RepresentationDigest :: "byte list"
  sr_Locator :: string
  sr_NativeSchemaRef :: opt_text

record packet_derivation =
  dv_ObservationDigest :: "byte list"
  dv_TransportDigest :: opt_digest
  dv_AdapterDigest :: "byte list"
  dv_ExtractionPlanDigest :: "byte list"
  dv_TransformationIDs :: "string list"
  dv_MappingIDs :: "string list"
  dv_SemanticClosureDigest :: opt_digest
  dv_CompilerContractDigest :: "byte list"
  dv_CompilerVersion :: string

record packet_epistemic =
  ep_Lane :: string
  ep_ExtractionStatus :: string
  ep_MappingStatus :: string
  ep_ConfidenceMillionths :: "uint64 option"
  ep_AuthorityClass :: string
  ep_FreshnessStatus :: string

record packet_lifecycle =
  lc_State :: string
  lc_SupersedesDigest :: opt_digest

record packet =
  pk_Version :: string
  pk_Kind :: string
  pk_Subject :: packet_subject
  pk_Predicate :: packet_predicate
  pk_Object :: packet_object
  pk_Context :: packet_context
  pk_Time :: packet_time
  pk_Source :: packet_source
  pk_Derivation :: packet_derivation
  pk_Epistemic :: packet_epistemic
  pk_Lifecycle :: packet_lifecycle
  pk_Retention :: string
  pk_Disclosure :: string

section \<open>Validation\<close>

definition tag_char :: "char \<Rightarrow> bool" where
  "tag_char c \<longleftrightarrow> upper_letter c \<or> lower_letter c \<or> is_digit c \<or> c = CHR ''-''"

definition validateLanguage :: "string \<Rightarrow> opt_text \<Rightarrow> error option" where
  "validateLanguage name value =
     (if \<not> ot_Present value
      then fail_if (ot_Value value \<noteq> []) (invalid (''absent '' @ name @ '' carries a value''))
      else first_err [
        fail_if (length (ot_Value value) < 2 \<or> length (ot_Value value) > 63)
          (invalid (name @ '' length outside 2..63'')),
        fail_if (\<not> list_all tag_char (ot_Value value)) (invalid (name @ '' is not a bounded language tag''))])"

definition validate_subject :: "packet \<Rightarrow> error option" where
  "validate_subject p = first_err [
     fail_if (pk_Version p \<noteq> PacketVersion) (invalid ''packet version''),
     validateEnum ''packet kind'' (pk_Kind p)
       [''claim'', ''state'', ''capability'', ''offer'', ''relationship'', ''event'',
        ''measurement'', ''document''],
     validateIdentifier ''native subject'' (sj_Native (pk_Subject p)),
     validateSortedUniqueText ''canonical candidates'' (sj_CanonicalCandidates (pk_Subject p)) 32,
     validateIdentifier ''native predicate'' (pp_Native (pk_Predicate p)),
     validateOptionalIdentifier ''semantic predicate'' (pp_Semantic (pk_Predicate p))]"

definition validate_object :: "packet_object \<Rightarrow> error option" where
  "validate_object ob = first_err [
     validateEnum ''native status'' (ob_NativeStatus ob)
       [''resolved'', ''unknown'', ''not_observed'', ''not_provided'', ''not_applicable'',
        ''withheld'', ''redacted'', ''unresolved'', ''contradictory'', ''invalid'',
        ''confirmed_absent''],
     (if ob_NativeStatus ob = ''resolved''
      then dp_validateText ''native lexical'' (ob_NativeLexical ob) MaxLexical True
      else fail_if (ob_NativeLexical ob \<noteq> [] \<or> ob_Typed ob \<noteq> None)
        (invalid ''non-resolved object must omit lexical and typed values'')),
     (case ob_Typed ob of
        None \<Rightarrow> None
      | Some v \<Rightarrow> first_err [
          fail_if (ob_NativeStatus ob \<noteq> ''resolved'') (invalid ''typed value requires resolved native status''),
          TypedValue_Validate v]),
     (if ot_Present (ob_MediaType ob)
      then dp_validateText ''media type'' (ot_Value (ob_MediaType ob)) MaxShortText False
      else fail_if (ot_Value (ob_MediaType ob) \<noteq> []) (invalid ''absent media type carries a value'')),
     validateLanguage ''object language'' (ob_Language ob)]"

fun validate_dimensions :: "string option \<Rightarrow> context_dimension list \<Rightarrow> error option" where
  "validate_dimensions previous [] = None"
| "validate_dimensions previous (d # ds) = first_err [
     validateIdentifier ''context dimension key'' (dm_Key d),
     fail_if (case previous of None \<Rightarrow> False | Some k \<Rightarrow> \<not> k < dm_Key d)
       (invalid ''context dimensions must be strictly sorted by key''),
     TypedValue_Validate (dm_Value d),
     validate_dimensions (Some (dm_Key d)) ds]"

definition validate_context :: "packet_context \<Rightarrow> error option" where
  "validate_context cx = first_err [
     fail_if (length (cx_Dimensions cx) > 32) (invalid ''too many context dimensions''),
     validate_dimensions None (cx_Dimensions cx),
     validateOptionalIdentifier ''jurisdiction'' (cx_Jurisdiction cx),
     validateLanguage ''context language'' (cx_Language cx),
     validateOptionalIdentifier ''scope'' (cx_Scope cx)]"

definition validate_time :: "packet_time \<Rightarrow> error option" where
  "validate_time tm = first_err [
     validateUTCSecond ''observed at'' (tm_ObservedAt tm),
     validateOptionalUTCSecond ''asserted at'' (tm_AssertedAt tm),
     validateOptionalUTCSecond ''valid from'' (tm_ValidFrom tm),
     validateOptionalUTCSecond ''valid until'' (tm_ValidUntil tm),
     validateOptionalUTCSecond ''source modified at'' (tm_SourceModified tm),
     fail_if (ot_Present (tm_ValidFrom tm) \<and> ot_Present (tm_ValidUntil tm) \<and>
              ot_Value (tm_ValidFrom tm) > ot_Value (tm_ValidUntil tm))
       (invalid ''valid-from is after valid-until'')]"

definition validate_source :: "packet_source \<Rightarrow> error option" where
  "validate_source sr = first_err [
     validateIdentifier ''origin ID'' (sr_OriginID sr),
     dp_validateText ''source locator'' (sr_Locator sr) MaxLocator False,
     validateOptionalIdentifier ''native schema reference'' (sr_NativeSchemaRef sr)]"

fun validate_transforms :: "string list \<Rightarrow> string list \<Rightarrow> error option" where
  "validate_transforms seen [] = None"
| "validate_transforms seen (value # rest) = first_err [
     validateIdentifier ''transformation ID'' value,
     fail_if (value \<in> set seen) (invalid ''duplicate transformation ID''),
     validate_transforms (value # seen) rest]"

definition validate_derivation :: "packet_derivation \<Rightarrow> error option" where
  "validate_derivation dv = first_err [
     validateOptionalDigest ''transport digest'' (dv_TransportDigest dv),
     fail_if (length (dv_TransformationIDs dv) > 32) (invalid ''too many transformations''),
     validate_transforms [] (dv_TransformationIDs dv),
     validateSortedUniqueText ''mapping IDs'' (dv_MappingIDs dv) 32,
     validateOptionalDigest ''semantic closure digest'' (dv_SemanticClosureDigest dv),
     validateIdentifier ''compiler version'' (dv_CompilerVersion dv)]"

definition validate_epistemic :: "packet_epistemic \<Rightarrow> error option" where
  "validate_epistemic ep = first_err [
     validateEnum ''trust lane'' (ep_Lane ep)
       [''observed_native'', ''provisional_semantic'', ''attested_semantic''],
     validateEnum ''extraction status'' (ep_ExtractionStatus ep) [''deterministic'', ''publisher_attested''],
     validateEnum ''mapping status'' (ep_MappingStatus ep)
       [''none'', ''candidate'', ''reviewed'', ''disputed'', ''revoked''],
     (case ep_ConfidenceMillionths ep of
        None \<Rightarrow> None
      | Some c \<Rightarrow> fail_if (c > 1000000) (invalid ''confidence outside 0..1000000'')),
     validateIdentifier ''authority class'' (ep_AuthorityClass ep),
     validateEnum ''freshness status'' (ep_FreshnessStatus ep) [''current'', ''stale'', ''unknown'']]"

text \<open>The rules of the trust lanes.\<close>

definition validate_lane :: "packet \<Rightarrow> error option" where
  "validate_lane p =
     (let semantic = ot_Present (pp_Semantic (pk_Predicate p));
          hasMappings = (dv_MappingIDs (pk_Derivation p) \<noteq> []);
          hasClosure = od_Present (dv_SemanticClosureDigest (pk_Derivation p));
          ep = pk_Epistemic p
      in first_err [
        (if ep_Lane ep = ''observed_native'' then
           fail_if (semantic \<or> hasMappings \<or> hasClosure \<or> ep_MappingStatus ep \<noteq> ''none'' \<or>
                    ep_ConfidenceMillionths ep \<noteq> None)
             (invalid ''observed-native lane cannot carry semantic promotion'')
         else if ep_Lane ep = ''provisional_semantic'' then
           fail_if (\<not> semantic \<or> \<not> hasMappings \<or> \<not> hasClosure \<or> ep_MappingStatus ep \<noteq> ''candidate'')
             (invalid ''provisional lane requires candidate mapping and closure evidence'')
         else if ep_Lane ep = ''attested_semantic'' then
           fail_if (\<not> semantic \<or> \<not> hasMappings \<or> \<not> hasClosure \<or> ep_MappingStatus ep \<noteq> ''reviewed'' \<or>
                    ep_ConfidenceMillionths ep \<noteq> None)
             (invalid ''attested lane requires reviewed mapping and closure evidence'')
         else None),
        fail_if (ep_ConfidenceMillionths ep \<noteq> None \<and> ep_MappingStatus ep \<noteq> ''candidate'')
          (invalid ''confidence is allowed only for a candidate mapping'')])"

definition validate_lifecycle :: "packet \<Rightarrow> error option" where
  "validate_lifecycle p = (let lc = pk_Lifecycle p in first_err [
     validateEnum ''lifecycle state'' (lc_State lc)
       [''current'', ''superseded'', ''withdrawn'', ''stale'', ''retracted'', ''invalid''],
     validateOptionalDigest ''supersedes digest'' (lc_SupersedesDigest lc),
     fail_if (lc_State lc = ''superseded'' \<and> \<not> od_Present (lc_SupersedesDigest lc))
       (invalid ''superseded packet requires prior digest''),
     fail_if (lc_State lc = ''current'' \<and> od_Present (lc_SupersedesDigest lc))
       (invalid ''current packet cannot supersede another packet''),
     validateEnum ''retention'' (pk_Retention p) [''public_transient'', ''public_versioned'', ''public_archival''],
     fail_if (pk_Disclosure p \<noteq> ''public'') (invalid ''Genesis disclosure must be public'')])"

definition Packet_Validate :: "packet \<Rightarrow> error option" where
  "Packet_Validate p = first_err [
     validate_subject p,
     validate_object (pk_Object p),
     validate_context (pk_Context p),
     validate_time (pk_Time p),
     validate_source (pk_Source p),
     validate_derivation (pk_Derivation p),
     validate_epistemic (pk_Epistemic p),
     validate_lane p,
     validate_lifecycle p]"

section \<open>Canonical form\<close>

definition subject_calls :: "packet_subject \<Rightarrow> enc_call list" where
  "subject_calls x =
     [CArray 2] @ [CText (sj_Native x)] @ encodeTextSet (sj_CanonicalCandidates x)"

definition dec_subject :: "packet_subject parser" where
  "dec_subject =
     dbind (expect_Array 2 (invalid ''subject array'')) (\<lambda>_.
     dbind (dec_Text (word_of_nat MaxIdentifier)) (\<lambda>native.
     dbind (decodeTextSet 32 0) (\<lambda>canonicalCandidates.
     dret \<lparr>sj_Native = native, sj_CanonicalCandidates = canonicalCandidates\<rparr>)))"

definition predicate_calls :: "packet_predicate \<Rightarrow> enc_call list" where
  "predicate_calls x =
     [CArray 2] @ [CText (pp_Native x)] @ encodeOptionalText (pp_Semantic x)"

definition dec_predicate :: "packet_predicate parser" where
  "dec_predicate =
     dbind (expect_Array 2 (invalid ''predicate array'')) (\<lambda>_.
     dbind (dec_Text (word_of_nat MaxIdentifier)) (\<lambda>native.
     dbind (decodeOptionalText (word_of_nat MaxIdentifier)) (\<lambda>semantic.
     dret \<lparr>pp_Native = native, pp_Semantic = semantic\<rparr>)))"

definition object_calls :: "packet_object \<Rightarrow> enc_call list" where
  "object_calls x =
     [CArray 5] @ [CText (ob_NativeStatus x)] @ [CText (ob_NativeLexical x)] @ encodeOptionalText (ob_MediaType x) @ encodeOptionalText (ob_Language x) @ enc_nullable encodeTypedValue (ob_Typed x)"

definition dec_object :: "packet_object parser" where
  "dec_object =
     dbind (expect_Array 5 (invalid ''object array'')) (\<lambda>_.
     dbind (dec_Text (word_of_nat MaxIdentifier)) (\<lambda>nativeStatus.
     dbind (dec_Text (word_of_nat MaxLexical)) (\<lambda>nativeLexical.
     dbind (decodeOptionalText (word_of_nat MaxShortText)) (\<lambda>mediaType.
     dbind (decodeOptionalText 63) (\<lambda>language.
     dbind (dec_nullable decodeTypedValue) (\<lambda>typed.
     dret \<lparr>ob_NativeStatus = nativeStatus, ob_NativeLexical = nativeLexical, ob_MediaType = mediaType, ob_Language = language, ob_Typed = typed\<rparr>))))))"

definition dimension_calls :: "context_dimension \<Rightarrow> enc_call list" where
  "dimension_calls x =
     [CArray 2] @ [CText (dm_Key x)] @ encodeTypedValue (dm_Value x)"

definition dec_dimension :: "context_dimension parser" where
  "dec_dimension =
     dbind (expect_Array 2 (invalid ''context dimension array'')) (\<lambda>_.
     dbind (dec_Text (word_of_nat MaxIdentifier)) (\<lambda>key.
     dbind (decodeTypedValue) (\<lambda>value.
     dret \<lparr>dm_Key = key, dm_Value = value\<rparr>)))"

definition context_calls :: "packet_context \<Rightarrow> enc_call list" where
  "context_calls x =
     [CArray 4] @ enc_counted dimension_calls (cx_Dimensions x) @ encodeOptionalText (cx_Jurisdiction x) @ encodeOptionalText (cx_Language x) @ encodeOptionalText (cx_Scope x)"

definition dec_context :: "packet_context parser" where
  "dec_context =
     dbind (expect_Array 4 (invalid ''context array'')) (\<lambda>_.
     dbind (dec_counted 0 32 (invalid ''context dimension count'') dec_dimension) (\<lambda>dimensions.
     dbind (decodeOptionalText (word_of_nat MaxIdentifier)) (\<lambda>jurisdiction.
     dbind (decodeOptionalText 63) (\<lambda>language.
     dbind (decodeOptionalText (word_of_nat MaxIdentifier)) (\<lambda>scope.
     dret \<lparr>cx_Dimensions = dimensions, cx_Jurisdiction = jurisdiction, cx_Language = language, cx_Scope = scope\<rparr>)))))"

definition time_calls :: "packet_time \<Rightarrow> enc_call list" where
  "time_calls x =
     [CArray 5] @ [CText (tm_ObservedAt x)] @ encodeOptionalText (tm_AssertedAt x) @ encodeOptionalText (tm_ValidFrom x) @ encodeOptionalText (tm_ValidUntil x) @ encodeOptionalText (tm_SourceModified x)"

definition dec_time :: "packet_time parser" where
  "dec_time =
     dbind (expect_Array 5 (invalid ''time array'')) (\<lambda>_.
     dbind (dec_Text 20) (\<lambda>observedAt.
     dbind (decodeOptionalText 20) (\<lambda>assertedAt.
     dbind (decodeOptionalText 20) (\<lambda>validFrom.
     dbind (decodeOptionalText 20) (\<lambda>validUntil.
     dbind (decodeOptionalText 20) (\<lambda>sourceModified.
     dret \<lparr>tm_ObservedAt = observedAt, tm_AssertedAt = assertedAt, tm_ValidFrom = validFrom, tm_ValidUntil = validUntil, tm_SourceModified = sourceModified\<rparr>))))))"

definition source_calls :: "packet_source \<Rightarrow> enc_call list" where
  "source_calls x =
     [CArray 4] @ [CText (sr_OriginID x)] @ enc_digest (sr_RepresentationDigest x) @ [CText (sr_Locator x)] @ encodeOptionalText (sr_NativeSchemaRef x)"

definition dec_source :: "packet_source parser" where
  "dec_source =
     dbind (expect_Array 4 (invalid ''source array'')) (\<lambda>_.
     dbind (dec_Text (word_of_nat MaxIdentifier)) (\<lambda>originID.
     dbind (dp_decodeDigest) (\<lambda>representationDigest.
     dbind (dec_Text (word_of_nat MaxLocator)) (\<lambda>locator.
     dbind (decodeOptionalText (word_of_nat MaxIdentifier)) (\<lambda>nativeSchemaRef.
     dret \<lparr>sr_OriginID = originID, sr_RepresentationDigest = representationDigest, sr_Locator = locator, sr_NativeSchemaRef = nativeSchemaRef\<rparr>)))))"

definition derivation_calls :: "packet_derivation \<Rightarrow> enc_call list" where
  "derivation_calls x =
     [CArray 9] @ enc_digest (dv_ObservationDigest x) @ encodeOptionalDigest (dv_TransportDigest x) @ enc_digest (dv_AdapterDigest x) @ enc_digest (dv_ExtractionPlanDigest x) @ enc_counted (\<lambda>t. [CText t]) (dv_TransformationIDs x) @ encodeTextSet (dv_MappingIDs x) @ encodeOptionalDigest (dv_SemanticClosureDigest x) @ enc_digest (dv_CompilerContractDigest x) @ [CText (dv_CompilerVersion x)]"

definition dec_derivation :: "packet_derivation parser" where
  "dec_derivation =
     dbind (expect_Array 9 (invalid ''derivation array'')) (\<lambda>_.
     dbind (dp_decodeDigest) (\<lambda>observationDigest.
     dbind (decodeOptionalDigest) (\<lambda>transportDigest.
     dbind (dp_decodeDigest) (\<lambda>adapterDigest.
     dbind (dp_decodeDigest) (\<lambda>extractionPlanDigest.
     dbind (dec_counted 0 32 (invalid ''transformation count'') (dec_Text (word_of_nat MaxIdentifier))) (\<lambda>transformationIDs.
     dbind (decodeTextSet 32 0) (\<lambda>mappingIDs.
     dbind (decodeOptionalDigest) (\<lambda>semanticClosureDigest.
     dbind (dp_decodeDigest) (\<lambda>compilerContractDigest.
     dbind (dec_Text (word_of_nat MaxIdentifier)) (\<lambda>compilerVersion.
     dret \<lparr>dv_ObservationDigest = observationDigest, dv_TransportDigest = transportDigest, dv_AdapterDigest = adapterDigest, dv_ExtractionPlanDigest = extractionPlanDigest, dv_TransformationIDs = transformationIDs, dv_MappingIDs = mappingIDs, dv_SemanticClosureDigest = semanticClosureDigest, dv_CompilerContractDigest = compilerContractDigest, dv_CompilerVersion = compilerVersion\<rparr>))))))))))"

definition epistemic_calls :: "packet_epistemic \<Rightarrow> enc_call list" where
  "epistemic_calls x =
     [CArray 6] @ [CText (ep_Lane x)] @ [CText (ep_ExtractionStatus x)] @ [CText (ep_MappingStatus x)] @ enc_nullable (\<lambda>c. [CUint c]) (ep_ConfidenceMillionths x) @ [CText (ep_AuthorityClass x)] @ [CText (ep_FreshnessStatus x)]"

definition dec_epistemic :: "packet_epistemic parser" where
  "dec_epistemic =
     dbind (expect_Array 6 (invalid ''epistemic array'')) (\<lambda>_.
     dbind (dec_Text (word_of_nat MaxIdentifier)) (\<lambda>lane.
     dbind (dec_Text (word_of_nat MaxIdentifier)) (\<lambda>extractionStatus.
     dbind (dec_Text (word_of_nat MaxIdentifier)) (\<lambda>mappingStatus.
     dbind (dec_nullable dec_Uint) (\<lambda>confidenceMillionths.
     dbind (dec_Text (word_of_nat MaxIdentifier)) (\<lambda>authorityClass.
     dbind (dec_Text (word_of_nat MaxIdentifier)) (\<lambda>freshnessStatus.
     dret \<lparr>ep_Lane = lane, ep_ExtractionStatus = extractionStatus, ep_MappingStatus = mappingStatus, ep_ConfidenceMillionths = confidenceMillionths, ep_AuthorityClass = authorityClass, ep_FreshnessStatus = freshnessStatus\<rparr>)))))))"

definition lifecycle_calls :: "packet_lifecycle \<Rightarrow> enc_call list" where
  "lifecycle_calls x =
     [CArray 2] @ [CText (lc_State x)] @ encodeOptionalDigest (lc_SupersedesDigest x)"

definition dec_lifecycle :: "packet_lifecycle parser" where
  "dec_lifecycle =
     dbind (expect_Array 2 (invalid ''lifecycle array'')) (\<lambda>_.
     dbind (dec_Text (word_of_nat MaxIdentifier)) (\<lambda>state.
     dbind (decodeOptionalDigest) (\<lambda>supersedesDigest.
     dret \<lparr>lc_State = state, lc_SupersedesDigest = supersedesDigest\<rparr>)))"

definition packet_calls :: "packet \<Rightarrow> enc_call list" where
  "packet_calls p =
     [CArray 14, CText (pk_Version p), CText (pk_Kind p)]
     @ subject_calls (pk_Subject p)
     @ predicate_calls (pk_Predicate p)
     @ object_calls (pk_Object p)
     @ context_calls (pk_Context p)
     @ time_calls (pk_Time p)
     @ source_calls (pk_Source p)
     @ derivation_calls (pk_Derivation p)
     @ epistemic_calls (pk_Epistemic p)
     @ lifecycle_calls (pk_Lifecycle p)
     @ [CText (pk_Retention p), CText (pk_Disclosure p), CArray 0]"

definition MarshalPacket :: "packet \<Rightarrow> error + byte list" where
  "MarshalPacket p = after (Packet_Validate p) (boundedEncoding (packet_calls p))"

definition dec_packet :: "packet parser" where
  "dec_packet =
     dbind (expect_Array 14 (invalid ''packet array'')) (\<lambda>_.
     dbind (dec_Text (word_of_nat MaxIdentifier)) (\<lambda>version.
     dbind (dec_Text (word_of_nat MaxIdentifier)) (\<lambda>kind.
     dbind dec_subject (\<lambda>subject.
     dbind dec_predicate (\<lambda>predicate.
     dbind dec_object (\<lambda>object.
     dbind dec_context (\<lambda>context.
     dbind dec_time (\<lambda>time.
     dbind dec_source (\<lambda>source.
     dbind dec_derivation (\<lambda>derivation.
     dbind dec_epistemic (\<lambda>epistemic.
     dbind dec_lifecycle (\<lambda>lifecycle.
     dbind (dec_Text (word_of_nat MaxIdentifier)) (\<lambda>retention.
     dbind (dec_Text (word_of_nat MaxIdentifier)) (\<lambda>disclosure.
     dbind expectEmptyExtensions (\<lambda>_.
     dbind dp_finish (\<lambda>_.
     dret \<lparr>pk_Version = version, pk_Kind = kind, pk_Subject = subject, pk_Predicate = predicate, pk_Object = object, pk_Context = context, pk_Time = time, pk_Source = source, pk_Derivation = derivation, pk_Epistemic = epistemic, pk_Lifecycle = lifecycle,
           pk_Retention = retention, pk_Disclosure = disclosure\<rparr>))))))))))))))))"

definition UnmarshalPacket :: "byte list \<Rightarrow> error + packet" where
  "UnmarshalPacket bs =
     ebind (checkedDocument bs MaxDocumentBytes dec_packet) (\<lambda>p. after (Packet_Validate p) (Inr p))"

section \<open>The codecs of the parts\<close>

interpretation pk_typed_opt: codec "enc_nullable encodeTypedValue" "dec_nullable decodeTypedValue" "pred_option typed_ok"
  by (rule dp_typed.nullable_codec) (simp add: encodeTypedValue_def emit_not_nil)

interpretation pk_confidence: codec "enc_nullable (\<lambda>c. [CUint c])" "dec_nullable dec_Uint" "pred_option (\<lambda>_. True)"
  by (rule cbor_uint.nullable_codec) (simp add: emit_not_nil)

interpretation pk_transforms: codec "enc_counted (\<lambda>t. [CText t])"
    "dec_counted 0 32 (invalid ''transformation count'') (dec_Text 512)"
    "\<lambda>ts. list_all (text_ok 512) ts \<and> unat (0::uint64) \<le> length ts \<and> length ts \<le> unat (32::uint64)"
  by (rule cbor_text.counted_codec)

lemma any_confidence [decode_simps]: "pred_option (\<lambda>_. True) x"
  by (cases x) simp_all

lemmas pk_complete [decode_simps] =
  pk_typed_opt.complete pk_typed_opt.complete_last pk_confidence.complete pk_confidence.complete_last
  pk_transforms.complete pk_transforms.complete_last

lemmas pk_sound [sound_intros] = pk_typed_opt.sound pk_confidence.sound pk_transforms.sound

definition subject_fits :: "packet_subject \<Rightarrow> bool" where
  "subject_fits x \<longleftrightarrow> text_ok 512 (sj_Native x) \<and> text_set_ok 32 0 (sj_CanonicalCandidates x)"

interpretation pk_subject: codec subject_calls dec_subject subject_fits
proof
  show "dec_subject (dec_at pre (emit (subject_calls x) @ r)) =
      Inr (x, dec_at (pre @ emit (subject_calls x)) r)" if "subject_fits x" for x pre r
    using that by (cases x) (simp add: dec_subject_def subject_calls_def subject_fits_def emit_simps decode_simps)
  show "dec_sound dec_subject (\<lambda>x c. subject_fits x \<and> c = emit (subject_calls x))"
    unfolding dec_subject_def dataplane_limits of_nat_numeral
    apply (rule dec_sound_bind, rule sound_intros)+
    apply (rule dec_sound_ret)
    apply (simp add: subject_calls_def subject_fits_def emit_simps)
    done
qed

definition predicate_fits :: "packet_predicate \<Rightarrow> bool" where
  "predicate_fits x \<longleftrightarrow> text_ok 512 (pp_Native x) \<and> opt_text_ok 512 (pp_Semantic x)"

interpretation pk_predicate: codec predicate_calls dec_predicate predicate_fits
proof
  show "dec_predicate (dec_at pre (emit (predicate_calls x) @ r)) =
      Inr (x, dec_at (pre @ emit (predicate_calls x)) r)" if "predicate_fits x" for x pre r
    using that by (cases x) (simp add: dec_predicate_def predicate_calls_def predicate_fits_def emit_simps decode_simps)
  show "dec_sound dec_predicate (\<lambda>x c. predicate_fits x \<and> c = emit (predicate_calls x))"
    unfolding dec_predicate_def dataplane_limits of_nat_numeral
    apply (rule dec_sound_bind, rule sound_intros)+
    apply (rule dec_sound_ret)
    apply (simp add: predicate_calls_def predicate_fits_def emit_simps)
    done
qed

definition object_fits :: "packet_object \<Rightarrow> bool" where
  "object_fits x \<longleftrightarrow> text_ok 512 (ob_NativeStatus x) \<and> text_ok 262144 (ob_NativeLexical x) \<and> opt_text_ok 255 (ob_MediaType x) \<and> opt_text_ok 63 (ob_Language x) \<and> pred_option typed_ok (ob_Typed x)"

interpretation pk_object: codec object_calls dec_object object_fits
proof
  show "dec_object (dec_at pre (emit (object_calls x) @ r)) =
      Inr (x, dec_at (pre @ emit (object_calls x)) r)" if "object_fits x" for x pre r
    using that by (cases x) (simp add: dec_object_def object_calls_def object_fits_def emit_simps decode_simps)
  show "dec_sound dec_object (\<lambda>x c. object_fits x \<and> c = emit (object_calls x))"
    unfolding dec_object_def dataplane_limits of_nat_numeral
    apply (rule dec_sound_bind, rule sound_intros)+
    apply (rule dec_sound_ret)
    apply (simp add: object_calls_def object_fits_def emit_simps)
    done
qed

definition dimension_fits :: "context_dimension \<Rightarrow> bool" where
  "dimension_fits x \<longleftrightarrow> text_ok 512 (dm_Key x) \<and> typed_ok (dm_Value x)"

interpretation pk_dimension: codec dimension_calls dec_dimension dimension_fits
proof
  show "dec_dimension (dec_at pre (emit (dimension_calls x) @ r)) =
      Inr (x, dec_at (pre @ emit (dimension_calls x)) r)" if "dimension_fits x" for x pre r
    using that by (cases x) (simp add: dec_dimension_def dimension_calls_def dimension_fits_def emit_simps decode_simps)
  show "dec_sound dec_dimension (\<lambda>x c. dimension_fits x \<and> c = emit (dimension_calls x))"
    unfolding dec_dimension_def dataplane_limits of_nat_numeral
    apply (rule dec_sound_bind, rule sound_intros)+
    apply (rule dec_sound_ret)
    apply (simp add: dimension_calls_def dimension_fits_def emit_simps)
    done
qed

interpretation pk_dimensions: codec "enc_counted dimension_calls"
    "dec_counted 0 32 (invalid ''context dimension count'') dec_dimension"
    "\<lambda>xs. list_all dimension_fits xs \<and> unat (0::uint64) \<le> length xs \<and> length xs \<le> unat (32::uint64)"
  by (rule pk_dimension.counted_codec)

lemmas pk_complete2 [decode_simps] = pk_dimensions.complete pk_dimensions.complete_last

lemmas pk_sound2 [sound_intros] = pk_dimensions.sound

definition context_fits :: "packet_context \<Rightarrow> bool" where
  "context_fits x \<longleftrightarrow> list_all dimension_fits (cx_Dimensions x) \<and> length (cx_Dimensions x) \<le> 32 \<and> opt_text_ok 512 (cx_Jurisdiction x) \<and> opt_text_ok 63 (cx_Language x) \<and> opt_text_ok 512 (cx_Scope x)"

interpretation pk_context: codec context_calls dec_context context_fits
proof
  show "dec_context (dec_at pre (emit (context_calls x) @ r)) =
      Inr (x, dec_at (pre @ emit (context_calls x)) r)" if "context_fits x" for x pre r
    using that by (cases x) (simp add: dec_context_def context_calls_def context_fits_def emit_simps decode_simps)
  show "dec_sound dec_context (\<lambda>x c. context_fits x \<and> c = emit (context_calls x))"
    unfolding dec_context_def dataplane_limits of_nat_numeral
    apply (rule dec_sound_bind, rule sound_intros)+
    apply (rule dec_sound_ret)
    apply (simp add: context_calls_def context_fits_def emit_simps)
    done
qed

definition time_fits :: "packet_time \<Rightarrow> bool" where
  "time_fits x \<longleftrightarrow> text_ok 20 (tm_ObservedAt x) \<and> opt_text_ok 20 (tm_AssertedAt x) \<and> opt_text_ok 20 (tm_ValidFrom x) \<and> opt_text_ok 20 (tm_ValidUntil x) \<and> opt_text_ok 20 (tm_SourceModified x)"

interpretation pk_time: codec time_calls dec_time time_fits
proof
  show "dec_time (dec_at pre (emit (time_calls x) @ r)) =
      Inr (x, dec_at (pre @ emit (time_calls x)) r)" if "time_fits x" for x pre r
    using that by (cases x) (simp add: dec_time_def time_calls_def time_fits_def emit_simps decode_simps)
  show "dec_sound dec_time (\<lambda>x c. time_fits x \<and> c = emit (time_calls x))"
    unfolding dec_time_def dataplane_limits of_nat_numeral
    apply (rule dec_sound_bind, rule sound_intros)+
    apply (rule dec_sound_ret)
    apply (simp add: time_calls_def time_fits_def emit_simps)
    done
qed

definition source_fits :: "packet_source \<Rightarrow> bool" where
  "source_fits x \<longleftrightarrow> text_ok 512 (sr_OriginID x) \<and> digest32 (sr_RepresentationDigest x) \<and> text_ok 16384 (sr_Locator x) \<and> opt_text_ok 512 (sr_NativeSchemaRef x)"

interpretation pk_source: codec source_calls dec_source source_fits
proof
  show "dec_source (dec_at pre (emit (source_calls x) @ r)) =
      Inr (x, dec_at (pre @ emit (source_calls x)) r)" if "source_fits x" for x pre r
    using that by (cases x) (simp add: dec_source_def source_calls_def source_fits_def emit_simps decode_simps)
  show "dec_sound dec_source (\<lambda>x c. source_fits x \<and> c = emit (source_calls x))"
    unfolding dec_source_def dataplane_limits of_nat_numeral
    apply (rule dec_sound_bind, rule sound_intros)+
    apply (rule dec_sound_ret)
    apply (simp add: source_calls_def source_fits_def emit_simps)
    done
qed

definition derivation_fits :: "packet_derivation \<Rightarrow> bool" where
  "derivation_fits x \<longleftrightarrow> digest32 (dv_ObservationDigest x) \<and> opt_digest_ok (dv_TransportDigest x) \<and> digest32 (dv_AdapterDigest x) \<and> digest32 (dv_ExtractionPlanDigest x) \<and> list_all (text_ok 512) (dv_TransformationIDs x) \<and> length (dv_TransformationIDs x) \<le> 32 \<and> text_set_ok 32 0 (dv_MappingIDs x) \<and> opt_digest_ok (dv_SemanticClosureDigest x) \<and> digest32 (dv_CompilerContractDigest x) \<and> text_ok 512 (dv_CompilerVersion x)"

interpretation pk_derivation: codec derivation_calls dec_derivation derivation_fits
proof
  show "dec_derivation (dec_at pre (emit (derivation_calls x) @ r)) =
      Inr (x, dec_at (pre @ emit (derivation_calls x)) r)" if "derivation_fits x" for x pre r
    using that by (cases x) (simp add: dec_derivation_def derivation_calls_def derivation_fits_def emit_simps decode_simps)
  show "dec_sound dec_derivation (\<lambda>x c. derivation_fits x \<and> c = emit (derivation_calls x))"
    unfolding dec_derivation_def dataplane_limits of_nat_numeral
    apply (rule dec_sound_bind, rule sound_intros)+
    apply (rule dec_sound_ret)
    apply (simp add: derivation_calls_def derivation_fits_def emit_simps)
    done
qed

definition epistemic_fits :: "packet_epistemic \<Rightarrow> bool" where
  "epistemic_fits x \<longleftrightarrow> text_ok 512 (ep_Lane x) \<and> text_ok 512 (ep_ExtractionStatus x) \<and> text_ok 512 (ep_MappingStatus x) \<and> text_ok 512 (ep_AuthorityClass x) \<and> text_ok 512 (ep_FreshnessStatus x)"

interpretation pk_epistemic: codec epistemic_calls dec_epistemic epistemic_fits
proof
  show "dec_epistemic (dec_at pre (emit (epistemic_calls x) @ r)) =
      Inr (x, dec_at (pre @ emit (epistemic_calls x)) r)" if "epistemic_fits x" for x pre r
    using that by (cases x) (simp add: dec_epistemic_def epistemic_calls_def epistemic_fits_def emit_simps decode_simps)
  show "dec_sound dec_epistemic (\<lambda>x c. epistemic_fits x \<and> c = emit (epistemic_calls x))"
    unfolding dec_epistemic_def dataplane_limits of_nat_numeral
    apply (rule dec_sound_bind, rule sound_intros)+
    apply (rule dec_sound_ret)
    apply (simp add: epistemic_calls_def epistemic_fits_def emit_simps)
    done
qed

definition lifecycle_fits :: "packet_lifecycle \<Rightarrow> bool" where
  "lifecycle_fits x \<longleftrightarrow> text_ok 512 (lc_State x) \<and> opt_digest_ok (lc_SupersedesDigest x)"

interpretation pk_lifecycle: codec lifecycle_calls dec_lifecycle lifecycle_fits
proof
  show "dec_lifecycle (dec_at pre (emit (lifecycle_calls x) @ r)) =
      Inr (x, dec_at (pre @ emit (lifecycle_calls x)) r)" if "lifecycle_fits x" for x pre r
    using that by (cases x) (simp add: dec_lifecycle_def lifecycle_calls_def lifecycle_fits_def emit_simps decode_simps)
  show "dec_sound dec_lifecycle (\<lambda>x c. lifecycle_fits x \<and> c = emit (lifecycle_calls x))"
    unfolding dec_lifecycle_def dataplane_limits of_nat_numeral
    apply (rule dec_sound_bind, rule sound_intros)+
    apply (rule dec_sound_ret)
    apply (simp add: lifecycle_calls_def lifecycle_fits_def emit_simps)
    done
qed

lemmas pk_complete3 [decode_simps] =
  pk_subject.complete pk_subject.complete_last
  pk_predicate.complete pk_predicate.complete_last
  pk_object.complete pk_object.complete_last
  pk_context.complete pk_context.complete_last
  pk_time.complete pk_time.complete_last
  pk_source.complete pk_source.complete_last
  pk_derivation.complete pk_derivation.complete_last
  pk_epistemic.complete pk_epistemic.complete_last
  pk_lifecycle.complete pk_lifecycle.complete_last

lemmas pk_sound3 [sound_intros] =
  pk_subject.sound pk_predicate.sound pk_object.sound pk_context.sound pk_time.sound pk_source.sound pk_derivation.sound pk_epistemic.sound pk_lifecycle.sound

section \<open>The packet as a document\<close>

text \<open>The values of the Go type: its digests are arrays of 32 octets.\<close>

definition opt_digest32 :: "opt_digest \<Rightarrow> bool" where
  "opt_digest32 v \<longleftrightarrow> digest32 (od_Value v)"

definition packet_wf :: "packet \<Rightarrow> bool" where
  "packet_wf p \<longleftrightarrow>
     digest32 (sr_RepresentationDigest (pk_Source p)) \<and>
     digest32 (dv_ObservationDigest (pk_Derivation p)) \<and> opt_digest32 (dv_TransportDigest (pk_Derivation p)) \<and>
     digest32 (dv_AdapterDigest (pk_Derivation p)) \<and> digest32 (dv_ExtractionPlanDigest (pk_Derivation p)) \<and>
     opt_digest32 (dv_SemanticClosureDigest (pk_Derivation p)) \<and>
     digest32 (dv_CompilerContractDigest (pk_Derivation p)) \<and>
     opt_digest32 (lc_SupersedesDigest (pk_Lifecycle p))"

lemma opt_digest_ok32: "opt_digest_ok v \<Longrightarrow> opt_digest32 v"
  by (auto simp: opt_digest_ok_def opt_digest32_def split: if_splits)

lemma opt_digest_okI: "validateOptionalDigest n v = None \<Longrightarrow> opt_digest32 v \<Longrightarrow> opt_digest_ok v"
  by (auto simp: opt_digest_ok_def opt_digest32_def accept_simps)

lemma identifier_ok: "validateIdentifier n v = None \<Longrightarrow> text_ok 512 v"
  by (simp add: accept_simps text_ok_def)

lemma opt_utc_ok: "validateOptionalUTCSecond n v = None \<Longrightarrow> opt_text_ok 20 v"
  by (auto simp: accept_simps opt_text_ok_def text_ok_def canonical_utc_second_length canonical_utc_second_utf8)

lemma utc_second_ok: "validateUTCSecond n v = None \<Longrightarrow> text_ok 20 v"
  by (simp add: accept_simps text_ok_def canonical_utc_second_length canonical_utc_second_utf8)

lemma text_okI: "dp_validateText n v k False = None \<Longrightarrow> k \<le> unat l \<Longrightarrow> text_ok l v"
  by (simp add: accept_simps text_ok_def)

lemma tag_char_ascii: "tag_char c \<Longrightarrow> of_char c < (128 :: nat)"
  by (auto simp: tag_char_def upper_letter_ascii lower_letter_ascii is_digit_ascii)

lemma language_ok: "validateLanguage n v = None \<Longrightarrow> opt_text_ok 63 v"
  by (auto simp: validateLanguage_def accept_simps opt_text_ok_def text_ok_def
      split: if_splits intro!: utf8_valid_string_ascii is_ascii_all [OF tag_char_ascii])

lemma validate_dimensions_typed:
  "validate_dimensions previous ds = None \<Longrightarrow> list_all dimension_fits ds"
  by (induction ds arbitrary: previous)
    (auto simp: accept_simps dimension_fits_def typed_ok_def text_ok_def)

lemma validate_transforms_ok: "validate_transforms seen ts = None \<Longrightarrow> list_all (text_ok 512) ts"
  by (induction ts arbitrary: seen) (auto simp: accept_simps text_ok_def)

lemma enum_ok:
  "validateEnum n v vs = None \<Longrightarrow> list_all (text_ok 512) vs \<Longrightarrow> text_ok 512 v"
  by (auto simp: accept_simps list_all_iff)

lemma text_ok_ascii: "is_ascii s \<Longrightarrow> length s \<le> unat n \<Longrightarrow> text_ok n s"
  by (simp add: text_ok_def utf8_valid_string_ascii)

text \<open>A part that passes its validation can be read back.\<close>

lemma object_fitsI: "validate_object ob = None \<Longrightarrow> object_fits ob"
  unfolding object_fits_def
proof (intro conjI)
  assume v: "validate_object ob = None"
  note v' = v [unfolded validate_object_def first_err_None]
  show "text_ok 512 (ob_NativeStatus ob)"
    using v' by (elim conjE, elim enum_ok) (simp add: text_ok_def)
  show "text_ok 262144 (ob_NativeLexical ob)"
    using v' by (auto simp: accept_simps text_ok_def split: if_splits)
  show "opt_text_ok 255 (ob_MediaType ob)"
    using v' by (auto simp: accept_simps opt_text_ok_def text_ok_def split: if_splits)
  show "opt_text_ok 63 (ob_Language ob)"
    using v' language_ok by blast
  show "pred_option typed_ok (ob_Typed ob)"
    using v' by (cases "ob_Typed ob") (simp_all add: accept_simps typed_ok_def)
qed

lemma context_fitsI: "validate_context cx = None \<Longrightarrow> context_fits cx"
  unfolding validate_context_def context_fits_def first_err_None fail_if_None list.pred_inject conj_assoc
  using validate_dimensions_typed opt_identifier_ok language_ok by (metis not_le)

lemma time_fitsI: "validate_time tm = None \<Longrightarrow> time_fits tm"
  unfolding validate_time_def time_fits_def first_err_None
  by (auto dest!: opt_utc_ok simp: validateUTCSecond_None text_ok_def canonical_utc_second_length canonical_utc_second_utf8)

lemma source_fitsI:
  "validate_source sr = None \<Longrightarrow> digest32 (sr_RepresentationDigest sr) \<Longrightarrow> source_fits sr"
  unfolding validate_source_def source_fits_def first_err_None
  by (auto intro: opt_identifier_ok identifier_ok simp: dp_validateText_None text_ok_def [of 16384])

lemma derivation_fitsI:
  assumes "validate_derivation dv = None"
    and "digest32 (dv_ObservationDigest dv)" "opt_digest32 (dv_TransportDigest dv)"
      "digest32 (dv_AdapterDigest dv)" "digest32 (dv_ExtractionPlanDigest dv)"
      "opt_digest32 (dv_SemanticClosureDigest dv)" "digest32 (dv_CompilerContractDigest dv)"
  shows "derivation_fits dv"
  using assms unfolding validate_derivation_def derivation_fits_def first_err_None
  by (auto intro: opt_digest_okI validate_transforms_ok text_set_okI identifier_ok simp: accept_simps)

lemma epistemic_fitsI: "validate_epistemic ep = None \<Longrightarrow> epistemic_fits ep"
  unfolding validate_epistemic_def epistemic_fits_def first_err_None
  by (elim conjE, intro conjI; (erule enum_ok, simp add: text_ok_def | erule identifier_ok))

lemma subject_fitsI: "validate_subject p = None \<Longrightarrow> subject_fits (pk_Subject p)"
  unfolding validate_subject_def subject_fits_def first_err_None
  by (auto intro: identifier_ok text_set_okI)

lemma predicate_fitsI: "validate_subject p = None \<Longrightarrow> predicate_fits (pk_Predicate p)"
  unfolding validate_subject_def predicate_fits_def first_err_None
  by (auto intro: identifier_ok opt_identifier_ok)

lemma head_fitsI:
  "validate_subject p = None \<Longrightarrow> text_ok 512 (pk_Version p) \<and> text_ok 512 (pk_Kind p)"
  unfolding validate_subject_def first_err_None fail_if_None
  by (elim conjE, rule conjI [rotated], erule enum_ok) (simp_all add: PacketVersion_def text_ok_def)

lemma lifecycle_fitsI:
  "validate_lifecycle p = None \<Longrightarrow> opt_digest32 (lc_SupersedesDigest (pk_Lifecycle p)) \<Longrightarrow>
     lifecycle_fits (pk_Lifecycle p)"
  unfolding validate_lifecycle_def lifecycle_fits_def first_err_None Let_def
  by (elim conjE, intro conjI; (erule enum_ok, simp add: text_ok_def | erule opt_digest_okI, assumption))

lemma tail_fitsI:
  "validate_lifecycle p = None \<Longrightarrow> text_ok 512 (pk_Retention p) \<and> text_ok 512 (pk_Disclosure p)"
  unfolding validate_lifecycle_def first_err_None Let_def fail_if_None
  by (elim conjE, rule conjI, erule enum_ok) (simp_all add: text_ok_def)

lemma emit_Cons_part [emit_simps]:
  "emit (c # subject_calls sj) = emit [c] @ emit (subject_calls sj)"
  by (simp add: emit_eq)

interpretation packet_doc: document MarshalPacket UnmarshalPacket packet_wf
proof (rule dp_documentI)
  show "MarshalPacket x = after (Packet_Validate x) (boundedEncoding (packet_calls x))" for x
    by (rule MarshalPacket_def)
  show "UnmarshalPacket b = ebind (checkedDocument b MaxDocumentBytes dec_packet)
      (\<lambda>x. after (Packet_Validate x) (Inr x))" for b
    by (rule UnmarshalPacket_def)
  show "dec_sound dec_packet (\<lambda>x c. packet_wf x \<and> c = emit (packet_calls x))"
    unfolding dec_packet_def dp_finish_def dataplane_limits of_nat_numeral
    apply (rule dec_sound_bind, rule sound_intros)+
    apply (rule dec_sound_bind, rule dec_sound_finish, rule dec_sound_ret)
    apply (simp add: packet_calls_def emit_simps packet_wf_def source_fits_def derivation_fits_def
        lifecycle_fits_def opt_digest_ok32)
    done
  show "ends_input dec_packet"
    unfolding dec_packet_def dp_finish_def dataplane_limits of_nat_numeral
    by (rule ends_input_bind, rule sound_intros)+ (rule ends_input_finish)
  show "dec_packet (dec_at [] (emit (packet_calls x))) = Inr (x, dec_at (emit (packet_calls x)) [])"
    if v: "Packet_Validate x = None" and w: "packet_wf x" for x
  proof -
    note parts = v [unfolded Packet_Validate_def first_err_None list.pred_inject]
    have "subject_fits (pk_Subject x)" "predicate_fits (pk_Predicate x)" "object_fits (pk_Object x)"
      "context_fits (pk_Context x)" "time_fits (pk_Time x)" "epistemic_fits (pk_Epistemic x)"
      "source_fits (pk_Source x)" "derivation_fits (pk_Derivation x)" "lifecycle_fits (pk_Lifecycle x)"
      using parts w unfolding packet_wf_def
      by (simp_all add: subject_fitsI predicate_fitsI object_fitsI context_fitsI time_fitsI
          epistemic_fitsI source_fitsI derivation_fitsI lifecycle_fitsI)
    moreover have "text_ok 512 (pk_Version x)" "text_ok 512 (pk_Kind x)" "text_ok 512 (pk_Retention x)"
      "text_ok 512 (pk_Disclosure x)"
      using parts head_fitsI tail_fitsI by blast+
    ultimately show ?thesis
      by (cases x) (simp add: dec_packet_def packet_calls_def dp_finish_def emit_simps decode_simps)
  qed
qed

section \<open>The trust lanes\<close>

text \<open>What the evidence of a packet says about its lane, whatever the validator is written like.\<close>

definition promoted :: "packet \<Rightarrow> bool" where
  "promoted p \<longleftrightarrow> ot_Present (pp_Semantic (pk_Predicate p)) \<and> dv_MappingIDs (pk_Derivation p) \<noteq> [] \<and>
     od_Present (dv_SemanticClosureDigest (pk_Derivation p))"

definition unpromoted :: "packet \<Rightarrow> bool" where
  "unpromoted p \<longleftrightarrow> \<not> ot_Present (pp_Semantic (pk_Predicate p)) \<and> dv_MappingIDs (pk_Derivation p) = [] \<and>
     \<not> od_Present (dv_SemanticClosureDigest (pk_Derivation p))"

definition lane_of_evidence :: "packet \<Rightarrow> string option" where
  "lane_of_evidence p =
     (if unpromoted p \<and> ep_MappingStatus (pk_Epistemic p) = ''none'' then Some ''observed_native''
      else if promoted p \<and> ep_MappingStatus (pk_Epistemic p) = ''candidate'' then Some ''provisional_semantic''
      else if promoted p \<and> ep_MappingStatus (pk_Epistemic p) = ''reviewed'' then Some ''attested_semantic''
      else None)"

lemma Packet_Validate_lane_known:
  "Packet_Validate p = None \<Longrightarrow>
     ep_Lane (pk_Epistemic p) \<in> {''observed_native'', ''provisional_semantic'', ''attested_semantic''}"
  by (auto simp: Packet_Validate_def validate_epistemic_def accept_simps)

lemma Packet_Validate_lane:
  assumes "Packet_Validate p = None"
  shows "lane_of_evidence p = Some (ep_Lane (pk_Epistemic p))"
    and "ep_ConfidenceMillionths (pk_Epistemic p) \<noteq> None \<Longrightarrow>
      ep_Lane (pk_Epistemic p) = ''provisional_semantic'' \<and> the (ep_ConfidenceMillionths (pk_Epistemic p)) \<le> 1000000"
proof -
  have l: "validate_lane p = None" and e: "validate_epistemic (pk_Epistemic p) = None"
    using assms by (simp_all add: Packet_Validate_def accept_simps)
  note v = l [unfolded validate_lane_def Let_def first_err_None fail_if_None]
  consider "ep_Lane (pk_Epistemic p) = ''observed_native''" | "ep_Lane (pk_Epistemic p) = ''provisional_semantic''"
    | "ep_Lane (pk_Epistemic p) = ''attested_semantic''"
    using Packet_Validate_lane_known [OF assms] by blast
  then show "lane_of_evidence p = Some (ep_Lane (pk_Epistemic p))"
    by cases (use v in \<open>auto simp: fail_if_None lane_of_evidence_def promoted_def unpromoted_def\<close>)
  assume c: "ep_ConfidenceMillionths (pk_Epistemic p) \<noteq> None"
  from Packet_Validate_lane_known [OF assms] v c
  have "ep_Lane (pk_Epistemic p) = ''provisional_semantic''" by (auto simp: fail_if_None split: if_splits)
  moreover from e c have "the (ep_ConfidenceMillionths (pk_Epistemic p)) \<le> 1000000"
    by (auto simp: validate_epistemic_def accept_simps split: option.splits)
  ultimately show "ep_Lane (pk_Epistemic p) = ''provisional_semantic'' \<and>
      the (ep_ConfidenceMillionths (pk_Epistemic p)) \<le> 1000000" ..
qed

section \<open>Properties\<close>

text \<open>
  C13: a packet survives marshalling, and the octets that are accepted for a packet are the ones
  marshalling it gives, so that its digest identifies it.
\<close>

theorem packet_accepted:
  "UnmarshalPacket bs = Inr p \<longleftrightarrow> packet_wf p \<and> MarshalPacket p = Inr bs"
  by (rule packet_doc.accepted_iff)


abbreviation absent_text :: opt_text where
  "absent_text \<equiv> \<lparr>ot_Present = False, ot_Value = []\<rparr>"

abbreviation present_text :: "string \<Rightarrow> opt_text" where
  "present_text s \<equiv> \<lparr>ot_Present = True, ot_Value = s\<rparr>"

abbreviation absent_digest :: opt_digest where
  "absent_digest \<equiv> \<lparr>od_Present = False, od_Value = zero_digest\<rparr>"

abbreviation present_digest :: opt_digest where
  "present_digest \<equiv> \<lparr>od_Present = True, od_Value = zero_digest\<rparr>"

definition sample_packet :: packet where
  "sample_packet = \<lparr>pk_Version = PacketVersion, pk_Kind = ''claim'',
     pk_Subject = \<lparr>sj_Native = ''s'', sj_CanonicalCandidates = []\<rparr>,
     pk_Predicate = \<lparr>pp_Native = ''p'', pp_Semantic = present_text ''q''\<rparr>,
     pk_Object = \<lparr>ob_NativeStatus = ''resolved'', ob_NativeLexical = ''12'', ob_MediaType = absent_text,
       ob_Language = absent_text, ob_Typed = Some \<lparr>tv_Type = ''integer'', tv_Lexical = ''12'',
         tv_Unit = absent_text, tv_Currency = absent_text\<rparr>\<rparr>,
     pk_Context = \<lparr>cx_Dimensions = [], cx_Jurisdiction = absent_text, cx_Language = present_text ''en'',
       cx_Scope = absent_text\<rparr>,
     pk_Time = \<lparr>tm_ObservedAt = ''2024-02-29T23:59:59Z'', tm_AssertedAt = absent_text,
       tm_ValidFrom = absent_text, tm_ValidUntil = absent_text, tm_SourceModified = absent_text\<rparr>,
     pk_Source = \<lparr>sr_OriginID = ''o'', sr_RepresentationDigest = zero_digest, sr_Locator = ''l'',
       sr_NativeSchemaRef = absent_text\<rparr>,
     pk_Derivation = \<lparr>dv_ObservationDigest = zero_digest, dv_TransportDigest = absent_digest,
       dv_AdapterDigest = zero_digest, dv_ExtractionPlanDigest = zero_digest, dv_TransformationIDs = [],
       dv_MappingIDs = [''m''], dv_SemanticClosureDigest = present_digest,
       dv_CompilerContractDigest = zero_digest, dv_CompilerVersion = ''1''\<rparr>,
     pk_Epistemic = \<lparr>ep_Lane = ''provisional_semantic'', ep_ExtractionStatus = ''deterministic'',
       ep_MappingStatus = ''candidate'', ep_ConfidenceMillionths = Some 900000, ep_AuthorityClass = ''a'',
       ep_FreshnessStatus = ''current''\<rparr>,
     pk_Lifecycle = \<lparr>lc_State = ''current'', lc_SupersedesDigest = absent_digest\<rparr>,
     pk_Retention = ''public_versioned'', pk_Disclosure = ''public''\<rparr>"

lemma sample_packet_valid: "Packet_Validate sample_packet = None"
  using canonical_utc_second_example
  by (simp add: Packet_Validate_def sample_packet_def validate_subject_def validate_object_def
      validate_context_def validate_time_def validate_source_def validate_derivation_def
      validate_epistemic_def validate_lane_def validate_lifecycle_def Let_def accept_simps
      validateLanguage_def tag_char_def lower_letter_def less_eq_char_def TypedValue_Validate_def
      integerPattern_def unsigned_integer_def strip_minus_def all_digits_def is_digit_def
      utf8_valid_string_ascii is_ascii_def)


end
