(* ===== verification/Packet_Batch.thy ===== *)
theory Packet_Batch
  imports Packet
begin

text \<open>
  \<open>internal/dataplane/packet.go\<close>: batch manifests, which list the packets and deltas of
  one compilation run, and deltas, which relate the packets before and after a change.
\<close>

section \<open>Batch manifests\<close>

definition BatchVersion :: string where "BatchVersion = ''tw.packet-batch-manifest/0.1''"

record digest_size_entry =
  de_Digest :: "byte list"
  de_Size :: uint64

record named_artifact =
  na_Name :: string
  na_Digest :: "byte list"
  na_Size :: uint64

record batch_manifest =
  bm_Version :: string
  bm_OriginID :: string
  bm_CompilerContractDigest :: "byte list"
  bm_PolicyDecisionDigest :: "byte list"
  bm_StartedAt :: string
  bm_CompletedAt :: string
  bm_PreviousBatchID :: opt_digest
  bm_Observations :: "byte list list"
  bm_Packets :: "digest_size_entry list"
  bm_Deltas :: "digest_size_entry list"
  bm_RejectionReportDigest :: "byte list"
  bm_MetricsDigest :: "byte list"
  bm_Artifacts :: "named_artifact list"

text \<open>The loops; \<open>previous\<close> is the element of index \<open>i - 1\<close>.\<close>

fun validate_digest_entries :: "string \<Rightarrow> byte list option \<Rightarrow> digest_size_entry list \<Rightarrow> error option" where
  "validate_digest_entries name previous [] = None"
| "validate_digest_entries name previous (value # rest) = first_err [
     fail_if (de_Size value = 0 \<or> de_Size value > 4194304) (invalid (name @ '' size outside bounds'')),
     fail_if (case previous of None \<Rightarrow> False | Some d \<Rightarrow> \<not> d < de_Digest value)
       (invalid (name @ '' must be strictly sorted'')),
     validate_digest_entries name (Some (de_Digest value)) rest]"

definition validateDigestEntries :: "string \<Rightarrow> digest_size_entry list \<Rightarrow> nat \<Rightarrow> error option" where
  "validateDigestEntries name values maximum = first_err [
     fail_if (length values > maximum) (invalid (name @ '' count exceeds the limit'')),
     validate_digest_entries name None values]"

fun validate_artifacts :: "string option \<Rightarrow> named_artifact list \<Rightarrow> error option" where
  "validate_artifacts previous [] = None"
| "validate_artifacts previous (artifact # rest) = first_err [
     dp_validateText ''artifact name'' (na_Name artifact) MaxShortText False,
     fail_if (na_Size artifact = 0 \<or> na_Size artifact > 4194304) (invalid ''artifact size outside bounds''),
     fail_if (case previous of None \<Rightarrow> False | Some n \<Rightarrow> \<not> n < na_Name artifact)
       (invalid ''artifacts must be strictly sorted''),
     validate_artifacts (Some (na_Name artifact)) rest]"

definition BatchManifest_Validate :: "batch_manifest \<Rightarrow> error option" where
  "BatchManifest_Validate m = first_err [
     fail_if (bm_Version m \<noteq> BatchVersion) (invalid ''batch version''),
     validateIdentifier ''origin ID'' (bm_OriginID m),
     validateUTCSecond ''started at'' (bm_StartedAt m),
     validateUTCSecond ''completed at'' (bm_CompletedAt m),
     fail_if (bm_StartedAt m > bm_CompletedAt m) (invalid ''batch completion precedes start''),
     validateOptionalDigest ''previous batch ID'' (bm_PreviousBatchID m),
     validateSortedUniqueDigests ''observations'' (bm_Observations m) 1024 1,
     validateDigestEntries ''packets'' (bm_Packets m) 32768,
     validateDigestEntries ''deltas'' (bm_Deltas m) 32768,
     fail_if (bm_Artifacts m = [] \<or> length (bm_Artifacts m) > 64) (invalid ''artifact count outside 1..64''),
     validate_artifacts None (bm_Artifacts m)]"

definition size_entry_calls :: "digest_size_entry \<Rightarrow> enc_call list" where
  "size_entry_calls x = [CArray 2] @ enc_digest (de_Digest x) @ [CUint (de_Size x)]"

definition encodeDigestEntries :: "digest_size_entry list \<Rightarrow> enc_call list" where
  "encodeDigestEntries = enc_counted size_entry_calls"

definition dec_size_entry :: "digest_size_entry parser" where
  "dec_size_entry =
     dbind (expect_Array 2 (invalid ''digest entry array'')) (\<lambda>_.
     dbind dp_decodeDigest (\<lambda>digest.
     dbind dec_Uint (\<lambda>size.
     dret \<lparr>de_Digest = digest, de_Size = size\<rparr>)))"

definition decodeDigestEntries :: "uint64 \<Rightarrow> digest_size_entry list parser" where
  "decodeDigestEntries maximum = dec_counted 0 maximum (invalid ''digest entries count'') dec_size_entry"

definition artifact_calls :: "named_artifact \<Rightarrow> enc_call list" where
  "artifact_calls x = [CArray 3, CText (na_Name x)] @ enc_digest (na_Digest x) @ [CUint (na_Size x)]"

definition dec_artifact :: "named_artifact parser" where
  "dec_artifact =
     dbind (expect_Array 3 (invalid ''artifact array'')) (\<lambda>_.
     dbind (dec_Text (word_of_nat MaxShortText)) (\<lambda>name.
     dbind dp_decodeDigest (\<lambda>digest.
     dbind dec_Uint (\<lambda>size.
     dret \<lparr>na_Name = name, na_Digest = digest, na_Size = size\<rparr>))))"

definition batch_calls :: "batch_manifest \<Rightarrow> enc_call list" where
  "batch_calls m =
     [CArray 14, CText (bm_Version m), CText (bm_OriginID m)]
     @ enc_digest (bm_CompilerContractDigest m)
     @ enc_digest (bm_PolicyDecisionDigest m)
     @ [CText (bm_StartedAt m), CText (bm_CompletedAt m)]
     @ encodeOptionalDigest (bm_PreviousBatchID m)
     @ encodeDigestSet (bm_Observations m)
     @ encodeDigestEntries (bm_Packets m)
     @ encodeDigestEntries (bm_Deltas m)
     @ enc_digest (bm_RejectionReportDigest m)
     @ enc_digest (bm_MetricsDigest m)
     @ enc_counted artifact_calls (bm_Artifacts m)
     @ [CArray 0]"

definition MarshalBatchManifest :: "batch_manifest \<Rightarrow> error + byte list" where
  "MarshalBatchManifest m = after (BatchManifest_Validate m) (boundedEncoding (batch_calls m))"

definition dec_batch :: "batch_manifest parser" where
  "dec_batch =
     dbind (expect_Array 14 (invalid ''batch array'')) (\<lambda>_.
     dbind (dec_Text (word_of_nat MaxIdentifier)) (\<lambda>version.
     dbind (dec_Text (word_of_nat MaxIdentifier)) (\<lambda>originID.
     dbind dp_decodeDigest (\<lambda>compilerContractDigest.
     dbind dp_decodeDigest (\<lambda>policyDecisionDigest.
     dbind (dec_Text 20) (\<lambda>startedAt.
     dbind (dec_Text 20) (\<lambda>completedAt.
     dbind decodeOptionalDigest (\<lambda>previousBatchID.
     dbind (decodeDigestSet 1024 1) (\<lambda>observations.
     dbind (decodeDigestEntries 32768) (\<lambda>packets.
     dbind (decodeDigestEntries 32768) (\<lambda>deltas.
     dbind dp_decodeDigest (\<lambda>rejectionReportDigest.
     dbind dp_decodeDigest (\<lambda>metricsDigest.
     dbind (dec_counted 1 64 (invalid ''artifact count'') dec_artifact) (\<lambda>artifacts.
     dbind expectEmptyExtensions (\<lambda>_.
     dbind dp_finish (\<lambda>_.
     dret \<lparr>bm_Version = version, bm_OriginID = originID,
           bm_CompilerContractDigest = compilerContractDigest,
           bm_PolicyDecisionDigest = policyDecisionDigest, bm_StartedAt = startedAt,
           bm_CompletedAt = completedAt, bm_PreviousBatchID = previousBatchID,
           bm_Observations = observations, bm_Packets = packets, bm_Deltas = deltas,
           bm_RejectionReportDigest = rejectionReportDigest, bm_MetricsDigest = metricsDigest,
           bm_Artifacts = artifacts\<rparr>))))))))))))))))"

definition UnmarshalBatchManifest :: "byte list \<Rightarrow> error + batch_manifest" where
  "UnmarshalBatchManifest bs =
     ebind (checkedDocument bs MaxDocumentBytes dec_batch) (\<lambda>m. after (BatchManifest_Validate m) (Inr m))"

section \<open>The batch manifest as a document\<close>

definition size_entry_fits :: "digest_size_entry \<Rightarrow> bool" where
  "size_entry_fits x \<longleftrightarrow> digest32 (de_Digest x)"

interpretation bt_entry: codec size_entry_calls dec_size_entry size_entry_fits
proof
  show "dec_size_entry (dec_at pre (emit (size_entry_calls x) @ r)) =
      Inr (x, dec_at (pre @ emit (size_entry_calls x)) r)" if "size_entry_fits x" for x pre r
    using that by (cases x) (simp add: dec_size_entry_def size_entry_calls_def size_entry_fits_def emit_simps decode_simps)
  show "dec_sound dec_size_entry (\<lambda>x c. size_entry_fits x \<and> c = emit (size_entry_calls x))"
    unfolding dec_size_entry_def
    apply (rule dec_sound_bind, rule sound_intros)+
    apply (rule dec_sound_ret)
    apply (simp add: size_entry_calls_def size_entry_fits_def emit_simps)
    done
qed

definition size_entries_fit :: "uint64 \<Rightarrow> digest_size_entry list \<Rightarrow> bool" where
  "size_entries_fit k xs \<longleftrightarrow> list_all size_entry_fits xs \<and> length xs \<le> unat k"

interpretation bt_entries: codec encodeDigestEntries "decodeDigestEntries k" "size_entries_fit k" for k
proof -
  have "codec encodeDigestEntries (decodeDigestEntries k)
      (\<lambda>xs. list_all size_entry_fits xs \<and> unat (0::uint64) \<le> length xs \<and> length xs \<le> unat k)"
    unfolding encodeDigestEntries_def decodeDigestEntries_def by (rule bt_entry.counted_codec)
  then show "codec encodeDigestEntries (decodeDigestEntries k) (size_entries_fit k)"
    by (simp add: size_entries_fit_def [abs_def])
qed

definition artifact_fits :: "named_artifact \<Rightarrow> bool" where
  "artifact_fits x \<longleftrightarrow> text_ok 255 (na_Name x) \<and> digest32 (na_Digest x)"

interpretation bt_artifact: codec artifact_calls dec_artifact artifact_fits
proof
  show "dec_artifact (dec_at pre (emit (artifact_calls x) @ r)) =
      Inr (x, dec_at (pre @ emit (artifact_calls x)) r)" if "artifact_fits x" for x pre r
    using that by (cases x) (simp add: dec_artifact_def artifact_calls_def artifact_fits_def emit_simps decode_simps)
  show "dec_sound dec_artifact (\<lambda>x c. artifact_fits x \<and> c = emit (artifact_calls x))"
    unfolding dec_artifact_def dataplane_limits of_nat_numeral
    apply (rule dec_sound_bind, rule sound_intros)+
    apply (rule dec_sound_ret)
    apply (simp add: artifact_calls_def artifact_fits_def emit_simps)
    done
qed

interpretation bt_artifacts: codec "enc_counted artifact_calls"
    "dec_counted 1 64 (invalid ''artifact count'') dec_artifact"
    "\<lambda>xs. list_all artifact_fits xs \<and> unat (1::uint64) \<le> length xs \<and> length xs \<le> unat (64::uint64)"
  by (rule bt_artifact.counted_codec)

lemma emit_Cons_entries [emit_simps]:
  "emit (c # encodeDigestEntries xs) = emit [c] @ emit (encodeDigestEntries xs)"
  by (simp add: emit_eq)

lemmas bt_complete [decode_simps] =
  bt_entries.complete bt_entries.complete_last bt_artifacts.complete bt_artifacts.complete_last

lemmas bt_sound [sound_intros] = bt_entries.sound bt_artifacts.sound

definition batch_wf :: "batch_manifest \<Rightarrow> bool" where
  "batch_wf m \<longleftrightarrow>
     digest32 (bm_CompilerContractDigest m) \<and> digest32 (bm_PolicyDecisionDigest m) \<and>
     opt_digest32 (bm_PreviousBatchID m) \<and> list_all digest32 (bm_Observations m) \<and>
     list_all (\<lambda>e. digest32 (de_Digest e)) (bm_Packets m) \<and>
     list_all (\<lambda>e. digest32 (de_Digest e)) (bm_Deltas m) \<and>
     digest32 (bm_RejectionReportDigest m) \<and> digest32 (bm_MetricsDigest m) \<and>
     list_all (\<lambda>a. digest32 (na_Digest a)) (bm_Artifacts m)"

lemma validate_digest_entries_None:
  "validate_digest_entries name previous es = None \<longleftrightarrow>
     list_all (\<lambda>e. 0 < de_Size e \<and> de_Size e \<le> 4194304) es \<and>
     strictly_sorted ((case previous of None \<Rightarrow> [] | Some d \<Rightarrow> [d]) @ map de_Digest es)"
proof (induction es arbitrary: previous)
  case Nil
  then show ?case by (simp split: option.split)
next
  case (Cons e es)
  then show ?case
    by (cases previous) (auto simp: first_err_None fail_if_None word_neq_0_conv)
qed

lemma validateDigestEntries_None [accept_simps]:
  "validateDigestEntries name es k = None \<longleftrightarrow>
     length es \<le> k \<and> list_all (\<lambda>e. 0 < de_Size e \<and> de_Size e \<le> 4194304) es \<and>
     strictly_sorted (map de_Digest es)"
  by (auto simp: validateDigestEntries_def accept_simps validate_digest_entries_None)

lemma validate_artifacts_None:
  "validate_artifacts previous as = None \<longleftrightarrow>
     list_all (\<lambda>a. dp_validateText ''artifact name'' (na_Name a) 255 False = None \<and>
       0 < na_Size a \<and> na_Size a \<le> 4194304) as \<and>
     strictly_sorted ((case previous of None \<Rightarrow> [] | Some n \<Rightarrow> [n]) @ map na_Name as)"
proof (induction as arbitrary: previous)
  case Nil
  then show ?case by (simp split: option.split)
next
  case (Cons a as)
  then show ?case
    by (cases previous) (auto simp: first_err_None fail_if_None word_neq_0_conv)
qed

lemma entries_fitI:
  "validateDigestEntries n es 32768 = None \<Longrightarrow> list_all (\<lambda>e. digest32 (de_Digest e)) es \<Longrightarrow>
     size_entries_fit 32768 es"
  by (simp add: size_entries_fit_def accept_simps size_entry_fits_def [abs_def])

interpretation batch_doc: document MarshalBatchManifest UnmarshalBatchManifest batch_wf
proof (rule dp_documentI)
  show "MarshalBatchManifest x = after (BatchManifest_Validate x) (boundedEncoding (batch_calls x))" for x
    by (rule MarshalBatchManifest_def)
  show "UnmarshalBatchManifest b = ebind (checkedDocument b MaxDocumentBytes dec_batch)
      (\<lambda>x. after (BatchManifest_Validate x) (Inr x))" for b
    by (rule UnmarshalBatchManifest_def)
  show "dec_sound dec_batch (\<lambda>x c. batch_wf x \<and> c = emit (batch_calls x))"
    unfolding dec_batch_def dp_finish_def dataplane_limits of_nat_numeral
    apply (rule dec_sound_bind, rule sound_intros)+
    apply (rule dec_sound_bind, rule dec_sound_finish, rule dec_sound_ret)
    apply (simp add: batch_calls_def emit_simps batch_wf_def opt_digest_ok32 digest_set_ok_def
        size_entries_fit_def size_entry_fits_def [abs_def] artifact_fits_def list_all_iff)
    done
  show "ends_input dec_batch"
    unfolding dec_batch_def dp_finish_def dataplane_limits of_nat_numeral
    by (rule ends_input_bind, rule sound_intros)+ (rule ends_input_finish)
  show "dec_batch (dec_at [] (emit (batch_calls x))) = Inr (x, dec_at (emit (batch_calls x)) [])"
    if v: "BatchManifest_Validate x = None" and w: "batch_wf x" for x
  proof -
    note parts = v [unfolded BatchManifest_Validate_def first_err_None list.pred_inject fail_if_None]
    have "text_ok 512 (bm_Version x)" "text_ok 512 (bm_OriginID x)" "text_ok 20 (bm_StartedAt x)"
      "text_ok 20 (bm_CompletedAt x)" "opt_digest_ok (bm_PreviousBatchID x)"
      using parts w unfolding batch_wf_def
      by (auto simp: BatchVersion_def text_ok_def accept_simps canonical_utc_second_length
          canonical_utc_second_utf8 intro: opt_digest_okI)
    moreover have "digest_set_ok 1024 1 (bm_Observations x)" "size_entries_fit 32768 (bm_Packets x)"
      "size_entries_fit 32768 (bm_Deltas x)"
      using parts w unfolding batch_wf_def by (auto intro: digest_set_okI entries_fitI)
    moreover have "list_all artifact_fits (bm_Artifacts x)" "Suc 0 \<le> length (bm_Artifacts x)"
      "length (bm_Artifacts x) \<le> 64"
      using parts w unfolding batch_wf_def
      by (auto simp: validate_artifacts_None artifact_fits_def list_all_iff accept_simps text_ok_def Suc_le_eq)
    ultimately show ?thesis using w unfolding batch_wf_def
      by (cases x) (simp add: dec_batch_def batch_calls_def dp_finish_def emit_simps decode_simps)
  qed
qed

section \<open>Deltas\<close>

definition DeltaVersion :: string where "DeltaVersion = ''tw.semantic-delta/0.1''"

record delta =
  dl_Version :: string
  dl_Class :: string
  dl_Kind :: string
  dl_SemanticKeyDigest :: "byte list"
  dl_BeforePacketDigest :: opt_digest
  dl_AfterPacketDigest :: opt_digest
  dl_BeforeSourceEvidenceDigest :: opt_digest
  dl_AfterSourceEvidenceDigest :: opt_digest
  dl_OriginID :: string
  dl_OccurredAt :: string
  dl_BatchID :: "byte list"
  dl_CanonVersion :: string
  dl_ReasonCode :: string

definition allPresent :: "opt_digest list \<Rightarrow> bool" where
  "allPresent = list_all od_Present"

definition delta_digests :: "delta \<Rightarrow> opt_digest list" where
  "delta_digests d = [dl_BeforePacketDigest d, dl_AfterPacketDigest d,
     dl_BeforeSourceEvidenceDigest d, dl_AfterSourceEvidenceDigest d]"

definition allowed_kinds :: "string \<Rightarrow> string list" where
  "allowed_kinds class =
     (if class = ''semantic'' then
        [''mapped'', ''remapped'', ''narrowed'', ''broadened'', ''disputed'', ''attested'', ''de_attested'']
      else if class = ''canon'' then
        [''module_added'', ''module_superseded'', ''mapping_superseded'', ''closure_changed'']
      else [''added'', ''modified'', ''withdrawn'', ''restored'', ''source_retracted''])"

definition validate_topology :: "delta \<Rightarrow> error option" where
  "validate_topology d =
     (let bp = dl_BeforePacketDigest d; ap = dl_AfterPacketDigest d;
          bs = dl_BeforeSourceEvidenceDigest d; as = dl_AfterSourceEvidenceDigest d
      in if dl_Class d = ''origin'' then
           (if dl_Kind d = ''added'' then
              fail_if (od_Present bp \<or> od_Present bs \<or> \<not> od_Present ap \<or> \<not> od_Present as)
                (invalid ''invalid added topology'')
            else if dl_Kind d \<in> {''modified'', ''restored''} then
              fail_if (\<not> allPresent [bp, ap, bs, as] \<or> od_Value bs = od_Value as)
                (invalid ''origin change requires changed source evidence'')
            else if dl_Kind d \<in> {''withdrawn'', ''source_retracted''} then
              fail_if (\<not> od_Present bp \<or> od_Present ap \<or> \<not> od_Present bs)
                (invalid ''invalid removal topology'')
            else None)
         else first_err [
           fail_if (\<not> allPresent [bp, ap, bs, as] \<or> od_Value bs \<noteq> od_Value as)
             (invalid ''semantic/canon change must preserve source evidence''),
           fail_if (od_Value bp = od_Value ap)
             (invalid ''reinterpretation requires distinct packet identities'')])"

definition Delta_Validate :: "delta \<Rightarrow> error option" where
  "Delta_Validate d = first_err [
     fail_if (dl_Version d \<noteq> DeltaVersion) (invalid ''delta version''),
     validateEnum ''delta class'' (dl_Class d) [''origin'', ''semantic'', ''canon''],
     validateIdentifier ''origin ID'' (dl_OriginID d),
     validateUTCSecond ''occurred at'' (dl_OccurredAt d),
     validateIdentifier ''canon version'' (dl_CanonVersion d),
     validateIdentifier ''reason code'' (dl_ReasonCode d),
     validateOptionalDigest ''before packet'' (dl_BeforePacketDigest d),
     validateOptionalDigest ''after packet'' (dl_AfterPacketDigest d),
     validateOptionalDigest ''before evidence'' (dl_BeforeSourceEvidenceDigest d),
     validateOptionalDigest ''after evidence'' (dl_AfterSourceEvidenceDigest d),
     validateEnum ''delta kind'' (dl_Kind d) (allowed_kinds (dl_Class d)),
     validate_topology d]"

definition delta_calls :: "delta \<Rightarrow> enc_call list" where
  "delta_calls d =
     [CArray 14, CText (dl_Version d), CText (dl_Class d), CText (dl_Kind d)]
     @ enc_digest (dl_SemanticKeyDigest d)
     @ encodeOptionalDigest (dl_BeforePacketDigest d)
     @ encodeOptionalDigest (dl_AfterPacketDigest d)
     @ encodeOptionalDigest (dl_BeforeSourceEvidenceDigest d)
     @ encodeOptionalDigest (dl_AfterSourceEvidenceDigest d)
     @ [CText (dl_OriginID d), CText (dl_OccurredAt d)]
     @ enc_digest (dl_BatchID d)
     @ [CText (dl_CanonVersion d), CText (dl_ReasonCode d), CArray 0]"

definition MarshalDelta :: "delta \<Rightarrow> error + byte list" where
  "MarshalDelta d = after (Delta_Validate d) (boundedEncoding (delta_calls d))"

definition dec_delta :: "delta parser" where
  "dec_delta =
     dbind (expect_Array 14 (invalid ''delta array'')) (\<lambda>_.
     dbind (dec_Text (word_of_nat MaxIdentifier)) (\<lambda>version.
     dbind (dec_Text (word_of_nat MaxIdentifier)) (\<lambda>class.
     dbind (dec_Text (word_of_nat MaxIdentifier)) (\<lambda>kind.
     dbind dp_decodeDigest (\<lambda>semanticKeyDigest.
     dbind decodeOptionalDigest (\<lambda>beforePacketDigest.
     dbind decodeOptionalDigest (\<lambda>afterPacketDigest.
     dbind decodeOptionalDigest (\<lambda>beforeSourceEvidenceDigest.
     dbind decodeOptionalDigest (\<lambda>afterSourceEvidenceDigest.
     dbind (dec_Text (word_of_nat MaxIdentifier)) (\<lambda>originID.
     dbind (dec_Text 20) (\<lambda>occurredAt.
     dbind dp_decodeDigest (\<lambda>batchID.
     dbind (dec_Text (word_of_nat MaxIdentifier)) (\<lambda>canonVersion.
     dbind (dec_Text (word_of_nat MaxIdentifier)) (\<lambda>reasonCode.
     dbind expectEmptyExtensions (\<lambda>_.
     dbind dp_finish (\<lambda>_.
     dret \<lparr>dl_Version = version, dl_Class = class, dl_Kind = kind,
           dl_SemanticKeyDigest = semanticKeyDigest, dl_BeforePacketDigest = beforePacketDigest,
           dl_AfterPacketDigest = afterPacketDigest,
           dl_BeforeSourceEvidenceDigest = beforeSourceEvidenceDigest,
           dl_AfterSourceEvidenceDigest = afterSourceEvidenceDigest, dl_OriginID = originID,
           dl_OccurredAt = occurredAt, dl_BatchID = batchID, dl_CanonVersion = canonVersion,
           dl_ReasonCode = reasonCode\<rparr>))))))))))))))))"

definition UnmarshalDelta :: "byte list \<Rightarrow> error + delta" where
  "UnmarshalDelta bs =
     ebind (checkedDocument bs MaxDocumentBytes dec_delta) (\<lambda>d. after (Delta_Validate d) (Inr d))"

definition delta_wf :: "delta \<Rightarrow> bool" where
  "delta_wf d \<longleftrightarrow> digest32 (dl_SemanticKeyDigest d) \<and> list_all opt_digest32 (delta_digests d) \<and>
     digest32 (dl_BatchID d)"

lemma allowed_kinds_short: "k \<in> set (allowed_kinds c) \<Longrightarrow> text_ok 512 k"
  by (auto simp: allowed_kinds_def text_ok_def split: if_splits)

interpretation delta_doc: document MarshalDelta UnmarshalDelta delta_wf
proof (rule dp_documentI)
  show "MarshalDelta x = after (Delta_Validate x) (boundedEncoding (delta_calls x))" for x
    by (rule MarshalDelta_def)
  show "UnmarshalDelta b = ebind (checkedDocument b MaxDocumentBytes dec_delta)
      (\<lambda>x. after (Delta_Validate x) (Inr x))" for b
    by (rule UnmarshalDelta_def)
  show "dec_sound dec_delta (\<lambda>x c. delta_wf x \<and> c = emit (delta_calls x))"
    unfolding dec_delta_def dp_finish_def dataplane_limits of_nat_numeral
    apply (rule dec_sound_bind, rule sound_intros)+
    apply (rule dec_sound_bind, rule dec_sound_finish, rule dec_sound_ret)
    apply (simp add: delta_calls_def emit_simps delta_wf_def delta_digests_def opt_digest_ok32)
    done
  show "ends_input dec_delta"
    unfolding dec_delta_def dp_finish_def dataplane_limits of_nat_numeral
    by (rule ends_input_bind, rule sound_intros)+ (rule ends_input_finish)
  show "dec_delta (dec_at [] (emit (delta_calls x))) = Inr (x, dec_at (emit (delta_calls x)) [])"
    if v: "Delta_Validate x = None" and w: "delta_wf x" for x
  proof -
    note parts = v [unfolded Delta_Validate_def first_err_None list.pred_inject fail_if_None]
    have "text_ok 512 (dl_Class x)"
      using parts by (elim conjE, elim enum_ok) (simp add: text_ok_def)
    moreover have "text_ok 512 (dl_Kind x)"
      using parts unfolding validateEnum_None by (elim conjE) (rule allowed_kinds_short)
    moreover have "text_ok 512 (dl_Version x)" "text_ok 512 (dl_OriginID x)" "text_ok 20 (dl_OccurredAt x)"
      "text_ok 512 (dl_CanonVersion x)" "text_ok 512 (dl_ReasonCode x)"
      using parts by (simp_all add: DeltaVersion_def accept_simps text_ok_def
          canonical_utc_second_length canonical_utc_second_utf8)
    moreover have "opt_digest_ok (dl_BeforePacketDigest x)" "opt_digest_ok (dl_AfterPacketDigest x)"
      "opt_digest_ok (dl_BeforeSourceEvidenceDigest x)" "opt_digest_ok (dl_AfterSourceEvidenceDigest x)"
      using parts w unfolding delta_wf_def delta_digests_def by (auto intro: opt_digest_okI)
    ultimately show ?thesis using w unfolding delta_wf_def
      by (cases x) (simp add: dec_delta_def delta_calls_def dp_finish_def emit_simps decode_simps)
  qed
qed

section \<open>The topology of a delta\<close>

lemma Delta_Validate_parts:
  assumes "Delta_Validate d = None"
  shows "dl_Class d \<in> {''origin'', ''semantic'', ''canon''}" "dl_Kind d \<in> set (allowed_kinds (dl_Class d))"
    "validate_topology d = None"
  using assms by (simp_all add: Delta_Validate_def first_err_None validateEnum_None)

text \<open>
  A change of class origin shows new evidence or a removal; a reinterpretation keeps the evidence
  and changes the packet.
\<close>

lemma topology_reinterpretation:
  assumes "Delta_Validate d = None" and "dl_Class d \<noteq> ''origin''"
  shows "list_all od_Present (delta_digests d)"
    and "od_Value (dl_BeforeSourceEvidenceDigest d) = od_Value (dl_AfterSourceEvidenceDigest d)"
    and "od_Value (dl_BeforePacketDigest d) \<noteq> od_Value (dl_AfterPacketDigest d)"
  using Delta_Validate_parts [OF assms(1)] assms(2)
  by (simp_all add: validate_topology_def Let_def accept_simps allPresent_def delta_digests_def)

lemma topology_origin:
  assumes "Delta_Validate d = None" and "dl_Class d = ''origin''"
  shows "od_Present (dl_BeforePacketDigest d) \<longleftrightarrow> dl_Kind d \<noteq> ''added''"
    and "od_Present (dl_AfterPacketDigest d) \<longleftrightarrow> dl_Kind d \<notin> {''withdrawn'', ''source_retracted''}"
    and "dl_Kind d \<in> {''modified'', ''restored''} \<Longrightarrow>
      od_Value (dl_BeforeSourceEvidenceDigest d) \<noteq> od_Value (dl_AfterSourceEvidenceDigest d)"
  using Delta_Validate_parts [OF assms(1)] assms(2)
  by (auto simp: validate_topology_def Let_def accept_simps allPresent_def allowed_kinds_def split: if_splits)

section \<open>Properties\<close>

text \<open>
  A batch manifest survives marshalling and is identified by its octets; what is accepted
  lists its packets, deltas and artifacts in strict order, without repetition.
\<close>

theorem batch_accepted:
  "UnmarshalBatchManifest bs = Inr m \<longleftrightarrow>
     batch_wf m \<and> MarshalBatchManifest m = Inr bs \<and>
     (sorted (map de_Digest (bm_Packets m)) \<and> distinct (map de_Digest (bm_Packets m)) \<and>
      sorted (map de_Digest (bm_Deltas m)) \<and> distinct (map de_Digest (bm_Deltas m)) \<and>
      sorted (map na_Name (bm_Artifacts m)) \<and> distinct (map na_Name (bm_Artifacts m)))"
proof -
  have "strictly_sorted (map de_Digest (bm_Packets m))" "strictly_sorted (map de_Digest (bm_Deltas m))"
    "strictly_sorted (map na_Name (bm_Artifacts m))" if "MarshalBatchManifest m = Inr bs"
    using that
    by (auto simp: MarshalBatchManifest_def after_Inr BatchManifest_Validate_def accept_simps
        validate_artifacts_None)
  then show ?thesis
    unfolding batch_doc.accepted_iff strictly_sorted_iff by blast
qed

text \<open>
  A delta survives marshalling and is identified by its octets.
\<close>

theorem delta_accepted:
  "UnmarshalDelta bs = Inr d \<longleftrightarrow> delta_wf d \<and> MarshalDelta d = Inr bs"
  by (rule delta_doc.accepted_iff)


definition sample_delta :: delta where
  "sample_delta = \<lparr>dl_Version = DeltaVersion, dl_Class = ''semantic'', dl_Kind = ''remapped'',
     dl_SemanticKeyDigest = zero_digest, dl_BeforePacketDigest = \<lparr>od_Present = True, od_Value = replicate 32 1\<rparr>,
     dl_AfterPacketDigest = \<lparr>od_Present = True, od_Value = replicate 32 2\<rparr>,
     dl_BeforeSourceEvidenceDigest = present_digest, dl_AfterSourceEvidenceDigest = present_digest,
     dl_OriginID = ''o'', dl_OccurredAt = ''2024-02-29T23:59:59Z'', dl_BatchID = zero_digest,
     dl_CanonVersion = ''1'', dl_ReasonCode = ''r''\<rparr>"

lemma sample_delta_valid: "Delta_Validate sample_delta = None"
  using canonical_utc_second_example
  by (simp add: Delta_Validate_def sample_delta_def accept_simps validate_topology_def Let_def allowed_kinds_def
      allPresent_def utf8_valid_string_ascii is_ascii_def)


end
