(* ===== verification/Query.thy ===== *)
theory Query
  imports Packet_Batch
begin

text \<open>
  \<open>internal/dataplane/query.go\<close>: semantic queries and subscriptions. The parser of a
  query is one sequence in the code, cut here into the parts it reads.
\<close>

section \<open>Queries\<close>

definition QueryVersion :: string where "QueryVersion = ''tw.semantic-query/0.1''"

record query_subject =
  qs_Concept :: opt_text
  qs_IDs :: "string list"

record query_dimension =
  qd_Key :: string
  qd_Relation :: string
  qd_Values :: "typed_value list"

record query_time =
  qt_Mode :: string
  qt_From :: opt_text
  qt_Until :: opt_text

record query_ontology =
  qo_MaximumDepth :: uint64
  qo_MaximumPathCostMillionths :: uint64
  qo_AllowedEdgeStatuses :: "string list"

record query_sources =
  qr_AllowedOriginIDs :: "string list"
  qr_MinimumDistinctOrigins :: uint64
  qr_AllowedAuthorityClasses :: "string list"

record query_trust =
  qu_AllowedLanes :: "string list"
  qu_AllowedMappingStatuses :: "string list"

record query_freshness =
  qf_MaximumAgeSeconds :: "uint64 option"
  qf_StaleBehavior :: string

record query_economics =
  qe_MaximumPrice :: opt_text
  qe_Currency :: opt_text
  qe_AllowedFundingClasses :: "string list"

record query_execution =
  qx_AllowMaterializedState :: bool
  qx_AllowLiveRefresh :: bool
  qx_MaximumLiveOrigins :: uint64
  qx_DeadlineMilliseconds :: uint64

record query_proof =
  qp_Level :: string
  qp_IncludePlan :: bool
  qp_IncludeNative :: bool

record query_limits =
  ql_MaximumResults :: uint64
  ql_MaximumPackets :: uint64
  ql_MaximumProofBytes :: uint64

record query =
  q_Version :: string
  q_Select :: "string list"
  q_Subject :: query_subject
  q_Dimensions :: "query_dimension list"
  q_Time :: query_time
  q_Ontology :: query_ontology
  q_Sources :: query_sources
  q_Trust :: query_trust
  q_Freshness :: query_freshness
  q_Economics :: query_economics
  q_Conflicts :: string
  q_Execution :: query_execution
  q_Proof :: query_proof
  q_Preference :: string
  q_Limits :: query_limits

definition validateEnumTextSet :: "string \<Rightarrow> string list \<Rightarrow> nat \<Rightarrow> nat \<Rightarrow> string list \<Rightarrow> error option" where
  "validateEnumTextSet name values maximum minimum allowed = first_err [
     fail_if (length values < minimum \<or> length values > maximum) (invalid (name @ '' count outside bounds'')),
     validateSortedUniqueText name values maximum,
     first_err (map (\<lambda>value. validateEnum name value allowed) values)]"

definition validatePreference :: "string \<Rightarrow> error option" where
  "validatePreference value = validateEnum ''preference'' value
     [''most_authoritative'', ''freshest'', ''fastest'', ''least_expensive'', ''highest_proof'', ''balanced'']"

definition validate_query_subject :: "query \<Rightarrow> error option" where
  "validate_query_subject q = first_err [
     fail_if (q_Version q \<noteq> QueryVersion) (invalid ''query version''),
     validateSortedUniqueText ''selected concepts'' (q_Select q) 32,
     fail_if (q_Select q = []) (invalid ''at least one selected concept is required''),
     validateOptionalIdentifier ''subject concept'' (qs_Concept (q_Subject q)),
     validateSortedUniqueText ''subject IDs'' (qs_IDs (q_Subject q)) 256,
     fail_if (\<not> ot_Present (qs_Concept (q_Subject q)) \<and> qs_IDs (q_Subject q) = [])
       (invalid ''query subject is empty'')]"

text \<open>The values of a dimension are sorted by their canonical octets.\<close>

fun validate_dimension_values :: "byte list option \<Rightarrow> typed_value list \<Rightarrow> error option" where
  "validate_dimension_values prior [] = None"
| "validate_dimension_values prior (value # rest) = (let current = emit (encodeTypedValue value) in first_err [
     TypedValue_Validate value,
     fail_if (case prior of None \<Rightarrow> False | Some p \<Rightarrow> \<not> p < current)
       (invalid ''dimension values must be canonically sorted''),
     validate_dimension_values (Some current) rest])"

fun validate_query_dimensions :: "string option \<Rightarrow> query_dimension list \<Rightarrow> error option" where
  "validate_query_dimensions previous [] = None"
| "validate_query_dimensions previous (d # ds) = first_err [
     validateIdentifier ''dimension key'' (qd_Key d),
     fail_if (case previous of None \<Rightarrow> False | Some k \<Rightarrow> \<not> k < qd_Key d)
       (invalid ''query dimensions must be strictly sorted''),
     validateEnum ''dimension relation'' (qd_Relation d) [''eq'', ''in'', ''lt'', ''lte'', ''gt'', ''gte''],
     fail_if (qd_Values d = [] \<or> length (qd_Values d) > 64) (invalid ''dimension values outside 1..64''),
     validate_dimension_values None (qd_Values d),
     validate_query_dimensions (Some (qd_Key d)) ds]"

definition validate_query_time :: "query_time \<Rightarrow> error option" where
  "validate_query_time t = first_err [
     validateEnum ''time mode'' (qt_Mode t) [''current'', ''as_of'', ''between'', ''history''],
     validateOptionalUTCSecond ''time from'' (qt_From t),
     validateOptionalUTCSecond ''time until'' (qt_Until t),
     (if qt_Mode t = ''current'' then
        fail_if (ot_Present (qt_From t) \<or> ot_Present (qt_Until t)) (invalid ''current mode has no bounds'')
      else if qt_Mode t = ''as_of'' then
        fail_if (\<not> ot_Present (qt_Until t) \<or> ot_Present (qt_From t)) (invalid ''as_of requires until only'')
      else if qt_Mode t = ''between'' then
        fail_if (\<not> ot_Present (qt_From t) \<or> \<not> ot_Present (qt_Until t) \<or>
                 ot_Value (qt_From t) > ot_Value (qt_Until t)) (invalid ''invalid between bounds'')
      else if qt_Mode t = ''history'' then
        fail_if (ot_Present (qt_From t) \<and> ot_Present (qt_Until t) \<and>
                 ot_Value (qt_From t) > ot_Value (qt_Until t)) (invalid ''invalid history bounds'')
      else None)]"

definition validate_query_ontology :: "query_ontology \<Rightarrow> error option" where
  "validate_query_ontology o1 = first_err [
     fail_if (qo_MaximumDepth o1 > 16 \<or> qo_MaximumPathCostMillionths o1 > 16000000)
       (invalid ''ontology bounds exceeded''),
     validateEnumTextSet ''edge statuses'' (qo_AllowedEdgeStatuses o1) 3 1 [''candidate'', ''reviewed'', ''disputed'']]"

definition validate_query_sources :: "query_sources \<Rightarrow> error option" where
  "validate_query_sources r = first_err [
     validateSortedUniqueText ''allowed origin IDs'' (qr_AllowedOriginIDs r) 256,
     fail_if (qr_MinimumDistinctOrigins r = 0 \<or> qr_MinimumDistinctOrigins r > 32)
       (invalid ''minimum origins outside 1..32''),
     fail_if (qr_AllowedOriginIDs r \<noteq> [] \<and>
              qr_MinimumDistinctOrigins r > word_of_nat (length (qr_AllowedOriginIDs r)))
       (invalid ''minimum origins exceeds allowlist''),
     validateSortedUniqueText ''authority classes'' (qr_AllowedAuthorityClasses r) 32]"

definition validate_query_trust :: "query_trust \<Rightarrow> error option" where
  "validate_query_trust u = first_err [
     validateEnumTextSet ''trust lanes'' (qu_AllowedLanes u) 3 1
       [''observed_native'', ''provisional_semantic'', ''attested_semantic''],
     validateEnumTextSet ''mapping statuses'' (qu_AllowedMappingStatuses u) 4 1
       [''none'', ''candidate'', ''reviewed'', ''disputed'']]"

definition validate_query_freshness :: "query_freshness \<Rightarrow> query_execution \<Rightarrow> error option" where
  "validate_query_freshness f x = first_err [
     (case qf_MaximumAgeSeconds f of
        None \<Rightarrow> None
      | Some age \<Rightarrow> fail_if (age > 315576000) (invalid ''maximum age exceeds bound'')),
     validateEnum ''stale behavior'' (qf_StaleBehavior f) [''exclude'', ''return_explicit_stale'', ''request_refresh''],
     fail_if (qf_StaleBehavior f = ''request_refresh'' \<and> \<not> qx_AllowLiveRefresh x)
       (invalid ''refresh behavior requires live-refresh permission'')]"

definition validate_query_economics :: "query_economics \<Rightarrow> error option" where
  "validate_query_economics e = first_err [
     (if ot_Present (qe_MaximumPrice e) then first_err [
        fail_if (\<not> decimalPattern (ot_Value (qe_MaximumPrice e)) \<and> \<not> integerPattern (ot_Value (qe_MaximumPrice e)))
          (invalid ''maximum price is not canonical decimal text''),
        fail_if (\<not> ot_Present (qe_Currency e)) (invalid ''maximum price requires currency'')]
      else fail_if (ot_Value (qe_MaximumPrice e) \<noteq> [] \<or> ot_Present (qe_Currency e))
        (invalid ''currency requires maximum price'')),
     validateCurrency (qe_Currency e),
     validateSortedUniqueText ''funding classes'' (qe_AllowedFundingClasses e) 16]"

definition validate_query_execution :: "query_execution \<Rightarrow> error option" where
  "validate_query_execution x = first_err [
     fail_if (qx_MaximumLiveOrigins x > 8 \<or> qx_DeadlineMilliseconds x = 0 \<or> qx_DeadlineMilliseconds x > 30000)
       (invalid ''execution bounds exceeded''),
     fail_if (\<not> qx_AllowLiveRefresh x \<and> qx_MaximumLiveOrigins x \<noteq> 0)
       (invalid ''live-origin budget without live refresh''),
     fail_if (\<not> qx_AllowMaterializedState x \<and> \<not> qx_AllowLiveRefresh x)
       (invalid ''query has no admitted execution mode'')]"

definition validate_query_limits :: "query_limits \<Rightarrow> error option" where
  "validate_query_limits l =
     fail_if (ql_MaximumResults l = 0 \<or> ql_MaximumResults l > 1000 \<or> ql_MaximumPackets l = 0 \<or>
              ql_MaximumPackets l > 10000 \<or> ql_MaximumProofBytes l < 1024 \<or> ql_MaximumProofBytes l > 16777216)
       (invalid ''query limits outside bounds'')"

definition Query_Validate :: "query \<Rightarrow> error option" where
  "Query_Validate q = first_err [
     validate_query_subject q,
     fail_if (length (q_Dimensions q) > 32) (invalid ''too many query dimensions''),
     validate_query_dimensions None (q_Dimensions q),
     validate_query_time (q_Time q),
     validate_query_ontology (q_Ontology q),
     validate_query_sources (q_Sources q),
     validate_query_trust (q_Trust q),
     validate_query_freshness (q_Freshness q) (q_Execution q),
     validate_query_economics (q_Economics q),
     validateEnum ''conflict mode'' (q_Conflicts q) [''preserve_sources'', ''group_equivalent'', ''reject_conflict''],
     validate_query_execution (q_Execution q),
     validateEnum ''proof level'' (qp_Level (q_Proof q)) [''packet'', ''field'', ''bundle''],
     fail_if (\<not> qp_IncludeNative (q_Proof q)) (invalid ''native proof is mandatory''),
     validatePreference (q_Preference q),
     validate_query_limits (q_Limits q)]"

definition query_subject_calls :: "query_subject \<Rightarrow> enc_call list" where
  "query_subject_calls x =
     [CArray 2]
     @ encodeOptionalText (qs_Concept x)
     @ encodeTextSet (qs_IDs x)"

definition dec_query_subject :: "query_subject parser" where
  "dec_query_subject =
     dbind (expect_Array 2 (invalid ''query subject array'')) (\<lambda>_.
     dbind (decodeOptionalText (word_of_nat MaxIdentifier)) (\<lambda>concept.
     dbind (decodeTextSet 256 0) (\<lambda>ids.
     dret \<lparr>qs_Concept = concept, qs_IDs = ids\<rparr>)))"

definition query_dimension_calls :: "query_dimension \<Rightarrow> enc_call list" where
  "query_dimension_calls x =
     [CArray 3]
     @ [CText (qd_Key x)]
     @ [CText (qd_Relation x)]
     @ enc_counted encodeTypedValue (qd_Values x)"

definition dec_query_dimension :: "query_dimension parser" where
  "dec_query_dimension =
     dbind (expect_Array 3 (invalid ''query dimension array'')) (\<lambda>_.
     dbind (dec_Text (word_of_nat MaxIdentifier)) (\<lambda>key.
     dbind (dec_Text (word_of_nat MaxIdentifier)) (\<lambda>relation.
     dbind (dec_counted 1 64 (invalid ''query dimension value count'') decodeTypedValue) (\<lambda>vals.
     dret \<lparr>qd_Key = key, qd_Relation = relation, qd_Values = vals\<rparr>))))"

definition query_time_calls :: "query_time \<Rightarrow> enc_call list" where
  "query_time_calls x =
     [CArray 3]
     @ [CText (qt_Mode x)]
     @ encodeOptionalText (qt_From x)
     @ encodeOptionalText (qt_Until x)"

definition dec_query_time :: "query_time parser" where
  "dec_query_time =
     dbind (expect_Array 3 (invalid ''query time array'')) (\<lambda>_.
     dbind (dec_Text (word_of_nat MaxIdentifier)) (\<lambda>mode.
     dbind (decodeOptionalText 20) (\<lambda>lower.
     dbind (decodeOptionalText 20) (\<lambda>until.
     dret \<lparr>qt_Mode = mode, qt_From = lower, qt_Until = until\<rparr>))))"

definition query_ontology_calls :: "query_ontology \<Rightarrow> enc_call list" where
  "query_ontology_calls x =
     [CArray 3]
     @ [CUint (qo_MaximumDepth x)]
     @ [CUint (qo_MaximumPathCostMillionths x)]
     @ encodeTextSet (qo_AllowedEdgeStatuses x)"

definition dec_query_ontology :: "query_ontology parser" where
  "dec_query_ontology =
     dbind (expect_Array 3 (invalid ''query ontology array'')) (\<lambda>_.
     dbind dec_Uint (\<lambda>maximumDepth.
     dbind dec_Uint (\<lambda>maximumPathCostMillionths.
     dbind (decodeTextSet 3 1) (\<lambda>allowedEdgeStatuses.
     dret \<lparr>qo_MaximumDepth = maximumDepth,
           qo_MaximumPathCostMillionths = maximumPathCostMillionths,
           qo_AllowedEdgeStatuses = allowedEdgeStatuses\<rparr>))))"

definition query_sources_calls :: "query_sources \<Rightarrow> enc_call list" where
  "query_sources_calls x =
     [CArray 3]
     @ encodeTextSet (qr_AllowedOriginIDs x)
     @ [CUint (qr_MinimumDistinctOrigins x)]
     @ encodeTextSet (qr_AllowedAuthorityClasses x)"

definition dec_query_sources :: "query_sources parser" where
  "dec_query_sources =
     dbind (expect_Array 3 (invalid ''query sources array'')) (\<lambda>_.
     dbind (decodeTextSet 256 0) (\<lambda>allowedOriginIDs.
     dbind dec_Uint (\<lambda>minimumDistinctOrigins.
     dbind (decodeTextSet 32 0) (\<lambda>allowedAuthorityClasses.
     dret \<lparr>qr_AllowedOriginIDs = allowedOriginIDs,
           qr_MinimumDistinctOrigins = minimumDistinctOrigins,
           qr_AllowedAuthorityClasses = allowedAuthorityClasses\<rparr>))))"

definition query_trust_calls :: "query_trust \<Rightarrow> enc_call list" where
  "query_trust_calls x =
     [CArray 2]
     @ encodeTextSet (qu_AllowedLanes x)
     @ encodeTextSet (qu_AllowedMappingStatuses x)"

definition dec_query_trust :: "query_trust parser" where
  "dec_query_trust =
     dbind (expect_Array 2 (invalid ''query trust array'')) (\<lambda>_.
     dbind (decodeTextSet 3 1) (\<lambda>allowedLanes.
     dbind (decodeTextSet 4 1) (\<lambda>allowedMappingStatuses.
     dret \<lparr>qu_AllowedLanes = allowedLanes, qu_AllowedMappingStatuses = allowedMappingStatuses\<rparr>)))"

definition query_freshness_calls :: "query_freshness \<Rightarrow> enc_call list" where
  "query_freshness_calls x =
     [CArray 2]
     @ enc_nullable (\<lambda>c. [CUint c]) (qf_MaximumAgeSeconds x)
     @ [CText (qf_StaleBehavior x)]"

definition dec_query_freshness :: "query_freshness parser" where
  "dec_query_freshness =
     dbind (expect_Array 2 (invalid ''freshness array'')) (\<lambda>_.
     dbind (dec_nullable dec_Uint) (\<lambda>maximumAgeSeconds.
     dbind (dec_Text (word_of_nat MaxIdentifier)) (\<lambda>staleBehavior.
     dret \<lparr>qf_MaximumAgeSeconds = maximumAgeSeconds, qf_StaleBehavior = staleBehavior\<rparr>)))"

definition query_economics_calls :: "query_economics \<Rightarrow> enc_call list" where
  "query_economics_calls x =
     [CArray 3]
     @ encodeOptionalText (qe_MaximumPrice x)
     @ encodeOptionalText (qe_Currency x)
     @ encodeTextSet (qe_AllowedFundingClasses x)"

definition dec_query_economics :: "query_economics parser" where
  "dec_query_economics =
     dbind (expect_Array 3 (invalid ''economics array'')) (\<lambda>_.
     dbind (decodeOptionalText 128) (\<lambda>maximumPrice.
     dbind (decodeOptionalText 3) (\<lambda>currency.
     dbind (decodeTextSet 16 0) (\<lambda>allowedFundingClasses.
     dret \<lparr>qe_MaximumPrice = maximumPrice, qe_Currency = currency,
           qe_AllowedFundingClasses = allowedFundingClasses\<rparr>))))"

definition query_execution_calls :: "query_execution \<Rightarrow> enc_call list" where
  "query_execution_calls x =
     [CArray 4]
     @ [CUint (boolUint (qx_AllowMaterializedState x))]
     @ [CUint (boolUint (qx_AllowLiveRefresh x))]
     @ [CUint (qx_MaximumLiveOrigins x)]
     @ [CUint (qx_DeadlineMilliseconds x)]"

definition dec_query_execution :: "query_execution parser" where
  "dec_query_execution =
     dbind (expect_Array 4 (invalid ''execution array'')) (\<lambda>_.
     dbind dp_decodeBool (\<lambda>allowMaterializedState.
     dbind dp_decodeBool (\<lambda>allowLiveRefresh.
     dbind dec_Uint (\<lambda>maximumLiveOrigins.
     dbind dec_Uint (\<lambda>deadlineMilliseconds.
     dret \<lparr>qx_AllowMaterializedState = allowMaterializedState,
           qx_AllowLiveRefresh = allowLiveRefresh, qx_MaximumLiveOrigins = maximumLiveOrigins,
           qx_DeadlineMilliseconds = deadlineMilliseconds\<rparr>)))))"

definition query_proof_calls :: "query_proof \<Rightarrow> enc_call list" where
  "query_proof_calls x =
     [CArray 3]
     @ [CText (qp_Level x)]
     @ [CUint (boolUint (qp_IncludePlan x))]
     @ [CUint (boolUint (qp_IncludeNative x))]"

definition dec_query_proof :: "query_proof parser" where
  "dec_query_proof =
     dbind (expect_Array 3 (invalid ''proof array'')) (\<lambda>_.
     dbind (dec_Text (word_of_nat MaxIdentifier)) (\<lambda>level.
     dbind dp_decodeBool (\<lambda>includePlan.
     dbind dp_decodeBool (\<lambda>includeNative.
     dret \<lparr>qp_Level = level, qp_IncludePlan = includePlan, qp_IncludeNative = includeNative\<rparr>))))"

definition query_limits_calls :: "query_limits \<Rightarrow> enc_call list" where
  "query_limits_calls x =
     [CArray 3]
     @ [CUint (ql_MaximumResults x)]
     @ [CUint (ql_MaximumPackets x)]
     @ [CUint (ql_MaximumProofBytes x)]"

definition dec_query_limits :: "query_limits parser" where
  "dec_query_limits =
     dbind (expect_Array 3 (invalid ''limits array'')) (\<lambda>_.
     dbind dec_Uint (\<lambda>maximumResults.
     dbind dec_Uint (\<lambda>maximumPackets.
     dbind dec_Uint (\<lambda>maximumProofBytes.
     dret \<lparr>ql_MaximumResults = maximumResults, ql_MaximumPackets = maximumPackets,
           ql_MaximumProofBytes = maximumProofBytes\<rparr>))))"

definition query_calls :: "query \<Rightarrow> enc_call list" where
  "query_calls x =
     [CArray 16]
     @ [CText (q_Version x)]
     @ encodeTextSet (q_Select x)
     @ query_subject_calls (q_Subject x)
     @ enc_counted query_dimension_calls (q_Dimensions x)
     @ query_time_calls (q_Time x)
     @ query_ontology_calls (q_Ontology x)
     @ query_sources_calls (q_Sources x)
     @ query_trust_calls (q_Trust x)
     @ query_freshness_calls (q_Freshness x)
     @ query_economics_calls (q_Economics x)
     @ [CArray 1, CText (q_Conflicts x)]
     @ query_execution_calls (q_Execution x)
     @ query_proof_calls (q_Proof x)
     @ [CText (q_Preference x)]
     @ query_limits_calls (q_Limits x)
     @ [CArray 0]"

definition dec_query :: "query parser" where
  "dec_query =
     dbind (expect_Array 16 (invalid ''query array'')) (\<lambda>_.
     dbind (dec_Text (word_of_nat MaxIdentifier)) (\<lambda>version.
     dbind (decodeTextSet 32 1) (\<lambda>select.
     dbind dec_query_subject (\<lambda>subject.
     dbind (dec_counted 0 32 (invalid ''query dimension count'') dec_query_dimension) (\<lambda>dimensions.
     dbind dec_query_time (\<lambda>time.
     dbind dec_query_ontology (\<lambda>ontology.
     dbind dec_query_sources (\<lambda>sources.
     dbind dec_query_trust (\<lambda>trust.
     dbind dec_query_freshness (\<lambda>freshness.
     dbind dec_query_economics (\<lambda>economics.
     dbind (expect_Array 1 (invalid ''conflicts array'')) (\<lambda>_.
     dbind (dec_Text (word_of_nat MaxIdentifier)) (\<lambda>conflicts.
     dbind dec_query_execution (\<lambda>execution.
     dbind dec_query_proof (\<lambda>proof.
     dbind (dec_Text (word_of_nat MaxIdentifier)) (\<lambda>preference.
     dbind dec_query_limits (\<lambda>limits.
     dbind expectEmptyExtensions (\<lambda>_.
     dbind dp_finish (\<lambda>_.
     dret \<lparr>q_Version = version, q_Select = select, q_Subject = subject,
           q_Dimensions = dimensions, q_Time = time, q_Ontology = ontology, q_Sources = sources,
           q_Trust = trust, q_Freshness = freshness, q_Economics = economics,
           q_Conflicts = conflicts, q_Execution = execution, q_Proof = proof,
           q_Preference = preference, q_Limits = limits\<rparr>)))))))))))))))))))"

definition MarshalQuery :: "query \<Rightarrow> error + byte list" where
  "MarshalQuery x = after (Query_Validate x) (boundedEncoding (query_calls x))"

definition UnmarshalQuery :: "byte list \<Rightarrow> error + query" where
  "UnmarshalQuery bs =
     ebind (checkedDocument bs MaxDocumentBytes dec_query) (\<lambda>x. after (Query_Validate x) (Inr x))"

section \<open>The codecs of the parts\<close>

interpretation qy_values: codec "enc_counted encodeTypedValue"
    "dec_counted 1 64 (invalid ''query dimension value count'') decodeTypedValue"
    "\<lambda>xs. list_all typed_ok xs \<and> unat (1::uint64) \<le> length xs \<and> length xs \<le> unat (64::uint64)"
  by (rule dp_typed.counted_codec)

lemmas qy_values_complete [decode_simps] =
  qy_values.complete qy_values.complete_last

lemmas qy_values_sound [sound_intros] =
  qy_values.sound

definition query_subject_fits :: "query_subject \<Rightarrow> bool" where
  "query_subject_fits x \<longleftrightarrow>
     opt_text_ok 512 (qs_Concept x) \<and>
     text_set_ok 256 0 (qs_IDs x)"

interpretation qy_subject: codec query_subject_calls dec_query_subject query_subject_fits
proof
  show "dec_query_subject (dec_at pre (emit (query_subject_calls x) @ r)) =
      Inr (x, dec_at (pre @ emit (query_subject_calls x)) r)" if "query_subject_fits x" for x pre r
    using that by (cases x) (simp add: dec_query_subject_def query_subject_calls_def query_subject_fits_def emit_simps decode_simps)
  show "dec_sound dec_query_subject (\<lambda>x c. query_subject_fits x \<and> c = emit (query_subject_calls x))"
    unfolding dec_query_subject_def dataplane_limits of_nat_numeral
    apply (rule dec_sound_bind, rule sound_intros)+
    apply (rule dec_sound_ret)
    apply (simp add: query_subject_calls_def query_subject_fits_def emit_simps)
    done
qed

definition query_dimension_fits :: "query_dimension \<Rightarrow> bool" where
  "query_dimension_fits x \<longleftrightarrow>
     text_ok 512 (qd_Key x) \<and>
     text_ok 512 (qd_Relation x) \<and>
     list_all typed_ok (qd_Values x) \<and> Suc 0 \<le> length (qd_Values x) \<and> length (qd_Values x) \<le> 64"

interpretation qy_dimension: codec query_dimension_calls dec_query_dimension query_dimension_fits
proof
  show "dec_query_dimension (dec_at pre (emit (query_dimension_calls x) @ r)) =
      Inr (x, dec_at (pre @ emit (query_dimension_calls x)) r)" if "query_dimension_fits x" for x pre r
    using that by (cases x) (simp add: dec_query_dimension_def query_dimension_calls_def query_dimension_fits_def emit_simps decode_simps)
  show "dec_sound dec_query_dimension (\<lambda>x c. query_dimension_fits x \<and> c = emit (query_dimension_calls x))"
    unfolding dec_query_dimension_def dataplane_limits of_nat_numeral
    apply (rule dec_sound_bind, rule sound_intros)+
    apply (rule dec_sound_ret)
    apply (simp add: query_dimension_calls_def query_dimension_fits_def emit_simps)
    done
qed

definition query_time_fits :: "query_time \<Rightarrow> bool" where
  "query_time_fits x \<longleftrightarrow>
     text_ok 512 (qt_Mode x) \<and>
     opt_text_ok 20 (qt_From x) \<and>
     opt_text_ok 20 (qt_Until x)"

interpretation qy_time: codec query_time_calls dec_query_time query_time_fits
proof
  show "dec_query_time (dec_at pre (emit (query_time_calls x) @ r)) =
      Inr (x, dec_at (pre @ emit (query_time_calls x)) r)" if "query_time_fits x" for x pre r
    using that by (cases x) (simp add: dec_query_time_def query_time_calls_def query_time_fits_def emit_simps decode_simps)
  show "dec_sound dec_query_time (\<lambda>x c. query_time_fits x \<and> c = emit (query_time_calls x))"
    unfolding dec_query_time_def dataplane_limits of_nat_numeral
    apply (rule dec_sound_bind, rule sound_intros)+
    apply (rule dec_sound_ret)
    apply (simp add: query_time_calls_def query_time_fits_def emit_simps)
    done
qed

definition query_ontology_fits :: "query_ontology \<Rightarrow> bool" where
  "query_ontology_fits x \<longleftrightarrow>
     text_set_ok 3 1 (qo_AllowedEdgeStatuses x)"

interpretation qy_ontology: codec query_ontology_calls dec_query_ontology query_ontology_fits
proof
  show "dec_query_ontology (dec_at pre (emit (query_ontology_calls x) @ r)) =
      Inr (x, dec_at (pre @ emit (query_ontology_calls x)) r)" if "query_ontology_fits x" for x pre r
    using that by (cases x) (simp add: dec_query_ontology_def query_ontology_calls_def query_ontology_fits_def emit_simps decode_simps)
  show "dec_sound dec_query_ontology (\<lambda>x c. query_ontology_fits x \<and> c = emit (query_ontology_calls x))"
    unfolding dec_query_ontology_def dataplane_limits of_nat_numeral
    apply (rule dec_sound_bind, rule sound_intros)+
    apply (rule dec_sound_ret)
    apply (simp add: query_ontology_calls_def query_ontology_fits_def emit_simps)
    done
qed

definition query_sources_fits :: "query_sources \<Rightarrow> bool" where
  "query_sources_fits x \<longleftrightarrow>
     text_set_ok 256 0 (qr_AllowedOriginIDs x) \<and>
     text_set_ok 32 0 (qr_AllowedAuthorityClasses x)"

interpretation qy_sources: codec query_sources_calls dec_query_sources query_sources_fits
proof
  show "dec_query_sources (dec_at pre (emit (query_sources_calls x) @ r)) =
      Inr (x, dec_at (pre @ emit (query_sources_calls x)) r)" if "query_sources_fits x" for x pre r
    using that by (cases x) (simp add: dec_query_sources_def query_sources_calls_def query_sources_fits_def emit_simps decode_simps)
  show "dec_sound dec_query_sources (\<lambda>x c. query_sources_fits x \<and> c = emit (query_sources_calls x))"
    unfolding dec_query_sources_def dataplane_limits of_nat_numeral
    apply (rule dec_sound_bind, rule sound_intros)+
    apply (rule dec_sound_ret)
    apply (simp add: query_sources_calls_def query_sources_fits_def emit_simps)
    done
qed

definition query_trust_fits :: "query_trust \<Rightarrow> bool" where
  "query_trust_fits x \<longleftrightarrow>
     text_set_ok 3 1 (qu_AllowedLanes x) \<and>
     text_set_ok 4 1 (qu_AllowedMappingStatuses x)"

interpretation qy_trust: codec query_trust_calls dec_query_trust query_trust_fits
proof
  show "dec_query_trust (dec_at pre (emit (query_trust_calls x) @ r)) =
      Inr (x, dec_at (pre @ emit (query_trust_calls x)) r)" if "query_trust_fits x" for x pre r
    using that by (cases x) (simp add: dec_query_trust_def query_trust_calls_def query_trust_fits_def emit_simps decode_simps)
  show "dec_sound dec_query_trust (\<lambda>x c. query_trust_fits x \<and> c = emit (query_trust_calls x))"
    unfolding dec_query_trust_def dataplane_limits of_nat_numeral
    apply (rule dec_sound_bind, rule sound_intros)+
    apply (rule dec_sound_ret)
    apply (simp add: query_trust_calls_def query_trust_fits_def emit_simps)
    done
qed

definition query_freshness_fits :: "query_freshness \<Rightarrow> bool" where
  "query_freshness_fits x \<longleftrightarrow>
     text_ok 512 (qf_StaleBehavior x)"

interpretation qy_freshness: codec query_freshness_calls dec_query_freshness query_freshness_fits
proof
  show "dec_query_freshness (dec_at pre (emit (query_freshness_calls x) @ r)) =
      Inr (x, dec_at (pre @ emit (query_freshness_calls x)) r)" if "query_freshness_fits x" for x pre r
    using that by (cases x) (simp add: dec_query_freshness_def query_freshness_calls_def query_freshness_fits_def emit_simps decode_simps)
  show "dec_sound dec_query_freshness (\<lambda>x c. query_freshness_fits x \<and> c = emit (query_freshness_calls x))"
    unfolding dec_query_freshness_def dataplane_limits of_nat_numeral
    apply (rule dec_sound_bind, rule sound_intros)+
    apply (rule dec_sound_ret)
    apply (simp add: query_freshness_calls_def query_freshness_fits_def emit_simps)
    done
qed

definition query_economics_fits :: "query_economics \<Rightarrow> bool" where
  "query_economics_fits x \<longleftrightarrow>
     opt_text_ok 128 (qe_MaximumPrice x) \<and>
     opt_text_ok 3 (qe_Currency x) \<and>
     text_set_ok 16 0 (qe_AllowedFundingClasses x)"

interpretation qy_economics: codec query_economics_calls dec_query_economics query_economics_fits
proof
  show "dec_query_economics (dec_at pre (emit (query_economics_calls x) @ r)) =
      Inr (x, dec_at (pre @ emit (query_economics_calls x)) r)" if "query_economics_fits x" for x pre r
    using that by (cases x) (simp add: dec_query_economics_def query_economics_calls_def query_economics_fits_def emit_simps decode_simps)
  show "dec_sound dec_query_economics (\<lambda>x c. query_economics_fits x \<and> c = emit (query_economics_calls x))"
    unfolding dec_query_economics_def dataplane_limits of_nat_numeral
    apply (rule dec_sound_bind, rule sound_intros)+
    apply (rule dec_sound_ret)
    apply (simp add: query_economics_calls_def query_economics_fits_def emit_simps)
    done
qed

definition query_execution_fits :: "query_execution \<Rightarrow> bool" where
  "query_execution_fits x \<longleftrightarrow>
     True"

interpretation qy_execution: codec query_execution_calls dec_query_execution query_execution_fits
proof
  show "dec_query_execution (dec_at pre (emit (query_execution_calls x) @ r)) =
      Inr (x, dec_at (pre @ emit (query_execution_calls x)) r)" if "query_execution_fits x" for x pre r
    using that by (cases x) (simp add: dec_query_execution_def query_execution_calls_def query_execution_fits_def emit_simps decode_simps)
  show "dec_sound dec_query_execution (\<lambda>x c. query_execution_fits x \<and> c = emit (query_execution_calls x))"
    unfolding dec_query_execution_def dataplane_limits of_nat_numeral
    apply (rule dec_sound_bind, rule sound_intros)+
    apply (rule dec_sound_ret)
    apply (simp add: query_execution_calls_def query_execution_fits_def emit_simps)
    done
qed

definition query_proof_fits :: "query_proof \<Rightarrow> bool" where
  "query_proof_fits x \<longleftrightarrow>
     text_ok 512 (qp_Level x)"

interpretation qy_proof: codec query_proof_calls dec_query_proof query_proof_fits
proof
  show "dec_query_proof (dec_at pre (emit (query_proof_calls x) @ r)) =
      Inr (x, dec_at (pre @ emit (query_proof_calls x)) r)" if "query_proof_fits x" for x pre r
    using that by (cases x) (simp add: dec_query_proof_def query_proof_calls_def query_proof_fits_def emit_simps decode_simps)
  show "dec_sound dec_query_proof (\<lambda>x c. query_proof_fits x \<and> c = emit (query_proof_calls x))"
    unfolding dec_query_proof_def dataplane_limits of_nat_numeral
    apply (rule dec_sound_bind, rule sound_intros)+
    apply (rule dec_sound_ret)
    apply (simp add: query_proof_calls_def query_proof_fits_def emit_simps)
    done
qed

definition query_limits_fits :: "query_limits \<Rightarrow> bool" where
  "query_limits_fits x \<longleftrightarrow>
     True"

interpretation qy_limits: codec query_limits_calls dec_query_limits query_limits_fits
proof
  show "dec_query_limits (dec_at pre (emit (query_limits_calls x) @ r)) =
      Inr (x, dec_at (pre @ emit (query_limits_calls x)) r)" if "query_limits_fits x" for x pre r
    using that by (cases x) (simp add: dec_query_limits_def query_limits_calls_def query_limits_fits_def emit_simps decode_simps)
  show "dec_sound dec_query_limits (\<lambda>x c. query_limits_fits x \<and> c = emit (query_limits_calls x))"
    unfolding dec_query_limits_def dataplane_limits of_nat_numeral
    apply (rule dec_sound_bind, rule sound_intros)+
    apply (rule dec_sound_ret)
    apply (simp add: query_limits_calls_def query_limits_fits_def emit_simps)
    done
qed

interpretation qy_dimensions: codec "enc_counted query_dimension_calls"
    "dec_counted 0 32 (invalid ''query dimension count'') dec_query_dimension"
    "\<lambda>xs. list_all query_dimension_fits xs \<and> unat (0::uint64) \<le> length xs \<and> length xs \<le> unat (32::uint64)"
  by (rule qy_dimension.counted_codec)

lemmas qy_complete [decode_simps] =
  qy_subject.complete qy_subject.complete_last
  qy_time.complete qy_time.complete_last
  qy_ontology.complete qy_ontology.complete_last
  qy_sources.complete qy_sources.complete_last
  qy_trust.complete qy_trust.complete_last
  qy_freshness.complete qy_freshness.complete_last
  qy_economics.complete qy_economics.complete_last
  qy_execution.complete qy_execution.complete_last
  qy_proof.complete qy_proof.complete_last
  qy_limits.complete qy_limits.complete_last
  qy_dimensions.complete qy_dimensions.complete_last

lemmas qy_sound [sound_intros] =
  qy_subject.sound qy_time.sound qy_ontology.sound qy_sources.sound qy_trust.sound qy_freshness.sound qy_economics.sound qy_execution.sound qy_proof.sound qy_limits.sound qy_dimensions.sound

definition query_fits :: "query \<Rightarrow> bool" where
  "query_fits x \<longleftrightarrow>
     text_ok 512 (q_Version x) \<and>
     text_set_ok 32 1 (q_Select x) \<and>
     query_subject_fits (q_Subject x) \<and>
     list_all query_dimension_fits (q_Dimensions x) \<and> length (q_Dimensions x) \<le> 32 \<and>
     query_time_fits (q_Time x) \<and>
     query_ontology_fits (q_Ontology x) \<and>
     query_sources_fits (q_Sources x) \<and>
     query_trust_fits (q_Trust x) \<and>
     query_freshness_fits (q_Freshness x) \<and>
     query_economics_fits (q_Economics x) \<and>
     text_ok 512 (q_Conflicts x) \<and>
     query_execution_fits (q_Execution x) \<and>
     query_proof_fits (q_Proof x) \<and>
     text_ok 512 (q_Preference x) \<and>
     query_limits_fits (q_Limits x)"

section \<open>The query as a document\<close>

text \<open>
  The parser reads at most 128 octets of a maximum price; the validator has no such bound, so
  that it is part of the values for which the contract of documents holds.
\<close>

definition query_wf :: "query \<Rightarrow> bool" where
  "query_wf q \<longleftrightarrow> length (ot_Value (qe_MaximumPrice (q_Economics q))) \<le> 128"

lemma validateEnumTextSet_None [accept_simps]:
  "validateEnumTextSet name vs k m allowed = None \<longleftrightarrow>
     m \<le> length vs \<and> validateSortedUniqueText name vs k = None \<and> set vs \<subseteq> set allowed"
  by (auto simp: validateEnumTextSet_def first_err_None first_err_map_None fail_if_None accept_simps)

lemma enum_set_ok:
  "validateEnumTextSet name vs k m allowed = None \<Longrightarrow> k < 2 ^ 64 \<Longrightarrow> text_set_ok k m vs"
  unfolding validateEnumTextSet_None by (blast intro: text_set_okI)

lemma currency_ok: "validateCurrency v = None \<Longrightarrow> opt_text_ok 3 v"
  by (auto simp: validateCurrency_None opt_text_ok_def text_ok_def split: if_splits
      intro!: utf8_valid_string_ascii is_ascii_all [OF upper_letter_ascii])

lemma unsigned_integer_ascii: "unsigned_integer s \<Longrightarrow> is_ascii s"
  by (auto simp: unsigned_integer_def all_digits_def intro!: is_ascii_all [OF is_digit_ascii])

lemma strip_minus_ascii: "is_ascii (strip_minus s) \<Longrightarrow> is_ascii s"
  by (cases s) (auto simp: strip_minus_def is_ascii_def split: if_splits)

lemma integerPattern_ascii: "integerPattern s \<Longrightarrow> is_ascii s"
  unfolding integerPattern_def by (rule strip_minus_ascii [OF unsigned_integer_ascii])

lemma is_ascii_append: "is_ascii (a @ b) \<longleftrightarrow> is_ascii a \<and> is_ascii b"
  by (simp add: is_ascii_def)

lemma decimalPattern_ascii:
  assumes "decimalPattern s"
  shows "is_ascii s"
proof (rule strip_minus_ascii)
  let ?u = "strip_minus s"
  from assms have w: "unsigned_integer (takeWhile is_digit ?u)"
    and r: "case dropWhile is_digit ?u of c # f \<Rightarrow> c = CHR ''.'' \<and> f \<noteq> [] \<and> all_digits f | [] \<Rightarrow> False"
    by (auto simp: decimalPattern_def Let_def)
  from r have "is_ascii (dropWhile is_digit ?u)"
    by (auto simp: is_ascii_def all_digits_def list_all_iff is_digit_ascii split: list.splits)
  with unsigned_integer_ascii [OF w] show "is_ascii ?u"
    using is_ascii_append [of "takeWhile is_digit ?u" "dropWhile is_digit ?u"] by simp
qed

lemma price_ok:
  assumes "validate_query_economics e = None" and "length (ot_Value (qe_MaximumPrice e)) \<le> 128"
  shows "opt_text_ok 128 (qe_MaximumPrice e)"
proof -
  let ?p = "qe_MaximumPrice e"
  have "if ot_Present ?p then decimalPattern (ot_Value ?p) \<or> integerPattern (ot_Value ?p) else ot_Value ?p = []"
    using assms(1) by (auto simp: validate_query_economics_def first_err_None fail_if_None split: if_splits)
  then show ?thesis
    using assms(2) decimalPattern_ascii [THEN utf8_valid_string_ascii]
      integerPattern_ascii [THEN utf8_valid_string_ascii]
    by (auto simp: opt_text_ok_def text_ok_def split: if_splits)
qed

lemma validate_dimension_values_ok:
  "validate_dimension_values prior vs = None \<Longrightarrow> list_all typed_ok vs"
  by (induction vs arbitrary: prior) (auto simp: accept_simps typed_ok_def Let_def)

lemma validate_query_dimensions_fit:
  "validate_query_dimensions previous ds = None \<Longrightarrow> list_all query_dimension_fits ds"
proof (induction ds arbitrary: previous)
  case (Cons d ds)
  from Cons.prems have d: "validateIdentifier ''dimension key'' (qd_Key d) = None"
    "validateEnum ''dimension relation'' (qd_Relation d) [''eq'', ''in'', ''lt'', ''lte'', ''gt'', ''gte''] = None"
    "qd_Values d \<noteq> []" "length (qd_Values d) \<le> 64" "validate_dimension_values None (qd_Values d) = None"
    and ds: "validate_query_dimensions (Some (qd_Key d)) ds = None"
    by (simp_all add: first_err_None fail_if_None)
  have "query_dimension_fits d"
    using identifier_ok [OF d(1)] enum_ok [OF d(2)] d(3,4) validate_dimension_values_ok [OF d(5)]
    by (simp add: query_dimension_fits_def text_ok_def Suc_le_eq)
  with Cons.IH [OF ds] show ?case by simp
qed simp

lemma query_head_fitsI:
  "validate_query_subject q = None \<Longrightarrow>
     text_ok 512 (q_Version q) \<and> text_set_ok 32 1 (q_Select q) \<and> query_subject_fits (q_Subject q)"
  unfolding validate_query_subject_def first_err_None fail_if_None query_subject_fits_def
  by (elim conjE, intro conjI; (erule text_set_okI | erule opt_identifier_ok)?)
    (simp_all add: QueryVersion_def text_ok_def Suc_le_eq)

lemma query_time_fitsI: "validate_query_time t = None \<Longrightarrow> query_time_fits t"
  unfolding validate_query_time_def query_time_fits_def first_err_None
  by (elim conjE, intro conjI; (erule enum_ok, simp add: text_ok_def | erule opt_utc_ok))

lemma query_ontology_fitsI: "validate_query_ontology x = None \<Longrightarrow> query_ontology_fits x"
  unfolding validate_query_ontology_def query_ontology_fits_def first_err_None
  by (elim conjE) (rule enum_set_ok, assumption, simp)

lemma query_sources_fitsI: "validate_query_sources x = None \<Longrightarrow> query_sources_fits x"
  unfolding validate_query_sources_def query_sources_fits_def first_err_None
  by (elim conjE, intro conjI; erule text_set_okI) simp_all

lemma query_trust_fitsI: "validate_query_trust x = None \<Longrightarrow> query_trust_fits x"
  unfolding validate_query_trust_def query_trust_fits_def first_err_None
  by (elim conjE, intro conjI; erule enum_set_ok) simp_all

lemma query_freshness_fitsI: "validate_query_freshness x y = None \<Longrightarrow> query_freshness_fits x"
  unfolding validate_query_freshness_def query_freshness_fits_def first_err_None
  by (elim conjE, erule enum_ok) (simp add: text_ok_def)

lemma query_economics_fitsI:
  assumes "validate_query_economics e = None" and "length (ot_Value (qe_MaximumPrice e)) \<le> 128"
  shows "query_economics_fits e"
  using price_ok [OF assms] assms(1)
  unfolding query_economics_fits_def validate_query_economics_def first_err_None
  by (auto intro: currency_ok text_set_okI)

lemma query_fitsI: "Query_Validate q = None \<Longrightarrow> query_wf q \<Longrightarrow> query_fits q"
  unfolding Query_Validate_def first_err_None fail_if_None query_fits_def query_proof_fits_def
    query_execution_fits_def query_limits_fits_def query_wf_def validatePreference_def
  by (elim conjE, drule query_head_fitsI, intro conjI)
    (simp_all add: validate_query_dimensions_fit query_time_fitsI query_ontology_fitsI query_sources_fitsI
      query_trust_fitsI query_freshness_fitsI query_economics_fitsI not_less,
      (erule enum_ok, simp add: text_ok_def)+)

lemma query_fits_wf: "query_fits q \<Longrightarrow> query_wf q"
  by (auto simp: query_fits_def query_economics_fits_def query_wf_def opt_text_ok_def text_ok_def split: if_splits)

interpretation query_doc: document MarshalQuery UnmarshalQuery query_wf
proof (rule dp_document_fitsI)
  show "MarshalQuery x = after (Query_Validate x) (boundedEncoding (query_calls x))" for x
    by (rule MarshalQuery_def)
  show "UnmarshalQuery b = ebind (checkedDocument b MaxDocumentBytes dec_query)
      (\<lambda>x. after (Query_Validate x) (Inr x))" for b
    by (rule UnmarshalQuery_def)
  show "dec_sound dec_query (\<lambda>x c. query_fits x \<and> c = emit (query_calls x))"
    unfolding dec_query_def dp_finish_def dataplane_limits of_nat_numeral
    apply (rule dec_sound_bind, rule sound_intros)+
    apply (rule dec_sound_bind, rule dec_sound_finish, rule dec_sound_ret)
    apply (simp add: query_calls_def query_fits_def emit_simps)
    done
  show "ends_input dec_query"
    unfolding dec_query_def dp_finish_def dataplane_limits of_nat_numeral
    by (rule ends_input_bind, rule sound_intros)+ (rule ends_input_finish)
  show "dec_query (dec_at [] (emit (query_calls x))) = Inr (x, dec_at (emit (query_calls x)) [])"
    if "query_fits x" for x
    using that by (cases x)
      (simp add: dec_query_def query_calls_def query_fits_def dp_finish_def emit_simps decode_simps)
qed (rule query_fitsI query_fits_wf, assumption+)+

section \<open>Subscriptions\<close>

definition SubscriptionVersion :: string where "SubscriptionVersion = ''tw.semantic-subscription/0.1''"

record subscription =
  sb_Version :: string
  sb_QueryDigest :: "byte list"
  sb_DeltaClasses :: "string list"
  sb_DeltaKinds :: "string list"
  sb_Delivery :: string
  sb_ResumeAfterSequence :: uint64
  sb_MaximumEventsPerMinute :: uint64
  sb_ProofLevel :: string
  sb_ExpiresAt :: opt_text

definition Subscription_Validate :: "subscription \<Rightarrow> error option" where
  "Subscription_Validate s = first_err [
     fail_if (sb_Version s \<noteq> SubscriptionVersion) (invalid ''subscription version''),
     validateEnumTextSet ''delta classes'' (sb_DeltaClasses s) 3 1 [''origin'', ''semantic'', ''canon''],
     validateEnumTextSet ''delta kinds'' (sb_DeltaKinds s) 16 1
       [''added'', ''modified'', ''withdrawn'', ''restored'', ''source_retracted'', ''mapped'', ''remapped'',
        ''narrowed'', ''broadened'', ''disputed'', ''attested'', ''de_attested'', ''module_added'',
        ''module_superseded'', ''mapping_superseded'', ''closure_changed''],
     validateEnum ''delivery'' (sb_Delivery s) [''sse'', ''poll''],
     fail_if (sb_MaximumEventsPerMinute s = 0 \<or> sb_MaximumEventsPerMinute s > 600)
       (invalid ''subscription rate outside bounds''),
     validateEnum ''subscription proof'' (sb_ProofLevel s) [''packet'', ''bundle''],
     validateOptionalUTCSecond ''subscription expiry'' (sb_ExpiresAt s)]"

definition subscription_calls :: "subscription \<Rightarrow> enc_call list" where
  "subscription_calls x =
     [CArray 10]
     @ [CText (sb_Version x)]
     @ enc_digest (sb_QueryDigest x)
     @ encodeTextSet (sb_DeltaClasses x)
     @ encodeTextSet (sb_DeltaKinds x)
     @ [CText (sb_Delivery x)]
     @ [CUint (sb_ResumeAfterSequence x)]
     @ [CUint (sb_MaximumEventsPerMinute x)]
     @ [CText (sb_ProofLevel x)]
     @ encodeOptionalText (sb_ExpiresAt x)
     @ [CArray 0]"

definition dec_subscription :: "subscription parser" where
  "dec_subscription =
     dbind (expect_Array 10 (invalid ''subscription array'')) (\<lambda>_.
     dbind (dec_Text (word_of_nat MaxIdentifier)) (\<lambda>version.
     dbind dp_decodeDigest (\<lambda>queryDigest.
     dbind (decodeTextSet 3 1) (\<lambda>deltaClasses.
     dbind (decodeTextSet 16 1) (\<lambda>deltaKinds.
     dbind (dec_Text (word_of_nat MaxIdentifier)) (\<lambda>delivery.
     dbind dec_Uint (\<lambda>resumeAfterSequence.
     dbind dec_Uint (\<lambda>maximumEventsPerMinute.
     dbind (dec_Text (word_of_nat MaxIdentifier)) (\<lambda>proofLevel.
     dbind (decodeOptionalText 20) (\<lambda>expiresAt.
     dbind expectEmptyExtensions (\<lambda>_.
     dbind dp_finish (\<lambda>_.
     dret \<lparr>sb_Version = version, sb_QueryDigest = queryDigest,
           sb_DeltaClasses = deltaClasses, sb_DeltaKinds = deltaKinds, sb_Delivery = delivery,
           sb_ResumeAfterSequence = resumeAfterSequence,
           sb_MaximumEventsPerMinute = maximumEventsPerMinute, sb_ProofLevel = proofLevel,
           sb_ExpiresAt = expiresAt\<rparr>))))))))))))"

definition MarshalSubscription :: "subscription \<Rightarrow> error + byte list" where
  "MarshalSubscription x = after (Subscription_Validate x) (boundedEncoding (subscription_calls x))"

definition UnmarshalSubscription :: "byte list \<Rightarrow> error + subscription" where
  "UnmarshalSubscription bs =
     ebind (checkedDocument bs MaxDocumentBytes dec_subscription) (\<lambda>x. after (Subscription_Validate x) (Inr x))"

definition subscription_fits :: "subscription \<Rightarrow> bool" where
  "subscription_fits x \<longleftrightarrow>
     text_ok 512 (sb_Version x) \<and>
     digest32 (sb_QueryDigest x) \<and>
     text_set_ok 3 1 (sb_DeltaClasses x) \<and>
     text_set_ok 16 1 (sb_DeltaKinds x) \<and>
     text_ok 512 (sb_Delivery x) \<and>
     text_ok 512 (sb_ProofLevel x) \<and>
     opt_text_ok 20 (sb_ExpiresAt x)"

definition subscription_wf :: "subscription \<Rightarrow> bool" where
  "subscription_wf s \<longleftrightarrow> digest32 (sb_QueryDigest s)"

lemma subscription_fitsI: "Subscription_Validate s = None \<Longrightarrow> subscription_wf s \<Longrightarrow> subscription_fits s"
  unfolding Subscription_Validate_def first_err_None fail_if_None subscription_fits_def subscription_wf_def
  by (elim conjE, intro conjI; (erule enum_set_ok | erule enum_ok | erule opt_utc_ok)?)
    (simp_all add: SubscriptionVersion_def text_ok_def)

lemma subscription_fits_wf: "subscription_fits s \<Longrightarrow> subscription_wf s"
  by (simp add: subscription_fits_def subscription_wf_def)

interpretation subscription_doc: document MarshalSubscription UnmarshalSubscription subscription_wf
proof (rule dp_document_fitsI)
  show "MarshalSubscription x = after (Subscription_Validate x) (boundedEncoding (subscription_calls x))" for x
    by (rule MarshalSubscription_def)
  show "UnmarshalSubscription b = ebind (checkedDocument b MaxDocumentBytes dec_subscription)
      (\<lambda>x. after (Subscription_Validate x) (Inr x))" for b
    by (rule UnmarshalSubscription_def)
  show "dec_sound dec_subscription (\<lambda>x c. subscription_fits x \<and> c = emit (subscription_calls x))"
    unfolding dec_subscription_def dp_finish_def dataplane_limits of_nat_numeral
    apply (rule dec_sound_bind, rule sound_intros)+
    apply (rule dec_sound_bind, rule dec_sound_finish, rule dec_sound_ret)
    apply (simp add: subscription_calls_def subscription_fits_def emit_simps)
    done
  show "ends_input dec_subscription"
    unfolding dec_subscription_def dp_finish_def dataplane_limits of_nat_numeral
    by (rule ends_input_bind, rule sound_intros)+ (rule ends_input_finish)
  show "dec_subscription (dec_at [] (emit (subscription_calls x))) = Inr (x, dec_at (emit (subscription_calls x)) [])"
    if "subscription_fits x" for x
    using that by (cases x)
      (simp add: dec_subscription_def subscription_calls_def subscription_fits_def dp_finish_def emit_simps decode_simps)
qed (rule subscription_fitsI subscription_fits_wf, assumption+)+

section \<open>Properties\<close>

text \<open>
  A query survives marshalling and is identified by its octets, as long as its maximum price
  has at most 128 octets.
\<close>

theorem query_accepted:
  "UnmarshalQuery bs = Inr q \<longleftrightarrow>
     length (ot_Value (qe_MaximumPrice (q_Economics q))) \<le> 128 \<and> MarshalQuery q = Inr bs"
  using query_doc.accepted_iff by (simp add: query_wf_def)

lemma dec_economics_long_price:
  assumes "128 < length (ot_Value (qe_MaximumPrice e))" "length (ot_Value (qe_MaximumPrice e)) < 2 ^ 64"
    and "ot_Present (qe_MaximumPrice e)"
  shows "dec_query_economics (dec_at pre (emit (query_economics_calls e) @ r)) = Inl (Msg ''text length exceeds limit'')"
proof -
  have "decodeOptionalText 128 (dec_at pre (emit (encodeOptionalText (qe_MaximumPrice e)) @ r)) =
      Inl (Msg ''text length exceeds limit'')" for pre r
    using assms dec_Text_too_long [of 128 "ot_Value (qe_MaximumPrice e)"]
    by (simp add: decodeOptionalText_def encodeOptionalText_def dbind_def dec_TryNil_other [OF emit_not_nil(1)])
  then show ?thesis by (simp add: dec_query_economics_def query_economics_calls_def emit_simps decode_simps)
qed

lemma dec_query_long_price:
  assumes v: "Query_Validate q = None" and "128 < length (ot_Value (qe_MaximumPrice (q_Economics q)))"
    and "length (ot_Value (qe_MaximumPrice (q_Economics q))) < 2 ^ 64"
  shows "dec_query (dec_at [] (emit (query_calls q))) = Inl (Msg ''text length exceeds limit'')"
proof -
  let ?none = "\<lparr>ot_Present = False, ot_Value = []\<rparr>"
  define q' where "q' = q\<lparr>q_Economics := (q_Economics q)\<lparr>qe_MaximumPrice := ?none, qe_Currency := ?none\<rparr>\<rparr>"
  note parts = Query_Validate_def validate_query_subject_def first_err_None
  have e: "validate_query_economics (q_Economics q) = None" using v by (simp add: Query_Validate_def first_err_None)
  then have "validate_query_economics (q_Economics q') = None"
    by (simp add: q'_def validate_query_economics_def validateCurrency_def first_err_None fail_if_None)
  with v have "Query_Validate q' = None"
    by (simp add: q'_def parts)
  then have f: "query_fits q'"
    by (rule query_fitsI) (simp add: q'_def query_wf_def)
  have "ot_Present (qe_MaximumPrice (q_Economics q))"
    using e assms(2) by (auto simp: validate_query_economics_def first_err_None fail_if_None split: if_splits)
  note dec_economics_long_price [OF assms(2,3) this]
  with f show ?thesis
    by (simp add: dec_query_def query_calls_def query_fits_def q'_def emit_simps decode_simps)
qed

lemma query_price_length:
  assumes "ot_Present (qe_MaximumPrice (q_Economics q))"
  shows "length (ot_Value (qe_MaximumPrice (q_Economics q))) \<le> length (emit (query_calls q))"
  by (rule emit_text_member) (use assms in \<open>simp add: query_calls_def query_economics_calls_def encodeOptionalText_def\<close>)

lemma MarshalQuery_emit:
  "MarshalQuery q = Inr bs \<Longrightarrow> Query_Validate q = None \<and> bs = emit (query_calls q) \<and> length bs \<le> MaxDocumentBytes"
  by (auto simp: MarshalQuery_def boundedEncoding_def after_Inr Let_def split: if_splits)

text \<open>
  A marshalled query is read back exactly when its maximum price has at most 128 octets.
  Validation does not bound the price, so that longer ones are marshalled and then always refused.
\<close>

theorem query_long_price_unreadable:
  assumes "MarshalQuery q = Inr bs"
  shows "isOK (UnmarshalQuery bs) \<longleftrightarrow> length (ot_Value (qe_MaximumPrice (q_Economics q))) \<le> 128"
proof (cases "length (ot_Value (qe_MaximumPrice (q_Economics q))) \<le> 128")
  case True
  with query_doc.marshal_unmarshal [OF _ assms] show ?thesis by (simp add: query_wf_def)
next
  case False
  from MarshalQuery_emit [OF assms] have v: "Query_Validate q = None" and bs: "bs = emit (query_calls q)"
    and l: "length bs \<le> MaxDocumentBytes" by auto
  have "ot_Present (qe_MaximumPrice (q_Economics q))"
    using v False by (auto simp: Query_Validate_def validate_query_economics_def first_err_None fail_if_None split: if_splits)
  from query_price_length [OF this] have "length (ot_Value (qe_MaximumPrice (q_Economics q))) < 2 ^ 64"
    using l bs by (simp add: dataplane_limits)
  from dec_query_long_price [OF v _ this] False bs show ?thesis
    by (simp add: UnmarshalQuery_def checkedDocument_def run_document_def NewDecoder_at ebind_def)
qed

definition sample_query :: "string \<Rightarrow> query" where
  "sample_query price = (let none = \<lparr>ot_Present = False, ot_Value = []\<rparr> in
     \<lparr>q_Version = QueryVersion, q_Select = [''a''],
      q_Subject = \<lparr>qs_Concept = \<lparr>ot_Present = True, ot_Value = ''c''\<rparr>, qs_IDs = []\<rparr>,
      q_Dimensions = [], q_Time = \<lparr>qt_Mode = ''current'', qt_From = none, qt_Until = none\<rparr>,
      q_Ontology = \<lparr>qo_MaximumDepth = 1, qo_MaximumPathCostMillionths = 1, qo_AllowedEdgeStatuses = [''reviewed'']\<rparr>,
      q_Sources = \<lparr>qr_AllowedOriginIDs = [], qr_MinimumDistinctOrigins = 1, qr_AllowedAuthorityClasses = []\<rparr>,
      q_Trust = \<lparr>qu_AllowedLanes = [''observed_native''], qu_AllowedMappingStatuses = [''none'']\<rparr>,
      q_Freshness = \<lparr>qf_MaximumAgeSeconds = None, qf_StaleBehavior = ''exclude''\<rparr>,
      q_Economics = \<lparr>qe_MaximumPrice = \<lparr>ot_Present = True, ot_Value = price\<rparr>,
        qe_Currency = \<lparr>ot_Present = True, ot_Value = ''EUR''\<rparr>, qe_AllowedFundingClasses = []\<rparr>,
      q_Conflicts = ''preserve_sources'',
      q_Execution = \<lparr>qx_AllowMaterializedState = True, qx_AllowLiveRefresh = False, qx_MaximumLiveOrigins = 0,
        qx_DeadlineMilliseconds = 1000\<rparr>,
      q_Proof = \<lparr>qp_Level = ''packet'', qp_IncludePlan = False, qp_IncludeNative = True\<rparr>,
      q_Preference = ''balanced'',
      q_Limits = \<lparr>ql_MaximumResults = 1, ql_MaximumPackets = 1, ql_MaximumProofBytes = 1024\<rparr>\<rparr>)"

definition long_price :: string where
  "long_price = replicate 129 CHR ''9''"

lemma long_price_facts: "length long_price = 129" "integerPattern long_price"
  by (simp_all add: long_price_def integerPattern_def unsigned_integer_def strip_minus_def all_digits_def
      is_digit_def list_all_iff numeral_eq_Suc)

lemma sample_query_valid: "Query_Validate (sample_query long_price) = None"
  using long_price_facts
  by (simp add: Query_Validate_def sample_query_def Let_def validate_query_subject_def validate_query_time_def
      validate_query_ontology_def validate_query_sources_def validate_query_trust_def validate_query_freshness_def
      validate_query_economics_def validate_query_execution_def validate_query_limits_def validatePreference_def
      first_err_None fail_if_None accept_simps QueryVersion_def validateCurrency_None upper_letter_def
      utf8_valid_string_ascii is_ascii_def)

lemma sample_query_marshals:
  "MarshalQuery (sample_query long_price) = Inr (emit (query_calls (sample_query long_price)))"
proof -
  have "length (emit (query_calls (sample_query long_price))) \<le> MaxDocumentBytes"
    by (rule order_trans [OF emit_length])
      (simp add: sample_query_def Let_def query_calls_def query_subject_calls_def query_time_calls_def
        query_ontology_calls_def query_sources_calls_def query_trust_calls_def query_freshness_calls_def
        query_economics_calls_def query_execution_calls_def query_proof_calls_def query_limits_calls_def
        encodeOptionalText_def encodeTextSet_def enc_counted_def enc_nullable_def QueryVersion_def long_price_facts
        dataplane_limits)
  moreover have "emit (query_calls (sample_query long_price)) \<noteq> []"
    by (rule emit_nonempty) (simp_all add: query_calls_def)
  ultimately show ?thesis by (simp add: MarshalQuery_def boundedEncoding_def sample_query_valid Let_def)
qed

theorem query_long_price_unreadable_witness:
  "MarshalQuery (sample_query long_price) = Inr (emit (query_calls (sample_query long_price))) \<and>
   \<not> isOK (UnmarshalQuery (emit (query_calls (sample_query long_price))))"
  using sample_query_marshals query_long_price_unreadable [OF sample_query_marshals]
  by (simp add: sample_query_def Let_def long_price_facts)

text \<open>A subscription survives marshalling and is identified by its octets.\<close>

theorem subscription_accepted:
  "UnmarshalSubscription bs = Inr s \<longleftrightarrow> length (sb_QueryDigest s) = 32 \<and> MarshalSubscription s = Inr bs"
  using subscription_doc.accepted_iff by (simp add: subscription_wf_def digest32_def)

end
