(* ===== verification/Query_Result.thy ===== *)
theory Query_Result
  imports Query
begin

text \<open>
  \<open>internal/dataplane/query.go\<close>: the results of queries, materialization manifests and
  economic events.
\<close>

section \<open>Results\<close>

definition QueryResultVersion :: string where "QueryResultVersion = ''tw.semantic-query-result/0.1''"

record result_row =
  rr_SubjectID :: string
  rr_PredicateID :: string
  rr_Status :: string
  rr_NativeTerm :: string
  rr_NativeLocator :: string
  rr_NativeLexical :: string
  rr_SemanticTerm :: opt_text
  rr_Typed :: "typed_value option"
  rr_OriginID :: string
  rr_PacketDigest :: "byte list"
  rr_ObservationDigest :: "byte list"
  rr_Lane :: string
  rr_ObservedAt :: string

record conflict_group =
  cg_SemanticKeyDigest :: "byte list"
  cg_Kind :: string
  cg_PacketDigests :: "byte list list"
  cg_Resolution :: string

record query_result =
  qz_Version :: string
  qz_QueryDigest :: "byte list"
  qz_PlanDigest :: "byte list"
  qz_Preference :: string
  qz_SnapshotSequence :: uint64
  qz_Status :: string
  qz_Rows :: "result_row list"
  qz_Conflicts :: "conflict_group list"
  qz_ProofArtifacts :: "digest_size_entry list"
  qz_EconomicEventDigest :: "byte list"
  qz_GeneratedAt :: string

definition QueryResultRow_Validate :: "result_row \<Rightarrow> error option" where
  "QueryResultRow_Validate r = first_err [
     dp_validateText ''subject'' (rr_SubjectID r) MaxIdentifier False,
     dp_validateText ''predicate'' (rr_PredicateID r) MaxIdentifier False,
     dp_validateText ''native term'' (rr_NativeTerm r) MaxIdentifier False,
     dp_validateText ''native locator'' (rr_NativeLocator r) MaxLocator False,
     dp_validateText ''origin'' (rr_OriginID r) MaxIdentifier False,
     validateEnum ''row status'' (rr_Status r)
       [''resolved'', ''unknown'', ''not_observed'', ''not_provided'', ''not_applicable'', ''withheld'',
        ''redacted'', ''unresolved'', ''contradictory'', ''invalid'', ''confirmed_absent''],
     (if rr_Status r = ''resolved''
      then dp_validateText ''native lexical'' (rr_NativeLexical r) MaxLexical True
      else fail_if (rr_NativeLexical r \<noteq> [] \<or> rr_Typed r \<noteq> None)
        (invalid ''unresolved row must omit lexical and typed values'')),
     validateOptionalIdentifier ''semantic term'' (rr_SemanticTerm r),
     (case rr_Typed r of
        None \<Rightarrow> None
      | Some v \<Rightarrow> first_err [
          fail_if (rr_Status r \<noteq> ''resolved'') (invalid ''typed row requires resolved status''),
          TypedValue_Validate v]),
     validateEnum ''row lane'' (rr_Lane r) [''observed_native'', ''provisional_semantic'', ''attested_semantic''],
     fail_if (rr_Lane r = ''observed_native'' \<and> ot_Present (rr_SemanticTerm r))
       (invalid ''observed-native row cannot claim a semantic term''),
     fail_if (rr_Lane r \<noteq> ''observed_native'' \<and> \<not> ot_Present (rr_SemanticTerm r))
       (invalid ''semantic row requires semantic term''),
     validateUTCSecond ''row observed at'' (rr_ObservedAt r)]"

definition ConflictGroup_Validate :: "conflict_group \<Rightarrow> error option" where
  "ConflictGroup_Validate c = first_err [
     validateEnum ''conflict kind'' (cg_Kind c) [''value'', ''time'', ''identity'', ''mapping'', ''authority''],
     validateSortedUniqueDigests ''conflict packets'' (cg_PacketDigests c) 32 2,
     validateEnum ''conflict resolution'' (cg_Resolution c) [''preserved'', ''caller_policy_selected'', ''unresolved'']]"

text \<open>\<open>strings.Compare\<close> and \<open>bytes.Compare\<close>\<close>

definition compare_of :: "'a :: linorder \<Rightarrow> 'a \<Rightarrow> int" where
  "compare_of a b = (if a < b then - 1 else if a = b then 0 else 1)"

fun compare_pairs :: "(string \<times> string) list \<Rightarrow> int" where
  "compare_pairs [] = 0"
| "compare_pairs ((a, b) # rest) = (if compare_of a b \<noteq> 0 then compare_of a b else compare_pairs rest)"

definition compareRows :: "result_row \<Rightarrow> result_row \<Rightarrow> int" where
  "compareRows a b =
     (let cmp = compare_pairs [(rr_SubjectID a, rr_SubjectID b), (rr_PredicateID a, rr_PredicateID b),
        (rr_OriginID a, rr_OriginID b), (rr_ObservedAt a, rr_ObservedAt b)]
      in if cmp \<noteq> 0 then cmp else compare_of (rr_PacketDigest a) (rr_PacketDigest b))"

fun validate_rows :: "result_row option \<Rightarrow> result_row list \<Rightarrow> error option" where
  "validate_rows previous [] = None"
| "validate_rows previous (r # rs) = first_err [
     fail_if (QueryResultRow_Validate r \<noteq> None) (invalid ''row''),
     fail_if (case previous of None \<Rightarrow> False | Some p \<Rightarrow> compareRows p r \<ge> 0) (invalid ''rows must be strictly sorted''),
     validate_rows (Some r) rs]"

fun validate_conflicts :: "byte list option \<Rightarrow> conflict_group list \<Rightarrow> error option" where
  "validate_conflicts previous [] = None"
| "validate_conflicts previous (c # cs) = first_err [
     fail_if (ConflictGroup_Validate c \<noteq> None) (invalid ''conflict''),
     fail_if (case previous of None \<Rightarrow> False | Some d \<Rightarrow> \<not> d < cg_SemanticKeyDigest c)
       (invalid ''conflicts must be strictly sorted''),
     validate_conflicts (Some (cg_SemanticKeyDigest c)) cs]"

definition QueryResult_Validate :: "query_result \<Rightarrow> error option" where
  "QueryResult_Validate r = first_err [
     fail_if (qz_Version r \<noteq> QueryResultVersion) (invalid ''query result version''),
     validatePreference (qz_Preference r),
     validateEnum ''result status'' (qz_Status r) [''resolved'', ''partial'', ''unresolved''],
     fail_if (length (qz_Rows r) > 1000 \<or> length (qz_Conflicts r) > 256)
       (invalid ''result collections exceed bounds''),
     validate_rows None (qz_Rows r),
     validate_conflicts None (qz_Conflicts r),
     fail_if (qz_ProofArtifacts r = [] \<or> length (qz_ProofArtifacts r) > 10000)
       (invalid ''proof artifact count outside bounds''),
     validateDigestEntries ''proof artifacts'' (qz_ProofArtifacts r) 10000,
     validateUTCSecond ''generated at'' (qz_GeneratedAt r),
     fail_if (qz_Status r = ''resolved'' \<and> qz_Rows r = []) (invalid ''resolved result requires rows''),
     fail_if (qz_Status r = ''unresolved'' \<and> qz_Rows r \<noteq> []) (invalid ''unresolved result cannot carry rows'')]"

definition result_row_calls :: "result_row \<Rightarrow> enc_call list" where
  "result_row_calls x =
     [CArray 13]
     @ [CText (rr_SubjectID x)]
     @ [CText (rr_PredicateID x)]
     @ [CText (rr_Status x)]
     @ [CText (rr_NativeTerm x)]
     @ [CText (rr_NativeLocator x)]
     @ [CText (rr_NativeLexical x)]
     @ encodeOptionalText (rr_SemanticTerm x)
     @ enc_nullable encodeTypedValue (rr_Typed x)
     @ [CText (rr_OriginID x)]
     @ enc_digest (rr_PacketDigest x)
     @ enc_digest (rr_ObservationDigest x)
     @ [CText (rr_Lane x)]
     @ [CText (rr_ObservedAt x)]"

definition dec_result_row :: "result_row parser" where
  "dec_result_row =
     dbind (expect_Array 13 (invalid ''result row array'')) (\<lambda>_.
     dbind (dec_Text (word_of_nat MaxIdentifier)) (\<lambda>subjectID.
     dbind (dec_Text (word_of_nat MaxIdentifier)) (\<lambda>predicateID.
     dbind (dec_Text (word_of_nat MaxIdentifier)) (\<lambda>status.
     dbind (dec_Text (word_of_nat MaxIdentifier)) (\<lambda>nativeTerm.
     dbind (dec_Text (word_of_nat MaxLocator)) (\<lambda>nativeLocator.
     dbind (dec_Text (word_of_nat MaxLexical)) (\<lambda>nativeLexical.
     dbind (decodeOptionalText (word_of_nat MaxIdentifier)) (\<lambda>semanticTerm.
     dbind (dec_nullable decodeTypedValue) (\<lambda>typed.
     dbind (dec_Text (word_of_nat MaxIdentifier)) (\<lambda>originID.
     dbind dp_decodeDigest (\<lambda>packetDigest.
     dbind dp_decodeDigest (\<lambda>observationDigest.
     dbind (dec_Text (word_of_nat MaxIdentifier)) (\<lambda>lane.
     dbind (dec_Text 20) (\<lambda>observedAt.
     dret \<lparr>rr_SubjectID = subjectID, rr_PredicateID = predicateID, rr_Status = status,
           rr_NativeTerm = nativeTerm, rr_NativeLocator = nativeLocator,
           rr_NativeLexical = nativeLexical, rr_SemanticTerm = semanticTerm, rr_Typed = typed,
           rr_OriginID = originID, rr_PacketDigest = packetDigest,
           rr_ObservationDigest = observationDigest, rr_Lane = lane, rr_ObservedAt = observedAt\<rparr>))))))))))))))"

definition conflict_group_calls :: "conflict_group \<Rightarrow> enc_call list" where
  "conflict_group_calls x =
     [CArray 4]
     @ enc_digest (cg_SemanticKeyDigest x)
     @ [CText (cg_Kind x)]
     @ encodeDigestSet (cg_PacketDigests x)
     @ [CText (cg_Resolution x)]"

definition dec_conflict_group :: "conflict_group parser" where
  "dec_conflict_group =
     dbind (expect_Array 4 (invalid ''conflict array'')) (\<lambda>_.
     dbind dp_decodeDigest (\<lambda>semanticKeyDigest.
     dbind (dec_Text (word_of_nat MaxIdentifier)) (\<lambda>kind.
     dbind (decodeDigestSet 32 2) (\<lambda>packetDigests.
     dbind (dec_Text (word_of_nat MaxIdentifier)) (\<lambda>resolution.
     dret \<lparr>cg_SemanticKeyDigest = semanticKeyDigest, cg_Kind = kind,
           cg_PacketDigests = packetDigests, cg_Resolution = resolution\<rparr>)))))"

definition query_result_calls :: "query_result \<Rightarrow> enc_call list" where
  "query_result_calls x =
     [CArray 12]
     @ [CText (qz_Version x)]
     @ enc_digest (qz_QueryDigest x)
     @ enc_digest (qz_PlanDigest x)
     @ [CText (qz_Preference x)]
     @ [CUint (qz_SnapshotSequence x)]
     @ [CText (qz_Status x)]
     @ enc_counted result_row_calls (qz_Rows x)
     @ enc_counted conflict_group_calls (qz_Conflicts x)
     @ encodeDigestEntries (qz_ProofArtifacts x)
     @ enc_digest (qz_EconomicEventDigest x)
     @ [CText (qz_GeneratedAt x)]
     @ [CArray 0]"

definition dec_query_result :: "query_result parser" where
  "dec_query_result =
     dbind (expect_Array 12 (invalid ''query result array'')) (\<lambda>_.
     dbind (dec_Text (word_of_nat MaxIdentifier)) (\<lambda>version.
     dbind dp_decodeDigest (\<lambda>queryDigest.
     dbind dp_decodeDigest (\<lambda>planDigest.
     dbind (dec_Text (word_of_nat MaxIdentifier)) (\<lambda>preference.
     dbind dec_Uint (\<lambda>snapshotSequence.
     dbind (dec_Text (word_of_nat MaxIdentifier)) (\<lambda>status.
     dbind (dec_counted 0 1000 (invalid ''row count'') dec_result_row) (\<lambda>rows.
     dbind (dec_counted 0 256 (invalid ''conflict count'') dec_conflict_group) (\<lambda>conflicts.
     dbind (decodeDigestEntries 10000) (\<lambda>proofArtifacts.
     dbind dp_decodeDigest (\<lambda>economicEventDigest.
     dbind (dec_Text 20) (\<lambda>generatedAt.
     dbind expectEmptyExtensions (\<lambda>_.
     dbind dp_finish (\<lambda>_.
     dret \<lparr>qz_Version = version, qz_QueryDigest = queryDigest, qz_PlanDigest = planDigest,
           qz_Preference = preference, qz_SnapshotSequence = snapshotSequence, qz_Status = status,
           qz_Rows = rows, qz_Conflicts = conflicts, qz_ProofArtifacts = proofArtifacts,
           qz_EconomicEventDigest = economicEventDigest, qz_GeneratedAt = generatedAt\<rparr>))))))))))))))"

definition MarshalQueryResult :: "query_result \<Rightarrow> error + byte list" where
  "MarshalQueryResult x = after (QueryResult_Validate x) (boundedEncoding (query_result_calls x))"

definition UnmarshalQueryResult :: "byte list \<Rightarrow> error + query_result" where
  "UnmarshalQueryResult bs =
     ebind (checkedDocument bs MaxDocumentBytes dec_query_result) (\<lambda>x. after (QueryResult_Validate x) (Inr x))"

section \<open>The result as a document\<close>

definition result_row_fits :: "result_row \<Rightarrow> bool" where
  "result_row_fits x \<longleftrightarrow>
     text_ok 512 (rr_SubjectID x) \<and>
     text_ok 512 (rr_PredicateID x) \<and>
     text_ok 512 (rr_Status x) \<and>
     text_ok 512 (rr_NativeTerm x) \<and>
     text_ok 16384 (rr_NativeLocator x) \<and>
     text_ok 262144 (rr_NativeLexical x) \<and>
     opt_text_ok 512 (rr_SemanticTerm x) \<and>
     pred_option typed_ok (rr_Typed x) \<and>
     text_ok 512 (rr_OriginID x) \<and>
     digest32 (rr_PacketDigest x) \<and>
     digest32 (rr_ObservationDigest x) \<and>
     text_ok 512 (rr_Lane x) \<and>
     text_ok 20 (rr_ObservedAt x)"

interpretation qz_row: codec result_row_calls dec_result_row result_row_fits
proof
  show "dec_result_row (dec_at pre (emit (result_row_calls x) @ r)) =
      Inr (x, dec_at (pre @ emit (result_row_calls x)) r)" if "result_row_fits x" for x pre r
    using that by (cases x) (simp add: dec_result_row_def result_row_calls_def result_row_fits_def emit_simps decode_simps)
  show "dec_sound dec_result_row (\<lambda>x c. result_row_fits x \<and> c = emit (result_row_calls x))"
    unfolding dec_result_row_def dataplane_limits of_nat_numeral
    apply (rule dec_sound_bind, rule sound_intros)+
    apply (rule dec_sound_ret)
    apply (simp add: result_row_calls_def result_row_fits_def emit_simps)
    done
qed

definition conflict_group_fits :: "conflict_group \<Rightarrow> bool" where
  "conflict_group_fits x \<longleftrightarrow>
     digest32 (cg_SemanticKeyDigest x) \<and>
     text_ok 512 (cg_Kind x) \<and>
     digest_set_ok 32 2 (cg_PacketDigests x) \<and>
     text_ok 512 (cg_Resolution x)"

interpretation qz_conflict: codec conflict_group_calls dec_conflict_group conflict_group_fits
proof
  show "dec_conflict_group (dec_at pre (emit (conflict_group_calls x) @ r)) =
      Inr (x, dec_at (pre @ emit (conflict_group_calls x)) r)" if "conflict_group_fits x" for x pre r
    using that by (cases x) (simp add: dec_conflict_group_def conflict_group_calls_def conflict_group_fits_def emit_simps decode_simps)
  show "dec_sound dec_conflict_group (\<lambda>x c. conflict_group_fits x \<and> c = emit (conflict_group_calls x))"
    unfolding dec_conflict_group_def dataplane_limits of_nat_numeral
    apply (rule dec_sound_bind, rule sound_intros)+
    apply (rule dec_sound_ret)
    apply (simp add: conflict_group_calls_def conflict_group_fits_def emit_simps)
    done
qed

interpretation qz_rows: codec "enc_counted result_row_calls"
    "dec_counted 0 1000 (invalid ''row count'') dec_result_row"
    "\<lambda>xs. list_all result_row_fits xs \<and> unat (0::uint64) \<le> length xs \<and> length xs \<le> unat (1000::uint64)"
  by (rule qz_row.counted_codec)

interpretation qz_conflicts: codec "enc_counted conflict_group_calls"
    "dec_counted 0 256 (invalid ''conflict count'') dec_conflict_group"
    "\<lambda>xs. list_all conflict_group_fits xs \<and> unat (0::uint64) \<le> length xs \<and> length xs \<le> unat (256::uint64)"
  by (rule qz_conflict.counted_codec)

lemmas qz_complete [decode_simps] =
  qz_rows.complete qz_rows.complete_last
  qz_conflicts.complete qz_conflicts.complete_last

lemmas qz_sound [sound_intros] =
  qz_rows.sound qz_conflicts.sound

definition query_result_fits :: "query_result \<Rightarrow> bool" where
  "query_result_fits x \<longleftrightarrow>
     text_ok 512 (qz_Version x) \<and>
     digest32 (qz_QueryDigest x) \<and>
     digest32 (qz_PlanDigest x) \<and>
     text_ok 512 (qz_Preference x) \<and>
     text_ok 512 (qz_Status x) \<and>
     list_all result_row_fits (qz_Rows x) \<and> length (qz_Rows x) \<le> 1000 \<and>
     list_all conflict_group_fits (qz_Conflicts x) \<and> length (qz_Conflicts x) \<le> 256 \<and>
     size_entries_fit 10000 (qz_ProofArtifacts x) \<and>
     digest32 (qz_EconomicEventDigest x) \<and>
     text_ok 20 (qz_GeneratedAt x)"

definition query_result_wf :: "query_result \<Rightarrow> bool" where
  "query_result_wf r \<longleftrightarrow> digest32 (qz_QueryDigest r) \<and> digest32 (qz_PlanDigest r) \<and>
     list_all (\<lambda>x. digest32 (rr_PacketDigest x) \<and> digest32 (rr_ObservationDigest x)) (qz_Rows r) \<and>
     list_all (\<lambda>c. digest32 (cg_SemanticKeyDigest c) \<and> list_all digest32 (cg_PacketDigests c)) (qz_Conflicts r) \<and>
     list_all (\<lambda>e. digest32 (de_Digest e)) (qz_ProofArtifacts r) \<and> digest32 (qz_EconomicEventDigest r)"

lemma result_row_fitsI:
  assumes "QueryResultRow_Validate r = None" and "digest32 (rr_PacketDigest r)" "digest32 (rr_ObservationDigest r)"
  shows "result_row_fits r"
proof -
  note v = assms(1) [unfolded QueryResultRow_Validate_def first_err_None]
  have "text_ok 512 (rr_Status r)" "text_ok 512 (rr_Lane r)"
    using v by (elim conjE, elim enum_ok, simp add: text_ok_def)+
  moreover have "text_ok 512 (rr_SubjectID r)" "text_ok 512 (rr_PredicateID r)" "text_ok 512 (rr_NativeTerm r)"
    "text_ok 16384 (rr_NativeLocator r)" "text_ok 512 (rr_OriginID r)"
    using v by (auto elim!: text_okI)
  moreover have "text_ok 262144 (rr_NativeLexical r)"
    using v by (auto simp: dp_validateText_None fail_if_None text_ok_def split: if_splits)
  moreover have "opt_text_ok 512 (rr_SemanticTerm r)" "text_ok 20 (rr_ObservedAt r)"
    using v opt_identifier_ok utc_second_ok by blast+
  moreover have "pred_option typed_ok (rr_Typed r)"
    using v by (cases "rr_Typed r") (simp_all add: first_err_None typed_ok_def)
  ultimately show ?thesis using assms(2,3) by (simp add: result_row_fits_def)
qed

lemma validate_rows_fit:
  "validate_rows previous rs = None \<Longrightarrow>
     list_all (\<lambda>x. digest32 (rr_PacketDigest x) \<and> digest32 (rr_ObservationDigest x)) rs \<Longrightarrow>
     list_all result_row_fits rs"
  by (induction rs arbitrary: previous) (auto simp: first_err_None fail_if_None intro: result_row_fitsI)

lemma conflict_group_fitsI:
  "ConflictGroup_Validate c = None \<Longrightarrow> digest32 (cg_SemanticKeyDigest c) \<Longrightarrow>
     list_all digest32 (cg_PacketDigests c) \<Longrightarrow> conflict_group_fits c"
  unfolding ConflictGroup_Validate_def conflict_group_fits_def first_err_None
  by (elim conjE, intro conjI; (erule enum_ok, simp add: text_ok_def | erule digest_set_okI)?) simp_all

lemma validate_conflicts_fit:
  "validate_conflicts previous cs = None \<Longrightarrow>
     list_all (\<lambda>c. digest32 (cg_SemanticKeyDigest c) \<and> list_all digest32 (cg_PacketDigests c)) cs \<Longrightarrow>
     list_all conflict_group_fits cs"
  by (induction cs arbitrary: previous) (auto simp: first_err_None fail_if_None intro: conflict_group_fitsI)

lemma entries_fitI2:
  "validateDigestEntries n es k = None \<Longrightarrow> list_all (\<lambda>e. digest32 (de_Digest e)) es \<Longrightarrow> k \<le> unat l \<Longrightarrow>
     size_entries_fit l es"
  by (simp add: size_entries_fit_def accept_simps size_entry_fits_def [abs_def])

lemma query_result_fitsI: "QueryResult_Validate r = None \<Longrightarrow> query_result_wf r \<Longrightarrow> query_result_fits r"
  unfolding QueryResult_Validate_def first_err_None fail_if_None query_result_fits_def query_result_wf_def
    validatePreference_def
  by (elim conjE, intro conjI;
      (erule enum_ok, simp add: text_ok_def | erule utc_second_ok | erule validate_rows_fit |
       erule validate_conflicts_fit | erule entries_fitI2)?)
    (simp_all add: QueryResultVersion_def text_ok_def)

lemma query_result_fits_wf: "query_result_fits r \<Longrightarrow> query_result_wf r"
  by (auto simp: query_result_fits_def query_result_wf_def result_row_fits_def conflict_group_fits_def
      digest_set_ok_def size_entries_fit_def size_entry_fits_def list_all_iff)

interpretation query_result_doc: document MarshalQueryResult UnmarshalQueryResult query_result_wf
proof (rule dp_document_fitsI)
  show "MarshalQueryResult x = after (QueryResult_Validate x) (boundedEncoding (query_result_calls x))" for x
    by (rule MarshalQueryResult_def)
  show "UnmarshalQueryResult b = ebind (checkedDocument b MaxDocumentBytes dec_query_result)
      (\<lambda>x. after (QueryResult_Validate x) (Inr x))" for b
    by (rule UnmarshalQueryResult_def)
  show "dec_sound dec_query_result (\<lambda>x c. query_result_fits x \<and> c = emit (query_result_calls x))"
    unfolding dec_query_result_def dp_finish_def dataplane_limits of_nat_numeral
    apply (rule dec_sound_bind, rule sound_intros)+
    apply (rule dec_sound_bind, rule dec_sound_finish, rule dec_sound_ret)
    apply (simp add: query_result_calls_def query_result_fits_def emit_simps)
    done
  show "ends_input dec_query_result"
    unfolding dec_query_result_def dp_finish_def dataplane_limits of_nat_numeral
    by (rule ends_input_bind, rule sound_intros)+ (rule ends_input_finish)
  show "dec_query_result (dec_at [] (emit (query_result_calls x))) = Inr (x, dec_at (emit (query_result_calls x)) [])"
    if "query_result_fits x" for x
    using that by (cases x)
      (simp add: dec_query_result_def query_result_calls_def query_result_fits_def dp_finish_def emit_simps decode_simps)
qed (rule query_result_fitsI query_result_fits_wf, assumption+)+

section \<open>Materialization manifests\<close>

definition MaterializationVersion :: string where "MaterializationVersion = ''tw.materialization-manifest/0.1''"

record materialization =
  mt_Version :: string
  mt_MaterializationID :: string
  mt_DefinitionDigest :: "byte list"
  mt_CanonVersion :: string
  mt_ThroughSequence :: uint64
  mt_PacketDigests :: "byte list list"
  mt_ResultArtifactDigest :: "byte list"
  mt_RowCount :: uint64
  mt_BuiltAt :: string

definition MaterializationManifest_Validate :: "materialization \<Rightarrow> error option" where
  "MaterializationManifest_Validate m = first_err [
     fail_if (mt_Version m \<noteq> MaterializationVersion) (invalid ''materialization version''),
     validateIdentifier ''materialization ID'' (mt_MaterializationID m),
     validateIdentifier ''canon version'' (mt_CanonVersion m),
     validateSortedUniqueDigests ''materialization packets'' (mt_PacketDigests m) 100000 0,
     fail_if (mt_RowCount m > 10000000) (invalid ''materialization row count''),
     validateUTCSecond ''built at'' (mt_BuiltAt m)]"

definition materialization_calls :: "materialization \<Rightarrow> enc_call list" where
  "materialization_calls x =
     [CArray 10]
     @ [CText (mt_Version x)]
     @ [CText (mt_MaterializationID x)]
     @ enc_digest (mt_DefinitionDigest x)
     @ [CText (mt_CanonVersion x)]
     @ [CUint (mt_ThroughSequence x)]
     @ encodeDigestSet (mt_PacketDigests x)
     @ enc_digest (mt_ResultArtifactDigest x)
     @ [CUint (mt_RowCount x)]
     @ [CText (mt_BuiltAt x)]
     @ [CArray 0]"

definition dec_materialization :: "materialization parser" where
  "dec_materialization =
     dbind (expect_Array 10 (invalid ''materialization array'')) (\<lambda>_.
     dbind (dec_Text (word_of_nat MaxIdentifier)) (\<lambda>version.
     dbind (dec_Text (word_of_nat MaxIdentifier)) (\<lambda>materializationID.
     dbind dp_decodeDigest (\<lambda>definitionDigest.
     dbind (dec_Text (word_of_nat MaxIdentifier)) (\<lambda>canonVersion.
     dbind dec_Uint (\<lambda>throughSequence.
     dbind (decodeDigestSet 100000 0) (\<lambda>packetDigests.
     dbind dp_decodeDigest (\<lambda>resultArtifactDigest.
     dbind dec_Uint (\<lambda>rowCount.
     dbind (dec_Text 20) (\<lambda>builtAt.
     dbind expectEmptyExtensions (\<lambda>_.
     dbind dp_finish (\<lambda>_.
     dret \<lparr>mt_Version = version, mt_MaterializationID = materializationID,
           mt_DefinitionDigest = definitionDigest, mt_CanonVersion = canonVersion,
           mt_ThroughSequence = throughSequence, mt_PacketDigests = packetDigests,
           mt_ResultArtifactDigest = resultArtifactDigest, mt_RowCount = rowCount,
           mt_BuiltAt = builtAt\<rparr>))))))))))))"

definition MarshalMaterializationManifest :: "materialization \<Rightarrow> error + byte list" where
  "MarshalMaterializationManifest x = after (MaterializationManifest_Validate x) (boundedEncoding (materialization_calls x))"

definition UnmarshalMaterializationManifest :: "byte list \<Rightarrow> error + materialization" where
  "UnmarshalMaterializationManifest bs =
     ebind (checkedDocument bs MaxDocumentBytes dec_materialization) (\<lambda>x. after (MaterializationManifest_Validate x) (Inr x))"

definition materialization_fits :: "materialization \<Rightarrow> bool" where
  "materialization_fits x \<longleftrightarrow>
     text_ok 512 (mt_Version x) \<and>
     text_ok 512 (mt_MaterializationID x) \<and>
     digest32 (mt_DefinitionDigest x) \<and>
     text_ok 512 (mt_CanonVersion x) \<and>
     digest_set_ok 100000 0 (mt_PacketDigests x) \<and>
     digest32 (mt_ResultArtifactDigest x) \<and>
     text_ok 20 (mt_BuiltAt x)"

definition materialization_wf :: "materialization \<Rightarrow> bool" where
  "materialization_wf m \<longleftrightarrow> digest32 (mt_DefinitionDigest m) \<and> list_all digest32 (mt_PacketDigests m) \<and>
     digest32 (mt_ResultArtifactDigest m)"

lemma materialization_fitsI:
  "MaterializationManifest_Validate m = None \<Longrightarrow> materialization_wf m \<Longrightarrow> materialization_fits m"
  unfolding MaterializationManifest_Validate_def first_err_None fail_if_None materialization_fits_def materialization_wf_def
  by (elim conjE, intro conjI; (erule identifier_ok | erule utc_second_ok | erule digest_set_okI)?)
    (simp_all add: MaterializationVersion_def text_ok_def)

lemma materialization_fits_wf: "materialization_fits m \<Longrightarrow> materialization_wf m"
  by (simp add: materialization_fits_def materialization_wf_def digest_set_ok_def)

interpretation materialization_doc: document MarshalMaterializationManifest UnmarshalMaterializationManifest materialization_wf
proof (rule dp_document_fitsI)
  show "MarshalMaterializationManifest x = after (MaterializationManifest_Validate x) (boundedEncoding (materialization_calls x))" for x
    by (rule MarshalMaterializationManifest_def)
  show "UnmarshalMaterializationManifest b = ebind (checkedDocument b MaxDocumentBytes dec_materialization)
      (\<lambda>x. after (MaterializationManifest_Validate x) (Inr x))" for b
    by (rule UnmarshalMaterializationManifest_def)
  show "dec_sound dec_materialization (\<lambda>x c. materialization_fits x \<and> c = emit (materialization_calls x))"
    unfolding dec_materialization_def dp_finish_def dataplane_limits of_nat_numeral
    apply (rule dec_sound_bind, rule sound_intros)+
    apply (rule dec_sound_bind, rule dec_sound_finish, rule dec_sound_ret)
    apply (simp add: materialization_calls_def materialization_fits_def emit_simps)
    done
  show "ends_input dec_materialization"
    unfolding dec_materialization_def dp_finish_def dataplane_limits of_nat_numeral
    by (rule ends_input_bind, rule sound_intros)+ (rule ends_input_finish)
  show "dec_materialization (dec_at [] (emit (materialization_calls x))) = Inr (x, dec_at (emit (materialization_calls x)) [])"
    if "materialization_fits x" for x
    using that by (cases x)
      (simp add: dec_materialization_def materialization_calls_def materialization_fits_def dp_finish_def emit_simps decode_simps)
qed (rule materialization_fitsI materialization_fits_wf, assumption+)+

section \<open>Economic events\<close>

definition EconomicEventVersion :: string where "EconomicEventVersion = ''tw.economic-event/0.1''"

record economic_resources =
  er_Requests :: uint64
  er_TransferredBytes :: uint64
  er_CPUMilliseconds :: uint64
  er_PeakMemoryBytes :: uint64
  er_EvidenceBytesWritten :: uint64
  er_ProofBytesReturned :: uint64
  er_HumanReviewSeconds :: uint64

record economic_money =
  em_Currency :: string
  em_Amount :: string
  em_Class :: string

record economic_event =
  ee_Version :: string
  ee_EventID :: string
  ee_OccurredAt :: string
  ee_OriginID :: opt_text
  ee_WorkType :: string
  ee_QueryDigest :: opt_digest
  ee_BatchID :: opt_digest
  ee_Resources :: economic_resources
  ee_FundingClass :: string
  ee_SponsorID :: opt_text
  ee_Cost :: economic_money
  ee_Revenue :: economic_money
  ee_MeasurementMethod :: string

definition EconomicMoney_Validate :: "economic_money \<Rightarrow> error option" where
  "EconomicMoney_Validate m = first_err [
     validateCurrency \<lparr>ot_Present = True, ot_Value = em_Currency m\<rparr>,
     fail_if (\<not> decimalPattern (em_Amount m) \<and> \<not> integerPattern (em_Amount m))
       (invalid ''money amount is not canonical''),
     validateIdentifier ''money class'' (em_Class m)]"

definition EconomicEvent_Validate :: "economic_event \<Rightarrow> error option" where
  "EconomicEvent_Validate e = (let r = ee_Resources e in first_err [
     fail_if (ee_Version e \<noteq> EconomicEventVersion) (invalid ''economic event version''),
     validateIdentifier ''event ID'' (ee_EventID e),
     validateUTCSecond ''occurred at'' (ee_OccurredAt e),
     validateOptionalIdentifier ''origin ID'' (ee_OriginID e),
     validateIdentifier ''work type'' (ee_WorkType e),
     validateOptionalDigest ''query digest'' (ee_QueryDigest e),
     validateOptionalDigest ''batch ID'' (ee_BatchID e),
     fail_if (er_Requests r > 1000000 \<or> er_TransferredBytes r > 1099511627776 \<or>
              er_CPUMilliseconds r > 4294967295 \<or> er_PeakMemoryBytes r > 1099511627776 \<or>
              er_EvidenceBytesWritten r > 1099511627776 \<or> er_ProofBytesReturned r > 1099511627776 \<or>
              er_HumanReviewSeconds r > 4294967295) (invalid ''economic resource bound''),
     validateIdentifier ''funding class'' (ee_FundingClass e),
     validateOptionalIdentifier ''sponsor ID'' (ee_SponsorID e),
     EconomicMoney_Validate (ee_Cost e),
     EconomicMoney_Validate (ee_Revenue e),
     validateIdentifier ''measurement method'' (ee_MeasurementMethod e)])"

definition economic_resources_calls :: "economic_resources \<Rightarrow> enc_call list" where
  "economic_resources_calls x =
     [CArray 7]
     @ [CUint (er_Requests x)]
     @ [CUint (er_TransferredBytes x)]
     @ [CUint (er_CPUMilliseconds x)]
     @ [CUint (er_PeakMemoryBytes x)]
     @ [CUint (er_EvidenceBytesWritten x)]
     @ [CUint (er_ProofBytesReturned x)]
     @ [CUint (er_HumanReviewSeconds x)]"

definition dec_economic_resources :: "economic_resources parser" where
  "dec_economic_resources =
     dbind (expect_Array 7 (invalid ''economic resources array'')) (\<lambda>_.
     dbind dec_Uint (\<lambda>requests.
     dbind dec_Uint (\<lambda>transferredBytes.
     dbind dec_Uint (\<lambda>cPUMilliseconds.
     dbind dec_Uint (\<lambda>peakMemoryBytes.
     dbind dec_Uint (\<lambda>evidenceBytesWritten.
     dbind dec_Uint (\<lambda>proofBytesReturned.
     dbind dec_Uint (\<lambda>humanReviewSeconds.
     dret \<lparr>er_Requests = requests, er_TransferredBytes = transferredBytes,
           er_CPUMilliseconds = cPUMilliseconds, er_PeakMemoryBytes = peakMemoryBytes,
           er_EvidenceBytesWritten = evidenceBytesWritten,
           er_ProofBytesReturned = proofBytesReturned, er_HumanReviewSeconds = humanReviewSeconds\<rparr>))))))))"

definition economic_money_calls :: "economic_money \<Rightarrow> enc_call list" where
  "economic_money_calls x =
     [CArray 3]
     @ [CText (em_Currency x)]
     @ [CText (em_Amount x)]
     @ [CText (em_Class x)]"

definition dec_economic_money :: "economic_money parser" where
  "dec_economic_money =
     dbind (expect_Array 3 (invalid ''money array'')) (\<lambda>_.
     dbind (dec_Text 3) (\<lambda>currency.
     dbind (dec_Text 128) (\<lambda>amount.
     dbind (dec_Text (word_of_nat MaxIdentifier)) (\<lambda>cls.
     dret \<lparr>em_Currency = currency, em_Amount = amount, em_Class = cls\<rparr>))))"

definition economic_event_calls :: "economic_event \<Rightarrow> enc_call list" where
  "economic_event_calls x =
     [CArray 13]
     @ [CText (ee_Version x)]
     @ [CText (ee_EventID x)]
     @ [CText (ee_OccurredAt x)]
     @ encodeOptionalText (ee_OriginID x)
     @ [CText (ee_WorkType x)]
     @ encodeOptionalDigest (ee_QueryDigest x)
     @ encodeOptionalDigest (ee_BatchID x)
     @ economic_resources_calls (ee_Resources x)
     @ [CText (ee_FundingClass x)]
     @ encodeOptionalText (ee_SponsorID x)
     @ economic_money_calls (ee_Cost x)
     @ economic_money_calls (ee_Revenue x)
     @ [CText (ee_MeasurementMethod x)]
     @ [CArray 0]"

definition dec_economic_event :: "economic_event parser" where
  "dec_economic_event =
     dbind (expect_Array 13 (invalid ''economic event array'')) (\<lambda>_.
     dbind (dec_Text (word_of_nat MaxIdentifier)) (\<lambda>version.
     dbind (dec_Text (word_of_nat MaxIdentifier)) (\<lambda>eventID.
     dbind (dec_Text 20) (\<lambda>occurredAt.
     dbind (decodeOptionalText (word_of_nat MaxIdentifier)) (\<lambda>originID.
     dbind (dec_Text (word_of_nat MaxIdentifier)) (\<lambda>workType.
     dbind decodeOptionalDigest (\<lambda>queryDigest.
     dbind decodeOptionalDigest (\<lambda>batchID.
     dbind dec_economic_resources (\<lambda>resources.
     dbind (dec_Text (word_of_nat MaxIdentifier)) (\<lambda>fundingClass.
     dbind (decodeOptionalText (word_of_nat MaxIdentifier)) (\<lambda>sponsorID.
     dbind dec_economic_money (\<lambda>cost.
     dbind dec_economic_money (\<lambda>revenue.
     dbind (dec_Text (word_of_nat MaxIdentifier)) (\<lambda>measurementMethod.
     dbind expectEmptyExtensions (\<lambda>_.
     dbind dp_finish (\<lambda>_.
     dret \<lparr>ee_Version = version, ee_EventID = eventID, ee_OccurredAt = occurredAt,
           ee_OriginID = originID, ee_WorkType = workType, ee_QueryDigest = queryDigest,
           ee_BatchID = batchID, ee_Resources = resources, ee_FundingClass = fundingClass,
           ee_SponsorID = sponsorID, ee_Cost = cost, ee_Revenue = revenue,
           ee_MeasurementMethod = measurementMethod\<rparr>))))))))))))))))"

definition MarshalEconomicEvent :: "economic_event \<Rightarrow> error + byte list" where
  "MarshalEconomicEvent x = after (EconomicEvent_Validate x) (boundedEncoding (economic_event_calls x))"

definition UnmarshalEconomicEvent :: "byte list \<Rightarrow> error + economic_event" where
  "UnmarshalEconomicEvent bs =
     ebind (checkedDocument bs MaxDocumentBytes dec_economic_event) (\<lambda>x. after (EconomicEvent_Validate x) (Inr x))"

definition economic_resources_fits :: "economic_resources \<Rightarrow> bool" where
  "economic_resources_fits x \<longleftrightarrow>
     True"

interpretation ec_resources: codec economic_resources_calls dec_economic_resources economic_resources_fits
proof
  show "dec_economic_resources (dec_at pre (emit (economic_resources_calls x) @ r)) =
      Inr (x, dec_at (pre @ emit (economic_resources_calls x)) r)" if "economic_resources_fits x" for x pre r
    using that by (cases x) (simp add: dec_economic_resources_def economic_resources_calls_def economic_resources_fits_def emit_simps decode_simps)
  show "dec_sound dec_economic_resources (\<lambda>x c. economic_resources_fits x \<and> c = emit (economic_resources_calls x))"
    unfolding dec_economic_resources_def dataplane_limits of_nat_numeral
    apply (rule dec_sound_bind, rule sound_intros)+
    apply (rule dec_sound_ret)
    apply (simp add: economic_resources_calls_def economic_resources_fits_def emit_simps)
    done
qed

definition economic_money_fits :: "economic_money \<Rightarrow> bool" where
  "economic_money_fits x \<longleftrightarrow>
     text_ok 3 (em_Currency x) \<and>
     text_ok 128 (em_Amount x) \<and>
     text_ok 512 (em_Class x)"

interpretation ec_money: codec economic_money_calls dec_economic_money economic_money_fits
proof
  show "dec_economic_money (dec_at pre (emit (economic_money_calls x) @ r)) =
      Inr (x, dec_at (pre @ emit (economic_money_calls x)) r)" if "economic_money_fits x" for x pre r
    using that by (cases x) (simp add: dec_economic_money_def economic_money_calls_def economic_money_fits_def emit_simps decode_simps)
  show "dec_sound dec_economic_money (\<lambda>x c. economic_money_fits x \<and> c = emit (economic_money_calls x))"
    unfolding dec_economic_money_def dataplane_limits of_nat_numeral
    apply (rule dec_sound_bind, rule sound_intros)+
    apply (rule dec_sound_ret)
    apply (simp add: economic_money_calls_def economic_money_fits_def emit_simps)
    done
qed

lemmas ec_complete [decode_simps] =
  ec_resources.complete ec_resources.complete_last
  ec_money.complete ec_money.complete_last

lemmas ec_sound [sound_intros] =
  ec_resources.sound ec_money.sound

definition economic_event_fits :: "economic_event \<Rightarrow> bool" where
  "economic_event_fits x \<longleftrightarrow>
     text_ok 512 (ee_Version x) \<and>
     text_ok 512 (ee_EventID x) \<and>
     text_ok 20 (ee_OccurredAt x) \<and>
     opt_text_ok 512 (ee_OriginID x) \<and>
     text_ok 512 (ee_WorkType x) \<and>
     opt_digest_ok (ee_QueryDigest x) \<and>
     opt_digest_ok (ee_BatchID x) \<and>
     economic_resources_fits (ee_Resources x) \<and>
     text_ok 512 (ee_FundingClass x) \<and>
     opt_text_ok 512 (ee_SponsorID x) \<and>
     economic_money_fits (ee_Cost x) \<and>
     economic_money_fits (ee_Revenue x) \<and>
     text_ok 512 (ee_MeasurementMethod x)"

text \<open>As for the maximum price of a query, only the parser bounds an amount.\<close>

definition economic_event_wf :: "economic_event \<Rightarrow> bool" where
  "economic_event_wf e \<longleftrightarrow> opt_digest32 (ee_QueryDigest e) \<and> opt_digest32 (ee_BatchID e) \<and>
     length (em_Amount (ee_Cost e)) \<le> 128 \<and> length (em_Amount (ee_Revenue e)) \<le> 128"

lemma economic_money_fitsI:
  assumes "EconomicMoney_Validate m = None" and "length (em_Amount m) \<le> 128"
  shows "economic_money_fits m"
proof -
  note v = assms(1) [unfolded EconomicMoney_Validate_def first_err_None fail_if_None]
  from v have "is_ascii (em_Amount m)" using decimalPattern_ascii integerPattern_ascii by blast
  with assms(2) have "text_ok 128 (em_Amount m)" by (simp add: text_ok_def utf8_valid_string_ascii)
  moreover have "text_ok 3 (em_Currency m)"
    using v currency_ok [of "\<lparr>ot_Present = True, ot_Value = em_Currency m\<rparr>"] by (simp add: opt_text_ok_def)
  ultimately show ?thesis using v identifier_ok by (simp add: economic_money_fits_def) blast
qed

lemma economic_event_fitsI: "EconomicEvent_Validate e = None \<Longrightarrow> economic_event_wf e \<Longrightarrow> economic_event_fits e"
  unfolding EconomicEvent_Validate_def Let_def first_err_None fail_if_None economic_event_fits_def
    economic_event_wf_def economic_resources_fits_def
  by (elim conjE, intro conjI; (erule identifier_ok | erule utc_second_ok | erule opt_identifier_ok |
        erule opt_digest_okI | erule economic_money_fitsI)?)
    (simp_all add: EconomicEventVersion_def text_ok_def)

lemma economic_event_fits_wf: "economic_event_fits e \<Longrightarrow> economic_event_wf e"
  by (simp add: economic_event_fits_def economic_event_wf_def economic_money_fits_def text_ok_def opt_digest_ok32)

interpretation economic_event_doc: document MarshalEconomicEvent UnmarshalEconomicEvent economic_event_wf
proof (rule dp_document_fitsI)
  show "MarshalEconomicEvent x = after (EconomicEvent_Validate x) (boundedEncoding (economic_event_calls x))" for x
    by (rule MarshalEconomicEvent_def)
  show "UnmarshalEconomicEvent b = ebind (checkedDocument b MaxDocumentBytes dec_economic_event)
      (\<lambda>x. after (EconomicEvent_Validate x) (Inr x))" for b
    by (rule UnmarshalEconomicEvent_def)
  show "dec_sound dec_economic_event (\<lambda>x c. economic_event_fits x \<and> c = emit (economic_event_calls x))"
    unfolding dec_economic_event_def dp_finish_def dataplane_limits of_nat_numeral
    apply (rule dec_sound_bind, rule sound_intros)+
    apply (rule dec_sound_bind, rule dec_sound_finish, rule dec_sound_ret)
    apply (simp add: economic_event_calls_def economic_event_fits_def emit_simps)
    done
  show "ends_input dec_economic_event"
    unfolding dec_economic_event_def dp_finish_def dataplane_limits of_nat_numeral
    by (rule ends_input_bind, rule sound_intros)+ (rule ends_input_finish)
  show "dec_economic_event (dec_at [] (emit (economic_event_calls x))) = Inr (x, dec_at (emit (economic_event_calls x)) [])"
    if "economic_event_fits x" for x
    using that by (cases x)
      (simp add: dec_economic_event_def economic_event_calls_def economic_event_fits_def dp_finish_def emit_simps decode_simps)
qed (rule economic_event_fitsI economic_event_fits_wf, assumption+)+

section \<open>The order of result rows\<close>

text \<open>\<open>compareRows\<close> is the lexicographic order of the keys of the rows.\<close>

definition row_key :: "result_row \<Rightarrow> string list \<times> byte list" where
  "row_key r = ([rr_SubjectID r, rr_PredicateID r, rr_OriginID r, rr_ObservedAt r], rr_PacketDigest r)"

lemma compare_of_sign:
  "compare_of a b < 0 \<longleftrightarrow> a < b" "compare_of a b = 0 \<longleftrightarrow> a = b" "compare_of a b > 0 \<longleftrightarrow> b < a"
  by (auto simp: compare_of_def)

lemma compareRows_sign:
  "compareRows a b < 0 \<longleftrightarrow> fst (row_key a) < fst (row_key b) \<or>
     fst (row_key a) = fst (row_key b) \<and> snd (row_key a) < snd (row_key b)"
  by (auto simp: compareRows_def row_key_def Let_def compare_of_sign)

lemma validate_rows_sorted:
  "validate_rows previous rs = None \<Longrightarrow>
     list_all (\<lambda>r. QueryResultRow_Validate r = None) rs \<and>
     sorted_wrt (\<lambda>a b. compareRows a b < 0) rs \<and>
     (\<forall>p. previous = Some p \<longrightarrow> (\<forall>r \<in> set rs. compareRows p r < 0))"
proof (induction rs arbitrary: previous)
  case (Cons r rs)
  have trans: "compareRows a b < 0 \<Longrightarrow> compareRows b c < 0 \<Longrightarrow> compareRows a c < 0" for a b c
    unfolding compareRows_sign by (auto dest: less_trans)
  from Cons.prems have r: "QueryResultRow_Validate r = None"
    "\<And>p. previous = Some p \<Longrightarrow> compareRows p r < 0"
    and rs: "validate_rows (Some r) rs = None"
    by (auto simp: first_err_None fail_if_None)
  from Cons.IH [OF rs] r show ?case by (auto intro: trans)
qed simp

section \<open>Properties\<close>

text \<open>
  The answer to a query survives marshalling and is identified by its octets.
\<close>

theorem query_result_accepted:
  "UnmarshalQueryResult bs = Inr r \<longleftrightarrow> query_result_wf r \<and> MarshalQueryResult r = Inr bs"
  by (rule query_result_doc.accepted_iff)

text \<open>
  C30: the rows of a valid answer are in the strict lexicographic order of subject, predicate,
  origin, time of observation and packet digest, so that none is repeated; a resolved answer has
  rows and an unresolved one has none.
\<close>

theorem query_result_rows_ordered:
  assumes "QueryResult_Validate r = None"
  shows "sorted_wrt (\<lambda>a b. fst (row_key a) < fst (row_key b) \<or>
       fst (row_key a) = fst (row_key b) \<and> snd (row_key a) < snd (row_key b)) (qz_Rows r) \<and>
     distinct (map row_key (qz_Rows r)) \<and>
     (if qz_Rows r = [] then qz_Status r \<noteq> ''resolved'' else qz_Status r \<noteq> ''unresolved'')"
proof -
  from assms have "validate_rows None (qz_Rows r) = None"
    and s: "if qz_Rows r = [] then qz_Status r \<noteq> ''resolved'' else qz_Status r \<noteq> ''unresolved''"
    by (auto simp: QueryResult_Validate_def first_err_None fail_if_None)
  then have o: "sorted_wrt (\<lambda>a b. compareRows a b < 0) (qz_Rows r)"
    using validate_rows_sorted by blast
  have "distinct (map row_key rs)" if "sorted_wrt (\<lambda>a b. compareRows a b < 0) rs" for rs
    using that by (induction rs) (auto simp: compareRows_sign)
  with o s show ?thesis by (simp add: compareRows_sign)
qed

definition sample_row :: "string \<Rightarrow> result_row" where
  "sample_row subject = \<lparr>rr_SubjectID = subject, rr_PredicateID = ''p'', rr_Status = ''resolved'', rr_NativeTerm = ''t'',
     rr_NativeLocator = ''/t'', rr_NativeLexical = ''v'', rr_SemanticTerm = \<lparr>ot_Present = False, ot_Value = []\<rparr>,
     rr_Typed = None, rr_OriginID = ''o'', rr_PacketDigest = replicate 32 1, rr_ObservationDigest = replicate 32 2,
     rr_Lane = ''observed_native'', rr_ObservedAt = ''2024-02-29T23:59:59Z''\<rparr>"

definition sample_answer :: query_result where
  "sample_answer = \<lparr>qz_Version = QueryResultVersion, qz_QueryDigest = replicate 32 3, qz_PlanDigest = replicate 32 4,
     qz_Preference = ''balanced'', qz_SnapshotSequence = 1, qz_Status = ''resolved'',
     qz_Rows = [sample_row ''a'', sample_row ''b''], qz_Conflicts = [],
     qz_ProofArtifacts = [\<lparr>de_Digest = replicate 32 5, de_Size = 7\<rparr>], qz_EconomicEventDigest = replicate 32 6,
     qz_GeneratedAt = ''2024-02-29T23:59:59Z''\<rparr>"

lemma sample_row_valid [simp]:
  "QueryResultRow_Validate (sample_row ''a'') = None" "QueryResultRow_Validate (sample_row ''b'') = None"
  by (simp_all add: QueryResultRow_Validate_def first_err_None sample_row_def fail_if_None accept_simps utf8_valid_string_ascii is_ascii_def canonical_utc_second_example)

lemma sample_rows_sorted: "compareRows (sample_row ''a'') (sample_row ''b'') = - 1"
  by (simp add: compareRows_def sample_row_def compare_of_def Let_def)

lemma sample_answer_valid: "QueryResult_Validate sample_answer = None"
  by (simp add: QueryResult_Validate_def sample_answer_def first_err_None fail_if_None accept_simps
      QueryResultVersion_def validatePreference_def Let_def canonical_utc_second_example sample_rows_sorted)

theorem query_result_rows_ordered_witness:
  "QueryResult_Validate sample_answer = None \<and> distinct (map row_key (qz_Rows sample_answer))"
  using sample_answer_valid query_result_rows_ordered [OF sample_answer_valid] by blast

text \<open>
  The record of an economic event survives marshalling exactly when both its amounts have at
  most 128 octets, which validation does not check.
\<close>

theorem economic_event_accepted:
  "UnmarshalEconomicEvent bs = Inr e \<longleftrightarrow> economic_event_wf e \<and> MarshalEconomicEvent e = Inr bs"
  by (rule economic_event_doc.accepted_iff)

end
