(* ===== verification/Frame.thy ===== *)
theory Frame
  imports Packet_Batch
begin

text \<open>
  \<open>internal/dataplane/ontology.go\<close>: semantic frames. A frame composes slots out of packets;
  its derivation names exactly the packets its slots use.
\<close>

definition FrameVersion :: string where "FrameVersion = ''tw.semantic-frame/0.1''"

record frame_slot =
  fs_RoleID :: string
  fs_Status :: string
  fs_Cardinality :: string
  fs_Values :: "typed_value list"
  fs_PacketDigests :: "byte list list"
  fs_MappingIDs :: "string list"
  fs_Conflict :: string

record frame_time =
  ft_ComposedAt :: string
  ft_ValidFrom :: opt_text
  ft_ValidUntil :: opt_text

record frame_epistemic =
  fe_Lane :: string
  fe_CompletenessMillionths :: uint64
  fe_ConflictStatus :: string

record frame_derivation =
  fd_PacketDigests :: "byte list list"
  fd_ModuleSetDigest :: "byte list"
  fd_MappingIDs :: "string list"
  fd_CompilerContractDigest :: "byte list"
  fd_CompilerVersion :: string

record frame_lifecycle =
  fl_State :: string
  fl_SupersedesDigest :: opt_digest

record frame =
  fm_Version :: string
  fm_UniverseID :: string
  fm_FrameType :: string
  fm_NativeKey :: string
  fm_CanonicalCandidates :: "string list"
  fm_Slots :: "frame_slot list"
  fm_Context :: packet_context
  fm_Time :: frame_time
  fm_Epistemic :: frame_epistemic
  fm_Derivation :: frame_derivation
  fm_Lifecycle :: frame_lifecycle

section \<open>Validation\<close>

text \<open>\<open>encodedTypedValue\<close> and \<open>CanonicalTypedValueBytes\<close>\<close>

definition encodedTypedValue :: "typed_value \<Rightarrow> byte list" where
  "encodedTypedValue v = emit (encodeTypedValue v)"

definition CanonicalTypedValueBytes :: "typed_value \<Rightarrow> error + byte list" where
  "CanonicalTypedValueBytes v = after (TypedValue_Validate v) (Inr (encodedTypedValue v))"

fun validate_slot_values :: "byte list option \<Rightarrow> typed_value list \<Rightarrow> error option" where
  "validate_slot_values prior [] = None"
| "validate_slot_values prior (v # vs) = first_err [
     TypedValue_Validate v,
     fail_if (case prior of None \<Rightarrow> False | Some p \<Rightarrow> \<not> p < encodedTypedValue v)
       (invalid ''frame slot values must be canonically sorted and unique''),
     validate_slot_values (Some (encodedTypedValue v)) vs]"

definition FrameSlot_Validate :: "frame_slot \<Rightarrow> error option" where
  "FrameSlot_Validate s = first_err [
     validateIdentifier ''frame role ID'' (fs_RoleID s),
     validateEnum ''frame slot status'' (fs_Status s)
       [''resolved'', ''unknown'', ''not_observed'', ''not_provided'', ''not_applicable'', ''withheld'',
        ''redacted'', ''unresolved'', ''contradictory'', ''invalid'', ''confirmed_absent''],
     validateEnum ''frame slot cardinality'' (fs_Cardinality s) [''one'', ''many''],
     fail_if (length (fs_Values s) > 64) (invalid ''frame slot value count exceeds 64''),
     (if fs_Status s = ''resolved''
      then fail_if (fs_Values s = []) (invalid ''resolved frame slot requires a value'')
      else fail_if (fs_Values s \<noteq> []) (invalid ''non-resolved frame slot cannot carry values'')),
     fail_if (fs_Cardinality s = ''one'' \<and> length (fs_Values s) > 1)
       (invalid ''single-cardinality frame slot has multiple values''),
     validate_slot_values None (fs_Values s),
     validateSortedUniqueDigests ''frame slot packet digests'' (fs_PacketDigests s) 256 1,
     validateSortedUniqueText ''frame slot mapping IDs'' (fs_MappingIDs s) 32,
     validateEnum ''frame slot conflict'' (fs_Conflict s) [''none'', ''preserved'', ''unresolved''],
     fail_if (fs_Status s = ''contradictory'' \<and> fs_Conflict s = ''none'')
       (invalid ''contradictory slot must preserve or leave conflict unresolved'')]"

fun validate_frame_dimensions :: "string option \<Rightarrow> context_dimension list \<Rightarrow> error option" where
  "validate_frame_dimensions previous [] = None"
| "validate_frame_dimensions previous (d # ds) = first_err [
     validateIdentifier ''frame context dimension'' (dm_Key d),
     fail_if (case previous of None \<Rightarrow> False | Some k \<Rightarrow> \<not> k < dm_Key d)
       (invalid ''frame context dimensions must be sorted''),
     TypedValue_Validate (dm_Value d),
     validate_frame_dimensions (Some (dm_Key d)) ds]"

definition validateFrameContext :: "packet_context \<Rightarrow> error option" where
  "validateFrameContext cx = first_err [
     fail_if (length (cx_Dimensions cx) > 32) (invalid ''too many frame context dimensions''),
     validate_frame_dimensions None (cx_Dimensions cx),
     validateOptionalIdentifier ''frame jurisdiction'' (cx_Jurisdiction cx),
     validateLanguage ''frame language'' (cx_Language cx),
     validateOptionalIdentifier ''frame scope'' (cx_Scope cx)]"

definition validate_frame_time :: "frame_time \<Rightarrow> error option" where
  "validate_frame_time t = first_err [
     validateUTCSecond ''frame composed at'' (ft_ComposedAt t),
     validateOptionalUTCSecond ''frame valid from'' (ft_ValidFrom t),
     validateOptionalUTCSecond ''frame valid until'' (ft_ValidUntil t),
     fail_if (ot_Present (ft_ValidFrom t) \<and> ot_Present (ft_ValidUntil t) \<and>
              ot_Value (ft_ValidFrom t) > ot_Value (ft_ValidUntil t))
       (invalid ''frame valid-from is after valid-until'')]"

definition validate_frame_epistemic :: "frame_epistemic \<Rightarrow> error option" where
  "validate_frame_epistemic e = first_err [
     validateEnum ''frame trust lane'' (fe_Lane e)
       [''observed_native'', ''provisional_semantic'', ''attested_semantic''],
     fail_if (fe_CompletenessMillionths e > 1000000) (invalid ''frame completeness outside 0..1000000''),
     validateEnum ''frame conflict status'' (fe_ConflictStatus e) [''none'', ''preserved'', ''unresolved'']]"

definition validate_frame_derivation :: "frame_epistemic \<Rightarrow> frame_derivation \<Rightarrow> error option" where
  "validate_frame_derivation e d = first_err [
     validateSortedUniqueDigests ''frame packet digests'' (fd_PacketDigests d) 4096 1,
     validateSortedUniqueText ''frame mapping IDs'' (fd_MappingIDs d) 256,
     validateIdentifier ''frame compiler version'' (fd_CompilerVersion d),
     fail_if (fe_Lane e = ''observed_native'' \<and> fd_MappingIDs d \<noteq> [])
       (invalid ''observed-native frame cannot carry mapping IDs''),
     fail_if (fe_Lane e \<noteq> ''observed_native'' \<and> fd_MappingIDs d = [])
       (invalid ''semantic frame requires mapping IDs'')]"

text \<open>
  The loop over the slots. Its state is the set \<open>packetUse\<close>; the result is an error or the
  packets used by all slots.
\<close>

fun validate_frame_slots ::
  "byte list set \<Rightarrow> string set \<Rightarrow> string option \<Rightarrow> byte list set \<Rightarrow> frame_slot list \<Rightarrow>
     error + byte list set" where
  "validate_frame_slots allowedPackets mappingUse previous packetUse [] = Inr packetUse"
| "validate_frame_slots allowedPackets mappingUse previous packetUse (s # ss) =
     after (first_err [
       wrap_err ''frame slot'' (FrameSlot_Validate s),
       fail_if (case previous of None \<Rightarrow> False | Some r \<Rightarrow> \<not> r < fs_RoleID s)
         (invalid ''frame slots must be strictly sorted by role ID''),
       fail_if (\<not> list_all (\<lambda>d. d \<in> allowedPackets) (fs_PacketDigests s))
         (invalid ''frame slot references packet outside derivation''),
       fail_if (\<not> list_all (\<lambda>m. m \<in> mappingUse) (fs_MappingIDs s))
         (invalid ''frame slot references mapping outside derivation'')])
     (validate_frame_slots allowedPackets mappingUse (Some (fs_RoleID s))
       (packetUse \<union> set (fs_PacketDigests s)) ss)"

definition validate_frame_use :: "frame \<Rightarrow> error option" where
  "validate_frame_use f =
     (let allowedPackets = set (fd_PacketDigests (fm_Derivation f));
          mappingUse = set (fd_MappingIDs (fm_Derivation f))
      in case validate_frame_slots allowedPackets mappingUse None {} (fm_Slots f) of
           Inl e \<Rightarrow> Some e
         | Inr packetUse \<Rightarrow>
             fail_if (card packetUse \<noteq> card allowedPackets)
               (invalid ''frame derivation contains packet unused by slots''))"

definition validate_frame_lifecycle :: "frame_lifecycle \<Rightarrow> error option" where
  "validate_frame_lifecycle l = first_err [
     validateEnum ''frame lifecycle'' (fl_State l)
       [''current'', ''superseded'', ''withdrawn'', ''stale'', ''retracted'', ''invalid''],
     validateOptionalDigest ''supersedes frame digest'' (fl_SupersedesDigest l),
     fail_if (fl_State l = ''superseded'' \<and> \<not> od_Present (fl_SupersedesDigest l))
       (invalid ''superseded frame requires prior digest''),
     fail_if (fl_State l = ''current'' \<and> od_Present (fl_SupersedesDigest l))
       (invalid ''current frame cannot supersede another frame'')]"

definition Frame_Validate :: "frame \<Rightarrow> error option" where
  "Frame_Validate f = first_err [
     fail_if (fm_Version f \<noteq> FrameVersion) (invalid ''frame version''),
     validateIdentifier ''universe ID'' (fm_UniverseID f),
     validateIdentifier ''frame type'' (fm_FrameType f),
     validateIdentifier ''native key'' (fm_NativeKey f),
     validateSortedUniqueText ''canonical candidates'' (fm_CanonicalCandidates f) 32,
     fail_if (length (fm_Slots f) < 1 \<or> length (fm_Slots f) > 256) (invalid ''frame slot count outside 1..256''),
     validateFrameContext (fm_Context f),
     validate_frame_time (fm_Time f),
     validate_frame_epistemic (fm_Epistemic f),
     validate_frame_derivation (fm_Epistemic f) (fm_Derivation f),
     validate_frame_use f,
     validate_frame_lifecycle (fm_Lifecycle f)]"

section \<open>Canonical form\<close>

definition frame_dimension_calls :: "context_dimension \<Rightarrow> enc_call list" where
  "frame_dimension_calls x =
     [CArray 2]
     @ [CText (dm_Key x)]
     @ encodeTypedValue (dm_Value x)"

definition dec_frame_dimension :: "context_dimension parser" where
  "dec_frame_dimension =
     dbind (expect_Array 2 (invalid ''frame context dimension array'')) (\<lambda>_.
     dbind (dec_Text (word_of_nat MaxIdentifier)) (\<lambda>key.
     dbind decodeTypedValue (\<lambda>value.
     dret \<lparr>dm_Key = key, dm_Value = value\<rparr>)))"

definition frame_context_calls :: "packet_context \<Rightarrow> enc_call list" where
  "frame_context_calls x =
     [CArray 4]
     @ enc_counted frame_dimension_calls (cx_Dimensions x)
     @ encodeOptionalText (cx_Jurisdiction x)
     @ encodeOptionalText (cx_Language x)
     @ encodeOptionalText (cx_Scope x)"

definition dec_frame_context :: "packet_context parser" where
  "dec_frame_context =
     dbind (expect_Array 4 (invalid ''frame context array'')) (\<lambda>_.
     dbind (dec_counted 0 32 (invalid ''frame context dimension count'') dec_frame_dimension) (\<lambda>dimensions.
     dbind (decodeOptionalText (word_of_nat MaxIdentifier)) (\<lambda>jurisdiction.
     dbind (decodeOptionalText 63) (\<lambda>language.
     dbind (decodeOptionalText (word_of_nat MaxIdentifier)) (\<lambda>scope.
     dret \<lparr>cx_Dimensions = dimensions, cx_Jurisdiction = jurisdiction,
           cx_Language = language, cx_Scope = scope\<rparr>)))))"

definition frame_slot_calls :: "frame_slot \<Rightarrow> enc_call list" where
  "frame_slot_calls x =
     [CArray 7]
     @ [CText (fs_RoleID x)]
     @ [CText (fs_Status x)]
     @ [CText (fs_Cardinality x)]
     @ enc_counted encodeTypedValue (fs_Values x)
     @ encodeDigestSet (fs_PacketDigests x)
     @ encodeTextSet (fs_MappingIDs x)
     @ [CText (fs_Conflict x)]"

definition dec_frame_slot :: "frame_slot parser" where
  "dec_frame_slot =
     dbind (expect_Array 7 (invalid ''frame slot array'')) (\<lambda>_.
     dbind (dec_Text (word_of_nat MaxIdentifier)) (\<lambda>roleID.
     dbind (dec_Text (word_of_nat MaxIdentifier)) (\<lambda>status.
     dbind (dec_Text (word_of_nat MaxIdentifier)) (\<lambda>cardinality.
     dbind (dec_counted 0 64 (invalid ''frame slot value count'') decodeTypedValue) (\<lambda>vals.
     dbind (decodeDigestSet 256 1) (\<lambda>packetDigests.
     dbind (decodeTextSet 32 0) (\<lambda>mappingIDs.
     dbind (dec_Text (word_of_nat MaxIdentifier)) (\<lambda>conflict.
     dret \<lparr>fs_RoleID = roleID, fs_Status = status, fs_Cardinality = cardinality,
           fs_Values = vals, fs_PacketDigests = packetDigests, fs_MappingIDs = mappingIDs,
           fs_Conflict = conflict\<rparr>))))))))"

definition frame_time_calls :: "frame_time \<Rightarrow> enc_call list" where
  "frame_time_calls x =
     [CArray 3]
     @ [CText (ft_ComposedAt x)]
     @ encodeOptionalText (ft_ValidFrom x)
     @ encodeOptionalText (ft_ValidUntil x)"

definition dec_frame_time :: "frame_time parser" where
  "dec_frame_time =
     dbind (expect_Array 3 (invalid ''frame time array'')) (\<lambda>_.
     dbind (dec_Text 20) (\<lambda>composedAt.
     dbind (decodeOptionalText 20) (\<lambda>validFrom.
     dbind (decodeOptionalText 20) (\<lambda>validUntil.
     dret \<lparr>ft_ComposedAt = composedAt, ft_ValidFrom = validFrom, ft_ValidUntil = validUntil\<rparr>))))"

definition frame_epistemic_calls :: "frame_epistemic \<Rightarrow> enc_call list" where
  "frame_epistemic_calls x =
     [CArray 3]
     @ [CText (fe_Lane x)]
     @ [CUint (fe_CompletenessMillionths x)]
     @ [CText (fe_ConflictStatus x)]"

definition dec_frame_epistemic :: "frame_epistemic parser" where
  "dec_frame_epistemic =
     dbind (expect_Array 3 (invalid ''frame epistemic array'')) (\<lambda>_.
     dbind (dec_Text (word_of_nat MaxIdentifier)) (\<lambda>lane.
     dbind dec_Uint (\<lambda>completenessMillionths.
     dbind (dec_Text (word_of_nat MaxIdentifier)) (\<lambda>conflictStatus.
     dret \<lparr>fe_Lane = lane, fe_CompletenessMillionths = completenessMillionths,
           fe_ConflictStatus = conflictStatus\<rparr>))))"

definition frame_derivation_calls :: "frame_derivation \<Rightarrow> enc_call list" where
  "frame_derivation_calls x =
     [CArray 5]
     @ encodeDigestSet (fd_PacketDigests x)
     @ enc_digest (fd_ModuleSetDigest x)
     @ encodeTextSet (fd_MappingIDs x)
     @ enc_digest (fd_CompilerContractDigest x)
     @ [CText (fd_CompilerVersion x)]"

definition dec_frame_derivation :: "frame_derivation parser" where
  "dec_frame_derivation =
     dbind (expect_Array 5 (invalid ''frame derivation array'')) (\<lambda>_.
     dbind (decodeDigestSet 4096 1) (\<lambda>packetDigests.
     dbind dp_decodeDigest (\<lambda>moduleSetDigest.
     dbind (decodeTextSet 256 0) (\<lambda>mappingIDs.
     dbind dp_decodeDigest (\<lambda>compilerContractDigest.
     dbind (dec_Text (word_of_nat MaxIdentifier)) (\<lambda>compilerVersion.
     dret \<lparr>fd_PacketDigests = packetDigests, fd_ModuleSetDigest = moduleSetDigest,
           fd_MappingIDs = mappingIDs, fd_CompilerContractDigest = compilerContractDigest,
           fd_CompilerVersion = compilerVersion\<rparr>))))))"

definition frame_lifecycle_calls :: "frame_lifecycle \<Rightarrow> enc_call list" where
  "frame_lifecycle_calls x =
     [CArray 2]
     @ [CText (fl_State x)]
     @ encodeOptionalDigest (fl_SupersedesDigest x)"

definition dec_frame_lifecycle :: "frame_lifecycle parser" where
  "dec_frame_lifecycle =
     dbind (expect_Array 2 (invalid ''frame lifecycle array'')) (\<lambda>_.
     dbind (dec_Text (word_of_nat MaxIdentifier)) (\<lambda>state.
     dbind decodeOptionalDigest (\<lambda>supersedesDigest.
     dret \<lparr>fl_State = state, fl_SupersedesDigest = supersedesDigest\<rparr>)))"

definition frame_calls :: "frame \<Rightarrow> enc_call list" where
  "frame_calls x =
     [CArray 12]
     @ [CText (fm_Version x)]
     @ [CText (fm_UniverseID x)]
     @ [CText (fm_FrameType x)]
     @ [CText (fm_NativeKey x)]
     @ encodeTextSet (fm_CanonicalCandidates x)
     @ frame_derivation_calls (fm_Derivation x)
     @ enc_counted frame_slot_calls (fm_Slots x)
     @ frame_context_calls (fm_Context x)
     @ frame_time_calls (fm_Time x)
     @ frame_epistemic_calls (fm_Epistemic x)
     @ frame_lifecycle_calls (fm_Lifecycle x)
     @ [CArray 0]"

definition dec_frame :: "frame parser" where
  "dec_frame =
     dbind (expect_Array 12 (invalid ''frame array'')) (\<lambda>_.
     dbind (dec_Text (word_of_nat MaxIdentifier)) (\<lambda>version.
     dbind (dec_Text (word_of_nat MaxIdentifier)) (\<lambda>universeID.
     dbind (dec_Text (word_of_nat MaxIdentifier)) (\<lambda>frameType.
     dbind (dec_Text (word_of_nat MaxIdentifier)) (\<lambda>nativeKey.
     dbind (decodeTextSet 32 0) (\<lambda>canonicalCandidates.
     dbind dec_frame_derivation (\<lambda>derivation.
     dbind (dec_counted 1 256 (invalid ''frame slot count'') dec_frame_slot) (\<lambda>slots.
     dbind dec_frame_context (\<lambda>context.
     dbind dec_frame_time (\<lambda>time.
     dbind dec_frame_epistemic (\<lambda>epistemic.
     dbind dec_frame_lifecycle (\<lambda>lifecycle.
     dbind expectEmptyExtensions (\<lambda>_.
     dbind dp_finish (\<lambda>_.
     dret \<lparr>fm_Version = version, fm_UniverseID = universeID, fm_FrameType = frameType,
           fm_NativeKey = nativeKey, fm_CanonicalCandidates = canonicalCandidates, fm_Slots = slots,
           fm_Context = context, fm_Time = time, fm_Epistemic = epistemic,
           fm_Derivation = derivation, fm_Lifecycle = lifecycle\<rparr>))))))))))))))"

definition MarshalFrame :: "frame \<Rightarrow> error + byte list" where
  "MarshalFrame x = after (Frame_Validate x) (boundedEncoding (frame_calls x))"

definition UnmarshalFrame :: "byte list \<Rightarrow> error + frame" where
  "UnmarshalFrame bs =
     ebind (checkedDocument bs MaxDocumentBytes dec_frame) (\<lambda>x. after (Frame_Validate x) (Inr x))"

section \<open>The frame as a document\<close>

definition frame_dimension_fits :: "context_dimension \<Rightarrow> bool" where
  "frame_dimension_fits x \<longleftrightarrow>
     text_ok 512 (dm_Key x) \<and>
     typed_ok (dm_Value x)"

interpretation fm_dimension: codec frame_dimension_calls dec_frame_dimension frame_dimension_fits
proof
  show "dec_frame_dimension (dec_at pre (emit (frame_dimension_calls x) @ r)) =
      Inr (x, dec_at (pre @ emit (frame_dimension_calls x)) r)" if "frame_dimension_fits x" for x pre r
    using that by (cases x) (simp add: dec_frame_dimension_def frame_dimension_calls_def frame_dimension_fits_def emit_simps decode_simps)
  show "dec_sound dec_frame_dimension (\<lambda>x c. frame_dimension_fits x \<and> c = emit (frame_dimension_calls x))"
    unfolding dec_frame_dimension_def dataplane_limits of_nat_numeral
    apply (rule dec_sound_bind, rule sound_intros)+
    apply (rule dec_sound_ret)
    apply (simp add: frame_dimension_calls_def frame_dimension_fits_def emit_simps)
    done
qed

interpretation fm_dimensions: codec "enc_counted frame_dimension_calls"
    "dec_counted 0 32 (invalid ''frame context dimension count'') dec_frame_dimension"
    "\<lambda>xs. list_all frame_dimension_fits xs \<and> unat (0::uint64) \<le> length xs \<and> length xs \<le> unat (32::uint64)"
  by (rule fm_dimension.counted_codec)

interpretation fm_values: codec "enc_counted encodeTypedValue"
    "dec_counted 0 64 (invalid ''frame slot value count'') decodeTypedValue"
    "\<lambda>xs. list_all typed_ok xs \<and> unat (0::uint64) \<le> length xs \<and> length xs \<le> unat (64::uint64)"
  by (rule dp_typed.counted_codec)

lemmas fm1_complete [decode_simps] =
  fm_dimensions.complete fm_dimensions.complete_last
  fm_values.complete fm_values.complete_last

lemmas fm1_sound [sound_intros] =
  fm_dimensions.sound fm_values.sound

definition frame_context_fits :: "packet_context \<Rightarrow> bool" where
  "frame_context_fits x \<longleftrightarrow>
     list_all frame_dimension_fits (cx_Dimensions x) \<and> length (cx_Dimensions x) \<le> 32 \<and>
     opt_text_ok 512 (cx_Jurisdiction x) \<and>
     opt_text_ok 63 (cx_Language x) \<and>
     opt_text_ok 512 (cx_Scope x)"

interpretation fm_context: codec frame_context_calls dec_frame_context frame_context_fits
proof
  show "dec_frame_context (dec_at pre (emit (frame_context_calls x) @ r)) =
      Inr (x, dec_at (pre @ emit (frame_context_calls x)) r)" if "frame_context_fits x" for x pre r
    using that by (cases x) (simp add: dec_frame_context_def frame_context_calls_def frame_context_fits_def emit_simps decode_simps)
  show "dec_sound dec_frame_context (\<lambda>x c. frame_context_fits x \<and> c = emit (frame_context_calls x))"
    unfolding dec_frame_context_def dataplane_limits of_nat_numeral
    apply (rule dec_sound_bind, rule sound_intros)+
    apply (rule dec_sound_ret)
    apply (simp add: frame_context_calls_def frame_context_fits_def emit_simps)
    done
qed

definition frame_slot_fits :: "frame_slot \<Rightarrow> bool" where
  "frame_slot_fits x \<longleftrightarrow>
     text_ok 512 (fs_RoleID x) \<and>
     text_ok 512 (fs_Status x) \<and>
     text_ok 512 (fs_Cardinality x) \<and>
     list_all typed_ok (fs_Values x) \<and> length (fs_Values x) \<le> 64 \<and>
     digest_set_ok 256 1 (fs_PacketDigests x) \<and>
     text_set_ok 32 0 (fs_MappingIDs x) \<and>
     text_ok 512 (fs_Conflict x)"

interpretation fm_slot: codec frame_slot_calls dec_frame_slot frame_slot_fits
proof
  show "dec_frame_slot (dec_at pre (emit (frame_slot_calls x) @ r)) =
      Inr (x, dec_at (pre @ emit (frame_slot_calls x)) r)" if "frame_slot_fits x" for x pre r
    using that by (cases x) (simp add: dec_frame_slot_def frame_slot_calls_def frame_slot_fits_def emit_simps decode_simps)
  show "dec_sound dec_frame_slot (\<lambda>x c. frame_slot_fits x \<and> c = emit (frame_slot_calls x))"
    unfolding dec_frame_slot_def dataplane_limits of_nat_numeral
    apply (rule dec_sound_bind, rule sound_intros)+
    apply (rule dec_sound_ret)
    apply (simp add: frame_slot_calls_def frame_slot_fits_def emit_simps)
    done
qed

definition frame_time_fits :: "frame_time \<Rightarrow> bool" where
  "frame_time_fits x \<longleftrightarrow>
     text_ok 20 (ft_ComposedAt x) \<and>
     opt_text_ok 20 (ft_ValidFrom x) \<and>
     opt_text_ok 20 (ft_ValidUntil x)"

interpretation fm_time: codec frame_time_calls dec_frame_time frame_time_fits
proof
  show "dec_frame_time (dec_at pre (emit (frame_time_calls x) @ r)) =
      Inr (x, dec_at (pre @ emit (frame_time_calls x)) r)" if "frame_time_fits x" for x pre r
    using that by (cases x) (simp add: dec_frame_time_def frame_time_calls_def frame_time_fits_def emit_simps decode_simps)
  show "dec_sound dec_frame_time (\<lambda>x c. frame_time_fits x \<and> c = emit (frame_time_calls x))"
    unfolding dec_frame_time_def dataplane_limits of_nat_numeral
    apply (rule dec_sound_bind, rule sound_intros)+
    apply (rule dec_sound_ret)
    apply (simp add: frame_time_calls_def frame_time_fits_def emit_simps)
    done
qed

definition frame_epistemic_fits :: "frame_epistemic \<Rightarrow> bool" where
  "frame_epistemic_fits x \<longleftrightarrow>
     text_ok 512 (fe_Lane x) \<and>
     text_ok 512 (fe_ConflictStatus x)"

interpretation fm_epistemic: codec frame_epistemic_calls dec_frame_epistemic frame_epistemic_fits
proof
  show "dec_frame_epistemic (dec_at pre (emit (frame_epistemic_calls x) @ r)) =
      Inr (x, dec_at (pre @ emit (frame_epistemic_calls x)) r)" if "frame_epistemic_fits x" for x pre r
    using that by (cases x) (simp add: dec_frame_epistemic_def frame_epistemic_calls_def frame_epistemic_fits_def emit_simps decode_simps)
  show "dec_sound dec_frame_epistemic (\<lambda>x c. frame_epistemic_fits x \<and> c = emit (frame_epistemic_calls x))"
    unfolding dec_frame_epistemic_def dataplane_limits of_nat_numeral
    apply (rule dec_sound_bind, rule sound_intros)+
    apply (rule dec_sound_ret)
    apply (simp add: frame_epistemic_calls_def frame_epistemic_fits_def emit_simps)
    done
qed

definition frame_derivation_fits :: "frame_derivation \<Rightarrow> bool" where
  "frame_derivation_fits x \<longleftrightarrow>
     digest_set_ok 4096 1 (fd_PacketDigests x) \<and>
     digest32 (fd_ModuleSetDigest x) \<and>
     text_set_ok 256 0 (fd_MappingIDs x) \<and>
     digest32 (fd_CompilerContractDigest x) \<and>
     text_ok 512 (fd_CompilerVersion x)"

interpretation fm_derivation: codec frame_derivation_calls dec_frame_derivation frame_derivation_fits
proof
  show "dec_frame_derivation (dec_at pre (emit (frame_derivation_calls x) @ r)) =
      Inr (x, dec_at (pre @ emit (frame_derivation_calls x)) r)" if "frame_derivation_fits x" for x pre r
    using that by (cases x) (simp add: dec_frame_derivation_def frame_derivation_calls_def frame_derivation_fits_def emit_simps decode_simps)
  show "dec_sound dec_frame_derivation (\<lambda>x c. frame_derivation_fits x \<and> c = emit (frame_derivation_calls x))"
    unfolding dec_frame_derivation_def dataplane_limits of_nat_numeral
    apply (rule dec_sound_bind, rule sound_intros)+
    apply (rule dec_sound_ret)
    apply (simp add: frame_derivation_calls_def frame_derivation_fits_def emit_simps)
    done
qed

definition frame_lifecycle_fits :: "frame_lifecycle \<Rightarrow> bool" where
  "frame_lifecycle_fits x \<longleftrightarrow>
     text_ok 512 (fl_State x) \<and>
     opt_digest_ok (fl_SupersedesDigest x)"

interpretation fm_lifecycle: codec frame_lifecycle_calls dec_frame_lifecycle frame_lifecycle_fits
proof
  show "dec_frame_lifecycle (dec_at pre (emit (frame_lifecycle_calls x) @ r)) =
      Inr (x, dec_at (pre @ emit (frame_lifecycle_calls x)) r)" if "frame_lifecycle_fits x" for x pre r
    using that by (cases x) (simp add: dec_frame_lifecycle_def frame_lifecycle_calls_def frame_lifecycle_fits_def emit_simps decode_simps)
  show "dec_sound dec_frame_lifecycle (\<lambda>x c. frame_lifecycle_fits x \<and> c = emit (frame_lifecycle_calls x))"
    unfolding dec_frame_lifecycle_def dataplane_limits of_nat_numeral
    apply (rule dec_sound_bind, rule sound_intros)+
    apply (rule dec_sound_ret)
    apply (simp add: frame_lifecycle_calls_def frame_lifecycle_fits_def emit_simps)
    done
qed

interpretation fm_slots: codec "enc_counted frame_slot_calls"
    "dec_counted 1 256 (invalid ''frame slot count'') dec_frame_slot"
    "\<lambda>xs. list_all frame_slot_fits xs \<and> unat (1::uint64) \<le> length xs \<and> length xs \<le> unat (256::uint64)"
  by (rule fm_slot.counted_codec)

lemmas fm2_complete [decode_simps] =
  fm_slots.complete fm_slots.complete_last
  fm_context.complete fm_context.complete_last
  fm_time.complete fm_time.complete_last
  fm_epistemic.complete fm_epistemic.complete_last
  fm_derivation.complete fm_derivation.complete_last
  fm_lifecycle.complete fm_lifecycle.complete_last

lemmas fm2_sound [sound_intros] =
  fm_slots.sound fm_context.sound fm_time.sound fm_epistemic.sound fm_derivation.sound fm_lifecycle.sound

definition frame_fits :: "frame \<Rightarrow> bool" where
  "frame_fits x \<longleftrightarrow>
     text_ok 512 (fm_Version x) \<and>
     text_ok 512 (fm_UniverseID x) \<and>
     text_ok 512 (fm_FrameType x) \<and>
     text_ok 512 (fm_NativeKey x) \<and>
     text_set_ok 32 0 (fm_CanonicalCandidates x) \<and>
     frame_derivation_fits (fm_Derivation x) \<and>
     list_all frame_slot_fits (fm_Slots x) \<and> Suc 0 \<le> length (fm_Slots x) \<and> length (fm_Slots x) \<le> 256 \<and>
     frame_context_fits (fm_Context x) \<and>
     frame_time_fits (fm_Time x) \<and>
     frame_epistemic_fits (fm_Epistemic x) \<and>
     frame_lifecycle_fits (fm_Lifecycle x)"

definition frame_wf :: "frame \<Rightarrow> bool" where
  "frame_wf f \<longleftrightarrow> list_all (\<lambda>s. list_all digest32 (fs_PacketDigests s)) (fm_Slots f) \<and>
     list_all digest32 (fd_PacketDigests (fm_Derivation f)) \<and>
     digest32 (fd_ModuleSetDigest (fm_Derivation f)) \<and> digest32 (fd_CompilerContractDigest (fm_Derivation f)) \<and>
     opt_digest32 (fl_SupersedesDigest (fm_Lifecycle f))"

lemma validate_slot_values_ok: "validate_slot_values prior vs = None \<Longrightarrow> list_all typed_ok vs"
  by (induction vs arbitrary: prior) (auto simp: accept_simps typed_ok_def)

lemma frame_slot_fitsI:
  "FrameSlot_Validate s = None \<Longrightarrow> list_all digest32 (fs_PacketDigests s) \<Longrightarrow> frame_slot_fits s"
  unfolding FrameSlot_Validate_def frame_slot_fits_def first_err_None fail_if_None
  by (elim conjE, intro conjI;
      (erule identifier_ok | erule validate_slot_values_ok | erule digest_set_okI | erule text_set_okI |
       erule enum_ok)?) (simp_all add: text_ok_def)

lemma validate_frame_dimensions_fit:
  "validate_frame_dimensions previous ds = None \<Longrightarrow> list_all frame_dimension_fits ds"
  by (induction ds arbitrary: previous)
    (auto simp: accept_simps frame_dimension_fits_def typed_ok_def text_ok_def)

lemma frame_context_fitsI: "validateFrameContext cx = None \<Longrightarrow> frame_context_fits cx"
  unfolding validateFrameContext_def frame_context_fits_def first_err_None fail_if_None
  by (elim conjE, intro conjI; (erule validate_frame_dimensions_fit | erule opt_identifier_ok | erule language_ok)?) simp

lemma frame_time_fitsI: "validate_frame_time t = None \<Longrightarrow> frame_time_fits t"
  unfolding validate_frame_time_def frame_time_fits_def first_err_None
  by (elim conjE, intro conjI; (erule opt_utc_ok | erule utc_second_ok))

lemma frame_epistemic_fitsI: "validate_frame_epistemic e = None \<Longrightarrow> frame_epistemic_fits e"
  unfolding validate_frame_epistemic_def frame_epistemic_fits_def first_err_None
  by (elim conjE, intro conjI; erule enum_ok, simp add: text_ok_def)

lemma frame_derivation_fitsI:
  "validate_frame_derivation e d = None \<Longrightarrow> list_all digest32 (fd_PacketDigests d) \<Longrightarrow>
     digest32 (fd_ModuleSetDigest d) \<Longrightarrow> digest32 (fd_CompilerContractDigest d) \<Longrightarrow> frame_derivation_fits d"
  unfolding validate_frame_derivation_def frame_derivation_fits_def first_err_None
  by (elim conjE, intro conjI; (erule digest_set_okI | erule text_set_okI | erule identifier_ok)?) simp_all

lemma frame_lifecycle_fitsI:
  "validate_frame_lifecycle l = None \<Longrightarrow> opt_digest32 (fl_SupersedesDigest l) \<Longrightarrow> frame_lifecycle_fits l"
  unfolding validate_frame_lifecycle_def frame_lifecycle_fits_def first_err_None
  by (elim conjE, intro conjI; (erule enum_ok, simp add: text_ok_def | erule opt_digest_okI, assumption))

text \<open>What the loop over the slots establishes.\<close>

lemma validate_frame_slots_Inr:
  "validate_frame_slots A M previous U ss = Inr U' \<longleftrightarrow>
     list_all (\<lambda>s. FrameSlot_Validate s = None \<and> set (fs_PacketDigests s) \<subseteq> A \<and> set (fs_MappingIDs s) \<subseteq> M) ss \<and>
     sorted_wrt (<) ((case previous of None \<Rightarrow> [] | Some r \<Rightarrow> [r]) @ map fs_RoleID ss) \<and>
     U' = U \<union> (\<Union>s \<in> set ss. set (fs_PacketDigests s))"
proof (induction ss arbitrary: previous U)
  case (Cons s ss)
  have "validate_frame_slots A M previous U (s # ss) = Inr U' \<longleftrightarrow>
      FrameSlot_Validate s = None \<and> (case previous of None \<Rightarrow> True | Some r \<Rightarrow> r < fs_RoleID s) \<and>
      set (fs_PacketDigests s) \<subseteq> A \<and> set (fs_MappingIDs s) \<subseteq> M \<and>
      validate_frame_slots A M (Some (fs_RoleID s)) (U \<union> set (fs_PacketDigests s)) ss = Inr U'"
    by (auto simp: after_Inr first_err_None fail_if_None wrap_err_None list_all_iff split: option.splits)
  also have "\<dots> \<longleftrightarrow>
      list_all (\<lambda>s. FrameSlot_Validate s = None \<and> set (fs_PacketDigests s) \<subseteq> A \<and> set (fs_MappingIDs s) \<subseteq> M) (s # ss) \<and>
      sorted_wrt (<) ((case previous of None \<Rightarrow> [] | Some r \<Rightarrow> [r]) @ map fs_RoleID (s # ss)) \<and>
      U' = U \<union> (\<Union>s \<in> set (s # ss). set (fs_PacketDigests s))"
    unfolding Cons.IH by (cases previous) (auto simp: sorted_wrt2 simp del: sorted_wrt.simps(2))
  finally show ?case .
qed (auto split: option.splits)

lemma validate_frame_use_None:
  "validate_frame_use f = None \<longleftrightarrow>
     list_all (\<lambda>s. FrameSlot_Validate s = None \<and>
       set (fs_MappingIDs s) \<subseteq> set (fd_MappingIDs (fm_Derivation f))) (fm_Slots f) \<and>
     sorted_wrt (<) (map fs_RoleID (fm_Slots f)) \<and>
     (\<Union>s \<in> set (fm_Slots f). set (fs_PacketDigests s)) = set (fd_PacketDigests (fm_Derivation f))"
proof -
  let ?A = "set (fd_PacketDigests (fm_Derivation f))" and ?M = "set (fd_MappingIDs (fm_Derivation f))"
  let ?U = "\<Union>s \<in> set (fm_Slots f). set (fs_PacketDigests s)"
  have "validate_frame_use f = None \<longleftrightarrow>
      (\<exists>U. validate_frame_slots ?A ?M None {} (fm_Slots f) = Inr U \<and> card U = card ?A)"
    by (auto simp: validate_frame_use_def Let_def fail_if_None split: sum.splits)
  also have "\<dots> \<longleftrightarrow>
      list_all (\<lambda>s. FrameSlot_Validate s = None \<and> set (fs_PacketDigests s) \<subseteq> ?A \<and> set (fs_MappingIDs s) \<subseteq> ?M)
        (fm_Slots f) \<and> sorted_wrt (<) (map fs_RoleID (fm_Slots f)) \<and> card ?U = card ?A"
    unfolding validate_frame_slots_Inr by simp
  also have "\<dots> \<longleftrightarrow>
      list_all (\<lambda>s. FrameSlot_Validate s = None \<and> set (fs_MappingIDs s) \<subseteq> ?M) (fm_Slots f) \<and>
      sorted_wrt (<) (map fs_RoleID (fm_Slots f)) \<and> ?U = ?A"
    using card_subset_eq [of ?A ?U] by (auto simp: list_all_iff UN_subset_iff)
  finally show ?thesis .
qed

lemma frame_fitsI:
  assumes "Frame_Validate f = None" and "frame_wf f"
  shows "frame_fits f"
proof -
  note v = assms(1) [unfolded Frame_Validate_def first_err_None fail_if_None]
  have "text_ok 512 (fm_Version f)" using v by (simp add: FrameVersion_def text_ok_def)
  moreover have "text_ok 512 (fm_UniverseID f)" "text_ok 512 (fm_FrameType f)" "text_ok 512 (fm_NativeKey f)"
    using v identifier_ok by blast+
  moreover have "text_set_ok 32 0 (fm_CanonicalCandidates f)" using v by (auto intro: text_set_okI)
  moreover have "list_all frame_slot_fits (fm_Slots f)"
    using v assms(2) frame_slot_fitsI unfolding validate_frame_use_None frame_wf_def by (auto simp: list_all_iff)
  moreover have "Suc 0 \<le> length (fm_Slots f)" "length (fm_Slots f) \<le> 256" using v by (auto simp: Suc_le_eq)
  moreover have "frame_context_fits (fm_Context f)" "frame_time_fits (fm_Time f)"
    "frame_epistemic_fits (fm_Epistemic f)"
    using v frame_context_fitsI frame_time_fitsI frame_epistemic_fitsI by blast+
  moreover have "frame_derivation_fits (fm_Derivation f)" "frame_lifecycle_fits (fm_Lifecycle f)"
    using v assms(2) frame_derivation_fitsI frame_lifecycle_fitsI unfolding frame_wf_def by blast+
  ultimately show ?thesis unfolding frame_fits_def by blast
qed

lemma frame_fits_wf: "frame_fits f \<Longrightarrow> frame_wf f"
  by (auto simp: frame_fits_def frame_wf_def frame_slot_fits_def frame_derivation_fits_def
      frame_lifecycle_fits_def digest_set_ok_def opt_digest_ok32 list_all_iff)

interpretation frame_doc: document MarshalFrame UnmarshalFrame frame_wf
proof (rule dp_document_fitsI)
  show "MarshalFrame x = after (Frame_Validate x) (boundedEncoding (frame_calls x))" for x
    by (rule MarshalFrame_def)
  show "UnmarshalFrame b = ebind (checkedDocument b MaxDocumentBytes dec_frame)
      (\<lambda>x. after (Frame_Validate x) (Inr x))" for b
    by (rule UnmarshalFrame_def)
  show "dec_sound dec_frame (\<lambda>x c. frame_fits x \<and> c = emit (frame_calls x))"
    unfolding dec_frame_def dp_finish_def dataplane_limits of_nat_numeral
    apply (rule dec_sound_bind, rule sound_intros)+
    apply (rule dec_sound_bind, rule dec_sound_finish, rule dec_sound_ret)
    apply (simp add: frame_calls_def frame_fits_def emit_simps)
    done
  show "ends_input dec_frame"
    unfolding dec_frame_def dp_finish_def dataplane_limits of_nat_numeral
    by (rule ends_input_bind, rule sound_intros)+ (rule ends_input_finish)
  show "dec_frame (dec_at [] (emit (frame_calls x))) = Inr (x, dec_at (emit (frame_calls x)) [])"
    if "frame_fits x" for x
    using that by (cases x)
      (simp add: dec_frame_def frame_calls_def frame_fits_def dp_finish_def emit_simps decode_simps)
qed (rule frame_fitsI frame_fits_wf, assumption+)+

section \<open>The packets of a frame\<close>

definition sortedDigestUnion :: "frame_slot list \<Rightarrow> byte list list" where
  "sortedDigestUnion slots = sort (remdups (concat (map fs_PacketDigests slots)))"

lemma frame_packets:
  assumes "Frame_Validate f = None"
  shows "sortedDigestUnion (fm_Slots f) = fd_PacketDigests (fm_Derivation f)"
proof -
  from assms have "validate_frame_use f = None"
    and d: "validateSortedUniqueDigests ''frame packet digests'' (fd_PacketDigests (fm_Derivation f)) 4096 1 = None"
    by (simp_all add: Frame_Validate_def validate_frame_derivation_def first_err_None)
  then have u: "(\<Union>s \<in> set (fm_Slots f). set (fs_PacketDigests s)) = set (fd_PacketDigests (fm_Derivation f))"
    by (simp add: validate_frame_use_None)
  from d have "sorted (fd_PacketDigests (fm_Derivation f)) \<and> distinct (fd_PacketDigests (fm_Derivation f))"
    by (simp add: validateSortedUniqueDigests_None strictly_sorted_iff)
  then show ?thesis
    by (intro sorted_distinct_set_unique) (simp_all add: sortedDigestUnion_def u)
qed

section \<open>Properties\<close>

text \<open>A semantic frame survives marshalling and is identified by its octets.\<close>

theorem frame_accepted:
  "UnmarshalFrame bs = Inr f \<longleftrightarrow> frame_wf f \<and> MarshalFrame f = Inr bs"
  by (rule frame_doc.accepted_iff)

text \<open>
  C34: a valid frame is derived from exactly the packets of its slots: the digests its derivation
  lists are the sorted union of the digests its slots reference, the slots only use the mappings
  of the derivation, and no role occurs twice.
\<close>

theorem frame_derivation_exact:
  assumes "Frame_Validate f = None"
  shows "fd_PacketDigests (fm_Derivation f) = sortedDigestUnion (fm_Slots f) \<and>
    (\<Union>s \<in> set (fm_Slots f). set (fs_MappingIDs s)) \<subseteq> set (fd_MappingIDs (fm_Derivation f)) \<and>
    distinct (map fs_RoleID (fm_Slots f)) \<and>
    (fe_Lane (fm_Epistemic f) = ''observed_native'' \<longleftrightarrow> fd_MappingIDs (fm_Derivation f) = [])"
proof -
  note v = assms [unfolded Frame_Validate_def first_err_None]
  from v have u: "validate_frame_use f = None"
    and m: "fe_Lane (fm_Epistemic f) = ''observed_native'' \<longleftrightarrow> fd_MappingIDs (fm_Derivation f) = []"
    by (auto simp: validate_frame_derivation_def first_err_None fail_if_None)
  from u have "sorted_wrt (<) (map fs_RoleID (fm_Slots f))" by (simp add: validate_frame_use_None)
  then have "distinct (map fs_RoleID (fm_Slots f))" by (simp add: strict_sorted_iff)
  with frame_packets [OF assms] m u show ?thesis by (auto simp: validate_frame_use_None list_all_iff)
qed

definition sample_frame :: frame where
  "sample_frame = \<lparr>fm_Version = FrameVersion, fm_UniverseID = ''u'', fm_FrameType = ''t'', fm_NativeKey = ''k'',
     fm_CanonicalCandidates = [],
     fm_Slots = [\<lparr>fs_RoleID = ''a'', fs_Status = ''unknown'', fs_Cardinality = ''one'', fs_Values = [],
         fs_PacketDigests = [replicate 32 1], fs_MappingIDs = [], fs_Conflict = ''none''\<rparr>,
       \<lparr>fs_RoleID = ''b'', fs_Status = ''unknown'', fs_Cardinality = ''one'', fs_Values = [],
         fs_PacketDigests = [replicate 32 2], fs_MappingIDs = [], fs_Conflict = ''none''\<rparr>],
     fm_Context = \<lparr>cx_Dimensions = [], cx_Jurisdiction = absent_text, cx_Language = absent_text,
       cx_Scope = absent_text\<rparr>,
     fm_Time = \<lparr>ft_ComposedAt = ''2024-02-29T23:59:59Z'', ft_ValidFrom = absent_text, ft_ValidUntil = absent_text\<rparr>,
     fm_Epistemic = \<lparr>fe_Lane = ''observed_native'', fe_CompletenessMillionths = 0, fe_ConflictStatus = ''none''\<rparr>,
     fm_Derivation = \<lparr>fd_PacketDigests = [replicate 32 1, replicate 32 2], fd_ModuleSetDigest = replicate 32 3,
       fd_MappingIDs = [], fd_CompilerContractDigest = replicate 32 4, fd_CompilerVersion = ''c''\<rparr>,
     fm_Lifecycle = \<lparr>fl_State = ''current'', fl_SupersedesDigest = absent_digest\<rparr>\<rparr>"

lemma sample_digest_less: "(replicate 32 1 :: byte list) < replicate 32 2"
  by (simp add: numeral_eq_Suc)

lemma sample_frame_valid: "Frame_Validate sample_frame = None"
  using canonical_utc_second_example sample_digest_less
  by (simp add: Frame_Validate_def sample_frame_def validateFrameContext_def validate_frame_time_def
      validate_frame_epistemic_def validate_frame_derivation_def validate_frame_lifecycle_def
      validate_frame_use_None FrameSlot_Validate_def FrameVersion_def accept_simps validateLanguage_def
      utf8_valid_string_ascii is_ascii_def insert_commute)

theorem frame_derivation_exact_witness:
  "Frame_Validate sample_frame = None \<and>
   fd_PacketDigests (fm_Derivation sample_frame) = sortedDigestUnion (fm_Slots sample_frame)"
  using sample_frame_valid frame_derivation_exact [OF sample_frame_valid] by blast

end
