(* ===== verification/Ontology.thy ===== *)
theory Ontology
  imports Frame
begin

text \<open>
  \<open>internal/dataplane/ontology.go\<close>: mapping claims, ontology modules and semantic universes.
\<close>

section \<open>Mapping claims\<close>

definition MappingVersion :: string where "MappingVersion = ''tw.mapping-claim/0.1''"

record mapping_native =
  mn_OriginID :: string
  mn_SchemaRef :: opt_text
  mn_Term :: string
  mn_LocatorPattern :: opt_text

record mapping_semantic =
  ms_ConceptID :: string
  ms_RoleID :: opt_text

record mapping_scope =
  mo_UniverseID :: string
  mo_Jurisdictions :: "string list"
  mo_Languages :: "string list"
  mo_ConditionIDs :: "string list"

record mapping_claim =
  mc_Version :: string
  mc_MappingID :: string
  mc_Native :: mapping_native
  mc_Semantic :: mapping_semantic
  mc_Relation :: string
  mc_Scope :: mapping_scope
  mc_Status :: string
  mc_EvidencePacketDigests :: "byte list list"
  mc_ModuleID :: string
  mc_ReviewDecisionDigest :: opt_digest
  mc_SupersedesMappingDigest :: opt_digest

fun validate_languages :: "string list \<Rightarrow> error option" where
  "validate_languages [] = None"
| "validate_languages (l # ls) = first_err [
     validateLanguage ''mapping language'' \<lparr>ot_Present = True, ot_Value = l\<rparr>, validate_languages ls]"

definition MappingClaim_Validate :: "mapping_claim \<Rightarrow> error option" where
  "MappingClaim_Validate m = first_err [
     fail_if (mc_Version m \<noteq> MappingVersion) (invalid ''mapping version''),
     validateIdentifier ''mapping ID'' (mc_MappingID m),
     validateIdentifier ''mapping origin ID'' (mn_OriginID (mc_Native m)),
     validateIdentifier ''mapping native term'' (mn_Term (mc_Native m)),
     validateIdentifier ''semantic concept ID'' (ms_ConceptID (mc_Semantic m)),
     validateIdentifier ''mapping universe ID'' (mo_UniverseID (mc_Scope m)),
     validateIdentifier ''mapping module ID'' (mc_ModuleID m),
     validateOptionalIdentifier ''mapping native schema'' (mn_SchemaRef (mc_Native m)),
     (if ot_Present (mn_LocatorPattern (mc_Native m))
      then dp_validateText ''mapping locator pattern'' (ot_Value (mn_LocatorPattern (mc_Native m))) MaxLocator False
      else fail_if (ot_Value (mn_LocatorPattern (mc_Native m)) \<noteq> [])
        (invalid ''absent mapping locator carries a value'')),
     validateOptionalIdentifier ''mapping role ID'' (ms_RoleID (mc_Semantic m)),
     validateEnum ''mapping relation'' (mc_Relation m)
       [''exact'', ''close'', ''broad'', ''narrow'', ''contextual'', ''candidate''],
     validateEnum ''mapping status'' (mc_Status m) [''candidate'', ''reviewed'', ''disputed'', ''revoked''],
     validateSortedUniqueText ''mapping jurisdictions'' (mo_Jurisdictions (mc_Scope m)) 32,
     validateSortedUniqueText ''mapping languages'' (mo_Languages (mc_Scope m)) 32,
     validate_languages (mo_Languages (mc_Scope m)),
     validateSortedUniqueText ''mapping conditions'' (mo_ConditionIDs (mc_Scope m)) 32,
     validateSortedUniqueDigests ''mapping evidence packets'' (mc_EvidencePacketDigests m) 256 0,
     validateOptionalDigest ''mapping review decision'' (mc_ReviewDecisionDigest m),
     validateOptionalDigest ''supersedes mapping'' (mc_SupersedesMappingDigest m),
     (if mc_Status m = ''candidate''
      then fail_if (od_Present (mc_ReviewDecisionDigest m))
        (invalid ''candidate mapping cannot carry a review decision'')
      else fail_if (\<not> od_Present (mc_ReviewDecisionDigest m))
        (invalid ''non-candidate mapping requires a review decision'')),
     fail_if (mc_Relation m = ''candidate'' \<and> mc_Status m \<noteq> ''candidate'')
       (invalid ''candidate relation cannot be reviewed or revoked'')]"

definition mapping_native_calls :: "mapping_native \<Rightarrow> enc_call list" where
  "mapping_native_calls x =
     [CArray 4]
     @ [CText (mn_OriginID x)]
     @ encodeOptionalText (mn_SchemaRef x)
     @ [CText (mn_Term x)]
     @ encodeOptionalText (mn_LocatorPattern x)"

definition dec_mapping_native :: "mapping_native parser" where
  "dec_mapping_native =
     dbind (expect_Array 4 (invalid ''mapping native array'')) (\<lambda>_.
     dbind (dec_Text (word_of_nat MaxIdentifier)) (\<lambda>originID.
     dbind (decodeOptionalText (word_of_nat MaxIdentifier)) (\<lambda>schemaRef.
     dbind (dec_Text (word_of_nat MaxIdentifier)) (\<lambda>term.
     dbind (decodeOptionalText (word_of_nat MaxLocator)) (\<lambda>locatorPattern.
     dret \<lparr>mn_OriginID = originID, mn_SchemaRef = schemaRef, mn_Term = term,
           mn_LocatorPattern = locatorPattern\<rparr>)))))"

definition mapping_semantic_calls :: "mapping_semantic \<Rightarrow> enc_call list" where
  "mapping_semantic_calls x =
     [CArray 2]
     @ [CText (ms_ConceptID x)]
     @ encodeOptionalText (ms_RoleID x)"

definition dec_mapping_semantic :: "mapping_semantic parser" where
  "dec_mapping_semantic =
     dbind (expect_Array 2 (invalid ''mapping semantic array'')) (\<lambda>_.
     dbind (dec_Text (word_of_nat MaxIdentifier)) (\<lambda>conceptID.
     dbind (decodeOptionalText (word_of_nat MaxIdentifier)) (\<lambda>roleID.
     dret \<lparr>ms_ConceptID = conceptID, ms_RoleID = roleID\<rparr>)))"

definition mapping_scope_calls :: "mapping_scope \<Rightarrow> enc_call list" where
  "mapping_scope_calls x =
     [CArray 4]
     @ [CText (mo_UniverseID x)]
     @ encodeTextSet (mo_Jurisdictions x)
     @ encodeTextSet (mo_Languages x)
     @ encodeTextSet (mo_ConditionIDs x)"

definition dec_mapping_scope :: "mapping_scope parser" where
  "dec_mapping_scope =
     dbind (expect_Array 4 (invalid ''mapping scope array'')) (\<lambda>_.
     dbind (dec_Text (word_of_nat MaxIdentifier)) (\<lambda>universeID.
     dbind (decodeTextSet 32 0) (\<lambda>jurisdictions.
     dbind (decodeTextSet 32 0) (\<lambda>languages.
     dbind (decodeTextSet 32 0) (\<lambda>conditionIDs.
     dret \<lparr>mo_UniverseID = universeID, mo_Jurisdictions = jurisdictions,
           mo_Languages = languages, mo_ConditionIDs = conditionIDs\<rparr>)))))"

definition mapping_claim_calls :: "mapping_claim \<Rightarrow> enc_call list" where
  "mapping_claim_calls x =
     [CArray 12]
     @ [CText (mc_Version x)]
     @ [CText (mc_MappingID x)]
     @ mapping_native_calls (mc_Native x)
     @ mapping_semantic_calls (mc_Semantic x)
     @ [CText (mc_Relation x)]
     @ mapping_scope_calls (mc_Scope x)
     @ [CText (mc_Status x)]
     @ encodeDigestSet (mc_EvidencePacketDigests x)
     @ [CText (mc_ModuleID x)]
     @ encodeOptionalDigest (mc_ReviewDecisionDigest x)
     @ encodeOptionalDigest (mc_SupersedesMappingDigest x)
     @ [CArray 0]"

definition dec_mapping_claim :: "mapping_claim parser" where
  "dec_mapping_claim =
     dbind (expect_Array 12 (invalid ''mapping claim array'')) (\<lambda>_.
     dbind (dec_Text (word_of_nat MaxIdentifier)) (\<lambda>version.
     dbind (dec_Text (word_of_nat MaxIdentifier)) (\<lambda>mappingID.
     dbind dec_mapping_native (\<lambda>native.
     dbind dec_mapping_semantic (\<lambda>semantic.
     dbind (dec_Text (word_of_nat MaxIdentifier)) (\<lambda>relation.
     dbind dec_mapping_scope (\<lambda>scope.
     dbind (dec_Text (word_of_nat MaxIdentifier)) (\<lambda>status.
     dbind (decodeDigestSet 256 0) (\<lambda>evidencePacketDigests.
     dbind (dec_Text (word_of_nat MaxIdentifier)) (\<lambda>moduleID.
     dbind decodeOptionalDigest (\<lambda>reviewDecisionDigest.
     dbind decodeOptionalDigest (\<lambda>supersedesMappingDigest.
     dbind expectEmptyExtensions (\<lambda>_.
     dbind dp_finish (\<lambda>_.
     dret \<lparr>mc_Version = version, mc_MappingID = mappingID, mc_Native = native,
           mc_Semantic = semantic, mc_Relation = relation, mc_Scope = scope, mc_Status = status,
           mc_EvidencePacketDigests = evidencePacketDigests, mc_ModuleID = moduleID,
           mc_ReviewDecisionDigest = reviewDecisionDigest,
           mc_SupersedesMappingDigest = supersedesMappingDigest\<rparr>))))))))))))))"

definition MarshalMappingClaim :: "mapping_claim \<Rightarrow> error + byte list" where
  "MarshalMappingClaim x = after (MappingClaim_Validate x) (boundedEncoding (mapping_claim_calls x))"

definition UnmarshalMappingClaim :: "byte list \<Rightarrow> error + mapping_claim" where
  "UnmarshalMappingClaim bs =
     ebind (checkedDocument bs MaxDocumentBytes dec_mapping_claim) (\<lambda>x. after (MappingClaim_Validate x) (Inr x))"

definition mapping_native_fits :: "mapping_native \<Rightarrow> bool" where
  "mapping_native_fits x \<longleftrightarrow>
     text_ok 512 (mn_OriginID x) \<and>
     opt_text_ok 512 (mn_SchemaRef x) \<and>
     text_ok 512 (mn_Term x) \<and>
     opt_text_ok 16384 (mn_LocatorPattern x)"

interpretation mc_native: codec mapping_native_calls dec_mapping_native mapping_native_fits
proof
  show "dec_mapping_native (dec_at pre (emit (mapping_native_calls x) @ r)) =
      Inr (x, dec_at (pre @ emit (mapping_native_calls x)) r)" if "mapping_native_fits x" for x pre r
    using that by (cases x) (simp add: dec_mapping_native_def mapping_native_calls_def mapping_native_fits_def emit_simps decode_simps)
  show "dec_sound dec_mapping_native (\<lambda>x c. mapping_native_fits x \<and> c = emit (mapping_native_calls x))"
    unfolding dec_mapping_native_def dataplane_limits of_nat_numeral
    apply (rule dec_sound_bind, rule sound_intros)+
    apply (rule dec_sound_ret)
    apply (simp add: mapping_native_calls_def mapping_native_fits_def emit_simps)
    done
qed

definition mapping_semantic_fits :: "mapping_semantic \<Rightarrow> bool" where
  "mapping_semantic_fits x \<longleftrightarrow>
     text_ok 512 (ms_ConceptID x) \<and>
     opt_text_ok 512 (ms_RoleID x)"

interpretation mc_semantic: codec mapping_semantic_calls dec_mapping_semantic mapping_semantic_fits
proof
  show "dec_mapping_semantic (dec_at pre (emit (mapping_semantic_calls x) @ r)) =
      Inr (x, dec_at (pre @ emit (mapping_semantic_calls x)) r)" if "mapping_semantic_fits x" for x pre r
    using that by (cases x) (simp add: dec_mapping_semantic_def mapping_semantic_calls_def mapping_semantic_fits_def emit_simps decode_simps)
  show "dec_sound dec_mapping_semantic (\<lambda>x c. mapping_semantic_fits x \<and> c = emit (mapping_semantic_calls x))"
    unfolding dec_mapping_semantic_def dataplane_limits of_nat_numeral
    apply (rule dec_sound_bind, rule sound_intros)+
    apply (rule dec_sound_ret)
    apply (simp add: mapping_semantic_calls_def mapping_semantic_fits_def emit_simps)
    done
qed

definition mapping_scope_fits :: "mapping_scope \<Rightarrow> bool" where
  "mapping_scope_fits x \<longleftrightarrow>
     text_ok 512 (mo_UniverseID x) \<and>
     text_set_ok 32 0 (mo_Jurisdictions x) \<and>
     text_set_ok 32 0 (mo_Languages x) \<and>
     text_set_ok 32 0 (mo_ConditionIDs x)"

interpretation mc_scope: codec mapping_scope_calls dec_mapping_scope mapping_scope_fits
proof
  show "dec_mapping_scope (dec_at pre (emit (mapping_scope_calls x) @ r)) =
      Inr (x, dec_at (pre @ emit (mapping_scope_calls x)) r)" if "mapping_scope_fits x" for x pre r
    using that by (cases x) (simp add: dec_mapping_scope_def mapping_scope_calls_def mapping_scope_fits_def emit_simps decode_simps)
  show "dec_sound dec_mapping_scope (\<lambda>x c. mapping_scope_fits x \<and> c = emit (mapping_scope_calls x))"
    unfolding dec_mapping_scope_def dataplane_limits of_nat_numeral
    apply (rule dec_sound_bind, rule sound_intros)+
    apply (rule dec_sound_ret)
    apply (simp add: mapping_scope_calls_def mapping_scope_fits_def emit_simps)
    done
qed

lemmas mc_complete [decode_simps] =
  mc_native.complete mc_native.complete_last
  mc_semantic.complete mc_semantic.complete_last
  mc_scope.complete mc_scope.complete_last

lemmas mc_sound [sound_intros] =
  mc_native.sound mc_semantic.sound mc_scope.sound

definition mapping_claim_fits :: "mapping_claim \<Rightarrow> bool" where
  "mapping_claim_fits x \<longleftrightarrow>
     text_ok 512 (mc_Version x) \<and>
     text_ok 512 (mc_MappingID x) \<and>
     mapping_native_fits (mc_Native x) \<and>
     mapping_semantic_fits (mc_Semantic x) \<and>
     text_ok 512 (mc_Relation x) \<and>
     mapping_scope_fits (mc_Scope x) \<and>
     text_ok 512 (mc_Status x) \<and>
     digest_set_ok 256 0 (mc_EvidencePacketDigests x) \<and>
     text_ok 512 (mc_ModuleID x) \<and>
     opt_digest_ok (mc_ReviewDecisionDigest x) \<and>
     opt_digest_ok (mc_SupersedesMappingDigest x)"

definition mapping_claim_wf :: "mapping_claim \<Rightarrow> bool" where
  "mapping_claim_wf m \<longleftrightarrow> list_all digest32 (mc_EvidencePacketDigests m) \<and>
     opt_digest32 (mc_ReviewDecisionDigest m) \<and> opt_digest32 (mc_SupersedesMappingDigest m)"

lemma mapping_claim_fitsI:
  assumes "MappingClaim_Validate m = None" and "mapping_claim_wf m"
  shows "mapping_claim_fits m"
proof -
  note v = assms(1) [unfolded MappingClaim_Validate_def first_err_None fail_if_None]
  have "text_ok 512 (mc_Version m)" using v by (simp add: MappingVersion_def text_ok_def)
  moreover have "text_ok 512 (mc_MappingID m)" "text_ok 512 (mn_OriginID (mc_Native m))"
    "text_ok 512 (mn_Term (mc_Native m))" "text_ok 512 (ms_ConceptID (mc_Semantic m))"
    "text_ok 512 (mo_UniverseID (mc_Scope m))" "text_ok 512 (mc_ModuleID m)"
    using v identifier_ok by blast+
  moreover have "opt_text_ok 512 (mn_SchemaRef (mc_Native m))" "opt_text_ok 512 (ms_RoleID (mc_Semantic m))"
    using v opt_identifier_ok by blast+
  moreover have "opt_text_ok 16384 (mn_LocatorPattern (mc_Native m))"
    using v by (auto simp: opt_text_ok_def text_ok_def dp_validateText_None fail_if_None split: if_splits)
  moreover have "text_ok 512 (mc_Relation m)" "text_ok 512 (mc_Status m)"
    using v by (elim conjE, elim enum_ok, simp add: text_ok_def)+
  moreover have "text_set_ok 32 0 (mo_Jurisdictions (mc_Scope m))" "text_set_ok 32 0 (mo_Languages (mc_Scope m))"
    "text_set_ok 32 0 (mo_ConditionIDs (mc_Scope m))"
    using v by (auto intro: text_set_okI simp: Suc_le_eq)
  moreover have "digest_set_ok 256 0 (mc_EvidencePacketDigests m)" "opt_digest_ok (mc_ReviewDecisionDigest m)"
    "opt_digest_ok (mc_SupersedesMappingDigest m)"
    using v assms(2) by (auto simp: mapping_claim_wf_def intro: digest_set_okI opt_digest_okI)
  ultimately show ?thesis
    by (simp add: mapping_claim_fits_def mapping_native_fits_def mapping_semantic_fits_def mapping_scope_fits_def)
qed

lemma mapping_claim_fits_wf: "mapping_claim_fits m \<Longrightarrow> mapping_claim_wf m"
  by (auto simp: mapping_claim_fits_def mapping_claim_wf_def digest_set_ok_def opt_digest_ok32)

interpretation mapping_claim_doc: document MarshalMappingClaim UnmarshalMappingClaim mapping_claim_wf
proof (rule dp_document_fitsI)
  show "MarshalMappingClaim x = after (MappingClaim_Validate x) (boundedEncoding (mapping_claim_calls x))" for x
    by (rule MarshalMappingClaim_def)
  show "UnmarshalMappingClaim b = ebind (checkedDocument b MaxDocumentBytes dec_mapping_claim)
      (\<lambda>x. after (MappingClaim_Validate x) (Inr x))" for b
    by (rule UnmarshalMappingClaim_def)
  show "dec_sound dec_mapping_claim (\<lambda>x c. mapping_claim_fits x \<and> c = emit (mapping_claim_calls x))"
    unfolding dec_mapping_claim_def dp_finish_def dataplane_limits of_nat_numeral
    apply (rule dec_sound_bind, rule sound_intros)+
    apply (rule dec_sound_bind, rule dec_sound_finish, rule dec_sound_ret)
    apply (simp add: mapping_claim_calls_def mapping_claim_fits_def emit_simps)
    done
  show "ends_input dec_mapping_claim"
    unfolding dec_mapping_claim_def dp_finish_def dataplane_limits of_nat_numeral
    by (rule ends_input_bind, rule sound_intros)+ (rule ends_input_finish)
  show "dec_mapping_claim (dec_at [] (emit (mapping_claim_calls x))) = Inr (x, dec_at (emit (mapping_claim_calls x)) [])"
    if "mapping_claim_fits x" for x
    using that by (cases x)
      (simp add: dec_mapping_claim_def mapping_claim_calls_def mapping_claim_fits_def dp_finish_def emit_simps decode_simps)
qed (rule mapping_claim_fitsI mapping_claim_fits_wf, assumption+)+

section \<open>Ontology modules\<close>

definition ModuleVersion :: string where "ModuleVersion = ''tw.ontology-module/0.1''"

text \<open>
  The regular expression \<open>semanticVersionPattern\<close>: three numbers without leading zeros.
\<close>

definition version_number :: "string \<Rightarrow> bool" where
  "version_number s \<longleftrightarrow> s = ''0'' \<or> (s \<noteq> [] \<and> list_all is_digit s \<and> hd s \<noteq> CHR ''0'')"

definition semanticVersionPattern :: "string \<Rightarrow> bool" where
  "semanticVersionPattern s \<longleftrightarrow>
     (let major = takeWhile (\<lambda>c. c \<noteq> CHR ''.'') s;
          rest1 = dropWhile (\<lambda>c. c \<noteq> CHR ''.'') s;
          minor = takeWhile (\<lambda>c. c \<noteq> CHR ''.'') (tl rest1);
          rest2 = dropWhile (\<lambda>c. c \<noteq> CHR ''.'') (tl rest1)
      in rest1 \<noteq> [] \<and> rest2 \<noteq> [] \<and> version_number major \<and> version_number minor \<and> version_number (tl rest2))"

text \<open>The loop over the sets of names, each with its bounds.\<close>

fun validate_name_sets :: "(string \<times> string list \<times> nat \<times> nat) list \<Rightarrow> error option" where
  "validate_name_sets [] = None"
| "validate_name_sets ((name, names, maximum, minimum) # rest) = first_err [
     fail_if (length names < minimum) (invalid (name @ '' requires more items'')),
     validateSortedUniqueText name names maximum,
     validate_name_sets rest]"

record ontology_module =
  om_Version :: string
  om_ModuleID :: string
  om_SemanticVersion :: string
  om_Status :: string
  om_Imports :: "string list"
  om_ConceptIDs :: "string list"
  om_FrameTypeIDs :: "string list"
  om_RoleIDs :: "string list"
  om_MappingClaimDigests :: "byte list list"
  om_QueryTemplateIDs :: "string list"
  om_VisualizationIDs :: "string list"
  om_SourceArtifactDigest :: "byte list"
  om_ReviewDecisionDigest :: opt_digest

definition OntologyModuleManifest_Validate :: "ontology_module \<Rightarrow> error option" where
  "OntologyModuleManifest_Validate m = first_err [
     fail_if (om_Version m \<noteq> ModuleVersion) (invalid ''module version''),
     validateIdentifier ''module ID'' (om_ModuleID m),
     fail_if (\<not> semanticVersionPattern (om_SemanticVersion m))
       (invalid ''module semantic version must be MAJOR.MINOR.PATCH''),
     validateEnum ''module status'' (om_Status m)
       [''draft'', ''reviewed'', ''admitted'', ''deprecated'', ''superseded''],
     validate_name_sets [
       (''module imports'', om_Imports m, 64, 0),
       (''module concepts'', om_ConceptIDs m, 4096, 1),
       (''module frame types'', om_FrameTypeIDs m, 512, 0),
       (''module roles'', om_RoleIDs m, 4096, 0),
       (''module query templates'', om_QueryTemplateIDs m, 256, 0),
       (''module visualizations'', om_VisualizationIDs m, 256, 0)],
     validateSortedUniqueDigests ''module mapping claims'' (om_MappingClaimDigests m) 4096 0,
     validateOptionalDigest ''module review decision'' (om_ReviewDecisionDigest m),
     fail_if (om_Status m = ''draft'' \<and> od_Present (om_ReviewDecisionDigest m))
       (invalid ''draft module cannot carry a review decision''),
     fail_if (om_Status m \<noteq> ''draft'' \<and> \<not> od_Present (om_ReviewDecisionDigest m))
       (invalid ''released module requires a review decision'')]"

definition ontology_module_calls :: "ontology_module \<Rightarrow> enc_call list" where
  "ontology_module_calls x =
     [CArray 14]
     @ [CText (om_Version x)]
     @ [CText (om_ModuleID x)]
     @ [CText (om_SemanticVersion x)]
     @ [CText (om_Status x)]
     @ encodeTextSet (om_Imports x)
     @ encodeTextSet (om_ConceptIDs x)
     @ encodeTextSet (om_FrameTypeIDs x)
     @ encodeTextSet (om_RoleIDs x)
     @ encodeDigestSet (om_MappingClaimDigests x)
     @ encodeTextSet (om_QueryTemplateIDs x)
     @ encodeTextSet (om_VisualizationIDs x)
     @ enc_digest (om_SourceArtifactDigest x)
     @ encodeOptionalDigest (om_ReviewDecisionDigest x)
     @ [CArray 0]"

definition dec_ontology_module :: "ontology_module parser" where
  "dec_ontology_module =
     dbind (expect_Array 14 (invalid ''ontology module array'')) (\<lambda>_.
     dbind (dec_Text (word_of_nat MaxIdentifier)) (\<lambda>version.
     dbind (dec_Text (word_of_nat MaxIdentifier)) (\<lambda>moduleID.
     dbind (dec_Text 64) (\<lambda>semanticVersion.
     dbind (dec_Text (word_of_nat MaxIdentifier)) (\<lambda>status.
     dbind (decodeTextSet 64 0) (\<lambda>imports.
     dbind (decodeTextSet 4096 1) (\<lambda>conceptIDs.
     dbind (decodeTextSet 512 0) (\<lambda>frameTypeIDs.
     dbind (decodeTextSet 4096 0) (\<lambda>roleIDs.
     dbind (decodeDigestSet 4096 0) (\<lambda>mappingClaimDigests.
     dbind (decodeTextSet 256 0) (\<lambda>queryTemplateIDs.
     dbind (decodeTextSet 256 0) (\<lambda>visualizationIDs.
     dbind dp_decodeDigest (\<lambda>sourceArtifactDigest.
     dbind decodeOptionalDigest (\<lambda>reviewDecisionDigest.
     dbind expectEmptyExtensions (\<lambda>_.
     dbind dp_finish (\<lambda>_.
     dret \<lparr>om_Version = version, om_ModuleID = moduleID,
           om_SemanticVersion = semanticVersion, om_Status = status, om_Imports = imports,
           om_ConceptIDs = conceptIDs, om_FrameTypeIDs = frameTypeIDs, om_RoleIDs = roleIDs,
           om_MappingClaimDigests = mappingClaimDigests, om_QueryTemplateIDs = queryTemplateIDs,
           om_VisualizationIDs = visualizationIDs, om_SourceArtifactDigest = sourceArtifactDigest,
           om_ReviewDecisionDigest = reviewDecisionDigest\<rparr>))))))))))))))))"

definition MarshalOntologyModule :: "ontology_module \<Rightarrow> error + byte list" where
  "MarshalOntologyModule x = after (OntologyModuleManifest_Validate x) (boundedEncoding (ontology_module_calls x))"

definition UnmarshalOntologyModule :: "byte list \<Rightarrow> error + ontology_module" where
  "UnmarshalOntologyModule bs =
     ebind (checkedDocument bs MaxDocumentBytes dec_ontology_module) (\<lambda>x. after (OntologyModuleManifest_Validate x) (Inr x))"

definition ontology_module_fits :: "ontology_module \<Rightarrow> bool" where
  "ontology_module_fits x \<longleftrightarrow>
     text_ok 512 (om_Version x) \<and>
     text_ok 512 (om_ModuleID x) \<and>
     text_ok 64 (om_SemanticVersion x) \<and>
     text_ok 512 (om_Status x) \<and>
     text_set_ok 64 0 (om_Imports x) \<and>
     text_set_ok 4096 1 (om_ConceptIDs x) \<and>
     text_set_ok 512 0 (om_FrameTypeIDs x) \<and>
     text_set_ok 4096 0 (om_RoleIDs x) \<and>
     digest_set_ok 4096 0 (om_MappingClaimDigests x) \<and>
     text_set_ok 256 0 (om_QueryTemplateIDs x) \<and>
     text_set_ok 256 0 (om_VisualizationIDs x) \<and>
     digest32 (om_SourceArtifactDigest x) \<and>
     opt_digest_ok (om_ReviewDecisionDigest x)"

text \<open>The validator does not bound the length of a version, the parser reads at most 64 octets.\<close>

definition ontology_module_wf :: "ontology_module \<Rightarrow> bool" where
  "ontology_module_wf m \<longleftrightarrow> length (om_SemanticVersion m) \<le> 64 \<and> list_all digest32 (om_MappingClaimDigests m) \<and>
     digest32 (om_SourceArtifactDigest m) \<and> opt_digest32 (om_ReviewDecisionDigest m)"

lemma version_number_ascii: "version_number s \<Longrightarrow> is_ascii s"
  by (auto simp: version_number_def is_ascii_def list_all_iff is_digit_ascii)

lemma semanticVersionPattern_ascii:
  assumes "semanticVersionPattern s"
  shows "is_ascii s"
proof -
  let ?p = "\<lambda>c. c \<noteq> CHR ''.''"
  have split: "is_ascii t" if "is_ascii (takeWhile ?p t)" "dropWhile ?p t \<noteq> []" "is_ascii (tl (dropWhile ?p t))"
    for t :: string
  proof -
    have "hd (dropWhile ?p t) = CHR ''.''" using hd_dropWhile [OF that(2)] by simp
    then have "dropWhile ?p t = CHR ''.'' # tl (dropWhile ?p t)" using that(2) by (metis list.collapse)
    then have "t = takeWhile ?p t @ CHR ''.'' # tl (dropWhile ?p t)" using takeWhile_dropWhile_id [of ?p t] by metis
    moreover have "is_ascii (takeWhile ?p t @ CHR ''.'' # tl (dropWhile ?p t))"
      using that(1,3) by (simp add: is_ascii_def)
    ultimately show ?thesis by simp
  qed
  note v = assms [unfolded semanticVersionPattern_def Let_def]
  from v have t: "is_ascii (tl (dropWhile ?p s))"
    by (intro split [of "tl (dropWhile ?p s)"] version_number_ascii) simp_all
  from v show ?thesis by (intro split [OF version_number_ascii _ t]) simp_all
qed

lemma version_ok: "semanticVersionPattern s \<Longrightarrow> length s \<le> 64 \<Longrightarrow> text_ok 64 s"
  by (simp add: text_ok_def utf8_valid_string_ascii semanticVersionPattern_ascii)

lemma validate_name_sets_fit:
  "validate_name_sets items = None \<Longrightarrow> (name, names, k, m) \<in> set items \<Longrightarrow> k < 2 ^ 64 \<Longrightarrow> text_set_ok k m names"
  by (induction items rule: validate_name_sets.induct)
    (auto simp: first_err_None fail_if_None not_less intro: text_set_okI)

lemma ontology_module_fitsI:
  assumes "OntologyModuleManifest_Validate m = None" and "ontology_module_wf m"
  shows "ontology_module_fits m"
proof -
  note v = assms(1) [unfolded OntologyModuleManifest_Validate_def first_err_None fail_if_None]
  from v have sets: "validate_name_sets [
       (''module imports'', om_Imports m, 64, 0),
       (''module concepts'', om_ConceptIDs m, 4096, 1),
       (''module frame types'', om_FrameTypeIDs m, 512, 0),
       (''module roles'', om_RoleIDs m, 4096, 0),
       (''module query templates'', om_QueryTemplateIDs m, 256, 0),
       (''module visualizations'', om_VisualizationIDs m, 256, 0)] = None" by blast
  have "text_ok 512 (om_Version m)" using v by (simp add: ModuleVersion_def text_ok_def)
  moreover have "text_ok 512 (om_ModuleID m)" using v identifier_ok by blast
  moreover have "text_ok 64 (om_SemanticVersion m)" using v assms(2) version_ok by (simp add: ontology_module_wf_def)
  moreover have "text_ok 512 (om_Status m)"
    using v by (elim conjE, elim enum_ok, simp add: text_ok_def)
  moreover have "text_set_ok 64 0 (om_Imports m)" "text_set_ok 4096 1 (om_ConceptIDs m)"
    "text_set_ok 512 0 (om_FrameTypeIDs m)" "text_set_ok 4096 0 (om_RoleIDs m)"
    "text_set_ok 256 0 (om_QueryTemplateIDs m)" "text_set_ok 256 0 (om_VisualizationIDs m)"
    by (rule validate_name_sets_fit [OF sets], (rule list.set_intros(1) | rule list.set_intros(2))+, simp)+
  moreover have "digest_set_ok 4096 0 (om_MappingClaimDigests m)" "opt_digest_ok (om_ReviewDecisionDigest m)"
    using v assms(2) by (auto simp: ontology_module_wf_def intro: digest_set_okI opt_digest_okI)
  ultimately show ?thesis using assms(2) by (simp add: ontology_module_fits_def ontology_module_wf_def)
qed

lemma ontology_module_fits_wf: "ontology_module_fits m \<Longrightarrow> ontology_module_wf m"
  by (auto simp: ontology_module_fits_def ontology_module_wf_def digest_set_ok_def opt_digest_ok32 text_ok_def)

interpretation ontology_module_doc: document MarshalOntologyModule UnmarshalOntologyModule ontology_module_wf
proof (rule dp_document_fitsI)
  show "MarshalOntologyModule x = after (OntologyModuleManifest_Validate x) (boundedEncoding (ontology_module_calls x))" for x
    by (rule MarshalOntologyModule_def)
  show "UnmarshalOntologyModule b = ebind (checkedDocument b MaxDocumentBytes dec_ontology_module)
      (\<lambda>x. after (OntologyModuleManifest_Validate x) (Inr x))" for b
    by (rule UnmarshalOntologyModule_def)
  show "dec_sound dec_ontology_module (\<lambda>x c. ontology_module_fits x \<and> c = emit (ontology_module_calls x))"
    unfolding dec_ontology_module_def dp_finish_def dataplane_limits of_nat_numeral
    apply (rule dec_sound_bind, rule sound_intros)+
    apply (rule dec_sound_bind, rule dec_sound_finish, rule dec_sound_ret)
    apply (simp add: ontology_module_calls_def ontology_module_fits_def emit_simps)
    done
  show "ends_input dec_ontology_module"
    unfolding dec_ontology_module_def dp_finish_def dataplane_limits of_nat_numeral
    by (rule ends_input_bind, rule sound_intros)+ (rule ends_input_finish)
  show "dec_ontology_module (dec_at [] (emit (ontology_module_calls x))) = Inr (x, dec_at (emit (ontology_module_calls x)) [])"
    if "ontology_module_fits x" for x
    using that by (cases x)
      (simp add: dec_ontology_module_def ontology_module_calls_def ontology_module_fits_def dp_finish_def emit_simps decode_simps)
qed (rule ontology_module_fitsI ontology_module_fits_wf, assumption+)+

section \<open>Semantic universes\<close>

definition UniverseVersion :: string where "UniverseVersion = ''tw.semantic-universe/0.1''"

record semantic_universe =
  su_Version :: string
  su_UniverseID :: string
  su_SemanticVersion :: string
  su_Title :: string
  su_ModuleIDs :: "string list"
  su_FrameTypeIDs :: "string list"
  su_SourceOriginIDs :: "string list"
  su_MappingClaimDigests :: "byte list list"
  su_MaterializedViewIDs :: "string list"
  su_QueryTemplateIDs :: "string list"
  su_VisualizationIDs :: "string list"
  su_UpdatePolicyID :: string
  su_EvaluationSuiteID :: string
  su_ModuleSetDigest :: "byte list"
  su_CompiledAt :: string

definition SemanticUniverse_Validate :: "semantic_universe \<Rightarrow> error option" where
  "SemanticUniverse_Validate u = first_err [
     fail_if (su_Version u \<noteq> UniverseVersion) (invalid ''universe version''),
     validateIdentifier ''universe ID'' (su_UniverseID u),
     validateIdentifier ''update policy ID'' (su_UpdatePolicyID u),
     validateIdentifier ''evaluation suite ID'' (su_EvaluationSuiteID u),
     fail_if (\<not> semanticVersionPattern (su_SemanticVersion u))
       (invalid ''universe semantic version must be MAJOR.MINOR.PATCH''),
     dp_validateText ''universe title'' (su_Title u) MaxShortText False,
     validate_name_sets [
       (''universe modules'', su_ModuleIDs u, 64, 1),
       (''universe frame types'', su_FrameTypeIDs u, 512, 1),
       (''universe origins'', su_SourceOriginIDs u, 1024, 0),
       (''universe views'', su_MaterializedViewIDs u, 64, 0),
       (''universe query templates'', su_QueryTemplateIDs u, 256, 0),
       (''universe visualizations'', su_VisualizationIDs u, 256, 0)],
     validateSortedUniqueDigests ''universe mappings'' (su_MappingClaimDigests u) 4096 0,
     validateUTCSecond ''universe compiled at'' (su_CompiledAt u)]"

definition semantic_universe_calls :: "semantic_universe \<Rightarrow> enc_call list" where
  "semantic_universe_calls x =
     [CArray 16]
     @ [CText (su_Version x)]
     @ [CText (su_UniverseID x)]
     @ [CText (su_SemanticVersion x)]
     @ [CText (su_Title x)]
     @ encodeTextSet (su_ModuleIDs x)
     @ encodeTextSet (su_FrameTypeIDs x)
     @ encodeTextSet (su_SourceOriginIDs x)
     @ encodeDigestSet (su_MappingClaimDigests x)
     @ encodeTextSet (su_MaterializedViewIDs x)
     @ encodeTextSet (su_QueryTemplateIDs x)
     @ encodeTextSet (su_VisualizationIDs x)
     @ [CText (su_UpdatePolicyID x)]
     @ [CText (su_EvaluationSuiteID x)]
     @ enc_digest (su_ModuleSetDigest x)
     @ [CText (su_CompiledAt x)]
     @ [CArray 0]"

definition dec_semantic_universe :: "semantic_universe parser" where
  "dec_semantic_universe =
     dbind (expect_Array 16 (invalid ''universe array'')) (\<lambda>_.
     dbind (dec_Text (word_of_nat MaxIdentifier)) (\<lambda>version.
     dbind (dec_Text (word_of_nat MaxIdentifier)) (\<lambda>universeID.
     dbind (dec_Text 64) (\<lambda>semanticVersion.
     dbind (dec_Text (word_of_nat MaxShortText)) (\<lambda>title.
     dbind (decodeTextSet 64 1) (\<lambda>moduleIDs.
     dbind (decodeTextSet 512 1) (\<lambda>frameTypeIDs.
     dbind (decodeTextSet 1024 0) (\<lambda>sourceOriginIDs.
     dbind (decodeDigestSet 4096 0) (\<lambda>mappingClaimDigests.
     dbind (decodeTextSet 64 0) (\<lambda>materializedViewIDs.
     dbind (decodeTextSet 256 0) (\<lambda>queryTemplateIDs.
     dbind (decodeTextSet 256 0) (\<lambda>visualizationIDs.
     dbind (dec_Text (word_of_nat MaxIdentifier)) (\<lambda>updatePolicyID.
     dbind (dec_Text (word_of_nat MaxIdentifier)) (\<lambda>evaluationSuiteID.
     dbind dp_decodeDigest (\<lambda>moduleSetDigest.
     dbind (dec_Text 20) (\<lambda>compiledAt.
     dbind expectEmptyExtensions (\<lambda>_.
     dbind dp_finish (\<lambda>_.
     dret \<lparr>su_Version = version, su_UniverseID = universeID,
           su_SemanticVersion = semanticVersion, su_Title = title, su_ModuleIDs = moduleIDs,
           su_FrameTypeIDs = frameTypeIDs, su_SourceOriginIDs = sourceOriginIDs,
           su_MappingClaimDigests = mappingClaimDigests,
           su_MaterializedViewIDs = materializedViewIDs, su_QueryTemplateIDs = queryTemplateIDs,
           su_VisualizationIDs = visualizationIDs, su_UpdatePolicyID = updatePolicyID,
           su_EvaluationSuiteID = evaluationSuiteID, su_ModuleSetDigest = moduleSetDigest,
           su_CompiledAt = compiledAt\<rparr>))))))))))))))))))"

definition MarshalSemanticUniverse :: "semantic_universe \<Rightarrow> error + byte list" where
  "MarshalSemanticUniverse x = after (SemanticUniverse_Validate x) (boundedEncoding (semantic_universe_calls x))"

definition UnmarshalSemanticUniverse :: "byte list \<Rightarrow> error + semantic_universe" where
  "UnmarshalSemanticUniverse bs =
     ebind (checkedDocument bs MaxDocumentBytes dec_semantic_universe) (\<lambda>x. after (SemanticUniverse_Validate x) (Inr x))"

definition semantic_universe_fits :: "semantic_universe \<Rightarrow> bool" where
  "semantic_universe_fits x \<longleftrightarrow>
     text_ok 512 (su_Version x) \<and>
     text_ok 512 (su_UniverseID x) \<and>
     text_ok 64 (su_SemanticVersion x) \<and>
     text_ok 255 (su_Title x) \<and>
     text_set_ok 64 1 (su_ModuleIDs x) \<and>
     text_set_ok 512 1 (su_FrameTypeIDs x) \<and>
     text_set_ok 1024 0 (su_SourceOriginIDs x) \<and>
     digest_set_ok 4096 0 (su_MappingClaimDigests x) \<and>
     text_set_ok 64 0 (su_MaterializedViewIDs x) \<and>
     text_set_ok 256 0 (su_QueryTemplateIDs x) \<and>
     text_set_ok 256 0 (su_VisualizationIDs x) \<and>
     text_ok 512 (su_UpdatePolicyID x) \<and>
     text_ok 512 (su_EvaluationSuiteID x) \<and>
     digest32 (su_ModuleSetDigest x) \<and>
     text_ok 20 (su_CompiledAt x)"

definition semantic_universe_wf :: "semantic_universe \<Rightarrow> bool" where
  "semantic_universe_wf u \<longleftrightarrow> length (su_SemanticVersion u) \<le> 64 \<and> list_all digest32 (su_MappingClaimDigests u) \<and>
     digest32 (su_ModuleSetDigest u)"

lemma semantic_universe_fitsI:
  assumes "SemanticUniverse_Validate u = None" and "semantic_universe_wf u"
  shows "semantic_universe_fits u"
proof -
  note v = assms(1) [unfolded SemanticUniverse_Validate_def first_err_None fail_if_None]
  from v have sets: "validate_name_sets [
       (''universe modules'', su_ModuleIDs u, 64, 1),
       (''universe frame types'', su_FrameTypeIDs u, 512, 1),
       (''universe origins'', su_SourceOriginIDs u, 1024, 0),
       (''universe views'', su_MaterializedViewIDs u, 64, 0),
       (''universe query templates'', su_QueryTemplateIDs u, 256, 0),
       (''universe visualizations'', su_VisualizationIDs u, 256, 0)] = None" by blast
  have "text_ok 512 (su_Version u)" using v by (simp add: UniverseVersion_def text_ok_def)
  moreover have "text_ok 512 (su_UniverseID u)" "text_ok 512 (su_UpdatePolicyID u)" "text_ok 512 (su_EvaluationSuiteID u)"
    using v identifier_ok by blast+
  moreover have "text_ok 64 (su_SemanticVersion u)" using v assms(2) version_ok by (simp add: semantic_universe_wf_def)
  moreover have "text_ok 255 (su_Title u)" "text_ok 20 (su_CompiledAt u)"
    using v utc_second_ok by (auto elim!: text_okI)
  moreover have "text_set_ok 64 1 (su_ModuleIDs u)" "text_set_ok 512 1 (su_FrameTypeIDs u)"
    "text_set_ok 1024 0 (su_SourceOriginIDs u)" "text_set_ok 64 0 (su_MaterializedViewIDs u)"
    "text_set_ok 256 0 (su_QueryTemplateIDs u)" "text_set_ok 256 0 (su_VisualizationIDs u)"
    by (rule validate_name_sets_fit [OF sets], (rule list.set_intros(1) | rule list.set_intros(2))+, simp)+
  moreover have "digest_set_ok 4096 0 (su_MappingClaimDigests u)"
    using v assms(2) by (auto simp: semantic_universe_wf_def intro: digest_set_okI)
  ultimately show ?thesis using assms(2) by (simp add: semantic_universe_fits_def semantic_universe_wf_def)
qed

lemma semantic_universe_fits_wf: "semantic_universe_fits u \<Longrightarrow> semantic_universe_wf u"
  by (auto simp: semantic_universe_fits_def semantic_universe_wf_def digest_set_ok_def text_ok_def)

interpretation semantic_universe_doc: document MarshalSemanticUniverse UnmarshalSemanticUniverse semantic_universe_wf
proof (rule dp_document_fitsI)
  show "MarshalSemanticUniverse x = after (SemanticUniverse_Validate x) (boundedEncoding (semantic_universe_calls x))" for x
    by (rule MarshalSemanticUniverse_def)
  show "UnmarshalSemanticUniverse b = ebind (checkedDocument b MaxDocumentBytes dec_semantic_universe)
      (\<lambda>x. after (SemanticUniverse_Validate x) (Inr x))" for b
    by (rule UnmarshalSemanticUniverse_def)
  show "dec_sound dec_semantic_universe (\<lambda>x c. semantic_universe_fits x \<and> c = emit (semantic_universe_calls x))"
    unfolding dec_semantic_universe_def dp_finish_def dataplane_limits of_nat_numeral
    apply (rule dec_sound_bind, rule sound_intros)+
    apply (rule dec_sound_bind, rule dec_sound_finish, rule dec_sound_ret)
    apply (simp add: semantic_universe_calls_def semantic_universe_fits_def emit_simps)
    done
  show "ends_input dec_semantic_universe"
    unfolding dec_semantic_universe_def dp_finish_def dataplane_limits of_nat_numeral
    by (rule ends_input_bind, rule sound_intros)+ (rule ends_input_finish)
  show "dec_semantic_universe (dec_at [] (emit (semantic_universe_calls x))) = Inr (x, dec_at (emit (semantic_universe_calls x)) [])"
    if "semantic_universe_fits x" for x
    using that by (cases x)
      (simp add: dec_semantic_universe_def semantic_universe_calls_def semantic_universe_fits_def dp_finish_def emit_simps decode_simps)
qed (rule semantic_universe_fitsI semantic_universe_fits_wf, assumption+)+

section \<open>Properties\<close>

text \<open>A mapping claim survives marshalling and is identified by its octets.\<close>

theorem mapping_claim_accepted:
  "UnmarshalMappingClaim bs = Inr m \<longleftrightarrow> mapping_claim_wf m \<and> MarshalMappingClaim m = Inr bs"
  by (rule mapping_claim_doc.accepted_iff)

lemma dec_universe_long_version:
  assumes v: "SemanticUniverse_Validate u = None" and "64 < length (su_SemanticVersion u)"
    and "length (su_SemanticVersion u) < 2 ^ 64"
  shows "dec_semantic_universe (dec_at [] (emit (semantic_universe_calls u))) = Inl (Msg ''text length exceeds limit'')"
proof -
  have t: "text_ok 512 (su_Version u)" "text_ok 512 (su_UniverseID u)"
    using v identifier_ok by (auto simp: SemanticUniverse_Validate_def first_err_None fail_if_None UniverseVersion_def text_ok_def)
  have "dec_Text 64 (dec_at pre (emit [CText (su_SemanticVersion u)] @ r)) = Inl (Msg ''text length exceeds limit'')"
    for pre r
    using assms(2,3) by (intro dec_Text_too_long) simp_all
  with t show ?thesis
    by (simp add: dec_semantic_universe_def semantic_universe_calls_def emit_simps decode_simps)
qed

text \<open>
  A marshalled universe is read back exactly when its version has at most 64 octets.
  Validation accepts versions of any length, so that universes with longer ones are marshalled
  and then always refused.
\<close>

theorem universe_long_version_unreadable:
  assumes "MarshalSemanticUniverse u = Inr bs"
    and "list_all digest32 (su_MappingClaimDigests u)" and "digest32 (su_ModuleSetDigest u)"
  shows "isOK (UnmarshalSemanticUniverse bs) \<longleftrightarrow> length (su_SemanticVersion u) \<le> 64"
proof (cases "length (su_SemanticVersion u) \<le> 64")
  case True
  with assms semantic_universe_doc.marshal_unmarshal [OF _ assms(1)] show ?thesis
    by (simp add: semantic_universe_wf_def)
next
  case False
  from assms(1) have v: "SemanticUniverse_Validate u = None" and bs: "bs = emit (semantic_universe_calls u)"
    and l: "length bs \<le> MaxDocumentBytes"
    by (auto simp: MarshalSemanticUniverse_def boundedEncoding_def after_Inr Let_def split: if_splits)
  have "length (su_SemanticVersion u) \<le> length (emit (semantic_universe_calls u))"
    by (rule emit_text_member) (simp add: semantic_universe_calls_def)
  then have "length (su_SemanticVersion u) < 2 ^ 64" using l bs by (simp add: dataplane_limits)
  from dec_universe_long_version [OF v _ this] False bs show ?thesis
    by (simp add: UnmarshalSemanticUniverse_def checkedDocument_def run_document_def NewDecoder_at ebind_def)
qed

definition sample_universe :: "string \<Rightarrow> semantic_universe" where
  "sample_universe version = \<lparr>su_Version = UniverseVersion, su_UniverseID = ''u'', su_SemanticVersion = version,
     su_Title = ''t'', su_ModuleIDs = [''m''], su_FrameTypeIDs = [''f''], su_SourceOriginIDs = [],
     su_MappingClaimDigests = [], su_MaterializedViewIDs = [], su_QueryTemplateIDs = [], su_VisualizationIDs = [],
     su_UpdatePolicyID = ''p'', su_EvaluationSuiteID = ''e'', su_ModuleSetDigest = replicate 32 1,
     su_CompiledAt = ''2024-02-29T23:59:59Z''\<rparr>"

definition long_version :: string where
  "long_version = ''1.0.'' @ replicate 70 CHR ''9''"

lemma long_version_facts: "length long_version = 74" "semanticVersionPattern long_version"
  by (simp_all add: long_version_def semanticVersionPattern_def version_number_def is_digit_def Let_def numeral_eq_Suc)

lemma sample_universe_valid: "SemanticUniverse_Validate (sample_universe long_version) = None"
  by (simp add: SemanticUniverse_Validate_def sample_universe_def first_err_None fail_if_None accept_simps
      UniverseVersion_def long_version_facts canonical_utc_second_example utf8_valid_string_ascii is_ascii_def)

lemma sample_universe_marshals:
  "MarshalSemanticUniverse (sample_universe long_version) =
     Inr (emit (semantic_universe_calls (sample_universe long_version)))"
proof -
  have "length (emit (semantic_universe_calls (sample_universe long_version))) \<le> MaxDocumentBytes"
    by (rule order_trans [OF emit_length])
      (simp add: sample_universe_def semantic_universe_calls_def encodeTextSet_def encodeDigestSet_def enc_counted_def
        enc_digest_def UniverseVersion_def long_version_facts dataplane_limits)
  moreover have "emit (semantic_universe_calls (sample_universe long_version)) \<noteq> []"
    by (rule emit_nonempty) (simp_all add: semantic_universe_calls_def)
  ultimately show ?thesis
    by (simp add: MarshalSemanticUniverse_def boundedEncoding_def sample_universe_valid Let_def)
qed

theorem universe_long_version_unreadable_witness:
  "MarshalSemanticUniverse (sample_universe long_version) =
     Inr (emit (semantic_universe_calls (sample_universe long_version))) \<and>
   \<not> isOK (UnmarshalSemanticUniverse (emit (semantic_universe_calls (sample_universe long_version))))"
  using sample_universe_marshals universe_long_version_unreadable [OF sample_universe_marshals]
  by (simp add: sample_universe_def long_version_facts digest32_def)

end
