(* ===== verification/Snapshot.thy ===== *)
theory Snapshot
  imports Packet_Batch File_System
begin

text \<open>
  \<open>internal/dataplane/snapshot.go\<close>: the manifest of an immutable snapshot, and the paths
  it may name.
\<close>

definition SnapshotVersion :: string where "SnapshotVersion = ''tw.semantic-snapshot-manifest/0.1''"
definition MaxSnapshotManifestBytes :: nat where "MaxSnapshotManifestBytes = 4194304"
definition MaxSnapshotArtifacts :: nat where "MaxSnapshotArtifacts = 16384"
definition MaxSnapshotArtifactBytes :: uint64 where "MaxSnapshotArtifactBytes = 4294967296"
definition MaxSnapshotBytes :: uint64 where "MaxSnapshotBytes = 8589934592"

lemmas snapshot_limits = MaxSnapshotManifestBytes_def MaxSnapshotArtifacts_def MaxSnapshotArtifactBytes_def
  MaxSnapshotBytes_def

record snapshot_artifact =
  sa_Path :: string
  sa_Digest :: "byte list"
  sa_Size :: uint64
  sa_MediaType :: string
  sa_Role :: string

record snapshot_view =
  sv_ID :: string
  sv_DefinitionDigest :: "byte list"
  sv_ArtifactDigest :: "byte list"
  sv_RowCount :: uint64
  sv_ThroughSequence :: uint64

record snapshot_counts =
  sc_Origins :: uint64
  sc_Concepts :: uint64
  sc_Mappings :: uint64
  sc_Packets :: uint64
  sc_Deltas :: uint64
  sc_Views :: uint64
  sc_ProofArtifacts :: uint64
  sc_EconomicEvents :: uint64

record snapshot_manifest =
  sm_Version :: string
  sm_Channel :: string
  sm_CreatedAt :: string
  sm_SourceRevision :: string
  sm_CompilerContractDigest :: "byte list"
  sm_CompilerVersion :: string
  sm_AtlasSelectionDigest :: "byte list"
  sm_CanonModuleSetDigest :: "byte list"
  sm_PreviousSnapshotID :: opt_digest
  sm_EvidenceClasses :: "string list"
  sm_Artifacts :: "snapshot_artifact list"
  sm_Views :: "snapshot_view list"
  sm_Counts :: snapshot_counts
  sm_HighestPacketSequence :: uint64
  sm_HighestDeltaSequence :: uint64
  sm_TotalArtifactBytes :: uint64
  sm_BuildReportDigest :: "byte list"

section \<open>Paths\<close>

definition unsafe_segment :: "string \<Rightarrow> bool" where
  "unsafe_segment segment \<longleftrightarrow> segment = [] \<or> segment = ''.'' \<or> segment = ''..''"

definition control_char :: "char \<Rightarrow> bool" where
  "control_char c \<longleftrightarrow> of_char c < (32 :: nat) \<or> of_char c = (127 :: nat)"

text \<open>\<open>strings.Contains\<close>\<close>

fun contains_text :: "string \<Rightarrow> string \<Rightarrow> bool" where
  "contains_text [] w \<longleftrightarrow> w = []"
| "contains_text (c # s) w \<longleftrightarrow> take (length w) (c # s) = w \<or> contains_text s w"

fun validate_segments :: "string list \<Rightarrow> error option" where
  "validate_segments [] = None"
| "validate_segments (segment # rest) = first_err [
     fail_if (unsafe_segment segment) (invalid ''unsafe snapshot path segment''),
     fail_if (list_ex control_char segment) (invalid ''control character in snapshot path''),
     fail_if (contains_text (to_lower segment) ''%2f'' \<or> contains_text (to_lower segment) ''%5c'')
       (invalid ''encoded separator in snapshot path''),
     validate_segments rest]"

definition ValidateSnapshotPath :: "string \<Rightarrow> error option" where
  "ValidateSnapshotPath value = first_err [
     fail_if (value = [] \<or> length value > MaxShortText \<or> \<not> utf8_valid_string value \<or> CHR 0x00 \<in> set value \<or>
              CHR 0x5C \<in> set value \<or> take 1 value = ''/'' \<or> last value = CHR ''/'' \<or> filepath_Clean value \<noteq> value)
       (invalid ''unsafe snapshot path''),
     fail_if (value = ''manifest.cbor'' \<or> value = ''manifest.json'' \<or> take 9 value = ''channels/'')
       (invalid ''reserved snapshot path''),
     validate_segments (path_split value)]"

section \<open>Validation\<close>

definition containsDigest :: "byte list list \<Rightarrow> byte list \<Rightarrow> bool" where
  "containsDigest values wanted \<longleftrightarrow> wanted \<in> set values"

definition required_roles :: "string list" where
  "required_roles = [''origin_catalog'', ''concepts'', ''mappings'', ''packet_batch'', ''proof_index'', ''build_report'']"

definition artifact_roles :: "string list" where
  "artifact_roles = [''origin_catalog'', ''concepts'', ''mappings'', ''packet_batch'', ''delta_batch'',
     ''materialized_view'', ''search_index'', ''proof_index'', ''economic_summary'', ''build_report'']"

text \<open>The variables of the loop over the artifacts; \<open>sn_required\<close> is the set of required roles seen.\<close>

record artifact_scan =
  sn_required :: "string set"
  sn_roleDigests :: "string \<Rightarrow> byte list list"
  sn_buildReports :: nat
  sn_materializedArtifacts :: nat
  sn_total :: uint64

definition scan_start :: artifact_scan where
  "scan_start = \<lparr>sn_required = {}, sn_roleDigests = (\<lambda>_. []), sn_buildReports = 0, sn_materializedArtifacts = 0,
     sn_total = 0\<rparr>"

definition scan_artifact :: "snapshot_artifact \<Rightarrow> artifact_scan \<Rightarrow> artifact_scan" where
  "scan_artifact a s = s\<lparr>
     sn_required := (if sa_Role a \<in> set required_roles then insert (sa_Role a) (sn_required s) else sn_required s),
     sn_roleDigests := (sn_roleDigests s)(sa_Role a := sn_roleDigests s (sa_Role a) @ [sa_Digest a]),
     sn_buildReports := sn_buildReports s + (if sa_Role a = ''build_report'' then 1 else 0),
     sn_materializedArtifacts := sn_materializedArtifacts s + (if sa_Role a = ''materialized_view'' then 1 else 0),
     sn_total := sn_total s + sa_Size a\<rparr>"

fun scan_artifacts :: "string option \<Rightarrow> artifact_scan \<Rightarrow> snapshot_artifact list \<Rightarrow> error + artifact_scan" where
  "scan_artifacts previous s [] = Inr s"
| "scan_artifacts previous s (a # as) =
     after (first_err [
       wrap_err ''artifact'' (ValidateSnapshotPath (sa_Path a)),
       fail_if (case previous of None \<Rightarrow> False | Some p \<Rightarrow> \<not> p < sa_Path a)
         (invalid ''artifacts must be strictly sorted by path''),
       fail_if (sa_Size a = 0 \<or> sa_Size a > MaxSnapshotArtifactBytes) (invalid ''artifact size outside bounds''),
       fail_if (sn_total s > MaxSnapshotBytes - sa_Size a) (invalid ''snapshot byte total overflow or limit''),
       dp_validateText ''artifact media type'' (sa_MediaType a) MaxShortText False,
       validateEnum ''artifact role'' (sa_Role a) artifact_roles])
     (scan_artifacts (Some (sa_Path a)) (scan_artifact a s) as)"

fun validate_views :: "byte list list \<Rightarrow> uint64 \<Rightarrow> string option \<Rightarrow> snapshot_view list \<Rightarrow> error option" where
  "validate_views materializations highest previous [] = None"
| "validate_views materializations highest previous (v # vs) = first_err [
     validateIdentifier ''view ID'' (sv_ID v),
     fail_if (case previous of None \<Rightarrow> False | Some p \<Rightarrow> \<not> p < sv_ID v) (invalid ''views must be strictly sorted by ID''),
     fail_if (sv_RowCount v > 10000000) (invalid ''view row count exceeds bound''),
     fail_if (\<not> containsDigest materializations (sv_ArtifactDigest v))
       (invalid ''view artifact is not materialized_view role''),
     fail_if (sv_ThroughSequence v > highest) (invalid ''view sequence exceeds snapshot packet sequence''),
     validate_views materializations highest (Some (sv_ID v)) vs]"

definition validate_scan :: "snapshot_manifest \<Rightarrow> artifact_scan \<Rightarrow> error option" where
  "validate_scan m s = first_err [
     fail_if (sn_total s \<noteq> sm_TotalArtifactBytes m \<or> sn_total s = 0 \<or> sn_total s > MaxSnapshotBytes)
       (invalid ''declared snapshot bytes do not reconcile''),
     fail_if (\<not> list_all (\<lambda>role. role \<in> sn_required s) required_roles) (invalid ''required snapshot role absent''),
     fail_if (sn_buildReports s \<noteq> 1 \<or> sn_materializedArtifacts s > 32)
       (invalid ''snapshot requires one build report and at most 32 materialized artifacts''),
     fail_if (\<not> containsDigest (sn_roleDigests s ''build_report'') (sm_BuildReportDigest m))
       (invalid ''build-report digest is not a build_report artifact''),
     fail_if (length (sm_Views m) > 32 \<or> sc_Views (sm_Counts m) \<noteq> word_of_nat (length (sm_Views m)))
       (invalid ''view count does not reconcile''),
     validate_views (sn_roleDigests s ''materialized_view'') (sm_HighestPacketSequence m) None (sm_Views m)]"

definition validate_counts :: "snapshot_counts \<Rightarrow> error option" where
  "validate_counts c =
     fail_if (sc_Origins c > 1000000 \<or> sc_Concepts c > 10000000 \<or> sc_Mappings c > 10000000 \<or>
       sc_Packets c > 1000000000 \<or> sc_Deltas c > 1000000000 \<or> sc_ProofArtifacts c > 1000000000 \<or>
       sc_EconomicEvents c > 1000000000) (invalid ''snapshot count exceeds protocol bound'')"

definition validate_snapshot_head :: "snapshot_manifest \<Rightarrow> error option" where
  "validate_snapshot_head m = first_err [
     fail_if (sm_Version m \<noteq> SnapshotVersion) (invalid ''snapshot version''),
     validateIdentifier ''channel'' (sm_Channel m),
     validateIdentifier ''source revision'' (sm_SourceRevision m),
     validateIdentifier ''compiler version'' (sm_CompilerVersion m),
     validateUTCSecond ''snapshot creation time'' (sm_CreatedAt m),
     validateOptionalDigest ''previous snapshot ID'' (sm_PreviousSnapshotID m),
     fail_if (sm_EvidenceClasses m = [] \<or> length (sm_EvidenceClasses m) > 16)
       (invalid ''evidence-class count outside 1..16''),
     validateSortedUniqueText ''evidence classes'' (sm_EvidenceClasses m) 16,
     fail_if (sm_Artifacts m = [] \<or> length (sm_Artifacts m) > MaxSnapshotArtifacts)
       (invalid ''snapshot artifact count outside its range'')]"

definition SnapshotManifest_Validate :: "snapshot_manifest \<Rightarrow> error option" where
  "SnapshotManifest_Validate m = first_err [
     validate_snapshot_head m,
     (case scan_artifacts None scan_start (sm_Artifacts m) of
        Inl e \<Rightarrow> Some e
      | Inr s \<Rightarrow> validate_scan m s),
     validate_counts (sm_Counts m)]"

section \<open>Canonical form\<close>

definition snapshot_artifact_calls :: "snapshot_artifact \<Rightarrow> enc_call list" where
  "snapshot_artifact_calls x =
     [CArray 5]
     @ [CText (sa_Path x)]
     @ enc_digest (sa_Digest x)
     @ [CUint (sa_Size x)]
     @ [CText (sa_MediaType x)]
     @ [CText (sa_Role x)]"

definition dec_snapshot_artifact :: "snapshot_artifact parser" where
  "dec_snapshot_artifact =
     dbind (expect_Array 5 (invalid ''snapshot artifact array'')) (\<lambda>_.
     dbind (dec_Text (word_of_nat MaxShortText)) (\<lambda>path.
     dbind dp_decodeDigest (\<lambda>digest.
     dbind dec_Uint (\<lambda>size.
     dbind (dec_Text (word_of_nat MaxShortText)) (\<lambda>mediaType.
     dbind (dec_Text (word_of_nat MaxIdentifier)) (\<lambda>role.
     dret \<lparr>sa_Path = path, sa_Digest = digest, sa_Size = size, sa_MediaType = mediaType,
           sa_Role = role\<rparr>))))))"

definition snapshot_view_calls :: "snapshot_view \<Rightarrow> enc_call list" where
  "snapshot_view_calls x =
     [CArray 5]
     @ [CText (sv_ID x)]
     @ enc_digest (sv_DefinitionDigest x)
     @ enc_digest (sv_ArtifactDigest x)
     @ [CUint (sv_RowCount x)]
     @ [CUint (sv_ThroughSequence x)]"

definition dec_snapshot_view :: "snapshot_view parser" where
  "dec_snapshot_view =
     dbind (expect_Array 5 (invalid ''snapshot view array'')) (\<lambda>_.
     dbind (dec_Text (word_of_nat MaxIdentifier)) (\<lambda>id.
     dbind dp_decodeDigest (\<lambda>definitionDigest.
     dbind dp_decodeDigest (\<lambda>artifactDigest.
     dbind dec_Uint (\<lambda>rowCount.
     dbind dec_Uint (\<lambda>throughSequence.
     dret \<lparr>sv_ID = id, sv_DefinitionDigest = definitionDigest,
           sv_ArtifactDigest = artifactDigest, sv_RowCount = rowCount,
           sv_ThroughSequence = throughSequence\<rparr>))))))"

definition snapshot_counts_calls :: "snapshot_counts \<Rightarrow> enc_call list" where
  "snapshot_counts_calls x =
     [CArray 8]
     @ [CUint (sc_Origins x)]
     @ [CUint (sc_Concepts x)]
     @ [CUint (sc_Mappings x)]
     @ [CUint (sc_Packets x)]
     @ [CUint (sc_Deltas x)]
     @ [CUint (sc_Views x)]
     @ [CUint (sc_ProofArtifacts x)]
     @ [CUint (sc_EconomicEvents x)]"

definition dec_snapshot_counts :: "snapshot_counts parser" where
  "dec_snapshot_counts =
     dbind (expect_Array 8 (invalid ''snapshot counts array'')) (\<lambda>_.
     dbind dec_Uint (\<lambda>origins.
     dbind dec_Uint (\<lambda>concepts.
     dbind dec_Uint (\<lambda>mappings.
     dbind dec_Uint (\<lambda>packets.
     dbind dec_Uint (\<lambda>deltas.
     dbind dec_Uint (\<lambda>views.
     dbind dec_Uint (\<lambda>proofArtifacts.
     dbind dec_Uint (\<lambda>economicEvents.
     dret \<lparr>sc_Origins = origins, sc_Concepts = concepts, sc_Mappings = mappings,
           sc_Packets = packets, sc_Deltas = deltas, sc_Views = views,
           sc_ProofArtifacts = proofArtifacts, sc_EconomicEvents = economicEvents\<rparr>)))))))))"

definition snapshot_manifest_calls :: "snapshot_manifest \<Rightarrow> enc_call list" where
  "snapshot_manifest_calls x =
     [CArray 18]
     @ [CText (sm_Version x)]
     @ [CText (sm_Channel x)]
     @ [CText (sm_CreatedAt x)]
     @ [CText (sm_SourceRevision x)]
     @ enc_digest (sm_CompilerContractDigest x)
     @ [CText (sm_CompilerVersion x)]
     @ enc_digest (sm_AtlasSelectionDigest x)
     @ enc_digest (sm_CanonModuleSetDigest x)
     @ encodeOptionalDigest (sm_PreviousSnapshotID x)
     @ encodeTextSet (sm_EvidenceClasses x)
     @ enc_counted snapshot_artifact_calls (sm_Artifacts x)
     @ enc_counted snapshot_view_calls (sm_Views x)
     @ snapshot_counts_calls (sm_Counts x)
     @ [CUint (sm_HighestPacketSequence x)]
     @ [CUint (sm_HighestDeltaSequence x)]
     @ [CUint (sm_TotalArtifactBytes x)]
     @ enc_digest (sm_BuildReportDigest x)
     @ [CArray 0]"

definition dec_snapshot_manifest :: "snapshot_manifest parser" where
  "dec_snapshot_manifest =
     dbind (expect_Array 18 (invalid ''snapshot manifest array'')) (\<lambda>_.
     dbind (dec_Text (word_of_nat MaxIdentifier)) (\<lambda>version.
     dbind (dec_Text (word_of_nat MaxIdentifier)) (\<lambda>channel.
     dbind (dec_Text 20) (\<lambda>createdAt.
     dbind (dec_Text (word_of_nat MaxIdentifier)) (\<lambda>sourceRevision.
     dbind dp_decodeDigest (\<lambda>compilerContractDigest.
     dbind (dec_Text (word_of_nat MaxIdentifier)) (\<lambda>compilerVersion.
     dbind dp_decodeDigest (\<lambda>atlasSelectionDigest.
     dbind dp_decodeDigest (\<lambda>canonModuleSetDigest.
     dbind decodeOptionalDigest (\<lambda>previousSnapshotID.
     dbind (decodeTextSet 16 1) (\<lambda>evidenceClasses.
     dbind (dec_counted 1 16384 (invalid ''snapshot artifact count'') dec_snapshot_artifact) (\<lambda>artifacts.
     dbind (dec_counted 0 32 (invalid ''snapshot view count'') dec_snapshot_view) (\<lambda>views.
     dbind dec_snapshot_counts (\<lambda>counts.
     dbind dec_Uint (\<lambda>highestPacketSequence.
     dbind dec_Uint (\<lambda>highestDeltaSequence.
     dbind dec_Uint (\<lambda>totalArtifactBytes.
     dbind dp_decodeDigest (\<lambda>buildReportDigest.
     dbind expectEmptyExtensions (\<lambda>_.
     dbind dp_finish (\<lambda>_.
     dret \<lparr>sm_Version = version, sm_Channel = channel, sm_CreatedAt = createdAt,
           sm_SourceRevision = sourceRevision, sm_CompilerContractDigest = compilerContractDigest,
           sm_CompilerVersion = compilerVersion, sm_AtlasSelectionDigest = atlasSelectionDigest,
           sm_CanonModuleSetDigest = canonModuleSetDigest,
           sm_PreviousSnapshotID = previousSnapshotID, sm_EvidenceClasses = evidenceClasses,
           sm_Artifacts = artifacts, sm_Views = views, sm_Counts = counts,
           sm_HighestPacketSequence = highestPacketSequence,
           sm_HighestDeltaSequence = highestDeltaSequence,
           sm_TotalArtifactBytes = totalArtifactBytes, sm_BuildReportDigest = buildReportDigest\<rparr>))))))))))))))))))))"

definition MarshalSnapshotManifest :: "snapshot_manifest \<Rightarrow> error + byte list" where
  "MarshalSnapshotManifest m = after (SnapshotManifest_Validate m)
     (let encoded = emit (snapshot_manifest_calls m) in
      if length encoded > MaxSnapshotManifestBytes then Inl (invalid ''snapshot manifest exceeds its bound'')
      else Inr encoded)"

definition UnmarshalSnapshotManifest :: "byte list \<Rightarrow> error + snapshot_manifest" where
  "UnmarshalSnapshotManifest bs =
     ebind (checkedDocument bs MaxSnapshotManifestBytes dec_snapshot_manifest)
       (\<lambda>m. after (SnapshotManifest_Validate m) (Inr m))"

section \<open>The manifest as a document\<close>

definition snapshot_artifact_fits :: "snapshot_artifact \<Rightarrow> bool" where
  "snapshot_artifact_fits x \<longleftrightarrow>
     text_ok 255 (sa_Path x) \<and>
     digest32 (sa_Digest x) \<and>
     text_ok 255 (sa_MediaType x) \<and>
     text_ok 512 (sa_Role x)"

interpretation sm_artifact: codec snapshot_artifact_calls dec_snapshot_artifact snapshot_artifact_fits
proof
  show "dec_snapshot_artifact (dec_at pre (emit (snapshot_artifact_calls x) @ r)) =
      Inr (x, dec_at (pre @ emit (snapshot_artifact_calls x)) r)" if "snapshot_artifact_fits x" for x pre r
    using that by (cases x) (simp add: dec_snapshot_artifact_def snapshot_artifact_calls_def snapshot_artifact_fits_def emit_simps decode_simps)
  show "dec_sound dec_snapshot_artifact (\<lambda>x c. snapshot_artifact_fits x \<and> c = emit (snapshot_artifact_calls x))"
    unfolding dec_snapshot_artifact_def dataplane_limits of_nat_numeral
    apply (rule dec_sound_bind, rule sound_intros)+
    apply (rule dec_sound_ret)
    apply (simp add: snapshot_artifact_calls_def snapshot_artifact_fits_def emit_simps)
    done
qed

definition snapshot_view_fits :: "snapshot_view \<Rightarrow> bool" where
  "snapshot_view_fits x \<longleftrightarrow>
     text_ok 512 (sv_ID x) \<and>
     digest32 (sv_DefinitionDigest x) \<and>
     digest32 (sv_ArtifactDigest x)"

interpretation sm_view: codec snapshot_view_calls dec_snapshot_view snapshot_view_fits
proof
  show "dec_snapshot_view (dec_at pre (emit (snapshot_view_calls x) @ r)) =
      Inr (x, dec_at (pre @ emit (snapshot_view_calls x)) r)" if "snapshot_view_fits x" for x pre r
    using that by (cases x) (simp add: dec_snapshot_view_def snapshot_view_calls_def snapshot_view_fits_def emit_simps decode_simps)
  show "dec_sound dec_snapshot_view (\<lambda>x c. snapshot_view_fits x \<and> c = emit (snapshot_view_calls x))"
    unfolding dec_snapshot_view_def dataplane_limits of_nat_numeral
    apply (rule dec_sound_bind, rule sound_intros)+
    apply (rule dec_sound_ret)
    apply (simp add: snapshot_view_calls_def snapshot_view_fits_def emit_simps)
    done
qed

definition snapshot_counts_fits :: "snapshot_counts \<Rightarrow> bool" where
  "snapshot_counts_fits x \<longleftrightarrow>
     True"

interpretation sm_counts: codec snapshot_counts_calls dec_snapshot_counts snapshot_counts_fits
proof
  show "dec_snapshot_counts (dec_at pre (emit (snapshot_counts_calls x) @ r)) =
      Inr (x, dec_at (pre @ emit (snapshot_counts_calls x)) r)" if "snapshot_counts_fits x" for x pre r
    using that by (cases x) (simp add: dec_snapshot_counts_def snapshot_counts_calls_def snapshot_counts_fits_def emit_simps decode_simps)
  show "dec_sound dec_snapshot_counts (\<lambda>x c. snapshot_counts_fits x \<and> c = emit (snapshot_counts_calls x))"
    unfolding dec_snapshot_counts_def dataplane_limits of_nat_numeral
    apply (rule dec_sound_bind, rule sound_intros)+
    apply (rule dec_sound_ret)
    apply (simp add: snapshot_counts_calls_def snapshot_counts_fits_def emit_simps)
    done
qed

interpretation sm_artifacts: codec "enc_counted snapshot_artifact_calls"
    "dec_counted 1 16384 (invalid ''snapshot artifact count'') dec_snapshot_artifact"
    "\<lambda>xs. list_all snapshot_artifact_fits xs \<and> unat (1::uint64) \<le> length xs \<and> length xs \<le> unat (16384::uint64)"
  by (rule sm_artifact.counted_codec)

interpretation sm_views: codec "enc_counted snapshot_view_calls"
    "dec_counted 0 32 (invalid ''snapshot view count'') dec_snapshot_view"
    "\<lambda>xs. list_all snapshot_view_fits xs \<and> unat (0::uint64) \<le> length xs \<and> length xs \<le> unat (32::uint64)"
  by (rule sm_view.counted_codec)

lemmas sm_complete [decode_simps] =
  sm_artifacts.complete sm_artifacts.complete_last
  sm_views.complete sm_views.complete_last
  sm_counts.complete sm_counts.complete_last

lemmas sm_sound [sound_intros] =
  sm_artifacts.sound sm_views.sound sm_counts.sound

definition snapshot_manifest_fits :: "snapshot_manifest \<Rightarrow> bool" where
  "snapshot_manifest_fits x \<longleftrightarrow>
     text_ok 512 (sm_Version x) \<and>
     text_ok 512 (sm_Channel x) \<and>
     text_ok 20 (sm_CreatedAt x) \<and>
     text_ok 512 (sm_SourceRevision x) \<and>
     digest32 (sm_CompilerContractDigest x) \<and>
     text_ok 512 (sm_CompilerVersion x) \<and>
     digest32 (sm_AtlasSelectionDigest x) \<and>
     digest32 (sm_CanonModuleSetDigest x) \<and>
     opt_digest_ok (sm_PreviousSnapshotID x) \<and>
     text_set_ok 16 1 (sm_EvidenceClasses x) \<and>
     list_all snapshot_artifact_fits (sm_Artifacts x) \<and> Suc 0 \<le> length (sm_Artifacts x) \<and> length (sm_Artifacts x) \<le> 16384 \<and>
     list_all snapshot_view_fits (sm_Views x) \<and> length (sm_Views x) \<le> 32 \<and>
     snapshot_counts_fits (sm_Counts x) \<and>
     digest32 (sm_BuildReportDigest x)"

definition snapshot_manifest_wf :: "snapshot_manifest \<Rightarrow> bool" where
  "snapshot_manifest_wf m \<longleftrightarrow> digest32 (sm_CompilerContractDigest m) \<and> digest32 (sm_AtlasSelectionDigest m) \<and>
     digest32 (sm_CanonModuleSetDigest m) \<and> opt_digest32 (sm_PreviousSnapshotID m) \<and>
     list_all (\<lambda>a. digest32 (sa_Digest a)) (sm_Artifacts m) \<and>
     list_all (\<lambda>v. digest32 (sv_DefinitionDigest v) \<and> digest32 (sv_ArtifactDigest v)) (sm_Views m) \<and>
     digest32 (sm_BuildReportDigest m)"

lemma snapshot_path_ok: "ValidateSnapshotPath v = None \<Longrightarrow> text_ok 255 v"
  by (auto simp: ValidateSnapshotPath_def first_err_None fail_if_None text_ok_def MaxShortText_def)

lemma scan_artifacts_Cons:
  "scan_artifacts previous s (a # as) = Inr s' \<longleftrightarrow>
     ValidateSnapshotPath (sa_Path a) = None \<and> (case previous of None \<Rightarrow> True | Some p \<Rightarrow> p < sa_Path a) \<and>
     sa_Size a \<noteq> 0 \<and> sa_Size a \<le> MaxSnapshotArtifactBytes \<and> sn_total s \<le> MaxSnapshotBytes - sa_Size a \<and>
     dp_validateText ''artifact media type'' (sa_MediaType a) MaxShortText False = None \<and>
     sa_Role a \<in> set artifact_roles \<and>
     scan_artifacts (Some (sa_Path a)) (scan_artifact a s) as = Inr s'"
  by (auto simp: after_Inr first_err_None fail_if_None wrap_err_None validateEnum_None not_less split: option.splits)

declare scan_artifacts.simps(2) [simp del]

lemma artifact_role_ok: "r \<in> set artifact_roles \<Longrightarrow> text_ok 512 r"
  by (auto simp: artifact_roles_def text_ok_def)

lemma scan_artifacts_fit:
  "scan_artifacts previous s as = Inr s' \<Longrightarrow> list_all (\<lambda>a. digest32 (sa_Digest a)) as \<Longrightarrow>
     list_all snapshot_artifact_fits as"
  by (induction as arbitrary: previous s)
    (auto simp: scan_artifacts_Cons snapshot_artifact_fits_def snapshot_path_ok artifact_role_ok
      elim: text_okI)

lemma validate_views_fit:
  "validate_views ms h previous vs = None \<Longrightarrow>
     list_all (\<lambda>v. digest32 (sv_DefinitionDigest v) \<and> digest32 (sv_ArtifactDigest v)) vs \<Longrightarrow>
     list_all snapshot_view_fits vs"
  by (induction vs arbitrary: previous)
    (auto simp: first_err_None snapshot_view_fits_def intro: identifier_ok)

lemma SnapshotManifest_Validate_None:
  "SnapshotManifest_Validate m = None \<longleftrightarrow>
     validate_snapshot_head m = None \<and>
     (\<exists>s. scan_artifacts None scan_start (sm_Artifacts m) = Inr s \<and> validate_scan m s = None) \<and>
     validate_counts (sm_Counts m) = None"
  by (auto simp: SnapshotManifest_Validate_def first_err_None split: sum.splits)

lemma snapshot_manifest_fitsI:
  assumes "SnapshotManifest_Validate m = None" and "snapshot_manifest_wf m"
  shows "snapshot_manifest_fits m"
proof -
  from assms(1) obtain s where h: "validate_snapshot_head m = None"
    and s: "scan_artifacts None scan_start (sm_Artifacts m) = Inr s" and c: "validate_scan m s = None"
    unfolding SnapshotManifest_Validate_None by blast
  note h' = h [unfolded validate_snapshot_head_def first_err_None fail_if_None]
  note w = assms(2) [unfolded snapshot_manifest_wf_def]
  have "text_ok 512 (sm_Version m)" using h' by (simp add: SnapshotVersion_def text_ok_def)
  moreover have "text_ok 512 (sm_Channel m)" "text_ok 512 (sm_SourceRevision m)" "text_ok 512 (sm_CompilerVersion m)"
    "text_ok 20 (sm_CreatedAt m)"
    using h' identifier_ok utc_second_ok by blast+
  moreover have "opt_digest_ok (sm_PreviousSnapshotID m)" using h' w opt_digest_okI by blast
  moreover have "text_set_ok 16 1 (sm_EvidenceClasses m)" using h' by (auto intro: text_set_okI simp: Suc_le_eq)
  moreover have "list_all snapshot_artifact_fits (sm_Artifacts m)" "Suc 0 \<le> length (sm_Artifacts m)"
    "length (sm_Artifacts m) \<le> 16384"
    using h' w scan_artifacts_fit [OF s] by (auto simp: Suc_le_eq MaxSnapshotArtifacts_def)
  moreover have "list_all snapshot_view_fits (sm_Views m)" "length (sm_Views m) \<le> 32"
    using c w validate_views_fit by (auto simp: validate_scan_def first_err_None fail_if_None)
  ultimately show ?thesis using w by (simp add: snapshot_manifest_fits_def snapshot_counts_fits_def)
qed

lemma snapshot_manifest_fits_wf: "snapshot_manifest_fits m \<Longrightarrow> snapshot_manifest_wf m"
  by (auto simp: snapshot_manifest_fits_def snapshot_manifest_wf_def snapshot_artifact_fits_def
      snapshot_view_fits_def opt_digest_ok32 list_all_iff)

lemma snapshot_manifest_bounded:
  "document (\<lambda>x. after (SnapshotManifest_Validate x) (boundedEncoding (snapshot_manifest_calls x)))
     UnmarshalSnapshotManifest snapshot_manifest_wf"
proof (rule dp_document_fitsI)
  show "UnmarshalSnapshotManifest b = ebind (checkedDocument b MaxDocumentBytes dec_snapshot_manifest)
      (\<lambda>x. after (SnapshotManifest_Validate x) (Inr x))" for b
    by (simp add: UnmarshalSnapshotManifest_def MaxSnapshotManifestBytes_def MaxDocumentBytes_def)
  show "dec_sound dec_snapshot_manifest (\<lambda>x c. snapshot_manifest_fits x \<and> c = emit (snapshot_manifest_calls x))"
    unfolding dec_snapshot_manifest_def dp_finish_def dataplane_limits of_nat_numeral
    apply (rule dec_sound_bind, rule sound_intros)+
    apply (rule dec_sound_bind, rule dec_sound_finish, rule dec_sound_ret)
    apply (simp add: snapshot_manifest_calls_def snapshot_manifest_fits_def emit_simps)
    done
  show "ends_input dec_snapshot_manifest"
    unfolding dec_snapshot_manifest_def dp_finish_def dataplane_limits of_nat_numeral
    by (rule ends_input_bind, rule sound_intros)+ (rule ends_input_finish)
  show "dec_snapshot_manifest (dec_at [] (emit (snapshot_manifest_calls x))) = Inr (x, dec_at (emit (snapshot_manifest_calls x)) [])"
    if "snapshot_manifest_fits x" for x
    using that by (cases x)
      (simp add: dec_snapshot_manifest_def snapshot_manifest_calls_def snapshot_manifest_fits_def dp_finish_def emit_simps decode_simps)
qed (rule refl | rule snapshot_manifest_fitsI snapshot_manifest_fits_wf, assumption+)+


lemma MarshalSnapshotManifest_bounded:
  "MarshalSnapshotManifest x = Inr b \<longleftrightarrow>
     after (SnapshotManifest_Validate x) (boundedEncoding (snapshot_manifest_calls x)) = Inr b"
proof -
  have "emit (snapshot_manifest_calls x) \<noteq> []"
    by (rule emit_nonempty) (simp_all add: snapshot_manifest_calls_def)
  then show ?thesis
    by (simp add: MarshalSnapshotManifest_def boundedEncoding_def Let_def after_Inr MaxSnapshotManifestBytes_def
        MaxDocumentBytes_def)
qed

interpretation snapshot_manifest_doc: document MarshalSnapshotManifest UnmarshalSnapshotManifest snapshot_manifest_wf
  using snapshot_manifest_bounded unfolding document_def MarshalSnapshotManifest_bounded .

section \<open>The artifacts of a manifest\<close>

lemma snapshot_size_sum:
  assumes "sz \<le> MaxSnapshotArtifactBytes" "tot \<le> MaxSnapshotBytes - sz"
  shows "unat (tot + sz) = unat tot + unat sz \<and> unat (tot + sz) \<le> 2 ^ 33"
proof -
  from assms(1) have s: "unat sz \<le> 4294967296" by (simp add: snapshot_limits word_le_nat_alt)
  then have "unat (MaxSnapshotBytes - sz) = 8589934592 - unat sz"
    by (simp add: snapshot_limits unat_sub word_le_nat_alt)
  with assms(2) s have le: "unat tot + unat sz \<le> 8589934592" by (simp add: word_le_nat_alt)
  then have "unat (tot + sz) = unat tot + unat sz" by (simp add: unat_word_ariths)
  with le show ?thesis by simp
qed

lemma scan_artifacts_result:
  assumes "scan_artifacts previous s as = Inr s'"
  shows "unat (sn_total s') = unat (sn_total s) + (\<Sum>a \<leftarrow> as. unat (sa_Size a)) \<and>
    sn_roleDigests s' = (\<lambda>r. sn_roleDigests s r @ map sa_Digest (filter (\<lambda>a. sa_Role a = r) as)) \<and>
    sn_buildReports s' = sn_buildReports s + length (filter (\<lambda>a. sa_Role a = ''build_report'') as) \<and>
    sn_required s' = sn_required s \<union> (sa_Role ` set as \<inter> set required_roles) \<and>
    list_all (\<lambda>a. ValidateSnapshotPath (sa_Path a) = None \<and> sa_Size a \<noteq> 0) as \<and>
    sorted_wrt (<) ((case previous of None \<Rightarrow> [] | Some p \<Rightarrow> [p]) @ map sa_Path as)"
  using assms
proof (induction as arbitrary: previous s)
  case (Cons a as)
  note h = Cons.prems [unfolded scan_artifacts_Cons]
  from h have IH: "scan_artifacts (Some (sa_Path a)) (scan_artifact a s) as = Inr s'" by blast
  from h have "unat (sn_total s + sa_Size a) = unat (sn_total s) + unat (sa_Size a)"
    using snapshot_size_sum by blast
  with Cons.IH [OF IH] h show ?case
    by (cases previous)
      (auto simp: scan_artifact_def fun_eq_iff sorted_wrt2 simp del: sorted_wrt.simps(2))
qed (auto split: option.splits)

lemma validate_views_None:
  "validate_views ms h previous vs = None \<Longrightarrow>
     (\<forall>v \<in> set vs. sv_ArtifactDigest v \<in> set ms \<and> sv_ThroughSequence v \<le> h)"
  by (induction vs arbitrary: previous) (auto simp: first_err_None fail_if_None containsDigest_def not_less)

section \<open>The paths of a manifest\<close>

lemma validate_segments_None:
  "validate_segments ss = None \<Longrightarrow> list_all (\<lambda>s. \<not> unsafe_segment s) ss"
  by (induction ss) (auto simp: first_err_None fail_if_None)

lemma clean_parts_plain:
  "list_all (\<lambda>s. \<not> unsafe_segment s) ss \<Longrightarrow> clean_parts rooted stack (cs @ ss) = clean_parts rooted stack cs @ ss"
proof (induction ss arbitrary: cs)
  case (Cons s ss)
  have "clean_parts rooted stack ((cs @ [s]) @ ss) = clean_parts rooted stack (cs @ [s]) @ ss"
    by (rule Cons.IH) (use Cons.prems in simp)
  with Cons.prems show ?case by (simp add: unsafe_segment_def clean_parts_snoc)
qed simp

lemma path_join_append: "cs \<noteq> [] \<Longrightarrow> ds \<noteq> [] \<Longrightarrow> path_join (cs @ ds) = path_join cs @ CHR ''/'' # path_join ds"
proof (induction cs rule: path_join.induct)
  case (2 w)
  then show ?case by (cases ds) simp_all
qed auto

lemma path_join_split: "path_join (path_split s) = s"
proof (induction s)
  case (Cons c s)
  have "path_join ((c # w) # ws) = c # path_join (w # ws)" for w ws by (cases ws) simp_all
  moreover have "path_join ([] # path_split s) = CHR ''/'' # path_join (path_split s)"
    by (cases "path_split s") simp_all
  ultimately show ?case using Cons by (cases "path_split s") simp_all
qed simp

lemma snapshot_path_segments:
  "ValidateSnapshotPath v = None \<Longrightarrow> list_all (\<lambda>s. \<not> unsafe_segment s) (path_split v)"
  by (simp add: ValidateSnapshotPath_def first_err_None validate_segments_None)

lemma snapshot_path_below:
  assumes "ValidateSnapshotPath v = None" and "filepath_Clean dir = dir" and "dir \<noteq> ''.''" "dir \<noteq> ''/''"
  shows "filepath_Clean (dir @ CHR ''/'' # v) = dir @ CHR ''/'' # v"
proof -
  have ne: "dir \<noteq> []" using assms(2) by (auto simp: filepath_Clean_def)
  let ?r = "hd dir = CHR ''/''"
  let ?cs = "clean_parts ?r [] (path_split dir)"
  have hd: "hd (dir @ CHR ''/'' # v) = hd dir" using ne by (cases dir) auto
  have "?cs \<noteq> []"
    using assms(2-4) ne by (cases ?r) (auto simp: filepath_Clean_def Let_def)
  then have j: "path_join (?cs @ path_split v) = path_join ?cs @ CHR ''/'' # v"
    by (simp add: path_join_append path_join_split)
  have "clean_parts ?r [] (path_split (dir @ CHR ''/'' # v)) = ?cs @ path_split v"
    by (simp only: path_split_append clean_parts_plain [OF snapshot_path_segments [OF assms(1)]])
  with j \<open>?cs \<noteq> []\<close> ne have "filepath_Clean (dir @ CHR ''/'' # v) = filepath_Clean dir @ CHR ''/'' # v"
    by (cases ?r) (simp_all add: filepath_Clean_def Let_def hd)
  with assms(2) show ?thesis by simp
qed

section \<open>Properties\<close>

text \<open>
  The manifest of a snapshot survives marshalling, and the octets that are accepted for a
  manifest are the ones marshalling it gives.
\<close>

theorem snapshot_manifest_accepted:
  "UnmarshalSnapshotManifest bs = Inr m \<longleftrightarrow> snapshot_manifest_wf m \<and> MarshalSnapshotManifest m = Inr bs"
  by (rule snapshot_manifest_doc.accepted_iff)

text \<open>
  C36: what a valid manifest guarantees: the sizes of its artifacts add up, without wrapping, to
  the declared total of at most 8 GiB; their paths are distinct; every required role occurs, the
  build report exactly once and with the declared digest; and every view is one of the
  materialized artifacts, built from packets the snapshot contains.
\<close>

theorem snapshot_manifest_reconciles:
  assumes "SnapshotManifest_Validate m = None"
  shows "(\<Sum>a \<leftarrow> sm_Artifacts m. unat (sa_Size a)) = unat (sm_TotalArtifactBytes m) \<and>
    unat (sm_TotalArtifactBytes m) \<le> 2 ^ 33 \<and>
    distinct (map sa_Path (sm_Artifacts m)) \<and>
    set required_roles \<subseteq> sa_Role ` set (sm_Artifacts m) \<and>
    map sa_Digest (filter (\<lambda>a. sa_Role a = ''build_report'') (sm_Artifacts m)) = [sm_BuildReportDigest m] \<and>
    (\<forall>v \<in> set (sm_Views m). sv_ThroughSequence v \<le> sm_HighestPacketSequence m \<and>
       (\<exists>a \<in> set (sm_Artifacts m). sa_Role a = ''materialized_view'' \<and> sa_Digest a = sv_ArtifactDigest v))"
proof -
  from assms obtain s where s: "scan_artifacts None scan_start (sm_Artifacts m) = Inr s"
    and c: "validate_scan m s = None"
    unfolding SnapshotManifest_Validate_None by blast
  note r = scan_artifacts_result [OF s, unfolded scan_start_def]
  note c' = c [unfolded validate_scan_def first_err_None fail_if_None]
  from c' have v: "\<forall>v \<in> set (sm_Views m). sv_ArtifactDigest v \<in> set (sn_roleDigests s ''materialized_view'') \<and>
      sv_ThroughSequence v \<le> sm_HighestPacketSequence m"
    using validate_views_None by blast
  let ?b = "map sa_Digest (filter (\<lambda>a. sa_Role a = ''build_report'') (sm_Artifacts m))"
  from r c' have "length ?b = 1" "sm_BuildReportDigest m \<in> set ?b"
    by (simp_all add: containsDigest_def)
  then have b: "?b = [sm_BuildReportDigest m]" by (cases ?b) auto
  have t: "unat (sm_TotalArtifactBytes m) \<le> 2 ^ 33"
    using c' by (auto simp: snapshot_limits word_le_nat_alt not_less)
  have d: "distinct (map sa_Path (sm_Artifacts m))" using r by (auto simp: strict_sorted_iff)
  have "set required_roles \<subseteq> sa_Role ` set (sm_Artifacts m)"
    using r c' by (auto simp: list_all_iff)
  moreover have "\<exists>a \<in> set (sm_Artifacts m). sa_Role a = ''materialized_view'' \<and> sa_Digest a = sv_ArtifactDigest v"
    if "v \<in> set (sm_Views m)" for v
    using that v r by fastforce
  moreover have "(\<Sum>a \<leftarrow> sm_Artifacts m. unat (sa_Size a)) = unat (sm_TotalArtifactBytes m)"
    using r c' by simp
  ultimately show ?thesis using v b t d by blast
qed

definition sample_artifact :: "string \<Rightarrow> string \<Rightarrow> byte \<Rightarrow> snapshot_artifact" where
  "sample_artifact path role b = \<lparr>sa_Path = path, sa_Digest = replicate 32 b, sa_Size = 10, sa_MediaType = ''m'',
     sa_Role = role\<rparr>"

definition sample_snapshot :: snapshot_manifest where
  "sample_snapshot = \<lparr>sm_Version = SnapshotVersion, sm_Channel = ''c'', sm_CreatedAt = ''2024-02-29T23:59:59Z'',
     sm_SourceRevision = ''r'', sm_CompilerContractDigest = replicate 32 0, sm_CompilerVersion = ''v'',
     sm_AtlasSelectionDigest = replicate 32 0, sm_CanonModuleSetDigest = replicate 32 0,
     sm_PreviousSnapshotID = absent_digest, sm_EvidenceClasses = [''e''],
     sm_Artifacts = [sample_artifact ''a'' ''origin_catalog'' 1, sample_artifact ''b'' ''concepts'' 2,
       sample_artifact ''c'' ''mappings'' 3, sample_artifact ''d'' ''packet_batch'' 4,
       sample_artifact ''e'' ''proof_index'' 5, sample_artifact ''f'' ''build_report'' 6,
       sample_artifact ''g'' ''materialized_view'' 7],
     sm_Views = [\<lparr>sv_ID = ''v'', sv_DefinitionDigest = replicate 32 8, sv_ArtifactDigest = replicate 32 7,
       sv_RowCount = 1, sv_ThroughSequence = 3\<rparr>],
     sm_Counts = \<lparr>sc_Origins = 1, sc_Concepts = 1, sc_Mappings = 1, sc_Packets = 1, sc_Deltas = 0, sc_Views = 1,
       sc_ProofArtifacts = 1, sc_EconomicEvents = 0\<rparr>,
     sm_HighestPacketSequence = 3, sm_HighestDeltaSequence = 0, sm_TotalArtifactBytes = 70,
     sm_BuildReportDigest = replicate 32 6\<rparr>"

lemma sample_paths:
  "x \<in> set ''abcdefg'' \<Longrightarrow> ValidateSnapshotPath [x] = None"
  by (auto simp: ValidateSnapshotPath_def first_err_None fail_if_None MaxShortText_def utf8_valid_string_ascii
      is_ascii_def filepath_Clean_def Let_def unsafe_segment_def control_char_def lower_char_def)

lemma sample_snapshot_valid: "SnapshotManifest_Validate sample_snapshot = None"
  unfolding SnapshotManifest_Validate_None
  by (simp add: sample_snapshot_def sample_artifact_def validate_snapshot_head_def validate_counts_def
      first_err_None fail_if_None accept_simps canonical_utc_second_example SnapshotVersion_def
      utf8_valid_string_ascii is_ascii_def scan_artifacts_Cons sample_paths scan_artifact_def scan_start_def
      snapshot_limits artifact_roles_def required_roles_def validate_scan_def containsDigest_def)

theorem snapshot_manifest_reconciles_witness:
  "SnapshotManifest_Validate sample_snapshot = None \<and>
   map sa_Digest (filter (\<lambda>a. sa_Role a = ''build_report'') (sm_Artifacts sample_snapshot)) =
     [sm_BuildReportDigest sample_snapshot]"
  using sample_snapshot_valid snapshot_manifest_reconciles [OF sample_snapshot_valid] by blast

text \<open>
  A path that a manifest may name stays below the directory of the snapshot: joined to a
  clean directory it is itself clean, so that no segment of it leads out, and it is not one of
  the reserved names.
\<close>

theorem snapshot_path_confined:
  assumes "ValidateSnapshotPath v = None" and "filepath_Clean dir = dir" and "dir \<noteq> ''.''" "dir \<noteq> ''/''"
  shows "filepath_Join [dir, v] = dir @ CHR ''/'' # v \<and> ''..'' \<notin> set (path_split v) \<and>
    v \<noteq> ''manifest.cbor'' \<and> take 9 v \<noteq> ''channels/''"
proof -
  have "dir \<noteq> []" using assms(2) by (auto simp: filepath_Clean_def)
  moreover have "''..'' \<notin> set (path_split v)"
    using snapshot_path_segments [OF assms(1)] by (auto simp: list_all_iff unsafe_segment_def)
  moreover have "v \<noteq> ''manifest.cbor'' \<and> take 9 v \<noteq> ''channels/''"
    using assms(1) by (simp add: ValidateSnapshotPath_def first_err_None fail_if_None)
  ultimately show ?thesis using snapshot_path_below [OF assms] by (simp add: filepath_Join_def)
qed

lemma sample_snapshot_path: "ValidateSnapshotPath ''views/a.cbor'' = None"
  by (simp add: ValidateSnapshotPath_def first_err_None fail_if_None MaxShortText_def utf8_valid_string_ascii
      is_ascii_def filepath_Clean_def Let_def unsafe_segment_def control_char_def lower_char_def)

theorem snapshot_path_confined_witness:
  "ValidateSnapshotPath ''views/a.cbor'' = None \<and> filepath_Join [''/srv/x'', ''views/a.cbor''] = ''/srv/x/views/a.cbor''"
  using sample_snapshot_path snapshot_path_confined [OF sample_snapshot_path, of "''/srv/x''"]
  by (simp add: filepath_Clean_def Let_def)

end
