(* ===== verification/Documents.thy ===== *)
theory Documents
  imports Query_Result Ontology Snapshot
begin

text \<open>
  \<open>internal/dataplane/document.go\<close>: the dispatch of a document to the parser of its kind.
\<close>

definition KindPacket :: string where "KindPacket = ''packet''"
definition KindBatch :: string where "KindBatch = ''batch''"
definition KindDelta :: string where "KindDelta = ''delta''"
definition KindQuery :: string where "KindQuery = ''query''"
definition KindSubscription :: string where "KindSubscription = ''subscription''"
definition KindQueryResult :: string where "KindQueryResult = ''query-result''"
definition KindMaterialization :: string where "KindMaterialization = ''materialization''"
definition KindEconomicEvent :: string where "KindEconomicEvent = ''economic-event''"
definition KindSnapshot :: string where "KindSnapshot = ''snapshot''"
definition KindFrame :: string where "KindFrame = ''frame''"
definition KindMappingClaim :: string where "KindMappingClaim = ''mapping-claim''"
definition KindOntologyModule :: string where "KindOntologyModule = ''ontology-module''"
definition KindUniverse :: string where "KindUniverse = ''universe''"

lemmas kind_defs = KindPacket_def KindBatch_def KindDelta_def KindQuery_def KindSubscription_def
  KindQueryResult_def KindMaterialization_def KindEconomicEvent_def KindSnapshot_def KindFrame_def
  KindMappingClaim_def KindOntologyModule_def KindUniverse_def

definition DocumentKinds :: "string list" where
  "DocumentKinds = [KindBatch, KindDelta, KindEconomicEvent, KindFrame, KindMappingClaim, KindMaterialization,
     KindOntologyModule, KindPacket, KindQuery, KindQueryResult, KindSnapshot, KindSubscription, KindUniverse]"

text \<open>The error of a call whose value is dropped.\<close>

definition only_error :: "error + 'a \<Rightarrow> error option" where
  "only_error r = (case r of Inl e \<Rightarrow> Some e | Inr _ \<Rightarrow> None)"

definition ValidateDocument :: "string \<Rightarrow> byte list \<Rightarrow> error option" where
  "ValidateDocument kind bs =
     (if kind = KindPacket then only_error (UnmarshalPacket bs)
      else if kind = KindBatch then only_error (UnmarshalBatchManifest bs)
      else if kind = KindDelta then only_error (UnmarshalDelta bs)
      else if kind = KindQuery then only_error (UnmarshalQuery bs)
      else if kind = KindSubscription then only_error (UnmarshalSubscription bs)
      else if kind = KindQueryResult then only_error (UnmarshalQueryResult bs)
      else if kind = KindMaterialization then only_error (UnmarshalMaterializationManifest bs)
      else if kind = KindEconomicEvent then only_error (UnmarshalEconomicEvent bs)
      else if kind = KindSnapshot then only_error (UnmarshalSnapshotManifest bs)
      else if kind = KindFrame then only_error (UnmarshalFrame bs)
      else if kind = KindMappingClaim then only_error (UnmarshalMappingClaim bs)
      else if kind = KindOntologyModule then only_error (UnmarshalOntologyModule bs)
      else if kind = KindUniverse then only_error (UnmarshalSemanticUniverse bs)
      else Some (invalid ''unsupported document kind''))"

section \<open>What the documents of a kind are\<close>

lemma only_error_None: "only_error r = None \<longleftrightarrow> (\<exists>x. r = Inr x)"
  by (simp add: only_error_def split: sum.splits)

text \<open>The canonical octets of the values of a Go type.\<close>

definition canonical :: "('a \<Rightarrow> bool) \<Rightarrow> ('a \<Rightarrow> error + byte list) \<Rightarrow> byte list set" where
  "canonical good marshal = {bs. \<exists>x. good x \<and> marshal x = Inr bs}"

context document
begin

lemma accepted_canonical: "only_error (unmarshal bs) = None \<longleftrightarrow> bs \<in> canonical wf marshal"
  unfolding only_error_None canonical_def by (simp add: accepted_iff)

end

text \<open>The documents of each kind, and the version text their second item has.\<close>

definition documents_of :: "string \<Rightarrow> byte list set" where
  "documents_of kind =
     (if kind = KindPacket then canonical packet_wf MarshalPacket
      else if kind = KindBatch then canonical batch_wf MarshalBatchManifest
      else if kind = KindDelta then canonical delta_wf MarshalDelta
      else if kind = KindQuery then canonical query_wf MarshalQuery
      else if kind = KindSubscription then canonical subscription_wf MarshalSubscription
      else if kind = KindQueryResult then canonical query_result_wf MarshalQueryResult
      else if kind = KindMaterialization then canonical materialization_wf MarshalMaterializationManifest
      else if kind = KindEconomicEvent then canonical economic_event_wf MarshalEconomicEvent
      else if kind = KindSnapshot then canonical snapshot_manifest_wf MarshalSnapshotManifest
      else if kind = KindFrame then canonical frame_wf MarshalFrame
      else if kind = KindMappingClaim then canonical mapping_claim_wf MarshalMappingClaim
      else if kind = KindOntologyModule then canonical ontology_module_wf MarshalOntologyModule
      else if kind = KindUniverse then canonical semantic_universe_wf MarshalSemanticUniverse
      else {})"

definition version_of :: "string \<Rightarrow> string" where
  "version_of kind =
     (if kind = KindPacket then PacketVersion
      else if kind = KindBatch then BatchVersion
      else if kind = KindDelta then DeltaVersion
      else if kind = KindQuery then QueryVersion
      else if kind = KindSubscription then SubscriptionVersion
      else if kind = KindQueryResult then QueryResultVersion
      else if kind = KindMaterialization then MaterializationVersion
      else if kind = KindEconomicEvent then EconomicEventVersion
      else if kind = KindSnapshot then SnapshotVersion
      else if kind = KindFrame then FrameVersion
      else if kind = KindMappingClaim then MappingVersion
      else if kind = KindOntologyModule then ModuleVersion
      else if kind = KindUniverse then UniverseVersion
      else [])"

lemmas version_defs = PacketVersion_def BatchVersion_def DeltaVersion_def QueryVersion_def SubscriptionVersion_def QueryResultVersion_def
  MaterializationVersion_def EconomicEventVersion_def SnapshotVersion_def FrameVersion_def MappingVersion_def ModuleVersion_def UniverseVersion_def

definition begins_with :: "string \<Rightarrow> byte list \<Rightarrow> bool" where
  "begins_with version bs \<longleftrightarrow>
     length bs \<le> MaxDocumentBytes \<and> (\<exists>n rest. bs = emit (CArray n # CText version # rest))"

lemma canonical_begins_with:
  assumes "\<And>x b. marshal x = Inr b \<longleftrightarrow> after (validate x) (boundedEncoding (calls x)) = Inr b"
    and "\<And>x. validate x = None \<Longrightarrow> \<exists>n rest. calls x = CArray n # CText version # rest"
    and "bs \<in> canonical good marshal"
  shows "begins_with version bs"
proof -
  from assms(3) obtain x where "marshal x = Inr bs" by (auto simp: canonical_def)
  with assms(1) have v: "validate x = None" and b: "bs = emit (calls x)" "length bs \<le> MaxDocumentBytes"
    by (auto simp: after_Inr boundedEncoding_def Let_def split: if_splits)
  from assms(2) [OF v] b show ?thesis unfolding begins_with_def by metis
qed

lemma begins_with_unique:
  assumes "begins_with v bs" and "begins_with w bs"
  shows "v = w"
proof -
  from assms obtain n m r t where e: "bs = emit (CArray n # CText v # r)" "bs = emit (CArray m # CText w # t)"
    and "length bs \<le> MaxDocumentBytes" unfolding begins_with_def by blast
  then have "CArray n # CText v # r = CArray m # CText w # t"
    by (intro emit_calls_inject) (simp_all add: dataplane_limits)
  then show ?thesis by simp
qed

lemma packet_begins_with: "bs \<in> canonical packet_wf MarshalPacket \<Longrightarrow> begins_with PacketVersion bs"
  by (erule canonical_begins_with [where validate = Packet_Validate and calls = packet_calls, rotated 2])
    (simp_all add: MarshalPacket_def Packet_Validate_def validate_subject_def Let_def packet_calls_def first_err_None fail_if_None)

lemma batch_begins_with: "bs \<in> canonical batch_wf MarshalBatchManifest \<Longrightarrow> begins_with BatchVersion bs"
  by (erule canonical_begins_with [where validate = BatchManifest_Validate and calls = batch_calls, rotated 2])
    (simp_all add: MarshalBatchManifest_def BatchManifest_Validate_def Let_def batch_calls_def first_err_None fail_if_None)

lemma delta_begins_with: "bs \<in> canonical delta_wf MarshalDelta \<Longrightarrow> begins_with DeltaVersion bs"
  by (erule canonical_begins_with [where validate = Delta_Validate and calls = delta_calls, rotated 2])
    (simp_all add: MarshalDelta_def Delta_Validate_def Let_def delta_calls_def first_err_None fail_if_None)

lemma query_begins_with: "bs \<in> canonical query_wf MarshalQuery \<Longrightarrow> begins_with QueryVersion bs"
  by (erule canonical_begins_with [where validate = Query_Validate and calls = query_calls, rotated 2])
    (simp_all add: MarshalQuery_def Query_Validate_def validate_query_subject_def Let_def query_calls_def first_err_None fail_if_None)

lemma subscription_begins_with: "bs \<in> canonical subscription_wf MarshalSubscription \<Longrightarrow> begins_with SubscriptionVersion bs"
  by (erule canonical_begins_with [where validate = Subscription_Validate and calls = subscription_calls, rotated 2])
    (simp_all add: MarshalSubscription_def Subscription_Validate_def Let_def subscription_calls_def first_err_None fail_if_None)

lemma query_result_begins_with: "bs \<in> canonical query_result_wf MarshalQueryResult \<Longrightarrow> begins_with QueryResultVersion bs"
  by (erule canonical_begins_with [where validate = QueryResult_Validate and calls = query_result_calls, rotated 2])
    (simp_all add: MarshalQueryResult_def QueryResult_Validate_def Let_def query_result_calls_def first_err_None fail_if_None)

lemma materialization_begins_with: "bs \<in> canonical materialization_wf MarshalMaterializationManifest \<Longrightarrow> begins_with MaterializationVersion bs"
  by (erule canonical_begins_with [where validate = MaterializationManifest_Validate and calls = materialization_calls, rotated 2])
    (simp_all add: MarshalMaterializationManifest_def MaterializationManifest_Validate_def Let_def materialization_calls_def first_err_None fail_if_None)

lemma economic_event_begins_with: "bs \<in> canonical economic_event_wf MarshalEconomicEvent \<Longrightarrow> begins_with EconomicEventVersion bs"
  by (erule canonical_begins_with [where validate = EconomicEvent_Validate and calls = economic_event_calls, rotated 2])
    (simp_all add: MarshalEconomicEvent_def EconomicEvent_Validate_def Let_def economic_event_calls_def first_err_None fail_if_None)

lemma snapshot_manifest_begins_with: "bs \<in> canonical snapshot_manifest_wf MarshalSnapshotManifest \<Longrightarrow> begins_with SnapshotVersion bs"
  by (erule canonical_begins_with [where validate = SnapshotManifest_Validate and calls = snapshot_manifest_calls, rotated 2])
    (simp_all add: MarshalSnapshotManifest_bounded SnapshotManifest_Validate_def validate_snapshot_head_def Let_def snapshot_manifest_calls_def first_err_None fail_if_None)

lemma frame_begins_with: "bs \<in> canonical frame_wf MarshalFrame \<Longrightarrow> begins_with FrameVersion bs"
  by (erule canonical_begins_with [where validate = Frame_Validate and calls = frame_calls, rotated 2])
    (simp_all add: MarshalFrame_def Frame_Validate_def Let_def frame_calls_def first_err_None fail_if_None)

lemma mapping_claim_begins_with: "bs \<in> canonical mapping_claim_wf MarshalMappingClaim \<Longrightarrow> begins_with MappingVersion bs"
  by (erule canonical_begins_with [where validate = MappingClaim_Validate and calls = mapping_claim_calls, rotated 2])
    (simp_all add: MarshalMappingClaim_def MappingClaim_Validate_def Let_def mapping_claim_calls_def first_err_None fail_if_None)

lemma ontology_module_begins_with: "bs \<in> canonical ontology_module_wf MarshalOntologyModule \<Longrightarrow> begins_with ModuleVersion bs"
  by (erule canonical_begins_with [where validate = OntologyModuleManifest_Validate and calls = ontology_module_calls, rotated 2])
    (simp_all add: MarshalOntologyModule_def OntologyModuleManifest_Validate_def Let_def ontology_module_calls_def first_err_None fail_if_None)

lemma semantic_universe_begins_with: "bs \<in> canonical semantic_universe_wf MarshalSemanticUniverse \<Longrightarrow> begins_with UniverseVersion bs"
  by (erule canonical_begins_with [where validate = SemanticUniverse_Validate and calls = semantic_universe_calls, rotated 2])
    (simp_all add: MarshalSemanticUniverse_def SemanticUniverse_Validate_def Let_def semantic_universe_calls_def first_err_None fail_if_None)

lemmas all_begin_with = packet_begins_with batch_begins_with delta_begins_with query_begins_with subscription_begins_with
  query_result_begins_with materialization_begins_with economic_event_begins_with snapshot_manifest_begins_with frame_begins_with
  mapping_claim_begins_with ontology_module_begins_with semantic_universe_begins_with

lemma begins_with_if:
  "bs \<in> (if c then A else B) \<Longrightarrow> (bs \<in> A \<Longrightarrow> begins_with v bs) \<Longrightarrow> (bs \<in> B \<Longrightarrow> begins_with w bs) \<Longrightarrow>
     begins_with (if c then v else w) bs"
  by (cases c) simp_all

lemma documents_of_version: "bs \<in> documents_of kind \<Longrightarrow> begins_with (version_of kind) bs"
  unfolding documents_of_def version_of_def
  by (elim begins_with_if all_begin_with emptyE)

lemma documents_of_kind: "bs \<in> documents_of kind \<Longrightarrow> kind \<in> set DocumentKinds"
  by (auto simp: documents_of_def DocumentKinds_def split: if_splits)

lemma version_of_inject:
  "k \<in> set DocumentKinds \<Longrightarrow> l \<in> set DocumentKinds \<Longrightarrow> version_of k = version_of l \<Longrightarrow> k = l"
proof -
  have "distinct (map version_of DocumentKinds)" by code_simp
  then have "inj_on version_of (set DocumentKinds)" by (simp add: distinct_map)
  then show "k \<in> set DocumentKinds \<Longrightarrow> l \<in> set DocumentKinds \<Longrightarrow> version_of k = version_of l \<Longrightarrow> k = l"
    by (rule inj_onD)
qed

lemma ValidateDocument_None: "ValidateDocument kind bs = None \<longleftrightarrow> bs \<in> documents_of kind"
  unfolding ValidateDocument_def documents_of_def
  by (simp add: packet_doc.accepted_canonical
      batch_doc.accepted_canonical
      delta_doc.accepted_canonical
      query_doc.accepted_canonical
      subscription_doc.accepted_canonical
      query_result_doc.accepted_canonical
      materialization_doc.accepted_canonical
      economic_event_doc.accepted_canonical
      snapshot_manifest_doc.accepted_canonical
      frame_doc.accepted_canonical
      mapping_claim_doc.accepted_canonical
      ontology_module_doc.accepted_canonical
      semantic_universe_doc.accepted_canonical)

section \<open>Properties\<close>

text \<open>
  \<open>ValidateDocument\<close> accepts, for each of the thirteen kinds, exactly the canonical octets
  of the valid documents of that kind, and nothing for any other kind.
\<close>

theorem ValidateDocument_canonical:
  "ValidateDocument kind bs = None \<longleftrightarrow> kind \<in> set DocumentKinds \<and> bs \<in> documents_of kind"
  unfolding ValidateDocument_None using documents_of_kind by blast

text \<open>
  No octets are a document of two kinds, so that a digest also determines the kind of what it
  identifies.
\<close>

theorem document_kind_unique:
  assumes "ValidateDocument k bs = None" and "ValidateDocument l bs = None"
  shows "k = l"
proof -
  from assms have m: "bs \<in> documents_of k" "bs \<in> documents_of l" by (simp_all add: ValidateDocument_None)
  then have "version_of k = version_of l" using begins_with_unique documents_of_version by blast
  with version_of_inject documents_of_kind [OF m(1)] documents_of_kind [OF m(2)] show ?thesis by blast
qed

lemma sample_delta_document: "ValidateDocument KindDelta (emit (delta_calls sample_delta)) = None"
proof -
  have "length (emit (delta_calls sample_delta)) \<le> MaxDocumentBytes"
    by (rule order_trans [OF emit_length])
      (simp add: sample_delta_def delta_calls_def encodeOptionalDigest_def enc_digest_def DeltaVersion_def
        zero_digest_def dataplane_limits)
  moreover have "emit (delta_calls sample_delta) \<noteq> []"
    by (rule emit_nonempty) (simp_all add: delta_calls_def)
  ultimately have "MarshalDelta sample_delta = Inr (emit (delta_calls sample_delta))"
    by (simp add: MarshalDelta_def boundedEncoding_def sample_delta_valid Let_def)
  moreover have "delta_wf sample_delta"
    by (simp add: delta_wf_def sample_delta_def opt_digest32_def delta_digests_def zero_digest_def digest32_def)
  ultimately show ?thesis
    unfolding ValidateDocument_None documents_of_def canonical_def by (auto simp: kind_defs)
qed

theorem document_kind_unique_witness:
  "ValidateDocument KindDelta (emit (delta_calls sample_delta)) = None \<and>
   ValidateDocument KindPacket (emit (delta_calls sample_delta)) \<noteq> None"
proof -
  have "KindDelta \<noteq> KindPacket" by (simp add: kind_defs)
  with sample_delta_document document_kind_unique [OF sample_delta_document] show ?thesis by blast
qed

end
