(* ===== verification/Snapshot_Directory.thy ===== *)
theory Snapshot_Directory
  imports Snapshot
begin

text \<open>
  \<open>VerifySnapshotDirectory\<close> of \<open>internal/dataplane/snapshot.go\<close> and the directory it walks
  (\<open>snapshot_root_linux.go\<close>): a tree whose nodes carry their device and link count, opened
  segment by segment without following links.
\<close>

section \<open>Directories\<close>

text \<open>
  An opened file: what \<open>Stat\<close> reports (its size is an \<open>int64\<close>), what reads deliver, and whether a read ends in an
  error, since the file may be changed while it is read or its device may fail.
\<close>

record open_file =
  of_Size :: "64 word"
  of_Content :: "byte list"
  of_StatFails :: bool
  of_ReadFails :: bool
  of_CloseFails :: bool

text \<open>
  A file has a device and a link count. Opening a \<open>Link\<close> fails because links are not followed;
  a \<open>Special\<close> node opens but is neither a regular file nor a directory. Nodes that cannot be
  opened for other reasons are absent.
\<close>

datatype tree =
    Folder nat "(string \<times> tree) list"
  | File nat nat open_file
  | Link
  | Special nat

definition child :: "tree \<Rightarrow> string \<Rightarrow> tree option" where
  "child t s = (case t of Folder _ es \<Rightarrow> map_of es s | _ \<Rightarrow> None)"

definition openSnapshotRoot :: "tree option \<Rightarrow> error + nat \<times> tree" where
  "openSnapshotRoot directory = (case directory of
     None \<Rightarrow> Inl ErrNotExist
   | Some (Folder device es) \<Rightarrow> Inr (device, Folder device es)
   | Some _ \<Rightarrow> Inl (invalid ''snapshot root is not a directory''))"

definition validateSnapshotOpenPath :: "string \<Rightarrow> error option" where
  "validateSnapshotOpenPath name =
     (if name \<noteq> ''manifest.cbor'' then ValidateSnapshotPath name else None)"

fun open_parents :: "nat \<Rightarrow> tree \<Rightarrow> string list \<Rightarrow> error + tree" where
  "open_parents device parent [] = Inr parent"
| "open_parents device parent (segment # segments) = (case child parent segment of
     None \<Rightarrow> Inl ErrNotExist
   | Some (Folder d es) \<Rightarrow>
       if d = device then open_parents device (Folder d es) segments
       else Inl (invalid ''unsafe directory component'')
   | Some _ \<Rightarrow> Inl ErrSyscall)"

definition open_file_at :: "nat \<Rightarrow> tree \<Rightarrow> string \<Rightarrow> error + open_file" where
  "open_file_at device parent segment = (case child parent segment of
     None \<Rightarrow> Inl ErrNotExist
   | Some Link \<Rightarrow> Inl ErrSyscall
   | Some (File d links f) \<Rightarrow>
       if links \<noteq> 1 \<or> d \<noteq> device then Inl (invalid ''not an admitted regular file'')
       else if of_StatFails f then Inl ErrSyscall
       else Inr f
   | Some _ \<Rightarrow> Inl (invalid ''not an admitted regular file''))"

definition OpenRegular :: "nat \<times> tree \<Rightarrow> string \<Rightarrow> error + open_file" where
  "OpenRegular root name = after (validateSnapshotOpenPath name)
     (let segments = path_split name in
      ebind (open_parents (fst root) (snd root) (butlast segments))
        (\<lambda>parent. open_file_at (fst root) parent (last segments)))"

section \<open>Reading and verifying\<close>

definition readBoundedRegular :: "nat \<times> tree \<Rightarrow> string \<Rightarrow> nat \<Rightarrow> error + byte list" where
  "readBoundedRegular root name maximum = ebind (OpenRegular root name) (\<lambda>f.
     if sint (of_Size f) \<le> 0 \<or> sint (of_Size f) > int maximum then Inl (invalid ''not a bounded regular file'')
     else
       let bs = take (maximum + 1) (of_Content f);
           failed = (of_ReadFails f \<and> length (of_Content f) \<le> maximum)
       in if failed \<or> int (length bs) \<noteq> sint (of_Size f) then Inl (invalid ''failed bounded read'') else Inr bs)"

text \<open>
  One artifact: its size, \<open>CopyN\<close> of that many octets into the hash, and a read of one more
  octet, which must find the end of the file.
\<close>

definition verify_artifact :: "nat \<times> tree \<Rightarrow> snapshot_artifact \<Rightarrow> error option" where
  "verify_artifact root a = (case OpenRegular root (sa_Path a) of
     Inl e \<Rightarrow> Some (Wrap ''open artifact'' e)
   | Inr f \<Rightarrow>
       let n = nat (sint (sa_Size a)); copied = take n (of_Content f);
           extra = take 1 (drop n (of_Content f))
       in first_err [
         fail_if (of_Size f \<noteq> sa_Size a) (invalid ''artifact type or size mismatch''),
         fail_if (length copied < n \<or> (of_ReadFails f \<and> extra = []) \<or> extra \<noteq> [] \<or> of_CloseFails f)
           (invalid ''artifact read mismatch''),
         fail_if (sha256 copied \<noteq> sa_Digest a) (invalid ''artifact digest mismatch'')])"

fun verify_artifacts :: "nat \<times> tree \<Rightarrow> snapshot_artifact list \<Rightarrow> error option" where
  "verify_artifacts root [] = None"
| "verify_artifacts root (a # as) = first_err [verify_artifact root a, verify_artifacts root as]"

definition VerifySnapshotDirectory :: "tree option \<Rightarrow> byte list \<Rightarrow> error + snapshot_manifest \<times> byte list" where
  "VerifySnapshotDirectory directory expectedID =
     (case openSnapshotRoot directory of
        Inl e \<Rightarrow> Inl (Wrap ''open snapshot root'' e)
      | Inr root \<Rightarrow>
          (case readBoundedRegular root ''manifest.cbor'' MaxSnapshotManifestBytes of
             Inl e \<Rightarrow> Inl (Wrap ''read manifest'' e)
           | Inr manifestBytes \<Rightarrow>
               let computedID = sha256 manifestBytes in
               if expectedID \<noteq> zero_digest \<and> expectedID \<noteq> computedID
               then Inl (invalid ''detached snapshot ID mismatch'')
               else ebind (UnmarshalSnapshotManifest manifestBytes) (\<lambda>manifest.
                 after (verify_artifacts root (sm_Artifacts manifest)) (Inr (manifest, computedID)))))"

section \<open>What the walk finds\<close>

text \<open>
  The file at a path of a directory: every parent is a directory on the device of the root, the
  file is regular, on the same device, and has no other name.
\<close>

inductive file_at :: "nat \<Rightarrow> tree \<Rightarrow> string list \<Rightarrow> open_file \<Rightarrow> bool" for device where
  here: "child t s = Some (File device 1 f) \<Longrightarrow> file_at device t [s] f"
| below: "child t s = Some (Folder device es) \<Longrightarrow> file_at device (Folder device es) ss f \<Longrightarrow>
     file_at device t (s # ss) f"

inductive_cases file_at_NilE: "file_at device t [] f"
inductive_simps file_at_single: "file_at device t [s] f"
inductive_simps file_at_Cons: "file_at device t (s # ss) f"

lemma no_file_at_Nil [simp]: "\<not> file_at device t [] f"
  by (auto elim: file_at_NilE)

lemma open_file_at_Inr:
  "open_file_at device t s = Inr f \<longleftrightarrow> child t s = Some (File device 1 f) \<and> \<not> of_StatFails f"
  by (auto simp: open_file_at_def split: option.splits tree.splits)

lemma file_at_single_iff: "file_at device t [s] f \<longleftrightarrow> child t s = Some (File device 1 f)"
  by (simp add: file_at_single)

lemma walk_file_at:
  "ebind (open_parents device t ss) (\<lambda>p. open_file_at device p s) = Inr f \<longleftrightarrow>
     file_at device t (ss @ [s]) f \<and> \<not> of_StatFails f"
proof (induction device t ss rule: open_parents.induct)
  case (1 device parent)
  show ?case by (simp add: open_file_at_Inr file_at_single_iff)
next
  case (2 device parent segment segments)
  have "file_at device parent (segment # (segments @ [s])) f \<longleftrightarrow>
      (\<exists>es. child parent segment = Some (Folder device es) \<and> file_at device (Folder device es) (segments @ [s]) f)"
    by (subst file_at_Cons) auto
  with 2 show ?case by (auto split: option.splits tree.splits)
qed

lemma OpenRegular_Inr:
  "OpenRegular root name = Inr f \<longleftrightarrow>
     validateSnapshotOpenPath name = None \<and> file_at (fst root) (snd root) (path_split name) f \<and> \<not> of_StatFails f"
  using walk_file_at [of "fst root" "snd root" "butlast (path_split name)" "last (path_split name)" f]
  by (simp add: OpenRegular_def after_Inr Let_def)

text \<open>A file that is read to its end without an error has this content.\<close>

definition steady :: "open_file \<Rightarrow> byte list \<Rightarrow> bool" where
  "steady f bs \<longleftrightarrow> of_Content f = bs \<and> sint (of_Size f) = int (length bs) \<and> \<not> of_StatFails f \<and> \<not> of_ReadFails f"

lemma readBoundedRegular_Inr:
  "readBoundedRegular root name maximum = Inr bs \<longleftrightarrow>
     validateSnapshotOpenPath name = None \<and> bs \<noteq> [] \<and> length bs \<le> maximum \<and>
     (\<exists>f. file_at (fst root) (snd root) (path_split name) f \<and> steady f bs)"
proof
  assume "readBoundedRegular root name maximum = Inr bs"
  then obtain f where f: "OpenRegular root name = Inr f" and b: "0 < sint (of_Size f)" "sint (of_Size f) \<le> int maximum"
    and r: "\<not> (of_ReadFails f \<and> length (of_Content f) \<le> maximum)" "bs = take (maximum + 1) (of_Content f)"
    "int (length bs) = sint (of_Size f)"
    by (cases "OpenRegular root name") (auto simp: readBoundedRegular_def Let_def split: if_splits)
  from b r have "length (of_Content f) \<le> maximum" by (simp add: min_def split: if_splits)
  with r have "bs = of_Content f" "\<not> of_ReadFails f" by simp_all
  with f b r show "validateSnapshotOpenPath name = None \<and> bs \<noteq> [] \<and> length bs \<le> maximum \<and>
     (\<exists>f. file_at (fst root) (snd root) (path_split name) f \<and> steady f bs)"
    by (auto simp: OpenRegular_Inr steady_def)
next
  assume a: "validateSnapshotOpenPath name = None \<and> bs \<noteq> [] \<and> length bs \<le> maximum \<and>
     (\<exists>f. file_at (fst root) (snd root) (path_split name) f \<and> steady f bs)"
  then obtain f where f: "file_at (fst root) (snd root) (path_split name) f" "steady f bs" by blast
  then have "OpenRegular root name = Inr f" using a by (simp add: OpenRegular_Inr steady_def)
  with a f(2) show "readBoundedRegular root name maximum = Inr bs"
    by (simp add: readBoundedRegular_def steady_def Let_def)
qed

lemma verify_artifact_None:
  assumes "sa_Size a \<noteq> 0" "sa_Size a \<le> MaxSnapshotArtifactBytes"
  shows "verify_artifact root a = None \<longleftrightarrow>
    validateSnapshotOpenPath (sa_Path a) = None \<and>
    (\<exists>f bs. file_at (fst root) (snd root) (path_split (sa_Path a)) f \<and> steady f bs \<and> \<not> of_CloseFails f \<and>
       length bs = unat (sa_Size a) \<and> sha256 bs = sa_Digest a)"
proof -
  have l: "unat (sa_Size a) \<le> 4294967296" using assms(2) by (simp add: snapshot_limits word_le_nat_alt)
  have u: "uint (sa_Size a) = int (unat (sa_Size a))" by (rule uint_nat)
  have "sint (sa_Size a) = signed_take_bit 63 (uint (sa_Size a))" by (simp add: sint_uint)
  also have "\<dots> = uint (sa_Size a)"
    by (rule signed_take_bit_int_eq_self)
      (use assms(2) in \<open>simp_all add: snapshot_limits word_le_def order_trans [of "- 9223372036854775808" 0]\<close>)
  finally have si: "sint (sa_Size a) = int (unat (sa_Size a))" unfolding u .
  have fin: "\<not> (length (take n c) < n \<or> of_ReadFails f \<and> take 1 (drop n c) = [] \<or> take 1 (drop n c) \<noteq> [] \<or> of_CloseFails f)
      \<longleftrightarrow> length c = n \<and> \<not> of_ReadFails f \<and> \<not> of_CloseFails f" for n :: nat and c :: "byte list" and f
    by (auto simp: min_def split: if_splits)
  have "verify_artifact root a = None \<longleftrightarrow>
      (\<exists>f. OpenRegular root (sa_Path a) = Inr f \<and> of_Size f = sa_Size a \<and>
         length (of_Content f) = unat (sa_Size a) \<and> \<not> of_ReadFails f \<and> \<not> of_CloseFails f \<and>
         sha256 (of_Content f) = sa_Digest a)"
    unfolding verify_artifact_def Let_def si nat_int first_err_None fail_if_None
    by (auto simp: first_err_None fail_if_None fin [unfolded de_Morgan_disj] split: sum.splits)
  also have "\<dots> \<longleftrightarrow> validateSnapshotOpenPath (sa_Path a) = None \<and>
    (\<exists>f bs. file_at (fst root) (snd root) (path_split (sa_Path a)) f \<and> steady f bs \<and> \<not> of_CloseFails f \<and>
       length bs = unat (sa_Size a) \<and> sha256 bs = sa_Digest a)"
  proof -
    have z: "sint (of_Size f) = int (length (of_Content f)) \<longleftrightarrow> of_Size f = sa_Size a"
      if "length (of_Content f) = unat (sa_Size a)" for f
      using that si by (metis signed_word_eqI)
    have "(\<exists>bs. steady f bs \<and> \<not> of_CloseFails f \<and> length bs = unat (sa_Size a) \<and> sha256 bs = sa_Digest a) \<longleftrightarrow>
        \<not> of_StatFails f \<and> of_Size f = sa_Size a \<and> length (of_Content f) = unat (sa_Size a) \<and>
        \<not> of_ReadFails f \<and> \<not> of_CloseFails f \<and> sha256 (of_Content f) = sa_Digest a" for f
      using z [of f] unfolding steady_def by blast
    then show ?thesis unfolding OpenRegular_Inr by blast
  qed
  finally show ?thesis .
qed

lemma verify_artifacts_None: "verify_artifacts root as = None \<longleftrightarrow> list_all (\<lambda>a. verify_artifact root a = None) as"
  by (induction as) (simp_all add: first_err_None)

lemma scan_artifacts_sizes:
  "scan_artifacts previous s as = Inr s' \<Longrightarrow>
     list_all (\<lambda>a. sa_Size a \<noteq> 0 \<and> sa_Size a \<le> MaxSnapshotArtifactBytes \<and> ValidateSnapshotPath (sa_Path a) = None) as"
  by (induction as arbitrary: previous s) (auto simp: scan_artifacts_Cons)

lemma accepted_manifest_sizes:
  assumes "UnmarshalSnapshotManifest bs = Inr m"
  shows "list_all (\<lambda>a. sa_Size a \<noteq> 0 \<and> sa_Size a \<le> MaxSnapshotArtifactBytes \<and>
    ValidateSnapshotPath (sa_Path a) = None) (sm_Artifacts m)"
proof -
  from snapshot_manifest_doc.unmarshal_marshal [OF assms] have "SnapshotManifest_Validate m = None"
    by (simp add: MarshalSnapshotManifest_def after_Inr)
  then obtain s where "scan_artifacts None scan_start (sm_Artifacts m) = Inr s"
    unfolding SnapshotManifest_Validate_None by blast
  then show ?thesis by (rule scan_artifacts_sizes)
qed

section \<open>Properties\<close>

text \<open>What a directory has to hold for a snapshot to be in it.\<close>

definition holds_artifact :: "nat \<Rightarrow> tree \<Rightarrow> snapshot_artifact \<Rightarrow> bool" where
  "holds_artifact device t a \<longleftrightarrow> (\<exists>f bs. file_at device t (path_split (sa_Path a)) f \<and> steady f bs \<and>
     \<not> of_CloseFails f \<and> length bs = unat (sa_Size a) \<and> sha256 bs = sa_Digest a)"

definition holds_manifest :: "nat \<Rightarrow> tree \<Rightarrow> byte list \<Rightarrow> bool" where
  "holds_manifest device t bs \<longleftrightarrow> (\<exists>f. file_at device t [''manifest.cbor''] f \<and> steady f bs)"

text \<open>
  C37: a directory is verified exactly when it holds a manifest and every artifact the manifest
  lists: regular files without other names, reached through directories of the same device and
  never through a link, read to their end, with the listed sizes and digests. The identity
  returned is the digest of the manifest, and it is the expected one when one is expected.
\<close>

theorem snapshot_verified_iff:
  "VerifySnapshotDirectory (Some (Folder device es)) expectedID = Inr (m, ident) \<longleftrightarrow>
     (\<exists>bs. holds_manifest device (Folder device es) bs \<and> ident = sha256 bs \<and>
        expectedID \<in> {zero_digest, ident} \<and> UnmarshalSnapshotManifest bs = Inr m \<and>
        list_all (holds_artifact device (Folder device es)) (sm_Artifacts m))"
proof -
  let ?r = "(device, Folder device es)"
  have p: "path_split ''manifest.cbor'' = [''manifest.cbor'']" by simp
  have "VerifySnapshotDirectory (Some (Folder device es)) expectedID = Inr (m, ident) \<longleftrightarrow>
      (\<exists>bs. readBoundedRegular ?r ''manifest.cbor'' MaxSnapshotManifestBytes = Inr bs \<and>
         ident = sha256 bs \<and> expectedID \<in> {zero_digest, ident} \<and> UnmarshalSnapshotManifest bs = Inr m \<and>
         verify_artifacts ?r (sm_Artifacts m) = None)"
    by (auto simp: VerifySnapshotDirectory_def openSnapshotRoot_def Let_def ebind_eq_Inr after_Inr
        split: sum.splits if_splits)
  also have "\<dots> \<longleftrightarrow> (\<exists>bs. holds_manifest device (Folder device es) bs \<and> ident = sha256 bs \<and>
        expectedID \<in> {zero_digest, ident} \<and> UnmarshalSnapshotManifest bs = Inr m \<and>
        list_all (holds_artifact device (Folder device es)) (sm_Artifacts m))"
  proof (rule ex_cong1)
    fix bs
    have v: "verify_artifacts ?r (sm_Artifacts m) = None \<longleftrightarrow>
        list_all (holds_artifact device (Folder device es)) (sm_Artifacts m)"
      if u: "UnmarshalSnapshotManifest bs = Inr m"
      unfolding verify_artifacts_None
    proof (rule list.pred_cong [OF refl])
      fix a assume "a \<in> set (sm_Artifacts m)"
      with accepted_manifest_sizes [OF u] have s: "sa_Size a \<noteq> 0" "sa_Size a \<le> MaxSnapshotArtifactBytes"
        and "ValidateSnapshotPath (sa_Path a) = None" by (auto simp: list_all_iff)
      then show "verify_artifact ?r a = None \<longleftrightarrow> holds_artifact device (Folder device es) a"
        unfolding verify_artifact_None [OF s] by (simp add: validateSnapshotOpenPath_def holds_artifact_def)
    qed
    have "bs \<noteq> [] \<and> length bs \<le> MaxSnapshotManifestBytes" if "UnmarshalSnapshotManifest bs = Inr m"
      using that by (cases "bs = [] \<or> length bs > MaxSnapshotManifestBytes")
        (auto simp: UnmarshalSnapshotManifest_def checkedDocument_def)
    then show "readBoundedRegular ?r ''manifest.cbor'' MaxSnapshotManifestBytes = Inr bs \<and>
         ident = sha256 bs \<and> expectedID \<in> {zero_digest, ident} \<and> UnmarshalSnapshotManifest bs = Inr m \<and>
         verify_artifacts ?r (sm_Artifacts m) = None \<longleftrightarrow>
       holds_manifest device (Folder device es) bs \<and> ident = sha256 bs \<and>
        expectedID \<in> {zero_digest, ident} \<and> UnmarshalSnapshotManifest bs = Inr m \<and>
        list_all (holds_artifact device (Folder device es)) (sm_Artifacts m)"
      using v unfolding readBoundedRegular_Inr holds_manifest_def p fst_conv snd_conv
      by (auto simp: validateSnapshotOpenPath_def)
  qed
  finally show ?thesis .
qed

end
