(* ===== verification/Go_Sort.thy ===== *)
theory Go_Sort
  imports Twirx_Prelude
begin

text \<open>
  \<open>sort.Search\<close>: the binary search as the standard library does it, and what it finds.
\<close>

text \<open>\<open>sort.Search\<close>: binary search for the first index where a monotone predicate holds.\<close>

function search_between :: "(nat \<Rightarrow> bool) \<Rightarrow> nat \<Rightarrow> nat \<Rightarrow> nat" where
  "search_between P i j =
     (if i < j then
        let h = (i + j) div 2 in if \<not> P h then search_between P (h + 1) j else search_between P i h
      else i)"
  by pat_completeness auto
termination by (relation "measure (\<lambda>(P, i, j). j - i)") auto

declare search_between.simps [simp del]

definition sort_Search :: "nat \<Rightarrow> (nat \<Rightarrow> bool) \<Rightarrow> nat" where
  "sort_Search n P = search_between P 0 n"

section \<open>What is found\<close>

lemma search_between_correct:
  assumes "i \<le> j" "\<And>k l. i \<le> k \<Longrightarrow> k \<le> l \<Longrightarrow> l < j \<Longrightarrow> P k \<Longrightarrow> P l"
  shows "i \<le> search_between P i j \<and> search_between P i j \<le> j \<and>
    (\<forall>k. i \<le> k \<and> k < search_between P i j \<longrightarrow> \<not> P k) \<and> (\<forall>k. search_between P i j \<le> k \<and> k < j \<longrightarrow> P k)"
  using assms
proof (induction P i j rule: search_between.induct)
  case (1 P i j)
  show ?case
  proof (cases "i < j")
    case True
    let ?h = "(i + j) div 2"
    have h: "i \<le> ?h" "?h < j" using True by auto
    show ?thesis
    proof (cases "P ?h")
      case p: True
      have e: "search_between P i j = search_between P i ?h"
        by (subst search_between.simps) (simp add: True p Let_def)
      have m: "P k" if "?h \<le> k" "k < j" for k using 1(4) [OF h(1) that] p by blast
      have ih: "i \<le> search_between P i ?h \<and> search_between P i ?h \<le> ?h \<and>
          (\<forall>k. i \<le> k \<and> k < search_between P i ?h \<longrightarrow> \<not> P k) \<and>
          (\<forall>k. search_between P i ?h \<le> k \<and> k < ?h \<longrightarrow> P k)"
      proof (rule 1(2) [OF True refl])
        show "\<not> \<not> P ?h" using p by simp
        show "i \<le> ?h" by (rule h(1))
        show "P l" if "i \<le> k" "k \<le> l" "l < ?h" "P k" for k l
          using 1(4) [OF that(1,2)] that(3,4) h(2) by simp
      qed
      show ?thesis unfolding e using ih m h(2) by (meson le_trans less_imp_le not_le)
    next
      case p: False
      have e: "search_between P i j = search_between P (?h + 1) j"
        by (subst search_between.simps) (simp add: True p Let_def)
      have m: "\<not> P k" if "i \<le> k" "k \<le> ?h" for k using 1(4) [OF that h(2)] p by blast
      have ih: "?h + 1 \<le> search_between P (?h + 1) j \<and> search_between P (?h + 1) j \<le> j \<and>
          (\<forall>k. ?h + 1 \<le> k \<and> k < search_between P (?h + 1) j \<longrightarrow> \<not> P k) \<and>
          (\<forall>k. search_between P (?h + 1) j \<le> k \<and> k < j \<longrightarrow> P k)"
      proof (rule 1(1) [OF True refl p])
        show "?h + 1 \<le> j" using h(2) by simp
        show "P l" if "?h + 1 \<le> k" "k \<le> l" "l < j" "P k" for k l
          using 1(4) [OF _ that(2,3,4)] that(1) h(1) by simp
      qed
      have "i \<le> search_between P (?h + 1) j" using ih h(1) by linarith
      moreover have "\<not> P k" if "i \<le> k" "k < search_between P (?h + 1) j" for k
        using ih m [of k] that by (cases "k \<le> ?h") auto
      ultimately show ?thesis unfolding e using ih by blast
    qed
  next
    case False
    then have "search_between P i j = i" by (subst search_between.simps) simp
    with 1(3) False show ?thesis by auto
  qed
qed

lemma search_between_le: "i \<le> j \<Longrightarrow> search_between P i j \<le> j"
proof (induction P i j rule: search_between.induct)
  case (1 P i j)
  show ?case
  proof (cases "i < j")
    case True
    let ?h = "(i + j) div 2"
    have "?h < j" "i \<le> ?h" using True by auto
    then show ?thesis
      using 1(1) [OF True refl] 1(2) [OF True refl] True
      by (subst search_between.simps) (auto simp: Let_def intro: order_trans)
  next
    case False
    then show ?thesis using 1(3) by (subst search_between.simps) simp
  qed
qed

lemma sort_Search_le: "sort_Search n P \<le> n"
  unfolding sort_Search_def by (rule search_between_le) simp

lemma sort_Search_sorted:
  fixes xs :: "'a::linorder list" and t :: 'a
  assumes "sorted xs"
  defines "r \<equiv> sort_Search (length xs) (\<lambda>i. xs ! i \<ge> t)"
  shows "r < length xs \<and> xs ! r = t \<longleftrightarrow> t \<in> set xs"
proof
  assume "t \<in> set xs"
  then obtain k where k: "k < length xs" "xs ! k = t" by (auto simp: in_set_conv_nth)
  have mono: "xs ! l \<ge> t" if "m \<le> l" "l < length xs" "xs ! m \<ge> t" for m l
    using sorted_nth_mono [OF assms(1) that(1,2)] that(3) by simp
  have "0 \<le> r \<and> r \<le> length xs \<and> (\<forall>m. 0 \<le> m \<and> m < r \<longrightarrow> \<not> xs ! m \<ge> t) \<and>
      (\<forall>m. r \<le> m \<and> m < length xs \<longrightarrow> xs ! m \<ge> t)"
    unfolding r_def sort_Search_def
    by (rule search_between_correct) (use mono in auto)
  then have c: "r \<le> length xs" "\<And>m. m < r \<Longrightarrow> \<not> xs ! m \<ge> t" "\<And>m. r \<le> m \<Longrightarrow> m < length xs \<Longrightarrow> xs ! m \<ge> t"
    by simp_all
  have "r \<le> k" using c(2) [of k] k by (meson not_le order_refl)
  then have "r < length xs" "xs ! r \<le> t" using k sorted_nth_mono [OF assms(1)] by auto
  with c(3) [of r] show "r < length xs \<and> xs ! r = t" by auto
qed (auto simp: in_set_conv_nth)

lemma search_between_cong:
  "(\<And>k. k < j \<Longrightarrow> P k = Q k) \<Longrightarrow> search_between P i j = search_between Q i j"
proof (induction P i j rule: search_between.induct)
  case (1 P i j)
  show ?case
  proof (cases "i < j")
    case True
    let ?h = "(i + j) div 2"
    have h: "?h < j" using True by auto
    have "P ?h = Q ?h" using 1(3) [OF h] .
    moreover have "search_between P i ?h = search_between Q i ?h" if "P ?h"
      using 1(2) [OF True refl] 1(3) h that by simp
    moreover have "search_between P (?h + 1) j = search_between Q (?h + 1) j" if "\<not> P ?h"
      using 1(1) [OF True refl that] 1(3) by blast
    ultimately show ?thesis
      using True by (subst (1 2) search_between.simps) (simp add: Let_def)
  next
    case False
    then show ?thesis by (subst (1 2) search_between.simps) simp
  qed
qed

end
