(* ===== verification/Atlas_Selection.thy ===== *)
theory Atlas_Selection
  imports Go_Url Go_Time Go_Sort File_System Sha256
begin

text \<open>
  \<open>internal/atlas/selection.go\<close> and the text checks of \<open>state.go\<close>: the selected
  universe of 500 candidate origins. Go maps from strings to numbers are association lists with
  distinct keys; decoding the JSON of an artifact is an argument of the loaders.
\<close>

section \<open>Text\<close>

definition validText :: "string \<Rightarrow> nat \<Rightarrow> bool" where
  "validText value maximum \<longleftrightarrow> value \<noteq> [] \<and> length value \<le> maximum \<and> CHR 0x00 \<notin> set value"

definition allText :: "string list \<Rightarrow> bool" where
  "allText values \<longleftrightarrow> list_all (\<lambda>v. validText v 16384) values"

definition canonicalTime :: "string \<Rightarrow> error option" where
  "canonicalTime value = fail_if (\<not> canonical_rfc3339nano value) (Msg ''timestamp is not canonical UTC'')"

fun unique_loop :: "string option \<Rightarrow> string list \<Rightarrow> bool" where
  "unique_loop previous [] = True"
| "unique_loop previous (v # vs) = (validText v 16384 \<and> previous \<noteq> Some v \<and> unique_loop (Some v) vs)"

definition uniqueSorted :: "string list \<Rightarrow> bool" where
  "uniqueSorted values \<longleftrightarrow> sorted values \<and> unique_loop None values"

definition validDigestRef :: "string \<Rightarrow> bool" where
  "validDigestRef value \<longleftrightarrow>
     length value = 71 \<and> has_prefix ''sha256:'' value \<and>
     list_all (\<lambda>c. CHR ''0'' \<le> c \<and> c \<le> CHR ''9'' \<or> CHR ''a'' \<le> c \<and> c \<le> CHR ''f'') (drop 7 value)"

definition sameOptionalText :: "string option \<Rightarrow> string option \<Rightarrow> bool" where
  "sameOptionalText left right \<longleftrightarrow> left = right"

definition containsText :: "string list \<Rightarrow> string \<Rightarrow> bool" where
  "containsText values target =
     (let index = sort_Search (length values) (\<lambda>i. values ! i \<ge> target) in
      index < length values \<and> values ! index = target)"

text \<open>The pattern \<^verbatim>\<open>^[a-z0-9]+(?:-[a-z0-9]+)*$\<close>.\<close>

definition id_char :: "char \<Rightarrow> bool" where
  "id_char c \<longleftrightarrow> CHR ''a'' \<le> c \<and> c \<le> CHR ''z'' \<or> CHR ''0'' \<le> c \<and> c \<le> CHR ''9''"

fun id_tail :: "bool \<Rightarrow> string \<Rightarrow> bool" where
  "id_tail after_char [] = after_char"
| "id_tail after_char (c # cs) =
     (if id_char c then id_tail True cs else c = CHR ''-'' \<and> after_char \<and> id_tail False cs)"

definition idPattern :: "string \<Rightarrow> bool" where
  "idPattern s = id_tail False s"

text \<open>The pattern \<^verbatim>\<open>^[a-z0-9](?:[a-z0-9.-]*[a-z0-9])?$\<close>.\<close>

definition hostPattern :: "string \<Rightarrow> bool" where
  "hostPattern s \<longleftrightarrow> s \<noteq> [] \<and> id_char (hd s) \<and> id_char (last s) \<and> list_all (\<lambda>c. id_char c \<or> c \<in> set ''.-'') s"

section \<open>The selection\<close>

definition SelectionFormat :: string where "SelectionFormat = ''tw.atlas-selection/0.2''"
definition MaxSelectionBytes :: nat where "MaxSelectionBytes = 524288"
definition RequiredCandidates :: nat where "RequiredCandidates = 500"

definition RequiredFamilyQuotas :: "(string \<times> int) list" where
  "RequiredFamilyQuotas = [
     (''government_law_public_data'', 100),
     (''science_research_scholarly_infrastructure'', 80),
     (''standards_technical_docs_open_source'', 60),
     (''economics_markets_public_disclosure'', 60),
     (''journalism_public_interest'', 50),
     (''health_public_health'', 50),
     (''climate_environment_earth_systems'', 50),
     (''education_reference_culture'', 30),
     (''humanitarian_civic_global_development'', 20)]"

record candidate =
  cd_ID :: string
  cd_CanonicalOrigin :: string
  cd_CanonicalHost :: string
  cd_DomainFamily :: string
  cd_CatalogState :: string
  cd_PublisherHint :: "string option"
  cd_JurisdictionHint :: "string option"
  cd_LanguageHints :: "string list option"

record selection =
  sl_Format :: string
  sl_Version :: string
  sl_Status :: string
  sl_CanonicalScheme :: string
  sl_Statement :: string
  sl_FamilyQuotas :: "(string \<times> int) list"
  sl_Candidates :: "candidate list"
  sl_digest :: "byte list"

definition count_of :: "(string \<times> int) list \<Rightarrow> string \<Rightarrow> int" where
  "count_of m k = (case map_of m k of None \<Rightarrow> 0 | Some v \<Rightarrow> v)"

fun count_add :: "string \<Rightarrow> int \<Rightarrow> (string \<times> int) list \<Rightarrow> (string \<times> int) list" where
  "count_add k d [] = [(k, d)]"
| "count_add k d ((l, v) # m) = (if l = k then (l, v + d) # m else (l, v) # count_add k d m)"

definition sameQuotas :: "(string \<times> int) list \<Rightarrow> (string \<times> int) list \<Rightarrow> bool" where
  "sameQuotas left right \<longleftrightarrow>
     length left = length right \<and> list_all (\<lambda>(key, expected). count_of left key = expected) right"

definition trim_char :: "char \<Rightarrow> string \<Rightarrow> string" where
  "trim_char c s = rev (dropWhile (\<lambda>x. x = c) (rev (dropWhile (\<lambda>x. x = c) s)))"

text \<open>\<open>slugHost\<close> for an ASCII host, so that a rune is an octet.\<close>

definition slugHost :: "string \<Rightarrow> string" where
  "slugHost host =
     trim_char (CHR ''-'') (map (\<lambda>c. if id_char c then c else CHR ''-'')
       (if has_prefix ''www.'' host then drop 4 host else host))"

definition canonical_candidate_url :: "string \<Rightarrow> error + url \<Rightarrow> bool" where
  "canonical_candidate_url host parsed = (case parsed of
      Inl _ \<Rightarrow> False
    | Inr u \<Rightarrow> u_Scheme u = ''https'' \<and> u_Host u = host \<and> url_Hostname u = host \<and> url_Port u = [] \<and>
        u_User u = None \<and> u_Path u = [] \<and> u_RawQuery u = [] \<and> u_Fragment u = [])"

definition candidate_validate :: "candidate \<Rightarrow> error option" where
  "candidate_validate c = first_err [
     fail_if (\<not> idPattern (cd_ID c) \<or> length (cd_ID c) > 255) (Msg ''invalid candidate ID''),
     fail_if (cd_CatalogState c \<noteq> ''candidate'') (Msg ''selection entries must remain catalog candidates''),
     fail_if (cd_PublisherHint c \<noteq> None \<or> cd_JurisdictionHint c \<noteq> None \<or> cd_LanguageHints c \<noteq> Some [])
       (Msg ''candidate identity hints must be explicit null or empty values''),
     fail_if (map_of RequiredFamilyQuotas (cd_DomainFamily c) = None) (Msg ''unknown domain family''),
     fail_if (cd_CanonicalHost c \<noteq> to_lower (cd_CanonicalHost c) \<or> length (cd_CanonicalHost c) > 253 \<or>
         \<not> hostPattern (cd_CanonicalHost c) \<or> CHR ''.'' \<notin> set (cd_CanonicalHost c))
       (Msg ''invalid canonical host''),
     fail_if (\<not> canonical_candidate_url (cd_CanonicalHost c) (url_Parse (cd_CanonicalOrigin c)))
       (Msg ''canonical origin must be an exact credential-free HTTPS origin''),
     fail_if (cd_ID c \<noteq> slugHost (cd_CanonicalHost c))
       (Msg ''candidate ID must be derived from canonical host'')]"

fun validate_candidates ::
  "string list \<Rightarrow> string list \<Rightarrow> (string \<times> int) list \<Rightarrow> candidate list \<Rightarrow> error + (string \<times> int) list" where
  "validate_candidates ids origins counts [] = Inr counts"
| "validate_candidates ids origins counts (c # cs) =
     after (first_err [
       wrap_err ''candidate'' (candidate_validate c),
       fail_if (cd_ID c \<in> set ids) (Msg ''duplicate candidate ID''),
       fail_if (cd_CanonicalOrigin c \<in> set origins) (Msg ''duplicate canonical origin'')])
       (validate_candidates (cd_ID c # ids) (cd_CanonicalOrigin c # origins)
          (count_add (cd_DomainFamily c) 1 counts) cs)"

definition Selection_Validate :: "selection \<Rightarrow> error option" where
  "Selection_Validate s =
     (case first_err [
        fail_if (sl_Format s \<noteq> SelectionFormat \<or> sl_Version s = [] \<or> sl_Status s \<noteq> ''candidate_selection'' \<or>
            sl_CanonicalScheme s \<noteq> ''https'') (Msg ''unsupported selection metadata''),
        fail_if (\<not> validText (sl_Statement s) 16384) (Msg ''invalid selection statement''),
        fail_if (length (sl_Candidates s) \<noteq> RequiredCandidates) (Msg ''selection must contain exactly 500 candidates''),
        fail_if (\<not> sameQuotas (sl_FamilyQuotas s) RequiredFamilyQuotas)
          (Msg ''family quotas do not match the accepted E3 universe'')] of
        Some e \<Rightarrow> Some e
      | None \<Rightarrow>
          (case validate_candidates [] [] [] (sl_Candidates s) of
             Inl e \<Rightarrow> Some e
           | Inr counts \<Rightarrow> fail_if (\<not> sameQuotas counts RequiredFamilyQuotas)
               (Msg ''candidate counts do not satisfy family quotas'')))"

definition digest_reference :: "byte list \<Rightarrow> string" where
  "digest_reference digest = ''sha256:'' @ hex_encode digest"

definition Selection_DigestReference :: "selection \<Rightarrow> string" where
  "Selection_DigestReference s = digest_reference (sl_digest s)"

fun find_candidate :: "string \<Rightarrow> candidate list \<Rightarrow> error + candidate" where
  "find_candidate i [] = Inl (Msg ''unknown candidate'')"
| "find_candidate i (c # cs) = (if cd_ID c = i then Inr c else find_candidate i cs)"

definition Selection_Find :: "selection \<Rightarrow> string \<Rightarrow> error + candidate" where
  "Selection_Find s i = find_candidate i (sl_Candidates s)"

text \<open>
  \<open>readBoundedRegular\<close>: the size is that of \<open>Lstat\<close>, what is read is what the file
  holds afterwards.
\<close>

definition atlas_readBoundedRegular :: "string \<Rightarrow> nat \<Rightarrow> byte list io" where
  "atlas_readBoundedRegular path maximum =
     io_bind (os_Lstat path) (\<lambda>n. case n of
         Regular bs \<Rightarrow>
           if bs = [] \<or> length bs > maximum then io_err (Msg ''artifact is not a bounded regular file'')
           else os_ReadFile path
       | _ \<Rightarrow> io_err (Msg ''artifact is not a bounded regular file''))"

definition LoadSelection :: "(byte list \<Rightarrow> error + selection) \<Rightarrow> string \<Rightarrow> selection io" where
  "LoadSelection decode path =
     io_bind (io_wrap ''read selection'' (atlas_readBoundedRegular path MaxSelectionBytes)) (\<lambda>data.
       case decode data of
         Inl e \<Rightarrow> io_err (Wrap ''decode selection'' e)
       | Inr s \<Rightarrow>
           let s' = s\<lparr>sl_digest := sha256 data\<rparr> in
           (case Selection_Validate s' of Some e \<Rightarrow> io_err e | None \<Rightarrow> io_ret s'))"

section \<open>Searching and counting\<close>

lemma containsText_iff: "sorted vs \<Longrightarrow> containsText vs t \<longleftrightarrow> t \<in> set vs"
  using sort_Search_sorted [of vs t] by (simp add: containsText_def Let_def)

lemma unique_loop_iff:
  "sorted vs \<Longrightarrow> unique_loop p vs \<longleftrightarrow>
     list_all (\<lambda>v. validText v 16384) vs \<and> distinct vs \<and> (\<forall>v. p = Some v \<longrightarrow> (vs = [] \<or> hd vs \<noteq> v))"
proof (induction vs arbitrary: p)
  case (Cons v vs)
  have "v \<notin> set vs \<longleftrightarrow> vs = [] \<or> hd vs \<noteq> v"
    using Cons.prems by (cases vs) (auto intro: order_antisym)
  with Cons show ?case by auto
qed simp

lemma uniqueSorted_iff:
  "uniqueSorted vs \<longleftrightarrow> sorted vs \<and> distinct vs \<and> list_all (\<lambda>v. validText v 16384) vs"
  using unique_loop_iff [of vs None] by (auto simp: uniqueSorted_def)

lemma count_of_add [simp]: "count_of (count_add k d m) l = count_of m l + (if k = l then d else 0)"
  by (induction m) (auto simp: count_of_def)

lemma count_add_keys: "fst ` set (count_add k d m) = insert k (fst ` set m)"
proof (induction m)
  case (Cons p m)
  then show ?case by (cases p) (auto simp: image_iff)
qed simp

lemma count_add_distinct: "distinct (map fst m) \<Longrightarrow> distinct (map fst (count_add k d m))"
proof (induction m)
  case (Cons p m)
  obtain l v where p: "p = (l, v)" by (cases p)
  show ?case
  proof (cases "l = k")
    case True
    with Cons p show ?thesis by simp
  next
    case False
    have "l \<notin> fst ` set (count_add k d m)" using Cons.prems False p by (simp add: count_add_keys)
    with Cons p False show ?thesis by simp
  qed
qed simp

lemma count_of_absent: "k \<notin> fst ` set m \<Longrightarrow> count_of m k = 0"
  by (simp add: count_of_def map_of_eq_None_iff [THEN iffD2])

lemma sameQuotas_iff:
  assumes "distinct (map fst left)" "distinct (map fst right)" "list_all (\<lambda>(k, v). v \<noteq> 0) right"
  shows "sameQuotas left right \<longleftrightarrow> fst ` set left = fst ` set right \<and> (\<forall>k. count_of left k = count_of right k)"
proof -
  have len: "length left = length right \<longleftrightarrow> card (fst ` set left) = card (fst ` set right)"
    using assms(1,2) by (metis distinct_card length_map list.set_map)
  have r: "count_of right k = v" if "(k, v) \<in> set right" for k v
    using that assms(2) by (simp add: count_of_def)
  have sub: "fst ` set right \<subseteq> fst ` set left" if "list_all (\<lambda>(key, e). count_of left key = e) right"
  proof
    fix k assume "k \<in> fst ` set right"
    then obtain v where "(k, v) \<in> set right" by auto
    with that assms(3) have "count_of left k \<noteq> 0" by (auto simp: list_all_iff)
    then show "k \<in> fst ` set left" using count_of_absent by fast
  qed
  show ?thesis
  proof
    assume *: "sameQuotas left right"
    then have "card (fst ` set left) = card (fst ` set right)" "fst ` set right \<subseteq> fst ` set left"
      using len sub by (auto simp: sameQuotas_def)
    then have e: "fst ` set left = fst ` set right" by (metis List.finite_set card_subset_eq finite_imageI)
    have "count_of left k = count_of right k" for k
    proof (cases "k \<in> fst ` set right")
      case True
      then obtain v where "(k, v) \<in> set right" by auto
      with * r show ?thesis by (auto simp: sameQuotas_def list_all_iff)
    next
      case False
      with e show ?thesis by (simp add: count_of_absent)
    qed
    with e show "fst ` set left = fst ` set right \<and> (\<forall>k. count_of left k = count_of right k)" by blast
  next
    assume "fst ` set left = fst ` set right \<and> (\<forall>k. count_of left k = count_of right k)"
    with len r show "sameQuotas left right" by (auto simp: sameQuotas_def list_all_iff)
  qed
qed

definition family_count :: "candidate list \<Rightarrow> string \<Rightarrow> nat" where
  "family_count cs family = length (filter (\<lambda>c. cd_DomainFamily c = family) cs)"

lemma validate_candidates_Inr:
  "isOK (validate_candidates ids origins counts cs) \<longleftrightarrow>
     list_all (\<lambda>c. candidate_validate c = None) cs \<and>
     distinct (map cd_ID cs) \<and> set (map cd_ID cs) \<inter> set ids = {} \<and>
     distinct (map cd_CanonicalOrigin cs) \<and> set (map cd_CanonicalOrigin cs) \<inter> set origins = {}"
  by (induction cs arbitrary: ids origins counts)
    (auto simp: isOK_iff after_Inr first_err_None fail_if_None wrap_err_None)

lemma validate_candidates_counts:
  "validate_candidates ids origins counts cs = Inr result \<Longrightarrow>
     result = fold (\<lambda>c. count_add (cd_DomainFamily c) 1) cs counts"
  by (induction cs arbitrary: ids origins counts) (auto simp: after_Inr)

lemma fold_counts:
  "count_of (fold (\<lambda>c. count_add (cd_DomainFamily c) 1) cs m) k = count_of m k + int (family_count cs k)"
  by (induction cs arbitrary: m) (auto simp: family_count_def)

lemma fold_keys:
  "fst ` set (fold (\<lambda>c. count_add (cd_DomainFamily c) 1) cs m) = cd_DomainFamily ` set cs \<union> fst ` set m"
  by (induction cs arbitrary: m) (auto simp: count_add_keys)

lemma fold_distinct:
  "distinct (map fst m) \<Longrightarrow> distinct (map fst (fold (\<lambda>c. count_add (cd_DomainFamily c) 1) cs m))"
  by (induction cs arbitrary: m) (auto simp: count_add_distinct)

lemma required_families:
  "distinct (map fst RequiredFamilyQuotas)" "list_all (\<lambda>(k, v). v \<noteq> 0) RequiredFamilyQuotas"
  by (simp_all add: RequiredFamilyQuotas_def)

section \<open>Candidates\<close>

lemma id_char_host: "id_char c \<Longrightarrow> host_char c"
  by (auto simp: id_char_def host_char_def is_alnum_def less_eq_char_def Let_def)

lemma hostPattern_plain: "hostPattern h \<Longrightarrow> list_all host_char h \<and> h \<noteq> []"
  using id_char_host by (auto simp: hostPattern_def list_all_iff host_char_def)

lemma canonical_candidate_url_iff:
  assumes "hostPattern host"
  shows "canonical_candidate_url host (url_Parse raw) \<longleftrightarrow> bare_origin ''https'' host raw"
proof -
  have h: "list_all host_char host" "host \<noteq> []" using hostPattern_plain [OF assms] by simp_all
  show ?thesis
    unfolding bare_origin_iff [OF h, symmetric] canonical_candidate_url_def
    using splitHostPort_plain [OF h(1)]
    by (auto simp: url_Hostname_def url_Port_def split: sum.splits)
qed

lemma candidate_validate_None:
  "candidate_validate c = None \<longleftrightarrow>
     idPattern (cd_ID c) \<and> length (cd_ID c) \<le> 255 \<and> cd_CatalogState c = ''candidate'' \<and>
     cd_PublisherHint c = None \<and> cd_JurisdictionHint c = None \<and> cd_LanguageHints c = Some [] \<and>
     map_of RequiredFamilyQuotas (cd_DomainFamily c) \<noteq> None \<and>
     cd_CanonicalHost c = to_lower (cd_CanonicalHost c) \<and> length (cd_CanonicalHost c) \<le> 253 \<and>
     hostPattern (cd_CanonicalHost c) \<and> CHR ''.'' \<in> set (cd_CanonicalHost c) \<and>
     bare_origin ''https'' (cd_CanonicalHost c) (cd_CanonicalOrigin c) \<and>
     cd_ID c = slugHost (cd_CanonicalHost c)"
  unfolding candidate_validate_def
  by (auto simp: first_err_None fail_if_None canonical_candidate_url_iff)

text \<open>
  The origin of a candidate. For a given host, the texts that are accepted as its canonical
  origin are \<^verbatim>\<open>https://host\<close> with the scheme in either case, possibly followed by an
  empty query and an empty fragment, so that one origin has several accepted texts.
\<close>

theorem candidate_origin_texts:
  assumes "candidate_validate c = None"
  shows "candidate_validate (c\<lparr>cd_CanonicalOrigin := raw\<rparr>) = None \<longleftrightarrow>
    (\<exists>s q f. map lower_char s = ''https'' \<and> q \<in> {[], ''?''} \<and> f \<in> {[], ''#''} \<and>
       raw = s @ ''://'' @ cd_CanonicalHost c @ q @ f)"
  using assms unfolding candidate_validate_None bare_origin_def [symmetric] by (simp cong: conj_cong) metis

definition sample_candidate :: candidate where
  "sample_candidate = \<lparr>cd_ID = ''example-org'', cd_CanonicalOrigin = ''https://www.example.org'',
     cd_CanonicalHost = ''www.example.org'', cd_DomainFamily = ''health_public_health'',
     cd_CatalogState = ''candidate'', cd_PublisherHint = None, cd_JurisdictionHint = None,
     cd_LanguageHints = Some []\<rparr>"

lemma sample_candidate_valid: "candidate_validate sample_candidate = None"
  by code_simp

theorem candidate_origin_texts_witness:
  "candidate_validate (sample_candidate\<lparr>cd_CanonicalOrigin := ''HTTPS://www.example.org?#''\<rparr>) = None"
proof -
  have "map lower_char ''HTTPS'' = ''https''" by code_simp
  then have "\<exists>s q f. map lower_char s = ''https'' \<and> q \<in> {[], ''?''} \<and> f \<in> {[], ''#''} \<and>
      ''HTTPS://www.example.org?#'' = s @ ''://'' @ cd_CanonicalHost sample_candidate @ q @ f"
    by (intro exI [of _ "''HTTPS''"] exI [of _ "''?''"] exI [of _ "''#''"]) (simp add: sample_candidate_def)
  then show ?thesis by (rule iffD2 [OF candidate_origin_texts [OF sample_candidate_valid]])
qed

lemma fold_family_counts:
  "sameQuotas (fold (\<lambda>c. count_add (cd_DomainFamily c) 1) cs []) RequiredFamilyQuotas \<longleftrightarrow>
     cd_DomainFamily ` set cs = fst ` set RequiredFamilyQuotas \<and>
     (\<forall>k. int (family_count cs k) = count_of RequiredFamilyQuotas k)"
  using sameQuotas_iff [OF fold_distinct [of "[]" cs] required_families]
  by (simp add: fold_keys fold_counts) (simp add: count_of_def)

text \<open>
  A selection is valid exactly when its metadata are, and its 500 candidates are valid, have
  different identifiers (and so different hosts) and different origins, and fill the quota of
  each of the nine families exactly.
\<close>

theorem selection_valid_iff:
  "Selection_Validate s = None \<longleftrightarrow>
     sl_Format s = SelectionFormat \<and> sl_Version s \<noteq> [] \<and> sl_Status s = ''candidate_selection'' \<and>
     sl_CanonicalScheme s = ''https'' \<and> validText (sl_Statement s) 16384 \<and>
     sameQuotas (sl_FamilyQuotas s) RequiredFamilyQuotas \<and>
     length (sl_Candidates s) = 500 \<and> list_all (\<lambda>c. candidate_validate c = None) (sl_Candidates s) \<and>
     distinct (map cd_ID (sl_Candidates s)) \<and> distinct (map cd_CanonicalOrigin (sl_Candidates s)) \<and>
     distinct (map cd_CanonicalHost (sl_Candidates s)) \<and>
     (\<forall>family. int (family_count (sl_Candidates s) family) = count_of RequiredFamilyQuotas family)"
proof -
  let ?cs = "sl_Candidates s"
  have fam: "cd_DomainFamily ` set ?cs = fst ` set RequiredFamilyQuotas"
    if "list_all (\<lambda>c. candidate_validate c = None) ?cs"
      "\<forall>family. int (family_count ?cs family) = count_of RequiredFamilyQuotas family"
  proof
    show "cd_DomainFamily ` set ?cs \<subseteq> fst ` set RequiredFamilyQuotas"
      using that(1) by (auto simp: list_all_iff candidate_validate_None map_of_eq_None_iff)
    show "fst ` set RequiredFamilyQuotas \<subseteq> cd_DomainFamily ` set ?cs"
    proof
      fix k assume "k \<in> fst ` set RequiredFamilyQuotas"
      then have "count_of RequiredFamilyQuotas k > 0"
        by (auto simp: count_of_def RequiredFamilyQuotas_def)
      moreover have "int (family_count ?cs k) = count_of RequiredFamilyQuotas k" using that(2) by blast
      ultimately have "family_count ?cs k \<noteq> 0" by linarith
      then show "k \<in> cd_DomainFamily ` set ?cs"
        by (auto simp: family_count_def filter_empty_conv)
    qed
  qed
  have hosts: "distinct (map cd_CanonicalHost ?cs)"
    if "list_all (\<lambda>c. candidate_validate c = None) ?cs" "distinct (map cd_ID ?cs)"
  proof -
    have "map cd_ID ?cs = map slugHost (map cd_CanonicalHost ?cs)"
      using that(1) by (auto simp: list_all_iff candidate_validate_None)
    with that(2) show ?thesis by (metis distinct_map)
  qed
  have v: "(case validate_candidates [] [] [] ?cs of Inl e \<Rightarrow> Some e
      | Inr counts \<Rightarrow> fail_if (\<not> sameQuotas counts RequiredFamilyQuotas)
          (Msg ''candidate counts do not satisfy family quotas'')) = None \<longleftrightarrow>
    list_all (\<lambda>c. candidate_validate c = None) ?cs \<and> distinct (map cd_ID ?cs) \<and>
    distinct (map cd_CanonicalOrigin ?cs) \<and>
    sameQuotas (fold (\<lambda>c. count_add (cd_DomainFamily c) 1) ?cs []) RequiredFamilyQuotas"
    using validate_candidates_Inr [of "[]" "[]" "[]" ?cs] validate_candidates_counts [of "[]" "[]" "[]" ?cs]
    by (cases "validate_candidates [] [] [] ?cs") (auto simp: fail_if_None)
  have split: "(case h of Some e \<Rightarrow> Some e | None \<Rightarrow> r) = None \<longleftrightarrow> h = None \<and> r = None"
    for h r :: "error option" by (cases h) simp_all
  show ?thesis
    unfolding Selection_Validate_def split v fold_family_counts
    using fam hosts by (auto simp: first_err_None fail_if_None RequiredCandidates_def)
qed

end
