(* ===== verification/Atlas_Policy.thy ===== *)
theory Atlas_Policy
  imports Atlas_Selection
begin

text \<open>
  \<open>internal/atlas/policy.go\<close>: the reviewed policy of each origin and the policy set. The
  string types of the code are strings here, with the constants of \<open>state.go\<close> as
  abbreviations; a pointer that may be nil is an option.
\<close>

section \<open>Data\<close>

definition PolicySetFormat :: string where "PolicySetFormat = ''tw.atlas-policy-set/0.2''"
definition MaxPolicySetBytes :: nat where "MaxPolicySetBytes = 8388608"
definition CrawlerToken :: string where "CrawlerToken = ''TWIRXBot''"

abbreviation PolicyPending :: string where "PolicyPending \<equiv> ''pending''"
abbreviation PolicyCompleted :: string where "PolicyCompleted \<equiv> ''completed''"
abbreviation DecisionPermitLive :: string where "DecisionPermitLive \<equiv> ''permit_live''"
abbreviation DecisionPermitWithConstraints :: string where
  "DecisionPermitWithConstraints \<equiv> ''permit_with_constraints''"
abbreviation DecisionProfileOnly :: string where "DecisionProfileOnly \<equiv> ''profile_only''"
abbreviation DecisionCatalogOnly :: string where "DecisionCatalogOnly \<equiv> ''catalog_only''"
abbreviation DecisionDeny :: string where "DecisionDeny \<equiv> ''deny''"
abbreviation DecisionUncertain :: string where "DecisionUncertain \<equiv> ''uncertain''"

record robots_assessment =
  ra_State :: string
  ra_URL :: string
  ra_ObservedAt :: "string option"
  ra_ArtifactDigest :: "string option"
  ra_ProductToken :: string

record origin_policy =
  op_ID :: string
  op_OriginID :: string
  op_CanonicalOrigin :: string
  op_ReviewState :: string
  op_Decision :: string
  op_ReviewedAt :: "string option"
  op_Reviewer :: "string option"
  op_Robots :: robots_assessment
  op_TermsState :: string
  op_TermsReference :: string
  op_Attribution :: string
  op_Authentication :: string
  op_RatePolicy :: string
  op_RetentionPolicy :: string
  op_RiskState :: string
  op_ReviewerNotes :: string
  op_EvidenceRefs :: "string list"

record policy_set =
  ps_Format :: string
  ps_Version :: string
  ps_Statement :: string
  ps_Policies :: "origin_policy list"
  ps_digest :: "byte list"

section \<open>Validation\<close>

definition validPolicyDecision :: "string \<Rightarrow> bool" where
  "validPolicyDecision value \<longleftrightarrow> value \<in> set [DecisionPermitLive, DecisionPermitWithConstraints,
     DecisionProfileOnly, DecisionCatalogOnly, DecisionDeny, DecisionUncertain]"

definition trim_slash :: "string \<Rightarrow> string" where
  "trim_slash s = (if has_suffix ''/'' s then butlast s else s)"

definition robots_url_ok :: "error + url \<Rightarrow> bool" where
  "robots_url_ok parsed = (case parsed of
      Inl _ \<Rightarrow> False
    | Inr u \<Rightarrow> u_Scheme u = ''https'' \<and> u_User u = None \<and> u_RawQuery u = [] \<and> u_Fragment u = [])"

definition opt_digest_ok :: "string option \<Rightarrow> bool" where
  "opt_digest_ok d = (case d of None \<Rightarrow> False | Some ref \<Rightarrow> validDigestRef ref)"

definition RobotsAssessment_Validate :: "string \<Rightarrow> robots_assessment \<Rightarrow> error option" where
  "RobotsAssessment_Validate canonicalOrigin r = first_err [
     fail_if (ra_State r \<notin> set [''successful'', ''unavailable'', ''unreachable'', ''redirect_limit'', ''not_observed''])
       (Msg ''invalid robots state''),
     fail_if (ra_ProductToken r \<noteq> CrawlerToken \<or> ra_URL r \<noteq> trim_slash canonicalOrigin @ ''/robots.txt'')
       (Msg ''robots identity is not bound to the canonical origin and crawler token''),
     fail_if (\<not> robots_url_ok (url_Parse (ra_URL r))) (Msg ''invalid robots URL''),
     (if ra_State r = ''not_observed'' then
        fail_if (ra_ObservedAt r \<noteq> None \<or> ra_ArtifactDigest r \<noteq> None)
          (Msg ''unobserved robots state cannot claim observation evidence'')
      else first_err [
        (case ra_ObservedAt r of
           None \<Rightarrow> Some (Msg ''robots outcome requires observed_at'')
         | Some at \<Rightarrow> wrap_err ''robots observed_at'' (canonicalTime at)),
        fail_if (ra_State r = ''successful'' \<and> \<not> opt_digest_ok (ra_ArtifactDigest r))
          (Msg ''successful robots assessment requires artifact digest''),
        fail_if (ra_ArtifactDigest r \<noteq> None \<and> \<not> opt_digest_ok (ra_ArtifactDigest r))
          (Msg ''invalid robots artifact digest'')])]"

definition validate_review :: "origin_policy \<Rightarrow> error option" where
  "validate_review p =
     (if op_ReviewState p = PolicyPending then
        fail_if (op_Decision p \<noteq> DecisionUncertain \<or> op_ReviewedAt p \<noteq> None \<or> op_Reviewer p \<noteq> None)
          (Msg ''pending policy must be uncertain and cannot claim completed review metadata'')
      else if op_ReviewState p = PolicyCompleted then
        (case (op_ReviewedAt p, op_Reviewer p) of
           (Some at, Some reviewer) \<Rightarrow> first_err [
             fail_if (\<not> validText reviewer 4096) (Msg ''completed policy requires reviewer and review time''),
             wrap_err ''reviewed_at'' (canonicalTime at)]
         | _ \<Rightarrow> Some (Msg ''completed policy requires reviewer and review time''))
      else Some (Msg ''invalid policy review state''))"

definition retrieval_decision :: "string \<Rightarrow> bool" where
  "retrieval_decision d \<longleftrightarrow> d = DecisionPermitLive \<or> d = DecisionPermitWithConstraints \<or> d = DecisionProfileOnly"

definition OriginPolicy_Validate :: "origin_policy \<Rightarrow> error option" where
  "OriginPolicy_Validate p = first_err [
     fail_if (\<not> idPattern (op_ID p) \<or> op_OriginID p \<noteq> op_ID p \<or>
         \<not> allText [op_TermsReference p, op_Attribution p, op_Authentication p, op_RatePolicy p,
              op_RetentionPolicy p, op_ReviewerNotes p]) (Msg ''invalid required policy text''),
     fail_if (\<not> validPolicyDecision (op_Decision p)) (Msg ''invalid policy decision''),
     validate_review p,
     fail_if (op_TermsState p \<notin> set [''accepted'', ''denied'', ''not_found'', ''pending'']) (Msg ''invalid terms state''),
     fail_if (op_RiskState p \<notin> set [''accepted'', ''denied'', ''pending'']) (Msg ''invalid risk state''),
     fail_if (op_EvidenceRefs p = [] \<or> \<not> uniqueSorted (op_EvidenceRefs p))
       (Msg ''policy evidence references must be sorted, unique, and non-empty''),
     RobotsAssessment_Validate (op_CanonicalOrigin p) (op_Robots p),
     fail_if (op_ReviewState p = PolicyPending \<and> (op_TermsState p \<noteq> ''pending'' \<or> op_RiskState p \<noteq> ''pending''))
       (Msg ''pending policy cannot claim completed terms or risk review''),
     (if op_ReviewState p = PolicyCompleted \<and> retrieval_decision (op_Decision p) then first_err [
        fail_if (ra_State (op_Robots p) \<noteq> ''successful'' \<and> ra_State (op_Robots p) \<noteq> ''unavailable'')
          (Msg ''retrieval-permitting decision requires successful or explicitly unavailable robots assessment''),
        fail_if (op_TermsState p \<noteq> ''accepted'' \<and> op_TermsState p \<noteq> ''not_found'')
          (Msg ''retrieval-permitting decision requires completed terms review''),
        fail_if (op_Authentication p \<noteq> ''none_required'')
          (Msg ''Genesis retrieval decision cannot require authentication''),
        fail_if (op_RiskState p \<noteq> ''accepted'')
          (Msg ''retrieval-permitting decision requires accepted risk review'')]
      else None)]"

fun validate_policies :: "selection \<Rightarrow> string list \<Rightarrow> origin_policy list \<Rightarrow> error option" where
  "validate_policies sel seen [] = None"
| "validate_policies sel seen (p # ps) =
     (case Selection_Find sel (op_OriginID p) of
        Inl e \<Rightarrow> Some (Wrap ''policy'' e)
      | Inr candidate \<Rightarrow> first_err [
          fail_if (op_OriginID p \<in> set seen) (Msg ''duplicate policy origin''),
          fail_if (op_ID p \<noteq> op_OriginID p \<or> op_CanonicalOrigin p \<noteq> cd_CanonicalOrigin candidate)
            (Msg ''policy changes selected identity''),
          wrap_err ''policy'' (OriginPolicy_Validate p),
          validate_policies sel (op_OriginID p # seen) ps])"

definition PolicySet_Validate :: "policy_set option \<Rightarrow> selection option \<Rightarrow> error option" where
  "PolicySet_Validate p selection = (case (p, selection) of
      (Some ps, Some sel) \<Rightarrow> first_err [
        fail_if (ps_Format ps \<noteq> PolicySetFormat \<or> \<not> validText (ps_Version ps) 128 \<or>
            \<not> validText (ps_Statement ps) 16384) (Msg ''unsupported policy-set metadata''),
        fail_if (ps_digest ps = replicate 32 0) (Msg ''policy set has no exact artifact identity''),
        fail_if (length (ps_Policies ps) > RequiredCandidates) (Msg ''policy set exceeds selected universe''),
        fail_if (\<not> sorted (map op_OriginID (ps_Policies ps))) (Msg ''policies must be sorted by origin_id''),
        validate_policies sel [] (ps_Policies ps)]
    | _ \<Rightarrow> Some (Msg ''unsupported policy-set metadata''))"

definition PolicySet_DigestReference :: "policy_set \<Rightarrow> string" where
  "PolicySet_DigestReference p = digest_reference (ps_digest p)"

definition PolicySet_Find :: "policy_set option \<Rightarrow> string \<Rightarrow> error + origin_policy" where
  "PolicySet_Find p originID = (case p of
      None \<Rightarrow> Inl (Msg ''policy set is nil'')
    | Some ps \<Rightarrow>
        let policies = ps_Policies ps;
            index = sort_Search (length policies) (\<lambda>i. op_OriginID (policies ! i) \<ge> originID) in
        if index \<ge> length policies \<or> op_OriginID (policies ! index) \<noteq> originID
        then Inl (Msg ''no policy artifact for origin'') else Inr (policies ! index))"

definition LoadPolicySet :: "(byte list \<Rightarrow> error + policy_set) \<Rightarrow> string \<Rightarrow> selection option \<Rightarrow> policy_set io" where
  "LoadPolicySet decode path selection =
     io_bind (io_wrap ''read policy set'' (atlas_readBoundedRegular path MaxPolicySetBytes)) (\<lambda>data.
       case decode data of
         Inl e \<Rightarrow> io_err (Wrap ''decode policy set'' e)
       | Inr ps \<Rightarrow>
           let ps' = ps\<lparr>ps_digest := sha256 data\<rparr> in
           (case PolicySet_Validate (Some ps') selection of Some e \<Rightarrow> io_err e | None \<Rightarrow> io_ret ps'))"

text \<open>\<open>encode\<close> stands for \<open>json.MarshalIndent\<close>.\<close>

definition BuildPolicySet ::
  "(policy_set \<Rightarrow> error + byte list) \<Rightarrow> string \<Rightarrow> string \<Rightarrow> origin_policy list \<Rightarrow> selection option \<Rightarrow>
   error + policy_set \<times> byte list" where
  "BuildPolicySet encode version statement policies selection =
     (let ps = \<lparr>ps_Format = PolicySetFormat, ps_Version = version, ps_Statement = statement,
                ps_Policies = policies, ps_digest = replicate 32 0\<rparr> in
      case encode ps of
        Inl e \<Rightarrow> Inl (Wrap ''encode policy set'' e)
      | Inr json \<Rightarrow>
          let data = json @ [10]; ps' = ps\<lparr>ps_digest := sha256 data\<rparr> in
          after (PolicySet_Validate (Some ps') selection) (Inr (ps', data)))"

section \<open>Laws\<close>

lemma find_candidate_Inr: "find_candidate i cs = Inr c \<Longrightarrow> c \<in> set cs \<and> cd_ID c = i"
  by (induction cs) (auto split: if_splits)

lemma find_candidate_ok: "isOK (find_candidate i cs) \<longleftrightarrow> i \<in> cd_ID ` set cs"
  by (induction cs) auto

definition policy_selected :: "selection \<Rightarrow> origin_policy \<Rightarrow> bool" where
  "policy_selected sel p \<longleftrightarrow> (case Selection_Find sel (op_OriginID p) of
      Inl _ \<Rightarrow> False
    | Inr c \<Rightarrow> op_CanonicalOrigin p = cd_CanonicalOrigin c \<and> op_ID p = op_OriginID p)"

lemma validate_policies_None:
  "validate_policies sel seen ps = None \<longleftrightarrow>
     list_all (\<lambda>p. policy_selected sel p \<and> OriginPolicy_Validate p = None) ps \<and>
     distinct (map op_OriginID ps) \<and> set (map op_OriginID ps) \<inter> set seen = {}"
proof (induction ps arbitrary: seen)
  case (Cons p ps)
  then show ?case
    by (cases "Selection_Find sel (op_OriginID p)")
      (auto simp: policy_selected_def first_err_None fail_if_None wrap_err_None)
qed simp

lemma PolicySet_Validate_None:
  "PolicySet_Validate (Some ps) (Some sel) = None \<Longrightarrow>
     sorted (map op_OriginID (ps_Policies ps)) \<and> distinct (map op_OriginID (ps_Policies ps)) \<and>
     list_all (\<lambda>p. policy_selected sel p \<and> OriginPolicy_Validate p = None) (ps_Policies ps)"
  by (simp add: PolicySet_Validate_def first_err_None fail_if_None validate_policies_None)

lemma PolicySet_Find_Inr:
  "PolicySet_Find (Some ps) i = Inr p \<Longrightarrow> p \<in> set (ps_Policies ps) \<and> op_OriginID p = i"
  by (auto simp: PolicySet_Find_def Let_def split: if_splits)

lemma PolicySet_Find_complete:
  assumes "sorted (map op_OriginID (ps_Policies ps))" "distinct (map op_OriginID (ps_Policies ps))"
    and "p \<in> set (ps_Policies ps)"
  shows "PolicySet_Find (Some ps) (op_OriginID p) = Inr p"
proof -
  let ?ids = "map op_OriginID (ps_Policies ps)" and ?n = "length (ps_Policies ps)"
  let ?P = "\<lambda>i. op_OriginID (ps_Policies ps ! i) \<ge> op_OriginID p"
  let ?r = "sort_Search ?n ?P"
  have "sort_Search (length ?ids) (\<lambda>i. ?ids ! i \<ge> op_OriginID p) = ?r"
    unfolding sort_Search_def length_map
    by (rule search_between_cong) simp
  then have r: "?r < ?n" "op_OriginID (ps_Policies ps ! ?r) = op_OriginID p"
    using sort_Search_sorted [OF assms(1), of "op_OriginID p"] assms(3) by auto
  moreover have "ps_Policies ps ! ?r = p"
    using r assms(2,3) by (metis distinct_map inj_onD nth_mem)
  ultimately show ?thesis by (simp add: PolicySet_Find_def Let_def)
qed

end
