(* ===== verification/Atlas_Record.thy ===== *)
theory Atlas_Record
  imports Atlas_Policy
begin

text \<open>
  The origin record of the registry: \<open>internal/atlas/state.go\<close>, the descriptors of
  \<open>capability.go\<close> and the scheduler state of \<open>frontier.go\<close>, with the validators of
  each dimension. Counters that are added up are \<open>64 word\<close> read as signed numbers, numbers
  that are only compared are \<open>int\<close>.
\<close>

section \<open>Technical stages\<close>

definition technicalOrder :: "string list" where
  "technicalOrder = [''unprofiled'', ''profiled'', ''observed'', ''native_schema'', ''compiled'',
     ''semantically_linked'', ''live'']"

fun index_in :: "string \<Rightarrow> nat \<Rightarrow> string list \<Rightarrow> int" where
  "index_in s i [] = - 1"
| "index_in s i (x # xs) = (if x = s then int i else index_in s (i + 1) xs)"

definition TechnicalStage_Index :: "string \<Rightarrow> int" where
  "TechnicalStage_Index s = index_in s 0 technicalOrder"

abbreviation TechnicalObserved :: string where "TechnicalObserved \<equiv> ''observed''"
abbreviation TechnicalNativeSchema :: string where "TechnicalNativeSchema \<equiv> ''native_schema''"
abbreviation TechnicalCompiled :: string where "TechnicalCompiled \<equiv> ''compiled''"
abbreviation TechnicalSemanticallyLinked :: string where "TechnicalSemanticallyLinked \<equiv> ''semantically_linked''"
abbreviation TechnicalLive :: string where "TechnicalLive \<equiv> ''live''"
abbreviation ScopeGenesisPublic :: string where "ScopeGenesisPublic \<equiv> ''genesis_public''"
abbreviation ScopeTestFixture :: string where "ScopeTestFixture \<equiv> ''test_fixture''"

section \<open>Descriptors\<close>

record interface_declaration =
  id_ID :: string
  id_Kind :: string
  id_DeclarationStatus :: string
  id_EndpointOrLocator :: string
  id_Authentication :: string
  id_Health :: string
  id_ExecutionStatus :: string
  id_EvidenceDigest :: string

record capability_candidate =
  cc_NativeID :: string
  cc_NativeLabel :: string
  cc_SemanticOperationCandidates :: "string list"
  cc_InputShapeRef :: "string option"
  cc_OutputShapeRef :: "string option"
  cc_EffectClass :: string
  cc_Status :: string
  cc_InterfaceRefs :: "string list"
  cc_EvidenceDigest :: string

record offer_candidate =
  oc_ID :: string
  oc_NativeLabel :: string
  oc_Status :: string
  oc_AccessClass :: string
  oc_TermsRef :: string
  oc_PriceStatus :: string
  oc_EvidenceDigest :: string

record access_metadata =
  am_Class :: string
  am_AssessmentStatus :: string
  am_LicenseOrTermsRefs :: "string list"
  am_Attribution :: string
  am_RatePolicy :: string
  am_PaymentProtocolCandidates :: "string list"
  am_PriceDiscoveryStatus :: string
  am_EvidenceDigest :: "string option"
  am_OfferCandidates :: "offer_candidate list"

record cost_estimate =
  ce_AmountMicrounits :: uint64
  ce_Currency :: string
  ce_Basis :: string

record economics_metadata =
  em_FundingClass :: string
  em_Requests :: uint64
  em_TransferredBytes :: uint64
  em_EvidenceBytes :: uint64
  em_CPUMilliseconds :: uint64
  em_HumanReviewSeconds :: uint64
  em_InfrastructureCostEstimate :: "cost_estimate option"

record readiness_signal =
  sg_Kind :: string
  sg_Presence :: string
  sg_Source :: string
  sg_ObservationClass :: string
  sg_ObservedAt :: "string option"
  sg_Freshness :: string
  sg_StandardStatus :: string
  sg_EvidenceDigest :: "string option"

section \<open>Dimensions\<close>

record attestation =
  tt_Status :: string
  tt_ReviewedAt :: "string option"
  tt_Reviewer :: "string option"
  tt_EvidenceRefs :: "string list"

text \<open>
  \<open>CatalogDimension\<close>, \<open>TechnicalDimension\<close>, \<open>AdapterTrustDimension\<close> and
  \<open>MappingTrustDimension\<close> have the same four fields: a state and its attestation.
\<close>

record policy_dimension =
  pd_ReviewState :: string
  pd_Decision :: string
  pd_ReviewedAt :: "string option"
  pd_Reviewer :: "string option"
  pd_PolicyID :: "string option"
  pd_PolicySetDigest :: "string option"
  pd_RobotsDigest :: "string option"
  pd_Attribution :: string
  pd_Authentication :: string
  pd_RatePolicy :: string
  pd_RetentionPolicy :: string
  pd_TermsReference :: string
  pd_RiskState :: string
  pd_ReviewerNotes :: string

record publisher =
  pb_Name :: string
  pb_Kind :: string
  pb_Status :: string
  pb_ReviewedAt :: "string option"
  pb_Reviewer :: "string option"
  pb_EvidenceRefs :: "string list"
  pb_ManifestURL :: "string option"

record health_dimension =
  hl_Status :: string
  hl_CheckedAt :: "string option"
  hl_EvidenceRefs :: "string list"

record discovery =
  ds_Sources :: "string list"
  ds_ProfiledAt :: "string option"
  ds_RobotsURL :: "string option"
  ds_SitemapURLs :: "string list"
  ds_FeedURLs :: "string list"
  ds_APIDescriptions :: "string list"
  ds_StructuredData :: "string list"
  ds_PublicEndpoints :: "string list"

record scheduler_state =
  ss_State :: string
  ss_LastAttempt :: "string option"
  ss_CooldownUntil :: "string option"
  ss_ConsecutiveFailures :: int
  ss_PublicValue :: int
  ss_SemanticNovelty :: int
  ss_DemonstratedDemand :: int
  ss_ChangeProbability :: int
  ss_HealthNeed :: int
  ss_EstimatedRequestCost :: int

record runtime_record =
  rt_LastSeen :: "string option"
  rt_LastObserved :: "string option"
  rt_RefreshClass :: string
  rt_RequestBudget :: int
  rt_StorageBudgetByte :: int
  rt_Scheduler :: scheduler_state

record semantic_record =
  sr_NativeModule :: "string option"
  sr_AdapterID :: "string option"
  sr_ConformanceRef :: "string option"
  sr_ContractSetDigest :: "string option"
  sr_MappingModules :: "string list"
  sr_ConceptIDs :: "string list"
  sr_OperationIDs :: "string list"
  sr_SemanticClosureDigests :: "string list"

record artifact_reference =
  ar_Path :: string
  ar_Digest :: string

record evidence_record =
  er_ObservationIDs :: "string list"
  er_Artifacts :: "artifact_reference list"

record origin_record =
  or_ID :: string
  or_Scope :: string
  or_CanonicalOrigin :: string
  or_RegistrableDomain :: string
  or_ExecutionCatalogIDs :: "string list"
  or_Catalog :: attestation
  or_Policy :: policy_dimension
  or_Technical :: attestation
  or_Publisher :: publisher
  or_Health :: health_dimension
  or_AdapterTrust :: attestation
  or_MappingTrust :: attestation
  or_Jurisdiction :: string
  or_Languages :: "string list"
  or_DomainFamilies :: "string list"
  or_AuthorityClass :: string
  or_Discovery :: discovery
  or_Interfaces :: "interface_declaration list"
  or_Capabilities :: "capability_candidate list"
  or_Access :: access_metadata
  or_Economics :: economics_metadata
  or_Signals :: "readiness_signal list"
  or_Runtime :: runtime_record
  or_Semantics :: semantic_record
  or_Evidence :: evidence_record

section \<open>Enumerations\<close>

definition validInterfaceKind :: "string \<Rightarrow> bool" where
  "validInterfaceKind v \<longleftrightarrow> v \<in> set [''twirx_native'', ''mcp'', ''openapi'', ''graphql'', ''rest'', ''rss'',
     ''atom'', ''jsonld'', ''microdata'', ''semantic_html'', ''webmcp'', ''browser'', ''search_discovery'']"

definition validDeclarationStatus :: "string \<Rightarrow> bool" where
  "validDeclarationStatus v \<longleftrightarrow> v \<in> set [''publisher_declared'', ''observed'', ''inferred'', ''archive_derived'']"

definition validInterfaceExecutionStatus :: "string \<Rightarrow> bool" where
  "validInterfaceExecutionStatus v \<longleftrightarrow> v \<in> set [''descriptive_only'', ''not_admitted'', ''admitted_public_read'']"

definition validHealthStatus :: "string \<Rightarrow> bool" where
  "validHealthStatus v \<longleftrightarrow> v \<in> set [''unknown'', ''healthy'', ''degraded'', ''stale'', ''suspended'', ''revoked'']"

definition validEffectClass :: "string \<Rightarrow> bool" where
  "validEffectClass v \<longleftrightarrow> v \<in> set [''public_read'', ''authenticated_read'', ''reversible_write'',
     ''stateful_commitment'', ''financial'', ''legal_or_material'', ''destructive'', ''unknown'']"

definition validCapabilityStatus :: "string \<Rightarrow> bool" where
  "validCapabilityStatus v \<longleftrightarrow> v \<in> set [''observed'', ''candidate'', ''reviewed'', ''admitted'']"

definition validAccessClass :: "string \<Rightarrow> bool" where
  "validAccessClass v \<longleftrightarrow> v \<in> set [''public_free'', ''authenticated'', ''subscription'', ''metered'',
     ''paid_per_use'', ''quote_required'', ''restricted'', ''unknown'']"

definition validAccessAssessmentStatus :: "string \<Rightarrow> bool" where
  "validAccessAssessmentStatus v \<longleftrightarrow> v \<in> set [''not_assessed'', ''candidate'', ''observed'', ''reviewed'']"

definition validPriceStatus :: "string \<Rightarrow> bool" where
  "validPriceStatus v \<longleftrightarrow> v \<in> set [''not_assessed'', ''not_found'', ''candidate'', ''source_stated'', ''reviewed'']"

definition validOfferStatus :: "string \<Rightarrow> bool" where
  "validOfferStatus v \<longleftrightarrow> v \<in> set [''candidate'', ''observed'', ''reviewed'']"

definition validFundingClass :: "string \<Rightarrow> bool" where
  "validFundingClass v \<longleftrightarrow> v \<in> set [''commons'', ''publisher'', ''sponsor'', ''usage'', ''self_hosted'', ''unknown'']"

definition validSignalKind :: "string \<Rightarrow> bool" where
  "validSignalKind v \<longleftrightarrow> v \<in> set [''twirx_native'', ''mcp'', ''openapi'', ''graphql'', ''api'', ''rss'', ''atom'',
     ''jsonld'', ''webmcp'', ''payment_requirement'', ''commercial_offer'', ''oauth_protected_resource'',
     ''agent_skill'', ''alternate_machine_representation'']"

definition validSignalPresence :: "string \<Rightarrow> bool" where
  "validSignalPresence v \<longleftrightarrow> v \<in> set [''present'', ''absent'', ''unknown'']"

definition validObservationClass :: "string \<Rightarrow> bool" where
  "validObservationClass v \<longleftrightarrow> v \<in> set [''publisher_declared'', ''observed'', ''inferred'', ''archive_derived'', ''not_assessed'']"

definition validStandardStatus :: "string \<Rightarrow> bool" where
  "validStandardStatus v \<longleftrightarrow> v \<in> set [''finalized'', ''draft'', ''proposal'', ''experimental'', ''not_applicable'', ''unknown'']"

definition validAdapterTrust :: "string \<Rightarrow> bool" where
  "validAdapterTrust v \<longleftrightarrow> v \<in> set [''none'', ''candidate'', ''reviewed'', ''conformant'', ''revoked'']"

definition validMappingTrust :: "string \<Rightarrow> bool" where
  "validMappingTrust v \<longleftrightarrow> v \<in> set [''none'', ''candidate'', ''reviewed'', ''disputed'', ''revoked'']"

end
