(* ===== verification/Atlas_Registry.thy ===== *)
theory Atlas_Registry
  imports Atlas_Record
begin

text \<open>
  The validators of \<open>internal/atlas\<close>: the descriptors of \<open>capability.go\<close>, the
  scheduler of \<open>frontier.go\<close>, the dimensions of an origin record, the registry and its
  evidence files in \<open>state.go\<close>.
\<close>

section \<open>Attestations\<close>

definition validEvidenceAttestation :: "string \<Rightarrow> string \<Rightarrow> string list \<Rightarrow> bool" where
  "validEvidenceAttestation reviewedAt reviewer evidence \<longleftrightarrow>
     canonicalTime reviewedAt = None \<and> validText reviewer 4096 \<and> length evidence > 0 \<and> uniqueSorted evidence"

definition attested :: "string option \<Rightarrow> string option \<Rightarrow> string list \<Rightarrow> bool" where
  "attested reviewedAt reviewer evidence = (case (reviewedAt, reviewer) of
      (Some at, Some who) \<Rightarrow> validEvidenceAttestation at who evidence
    | _ \<Rightarrow> False)"

definition validateTrustAttestation :: "string \<Rightarrow> attestation \<Rightarrow> error option" where
  "validateTrustAttestation zero d =
     (if tt_Status d = zero then
        fail_if (tt_ReviewedAt d \<noteq> None \<or> tt_Reviewer d \<noteq> None \<or> length (tt_EvidenceRefs d) \<noteq> 0)
          (Msg ''none status cannot carry trust evidence'')
      else fail_if (\<not> attested (tt_ReviewedAt d) (tt_Reviewer d) (tt_EvidenceRefs d))
        (Msg ''non-none status requires dated evidence''))"

section \<open>Scheduler\<close>

definition refreshIntervals :: "(string \<times> int) list" where
  "refreshIntervals = [(''hot'', 3600000000000), (''warm'', 86400000000000),
     (''cool'', 604800000000000), (''archival'', 2592000000000000)]"

definition priority_factors :: "scheduler_state \<Rightarrow> int list" where
  "priority_factors s = [ss_PublicValue s, ss_SemanticNovelty s, ss_DemonstratedDemand s,
     ss_ChangeProbability s, ss_HealthNeed s, ss_EstimatedRequestCost s]"

definition opt_time :: "string option \<Rightarrow> error option" where
  "opt_time v = (case v of None \<Rightarrow> None | Some at \<Rightarrow> canonicalTime at)"

definition SchedulerState_Validate :: "runtime_record \<Rightarrow> scheduler_state \<Rightarrow> error option" where
  "SchedulerState_Validate runtime s = first_err [
     fail_if (ss_State s \<notin> set [''disabled'', ''ready'', ''cooldown''])
       (Msg ''scheduler state must be disabled, ready, or cooldown''),
     fail_if (ss_ConsecutiveFailures s < 0 \<or> ss_ConsecutiveFailures s > 1000)
       (Msg ''scheduler failure count outside bounds''),
     first_err (map (\<lambda>v. fail_if (v < 0 \<or> v > 100) (Msg ''scheduler factor outside bounds'')) (priority_factors s)),
     wrap_err ''scheduler last_attempt'' (opt_time (ss_LastAttempt s)),
     wrap_err ''scheduler cooldown_until'' (opt_time (ss_CooldownUntil s)),
     (if ss_State s = ''disabled'' then
        fail_if (ss_CooldownUntil s \<noteq> None \<or> list_ex (\<lambda>v. v \<noteq> 0) (priority_factors s))
          (Msg ''disabled scheduler cannot carry active priority or cooldown state'')
      else first_err [
        fail_if (rt_RequestBudget runtime \<le> 0 \<or> rt_StorageBudgetByte runtime \<le> 0)
          (Msg ''active scheduler requires positive request and storage budgets''),
        fail_if (map_of refreshIntervals (rt_RefreshClass runtime) = None)
          (Msg ''active scheduler requires hot, warm, cool, or archival refresh class''),
        fail_if (list_ex (\<lambda>v. v = 0) (priority_factors s))
          (Msg ''active scheduler requires explicit non-zero priority factors''),
        fail_if (ss_State s = ''ready'' \<and> ss_CooldownUntil s \<noteq> None \<or>
            ss_State s = ''cooldown'' \<and> ss_CooldownUntil s = None)
          (Msg ''scheduler cooldown state is inconsistent'')])]"

section \<open>Descriptors\<close>

definition capability_char :: "char \<Rightarrow> bool" where
  "capability_char c \<longleftrightarrow> is_alnum c \<or> c \<in> set ''._:/-''"

definition capabilityIDPattern :: "string \<Rightarrow> bool" where
  "capabilityIDPattern s = (case s of [] \<Rightarrow> False
    | c # cs \<Rightarrow> is_alnum c \<and> length cs \<le> 254 \<and> list_all capability_char cs)"

definition interface_ok :: "string \<Rightarrow> interface_declaration \<Rightarrow> bool" where
  "interface_ok previous d \<longleftrightarrow>
     \<not> id_ID d \<le> previous \<and> idPattern (id_ID d) \<and> validInterfaceKind (id_Kind d) \<and>
     validDeclarationStatus (id_DeclarationStatus d) \<and> validInterfaceExecutionStatus (id_ExecutionStatus d) \<and>
     allText [id_EndpointOrLocator d, id_Authentication d] \<and> validHealthStatus (id_Health d) \<and>
     validDigestRef (id_EvidenceDigest d)"

fun validate_interfaces :: "string list \<Rightarrow> string \<Rightarrow> interface_declaration list \<Rightarrow> error option" where
  "validate_interfaces catalogIDs previous [] = None"
| "validate_interfaces catalogIDs previous (d # ds) = first_err [
     fail_if (\<not> interface_ok previous d)
       (Msg ''interfaces must be sorted, unique, bounded, evidence-bound declarations''),
     (if id_ExecutionStatus d = ''admitted_public_read'' then first_err [
        fail_if (id_Kind d \<noteq> ''rest'' \<and> id_Kind d \<noteq> ''twirx_native'')
          (Msg ''E3.2 cannot admit browser, WebMCP, MCP, authenticated, or other new interface routes''),
        fail_if (\<not> list_ex (\<lambda>i. id_EndpointOrLocator d = ''origins/catalog.json#'' @ i) catalogIDs)
          (Msg ''admitted E3.2 interface must bind an existing E2 execution-catalog entry'')]
      else None),
     validate_interfaces catalogIDs (id_ID d) ds]"

definition interface_map :: "interface_declaration list \<Rightarrow> string \<Rightarrow> interface_declaration option" where
  "interface_map ds = map_of (map (\<lambda>d. (id_ID d, d)) ds)"

definition opt_text_ok :: "string option \<Rightarrow> bool" where
  "opt_text_ok v = (case v of None \<Rightarrow> True | Some t \<Rightarrow> validText t 16384)"

definition capability_ok :: "string \<Rightarrow> capability_candidate \<Rightarrow> bool" where
  "capability_ok previous c \<longleftrightarrow>
     \<not> cc_NativeID c \<le> previous \<and> capabilityIDPattern (cc_NativeID c) \<and> validCapabilityStatus (cc_Status c) \<and>
     validEffectClass (cc_EffectClass c) \<and> allText [cc_NativeLabel c] \<and>
     uniqueSorted (cc_SemanticOperationCandidates c) \<and> uniqueSorted (cc_InterfaceRefs c) \<and>
     cc_InterfaceRefs c \<noteq> [] \<and> validDigestRef (cc_EvidenceDigest c)"

definition validate_references :: "interface_declaration list \<Rightarrow> capability_candidate \<Rightarrow> error option" where
  "validate_references interfaces c = first_err (map (\<lambda>reference.
     case interface_map interfaces reference of
       None \<Rightarrow> Some (Msg ''capability references unknown interface'')
     | Some d \<Rightarrow> fail_if (cc_Status c = ''admitted'' \<and> id_ExecutionStatus d \<noteq> ''admitted_public_read'')
         (Msg ''admitted capability requires an admitted public-read interface'')) (cc_InterfaceRefs c))"

fun validate_capabilities :: "origin_record \<Rightarrow> string \<Rightarrow> capability_candidate list \<Rightarrow> error option" where
  "validate_capabilities r previous [] = None"
| "validate_capabilities r previous (c # cs) = first_err [
     fail_if (\<not> capability_ok previous c)
       (Msg ''capabilities must be sorted, unique, bounded, evidence-bound declarations''),
     fail_if (\<not> opt_text_ok (cc_InputShapeRef c) \<or> \<not> opt_text_ok (cc_OutputShapeRef c))
       (Msg ''capability shape reference is invalid''),
     validate_references (or_Interfaces r) c,
     fail_if (cc_Status c = ''admitted'' \<and>
         (cc_EffectClass c \<noteq> ''public_read'' \<or>
          TechnicalStage_Index (tt_Status (or_Technical r)) < TechnicalStage_Index TechnicalCompiled \<or>
          \<not> containsText (sr_OperationIDs (or_Semantics r)) (cc_NativeID c)))
       (Msg ''E3.2 admits only existing compiled public-read operations''),
     validate_capabilities r (cc_NativeID c) cs]"

definition offer_ok :: "string \<Rightarrow> offer_candidate \<Rightarrow> bool" where
  "offer_ok previous x \<longleftrightarrow>
     \<not> oc_ID x \<le> previous \<and> idPattern (oc_ID x) \<and> allText [oc_NativeLabel x, oc_TermsRef x] \<and>
     validOfferStatus (oc_Status x) \<and> validAccessClass (oc_AccessClass x) \<and> oc_AccessClass x \<noteq> ''unknown'' \<and>
     validPriceStatus (oc_PriceStatus x) \<and> validDigestRef (oc_EvidenceDigest x)"

fun validate_offers :: "string \<Rightarrow> offer_candidate list \<Rightarrow> error option" where
  "validate_offers previous [] = None"
| "validate_offers previous (x # xs) = first_err [
     fail_if (\<not> offer_ok previous x)
       (Msg ''offer candidates must be sorted, unique, provisional, and evidence-bound''),
     validate_offers (oc_ID x) xs]"

definition validateAccessMetadata :: "access_metadata \<Rightarrow> error option" where
  "validateAccessMetadata a = first_err [
     fail_if (\<not> validAccessClass (am_Class a) \<or> \<not> validAccessAssessmentStatus (am_AssessmentStatus a) \<or>
         \<not> validPriceStatus (am_PriceDiscoveryStatus a) \<or> \<not> uniqueSorted (am_LicenseOrTermsRefs a) \<or>
         \<not> uniqueSorted (am_PaymentProtocolCandidates a) \<or> \<not> allText [am_Attribution a, am_RatePolicy a])
       (Msg ''invalid access metadata''),
     (if am_AssessmentStatus a = ''not_assessed'' then
        fail_if (am_Class a \<noteq> ''unknown'' \<or> am_EvidenceDigest a \<noteq> None \<or>
            am_PriceDiscoveryStatus a \<noteq> ''not_assessed'' \<or> length (am_OfferCandidates a) \<noteq> 0)
          (Msg ''unassessed access cannot claim class, evidence, price, or offers'')
      else fail_if (\<not> opt_digest_ok (am_EvidenceDigest a)) (Msg ''assessed access metadata requires evidence'')),
     validate_offers [] (am_OfferCandidates a)]"

definition validateEconomicsMetadata :: "economics_metadata \<Rightarrow> error option" where
  "validateEconomicsMetadata e = first_err [
     fail_if (\<not> validFundingClass (em_FundingClass e) \<or> sint (em_Requests e) < 0 \<or>
         sint (em_TransferredBytes e) < 0 \<or> sint (em_EvidenceBytes e) < 0 \<or>
         sint (em_CPUMilliseconds e) < 0 \<or> sint (em_HumanReviewSeconds e) < 0)
       (Msg ''invalid non-negative economics telemetry''),
     (case em_InfrastructureCostEstimate e of
        None \<Rightarrow> None
      | Some c \<Rightarrow> fail_if (sint (ce_AmountMicrounits c) < 0 \<or> \<not> allText [ce_Currency c, ce_Basis c])
          (Msg ''invalid infrastructure cost estimate''))]"

fun validate_signals :: "string \<Rightarrow> readiness_signal list \<Rightarrow> error option" where
  "validate_signals previous [] = None"
| "validate_signals previous (g # gs) = first_err [
     fail_if (sg_Kind g \<le> previous \<or> \<not> validSignalKind (sg_Kind g) \<or> \<not> validSignalPresence (sg_Presence g) \<or>
         \<not> validObservationClass (sg_ObservationClass g) \<or> \<not> validStandardStatus (sg_StandardStatus g) \<or>
         \<not> allText [sg_Source g, sg_Freshness g])
       (Msg ''publisher-readiness signals must be sorted, unique, bounded declarations''),
     (if sg_Presence g = ''unknown'' then
        fail_if (sg_ObservationClass g \<noteq> ''not_assessed'' \<or> sg_ObservedAt g \<noteq> None \<or> sg_EvidenceDigest g \<noteq> None)
          (Msg ''unknown readiness signal cannot claim observation evidence'')
      else fail_if (sg_ObservedAt g = None \<or> opt_time (sg_ObservedAt g) \<noteq> None \<or>
          \<not> opt_digest_ok (sg_EvidenceDigest g))
        (Msg ''present or absent readiness signal requires dated evidence'')),
     validate_signals (sg_Kind g) gs]"

text \<open>Every digest a descriptor names, in the order of the checks.\<close>

definition descriptor_digests :: "origin_record \<Rightarrow> string list" where
  "descriptor_digests r =
     map id_EvidenceDigest (or_Interfaces r) @ map cc_EvidenceDigest (or_Capabilities r) @
     (case am_EvidenceDigest (or_Access r) of None \<Rightarrow> [] | Some d \<Rightarrow> [d]) @
     map oc_EvidenceDigest (am_OfferCandidates (or_Access r)) @
     concat (map (\<lambda>g. case sg_EvidenceDigest g of None \<Rightarrow> [] | Some d \<Rightarrow> [d]) (or_Signals r))"

definition validateDescriptorEvidenceBindings :: "origin_record \<Rightarrow> error option" where
  "validateDescriptorEvidenceBindings r =
     (let bound = map ar_Digest (er_Artifacts (or_Evidence r)) in
      first_err (map (\<lambda>digest. fail_if (digest \<notin> set bound)
        (Msg ''descriptor evidence digest is not bound by the origin record'')) (descriptor_digests r)))"

definition validateCapabilityMetadata :: "origin_record \<Rightarrow> error option" where
  "validateCapabilityMetadata r = first_err [
     validate_interfaces (or_ExecutionCatalogIDs r) [] (or_Interfaces r),
     validate_capabilities r [] (or_Capabilities r),
     validateAccessMetadata (or_Access r),
     validateEconomicsMetadata (or_Economics r),
     validate_signals [] (or_Signals r),
     validateDescriptorEvidenceBindings r]"

section \<open>Dimensions\<close>

definition validatePolicyDimension :: "policy_dimension \<Rightarrow> error option" where
  "validatePolicyDimension p = first_err [
     fail_if (\<not> validPolicyDecision (pd_Decision p)) (Msg ''invalid policy decision''),
     (if pd_ReviewState p = PolicyPending then
        fail_if (pd_Decision p \<noteq> DecisionUncertain \<or> pd_ReviewedAt p \<noteq> None \<or> pd_Reviewer p \<noteq> None)
          (Msg ''pending policy must remain uncertain and cannot claim completed review metadata'')
      else if pd_ReviewState p = PolicyCompleted then first_err [
        fail_if (pd_ReviewedAt p = None \<or> pd_Reviewer p = None \<or> pd_PolicyID p = None \<or>
            \<not> opt_digest_ok (pd_PolicySetDigest p))
          (Msg ''completed policy requires reviewer, time, and exact policy binding''),
        fail_if (opt_time (pd_ReviewedAt p) \<noteq> None \<or>
            \<not> (case pd_Reviewer p of None \<Rightarrow> False | Some who \<Rightarrow> validText who 4096))
          (Msg ''completed policy review metadata is invalid'')]
      else Some (Msg ''invalid policy review state'')),
     fail_if ((pd_PolicyID p = None) \<noteq> (pd_PolicySetDigest p = None))
       (Msg ''policy ID and policy-set digest must be present together''),
     fail_if (\<not> allText [pd_Attribution p, pd_Authentication p, pd_RatePolicy p, pd_RetentionPolicy p,
         pd_TermsReference p, pd_RiskState p, pd_ReviewerNotes p])
       (Msg ''policy dimension contains invalid bounded text'')]"

definition safeRepositoryPath :: "string \<Rightarrow> bool" where
  "safeRepositoryPath path \<longleftrightarrow>
     \<not> (path = [] \<or> has_prefix ''/'' path \<or> filepath_Clean path \<noteq> path) \<and>
     path \<noteq> ''..'' \<and> \<not> has_prefix ''../'' path \<and> CHR 0x5C \<notin> set path"

fun check_artifacts :: "string option \<Rightarrow> artifact_reference list \<Rightarrow> error option" where
  "check_artifacts lastPath [] = None"
| "check_artifacts lastPath (a # as) = first_err [
     fail_if (\<not> safeRepositoryPath (ar_Path a) \<or> \<not> validDigestRef (ar_Digest a) \<or>
         (case lastPath of None \<Rightarrow> False | Some p \<Rightarrow> ar_Path a \<le> p))
       (Msg ''evidence artifacts must have unique sorted safe paths and SHA-256 digests''),
     check_artifacts (Some (ar_Path a)) as]"

definition validateTechnicalDimension :: "origin_record \<Rightarrow> error option" where
  "validateTechnicalDimension r =
     (let t = or_Technical r; level = TechnicalStage_Index (tt_Status t); s = or_Semantics r in
      if level < 0 then Some (Msg ''invalid technical stage'')
      else if level = 0 then
        fail_if (tt_ReviewedAt t \<noteq> None \<or> tt_Reviewer t \<noteq> None \<or> length (tt_EvidenceRefs t) \<noteq> 0)
          (Msg ''unprofiled stage cannot claim technical attestation'')
      else first_err [
        fail_if (\<not> attested (tt_ReviewedAt t) (tt_Reviewer t) (tt_EvidenceRefs t))
          (Msg ''technical stage requires dated evidence attestation''),
        fail_if (ds_ProfiledAt (or_Discovery r) = None \<or> ds_Sources (or_Discovery r) = [] \<or>
            \<not> uniqueSorted (ds_Sources (or_Discovery r)))
          (Msg ''profiled-or-later technical stage requires profile evidence''),
        fail_if (opt_time (ds_ProfiledAt (or_Discovery r)) \<noteq> None) (Msg ''invalid profile timestamp''),
        fail_if (level \<ge> TechnicalStage_Index TechnicalObserved \<and> er_Artifacts (or_Evidence r) = [])
          (Msg ''observed-or-later stage requires immutable artifact evidence''),
        check_artifacts None (er_Artifacts (or_Evidence r)),
        fail_if (level \<ge> TechnicalStage_Index TechnicalNativeSchema \<and> sr_NativeModule s = None)
          (Msg ''native-schema-or-later stage requires native module''),
        fail_if (level \<ge> TechnicalStage_Index TechnicalCompiled \<and>
            (sr_AdapterID s = None \<or> sr_ConformanceRef s = None \<or> \<not> opt_digest_ok (sr_ContractSetDigest s)))
          (Msg ''compiled-or-later stage requires adapter and conformance evidence''),
        fail_if (level \<ge> TechnicalStage_Index TechnicalSemanticallyLinked \<and>
            (sr_MappingModules s = [] \<or> sr_ConceptIDs s = [] \<or> sr_OperationIDs s = [] \<or>
             sr_SemanticClosureDigests s = [] \<or> \<not> uniqueSorted (sr_SemanticClosureDigests s)))
          (Msg ''semantically-linked-or-later stage requires reviewed semantic evidence''),
        fail_if (\<not> list_all validDigestRef (sr_SemanticClosureDigests s)) (Msg ''invalid semantic closure digest''),
        fail_if (level \<ge> TechnicalStage_Index TechnicalLive \<and>
            hl_Status (or_Health r) \<noteq> ''healthy'' \<and> hl_Status (or_Health r) \<noteq> ''degraded'')
          (Msg ''live technical stage requires current health evidence'')])"

definition validatePublisherDimension :: "publisher \<Rightarrow> error option" where
  "validatePublisherDimension p =
     (if pb_Status p = ''unclaimed'' then
        fail_if (pb_ReviewedAt p \<noteq> None \<or> pb_Reviewer p \<noteq> None \<or> length (pb_EvidenceRefs p) \<noteq> 0 \<or>
            pb_ManifestURL p \<noteq> None) (Msg ''unclaimed publisher status cannot carry verification evidence'')
      else if pb_Status p \<in> set [''domain_verified'', ''publisher_approved'', ''publisher_signed''] then first_err [
        fail_if (\<not> attested (pb_ReviewedAt p) (pb_Reviewer p) (pb_EvidenceRefs p))
          (Msg ''verified publisher status requires dated evidence''),
        fail_if (pb_Status p = ''publisher_signed'' \<and> pb_ManifestURL p = None)
          (Msg ''publisher-signed status requires manifest URL'')]
      else Some (Msg ''invalid publisher status''))"

definition validateHealthDimension :: "health_dimension \<Rightarrow> error option" where
  "validateHealthDimension h =
     (if hl_Status h = ''unknown'' then
        fail_if (hl_CheckedAt h \<noteq> None \<or> length (hl_EvidenceRefs h) \<noteq> 0)
          (Msg ''unknown health cannot carry health evidence'')
      else if hl_Status h \<in> set [''healthy'', ''degraded'', ''stale'', ''suspended'', ''revoked''] then
        fail_if (hl_CheckedAt h = None \<or> hl_EvidenceRefs h = [] \<or> \<not> uniqueSorted (hl_EvidenceRefs h) \<or>
            opt_time (hl_CheckedAt h) \<noteq> None) (Msg ''known health status requires dated evidence'')
      else Some (Msg ''invalid health status''))"

definition validateTrustDimensions :: "origin_record \<Rightarrow> error option" where
  "validateTrustDimensions r =
     (let level = TechnicalStage_Index (tt_Status (or_Technical r)) in
      first_err [
        fail_if (\<not> validAdapterTrust (tt_Status (or_AdapterTrust r)) \<or>
            \<not> validMappingTrust (tt_Status (or_MappingTrust r)))
          (Msg ''invalid adapter or mapping trust status''),
        wrap_err ''adapter trust'' (validateTrustAttestation ''none'' (or_AdapterTrust r)),
        wrap_err ''mapping trust'' (validateTrustAttestation ''none'' (or_MappingTrust r)),
        fail_if (level \<ge> TechnicalStage_Index TechnicalCompiled \<and> tt_Status (or_AdapterTrust r) = ''none'')
          (Msg ''compiled technical stage requires explicit adapter trust''),
        fail_if (level \<ge> TechnicalStage_Index TechnicalSemanticallyLinked \<and> tt_Status (or_MappingTrust r) = ''none'')
          (Msg ''semantically linked stage requires explicit mapping trust'')])"

definition live_decision :: "string \<Rightarrow> bool" where
  "live_decision d \<longleftrightarrow> d = DecisionPermitLive \<or> d = DecisionPermitWithConstraints"

definition origin_url_ok :: "error + url \<Rightarrow> bool" where
  "origin_url_ok parsed = (case parsed of
      Inl _ \<Rightarrow> False
    | Inr u \<Rightarrow> u_Scheme u = ''https'' \<and> u_Host u \<noteq> [] \<and> u_User u = None \<and> u_Path u = [] \<and>
        u_RawQuery u = [] \<and> u_Fragment u = [])"

definition OriginRecord_Validate :: "origin_record \<Rightarrow> error option" where
  "OriginRecord_Validate r = first_err [
     fail_if (\<not> origin_url_ok (url_Parse (or_CanonicalOrigin r))) (Msg ''invalid canonical origin''),
     first_err (map (\<lambda>v. fail_if (\<not> validText v 4096) (Msg ''invalid text''))
       [or_ID r, or_RegistrableDomain r, pb_Name (or_Publisher r), pb_Kind (or_Publisher r),
        or_Jurisdiction r, or_AuthorityClass r, rt_RefreshClass (or_Runtime r)]),
     fail_if (\<not> idPattern (or_ID r) \<or> \<not> uniqueSorted (or_ExecutionCatalogIDs r))
       (Msg ''invalid origin ID or execution catalog IDs''),
     fail_if (tt_Status (or_Catalog r) \<noteq> ''cataloged'' \<or>
         \<not> attested (tt_ReviewedAt (or_Catalog r)) (tt_Reviewer (or_Catalog r)) (tt_EvidenceRefs (or_Catalog r)))
       (Msg ''registry record requires evidence-attested cataloged state''),
     fail_if (or_Languages r = [] \<or> length (or_Languages r) > 64 \<or> \<not> uniqueSorted (or_Languages r))
       (Msg ''languages must be explicit, sorted, unique, and bounded''),
     (if or_Scope r = ScopeGenesisPublic then first_err [
        fail_if (or_DomainFamilies r = [] \<or> length (or_DomainFamilies r) > length RequiredFamilyQuotas \<or>
            \<not> uniqueSorted (or_DomainFamilies r))
          (Msg ''public-origin domain families must be explicit, sorted, unique, and bounded''),
        fail_if (\<not> list_all (\<lambda>f. map_of RequiredFamilyQuotas f \<noteq> None) (or_DomainFamilies r))
          (Msg ''unknown domain family'')]
      else fail_if (or_Scope r = ScopeTestFixture \<and> length (or_DomainFamilies r) \<noteq> 0)
        (Msg ''test fixtures cannot contribute to public domain-family coverage'')),
     validatePolicyDimension (or_Policy r),
     validateTechnicalDimension r,
     validatePublisherDimension (or_Publisher r),
     validateHealthDimension (or_Health r),
     validateTrustDimensions r,
     validateCapabilityMetadata r,
     fail_if (rt_RequestBudget (or_Runtime r) < 0 \<or> rt_RequestBudget (or_Runtime r) > 1440 \<or>
         rt_StorageBudgetByte (or_Runtime r) < 0 \<or> rt_StorageBudgetByte (or_Runtime r) > 104857600)
       (Msg ''runtime budget outside E3 bounds''),
     SchedulerState_Validate (or_Runtime r) (rt_Scheduler (or_Runtime r)),
     fail_if (ss_State (rt_Scheduler (or_Runtime r)) \<noteq> ''disabled'' \<and>
         (pd_ReviewState (or_Policy r) \<noteq> PolicyCompleted \<or> \<not> live_decision (pd_Decision (or_Policy r))))
       (Msg ''active scheduler requires a completed live-permitting policy decision''),
     fail_if ((hl_Status (or_Health r) = ''suspended'' \<or> hl_Status (or_Health r) = ''revoked'' \<or>
          tt_Status (or_AdapterTrust r) = ''revoked'' \<or> tt_Status (or_MappingTrust r) = ''revoked'') \<and>
         ss_State (rt_Scheduler (or_Runtime r)) \<noteq> ''disabled'')
       (Msg ''suspended or revoked origin state requires disabled scheduler'')]"

section \<open>The registry\<close>

definition RegistryFormat :: string where "RegistryFormat = ''tw.origin-registry/0.3''"
definition MaxRegistryBytes :: nat where "MaxRegistryBytes = 8388608"
definition MaxTestFixtures :: nat where "MaxTestFixtures = 64"

record registry =
  rg_Format :: string
  rg_Version :: string
  rg_Origins :: "origin_record list"

definition policy_dimension_agrees :: "policy_dimension \<Rightarrow> origin_policy \<Rightarrow> bool" where
  "policy_dimension_agrees d p \<longleftrightarrow>
     pd_ReviewState d = op_ReviewState p \<and> pd_Decision d = op_Decision p \<and>
     sameOptionalText (pd_ReviewedAt d) (op_ReviewedAt p) \<and> sameOptionalText (pd_Reviewer d) (op_Reviewer p) \<and>
     pd_Attribution d = op_Attribution p \<and> pd_Authentication d = op_Authentication p \<and>
     pd_RatePolicy d = op_RatePolicy p \<and> pd_RetentionPolicy d = op_RetentionPolicy p \<and>
     pd_TermsReference d = op_TermsReference p \<and> pd_RiskState d = op_RiskState p \<and>
     pd_ReviewerNotes d = op_ReviewerNotes p"

definition validatePolicyBinding :: "policy_set \<Rightarrow> origin_record \<Rightarrow> error option" where
  "validatePolicyBinding policies r =
     (case PolicySet_Find (Some policies) (or_ID r) of
        Inl e \<Rightarrow> Some e
      | Inr p \<Rightarrow> let d = or_Policy r in first_err [
          fail_if (pd_PolicyID d \<noteq> Some (op_ID p) \<or> pd_PolicySetDigest d \<noteq> Some (PolicySet_DigestReference policies))
            (Msg ''policy dimension is not bound to the exact policy artifact''),
          fail_if (\<not> policy_dimension_agrees d p) (Msg ''registry policy dimension disagrees with policy artifact''),
          (case ra_ArtifactDigest (op_Robots p) of
             None \<Rightarrow> fail_if (pd_RobotsDigest d \<noteq> None) (Msg ''registry robots digest is not present in policy'')
           | Some digest \<Rightarrow> fail_if (pd_RobotsDigest d \<noteq> Some digest)
               (Msg ''registry robots digest disagrees with policy'')),
          fail_if ((op_ReviewState p \<noteq> PolicyCompleted \<or> \<not> live_decision (op_Decision p)) \<and>
              ss_State (rt_Scheduler (or_Runtime r)) \<noteq> ''disabled'')
            (Msg ''policy does not authorize an active scheduler'')])"

definition validate_scope :: "selection \<Rightarrow> origin_record \<Rightarrow> error option" where
  "validate_scope sel r =
     (if or_Scope r = ScopeGenesisPublic then
        (case Selection_Find sel (or_ID r) of
           Inl e \<Rightarrow> Some (Wrap ''public registry origin'' e)
         | Inr c \<Rightarrow> first_err [
             fail_if (or_CanonicalOrigin r \<noteq> cd_CanonicalOrigin c) (Msg ''origin changes selected identity''),
             fail_if (\<not> containsText (or_DomainFamilies r) (cd_DomainFamily c))
               (Msg ''origin omits its selected domain family'')])
      else if or_Scope r = ScopeTestFixture then
        fail_if (isOK (Selection_Find sel (or_ID r))) (Msg ''test fixture collides with Genesis public selection'')
      else Some (Msg ''origin has unknown scope''))"

fun validate_execution_ids :: "string list \<Rightarrow> string list \<Rightarrow> error option" where
  "validate_execution_ids seen [] = None"
| "validate_execution_ids seen (i # is) = first_err [
     fail_if (i \<in> set seen) (Msg ''duplicate execution catalog ID''),
     validate_execution_ids (i # seen) is]"

fun validate_records ::
  "selection \<Rightarrow> policy_set \<Rightarrow> string list \<Rightarrow> string list \<Rightarrow> string list \<Rightarrow> origin_record list \<Rightarrow> error option" where
  "validate_records sel policies ids origins execs [] = None"
| "validate_records sel policies ids origins execs (r # rs) = first_err [
     fail_if (or_ID r \<in> set ids) (Msg ''duplicate registry origin''),
     fail_if (or_CanonicalOrigin r \<in> set origins) (Msg ''duplicate registry canonical origin''),
     wrap_err ''origin'' (OriginRecord_Validate r),
     validate_scope sel r,
     validate_execution_ids execs (or_ExecutionCatalogIDs r),
     (if pd_PolicyID (or_Policy r) \<noteq> None then first_err [
        fail_if (or_Scope r \<noteq> ScopeGenesisPublic) (Msg ''test fixture cannot bind a public-origin policy''),
        wrap_err ''origin'' (validatePolicyBinding policies r)]
      else None),
     validate_records sel policies (or_ID r # ids) (or_CanonicalOrigin r # origins)
       (rev (or_ExecutionCatalogIDs r) @ execs) rs]"

definition public_records :: "registry \<Rightarrow> origin_record list" where
  "public_records g = filter (\<lambda>r. or_Scope r = ScopeGenesisPublic) (rg_Origins g)"

definition Registry_Validate :: "registry option \<Rightarrow> selection option \<Rightarrow> policy_set option \<Rightarrow> error option" where
  "Registry_Validate g selection policies = (case (g, selection, policies) of
      (Some reg, Some sel, Some ps) \<Rightarrow> first_err [
        fail_if (rg_Format reg \<noteq> RegistryFormat \<or> \<not> validText (rg_Version reg) 128)
          (Msg ''unsupported registry metadata''),
        fail_if (length (rg_Origins reg) > RequiredCandidates + MaxTestFixtures)
          (Msg ''registry exceeds bounded origin count''),
        fail_if (\<not> sorted (map or_ID (rg_Origins reg))) (Msg ''registry origins must be sorted by ID''),
        validate_records sel ps [] [] [] (rg_Origins reg),
        first_err (map (\<lambda>p. fail_if (op_OriginID p \<notin> or_ID ` set (public_records reg))
          (Msg ''policy origin has no canonical public registry record'')) (ps_Policies ps))]
    | _ \<Rightarrow> Some (Msg ''unsupported registry metadata''))"

definition Registry_Find :: "registry \<Rightarrow> string \<Rightarrow> error + origin_record" where
  "Registry_Find g i =
     (let rs = rg_Origins g; index = sort_Search (length rs) (\<lambda>k. or_ID (rs ! k) \<ge> i) in
      if index \<ge> length rs \<or> or_ID (rs ! index) \<noteq> i then Inl (Msg ''unknown canonical origin'')
      else Inr (rs ! index))"

fun find_execution :: "string \<Rightarrow> origin_record list \<Rightarrow> error + origin_record" where
  "find_execution i [] = Inl (Msg ''unknown execution catalog ID'')"
| "find_execution i (r # rs) = (if i \<in> set (or_ExecutionCatalogIDs r) then Inr r else find_execution i rs)"

definition FindExecutionCatalogID :: "registry \<Rightarrow> string \<Rightarrow> error + origin_record" where
  "FindExecutionCatalogID g i = find_execution i (rg_Origins g)"

text \<open>The evidence files of the records, read in order.\<close>

fun validate_files :: "string \<Rightarrow> artifact_reference list \<Rightarrow> unit io" where
  "validate_files root [] = io_ret ()"
| "validate_files root (a # as) =
     (if \<not> safeRepositoryPath (ar_Path a) then io_err (Msg ''unsafe evidence path'')
      else io_bind (io_wrap ''read evidence'' (atlas_readBoundedRegular (filepath_Join [root, ar_Path a]) MaxRegistryBytes))
        (\<lambda>data. if digest_reference (sha256 data) \<noteq> ar_Digest a then io_err (Msg ''evidence digest mismatch'')
          else validate_files root as))"

definition ValidateArtifactFiles :: "registry \<Rightarrow> string \<Rightarrow> unit io" where
  "ValidateArtifactFiles g root =
     validate_files root (concat (map (\<lambda>r. er_Artifacts (or_Evidence r)) (rg_Origins g)))"

definition LoadRegistry ::
  "(byte list \<Rightarrow> error + registry) \<Rightarrow> string \<Rightarrow> selection option \<Rightarrow> policy_set option \<Rightarrow> registry io" where
  "LoadRegistry decode path selection policies =
     io_bind (io_wrap ''read registry'' (atlas_readBoundedRegular path MaxRegistryBytes)) (\<lambda>data.
       case decode data of
         Inl e \<Rightarrow> io_err (Wrap ''decode registry'' e)
       | Inr g \<Rightarrow> (case Registry_Validate (Some g) selection policies of
             Some e \<Rightarrow> io_err e
           | None \<Rightarrow> io_bind (ValidateArtifactFiles g (filepath_Dir (filepath_Dir path))) (\<lambda>_. io_ret g)))"

section \<open>Laws\<close>

lemma validate_execution_ids_None:
  "validate_execution_ids seen is = None \<longleftrightarrow> distinct is \<and> set is \<inter> set seen = {}"
  by (induction "is" arbitrary: seen) (auto simp: first_err_None fail_if_None)

definition policy_bound :: "policy_set \<Rightarrow> origin_record \<Rightarrow> bool" where
  "policy_bound ps r \<longleftrightarrow>
     pd_PolicyID (or_Policy r) = None \<or> or_Scope r = ScopeGenesisPublic \<and> validatePolicyBinding ps r = None"

lemma validate_records_None:
  "validate_records sel ps ids origins execs rs = None \<longleftrightarrow>
     list_all (\<lambda>r. OriginRecord_Validate r = None \<and> validate_scope sel r = None \<and> policy_bound ps r) rs \<and>
     distinct (map or_ID rs) \<and> set (map or_ID rs) \<inter> set ids = {} \<and>
     distinct (map or_CanonicalOrigin rs) \<and> set (map or_CanonicalOrigin rs) \<inter> set origins = {} \<and>
     distinct (concat (map or_ExecutionCatalogIDs rs)) \<and>
     set (concat (map or_ExecutionCatalogIDs rs)) \<inter> set execs = {}"
proof (induction rs arbitrary: ids origins execs)
  case (Cons r rs)
  have b: "(if pd_PolicyID (or_Policy r) \<noteq> None then first_err [
        fail_if (or_Scope r \<noteq> ScopeGenesisPublic) (Msg ''test fixture cannot bind a public-origin policy''),
        wrap_err ''origin'' (validatePolicyBinding ps r)] else None) = None \<longleftrightarrow> policy_bound ps r"
    by (auto simp: policy_bound_def first_err_None fail_if_None wrap_err_None)
  show ?case
    unfolding validate_records.simps first_err_None b Cons.IH validate_execution_ids_None
    by (auto simp: fail_if_None wrap_err_None)
qed simp

lemma Registry_Validate_None:
  "Registry_Validate (Some g) (Some sel) (Some ps) = None \<longleftrightarrow>
     rg_Format g = RegistryFormat \<and> validText (rg_Version g) 128 \<and> length (rg_Origins g) \<le> 564 \<and>
     sorted (map or_ID (rg_Origins g)) \<and> distinct (map or_ID (rg_Origins g)) \<and>
     distinct (map or_CanonicalOrigin (rg_Origins g)) \<and>
     distinct (concat (map or_ExecutionCatalogIDs (rg_Origins g))) \<and>
     list_all (\<lambda>r. OriginRecord_Validate r = None \<and> validate_scope sel r = None \<and> policy_bound ps r) (rg_Origins g) \<and>
     list_all (\<lambda>p. op_OriginID p \<in> or_ID ` set (public_records g)) (ps_Policies ps)"
  unfolding Registry_Validate_def option.case prod.case first_err_None fail_if_None validate_records_None
    first_err_map_None list_all_iff RequiredCandidates_def MaxTestFixtures_def
  by (auto simp: not_less)

end
