(* ===== verification/Go_Civil.thy ===== *)
theory Go_Civil
  imports Safefetch
begin

text \<open>
  \<open>time.Time\<close> in UTC as the number of nanoseconds since the start of year 0:
  \<open>time.Parse\<close> and \<open>Format\<close> with \<open>RFC3339Nano\<close> on canonical texts, and their
  round trip.
\<close>

section \<open>From texts to instants and back\<close>

definition nanos_of_text :: "string \<Rightarrow> nat" where
  "nanos_of_text s =
     nat (utc_second_value (sub_text 0 19 s @ ''Z'')) * 1000000000 +
     (if length s = 20 then 0
      else let f = sub_text 20 (length s - 21) s in decimal_value f * 10 ^ (9 - length f))"

definition days_in_year :: "nat \<Rightarrow> nat" where
  "days_in_year y = (if is_leap y then 366 else 365)"

definition days_before_year :: "nat \<Rightarrow> nat" where
  "days_before_year y = 365 * y + leap_years_before y"

function find_year :: "nat \<Rightarrow> nat \<Rightarrow> nat \<times> nat" where
  "find_year y d = (if d < days_in_year y then (y, d) else find_year (y + 1) (d - days_in_year y))"
  by pat_completeness auto
termination by (relation "measure snd") (auto simp: days_in_year_def)

function find_month :: "nat \<Rightarrow> nat \<Rightarrow> nat \<Rightarrow> nat \<times> nat" where
  "find_month y m d =
     (if m \<ge> 12 \<or> d < days_in y m then (m, d) else find_month y (m + 1) (d - days_in y m))"
  by pat_completeness auto
termination by (relation "measure (\<lambda>(y, m, d). 12 - m)") auto

declare find_year.simps [simp del] find_month.simps [simp del]

definition civil_of_nanos :: "nat \<Rightarrow> civil_time" where
  "civil_of_nanos n =
     (let secs = n div 1000000000; day_no = secs div 86400; s = secs mod 86400; y0 = day_no div 366;
          (y, yd) = find_year y0 (day_no - days_before_year y0); (m, md) = find_month y 1 yd
      in \<lparr>year = y, month = m, day = md + 1, hour = s div 3600, minute = s div 60 mod 60,
          second = s mod 60, nanosecond = n mod 1000000000\<rparr>)"

primrec plain_digits :: "nat \<Rightarrow> nat \<Rightarrow> string" where
  "plain_digits 0 n = []"
| "plain_digits (Suc k) n = (if n < 10 then [digit_char n] else plain_digits k (n div 10) @ [digit_char (n mod 10)])"

text \<open>Years beyond 9999 are printed with all their digits.\<close>

definition format_nanos :: "nat \<Rightarrow> string" where
  "format_nanos n =
     (let t = civil_of_nanos n in
      if year t < 10000 then format_rfc3339nano t
      else plain_digits 20 (year t) @ drop 4 (format_rfc3339nano t))"

section \<open>The calendar\<close>

lemma leap_years_Suc: "leap_years_before (Suc y) = leap_years_before y + (if is_leap y then 1 else 0)"
proof (cases y)
  case 0
  then show ?thesis by (simp add: leap_years_before_def is_leap_def)
next
  case (Suc k)
  have d4: "Suc k div 4 = k div 4 + (if Suc k mod 4 = 0 then 1 else 0)" by (simp add: div_Suc)
  have d100: "Suc k div 100 = k div 100 + (if Suc k mod 100 = 0 then 1 else 0)" by (simp add: div_Suc)
  have d400: "Suc k div 400 = k div 400 + (if Suc k mod 400 = 0 then 1 else 0)" by (simp add: div_Suc)
  have i: "Suc k mod 400 = 0 \<Longrightarrow> Suc k mod 100 = 0" "Suc k mod 100 = 0 \<Longrightarrow> Suc k mod 4 = 0"
    by presburger+
  have le: "k div 100 \<le> k div 4" by (rule div_le_mono2) simp_all
  show ?thesis
    unfolding Suc leap_years_before_def is_leap_def
    using i le by (simp add: d4 d100 d400)
qed

lemma days_before_Suc: "days_before_year (Suc y) = days_before_year y + days_in_year y"
  by (simp add: days_before_year_def leap_years_Suc days_in_year_def)

lemma leap_years_le: "leap_years_before y \<le> y"
  by (induction y) (simp_all add: leap_years_Suc, simp add: leap_years_before_def)

lemma days_before_mono: "k \<le> y \<Longrightarrow> days_before_year k \<le> days_before_year y"
  by (induction y) (auto simp: days_before_Suc le_Suc_eq)

lemma find_year_correct:
  "k \<le> y \<Longrightarrow> d < days_in_year y \<Longrightarrow> find_year k (days_before_year y - days_before_year k + d) = (y, d)"
proof (induction "y - k" arbitrary: k)
  case 0
  then show ?case by (subst find_year.simps) simp
next
  case (Suc n)
  then have lt: "k < y" by simp
  have m: "days_before_year (Suc k) \<le> days_before_year y" using lt by (intro days_before_mono) simp
  have "\<not> days_before_year y - days_before_year k + d < days_in_year k"
    using m by (simp add: days_before_Suc)
  moreover have "days_before_year y - days_before_year k + d - days_in_year k =
      days_before_year y - days_before_year (Suc k) + d"
    using m by (simp add: days_before_Suc)
  ultimately show ?case
    using Suc.hyps(1) [of "Suc k"] Suc.hyps(2) Suc.prems lt by (subst find_year.simps) simp
qed

lemma find_month_correct:
  "m0 \<le> m \<Longrightarrow> m \<le> 12 \<Longrightarrow> d < days_in y m \<Longrightarrow>
   find_month y m0 (sum_list (map (days_in y) [m0..<m]) + d) = (m, d)"
proof (induction "m - m0" arbitrary: m0)
  case 0
  then show ?case by (subst find_month.simps) simp
next
  case (Suc n)
  then have lt: "m0 < m" by simp
  have u: "[m0..<m] = m0 # [Suc m0..<m]" by (rule upt_conv_Cons [OF lt])
  have "\<not> (m0 \<ge> 12 \<or> sum_list (map (days_in y) [m0..<m]) + d < days_in y m0)"
    using lt Suc.prems(2) by (simp add: u)
  moreover have "sum_list (map (days_in y) [m0..<m]) + d - days_in y m0 =
      sum_list (map (days_in y) [Suc m0..<m]) + d" by (simp add: u)
  ultimately show ?case
    using Suc.hyps(1) [of "Suc m0"] Suc.hyps(2) Suc.prems lt by (subst find_month.simps) simp
qed

lemma months_of_year: "sum_list (map (days_in y) [1..<13]) = days_in_year y"
proof -
  have "[1..<13] = [1, 2, 3, 4, 5, 6, 7, 8, 9, 10, 11, 12 :: nat]" by code_simp
  then show ?thesis by (simp add: days_in_def days_in_year_def)
qed

lemma month_day_bound:
  assumes "1 \<le> m" "m \<le> 12" "1 \<le> d" "d \<le> days_in y m"
  shows "sum_list (map (days_in y) [1..<m]) + (d - 1) < days_in_year y"
proof -
  have "[1..<m + (13 - m)] = [1..<m] @ [m..<m + (13 - m)]" by (rule upt_add_eq_append [OF assms(1)])
  then have "[1..<13] = [1..<m] @ [m..<13]" using assms(2) by simp
  moreover have "[m..<13] = m # [Suc m..<13]" using assms(2) by (intro upt_conv_Cons) simp
  ultimately have "days_in_year y = sum_list (map (days_in y) [1..<m]) + days_in y m + sum_list (map (days_in y) [Suc m..<13])"
    by (simp flip: months_of_year)
  with assms(3,4) show ?thesis by linarith
qed

lemma civil_of_day:
  assumes "1 \<le> m" "m \<le> 12" "1 \<le> d" "d \<le> days_in y m"
  defines "n \<equiv> day_number y m d"
  shows "find_year (n div 366) (n - days_before_year (n div 366)) =
      (y, sum_list (map (days_in y) [1..<m]) + (d - 1))"
    and "find_month y 1 (sum_list (map (days_in y) [1..<m]) + (d - 1)) = (m, d - 1)"
proof -
  let ?r = "sum_list (map (days_in y) [1..<m]) + (d - 1)"
  have r: "?r < days_in_year y" by (rule month_day_bound [OF assms(1-4)])
  have n: "n = days_before_year y + ?r" by (simp add: n_def day_number_def days_before_year_def)
  have "n < 366 * (y + 1)"
    using r leap_years_le [of y] by (simp add: n days_before_year_def days_in_year_def split: if_splits)
  then have k: "n div 366 \<le> y" by (simp add: less_mult_imp_div_less mult.commute flip: less_Suc_eq_le)
  have "n - days_before_year (n div 366) = days_before_year y - days_before_year (n div 366) + ?r"
    using days_before_mono [OF k] by (simp add: n)
  then show "find_year (n div 366) (n - days_before_year (n div 366)) = (y, ?r)"
    using find_year_correct [OF k r] by simp
  show "find_month y 1 ?r = (m, d - 1)"
    by (rule find_month_correct) (use assms(1-4) in auto)
qed

section \<open>Round trip\<close>

lemma decimal_value_snoc: "decimal_value (s @ [c]) = 10 * decimal_value s + digit_value c"
  by (simp add: decimal_value_def)

lemma decimal_value_Cons: "decimal_value (c # s) = digit_value c * 10 ^ length s + decimal_value s"
proof (induction s rule: rev_induct)
  case Nil
  then show ?case by (simp add: decimal_value_def)
next
  case (snoc d s)
  then show ?case using decimal_value_snoc [of "c # s" d] decimal_value_snoc [of s d] by simp
qed

lemma is_digit_cases: "is_digit c \<Longrightarrow> c \<in> set ''0123456789''"
proof -
  assume "is_digit c"
  then have "(of_char c :: nat) \<in> {48, 49, 50, 51, 52, 53, 54, 55, 56, 57}"
    unfolding is_digit_def less_eq_char_def by simp presburger
  then have "char_of (of_char c :: nat) \<in> char_of ` {48, 49, 50, 51, 52, 53, 54, 55, 56, 57 :: nat}"
    by (rule imageI)
  then have "c \<in> char_of ` {48, 49, 50, 51, 52, 53, 54, 55, 56, 57 :: nat}" by (simp only: char_of_char)
  moreover have "char_of ` {48, 49, 50, 51, 52, 53, 54, 55, 56, 57 :: nat} = set ''0123456789''" by code_simp
  ultimately show ?thesis by (simp only:)
qed

lemma digit_value_less: "is_digit c \<Longrightarrow> digit_value c < 10"
  and digit_char_value: "is_digit c \<Longrightarrow> digit_char (digit_value c) = c"
  by (drule is_digit_cases, auto simp: digit_value_def digit_char_def)+

lemma decimal_value_less: "all_digits s \<Longrightarrow> decimal_value s < 10 ^ length s"
proof (induction s)
  case Nil
  then show ?case by (simp add: decimal_value_def)
next
  case (Cons c s)
  then have "decimal_value s < 10 ^ length s" "digit_value c < 10" by (simp_all add: all_digits_def digit_value_less)
  then have "digit_value c * 10 ^ length s + decimal_value s < (digit_value c + 1) * 10 ^ length s" by simp
  also have "\<dots> \<le> 10 * 10 ^ length s" using \<open>digit_value c < 10\<close> by (intro mult_le_mono1) simp
  finally show ?case by (simp add: decimal_value_Cons)
qed

lemma dec_pad_add: "dec_pad w (n + k * 10 ^ w) = dec_pad w n"
proof (induction w arbitrary: k)
  case (Suc w)
  have "(n + k * 10 ^ Suc w) div 10 ^ w = n div 10 ^ w + k * 10"
    by (simp add: mult.assoc [symmetric])
  moreover have "dec_pad w (n + (k * 10) * 10 ^ w) = dec_pad w n" by (rule Suc)
  ultimately show ?case by (simp add: mult.assoc)
qed simp

lemma dec_pad_decimal: "all_digits s \<Longrightarrow> dec_pad (length s) (decimal_value s) = s"
proof (induction s)
  case (Cons c s)
  then have c: "is_digit c" and s: "all_digits s" by (simp_all add: all_digits_def)
  have "decimal_value (c # s) div 10 ^ length s = digit_value c"
    using decimal_value_less [OF s] by (simp add: decimal_value_Cons)
  moreover have "dec_pad (length s) (decimal_value (c # s)) = s"
    using Cons.IH [OF s] dec_pad_add [of "length s" "decimal_value s" "digit_value c"]
    by (simp add: decimal_value_Cons add.commute)
  ultimately show ?case using digit_value_less [OF c] digit_char_value [OF c] by simp
qed simp

lemma sub_text_split: "i + n < length s \<Longrightarrow> drop i s = sub_text i n s @ s ! (i + n) # drop (i + n + 1) s"
proof -
  assume "i + n < length s"
  then have "drop (i + n) s = s ! (i + n) # drop (i + n + 1) s" by (simp add: Cons_nth_drop_Suc)
  moreover have "drop i s = take n (drop i s) @ drop (i + n) s"
    by (metis append_take_drop_id drop_drop add.commute)
  ultimately show ?thesis by (simp add: sub_text_def)
qed

lemma length_sub_text: "i + n \<le> length s \<Longrightarrow> length (sub_text i n s) = n"
  by (simp add: sub_text_def)

lemma sub_sub_text: "j + m \<le> n \<Longrightarrow> sub_text j m (sub_text i n s) = sub_text (i + j) m s"
  by (simp add: sub_text_def take_drop add.commute min_def)

text \<open>The fields of a canonical second.\<close>

definition text_year :: "string \<Rightarrow> nat" where "text_year s = decimal_value (sub_text 0 4 s)"
definition text_month :: "string \<Rightarrow> nat" where "text_month s = decimal_value (sub_text 5 2 s)"
definition text_day :: "string \<Rightarrow> nat" where "text_day s = decimal_value (sub_text 8 2 s)"
definition text_hour :: "string \<Rightarrow> nat" where "text_hour s = decimal_value (sub_text 11 2 s)"
definition text_minute :: "string \<Rightarrow> nat" where "text_minute s = decimal_value (sub_text 14 2 s)"
definition text_second :: "string \<Rightarrow> nat" where "text_second s = decimal_value (sub_text 17 2 s)"

lemmas text_fields = text_year_def text_month_def text_day_def text_hour_def text_minute_def text_second_def

lemma canonical_fields:
  assumes "canonical_utc_second s"
  shows "1 \<le> text_month s" "text_month s \<le> 12" "1 \<le> text_day s"
    "text_day s \<le> days_in (text_year s) (text_month s)"
    "text_hour s \<le> 23" "text_minute s \<le> 59" "text_second s \<le> 59"
  using assms by (auto simp: canonical_utc_second_def canonical_date_def canonical_clock_def Let_def
      sub_sub_text text_fields)

lemma canonical_text:
  assumes "canonical_utc_second s"
  shows "s = dec_pad 4 (text_year s) @ ''-'' @ dec_pad 2 (text_month s) @ ''-'' @ dec_pad 2 (text_day s) @ ''T'' @
     dec_pad 2 (text_hour s) @ '':'' @ dec_pad 2 (text_minute s) @ '':'' @ dec_pad 2 (text_second s) @ ''Z''"
proof -
  have len: "length s = 20" using assms by (simp add: canonical_utc_second_def)
  have c: "s ! 4 = CHR ''-''" "s ! 7 = CHR ''-''" "s ! 10 = CHR ''T''" "s ! 13 = CHR '':''" "s ! 16 = CHR '':''"
    "s ! 19 = CHR ''Z''" "all_digits (sub_text 0 4 s)" "all_digits (sub_text 5 2 s)" "all_digits (sub_text 8 2 s)"
    "all_digits (sub_text 11 2 s)" "all_digits (sub_text 14 2 s)" "all_digits (sub_text 17 2 s)"
  proof -
    show "s ! 4 = CHR ''-''" "s ! 7 = CHR ''-''" "s ! 10 = CHR ''T''" "s ! 13 = CHR '':''" "s ! 16 = CHR '':''"
      "s ! 19 = CHR ''Z''"
      using assms len by (auto simp: canonical_utc_second_def canonical_date_def canonical_clock_def sub_text_def Let_def)
    show "all_digits (sub_text 0 4 s)" "all_digits (sub_text 5 2 s)" "all_digits (sub_text 8 2 s)"
      "all_digits (sub_text 11 2 s)" "all_digits (sub_text 14 2 s)" "all_digits (sub_text 17 2 s)"
      using assms by (auto simp: canonical_utc_second_def canonical_date_def canonical_clock_def sub_sub_text Let_def)
  qed
  have p: "dec_pad n (decimal_value (sub_text i n s)) = sub_text i n s"
    if "all_digits (sub_text i n s)" "i + n \<le> 20" for i n
    using dec_pad_decimal [OF that(1)] that(2) len by (simp add: sub_text_def)
  have "s = drop 0 s" by simp
  also have "\<dots> = sub_text 0 4 s @ ''-'' @ sub_text 5 2 s @ ''-'' @ sub_text 8 2 s @ ''T'' @
     sub_text 11 2 s @ '':'' @ sub_text 14 2 s @ '':'' @ sub_text 17 2 s @ ''Z''"
    using len c(1-6) sub_text_split [of 0 4 s] sub_text_split [of 5 2 s] sub_text_split [of 8 2 s]
      sub_text_split [of 11 2 s] sub_text_split [of 14 2 s] sub_text_split [of 17 2 s] by simp
  finally show ?thesis using c(7-12) by (simp only: text_fields p)
qed

lemma hms_parts:
  assumes "m \<le> 59" "s \<le> (59 :: nat)"
  shows "(h * 3600 + m * 60 + s) div 3600 = h" "(h * 3600 + m * 60 + s) div 60 mod 60 = m"
    "(h * 3600 + m * 60 + s) mod 60 = s"
proof -
  have "m * 60 + s < 3600" using assms by linarith
  then show "(h * 3600 + m * 60 + s) div 3600 = h" by (simp add: add.assoc)
  have g: "(k * 60 + s) div 60 = k" "(k * 60 + s) mod 60 = s" for k using assms(2) by simp_all
  have e: "h * 3600 + m * 60 + s = (h * 60 + m) * 60 + s" by simp
  show "(h * 3600 + m * 60 + s) div 60 mod 60 = m" "(h * 3600 + m * 60 + s) mod 60 = s"
    unfolding e g using assms(1) by simp_all
qed

lemma civil_of_canonical:
  assumes "canonical_utc_second s" "f < 1000000000"
  shows "civil_of_nanos (nat (utc_second_value s) * 1000000000 + f) =
    \<lparr>year = text_year s, month = text_month s, day = text_day s, hour = text_hour s,
     minute = text_minute s, second = text_second s, nanosecond = f\<rparr>"
proof -
  note b = canonical_fields [OF assms(1)]
  let ?d = "day_number (text_year s) (text_month s) (text_day s)"
  let ?secs = "((?d * 24 + text_hour s) * 60 + text_minute s) * 60 + text_second s"
  have v: "nat (utc_second_value s) = ?secs"
    by (simp add: utc_second_value_def Let_def text_fields)
  have q: "(k * 1000000000 + f) div 1000000000 = k" "(k * 1000000000 + f) mod 1000000000 = f" for k
    using assms(2) by simp_all
  have s: "?secs = ?d * 86400 + (text_hour s * 3600 + text_minute s * 60 + text_second s)" by simp
  have l: "text_hour s * 3600 + text_minute s * 60 + text_second s < 86400" using b(5-7) by linarith
  have dm: "?secs div 86400 = ?d" "?secs mod 86400 = text_hour s * 3600 + text_minute s * 60 + text_second s"
    unfolding s using l by simp_all
  have hms: "(text_hour s * 3600 + text_minute s * 60 + text_second s) div 3600 = text_hour s"
    "(text_hour s * 3600 + text_minute s * 60 + text_second s) div 60 mod 60 = text_minute s"
    "(text_hour s * 3600 + text_minute s * 60 + text_second s) mod 60 = text_second s"
    using hms_parts [OF b(6,7)] by simp_all
  show ?thesis
    unfolding v civil_of_nanos_def Let_def q dm hms civil_of_day(1) [OF b(1-4)] prod.case
      civil_of_day(2) [OF b(1-4)]
    using b(3) by simp
qed

lemma strip_zeros_last: "s = [] \<or> last s \<noteq> CHR ''0'' \<Longrightarrow> strip_zeros (s @ replicate n (CHR ''0'')) = s"
proof -
  assume "s = [] \<or> last s \<noteq> CHR ''0''"
  then have "dropWhile (\<lambda>c. c = CHR ''0'') (rev s) = rev s" by (cases s rule: rev_cases) auto
  moreover have "dropWhile (\<lambda>c. c = CHR ''0'') (replicate n (CHR ''0'') @ rev s) =
      dropWhile (\<lambda>c. c = CHR ''0'') (rev s)" by (induction n) simp_all
  ultimately show ?thesis by (simp add: strip_zeros_def)
qed

lemma dec_pad_zeros: "dec_pad (k + n) (v * 10 ^ n) = dec_pad k v @ replicate n (CHR ''0'')"
proof (induction k)
  case 0
  have "dec_pad n (0 + v * 10 ^ n) = dec_pad n 0" by (rule dec_pad_add)
  moreover have "dec_pad n 0 = replicate n (CHR ''0'')" by (induction n) (simp_all add: digit_char_def)
  ultimately show ?case by simp
next
  case (Suc k)
  have "v * 10 ^ n div 10 ^ (k + n) = v div 10 ^ k" by (simp add: power_add)
  with Suc show ?case by simp
qed

lemma fraction_text_digits:
  assumes "all_digits f" "f \<noteq> []" "length f \<le> 9" "last f \<noteq> CHR ''0''"
  shows "fraction_text (decimal_value f * 10 ^ (9 - length f)) = CHR ''.'' # f"
    and "decimal_value f * 10 ^ (9 - length f) < 1000000000"
proof -
  have "dec_pad 9 (decimal_value f * 10 ^ (9 - length f)) = f @ replicate (9 - length f) (CHR ''0'')"
    using dec_pad_zeros [of "length f" "9 - length f" "decimal_value f"] dec_pad_decimal [OF assms(1)] assms(3)
    by simp
  then show "fraction_text (decimal_value f * 10 ^ (9 - length f)) = CHR ''.'' # f"
    using assms(2,4) strip_zeros_last [of f "9 - length f"] by (simp add: fraction_text_def Let_def del: dec_pad_numeral)
  have "decimal_value f * 10 ^ (9 - length f) < 10 ^ length f * 10 ^ (9 - length f)"
    using decimal_value_less [OF assms(1)] by simp
  also have "\<dots> = 1000000000" using assms(3) by (simp flip: power_add)
  finally show "decimal_value f * 10 ^ (9 - length f) < 1000000000" .
qed

lemma fraction_text_0: "fraction_text 0 = []"
  by (simp add: fraction_text_def strip_zeros_def digit_char_def)

text \<open>A canonical text is the text of its instant.\<close>

lemma format_nanos_of_text:
  assumes "canonical_rfc3339nano s"
  shows "format_nanos (nanos_of_text s) = s"
proof -
  have y: "text_year t < 10000" if "canonical_utc_second t" for t
  proof -
    have "all_digits (sub_text 0 4 t)" "length (sub_text 0 4 t) = 4"
      using that by (auto simp: canonical_utc_second_def canonical_date_def sub_sub_text length_sub_text)
    then show ?thesis using decimal_value_less [of "sub_text 0 4 t"] by (simp add: text_year_def)
  qed
  have t19: "take 19 t @ ''Z'' = t" if "canonical_utc_second t" for t
  proof -
    have "length t = 20" "t ! 19 = CHR ''Z''" using that by (simp_all add: canonical_utc_second_def)
    then have "drop 19 t = ''Z''" using Cons_nth_drop_Suc [of 19 t] by simp
    then show ?thesis using append_take_drop_id [of 19 t] by simp
  qed
  have f: "format_nanos (nat (utc_second_value t) * 1000000000 + f) = take 19 t @ fraction_text f @ ''Z''"
    if "canonical_utc_second t" "f < 1000000000" for t f
  proof -
    let ?b = "dec_pad 4 (text_year t) @ ''-'' @ dec_pad 2 (text_month t) @ ''-'' @ dec_pad 2 (text_day t) @ ''T'' @
     dec_pad 2 (text_hour t) @ '':'' @ dec_pad 2 (text_minute t) @ '':'' @ dec_pad 2 (text_second t)"
    have "take 19 t @ ''Z'' = ?b @ ''Z''" using t19 [OF that(1)] canonical_text [OF that(1)] by simp
    then have b: "take 19 t = ?b" by simp
    show ?thesis
      unfolding b format_nanos_def civil_of_canonical [OF that] using y [OF that(1)]
      by (simp add: format_rfc3339nano_def Let_def del: dec_pad_numeral)
  qed
  show ?thesis
  proof (cases "canonical_utc_second s")
    case True
    then have "length s = 20" by (simp add: canonical_utc_second_def)
    then have "nanos_of_text s = nat (utc_second_value s) * 1000000000"
      using t19 [OF True] by (simp add: nanos_of_text_def sub_text_def)
    then show ?thesis using f [OF True, of 0] t19 [OF True] by (simp add: fraction_text_0)
  next
    case False
    let ?t = "sub_text 0 19 s @ ''Z''" and ?f = "sub_text 20 (length s - 21) s"
    from False assms have c: "22 \<le> length s" "length s \<le> 30" "canonical_utc_second ?t" "s ! 19 = CHR ''.''"
      "last s = CHR ''Z''" "all_digits ?f" "last ?f \<noteq> CHR ''0''"
      by (auto simp: canonical_rfc3339nano_def Let_def)
    have l: "length ?f = length s - 21" "?f \<noteq> []" "length ?f \<le> 9" using c(1,2) by (auto simp: sub_text_def)
    have t: "take 19 ?t = take 19 s" using c(1) by (simp add: sub_text_def)
    have s: "s = take 19 s @ CHR ''.'' # ?f @ ''Z''"
    proof -
      have "drop 19 s = s ! 19 # drop 20 s" using Cons_nth_drop_Suc [of 19 s] c(1) by simp
      moreover have "drop 20 s = ?f @ drop (length s - 1) s"
        using append_take_drop_id [of "length s - 21" "drop 20 s"] c(1) by (simp add: sub_text_def)
      moreover have "drop (length s - 1) s = ''Z''"
        using c(1,5) Cons_nth_drop_Suc [of "length s - 1" s] by (cases "s = []") (simp_all add: last_conv_nth)
      ultimately show ?thesis using append_take_drop_id [of 19 s] c(4) by simp
    qed
    have "nanos_of_text s = nat (utc_second_value ?t) * 1000000000 + decimal_value ?f * 10 ^ (9 - length ?f)"
      using c(1) by (simp add: nanos_of_text_def Let_def)
    then show ?thesis
      using f [OF c(3) fraction_text_digits(2) [OF c(6) l(2,3) c(7)]]
        fraction_text_digits(1) [OF c(6) l(2,3) c(7)] s t by (simp only: append_Cons append_assoc)
  qed
qed

end
