(* ===== verification/Atlas_Sample.thy ===== *)
theory Atlas_Sample
  imports Atlas_Registry Go_Civil
begin

text \<open>
  A selection of 500 candidates, a policy set and a registry that the validators accept: the
  inputs at which the statements about the registry and its reports are applied.
\<close>

section \<open>The selection\<close>

definition sample_host :: "nat \<Rightarrow> string" where
  "sample_host i = dec_pad 3 i @ ''.org''"

definition sample_entry :: "nat \<times> string \<Rightarrow> candidate" where
  "sample_entry = (\<lambda>(i, family). \<lparr>cd_ID = dec_pad 3 i @ ''-org'', cd_CanonicalOrigin = ''https://'' @ sample_host i,
     cd_CanonicalHost = sample_host i, cd_DomainFamily = family, cd_CatalogState = ''candidate'',
     cd_PublisherHint = None, cd_JurisdictionHint = None, cd_LanguageHints = Some []\<rparr>)"

definition sample_families :: "string list" where
  "sample_families = concat (map (\<lambda>(family, n). replicate (nat n) family) RequiredFamilyQuotas)"

definition sample_selection :: selection where
  "sample_selection = \<lparr>sl_Format = SelectionFormat, sl_Version = ''1'', sl_Status = ''candidate_selection'',
     sl_CanonicalScheme = ''https'', sl_Statement = ''sample'', sl_FamilyQuotas = RequiredFamilyQuotas,
     sl_Candidates = map sample_entry (zip [0..<500] sample_families), sl_digest = replicate 32 2\<rparr>"

lemma digit_facts:
  "is_digit c \<Longrightarrow> id_char c \<and> lower_char c = c \<and> c \<notin> {CHR ''w'', CHR ''-'', CHR 0xC4, CHR 0xE2}"
  by (drule is_digit_cases) (auto simp: id_char_def less_eq_char_def lower_char_def)

lemma literal_facts:
  "id_char (CHR ''o'')" "id_char (CHR ''r'')" "id_char (CHR ''g'')" "\<not> id_char (CHR ''.'')" "\<not> id_char (CHR ''-'')"
  "lower_char (CHR ''o'') = CHR ''o''" "lower_char (CHR ''r'') = CHR ''r''" "lower_char (CHR ''g'') = CHR ''g''"
  "lower_char (CHR ''.'') = CHR ''.''"
  by code_simp+

lemma length_sample_families: "length sample_families = 500"
  by (simp add: sample_families_def RequiredFamilyQuotas_def)

lemma digit_char_digit: "d < 10 \<Longrightarrow> is_digit (digit_char d)"
  by (auto simp: numeral_eq_Suc less_Suc_eq digit_char_def is_digit_def less_eq_char_def)

lemma digit_char_inj: "a < 10 \<Longrightarrow> b < 10 \<Longrightarrow> digit_char a = digit_char b \<Longrightarrow> a = b"
  by (auto simp: numeral_eq_Suc less_Suc_eq digit_char_def)

lemma dec_pad_3: "\<exists>a b c. dec_pad 3 i = [a, b, c] \<and> is_digit a \<and> is_digit b \<and> is_digit c"
  by (simp add: digit_char_digit)

lemma sample_entry_valid:
  assumes "map_of RequiredFamilyQuotas family \<noteq> None"
  shows "candidate_validate (sample_entry (i, family)) = None"
proof -
  obtain a b c where d: "dec_pad 3 i = [a, b, c]" "is_digit a" "is_digit b" "is_digit c" using dec_pad_3 by blast
  note f = digit_facts [OF d(2)] digit_facts [OF d(3)] digit_facts [OF d(4)]
  have "bare_origin ''https'' ([a, b, c] @ ''.org'') (''https://'' @ [a, b, c] @ ''.org'')"
    unfolding bare_origin_def
    by (intro exI [of _ "''https''"] exI [of _ "[]"]) (simp add: lower_char_def)
  with assms f show ?thesis
    by (auto simp: candidate_validate_None sample_entry_def sample_host_def d(1) idPattern_def hostPattern_def
        slugHost_def trim_char_def has_prefix_def literal_facts simp del: dec_pad_numeral)
qed

lemma sample_id_inj:
  assumes "i < 1000" "j < 1000" "dec_pad 3 i = dec_pad 3 j"
  shows "i = j"
proof -
  have e: "i div 100 mod 10 = j div 100 mod 10" "i div 10 mod 10 = j div 10 mod 10" "i mod 10 = j mod 10"
    using assms(3) by (auto intro: digit_char_inj)
  have "k = 100 * (k div 100 mod 10) + (10 * (k div 10 mod 10) + k mod 10)" if "k < 1000" for k :: nat
  proof -
    have "k div 100 = k div 10 div 10" by (simp flip: div_mult2_eq)
    moreover have "k div 100 mod 10 = k div 100" using that by simp
    moreover have "k = 10 * (k div 10) + k mod 10" "k div 10 = 10 * (k div 10 div 10) + k div 10 mod 10" by simp_all
    ultimately show ?thesis by linarith
  qed
  with e assms(1,2) show ?thesis by metis
qed

lemma sample_ids_distinct:
  "distinct (map (\<lambda>c. cd_ID c) (map sample_entry (zip [0..<500] sample_families)))"
  "distinct (map (\<lambda>c. cd_CanonicalOrigin c) (map sample_entry (zip [0..<500] sample_families)))"
proof -
  let ?z = "zip [0..<500] sample_families"
  have inj: "inj_on (dec_pad 3) (set [0..<500])" using sample_id_inj by (auto intro!: inj_onI)
  have d: "distinct (map (\<lambda>i. pre @ dec_pad 3 i @ post) [0..<500])" for pre post
    using inj by (simp add: distinct_map inj_on_def del: dec_pad_numeral)
  have fst: "map fst ?z = [0..<500]" by (simp add: length_sample_families)
  have "map (\<lambda>c. cd_ID c) (map sample_entry ?z) = map (\<lambda>i. [] @ dec_pad 3 i @ ''-org'') (map fst ?z)"
    by (simp add: sample_entry_def case_prod_beta del: dec_pad_numeral)
  then show "distinct (map (\<lambda>c. cd_ID c) (map sample_entry ?z))" unfolding fst by (simp only: d)
  have "map (\<lambda>c. cd_CanonicalOrigin c) (map sample_entry ?z) =
      map (\<lambda>i. ''https://'' @ dec_pad 3 i @ ''.org'') (map fst ?z)"
    by (simp add: sample_entry_def sample_host_def case_prod_beta del: dec_pad_numeral)
  then show "distinct (map (\<lambda>c. cd_CanonicalOrigin c) (map sample_entry ?z))" unfolding fst by (simp only: d)
qed

lemma sample_family_count: "int (family_count (sl_Candidates sample_selection) family) = count_of RequiredFamilyQuotas family"
proof -
  let ?z = "zip [0..<500] sample_families"
  have "family_count (sl_Candidates sample_selection) family = length (filter (\<lambda>p. snd p = family) ?z)"
    by (simp add: family_count_def sample_selection_def filter_map sample_entry_def case_prod_beta comp_def)
  also have "\<dots> = length (filter (\<lambda>f. f = family) (map snd ?z))" by (simp add: filter_map comp_def)
  also have "map snd ?z = sample_families" by (simp add: length_sample_families)
  finally show ?thesis
    by (auto simp: sample_families_def RequiredFamilyQuotas_def count_of_def filter_replicate)
qed

lemma sample_selection_valid: "Selection_Validate sample_selection = None"
proof -
  have v: "list_all (\<lambda>c. candidate_validate c = None) (sl_Candidates sample_selection)"
  proof (simp only: list_all_iff, rule ballI)
    fix c assume "c \<in> set (sl_Candidates sample_selection)"
    then obtain i f where c: "c = sample_entry (i, f)" "f \<in> set sample_families"
      by (auto simp: sample_selection_def dest: set_zip_rightD)
    then have "map_of RequiredFamilyQuotas f \<noteq> None"
      by (auto simp: sample_families_def dest!: weak_map_of_SomeI)
    then show "candidate_validate c = None" unfolding c(1) by (rule sample_entry_valid)
  qed
  have hosts: "distinct (map cd_CanonicalHost (sl_Candidates sample_selection))"
  proof -
    have "map cd_CanonicalOrigin (sl_Candidates sample_selection) =
        map (\<lambda>h. ''https://'' @ h) (map cd_CanonicalHost (sl_Candidates sample_selection))"
      by (simp add: sample_selection_def sample_entry_def sample_host_def case_prod_beta)
    moreover have "distinct (map cd_CanonicalOrigin (sl_Candidates sample_selection))"
      using sample_ids_distinct(2) by (simp only: sample_selection_def selection.select_convs)
    ultimately have "distinct (map (\<lambda>h. ''https://'' @ h) (map cd_CanonicalHost (sl_Candidates sample_selection)))"
      by (simp only:)
    then show ?thesis by (rule distinct_map [THEN iffD1, THEN conjunct1])
  qed
  have "length (sl_Candidates sample_selection) = 500"
    by (simp add: sample_selection_def length_sample_families)
  then show ?thesis
    unfolding selection_valid_iff using v hosts sample_family_count sample_ids_distinct
    by (simp add: sample_selection_def validText_def sameQuotas_def) (simp add: RequiredFamilyQuotas_def count_of_def)
qed


section \<open>The policy set and the registry\<close>

definition sample_time :: string where "sample_time = ''2026-07-01T08:00:00Z''"

definition sample_policy :: origin_policy where
  "sample_policy = \<lparr>op_ID = ''000-org'', op_OriginID = ''000-org'', op_CanonicalOrigin = ''https://000.org'',
     op_ReviewState = PolicyCompleted, op_Decision = DecisionPermitLive, op_ReviewedAt = Some sample_time,
     op_Reviewer = Some ''reviewer'',
     op_Robots = \<lparr>ra_State = ''unavailable'', ra_URL = ''https://000.org/robots.txt'',
       ra_ObservedAt = Some sample_time, ra_ArtifactDigest = None, ra_ProductToken = CrawlerToken\<rparr>,
     op_TermsState = ''not_found'', op_TermsReference = ''none'', op_Attribution = ''none'',
     op_Authentication = ''none_required'', op_RatePolicy = ''daily'', op_RetentionPolicy = ''public'',
     op_RiskState = ''accepted'', op_ReviewerNotes = ''none'', op_EvidenceRefs = [''review.json'']\<rparr>"

definition sample_policies :: policy_set where
  "sample_policies = \<lparr>ps_Format = PolicySetFormat, ps_Version = ''1'', ps_Statement = ''sample'',
     ps_Policies = [sample_policy], ps_digest = replicate 32 1\<rparr>"

definition sample_scheduler :: scheduler_state where
  "sample_scheduler = \<lparr>ss_State = ''ready'', ss_LastAttempt = Some sample_time, ss_CooldownUntil = None,
     ss_ConsecutiveFailures = 0, ss_PublicValue = 90, ss_SemanticNovelty = 70, ss_DemonstratedDemand = 50,
     ss_ChangeProbability = 30, ss_HealthNeed = 10, ss_EstimatedRequestCost = 7\<rparr>"

definition sample_runtime :: runtime_record where
  "sample_runtime = \<lparr>rt_LastSeen = None, rt_LastObserved = None, rt_RefreshClass = ''warm'',
     rt_RequestBudget = 24, rt_StorageBudgetByte = 1048576, rt_Scheduler = sample_scheduler\<rparr>"

definition sample_record :: origin_record where
  "sample_record = \<lparr>or_ID = ''000-org'', or_Scope = ScopeGenesisPublic, or_CanonicalOrigin = ''https://000.org'',
     or_RegistrableDomain = ''000.org'', or_ExecutionCatalogIDs = [],
     or_Catalog = \<lparr>tt_Status = ''cataloged'', tt_ReviewedAt = Some sample_time, tt_Reviewer = Some ''reviewer'',
       tt_EvidenceRefs = [''review.json'']\<rparr>,
     or_Policy = \<lparr>pd_ReviewState = PolicyCompleted, pd_Decision = DecisionPermitLive, pd_ReviewedAt = Some sample_time,
       pd_Reviewer = Some ''reviewer'', pd_PolicyID = Some ''000-org'',
       pd_PolicySetDigest = Some (digest_reference (replicate 32 1)), pd_RobotsDigest = None,
       pd_Attribution = ''none'', pd_Authentication = ''none_required'', pd_RatePolicy = ''daily'',
       pd_RetentionPolicy = ''public'', pd_TermsReference = ''none'', pd_RiskState = ''accepted'',
       pd_ReviewerNotes = ''none''\<rparr>,
     or_Technical = \<lparr>tt_Status = ''unprofiled'', tt_ReviewedAt = None, tt_Reviewer = None, tt_EvidenceRefs = []\<rparr>,
     or_Publisher = \<lparr>pb_Name = ''Sample'', pb_Kind = ''agency'', pb_Status = ''unclaimed'', pb_ReviewedAt = None,
       pb_Reviewer = None, pb_EvidenceRefs = [], pb_ManifestURL = None\<rparr>,
     or_Health = \<lparr>hl_Status = ''unknown'', hl_CheckedAt = None, hl_EvidenceRefs = []\<rparr>,
     or_AdapterTrust = \<lparr>tt_Status = ''none'', tt_ReviewedAt = None, tt_Reviewer = None, tt_EvidenceRefs = []\<rparr>,
     or_MappingTrust = \<lparr>tt_Status = ''none'', tt_ReviewedAt = None, tt_Reviewer = None, tt_EvidenceRefs = []\<rparr>,
     or_Jurisdiction = ''not_established'', or_Languages = [''en''],
     or_DomainFamilies = [''government_law_public_data''], or_AuthorityClass = ''public'',
     or_Discovery = \<lparr>ds_Sources = [], ds_ProfiledAt = None, ds_RobotsURL = None, ds_SitemapURLs = [],
       ds_FeedURLs = [], ds_APIDescriptions = [], ds_StructuredData = [], ds_PublicEndpoints = []\<rparr>,
     or_Interfaces = [], or_Capabilities = [],
     or_Access = \<lparr>am_Class = ''unknown'', am_AssessmentStatus = ''not_assessed'', am_LicenseOrTermsRefs = [],
       am_Attribution = ''none'', am_RatePolicy = ''daily'', am_PaymentProtocolCandidates = [],
       am_PriceDiscoveryStatus = ''not_assessed'', am_EvidenceDigest = None, am_OfferCandidates = []\<rparr>,
     or_Economics = \<lparr>em_FundingClass = ''commons'', em_Requests = 0, em_TransferredBytes = 0, em_EvidenceBytes = 0,
       em_CPUMilliseconds = 0, em_HumanReviewSeconds = 0, em_InfrastructureCostEstimate = None\<rparr>,
     or_Signals = [], or_Runtime = sample_runtime,
     or_Semantics = \<lparr>sr_NativeModule = None, sr_AdapterID = None, sr_ConformanceRef = None,
       sr_ContractSetDigest = None, sr_MappingModules = [], sr_ConceptIDs = [], sr_OperationIDs = [],
       sr_SemanticClosureDigests = []\<rparr>,
     or_Evidence = \<lparr>er_ObservationIDs = [], er_Artifacts = []\<rparr>\<rparr>"

definition sample_registry :: registry where
  "sample_registry = \<lparr>rg_Format = RegistryFormat, rg_Version = ''1'', rg_Origins = [sample_record]\<rparr>"

lemma sample_scheduler_valid: "SchedulerState_Validate sample_runtime sample_scheduler = None"
  by code_simp

lemma sample_policy_valid: "OriginPolicy_Validate sample_policy = None"
  by code_simp

lemma sample_origin_url: "origin_url_ok (url_Parse (or_CanonicalOrigin sample_record))"
  by code_simp

lemma sample_policy_dimension: "validatePolicyDimension (or_Policy sample_record) = None"
  by code_simp

lemma sample_technical: "validateTechnicalDimension sample_record = None"
  by code_simp

lemma sample_publisher_health:
  "validatePublisherDimension (or_Publisher sample_record) = None \<and>
   validateHealthDimension (or_Health sample_record) = None"
  by code_simp

lemma sample_trust: "validateTrustDimensions sample_record = None"
  by code_simp

lemma sample_capabilities: "validateCapabilityMetadata sample_record = None"
  by code_simp

lemma sample_catalog:
  "attested (tt_ReviewedAt (or_Catalog sample_record)) (tt_Reviewer (or_Catalog sample_record))
     (tt_EvidenceRefs (or_Catalog sample_record))"
  by code_simp

lemma sample_id: "idPattern (or_ID sample_record)"
  by code_simp

lemmas sample_record_dimensions = sample_origin_url sample_policy_dimension sample_technical
  sample_publisher_health [THEN conjunct1] sample_publisher_health [THEN conjunct2] sample_trust
  sample_capabilities sample_catalog sample_id

lemma sample_record_lists:
  "uniqueSorted (or_Languages sample_record)" "uniqueSorted (or_ExecutionCatalogIDs sample_record)"
  "uniqueSorted (or_DomainFamilies sample_record)"
  by (simp_all add: uniqueSorted_iff validText_def sample_record_def)

lemma sample_record_valid: "OriginRecord_Validate sample_record = None"
proof -
  have f: "or_Scope sample_record = ScopeGenesisPublic" "or_Runtime sample_record = sample_runtime"
    "tt_Status (or_Catalog sample_record) = ''cataloged''"
    "or_Languages sample_record = [''en'']" "or_DomainFamilies sample_record = [''government_law_public_data'']"
    "pd_ReviewState (or_Policy sample_record) = PolicyCompleted"
    "pd_Decision (or_Policy sample_record) = DecisionPermitLive" "hl_Status (or_Health sample_record) = ''unknown''"
    "tt_Status (or_AdapterTrust sample_record) = ''none''" "tt_Status (or_MappingTrust sample_record) = ''none''"
    "or_ID sample_record = ''000-org''" "or_RegistrableDomain sample_record = ''000.org''"
    "pb_Name (or_Publisher sample_record) = ''Sample''" "pb_Kind (or_Publisher sample_record) = ''agency''"
    "or_Jurisdiction sample_record = ''not_established''" "or_AuthorityClass sample_record = ''public''"
    by (simp_all add: sample_record_def)
  show ?thesis
    unfolding OriginRecord_Validate_def
    using sample_record_dimensions sample_record_lists sample_scheduler_valid
    by (simp add: f first_err_None fail_if_None validText_def live_decision_def sample_runtime_def)
      (simp add: RequiredFamilyQuotas_def)
qed

lemma sample_binding: "validatePolicyBinding sample_policies sample_record = None"
  by code_simp

lemma sample_candidates:
  "sl_Candidates sample_selection = sample_entry (0, ''government_law_public_data'') #
     map sample_entry (zip [1..<500] (tl sample_families))"
proof -
  have "sample_families = ''government_law_public_data'' # tl sample_families"
    by (simp add: sample_families_def RequiredFamilyQuotas_def numeral_eq_Suc)
  then have "zip [0..<500] sample_families = (0, ''government_law_public_data'') # zip [1..<500] (tl sample_families)"
    by (metis upt_conv_Cons One_nat_def zero_less_numeral zip_Cons_Cons)
  then show ?thesis by (simp add: sample_selection_def)
qed

lemma sample_find: "Selection_Find sample_selection ''000-org'' =
    Inr (sample_entry (0, ''government_law_public_data''))"
proof -
  have "cd_ID (sample_entry (0, ''government_law_public_data'')) = ''000-org''" by code_simp
  then show ?thesis by (simp add: Selection_Find_def sample_candidates)
qed

lemma sample_policies_valid: "PolicySet_Validate (Some sample_policies) (Some sample_selection) = None"
proof -
  have "op_CanonicalOrigin sample_policy = cd_CanonicalOrigin (sample_entry (0, ''government_law_public_data''))"
    by code_simp
  moreover have "op_OriginID sample_policy = ''000-org''" "op_ID sample_policy = ''000-org''"
    by (simp_all add: sample_policy_def)
  moreover have "replicate 32 (1 :: byte) \<noteq> replicate 32 0" by (simp add: numeral_eq_Suc)
  ultimately show ?thesis
    by (simp add: PolicySet_Validate_def sample_policies_def sample_policy_valid sample_find first_err_None
        fail_if_None wrap_err_None validText_def RequiredCandidates_def)
qed

lemma sample_registry_valid:
  "Registry_Validate (Some sample_registry) (Some sample_selection) (Some sample_policies) = None"
proof -
  have id: "or_ID sample_record = ''000-org''" "or_Scope sample_record = ScopeGenesisPublic"
    "or_ExecutionCatalogIDs sample_record = []" "op_OriginID sample_policy = ''000-org''"
    by (simp_all add: sample_record_def sample_policy_def)
  have "or_CanonicalOrigin sample_record = cd_CanonicalOrigin (sample_entry (0, ''government_law_public_data''))"
    "containsText (or_DomainFamilies sample_record)
       (cd_DomainFamily (sample_entry (0, ''government_law_public_data'')))" by code_simp+
  then have "validate_scope sample_selection sample_record = None"
    by (simp add: validate_scope_def id sample_find first_err_None fail_if_None)
  moreover have "policy_bound sample_policies sample_record"
    by (simp add: policy_bound_def sample_binding id)
  ultimately show ?thesis
    by (simp add: Registry_Validate_None sample_registry_def sample_record_valid validText_def
        sample_policies_def public_records_def id)
qed

end
