(* ===== verification/Atlas_Frontier.thy ===== *)
theory Atlas_Frontier
  imports Atlas_Sample "HOL-Library.Product_Lexorder" "HOL-Library.Signed_Division" "HOL-Library.Multiset"
begin

text \<open>
  The dry run of the frontier, \<open>BuildDryRunFrontier\<close> of \<open>internal/atlas/frontier.go\<close>.
  The time of the plan is its number of nanoseconds since the start of year 0 and whether its
  location is UTC; an instant before year 0 is not represented. Decisions or jobs with one key are
  equal, so that the unstable sort of the code has one result.
\<close>

section \<open>Data\<close>

definition FrontierPlanFormat :: string where "FrontierPlanFormat = ''tw.atlas-frontier-plan/0.1''"

record frontier_decision =
  fd_OriginID :: string
  fd_Action :: string
  fd_Reason :: string
  fd_DueAt :: "string option"

record frontier_job =
  fj_OriginID :: string
  fj_Priority :: uint64
  fj_RefreshClass :: string
  fj_DueAt :: string
  fj_RequestBudget :: int
  fj_StorageBudgetByte :: int

record frontier_plan =
  fp_Format :: string
  fp_GeneratedAt :: string
  fp_Mode :: string
  fp_NetworkAccess :: string
  fp_Decisions :: "frontier_decision list"
  fp_Jobs :: "frontier_job list"

section \<open>One candidate\<close>

text \<open>A product of \<open>int64\<close>, divided with truncation; the cost of an active scheduler is not 0.\<close>

definition job_priority :: "scheduler_state \<Rightarrow> uint64" where
  "job_priority s =
     (let product = word_of_int (ss_PublicValue s) * word_of_int (ss_SemanticNovelty s) *
            word_of_int (ss_DemonstratedDemand s) * word_of_int (ss_ChangeProbability s) *
            word_of_int (ss_HealthNeed s) :: uint64;
          priority = word_of_int (sint product sdiv sint (word_of_int (ss_EstimatedRequestCost s) :: uint64))
      in if priority = 0 then 1 else priority)"

definition blocked :: "string \<Rightarrow> string \<Rightarrow> frontier_decision" where
  "blocked originID reason =
     \<lparr>fd_OriginID = originID, fd_Action = ''blocked'', fd_Reason = reason, fd_DueAt = None\<rparr>"

definition decide_time :: "nat \<Rightarrow> origin_record \<Rightarrow> frontier_decision \<times> frontier_job option" where
  "decide_time at r =
     (let s = rt_Scheduler (or_Runtime r);
          due = (case ss_LastAttempt s of
              None \<Rightarrow> at
            | Some attempt \<Rightarrow> nanos_of_text attempt + nat (count_of refreshIntervals (rt_RefreshClass (or_Runtime r))));
          dueText = format_nanos due
      in if due > at then
           (\<lparr>fd_OriginID = or_ID r, fd_Action = ''defer'', fd_Reason = ''not_due'', fd_DueAt = Some dueText\<rparr>, None)
         else
           (\<lparr>fd_OriginID = or_ID r, fd_Action = ''schedule'', fd_Reason = ''due'', fd_DueAt = Some dueText\<rparr>,
            Some \<lparr>fj_OriginID = or_ID r, fj_Priority = job_priority s,
              fj_RefreshClass = rt_RefreshClass (or_Runtime r), fj_DueAt = dueText,
              fj_RequestBudget = rt_RequestBudget (or_Runtime r),
              fj_StorageBudgetByte = rt_StorageBudgetByte (or_Runtime r)\<rparr>))"

definition in_cooldown :: "nat \<Rightarrow> scheduler_state \<Rightarrow> bool" where
  "in_cooldown at s = (case ss_CooldownUntil s of None \<Rightarrow> False | Some c \<Rightarrow> nanos_of_text c > at)"

definition decide_record :: "nat \<Rightarrow> origin_record \<Rightarrow> frontier_decision \<times> frontier_job option" where
  "decide_record at r =
     (let s = rt_Scheduler (or_Runtime r) in
      if pd_ReviewState (or_Policy r) \<noteq> PolicyCompleted then (blocked (or_ID r) ''policy_review_pending'', None)
      else if pd_Decision (or_Policy r) \<noteq> DecisionPermitLive \<and>
          pd_Decision (or_Policy r) \<noteq> DecisionPermitWithConstraints then
        (blocked (or_ID r) ''policy_not_live_permitted'', None)
      else if ss_State s = ''disabled'' then (blocked (or_ID r) ''scheduler_disabled'', None)
      else if in_cooldown at s then
        (\<lparr>fd_OriginID = or_ID r, fd_Action = ''defer'', fd_Reason = ''cooldown'',
          fd_DueAt = map_option (\<lambda>c. format_nanos (nanos_of_text c)) (ss_CooldownUntil s)\<rparr>, None)
      else decide_time at r)"

text \<open>A later record with the same identifier replaces an earlier one in the Go map.\<close>

definition public_record :: "registry \<Rightarrow> string \<Rightarrow> origin_record option" where
  "public_record g i = map_of (rev (map (\<lambda>r. (or_ID r, r)) (public_records g))) i"

definition decide_candidate :: "registry \<Rightarrow> nat \<Rightarrow> candidate \<Rightarrow> frontier_decision \<times> frontier_job option" where
  "decide_candidate g at c = (case public_record g (cd_ID c) of
      None \<Rightarrow> (blocked (cd_ID c) ''catalog_review_pending'', None)
    | Some r \<Rightarrow> decide_record at r)"

section \<open>The plan\<close>

definition job_key :: "frontier_job \<Rightarrow> int \<times> string" where
  "job_key j = (- sint (fj_Priority j), fj_OriginID j)"

definition BuildDryRunFrontier ::
  "selection option \<Rightarrow> registry option \<Rightarrow> policy_set option \<Rightarrow> nat \<Rightarrow> bool \<Rightarrow> error + frontier_plan" where
  "BuildDryRunFrontier selection registry policies at utc = (case (selection, registry, policies) of
      (Some sel, Some g, Some ps) \<Rightarrow>
        after (first_err [
          PolicySet_Validate (Some ps) (Some sel),
          Registry_Validate (Some g) (Some sel) (Some ps),
          fail_if (\<not> utc) (Msg ''atlas: frontier time must be UTC'')])
          (let steps = map (decide_candidate g at) (sl_Candidates sel) in
           Inr \<lparr>fp_Format = FrontierPlanFormat, fp_GeneratedAt = format_nanos at, fp_Mode = ''dry_run'',
             fp_NetworkAccess = ''disabled'',
             fp_Decisions = sort_key fd_OriginID (map fst steps),
             fp_Jobs = sort_key job_key (List.map_filter snd steps)\<rparr>)
    | _ \<Rightarrow> Inl (Msg ''atlas: selection, registry, and policies are required''))"

section \<open>Laws\<close>

lemma BuildDryRunFrontier_Inr:
  "BuildDryRunFrontier (Some sel) (Some g) (Some ps) at utc = Inr fp \<longleftrightarrow>
     PolicySet_Validate (Some ps) (Some sel) = None \<and> Registry_Validate (Some g) (Some sel) (Some ps) = None \<and> utc \<and>
     fp = \<lparr>fp_Format = FrontierPlanFormat, fp_GeneratedAt = format_nanos at, fp_Mode = ''dry_run'',
       fp_NetworkAccess = ''disabled'',
       fp_Decisions = sort_key fd_OriginID (map (fst \<circ> decide_candidate g at) (sl_Candidates sel)),
       fp_Jobs = sort_key job_key (List.map_filter snd (map (decide_candidate g at) (sl_Candidates sel)))\<rparr>"
  by (auto simp: BuildDryRunFrontier_def after_Inr first_err_None fail_if_None Let_def)

lemma public_record_Some: "public_record g i = Some r \<Longrightarrow> r \<in> set (public_records g) \<and> or_ID r = i"
  by (auto simp: public_record_def dest: map_of_SomeD)

lemma decide_record_job:
  "snd (decide_record at r) = Some j \<longleftrightarrow>
     pd_ReviewState (or_Policy r) = PolicyCompleted \<and> live_decision (pd_Decision (or_Policy r)) \<and>
     ss_State (rt_Scheduler (or_Runtime r)) \<noteq> ''disabled'' \<and>
     \<not> in_cooldown at (rt_Scheduler (or_Runtime r)) \<and> snd (decide_time at r) = Some j"
  by (auto simp: decide_record_def Let_def live_decision_def)

lemma decide_time_job:
  "snd (decide_time at r) = Some j \<Longrightarrow>
     fj_OriginID j = or_ID r \<and> fj_Priority j = job_priority (rt_Scheduler (or_Runtime r)) \<and>
     fj_RefreshClass j = rt_RefreshClass (or_Runtime r) \<and> fj_RequestBudget j = rt_RequestBudget (or_Runtime r) \<and>
     fj_StorageBudgetByte j = rt_StorageBudgetByte (or_Runtime r) \<and>
     (case ss_LastAttempt (rt_Scheduler (or_Runtime r)) of None \<Rightarrow> fj_DueAt j = format_nanos at
      | Some t \<Rightarrow> nanos_of_text t + nat (count_of refreshIntervals (rt_RefreshClass (or_Runtime r))) \<le> at)"
  by (auto simp: decide_time_def Let_def split: if_splits option.splits)

lemma decide_candidate_job:
  "snd (decide_candidate g at c) = Some j \<longleftrightarrow>
     (\<exists>r. public_record g (cd_ID c) = Some r \<and> snd (decide_record at r) = Some j)"
  by (auto simp: decide_candidate_def split: option.splits)

lemma decide_candidate_id: "fd_OriginID (fst (decide_candidate g at c)) = cd_ID c"
  by (auto simp: decide_candidate_def decide_record_def decide_time_def Let_def blocked_def
      dest: public_record_Some split: option.splits)

lemma set_map_filter: "set (List.map_filter f xs) = {y. \<exists>x \<in> set xs. f x = Some y}"
  by (induction xs) (auto simp: map_filter_simps split: option.splits)

lemma record_scheduler_live:
  assumes "OriginRecord_Validate r = None" "ss_State (rt_Scheduler (or_Runtime r)) \<noteq> ''disabled''"
  shows "pd_ReviewState (or_Policy r) = PolicyCompleted" "live_decision (pd_Decision (or_Policy r))"
    "hl_Status (or_Health r) \<notin> set [''suspended'', ''revoked'']" "tt_Status (or_AdapterTrust r) \<noteq> ''revoked''"
    "tt_Status (or_MappingTrust r) \<noteq> ''revoked''" "pd_PolicyID (or_Policy r) \<noteq> None"
    "SchedulerState_Validate (or_Runtime r) (rt_Scheduler (or_Runtime r)) = None"
proof -
  show c: "pd_ReviewState (or_Policy r) = PolicyCompleted" "live_decision (pd_Decision (or_Policy r))"
    "hl_Status (or_Health r) \<notin> set [''suspended'', ''revoked'']" "tt_Status (or_AdapterTrust r) \<noteq> ''revoked''"
    "tt_Status (or_MappingTrust r) \<noteq> ''revoked''"
    "SchedulerState_Validate (or_Runtime r) (rt_Scheduler (or_Runtime r)) = None"
    using assms by (simp_all add: OriginRecord_Validate_def first_err_None fail_if_None)
  have "validatePolicyDimension (or_Policy r) = None"
    using assms(1) by (simp add: OriginRecord_Validate_def first_err_None)
  then show "pd_PolicyID (or_Policy r) \<noteq> None"
    using c(1) by (auto simp: validatePolicyDimension_def first_err_None fail_if_None)
qed

lemma binding_authorizes:
  assumes "PolicySet_Validate (Some ps) (Some sel) = None" "validatePolicyBinding ps r = None"
    and "ss_State (rt_Scheduler (or_Runtime r)) \<noteq> ''disabled''"
  shows "\<exists>p. p \<in> set (ps_Policies ps) \<and> op_OriginID p = or_ID r \<and> op_ReviewState p = PolicyCompleted \<and>
    live_decision (op_Decision p) \<and> ra_State (op_Robots p) \<in> {''successful'', ''unavailable''} \<and>
    op_TermsState p \<in> {''accepted'', ''not_found''} \<and> op_Authentication p = ''none_required'' \<and>
    op_RiskState p = ''accepted''"
proof -
  obtain p where p: "PolicySet_Find (Some ps) (or_ID r) = Inr p"
    using assms(2) by (auto simp: validatePolicyBinding_def split: sum.splits)
  then have live: "op_ReviewState p = PolicyCompleted" "live_decision (op_Decision p)"
    using assms(2,3) by (auto simp: validatePolicyBinding_def first_err_None fail_if_None Let_def)
  have m: "p \<in> set (ps_Policies ps)" "op_OriginID p = or_ID r" using PolicySet_Find_Inr [OF p] by simp_all
  then have "OriginPolicy_Validate p = None" using PolicySet_Validate_None [OF assms(1)] by (simp add: list_all_iff)
  moreover have "retrieval_decision (op_Decision p)"
    using live(2) by (auto simp: retrieval_decision_def live_decision_def)
  ultimately have "ra_State (op_Robots p) \<in> {''successful'', ''unavailable''} \<and>
    op_TermsState p \<in> {''accepted'', ''not_found''} \<and> op_Authentication p = ''none_required'' \<and>
    op_RiskState p = ''accepted''"
    using live(1) by (auto simp: OriginPolicy_Validate_def first_err_None fail_if_None)
  with m live show ?thesis by blast
qed
lemma fail_if_list_None: "first_err (map (\<lambda>v. fail_if (P v) e) vs) = None \<longleftrightarrow> list_all (\<lambda>v. \<not> P v) vs"
  by (induction vs) (auto simp: first_err_None fail_if_None)

lemma product_bound:
  "list_all (\<lambda>v. 0 \<le> v \<and> v \<le> 100) vs \<Longrightarrow> 0 \<le> prod_list vs \<and> prod_list vs \<le> (100 :: int) ^ length vs"
proof (induction vs)
  case (Cons v vs)
  then have "0 \<le> v" "v \<le> 100" "0 \<le> prod_list vs" "prod_list vs \<le> 100 ^ length vs" by simp_all
  then show ?case using mult_mono [of v 100 "prod_list vs" "100 ^ length vs"] by simp
qed simp

text \<open>
  C38: the priority of a job. For an active scheduler that its validator accepts, the 64-bit
  computation is exact: the priority is the product of the five factors divided by the cost,
  rounded down, but at least 1, and it never exceeds 10 to the 10, so that the comparison of priorities
  is that of the exact quotients.
\<close>

theorem job_priority_exact:
  assumes "SchedulerState_Validate runtime s = None" "ss_State s \<noteq> ''disabled''"
  shows "sint (job_priority s) =
      max 1 (ss_PublicValue s * ss_SemanticNovelty s * ss_DemonstratedDemand s * ss_ChangeProbability s *
        ss_HealthNeed s div ss_EstimatedRequestCost s) \<and>
    sint (job_priority s) \<le> 10 ^ 10"
proof -
  let ?p = "ss_PublicValue s * ss_SemanticNovelty s * ss_DemonstratedDemand s * ss_ChangeProbability s * ss_HealthNeed s"
  let ?c = "ss_EstimatedRequestCost s"
  have b: "list_all (\<lambda>v. 0 \<le> v \<and> v \<le> 100) (priority_factors s)" "?c \<noteq> 0"
    using assms by (auto simp: SchedulerState_Validate_def first_err_None fail_if_None fail_if_list_None
        not_less priority_factors_def)
  then have c: "1 \<le> ?c" "?c \<le> 100" by (auto simp: priority_factors_def)
  have "0 \<le> ?p \<and> ?p \<le> 100 ^ 5"
    using product_bound [of "butlast (priority_factors s)"] b(1) by (simp add: priority_factors_def mult.assoc)
  then have p: "0 \<le> ?p" "?p \<le> 10000000000" by simp_all
  have w: "word_of_int (ss_PublicValue s) * word_of_int (ss_SemanticNovelty s) *
      word_of_int (ss_DemonstratedDemand s) * word_of_int (ss_ChangeProbability s) *
      word_of_int (ss_HealthNeed s) = (word_of_int ?p :: uint64)" by simp
  have sp: "sint (word_of_int ?p :: uint64) = ?p" "sint (word_of_int ?c :: uint64) = ?c"
    using p c by (intro sint_word_of_int_small, simp_all)+
  have d: "x sdiv ?c = x div ?c" if "0 \<le> x" for x
    using that c(1) by (cases "x = 0") (simp_all add: signed_divide_int_def)
  have q: "0 \<le> ?p div ?c" "?p div ?c \<le> 10000000000"
  proof -
    show "0 \<le> ?p div ?c" using p(1) c(1) by (intro pos_imp_zdiv_nonneg_iff [THEN iffD2]) simp_all
    have "?p div ?c \<le> ?p div 1" using p(1) c(1) by (intro zdiv_mono2) simp_all
    then show "?p div ?c \<le> 10000000000" using p(2) by simp
  qed
  have sq: "sint (word_of_int (?p div ?c) :: uint64) = ?p div ?c"
    using q by (intro sint_word_of_int_small) simp_all
  then have z: "word_of_int (?p div ?c) = (0 :: uint64) \<longleftrightarrow> ?p div ?c = 0" by (metis signed_0 word_of_int_0)
  have "job_priority s = (if ?p div ?c = 0 then 1 else word_of_int (?p div ?c))"
    by (simp only: job_priority_def Let_def w sp d [OF p(1)] z)
  then show ?thesis using q sq by (auto simp: max_def)
qed

theorem job_priority_exact_witness: "sint (job_priority sample_scheduler) = 13500000"
  using job_priority_exact [OF sample_scheduler_valid] by (simp add: sample_scheduler_def)



definition sample_instant :: nat where
  "sample_instant = nanos_of_text ''2026-07-03T08:00:00Z''"

lemmas instant_simps = nanos_of_text_def utc_second_value_def sub_text_def decimal_value_def digit_value_def
  day_number_def leap_years_before_def days_in_def is_leap_def sample_time_def Let_def

lemma sample_due: "nanos_of_text sample_time + 86400000000000 = nanos_of_text ''2026-07-02T08:00:00Z''"
  by (simp add: instant_simps)

lemma sample_due_before: "nanos_of_text sample_time + 86400000000000 \<le> sample_instant"
  by (simp add: instant_simps sample_instant_def)

lemma sample_scheduled:
  "snd (decide_candidate sample_registry sample_instant (sample_entry (0, ''government_law_public_data''))) =
     Some \<lparr>fj_OriginID = ''000-org'', fj_Priority = job_priority sample_scheduler, fj_RefreshClass = ''warm'',
       fj_DueAt = ''2026-07-02T08:00:00Z'', fj_RequestBudget = 24, fj_StorageBudgetByte = 1048576\<rparr>"
proof -
  have id: "cd_ID (sample_entry (0, ''government_law_public_data'')) = ''000-org''"
    "or_ID sample_record = ''000-org''" "or_Scope sample_record = ScopeGenesisPublic"
    "or_Runtime sample_record = sample_runtime" "pd_ReviewState (or_Policy sample_record) = PolicyCompleted"
    "pd_Decision (or_Policy sample_record) = DecisionPermitLive"
    by (simp_all add: sample_entry_def sample_record_def digit_char_def)
  have t: "ss_LastAttempt sample_scheduler = Some sample_time" "ss_State sample_scheduler = ''ready''"
    "ss_CooldownUntil sample_scheduler = None" "rt_Scheduler sample_runtime = sample_scheduler"
    "nat (count_of refreshIntervals (rt_RefreshClass sample_runtime)) = 86400000000000"
    by (simp_all add: sample_scheduler_def sample_runtime_def refreshIntervals_def count_of_def)
  have "format_nanos (nanos_of_text ''2026-07-02T08:00:00Z'') = ''2026-07-02T08:00:00Z''"
    by (rule format_nanos_of_text) code_simp
  moreover have "snd (decide_record sample_instant sample_record) = snd (decide_time sample_instant sample_record)"
    by (simp add: decide_record_def Let_def id t in_cooldown_def)
  ultimately show ?thesis
    using sample_due_before
    by (simp add: decide_candidate_def id public_record_def public_records_def sample_registry_def decide_time_def
        Let_def t sample_due) (simp add: sample_runtime_def)
qed

lemma sample_plan:
  "\<exists>fp j. BuildDryRunFrontier (Some sample_selection) (Some sample_registry) (Some sample_policies) sample_instant True =
       Inr fp \<and> j \<in> set (fp_Jobs fp) \<and> fj_OriginID j = ''000-org''"
proof -
  let ?fp = "\<lparr>fp_Format = FrontierPlanFormat, fp_GeneratedAt = format_nanos sample_instant, fp_Mode = ''dry_run'',
       fp_NetworkAccess = ''disabled'',
       fp_Decisions = sort_key fd_OriginID (map (fst \<circ> decide_candidate sample_registry sample_instant)
         (sl_Candidates sample_selection)),
       fp_Jobs = sort_key job_key (List.map_filter snd (map (decide_candidate sample_registry sample_instant)
         (sl_Candidates sample_selection)))\<rparr>"
  have "BuildDryRunFrontier (Some sample_selection) (Some sample_registry) (Some sample_policies) sample_instant True =
      Inr ?fp"
    by (simp only: BuildDryRunFrontier_Inr sample_policies_valid sample_registry_valid simp_thms)
  moreover have "\<exists>c \<in> set (sl_Candidates sample_selection). \<exists>j.
      snd (decide_candidate sample_registry sample_instant c) = Some j \<and> fj_OriginID j = ''000-org''"
    unfolding sample_candidates by (intro bexI conjI exI, rule sample_scheduled) simp_all
  then have "\<exists>j. j \<in> set (fp_Jobs ?fp) \<and> fj_OriginID j = ''000-org''"
    by (auto simp: set_map_filter)
  ultimately show ?thesis by blast
qed


lemma mset_map_filter:
  "mset (map g (List.map_filter f xs)) = image_mset (g \<circ> the \<circ> f) (filter_mset (\<lambda>x. f x \<noteq> None) (mset xs))"
  by (induction xs) (auto simp: map_filter_simps split: option.splits)

lemma decide_candidate_scheduled:
  "fd_Action (fst (decide_candidate g at c)) = ''schedule'' \<longleftrightarrow> snd (decide_candidate g at c) \<noteq> None"
  by (auto simp: decide_candidate_def decide_record_def decide_time_def Let_def blocked_def split: option.splits)

lemma decide_candidate_job_id:
  "snd (decide_candidate g at c) = Some j \<Longrightarrow> fj_OriginID j = cd_ID c"
  by (auto simp: decide_candidate_job decide_record_job dest!: decide_time_job public_record_Some)

lemma job_key_le:
  "job_key a \<le> job_key b \<Longrightarrow>
     sint (fj_Priority b) < sint (fj_Priority a) \<or>
     fj_Priority a = fj_Priority b \<and> fj_OriginID a \<le> fj_OriginID b"
proof -
  assume "job_key a \<le> job_key b"
  then have k: "sint (fj_Priority b) < sint (fj_Priority a) \<or>
      sint (fj_Priority b) \<le> sint (fj_Priority a) \<and> fj_OriginID a \<le> fj_OriginID b"
    by (simp add: job_key_def)
  show ?thesis
  proof (cases "sint (fj_Priority a) = sint (fj_Priority b)")
    case True
    then have "fj_Priority a = fj_Priority b" by (rule signed_word_eqI)
    with k True show ?thesis by simp
  qed (use k in linarith)
qed

text \<open>
  C11: a plan decides about every candidate of the selection once, and lists the decisions by
  origin. It has one job for each decision to schedule and no other, and orders the jobs by
  decreasing priority, those of one priority by origin.
\<close>

theorem frontier_plan_complete:
  assumes "BuildDryRunFrontier (Some sel) (Some g) (Some ps) at utc = Inr fp"
  shows "mset (map fd_OriginID (fp_Decisions fp)) = mset (map cd_ID (sl_Candidates sel)) \<and>
    sorted (map fd_OriginID (fp_Decisions fp)) \<and>
    mset (map fj_OriginID (fp_Jobs fp)) =
      mset (map fd_OriginID (filter (\<lambda>d. fd_Action d = ''schedule'') (fp_Decisions fp))) \<and>
    sorted_wrt (\<lambda>a b. sint (fj_Priority b) < sint (fj_Priority a) \<or>
      fj_Priority a = fj_Priority b \<and> fj_OriginID a \<le> fj_OriginID b) (fp_Jobs fp)"
proof -
  let ?d = "decide_candidate g at" and ?cs = "sl_Candidates sel"
  from assms have d: "fp_Decisions fp = sort_key fd_OriginID (map (fst \<circ> ?d) ?cs)"
    and j: "fp_Jobs fp = sort_key job_key (List.map_filter snd (map ?d ?cs))"
    by (simp_all add: BuildDryRunFrontier_Inr)
  have "mset (map fd_OriginID (fp_Decisions fp)) = mset (map cd_ID ?cs)"
    by (simp add: d decide_candidate_id image_mset.compositionality comp_def)
  moreover have "sorted (map fd_OriginID (fp_Decisions fp))" by (simp add: d)
  moreover have "mset (map fj_OriginID (fp_Jobs fp)) =
      mset (map fd_OriginID (filter (\<lambda>x. fd_Action x = ''schedule'') (fp_Decisions fp)))"
  proof -
    have "mset (map fj_OriginID (fp_Jobs fp)) =
        image_mset (fj_OriginID \<circ> the \<circ> snd) (filter_mset (\<lambda>x. snd x \<noteq> None) (mset (map ?d ?cs)))"
      unfolding j mset_map_filter [symmetric] by simp
    also have "\<dots> = image_mset cd_ID (filter_mset (\<lambda>c. snd (?d c) \<noteq> None) (mset ?cs))"
      by (auto simp: filter_mset_image_mset image_mset.compositionality comp_def decide_candidate_job_id
          intro!: image_mset_cong)
    also have "\<dots> = mset (map fd_OriginID (filter (\<lambda>x. fd_Action x = ''schedule'') (fp_Decisions fp)))"
      by (simp add: d mset_filter filter_mset_image_mset image_mset.compositionality comp_def decide_candidate_id
          decide_candidate_scheduled)
    finally show ?thesis .
  qed
  moreover have "sorted_wrt (\<lambda>a b. sint (fj_Priority b) < sint (fj_Priority a) \<or>
      fj_Priority a = fj_Priority b \<and> fj_OriginID a \<le> fj_OriginID b) (fp_Jobs fp)"
  proof -
    have "sorted_wrt (\<lambda>a b. job_key a \<le> job_key b) (fp_Jobs fp)"
      unfolding j by (rule sorted_map [THEN iffD1, OF sorted_sort_key])
    then show ?thesis by (rule sorted_wrt_mono_rel [rotated]) (rule job_key_le)
  qed
  ultimately show ?thesis by blast
qed

theorem frontier_plan_complete_witness:
  "\<exists>fp. BuildDryRunFrontier (Some sample_selection) (Some sample_registry) (Some sample_policies) sample_instant True =
      Inr fp \<and> length (fp_Decisions fp) = 500"
proof -
  obtain fp where fp: "BuildDryRunFrontier (Some sample_selection) (Some sample_registry) (Some sample_policies)
      sample_instant True = Inr fp"
    using sample_plan by blast
  have "length (sl_Candidates sample_selection) = 500" using sample_selection_valid by (simp add: selection_valid_iff)
  moreover have "length (fp_Decisions fp) = length (sl_Candidates sample_selection)"
    using frontier_plan_complete [OF fp] by (metis length_map size_mset)
  ultimately show ?thesis using fp by simp
qed

end
