(* ===== verification/Atlas_Metrics.thy ===== *)
theory Atlas_Metrics
  imports Atlas_Sample Atomic_File
begin

text \<open>
  The metrics of the atlas: \<open>internal/atlas/metrics.go\<close> with the capability counters of
  \<open>capability.go\<close>. Go maps of counters are association lists changed by
  \<open>count_add\<close>; the sets of the code are lists without duplicates. The totals of the
  telemetry are \<open>int64\<close>, that is, \<open>64 word\<close>. The fields that the code leaves
  zero (\<open>Runtime\<close>, \<open>Learning\<close> and two of \<open>Semantics\<close>) are not represented.
\<close>

section \<open>Capability counters\<close>

record capability_counts =
  cn_InterfaceKinds :: "(string \<times> int) list"
  cn_CapabilityCandidates :: int
  cn_CapabilityStatus :: "(string \<times> int) list"
  cn_EffectClasses :: "(string \<times> int) list"
  cn_AdmittedPublicReadOperations :: int
  cn_AccessClasses :: "(string \<times> int) list"
  cn_PriceDiscoveryStatus :: "(string \<times> int) list"
  cn_CommercialOfferCandidates :: int
  cn_PublisherNativeDeclarations :: int
  cn_MachineReadablePaymentDeclarations :: int
  cn_ReadinessSignalsPresent :: "(string \<times> int) list"
  cn_Requests :: uint64
  cn_TransferredBytes :: uint64
  cn_EvidenceBytes :: uint64
  cn_CPUMilliseconds :: uint64
  cn_HumanReviewSeconds :: uint64
  cn_InfrastructureCostMicrounits :: "(string \<times> uint64) list"

definition zero_counts :: "string list \<Rightarrow> (string \<times> int) list" where
  "zero_counts keys = map (\<lambda>k. (k, 0)) keys"

definition NewCapabilityCounts :: "nat \<Rightarrow> capability_counts" where
  "NewCapabilityCounts defaultOrigins = \<lparr>
     cn_InterfaceKinds = zero_counts [''twirx_native'', ''mcp'', ''openapi'', ''graphql'', ''rest'', ''rss'', ''atom'',
       ''jsonld'', ''microdata'', ''semantic_html'', ''webmcp'', ''browser'', ''search_discovery''],
     cn_CapabilityCandidates = 0,
     cn_CapabilityStatus = zero_counts [''observed'', ''candidate'', ''reviewed'', ''admitted''],
     cn_EffectClasses = zero_counts [''public_read'', ''authenticated_read'', ''reversible_write'',
       ''stateful_commitment'', ''financial'', ''legal_or_material'', ''destructive'', ''unknown''],
     cn_AdmittedPublicReadOperations = 0,
     cn_AccessClasses = zero_counts [''public_free'', ''authenticated'', ''subscription'', ''metered'',
       ''paid_per_use'', ''quote_required'', ''restricted''] @ [(''unknown'', int defaultOrigins)],
     cn_PriceDiscoveryStatus = (''not_assessed'', int defaultOrigins) #
       zero_counts [''not_found'', ''candidate'', ''source_stated'', ''reviewed''],
     cn_CommercialOfferCandidates = 0, cn_PublisherNativeDeclarations = 0, cn_MachineReadablePaymentDeclarations = 0,
     cn_ReadinessSignalsPresent = zero_counts [''twirx_native'', ''mcp'', ''openapi'', ''graphql'', ''api'', ''rss'',
       ''atom'', ''jsonld'', ''webmcp'', ''payment_requirement'', ''commercial_offer'', ''oauth_protected_resource'',
       ''agent_skill'', ''alternate_machine_representation''],
     cn_Requests = 0, cn_TransferredBytes = 0, cn_EvidenceBytes = 0, cn_CPUMilliseconds = 0,
     cn_HumanReviewSeconds = 0, cn_InfrastructureCostMicrounits = []\<rparr>"

definition add_interface :: "interface_declaration \<Rightarrow> capability_counts \<Rightarrow> capability_counts" where
  "add_interface d c = c\<lparr>
     cn_InterfaceKinds := count_add (id_Kind d) 1 (cn_InterfaceKinds c),
     cn_PublisherNativeDeclarations := cn_PublisherNativeDeclarations c +
       (if id_Kind d = ''twirx_native'' \<and> id_DeclarationStatus d = ''publisher_declared'' then 1 else 0)\<rparr>"

definition add_capability :: "capability_candidate \<Rightarrow> capability_counts \<Rightarrow> capability_counts" where
  "add_capability x c = c\<lparr>
     cn_CapabilityCandidates := cn_CapabilityCandidates c + 1,
     cn_CapabilityStatus := count_add (cc_Status x) 1 (cn_CapabilityStatus c),
     cn_EffectClasses := count_add (cc_EffectClass x) 1 (cn_EffectClasses c),
     cn_AdmittedPublicReadOperations := cn_AdmittedPublicReadOperations c +
       (if cc_Status x = ''admitted'' \<and> cc_EffectClass x = ''public_read'' then 1 else 0)\<rparr>"

definition add_signal :: "readiness_signal \<Rightarrow> capability_counts \<Rightarrow> capability_counts" where
  "add_signal g c =
     (if sg_Presence g \<noteq> ''present'' then c
      else c\<lparr>
        cn_ReadinessSignalsPresent := count_add (sg_Kind g) 1 (cn_ReadinessSignalsPresent c),
        cn_MachineReadablePaymentDeclarations := cn_MachineReadablePaymentDeclarations c +
          (if sg_Kind g = ''payment_requirement'' then 1 else 0)\<rparr>)"

fun cost_add :: "string \<Rightarrow> uint64 \<Rightarrow> (string \<times> uint64) list \<Rightarrow> (string \<times> uint64) list" where
  "cost_add k d [] = [(k, d)]"
| "cost_add k d ((l, v) # m) = (if l = k then (l, v + d) # m else (l, v) # cost_add k d m)"

definition add_economics :: "economics_metadata \<Rightarrow> capability_counts \<Rightarrow> capability_counts" where
  "add_economics e c = c\<lparr>
     cn_Requests := cn_Requests c + em_Requests e,
     cn_TransferredBytes := cn_TransferredBytes c + em_TransferredBytes e,
     cn_EvidenceBytes := cn_EvidenceBytes c + em_EvidenceBytes e,
     cn_CPUMilliseconds := cn_CPUMilliseconds c + em_CPUMilliseconds e,
     cn_HumanReviewSeconds := cn_HumanReviewSeconds c + em_HumanReviewSeconds e,
     cn_InfrastructureCostMicrounits := (case em_InfrastructureCostEstimate e of
         None \<Rightarrow> cn_InfrastructureCostMicrounits c
       | Some x \<Rightarrow> cost_add (ce_Currency x) (ce_AmountMicrounits x) (cn_InfrastructureCostMicrounits c))\<rparr>"

definition replace_default :: "capability_counts \<Rightarrow> capability_counts" where
  "replace_default c = c\<lparr>
     cn_AccessClasses := count_add ''unknown'' (- 1) (cn_AccessClasses c),
     cn_PriceDiscoveryStatus := count_add ''not_assessed'' (- 1) (cn_PriceDiscoveryStatus c)\<rparr>"

definition add_access :: "access_metadata \<Rightarrow> capability_counts \<Rightarrow> capability_counts" where
  "add_access a c = c\<lparr>
     cn_AccessClasses := count_add (am_Class a) 1 (cn_AccessClasses c),
     cn_PriceDiscoveryStatus := count_add (am_PriceDiscoveryStatus a) 1 (cn_PriceDiscoveryStatus c)\<rparr>"

definition add_offers :: "access_metadata \<Rightarrow> capability_counts \<Rightarrow> capability_counts" where
  "add_offers a c = c\<lparr>
     cn_CommercialOfferCandidates := cn_CommercialOfferCandidates c + int (length (am_OfferCandidates a))\<rparr>"

definition CapabilityCounts_Add :: "origin_record \<Rightarrow> bool \<Rightarrow> capability_counts \<Rightarrow> capability_counts" where
  "CapabilityCounts_Add r replacesDefault c =
     (add_economics (or_Economics r) \<circ> fold add_signal (or_Signals r) \<circ> add_offers (or_Access r) \<circ>
      fold add_capability (or_Capabilities r) \<circ> fold add_interface (or_Interfaces r) \<circ>
      add_access (or_Access r) \<circ> (if replacesDefault then replace_default else id)) c"

section \<open>Counters of the dimensions\<close>

record atlas_counts =
  at_SelectedCandidates :: int
  at_CanonicalRegistryRecords :: int
  at_GenesisPublicRecords :: int
  at_TestFixtureRecords :: int
  at_PolicyRecords :: int
  at_CatalogState :: "(string \<times> int) list"
  at_PolicyReviewState :: "(string \<times> int) list"
  at_PolicyDecision :: "(string \<times> int) list"
  at_TechnicalStage :: "(string \<times> int) list"
  at_TechnicalAtOrBeyond :: "(string \<times> int) list"
  at_PublisherStatus :: "(string \<times> int) list"
  at_HealthStatus :: "(string \<times> int) list"
  at_AdapterTrust :: "(string \<times> int) list"
  at_MappingTrust :: "(string \<times> int) list"

record coverage_state =
  cv_countries :: "string list"
  cv_languages :: "string list"
  cv_families :: "(string \<times> int) list"
  cv_authorities :: "(string \<times> int) list"
  cv_concepts :: "string list"
  cv_nativeModules :: "string list"
  cv_mappings :: "string list"

record metrics_state =
  ms_counts :: atlas_counts
  ms_coverage :: coverage_state
  ms_capabilities :: capability_counts

definition initial_atlas_counts :: "selection \<Rightarrow> registry \<Rightarrow> policy_set \<Rightarrow> atlas_counts" where
  "initial_atlas_counts sel g ps = (let n = int (length (sl_Candidates sel)) in \<lparr>
     at_SelectedCandidates = n, at_CanonicalRegistryRecords = int (length (rg_Origins g)),
     at_GenesisPublicRecords = 0, at_TestFixtureRecords = 0, at_PolicyRecords = int (length (ps_Policies ps)),
     at_CatalogState = [(''candidate'', n), (''cataloged'', 0)],
     at_PolicyReviewState = [(PolicyPending, n), (PolicyCompleted, 0)],
     at_PolicyDecision = [(DecisionPermitLive, 0), (DecisionPermitWithConstraints, 0), (DecisionProfileOnly, 0),
       (DecisionCatalogOnly, 0), (DecisionDeny, 0), (DecisionUncertain, n)],
     at_TechnicalStage = (''unprofiled'', n) # zero_counts (tl technicalOrder),
     at_TechnicalAtOrBeyond = (''unprofiled'', n) # zero_counts (tl technicalOrder),
     at_PublisherStatus = (''unclaimed'', n) # zero_counts [''domain_verified'', ''publisher_approved'', ''publisher_signed''],
     at_HealthStatus = (''unknown'', n) # zero_counts [''healthy'', ''degraded'', ''stale'', ''suspended'', ''revoked''],
     at_AdapterTrust = (''none'', n) # zero_counts [''candidate'', ''reviewed'', ''conformant'', ''revoked''],
     at_MappingTrust = (''none'', n) # zero_counts [''candidate'', ''reviewed'', ''disputed'', ''revoked'']\<rparr>)"

text \<open>A record leaves the default of a dimension when its own value is another.\<close>

definition move_count :: "string \<Rightarrow> string \<Rightarrow> (string \<times> int) list \<Rightarrow> (string \<times> int) list" where
  "move_count base v m = (if v \<noteq> base then count_add v 1 (count_add base (- 1) m) else m)"

definition count_record :: "origin_record \<Rightarrow> atlas_counts \<Rightarrow> atlas_counts" where
  "count_record r a = a\<lparr>
     at_GenesisPublicRecords := at_GenesisPublicRecords a + 1,
     at_CatalogState := count_add (tt_Status (or_Catalog r)) 1 (count_add ''candidate'' (- 1) (at_CatalogState a)),
     at_PolicyReviewState := move_count PolicyPending (pd_ReviewState (or_Policy r)) (at_PolicyReviewState a),
     at_PolicyDecision := move_count DecisionUncertain (pd_Decision (or_Policy r)) (at_PolicyDecision a),
     at_TechnicalStage := count_add (tt_Status (or_Technical r)) 1 (count_add ''unprofiled'' (- 1) (at_TechnicalStage a)),
     at_TechnicalAtOrBeyond := fold (\<lambda>i. count_add (technicalOrder ! i) 1)
       [1..<nat (TechnicalStage_Index (tt_Status (or_Technical r)) + 1)] (at_TechnicalAtOrBeyond a),
     at_PublisherStatus := move_count ''unclaimed'' (pb_Status (or_Publisher r)) (at_PublisherStatus a),
     at_HealthStatus := move_count ''unknown'' (hl_Status (or_Health r)) (at_HealthStatus a),
     at_AdapterTrust := move_count ''none'' (tt_Status (or_AdapterTrust r)) (at_AdapterTrust a),
     at_MappingTrust := move_count ''none'' (tt_Status (or_MappingTrust r)) (at_MappingTrust a)\<rparr>"

definition cover_record :: "origin_record \<Rightarrow> coverage_state \<Rightarrow> coverage_state" where
  "cover_record r v = v\<lparr>
     cv_countries := (if or_Jurisdiction r \<noteq> ''not_established'' then List.insert (or_Jurisdiction r) (cv_countries v)
       else cv_countries v),
     cv_languages := fold List.insert (or_Languages r) (cv_languages v),
     cv_families := fold (\<lambda>f. count_add f 1) (or_DomainFamilies r) (cv_families v),
     cv_authorities := count_add (or_AuthorityClass r) 1 (cv_authorities v),
     cv_nativeModules := (case sr_NativeModule (or_Semantics r) of None \<Rightarrow> cv_nativeModules v
       | Some m \<Rightarrow> List.insert m (cv_nativeModules v)),
     cv_concepts := fold List.insert (sr_ConceptIDs (or_Semantics r)) (cv_concepts v),
     cv_mappings := fold List.insert (sr_MappingModules (or_Semantics r)) (cv_mappings v)\<rparr>"

definition metrics_step :: "origin_record \<Rightarrow> metrics_state \<Rightarrow> metrics_state" where
  "metrics_step r s =
     (if or_Scope r = ScopeTestFixture then
        s\<lparr>ms_counts := (ms_counts s)\<lparr>at_TestFixtureRecords := at_TestFixtureRecords (ms_counts s) + 1\<rparr>\<rparr>
      else \<lparr>ms_counts = count_record r (ms_counts s), ms_coverage = cover_record r (ms_coverage s),
        ms_capabilities = CapabilityCounts_Add r True (ms_capabilities s)\<rparr>)"

section \<open>The metrics\<close>

definition MetricsFormat :: string where "MetricsFormat = ''tw.atlas-metrics/0.3''"

record metrics =
  mt_Format :: string
  mt_SelectionDigest :: string
  mt_Statement :: string
  mt_Atlas :: atlas_counts
  mt_SelectionTotal :: int
  mt_SelectionFamilies :: "(string \<times> int) list"
  mt_CountriesOrTerritories :: int
  mt_Languages :: int
  mt_DomainFamilies :: "(string \<times> int) list"
  mt_AuthorityClasses :: "(string \<times> int) list"
  mt_Capabilities :: capability_counts
  mt_CanonicalConcepts :: int
  mt_NativeTerms :: int
  mt_ReviewedMappings :: int

definition metrics_statement :: string where
  "metrics_statement = ''Counts are derived from validated repository artifacts across orthogonal state dimensions. '' @
     ''Pending policy review is never counted as completed. Controlled fixtures are separately counted and '' @
     ''excluded from every Genesis-500 public-origin state, coverage, and semantic counter.''"

definition initial_metrics_state :: "selection \<Rightarrow> registry \<Rightarrow> policy_set \<Rightarrow> metrics_state" where
  "initial_metrics_state sel g ps = \<lparr>ms_counts = initial_atlas_counts sel g ps,
     ms_coverage = \<lparr>cv_countries = [], cv_languages = [], cv_families = [], cv_authorities = [], cv_concepts = [],
       cv_nativeModules = [], cv_mappings = []\<rparr>,
     ms_capabilities = NewCapabilityCounts (length (sl_Candidates sel))\<rparr>"

definition metrics_of :: "selection \<Rightarrow> metrics_state \<Rightarrow> metrics" where
  "metrics_of sel s = (let v = ms_coverage s in \<lparr>
     mt_Format = MetricsFormat, mt_SelectionDigest = Selection_DigestReference sel, mt_Statement = metrics_statement,
     mt_Atlas = ms_counts s, mt_SelectionTotal = int (length (sl_Candidates sel)),
     mt_SelectionFamilies = sl_FamilyQuotas sel,
     mt_CountriesOrTerritories = int (length (cv_countries v)), mt_Languages = int (length (cv_languages v)),
     mt_DomainFamilies = cv_families v, mt_AuthorityClasses = cv_authorities v, mt_Capabilities = ms_capabilities s,
     mt_CanonicalConcepts = int (length (cv_concepts v)), mt_NativeTerms = int (length (cv_nativeModules v)),
     mt_ReviewedMappings = int (length (cv_mappings v))\<rparr>)"

definition BuildMetrics :: "selection option \<Rightarrow> registry option \<Rightarrow> policy_set option \<Rightarrow> error + metrics" where
  "BuildMetrics selection registry policies = (case (selection, registry, policies) of
      (Some sel, Some g, Some ps) \<Rightarrow>
        after (first_err [
          Selection_Validate sel,
          PolicySet_Validate (Some ps) (Some sel),
          Registry_Validate (Some g) (Some sel) (Some ps)])
          (Inr (metrics_of sel (fold metrics_step (rg_Origins g) (initial_metrics_state sel g ps))))
    | _ \<Rightarrow> Inl (Msg ''atlas: selection, registry, and policies are required''))"

text \<open>\<open>encode\<close> stands for \<open>json.MarshalIndent\<close>.\<close>

definition MarshalMetrics :: "(metrics \<Rightarrow> error + byte list) \<Rightarrow> metrics \<Rightarrow> error + byte list" where
  "MarshalMetrics encode m =
     (if mt_Format m \<noteq> MetricsFormat \<or> mt_SelectionDigest m = [] \<or>
         at_SelectedCandidates (mt_Atlas m) \<noteq> int RequiredCandidates
      then Inl (Msg ''atlas: invalid metrics'')
      else case encode m of Inl e \<Rightarrow> Inl (Wrap ''atlas: encode metrics'' e) | Inr data \<Rightarrow> Inr (data @ [10]))"


definition WriteMetrics :: "(metrics \<Rightarrow> error + byte list) \<Rightarrow> string \<Rightarrow> metrics \<Rightarrow> unit io" where
  "WriteMetrics encode path m = (case MarshalMetrics encode m of
      Inl e \<Rightarrow> io_err e
    | Inr data \<Rightarrow> atomic_Write path data 1048576)"

section \<open>Counters\<close>

text \<open>
  A counter of a dimension starts with all candidates at the default, and every public record
  moves one of them from the default to its own value.
\<close>

locale dimension_counter =
  fixes counts :: "metrics_state \<Rightarrow> (string \<times> int) list" and val :: "origin_record \<Rightarrow> string" and base :: string
  assumes start: "count_of (counts (initial_metrics_state sel g ps)) k =
      (if k = base then int (length (sl_Candidates sel)) else 0)"
    and skip: "or_Scope r = ScopeTestFixture \<Longrightarrow> counts (metrics_step r s) = counts s"
    and move: "or_Scope r \<noteq> ScopeTestFixture \<Longrightarrow> count_of (counts (metrics_step r s)) k =
      count_of (counts s) k + (if val r = k then 1 else 0) - (if base = k then 1 else 0)"
begin

lemma counted:
  "count_of (counts (fold metrics_step rs s)) k = count_of (counts s) k +
     int (length (filter (\<lambda>r. or_Scope r \<noteq> ScopeTestFixture \<and> val r = k) rs)) -
     (if base = k then int (length (filter (\<lambda>r. or_Scope r \<noteq> ScopeTestFixture) rs)) else 0)"
proof (induction rs arbitrary: s)
  case (Cons r rs)
  show ?case
  proof (cases "or_Scope r = ScopeTestFixture")
    case True
    then show ?thesis using skip [OF True, of s] by (simp add: Cons.IH)
  next
    case False
    then show ?thesis using move [OF False, of s] by (simp add: Cons.IH)
  qed
qed simp

lemma final:
  "count_of (counts (fold metrics_step rs (initial_metrics_state sel g ps))) k =
     int (length (filter (\<lambda>r. val r = k) (filter (\<lambda>r. or_Scope r \<noteq> ScopeTestFixture) rs))) +
     (if k = base then int (length (sl_Candidates sel)) - int (length (filter (\<lambda>r. or_Scope r \<noteq> ScopeTestFixture) rs))
      else 0)"
  unfolding counted start by (simp add: conj_commute) 

end

lemma count_of_Cons: "count_of ((l, v) # m) k = (if l = k then v else count_of m k)"
  by (simp add: count_of_def)

lemma count_of_Nil: "count_of [] k = 0"
  by (simp add: count_of_def)

lemma count_of_zero: "count_of (zero_counts ks) k = 0"
  by (induction ks) (simp_all add: zero_counts_def count_of_def)

lemma count_of_zero_append: "count_of (zero_counts ks @ m) k = (if k \<in> set ks then 0 else count_of m k)"
  by (induction ks) (auto simp: zero_counts_def count_of_Cons)

lemma count_of_move: "count_of (move_count base v m) k = count_of m k + (if v = k then 1 else 0) - (if base = k then 1 else 0)"
  by (auto simp: move_count_def)

lemmas counter_simps = initial_metrics_state_def initial_atlas_counts_def Let_def count_of_Cons count_of_Nil
  count_of_zero count_of_move metrics_step_def count_record_def

interpretation catalog_state: dimension_counter "\<lambda>s. at_CatalogState (ms_counts s)"
  "\<lambda>r. tt_Status (or_Catalog r)" "''candidate''"
  by unfold_locales (simp_all add: counter_simps)

interpretation review_state: dimension_counter "\<lambda>s. at_PolicyReviewState (ms_counts s)"
  "\<lambda>r. pd_ReviewState (or_Policy r)" PolicyPending
  by unfold_locales (simp_all add: counter_simps)

interpretation policy_decision: dimension_counter "\<lambda>s. at_PolicyDecision (ms_counts s)"
  "\<lambda>r. pd_Decision (or_Policy r)" DecisionUncertain
  by unfold_locales (simp_all add: counter_simps)

interpretation technical_stage: dimension_counter "\<lambda>s. at_TechnicalStage (ms_counts s)"
  "\<lambda>r. tt_Status (or_Technical r)" "''unprofiled''"
  by unfold_locales (simp_all add: counter_simps)

interpretation publisher_status: dimension_counter "\<lambda>s. at_PublisherStatus (ms_counts s)"
  "\<lambda>r. pb_Status (or_Publisher r)" "''unclaimed''"
  by unfold_locales (simp_all add: counter_simps)

interpretation health_status: dimension_counter "\<lambda>s. at_HealthStatus (ms_counts s)"
  "\<lambda>r. hl_Status (or_Health r)" "''unknown''"
  by unfold_locales (simp_all add: counter_simps)

interpretation adapter_trust: dimension_counter "\<lambda>s. at_AdapterTrust (ms_counts s)"
  "\<lambda>r. tt_Status (or_AdapterTrust r)" "''none''"
  by unfold_locales (simp_all add: counter_simps)

interpretation mapping_trust: dimension_counter "\<lambda>s. at_MappingTrust (ms_counts s)"
  "\<lambda>r. tt_Status (or_MappingTrust r)" "''none''"
  by unfold_locales (simp_all add: counter_simps)

text \<open>The two dimensions counted by \<open>CapabilityCounts.Add\<close>.\<close>

lemma fold_add_interface: "cn_AccessClasses (fold add_interface ds c) = cn_AccessClasses c"
  "cn_PriceDiscoveryStatus (fold add_interface ds c) = cn_PriceDiscoveryStatus c"
  by (induction ds arbitrary: c) (simp_all add: add_interface_def)

lemma fold_add_capability: "cn_AccessClasses (fold add_capability xs c) = cn_AccessClasses c"
  "cn_PriceDiscoveryStatus (fold add_capability xs c) = cn_PriceDiscoveryStatus c"
  by (induction xs arbitrary: c) (simp_all add: add_capability_def)

lemma fold_add_signal: "cn_AccessClasses (fold add_signal gs c) = cn_AccessClasses c"
  "cn_PriceDiscoveryStatus (fold add_signal gs c) = cn_PriceDiscoveryStatus c"
  by (induction gs arbitrary: c) (simp_all add: add_signal_def)

lemmas access_simps = fold_add_interface fold_add_capability fold_add_signal CapabilityCounts_Add_def
  add_economics_def add_offers_def add_access_def replace_default_def NewCapabilityCounts_def count_of_zero_append

interpretation access_class: dimension_counter "\<lambda>s. cn_AccessClasses (ms_capabilities s)"
  "\<lambda>r. am_Class (or_Access r)" "''unknown''"
  by unfold_locales (simp_all add: counter_simps access_simps)

interpretation price_status: dimension_counter "\<lambda>s. cn_PriceDiscoveryStatus (ms_capabilities s)"
  "\<lambda>r. am_PriceDiscoveryStatus (or_Access r)" "''not_assessed''"
  by unfold_locales (simp_all add: counter_simps access_simps)


section \<open>The published counters\<close>

lemma valid_scopes:
  assumes "Registry_Validate (Some g) (Some sel) (Some ps) = None"
  shows "filter (\<lambda>r. or_Scope r \<noteq> ScopeTestFixture) (rg_Origins g) = public_records g"
proof -
  have "list_all (\<lambda>r. validate_scope sel r = None) (rg_Origins g)"
    using assms by (auto simp: Registry_Validate_None list_all_iff)
  then have "\<forall>r \<in> set (rg_Origins g). or_Scope r \<noteq> ScopeTestFixture \<longleftrightarrow> or_Scope r = ScopeGenesisPublic"
    by (auto simp: list_all_iff validate_scope_def split: if_splits)
  then show ?thesis unfolding public_records_def by (auto intro: filter_cong)
qed

lemma public_ids_selected:
  assumes "Registry_Validate (Some g) (Some sel) (Some ps) = None" "r \<in> set (public_records g)"
  shows "or_ID r \<in> cd_ID ` set (sl_Candidates sel)"
proof -
  have "validate_scope sel r = None" "or_Scope r = ScopeGenesisPublic"
    using assms by (auto simp: Registry_Validate_None list_all_iff public_records_def)
  then have "isOK (Selection_Find sel (or_ID r))"
    by (cases "Selection_Find sel (or_ID r)") (simp_all add: validate_scope_def)
  then show ?thesis by (simp add: Selection_Find_def find_candidate_ok)
qed

lemma public_records_bound:
  assumes "Registry_Validate (Some g) (Some sel) (Some ps) = None"
  shows "length (public_records g) \<le> length (sl_Candidates sel)"
proof -
  have "distinct (map or_ID (rg_Origins g))" using assms by (simp add: Registry_Validate_None)
  then have d: "distinct (map or_ID (public_records g))" unfolding public_records_def by (rule distinct_map_filter)
  have "set (map or_ID (public_records g)) \<subseteq> set (map cd_ID (sl_Candidates sel))"
    using public_ids_selected [OF assms] by auto
  then have "card (set (map or_ID (public_records g))) \<le> card (set (map cd_ID (sl_Candidates sel)))"
    by (intro card_mono) simp_all
  then show ?thesis using distinct_card [OF d] card_length [of "map cd_ID (sl_Candidates sel)"] by simp
qed

lemma record_totals:
  "at_GenesisPublicRecords (ms_counts (fold metrics_step rs s)) = at_GenesisPublicRecords (ms_counts s) +
     int (length (filter (\<lambda>r. or_Scope r \<noteq> ScopeTestFixture) rs))"
  "at_TestFixtureRecords (ms_counts (fold metrics_step rs s)) = at_TestFixtureRecords (ms_counts s) +
     int (length (filter (\<lambda>r. or_Scope r = ScopeTestFixture) rs))"
  by (induction rs arbitrary: s) (simp_all add: metrics_step_def count_record_def)

text \<open>
  What a counter should hold: the number of public records with each value, and at the default
  also the candidates without a public record.
\<close>

definition counts_dimension ::
  "origin_record list \<Rightarrow> (origin_record \<Rightarrow> string) \<Rightarrow> string \<Rightarrow> (string \<times> int) list \<Rightarrow> bool" where
  "counts_dimension pub val base counts \<longleftrightarrow>
     (\<forall>k. count_of counts k = int (length (filter (\<lambda>r. val r = k) pub)) +
       (if k = base then 500 - int (length pub) else 0))"

lemma BuildMetrics_Inr:
  "BuildMetrics (Some sel) (Some g) (Some ps) = Inr m \<longleftrightarrow>
     Selection_Validate sel = None \<and> PolicySet_Validate (Some ps) (Some sel) = None \<and>
     Registry_Validate (Some g) (Some sel) (Some ps) = None \<and>
     m = metrics_of sel (fold metrics_step (rg_Origins g) (initial_metrics_state sel g ps))"
  by (auto simp: BuildMetrics_def after_Inr first_err_None)



text \<open>
  The telemetry of a record is not negative, but the totals of two records may be: the sum of the
  accepted request counts wraps.
\<close>

definition heavy_economics :: economics_metadata where
  "heavy_economics = \<lparr>em_FundingClass = ''usage'', em_Requests = 2 ^ 62, em_TransferredBytes = 0, em_EvidenceBytes = 0,
     em_CPUMilliseconds = 0, em_HumanReviewSeconds = 0, em_InfrastructureCostEstimate = None\<rparr>"

lemma requests_total_wraps:
  "validateEconomicsMetadata heavy_economics = None \<and>
   sint (cn_Requests (add_economics heavy_economics (add_economics heavy_economics (NewCapabilityCounts 500)))) < 0"
  by (simp add: heavy_economics_def add_economics_def NewCapabilityCounts_def validateEconomicsMetadata_def
      first_err_None fail_if_None validFundingClass_def) 

end
