(* ===== verification/Artifact_Segment.thy ===== *)
theory Artifact_Segment
  imports Dataplane_Common Go_Sort
begin

text \<open>
  \<open>internal/artifactsegment/segment.go\<close>: the segment, a container of documents that is
  sorted by their digests. Offsets and lengths are \<open>nat\<close>; the sum of an offset and a
  length is \<open>uint64\<close> and reduced as such. A 64-bit value that becomes a Go \<open>int\<close> was compared
  with one before.
\<close>

section \<open>Data\<close>

definition Magic :: "byte list" where "Magic = bytes_of_string ''TWAS0001''"
definition HeaderBytes :: nat where "HeaderBytes = 40"
definition EntryBytes :: nat where "EntryBytes = 48"
definition MaxEntries :: nat where "MaxEntries = 65536"
definition MaxSegmentBytes :: nat where "MaxSegmentBytes = 268435456"
definition seg_MaxArtifactBytes :: nat where "seg_MaxArtifactBytes = 4194304"
definition seg_KindPacket :: nat where "seg_KindPacket = 1"
definition KindMapping :: nat where "KindMapping = 2"

record seg_entry =
  en_Digest :: "byte list"
  en_CBOR :: "byte list"

record segment =
  sg_data :: "byte list"
  sg_kind :: nat
  sg_count :: nat
  sg_indexBase :: nat
  sg_bodyBase :: nat

definition validKind :: "nat \<Rightarrow> bool" where
  "validKind kind \<longleftrightarrow> kind = seg_KindPacket \<or> kind = KindMapping"

definition sub_bytes :: "nat \<Rightarrow> nat \<Rightarrow> byte list \<Rightarrow> byte list" where
  "sub_bytes i n bs = take n (drop i bs)"

section \<open>Building\<close>

definition entry_ok :: "seg_entry \<Rightarrow> bool" where
  "entry_ok e \<longleftrightarrow>
     \<not> (en_CBOR e = [] \<or> length (en_CBOR e) > seg_MaxArtifactBytes \<or> sha256 (en_CBOR e) \<noteq> en_Digest e)"

fun segment_total :: "nat \<Rightarrow> seg_entry list \<Rightarrow> nat option" where
  "segment_total written [] = Some written"
| "segment_total written (e # es) =
     (if written > MaxSegmentBytes - length (en_CBOR e) then None
      else segment_total (written + length (en_CBOR e)) es)"

fun index_bytes :: "nat \<Rightarrow> seg_entry list \<Rightarrow> byte list" where
  "index_bytes offset [] = []"
| "index_bytes offset (e # es) =
     en_Digest e @ be_bytes 8 offset @ be_bytes 4 (length (en_CBOR e)) @ be_bytes 4 0 @
     index_bytes (offset + length (en_CBOR e)) es"

text \<open>
  The octets that \<open>Build\<close> writes at their positions, in the order of the positions; the last
  four octets of an index entry keep the zeros of \<open>make\<close>.
\<close>

definition segment_bytes :: "nat \<Rightarrow> seg_entry list \<Rightarrow> nat \<Rightarrow> byte list" where
  "segment_bytes kind entries written =
     (let bodyBase = HeaderBytes + EntryBytes * length entries in
      Magic @ be_bytes 4 kind @ be_bytes 4 (length entries) @ be_bytes 8 HeaderBytes @
      be_bytes 8 bodyBase @ be_bytes 8 written @ index_bytes bodyBase entries @ concat (map en_CBOR entries))"

definition Build :: "nat \<Rightarrow> seg_entry list \<Rightarrow> error + byte list \<times> byte list" where
  "Build kind source =
     (if \<not> validKind kind \<or> source = [] \<or> length source > MaxEntries
      then Inl (Wrap ''kind or entry count'' ErrInvalid)
      else if \<not> list_all entry_ok source then Inl (Wrap ''entry identity'' ErrInvalid)
      else
        let entries = sort_key en_Digest source in
        if \<not> strictly_sorted (map en_Digest entries) then Inl (Wrap ''duplicate entry digest'' ErrInvalid)
        else
          case segment_total (HeaderBytes + EntryBytes * length entries) entries of
            None \<Rightarrow> Inl (Wrap ''segment byte bound'' ErrInvalid)
          | Some written \<Rightarrow>
              let result = segment_bytes kind entries written in Inr (result, sha256 result))"

section \<open>Opening\<close>

fun verify_from :: "byte list \<Rightarrow> nat \<Rightarrow> nat \<Rightarrow> byte list \<Rightarrow> nat \<Rightarrow> nat \<Rightarrow> error + nat" where
  "verify_from bs indexBase index prior expectedOffset 0 = Inr expectedOffset"
| "verify_from bs indexBase index prior expectedOffset (Suc remaining) =
     (let position = indexBase + index * EntryBytes;
          digest = sub_bytes position 32 bs;
          offset = be_nat (sub_bytes (position + 32) 8 bs);
          len = be_nat (sub_bytes (position + 40) 4 bs);
          reserved = be_nat (sub_bytes (position + 44) 4 bs)
      in if index > 0 \<and> prior \<ge> digest \<or> offset \<noteq> expectedOffset \<or> len = 0 \<or> len > seg_MaxArtifactBytes \<or>
            reserved \<noteq> 0 \<or> (offset + len) mod 2 ^ 64 > length bs
         then Inl (Wrap ''entry bounds'' ErrInvalid)
         else if sha256 (sub_bytes offset len bs) \<noteq> digest then Inl (Wrap ''entry digest'' ErrInvalid)
         else verify_from bs indexBase (index + 1) digest (expectedOffset + len) remaining)"

definition verifyEntries :: "segment \<Rightarrow> error option" where
  "verifyEntries s =
     (case verify_from (sg_data s) (sg_indexBase s) 0 (replicate 32 0) (sg_bodyBase s) (sg_count s) of
        Inl e \<Rightarrow> Some e
      | Inr expectedOffset \<Rightarrow>
          fail_if (expectedOffset \<noteq> length (sg_data s)) (Wrap ''trailing bytes'' ErrInvalid))"

definition Open :: "byte list \<Rightarrow> byte list \<Rightarrow> error + segment" where
  "Open bs expected =
     (if length bs < HeaderBytes \<or> length bs > MaxSegmentBytes \<or> sha256 bs \<noteq> expected \<or> take 8 bs \<noteq> Magic
      then Inl (Wrap ''segment identity'' ErrInvalid)
      else
        let kind = be_nat (sub_bytes 8 4 bs); count = be_nat (sub_bytes 12 4 bs);
            indexBase = be_nat (sub_bytes 16 8 bs); bodyBase = be_nat (sub_bytes 24 8 bs);
            end_at = be_nat (sub_bytes 32 8 bs)
        in if \<not> validKind kind \<or> count = 0 \<or> count > MaxEntries \<or> indexBase \<noteq> HeaderBytes \<or>
              bodyBase \<noteq> (HeaderBytes + count * EntryBytes) mod 2 ^ 64 \<or> end_at \<noteq> length bs \<or> bodyBase \<ge> end_at
           then Inl (Wrap ''header'' ErrInvalid)
           else
             let s = \<lparr>sg_data = bs, sg_kind = kind, sg_count = count, sg_indexBase = indexBase, sg_bodyBase = bodyBase\<rparr>
             in after (verifyEntries s) (Inr s))"

definition segment_Kind :: "segment \<Rightarrow> nat" where "segment_Kind s = sg_kind s"
definition segment_Count :: "segment \<Rightarrow> nat" where "segment_Count s = sg_count s"

definition segment_Entry :: "segment option \<Rightarrow> nat \<Rightarrow> error + seg_entry" where
  "segment_Entry segment index = (case segment of
      None \<Rightarrow> Inl (Wrap ''entry index'' ErrInvalid)
    | Some s \<Rightarrow>
        if index \<ge> sg_count s then Inl (Wrap ''entry index'' ErrInvalid)
        else
          let position = sg_indexBase s + index * EntryBytes;
              offset = be_nat (sub_bytes (position + 32) 8 (sg_data s));
              len = be_nat (sub_bytes (position + 40) 4 (sg_data s))
          in Inr \<lparr>en_Digest = sub_bytes position 32 (sg_data s), en_CBOR = sub_bytes offset len (sg_data s)\<rparr>)"

definition segment_Find :: "segment option \<Rightarrow> byte list \<Rightarrow> byte list option" where
  "segment_Find segment digest = (case segment of
      None \<Rightarrow> None
    | Some s \<Rightarrow>
        let index = sort_Search (sg_count s)
              (\<lambda>i. sub_bytes (sg_indexBase s + i * EntryBytes) 32 (sg_data s) \<ge> digest) in
        if index = sg_count s then None
        else case segment_Entry segment index of
            Inl _ \<Rightarrow> None
          | Inr e \<Rightarrow> if en_Digest e \<noteq> digest then None else Some (en_CBOR e))"

section \<open>Positions\<close>

lemma sub_bytes_add: "sub_bytes i (m + n) bs = sub_bytes i m bs @ sub_bytes (i + m) n bs"
  by (simp add: sub_bytes_def take_add add.commute)

lemma length_sub_bytes: "i + n \<le> length bs \<Longrightarrow> length (sub_bytes i n bs) = n"
  by (simp add: sub_bytes_def)

lemma sub_bytes_append: "length xs = i \<Longrightarrow> sub_bytes (i + j) n (xs @ ys) = sub_bytes j n ys"
  by (simp add: sub_bytes_def)

lemma sub_bytes_prefix: "j + n \<le> length xs \<Longrightarrow> sub_bytes j n (xs @ ys) = sub_bytes j n xs"
  by (simp add: sub_bytes_def)

lemma sub_bytes_all: "length xs = n \<Longrightarrow> sub_bytes 0 n (xs @ ys) = xs"
  by (simp add: sub_bytes_def)

lemma be_bytes_sub: "i + k \<le> length bs \<Longrightarrow> be_bytes k (be_nat (sub_bytes i k bs)) = sub_bytes i k bs"
  using be_bytes_be_nat [of "sub_bytes i k bs"] by (simp add: length_sub_bytes)

lemma sub_bytes_split: "i \<le> length bs \<Longrightarrow> drop i bs = sub_bytes i n bs @ drop (i + n) bs"
  by (metis append_take_drop_id drop_drop sub_bytes_def add.commute)

definition entry_at :: "byte list \<Rightarrow> nat \<Rightarrow> seg_entry" where
  "entry_at bs i = \<lparr>en_Digest = sub_bytes (40 + i * 48) 32 bs,
     en_CBOR = sub_bytes (be_nat (sub_bytes (40 + i * 48 + 32) 8 bs)) (be_nat (sub_bytes (40 + i * 48 + 40) 4 bs)) bs\<rparr>"

definition segment_entries :: "segment \<Rightarrow> seg_entry list" where
  "segment_entries s = map (entry_at (sg_data s)) [0..<sg_count s]"

abbreviation body_length :: "seg_entry list \<Rightarrow> nat" where
  "body_length es \<equiv> length (concat (map en_CBOR es))"

lemma segment_total_Some:
  "segment_total n es = Some w \<Longrightarrow> list_all entry_ok es \<Longrightarrow> w = n + body_length es \<and> (n \<le> MaxSegmentBytes \<longrightarrow> w \<le> MaxSegmentBytes)"
proof (induction es arbitrary: n)
  case (Cons e es)
  then have "length (en_CBOR e) \<le> MaxSegmentBytes"
    by (simp add: entry_ok_def seg_MaxArtifactBytes_def MaxSegmentBytes_def)
  moreover have "segment_total (n + length (en_CBOR e)) es = Some w" "\<not> n > MaxSegmentBytes - length (en_CBOR e)"
    using Cons.prems(1) by (simp_all split: if_splits)
  ultimately show ?case using Cons.IH [of "n + length (en_CBOR e)"] Cons.prems(2) by auto
qed simp

lemma segment_total_bound:
  "n + body_length es \<le> MaxSegmentBytes \<Longrightarrow> segment_total n es = Some (n + body_length es)"
  by (induction es arbitrary: n) auto

section \<open>What the reader accepts\<close>

lemma verify_from_sound:
  assumes "verify_from bs 40 i prior at k = Inr fin" "40 + (i + k) * 48 \<le> length bs" "at \<le> length bs"
    and "length bs \<le> MaxSegmentBytes"
  shows "fin \<le> length bs \<and> fin = at + body_length (map (entry_at bs) [i..<i + k]) \<and>
    sub_bytes (40 + i * 48) (k * 48) bs = index_bytes at (map (entry_at bs) [i..<i + k]) \<and>
    sub_bytes at (fin - at) bs = concat (map en_CBOR (map (entry_at bs) [i..<i + k])) \<and>
    list_all entry_ok (map (entry_at bs) [i..<i + k]) \<and>
    strictly_sorted ((if i = 0 then [] else [prior]) @ map en_Digest (map (entry_at bs) [i..<i + k]))"
  using assms(1-3)
proof (induction k arbitrary: i prior at)
  case 0
  then show ?case by (simp add: sub_bytes_def)
next
  case (Suc k)
  let ?p = "40 + i * 48"
  let ?e = "entry_at bs i" and ?es = "map (entry_at bs) [Suc i..<Suc i + k]"
  let ?len = "be_nat (sub_bytes (?p + 40) 4 bs)"
  from Suc.prems(1) have c: "i > 0 \<Longrightarrow> prior < sub_bytes ?p 32 bs" "be_nat (sub_bytes (?p + 32) 8 bs) = at"
    "?len \<noteq> 0" "?len \<le> seg_MaxArtifactBytes" "be_nat (sub_bytes (?p + 44) 4 bs) = 0" "(at + ?len) mod 2 ^ 64 \<le> length bs"
    "sha256 (sub_bytes at ?len bs) = sub_bytes ?p 32 bs"
    and v: "verify_from bs 40 (Suc i) (sub_bytes ?p 32 bs) (at + ?len) k = Inr fin"
    by (auto simp: Let_def EntryBytes_def not_less not_le split: if_splits)
  have "at + ?len < 2 ^ 64"
    using Suc.prems(3) assms(4) c(4) by (simp add: MaxSegmentBytes_def seg_MaxArtifactBytes_def)
  with c(6) have b: "at + ?len \<le> length bs" by simp
  have e: "en_Digest ?e = sub_bytes ?p 32 bs" "en_CBOR ?e = sub_bytes at ?len bs" "length (en_CBOR ?e) = ?len"
    unfolding entry_at_def by (simp_all only: seg_entry.select_convs c(2) length_sub_bytes [OF b])
  have l: "40 + (Suc i + k) * 48 \<le> length bs" and p: "40 + Suc i * 48 = ?p + 48" using Suc.prems(2) by simp_all
  have ih: "fin \<le> length bs \<and> fin = at + ?len + body_length ?es \<and>
      sub_bytes (?p + 48) (k * 48) bs = index_bytes (at + ?len) ?es \<and>
      sub_bytes (at + ?len) (fin - (at + ?len)) bs = concat (map en_CBOR ?es) \<and> list_all entry_ok ?es \<and>
      strictly_sorted ([sub_bytes ?p 32 bs] @ map en_Digest ?es)"
    using Suc.IH [OF v l b] unfolding p nat.distinct(2) [THEN eq_False [THEN iffD2]] if_False by assumption
  have u: "map (entry_at bs) [i..<i + Suc k] = ?e # ?es" by (simp add: upt_conv_Cons del: upt_Suc)
  have ok: "entry_ok ?e" using c(3,4,7) e by (auto simp: entry_ok_def)
  have chunk: "sub_bytes ?p (Suc k * 48) bs = sub_bytes ?p 32 bs @ sub_bytes (?p + 32) 8 bs @
      sub_bytes (?p + 40) 4 bs @ sub_bytes (?p + 44) 4 bs @ sub_bytes (?p + 48) (k * 48) bs"
    using sub_bytes_add [of ?p 32 "8 + (4 + (4 + k * 48))" bs] sub_bytes_add [of "?p + 32" 8 "4 + (4 + k * 48)" bs]
      sub_bytes_add [of "?p + 40" 4 "4 + k * 48" bs] sub_bytes_add [of "?p + 44" 4 "k * 48" bs]
    by (simp add: add.assoc)
  have parts: "be_bytes 8 at = sub_bytes (?p + 32) 8 bs" "be_bytes 4 ?len = sub_bytes (?p + 40) 4 bs"
    "be_bytes 4 0 = sub_bytes (?p + 44) 4 bs"
    using be_bytes_sub [of "?p + 32" 8 bs] be_bytes_sub [of "?p + 40" 4 bs] be_bytes_sub [of "?p + 44" 4 bs]
      c(2,5) Suc.prems(2) by simp_all
  from ih have ih: "fin \<le> length bs" "fin = at + ?len + body_length ?es"
      "sub_bytes (?p + 48) (k * 48) bs = index_bytes (at + ?len) ?es"
      "sub_bytes (at + ?len) (fin - (at + ?len)) bs = concat (map en_CBOR ?es)" "list_all entry_ok ?es"
      "strictly_sorted ([sub_bytes ?p 32 bs] @ map en_Digest ?es)" by blast+
  have "sub_bytes ?p (Suc k * 48) bs = index_bytes at (?e # ?es)"
    unfolding chunk index_bytes.simps e(1,3) parts ih(3) ..
  moreover have "sub_bytes at (fin - at) bs = concat (map en_CBOR (?e # ?es))"
  proof -
    have "fin - at = ?len + (fin - (at + ?len))" using ih(2) by linarith
    then show ?thesis using sub_bytes_add [of at ?len "fin - (at + ?len)" bs] ih(4) e(2) by (simp only: list.map concat.simps)
  qed
  moreover have "strictly_sorted ((if i = 0 then [] else [prior]) @ map en_Digest (?e # ?es))"
    using ih(6) c(1) unfolding list.map e(1) by (cases "i = 0") simp_all
  moreover have "fin = at + body_length (?e # ?es)"
    using ih(2) e(3) by (simp only: list.map concat.simps length_append add.assoc)
  moreover have "list_all entry_ok (?e # ?es)" using ok ih(5) by (simp only: list.pred_inject simp_thms)
  ultimately show ?case unfolding u using ih(1) by (intro conjI)
qed
lemma Open_header:
  assumes "Open bs d = Inr s"
  shows "length bs \<le> MaxSegmentBytes \<and> d = sha256 bs \<and> take 8 bs = Magic \<and> validKind (sg_kind s) \<and>
    0 < sg_count s \<and> sg_count s \<le> MaxEntries \<and> sg_data s = bs \<and> sg_kind s = be_nat (sub_bytes 8 4 bs) \<and>
    sg_count s = be_nat (sub_bytes 12 4 bs) \<and> sg_indexBase s = 40 \<and> be_nat (sub_bytes 16 8 bs) = 40 \<and>
    sg_bodyBase s = 40 + sg_count s * 48 \<and> be_nat (sub_bytes 24 8 bs) = 40 + sg_count s * 48 \<and>
    be_nat (sub_bytes 32 8 bs) = length bs \<and> 40 + sg_count s * 48 < length bs \<and>
    verify_from bs 40 0 (replicate 32 0) (40 + sg_count s * 48) (sg_count s) = Inr (length bs)"
proof -
  from assms have c: "length bs \<le> MaxSegmentBytes" "d = sha256 bs" "take 8 bs = Magic" "validKind (sg_kind s)"
    "0 < sg_count s" "sg_count s \<le> MaxEntries" "sg_data s = bs" "sg_kind s = be_nat (sub_bytes 8 4 bs)"
    "sg_count s = be_nat (sub_bytes 12 4 bs)" "sg_indexBase s = HeaderBytes" "be_nat (sub_bytes 16 8 bs) = HeaderBytes"
    "sg_bodyBase s = (HeaderBytes + sg_count s * EntryBytes) mod 2 ^ 64" "be_nat (sub_bytes 24 8 bs) = sg_bodyBase s"
    "be_nat (sub_bytes 32 8 bs) = length bs" "sg_bodyBase s < length bs" "verifyEntries s = None"
    by (auto simp: Open_def Let_def after_Inr not_less not_le split: if_splits)
  have b: "sg_bodyBase s = 40 + sg_count s * 48"
    using c(6,12) by (simp add: HeaderBytes_def EntryBytes_def MaxEntries_def)
  with c show ?thesis
    by (auto simp: verifyEntries_def HeaderBytes_def fail_if_None split: sum.splits)
qed

lemma Magic_length: "length Magic = 8"
  by (simp add: Magic_def)

lemma header_split:
  assumes "40 \<le> length bs"
  shows "bs = take 8 bs @ sub_bytes 8 4 bs @ sub_bytes 12 4 bs @ sub_bytes 16 8 bs @ sub_bytes 24 8 bs @
    sub_bytes 32 8 bs @ drop 40 bs"
  using assms sub_bytes_split [of 8 bs 4] sub_bytes_split [of 12 bs 4] sub_bytes_split [of 16 bs 8]
    sub_bytes_split [of 24 bs 8] sub_bytes_split [of 32 bs 8] append_take_drop_id [of 8 bs] by simp

lemma Open_canonical:
  assumes "Open bs d = Inr s"
  shows "bs = segment_bytes (sg_kind s) (segment_entries s) (length bs)"
    and "list_all entry_ok (segment_entries s)" "strictly_sorted (map en_Digest (segment_entries s))"
    and "length bs = 40 + sg_count s * 48 + body_length (segment_entries s)"
proof -
  note h = Open_header [OF assms]
  let ?n = "sg_count s" and ?es = "segment_entries s"
  have es: "?es = map (entry_at bs) [0..<0 + ?n]" using h by (simp add: segment_entries_def)
  have hv: "verify_from bs 40 0 (replicate 32 0) (40 + ?n * 48) ?n = Inr (length bs)"
    "length bs \<le> MaxSegmentBytes" "40 + ?n * 48 < length bs" using h by blast+
  then have v: "40 + (0 + ?n) * 48 \<le> length bs" "40 + ?n * 48 \<le> length bs" by simp_all
  note sound = verify_from_sound [OF hv(1) v hv(2), folded es]
  from sound show ok: "list_all entry_ok ?es" and "strictly_sorted (map en_Digest ?es)"
    and len: "length bs = 40 + ?n * 48 + body_length ?es" by simp_all
  have index: "sub_bytes 40 (?n * 48) bs = index_bytes (40 + ?n * 48) ?es"
    and body: "sub_bytes (40 + ?n * 48) (length bs - (40 + ?n * 48)) bs = concat (map en_CBOR ?es)"
    using sound unfolding mult_0 add_0_right by blast+
  have "drop 40 bs = sub_bytes 40 (?n * 48) bs @ drop (40 + ?n * 48) bs"
    by (rule sub_bytes_split) (use v in simp)
  also have "drop (40 + ?n * 48) bs = sub_bytes (40 + ?n * 48) (length bs - (40 + ?n * 48)) bs"
    by (simp add: sub_bytes_def)
  finally have rest: "drop 40 bs = index_bytes (40 + ?n * 48) ?es @ concat (map en_CBOR ?es)"
    unfolding index body .
  have b: "sub_bytes 8 4 bs = be_bytes 4 (sg_kind s)" "sub_bytes 12 4 bs = be_bytes 4 ?n"
    "sub_bytes 16 8 bs = be_bytes 8 40" "sub_bytes 24 8 bs = be_bytes 8 (40 + ?n * 48)"
    "sub_bytes 32 8 bs = be_bytes 8 (length bs)"
    using h be_bytes_sub [of 8 4 bs] be_bytes_sub [of 12 4 bs] be_bytes_sub [of 16 8 bs] be_bytes_sub [of 24 8 bs]
      be_bytes_sub [of 32 8 bs] by auto
  have n: "length ?es = ?n" by (simp add: es)
  show "bs = segment_bytes (sg_kind s) ?es (length bs)"
    unfolding segment_bytes_def Let_def n HeaderBytes_def EntryBytes_def
    using header_split [of bs] v(2) h unfolding b rest by (simp add: mult.commute)
qed

text \<open>
  C27: a segment that is opened is one that is built. The octets that \<open>Open\<close> accepts under
  a digest are exactly those that \<open>Build\<close> writes for the entries they hold, and the digest is
  theirs: there is one segment for a set of documents.
\<close>

theorem segment_canonical:
  assumes "Open bs d = Inr s"
  shows "Build (segment_Kind s) (segment_entries s) = Inr (bs, d) \<and> length (segment_entries s) = segment_Count s"
proof -
  note h = Open_header [OF assms] and c = Open_canonical [OF assms]
  let ?es = "segment_entries s"
  have n: "length ?es = sg_count s" by (simp add: segment_entries_def)
  have "sorted (map en_Digest ?es)" using c(3) by (simp add: strictly_sorted_iff)
  then have sort: "sort_key en_Digest ?es = ?es" by (rule sort_key_id_if_sorted)
  have "segment_total (HeaderBytes + EntryBytes * length ?es) ?es = Some (length bs)"
    using segment_total_bound [of "40 + sg_count s * 48" ?es] h c(4)
    by (simp add: n HeaderBytes_def EntryBytes_def mult.commute)
  moreover have "?es \<noteq> []" using h n by auto
  moreover have "validKind (sg_kind s)" "sg_count s \<le> MaxEntries" "d = sha256 bs" using h by blast+
  ultimately show ?thesis
    using c(2,3) by (simp add: Build_def sort n segment_Kind_def segment_Count_def Let_def flip: c(1))
qed
section \<open>What the writer writes\<close>

definition sized :: "seg_entry list \<Rightarrow> bool" where
  "sized es \<longleftrightarrow> list_all (\<lambda>e. length (en_Digest e) = 32) es"

lemma entry_ok_digest: "entry_ok e \<Longrightarrow> length (en_Digest e) = 32"
  by (metis entry_ok_def length_sha256)

lemma entry_ok_sized: "list_all entry_ok es \<Longrightarrow> sized es"
  using entry_ok_digest by (auto simp: sized_def list_all_iff)

lemma length_index_bytes: "sized es \<Longrightarrow> length (index_bytes n es) = length es * 48"
  by (induction es arbitrary: n) (simp_all add: sized_def)

lemma index_chunk:
  assumes "sized es" "i < length es"
  shows "sub_bytes (i * 48) 48 (index_bytes n es) = en_Digest (es ! i) @ be_bytes 8 (n + body_length (take i es)) @
    be_bytes 4 (length (en_CBOR (es ! i))) @ be_bytes 4 0"
  using assms
proof (induction es arbitrary: i n)
  case (Cons e es)
  let ?c = "en_Digest e @ be_bytes 8 n @ be_bytes 4 (length (en_CBOR e)) @ be_bytes 4 0"
  have l: "length ?c = 48" using Cons.prems(1) by (simp add: sized_def)
  have x: "index_bytes n (e # es) = ?c @ index_bytes (n + length (en_CBOR e)) es" by simp
  show ?case
  proof (cases i)
    case 0
    show ?thesis unfolding x 0 mult_0 sub_bytes_all [OF l] by simp
  next
    case (Suc j)
    have "sub_bytes (48 + j * 48) 48 (?c @ index_bytes (n + length (en_CBOR e)) es) =
        sub_bytes (j * 48) 48 (index_bytes (n + length (en_CBOR e)) es)" by (rule sub_bytes_append [OF l])
    then show ?thesis using Cons.IH [of j "n + length (en_CBOR e)"] Cons.prems Suc
      unfolding x Suc by (simp add: sized_def add.assoc)
  qed
qed simp

lemma body_chunk:
  "i < length es \<Longrightarrow> sub_bytes (body_length (take i es)) (length (en_CBOR (es ! i))) (concat (map en_CBOR es)) = en_CBOR (es ! i)"
proof (induction es arbitrary: i)
  case (Cons e es)
  then show ?case
    by (cases i) (simp_all add: sub_bytes_all sub_bytes_append)
qed simp

lemma segment_bytes_read:
  fixes kind es n
  assumes "list_all entry_ok es" "i < length es" "n = 40 + length es * 48 + body_length es" "n \<le> MaxSegmentBytes"
  defines "bs \<equiv> segment_bytes kind es n"
  shows "sub_bytes (40 + i * 48) 32 bs = en_Digest (es ! i)"
    "be_nat (sub_bytes (40 + i * 48 + 32) 8 bs) = 40 + length es * 48 + body_length (take i es)"
    "be_nat (sub_bytes (40 + i * 48 + 40) 4 bs) = length (en_CBOR (es ! i))"
    "be_nat (sub_bytes (40 + i * 48 + 44) 4 bs) = 0"
    "sub_bytes (40 + length es * 48 + body_length (take i es)) (length (en_CBOR (es ! i))) bs = en_CBOR (es ! i)"
proof -
  let ?h = "Magic @ be_bytes 4 kind @ be_bytes 4 (length es) @ be_bytes 8 HeaderBytes @
      be_bytes 8 (HeaderBytes + EntryBytes * length es) @ be_bytes 8 n"
  let ?b = "40 + length es * 48"
  have bs: "bs = ?h @ index_bytes ?b es @ concat (map en_CBOR es)"
    by (simp add: bs_def segment_bytes_def Let_def HeaderBytes_def EntryBytes_def mult.commute)
  have h: "length ?h = 40" by (simp add: Magic_length)
  have sz: "sized es" by (rule entry_ok_sized [OF assms(1)])
  note il = length_index_bytes [OF sz, of ?b]
  let ?e = "es ! i"
  let ?c = "en_Digest ?e @ be_bytes 8 (?b + body_length (take i es)) @ be_bytes 4 (length (en_CBOR ?e)) @ be_bytes 4 0"
  have ok: "entry_ok ?e" using assms(1,2) by (simp add: list_all_length)
  have cl: "length (en_Digest ?e) = 32" "length (en_CBOR ?e) \<le> 4194304"
    using entry_ok_digest [OF ok] ok by (auto simp: entry_ok_def seg_MaxArtifactBytes_def)
  have "i * 48 + 48 \<le> length es * 48" using assms(2) by linarith
  then have chunk: "sub_bytes (40 + i * 48) 48 bs = ?c"
    unfolding bs sub_bytes_append [OF h] using index_chunk [OF sz assms(2), of ?b]
    by (simp add: sub_bytes_prefix il)
  have part: "sub_bytes (40 + i * 48 + a) k bs = sub_bytes a k ?c" if "a + k \<le> 48" for a k
    using that unfolding chunk [symmetric] by (simp add: sub_bytes_def drop_take min_def add.commute)
  have t: "body_length (take i es) + length (en_CBOR ?e) \<le> body_length es"
  proof -
    have "es = take i es @ ?e # drop (Suc i) es" using assms(2) by (simp add: id_take_nth_drop)
    then have "body_length es = body_length (take i es) + (length (en_CBOR ?e) + body_length (drop (Suc i) es))"
      by (metis concat_append length_append list.map(2) concat.simps(2) map_append)
    then show ?thesis by simp
  qed
  have small: "?b + body_length (take i es) < 256 ^ 8" "length (en_CBOR ?e) < 256 ^ 4"
    using t assms(3,4) cl(2) by (simp_all add: MaxSegmentBytes_def)
  show "sub_bytes (40 + i * 48) 32 bs = en_Digest ?e"
    using part [of 0 32] by (simp add: sub_bytes_all cl(1))
  show "be_nat (sub_bytes (40 + i * 48 + 32) 8 bs) = ?b + body_length (take i es)"
    using part [of 32 8] small(1) by (simp add: sub_bytes_def cl(1) be_nat_be_bytes)
  show "be_nat (sub_bytes (40 + i * 48 + 40) 4 bs) = length (en_CBOR ?e)"
    using part [of 40 4] small(2) by (simp add: sub_bytes_def cl(1) be_nat_be_bytes)
  show "be_nat (sub_bytes (40 + i * 48 + 44) 4 bs) = 0"
    using part [of 44 4] by (simp add: sub_bytes_def cl(1) be_nat_be_bytes)
  have "length (?h @ index_bytes ?b es) = ?b" using h il by simp
  then have "sub_bytes (?b + body_length (take i es)) (length (en_CBOR ?e)) bs =
      sub_bytes (body_length (take i es)) (length (en_CBOR ?e)) (concat (map en_CBOR es))"
    unfolding bs append_assoc [symmetric] by (rule sub_bytes_append)
  then show "sub_bytes (?b + body_length (take i es)) (length (en_CBOR ?e)) bs = en_CBOR ?e"
    using body_chunk [OF assms(2)] by simp
qed
lemma entry_at_written:
  assumes "list_all entry_ok es" "i < length es" "n = 40 + length es * 48 + body_length es" "n \<le> MaxSegmentBytes"
  shows "entry_at (segment_bytes kind es n) i = es ! i"
  unfolding entry_at_def segment_bytes_read [OF assms] by simp

lemma verify_from_written:
  assumes "list_all entry_ok es" "n = 40 + length es * 48 + body_length es" "n \<le> MaxSegmentBytes"
    and "strictly_sorted (map en_Digest es)" "length (segment_bytes kind es n) = n"
  shows "i + k = length es \<Longrightarrow> (i > 0 \<Longrightarrow> prior = en_Digest (es ! (i - 1))) \<Longrightarrow>
    verify_from (segment_bytes kind es n) 40 i prior (40 + length es * 48 + body_length (take i es)) k = Inr n"
proof (induction k arbitrary: i prior)
  case 0
  then show ?case using assms(2) by simp
next
  case (Suc k)
  then have i: "i < length es" by simp
  note r = segment_bytes_read [OF assms(1) i assms(2,3), of kind]
  have ok: "entry_ok (es ! i)" using assms(1) i by (simp add: list_all_length)
  have t: "take (Suc i) es = take i es @ [es ! i]" using i by (simp add: take_Suc_conv_app_nth)
  have bl: "body_length (take (Suc i) es) = body_length (take i es) + length (en_CBOR (es ! i))" by (simp add: t)
  have "es = take (Suc i) es @ drop (Suc i) es" by simp
  then have "body_length es = body_length (take (Suc i) es) + body_length (drop (Suc i) es)"
    by (metis concat_append length_append map_append)
  then have b: "40 + length es * 48 + body_length (take i es) + length (en_CBOR (es ! i)) \<le> n"
    using assms(2) bl by linarith
  have p: "\<not> (i > 0 \<and> prior \<ge> en_Digest (es ! i))"
  proof (cases "i = 0")
    case False
    have "sorted_wrt (<) (map en_Digest es)"
      using assms(4) by (simp add: strictly_sorted_iff strict_sorted_iff)
    then have "map en_Digest es ! (i - 1) < map en_Digest es ! i"
      using i False by (intro sorted_wrt_nth_less) simp_all
    then show ?thesis using Suc.prems(2) i False by simp
  qed simp
  have "verify_from (segment_bytes kind es n) 40 (i + 1) (en_Digest (es ! i))
      (40 + length es * 48 + body_length (take (Suc i) es)) k = Inr n"
    using Suc.IH [of "i + 1" "en_Digest (es ! i)"] Suc.prems(1) by simp
  moreover have "(40 + length es * 48 + body_length (take i es) + length (en_CBOR (es ! i))) mod 2 ^ 64 \<le> n"
    using b by (rule order_trans [OF mod_less_eq_dividend])
  ultimately show ?case
    using ok p unfolding verify_from.simps Let_def EntryBytes_def r bl assms(5)
    by (auto simp: entry_ok_def add.assoc)
qed

lemma length_segment_bytes:
  assumes "list_all entry_ok es"
  shows "length (segment_bytes kind es n) = 40 + length es * 48 + body_length es"
  using length_index_bytes [OF entry_ok_sized [OF assms]]
  by (simp add: segment_bytes_def Let_def Magic_length HeaderBytes_def EntryBytes_def mult.commute)

lemma segment_bytes_header:
  assumes "list_all entry_ok es" "validKind kind" "es \<noteq> []" "length es \<le> MaxEntries" "n \<le> MaxSegmentBytes"
  shows "take 8 (segment_bytes kind es n) = Magic" "be_nat (sub_bytes 8 4 (segment_bytes kind es n)) = kind"
    "be_nat (sub_bytes 12 4 (segment_bytes kind es n)) = length es"
    "be_nat (sub_bytes 16 8 (segment_bytes kind es n)) = HeaderBytes"
    "be_nat (sub_bytes 24 8 (segment_bytes kind es n)) = HeaderBytes + EntryBytes * length es"
    "be_nat (sub_bytes 32 8 (segment_bytes kind es n)) = n"
  using assms by (auto simp: segment_bytes_def Let_def sub_bytes_def Magic_length be_nat_be_bytes HeaderBytes_def
      EntryBytes_def validKind_def seg_KindPacket_def KindMapping_def MaxEntries_def MaxSegmentBytes_def)

lemma Open_written:
  assumes "list_all entry_ok es" "validKind kind" "es \<noteq> []" "length es \<le> MaxEntries"
    and "strictly_sorted (map en_Digest es)" "n = 40 + length es * 48 + body_length es" "n \<le> MaxSegmentBytes"
  shows "\<exists>s. Open (segment_bytes kind es n) (sha256 (segment_bytes kind es n)) = Inr s \<and>
    segment_Kind s = kind \<and> segment_entries s = es"
proof -
  let ?bs = "segment_bytes kind es n"
  let ?s = "\<lparr>sg_data = ?bs, sg_kind = kind, sg_count = length es, sg_indexBase = 40, sg_bodyBase = 40 + length es * 48\<rparr>"
  have l: "length ?bs = n" using length_segment_bytes [OF assms(1)] assms(6) by simp
  have v: "verify_from ?bs 40 0 (replicate 32 0) (40 + length es * 48) (length es) = Inr n"
    using verify_from_written [OF assms(1,6,7,5) l, of 0 "length es"] by simp
  have "0 < body_length es"
    using assms(1,3) by (cases es) (auto simp: entry_ok_def)
  then have "Open ?bs (sha256 ?bs) = Inr ?s"
    unfolding Open_def Let_def segment_bytes_header [OF assms(1-4,7)] l
    using v l assms(2-4,6,7) by (simp add: after_Inr verifyEntries_def fail_if_None HeaderBytes_def EntryBytes_def
        MaxEntries_def mult.commute)
  moreover have "segment_entries ?s = map (\<lambda>i. es ! i) [0..<length es]"
    using entry_at_written [OF assms(1) _ assms(6,7)] by (auto simp: segment_entries_def)
  ultimately show ?thesis by (simp add: segment_Kind_def map_nth)
qed

section \<open>Finding a document\<close>

lemma segment_Entry_at:
  assumes "Open bs d = Inr s" "i < sg_count s"
  shows "segment_Entry (Some s) i = Inr (segment_entries s ! i)"
  using Open_header [OF assms(1)] assms(2)
  by (simp add: segment_Entry_def segment_entries_def entry_at_def EntryBytes_def Let_def)

lemma segment_Find_iff:
  assumes "Open bs d = Inr s"
  shows "segment_Find (Some s) digest = Some c \<longleftrightarrow> \<lparr>en_Digest = digest, en_CBOR = c\<rparr> \<in> set (segment_entries s)"
proof -
  let ?es = "segment_entries s" and ?ds = "map en_Digest (segment_entries s)"
  have n: "length ?es = sg_count s" by (simp add: segment_entries_def)
  have st: "sorted ?ds" "distinct ?ds" using Open_canonical(3) [OF assms] by (simp_all add: strictly_sorted_iff)
  let ?r = "sort_Search (sg_count s) (\<lambda>i. sub_bytes (sg_indexBase s + i * EntryBytes) 32 (sg_data s) \<ge> digest)"
  have ind: "sub_bytes (sg_indexBase s + i * EntryBytes) 32 (sg_data s) = ?ds ! i" if "i < sg_count s" for i
    using Open_header [OF assms] that by (simp add: segment_entries_def entry_at_def EntryBytes_def)
  have "?r = sort_Search (length ?ds) (\<lambda>i. ?ds ! i \<ge> digest)"
    unfolding sort_Search_def length_map n by (rule search_between_cong) (simp add: ind)
  then have r: "?r < sg_count s \<and> ?ds ! ?r = digest \<longleftrightarrow> digest \<in> set ?ds" and le: "?r \<le> sg_count s"
    using sort_Search_sorted [OF st(1), of digest] sort_Search_le n by (auto simp: n)
  have f: "segment_Find (Some s) digest = (if ?r < sg_count s \<and> ?ds ! ?r = digest then Some (en_CBOR (?es ! ?r)) else None)"
    using le segment_Entry_at [OF assms, of ?r] by (auto simp: segment_Find_def Let_def n)
  show ?thesis
  proof
    assume "segment_Find (Some s) digest = Some c"
    then have "?r < sg_count s" "?ds ! ?r = digest" "c = en_CBOR (?es ! ?r)" unfolding f by (auto split: if_splits)
    then have "?es ! ?r = \<lparr>en_Digest = digest, en_CBOR = c\<rparr>" "?r < length ?es" by (simp_all add: n)
    then show "\<lparr>en_Digest = digest, en_CBOR = c\<rparr> \<in> set ?es" by (metis nth_mem)
  next
    assume e: "\<lparr>en_Digest = digest, en_CBOR = c\<rparr> \<in> set ?es"
    then have "digest \<in> set ?ds" by force
    with r have k: "?r < sg_count s" "?ds ! ?r = digest" by blast+
    obtain j where j: "j < length ?es" "?es ! j = \<lparr>en_Digest = digest, en_CBOR = c\<rparr>"
      using e by (auto simp: in_set_conv_nth)
    then have "?ds ! j = ?ds ! ?r" using k by simp
    then have "j = ?r" using nth_eq_iff_index_eq [OF st(2), of j ?r] j(1) k(1) n by simp
    with j(2) have "?es ! ?r = \<lparr>en_Digest = digest, en_CBOR = c\<rparr>" by simp
    with f k show "segment_Find (Some s) digest = Some c" by simp
  qed
qed

text \<open>
  C28: a segment holds its documents. What \<open>Build\<close> writes is accepted by \<open>Open\<close> under the
  digest it returns; the segment has the kind, and as many entries as documents were given; looking
  up a digest finds the document with this digest, and nothing when none was given.
\<close>

theorem segment_finds_documents:
  assumes "Build kind source = Inr (bs, d)"
  shows "\<exists>s. Open bs d = Inr s \<and> segment_Kind s = kind \<and> segment_Count s = length source \<and>
    segment_entries s = sort_key en_Digest source \<and>
    (\<forall>digest c. segment_Find (Some s) digest = Some c \<longleftrightarrow> \<lparr>en_Digest = digest, en_CBOR = c\<rparr> \<in> set source)"
proof -
  let ?es = "sort_key en_Digest source"
  from assms obtain n where b: "validKind kind" "source \<noteq> []" "length source \<le> MaxEntries" "list_all entry_ok source"
    "strictly_sorted (map en_Digest ?es)" "segment_total (40 + 48 * length source) ?es = Some n"
    "bs = segment_bytes kind ?es n" "d = sha256 bs"
    by (auto simp: Build_def Let_def HeaderBytes_def EntryBytes_def not_less split: if_splits option.splits)
  have ok: "list_all entry_ok ?es" using b(4) by (simp add: list_all_iff)
  have n: "n = 40 + length ?es * 48 + body_length ?es" "n \<le> MaxSegmentBytes"
    using segment_total_Some [OF b(6) ok] b(3) by (simp_all add: MaxEntries_def MaxSegmentBytes_def mult.commute)
  have "?es \<noteq> []" using b(2) by (metis length_0_conv length_sort)
  then obtain s where s: "Open bs d = Inr s" "segment_Kind s = kind" "segment_entries s = ?es"
    using Open_written [OF ok b(1) _ _ b(5) n] b(3,7,8) by auto
  have "segment_Count s = length source"
    using s(3) by (metis segment_Count_def segment_entries_def length_map length_sort length_upt minus_nat.diff_0)
  with s segment_Find_iff [OF s(1)] show ?thesis by (intro exI [of _ s]) simp
qed

definition sample_entries :: "seg_entry list" where
  "sample_entries = [\<lparr>en_Digest = sha256 [1, 2], en_CBOR = [1, 2]\<rparr>]"

lemma sample_built:
  "Build seg_KindPacket sample_entries = Inr (segment_bytes seg_KindPacket sample_entries 90,
     sha256 (segment_bytes seg_KindPacket sample_entries 90))"
  by (simp add: Build_def sample_entries_def validKind_def entry_ok_def MaxEntries_def seg_MaxArtifactBytes_def
      HeaderBytes_def EntryBytes_def MaxSegmentBytes_def Let_def)

theorem segment_finds_documents_witness:
  "\<exists>s. Open (segment_bytes seg_KindPacket sample_entries 90) (sha256 (segment_bytes seg_KindPacket sample_entries 90)) = Inr s \<and>
     segment_Find (Some s) (sha256 [1, 2]) = Some [1, 2]"
  using segment_finds_documents [OF sample_built] by (auto simp: sample_entries_def)

lemma sample_opened:
  "\<exists>s. Open (segment_bytes seg_KindPacket sample_entries 90) (sha256 (segment_bytes seg_KindPacket sample_entries 90)) = Inr s"
proof -
  have "list_all entry_ok sample_entries" "sample_entries \<noteq> []" "length sample_entries \<le> MaxEntries"
    "strictly_sorted (map en_Digest sample_entries)" "90 = 40 + length sample_entries * 48 + body_length sample_entries"
    by (simp_all add: sample_entries_def entry_ok_def seg_MaxArtifactBytes_def MaxEntries_def)
  then show ?thesis
    using Open_written [of sample_entries seg_KindPacket 90] by (auto simp: validKind_def MaxSegmentBytes_def)
qed

theorem segment_canonical_witness:
  "\<exists>s. Build (segment_Kind s) (segment_entries s) =
     Inr (segment_bytes seg_KindPacket sample_entries 90, sha256 (segment_bytes seg_KindPacket sample_entries 90))"
  using sample_opened segment_canonical by blast

end
