(* ===== verification/Snapshot_Artifact.thy ===== *)
theory Snapshot_Artifact
  imports Packet_Batch Snapshot
begin

text \<open>
  \<open>internal/snapshotartifact/artifact.go\<close>: the containers of the snapshot runtime and their
  validators. JSON is an argument of the readers and of the digest of a module set; a Go map from
  digests to octets is an association list with distinct keys.
\<close>

section \<open>Data\<close>

definition PacketSegmentFormat :: string where "PacketSegmentFormat = ''tw.snapshot-packet-segment/0.1''"
definition DeltaSegmentFormat :: string where "DeltaSegmentFormat = ''tw.snapshot-delta-segment/0.1''"
definition ProofIndexFormat :: string where "ProofIndexFormat = ''tw.snapshot-proof-index/0.1''"
definition ConceptsFormat :: string where "ConceptsFormat = ''tw.snapshot-concepts/0.1''"
definition MappingsFormat :: string where "MappingsFormat = ''tw.snapshot-mappings/0.1''"
definition ViewFormat :: string where "ViewFormat = ''tw.snapshot-view/0.1''"
definition BuildReportFormat :: string where "BuildReportFormat = ''tw.snapshot-build-report/0.1''"
definition sa_MaxArtifactBytes :: nat where "sa_MaxArtifactBytes = 16777216"
definition MaxSegmentEntries :: nat where "MaxSegmentEntries = 32768"
definition MaxIndexEntries :: nat where "MaxIndexEntries = 32768"

text \<open>\<open>PacketEntry\<close> and \<open>DeltaEntry\<close>, and their two segments, have the same fields.\<close>

record segment_entry =
  se_Sequence :: uint64
  se_Digest :: string
  se_CBOR :: "byte list"

record document_segment =
  ds_Format :: string
  ds_StartSequence :: uint64
  ds_Entries :: "segment_entry list"

record proof_artifact =
  pa_Name :: string
  pa_Path :: string
  pa_Digest :: string
  pa_Size :: uint64

record proof_entry =
  pe_ProofType :: string
  pe_PacketDigest :: string
  pe_EvidenceID :: string
  pe_EvidenceClass :: string
  pe_ExecutionOriginID :: string
  pe_OperationID :: string
  pe_FieldID :: string
  pe_Artifacts :: "proof_artifact list"

record proof_index =
  px_Format :: string
  px_Entries :: "proof_entry list"

record concepts =
  co_Format :: string
  co_Concepts :: "string list"
  co_Modules :: "string list"

record mapping_entry =
  mp_ID :: string
  mp_NativeTerm :: string
  mp_SemanticTerm :: string
  mp_Status :: string
  mp_EvidenceClass :: string

record mappings =
  ms_Format :: string
  ms_Mappings :: "mapping_entry list"

record view_row =
  vr_PacketDigest :: string
  vr_OriginID :: string
  vr_SubjectID :: string
  vr_NativeTerm :: string
  vr_NativeLexical :: string
  vr_NativeStatus :: string
  vr_SemanticTerm :: string
  vr_SemanticLexical :: string
  vr_Lane :: string
  vr_ObservedAt :: string

record view =
  vw_Format :: string
  vw_ID :: string
  vw_Definition :: string
  vw_ThroughSequence :: uint64
  vw_PublicOnly :: bool
  vw_EvidenceClasses :: "string list"
  vw_Rows :: "view_row list"

record actual_counts =
  ac_AtlasIdentities :: uint64
  ac_ArchiveProfiles :: uint64
  ac_PublicOrigins :: uint64
  ac_FixtureOrigins :: uint64
  ac_Operations :: uint64
  ac_Packets :: uint64
  ac_PublicPackets :: uint64
  ac_FixturePackets :: uint64
  ac_ResolvedPackets :: uint64
  ac_UnresolvedPackets :: uint64
  ac_Deltas :: uint64
  ac_MaterializedViews :: uint64
  ac_ProofArtifacts :: uint64

record target_counts =
  tc_AtlasIdentities :: uint64
  tc_ArchiveProfiles :: uint64
  tc_CurrentObserved :: uint64
  tc_Packets :: uint64
  tc_MaterializedViews :: uint64

record build_report =
  br_Format :: string
  br_SourceRevision :: string
  br_BuiltAt :: string
  br_Mode :: string
  br_NetworkRequests :: uint64
  br_CurrentClaimsMade :: bool
  br_FixtureCountedPublic :: bool
  br_Actual :: actual_counts
  br_FundingDemoTarget :: target_counts
  br_Limitations :: "string list"

text \<open>\<open>encode\<close> stands for \<open>json.MarshalIndent\<close>.\<close>

definition sa_Marshal :: "('a \<Rightarrow> error + byte list) \<Rightarrow> 'a \<Rightarrow> error + byte list" where
  "sa_Marshal encode val = ebind (encode val) (\<lambda>encoded. let bs = encoded @ [10] in
     if bs = [] \<or> length bs > sa_MaxArtifactBytes then Inl (Wrap ''encoded size outside bounds'' ErrInvalid) else Inr bs)"

section \<open>Digests\<close>

definition sa_ParseDigest :: "string \<Rightarrow> error + byte list" where
  "sa_ParseDigest val =
     (if take 7 val \<noteq> ''sha256:'' \<or> length val \<noteq> 71 then Inl (Wrap ''malformed digest reference'' ErrInvalid)
      else case hex_decode (drop 7 val) of
          None \<Rightarrow> Inl (Wrap ''malformed digest reference'' ErrInvalid)
        | Some decoded \<Rightarrow>
            if length decoded \<noteq> 32 \<or> val \<noteq> ''sha256:'' @ hex_encode decoded
            then Inl (Wrap ''malformed digest reference'' ErrInvalid) else Inr decoded)"

definition sa_DigestReference :: "byte list \<Rightarrow> string" where
  "sa_DigestReference digest = ''sha256:'' @ hex_encode digest"

fun modules_ok :: "string option \<Rightarrow> string list \<Rightarrow> bool" where
  "modules_ok previous [] = True"
| "modules_ok previous (m # ms) =
     (\<not> (m = [] \<or> CHR 0x00 \<in> set m \<or> (case previous of None \<Rightarrow> False | Some p \<Rightarrow> p \<ge> m)) \<and> modules_ok (Some m) ms)"

text \<open>\<open>encode\<close> stands for \<open>json.Marshal\<close>.\<close>

definition ModuleSetDigest :: "(string list \<Rightarrow> error + byte list) \<Rightarrow> string list \<Rightarrow> error + byte list" where
  "ModuleSetDigest encode modules =
     (if modules = [] then Inl (Wrap ''empty module set'' ErrInvalid)
      else if \<not> modules_ok None modules then Inl (Wrap ''module set is not strictly sorted'' ErrInvalid)
      else case encode modules of Inl e \<Rightarrow> Inl e | Inr encoded \<Rightarrow> Inr (sha256 encoded))"

section \<open>Segments of packets and of deltas\<close>

fun validate_segment_entries ::
  "(byte list \<Rightarrow> error option) \<Rightarrow> uint64 \<Rightarrow> byte list option \<Rightarrow> segment_entry list \<Rightarrow> error option" where
  "validate_segment_entries read sequence prior [] = None"
| "validate_segment_entries read sequence prior (e # es) =
     (if se_Sequence e \<noteq> sequence \<or> se_CBOR e = [] \<or> length (se_CBOR e) > MaxDocumentBytes
      then Some (Wrap ''entry bounds or sequence'' ErrInvalid)
      else case sa_ParseDigest (se_Digest e) of
          Inl _ \<Rightarrow> Some (Wrap ''entry digest'' ErrInvalid)
        | Inr digest \<Rightarrow> first_err [
            fail_if (digest \<noteq> sha256 (se_CBOR e)) (Wrap ''entry digest'' ErrInvalid),
            fail_if (case prior of None \<Rightarrow> False | Some p \<Rightarrow> p \<ge> digest) (Wrap ''entries are not digest-sorted'' ErrInvalid),
            wrap_err ''entry'' (read (se_CBOR e)),
            validate_segment_entries read (sequence + 1) (Some digest) es])"

definition read_error :: "error + 'a \<Rightarrow> error option" where
  "read_error r = (case r of Inl e \<Rightarrow> Some e | Inr _ \<Rightarrow> None)"

definition PacketSegment_Validate :: "document_segment \<Rightarrow> error option" where
  "PacketSegment_Validate s = first_err [
     fail_if (ds_Format s \<noteq> PacketSegmentFormat \<or> ds_StartSequence s = 0 \<or> ds_Entries s = [] \<or>
         length (ds_Entries s) > MaxSegmentEntries) (Wrap ''packet segment metadata'' ErrInvalid),
     validate_segment_entries (\<lambda>bs. read_error (UnmarshalPacket bs)) (ds_StartSequence s) None (ds_Entries s)]"

definition DeltaSegment_Validate :: "document_segment \<Rightarrow> error option" where
  "DeltaSegment_Validate s = first_err [
     fail_if (ds_Format s \<noteq> DeltaSegmentFormat \<or> (ds_Entries s \<noteq> [] \<and> ds_StartSequence s = 0) \<or>
         length (ds_Entries s) > MaxSegmentEntries) (Wrap ''delta segment metadata'' ErrInvalid),
     validate_segment_entries (\<lambda>bs. read_error (UnmarshalDelta bs)) (ds_StartSequence s) None (ds_Entries s)]"

definition sa_Decode :: "(byte list \<Rightarrow> error + 'a) \<Rightarrow> byte list \<Rightarrow> error + 'a" where
  "sa_Decode decode bs =
     (if bs = [] \<or> length bs > sa_MaxArtifactBytes then Inl (Wrap ''byte length outside bounds'' ErrInvalid)
      else case decode bs of Inl e \<Rightarrow> Inl (Wrap ''invalid'' e) | Inr target \<Rightarrow> Inr target)"

definition UnmarshalPacketSegment :: "(byte list \<Rightarrow> error + document_segment) \<Rightarrow> byte list \<Rightarrow> error + document_segment" where
  "UnmarshalPacketSegment decode bs =
     ebind (sa_Decode decode bs) (\<lambda>s. after (PacketSegment_Validate s) (Inr s))"

definition UnmarshalDeltaSegment :: "(byte list \<Rightarrow> error + document_segment) \<Rightarrow> byte list \<Rightarrow> error + document_segment" where
  "UnmarshalDeltaSegment decode bs =
     ebind (sa_Decode decode bs) (\<lambda>s. after (DeltaSegment_Validate s) (Inr s))"

fun number_entries :: "uint64 \<Rightarrow> (byte list \<times> byte list) list \<Rightarrow> segment_entry list" where
  "number_entries i [] = []"
| "number_entries i ((digest, cbor) # m) =
     \<lparr>se_Sequence = i, se_Digest = sa_DigestReference digest, se_CBOR = cbor\<rparr> # number_entries (i + 1) m"

definition SortedPacketEntries :: "(byte list \<times> byte list) list \<Rightarrow> segment_entry list" where
  "SortedPacketEntries packets = number_entries 1 (sort_key fst packets)"

definition SortedDeltaEntries :: "(byte list \<times> byte list) list \<Rightarrow> segment_entry list" where
  "SortedDeltaEntries deltas = number_entries 1 (sort_key fst deltas)"

section \<open>The proof index\<close>

fun validate_proof_artifacts :: "string \<Rightarrow> proof_artifact list \<Rightarrow> error option" where
  "validate_proof_artifacts previous [] = None"
| "validate_proof_artifacts previous (a # as) = first_err [
     fail_if (pa_Name a = [] \<or> pa_Name a \<le> previous \<or> pa_Size a = 0) (Wrap ''artifact metadata'' ErrInvalid),
     fail_if (ValidateSnapshotPath (pa_Path a) \<noteq> None) (Wrap ''artifact path'' ErrInvalid),
     fail_if (\<not> isOK (sa_ParseDigest (pa_Digest a))) (Wrap ''artifact digest'' ErrInvalid),
     validate_proof_artifacts (pa_Name a) as]"

fun validate_proof_entries :: "string \<Rightarrow> proof_entry list \<Rightarrow> error option" where
  "validate_proof_entries previous [] = None"
| "validate_proof_entries previous (e # es) = first_err [
     fail_if (pe_ProofType e \<noteq> ''e2_bundle'' \<and> pe_ProofType e \<noteq> ''controlled_scale_fixture'' \<and>
         pe_ProofType e \<noteq> ''archive_capture'') (Wrap ''proof entry type'' ErrInvalid),
     fail_if (\<not> isOK (sa_ParseDigest (pe_PacketDigest e)) \<or> pe_PacketDigest e \<le> previous)
       (Wrap ''proof entry packet identity or order'' ErrInvalid),
     fail_if (\<not> isOK (sa_ParseDigest (pe_EvidenceID e)) \<or> pe_EvidenceClass e = [] \<or> pe_ExecutionOriginID e = [] \<or>
         pe_OperationID e = [] \<or> pe_FieldID e = [] \<or> pe_Artifacts e = [] \<or> length (pe_Artifacts e) > 32)
       (Wrap ''proof entry identity'' ErrInvalid),
     validate_proof_artifacts [] (pe_Artifacts e),
     validate_proof_entries (pe_PacketDigest e) es]"

definition ProofIndex_Validate :: "proof_index \<Rightarrow> error option" where
  "ProofIndex_Validate p = first_err [
     fail_if (px_Format p \<noteq> ProofIndexFormat \<or> px_Entries p = [] \<or> length (px_Entries p) > MaxIndexEntries)
       (Wrap ''proof index metadata'' ErrInvalid),
     validate_proof_entries [] (px_Entries p)]"

definition UnmarshalProofIndex :: "(byte list \<Rightarrow> error + proof_index) \<Rightarrow> byte list \<Rightarrow> error + proof_index" where
  "UnmarshalProofIndex decode bs =
     ebind (sa_Decode decode bs) (\<lambda>p. after (ProofIndex_Validate p) (Inr p))"

section \<open>Laws\<close>

lemma sa_ParseDigest_Inr: "sa_ParseDigest val = Inr d \<longleftrightarrow> length d = 32 \<and> val = sa_DigestReference d"
  by (auto simp: sa_ParseDigest_def sa_DigestReference_def split: option.splits)

lemma sa_ParseDigest_reference: "length d = 32 \<Longrightarrow> sa_ParseDigest (sa_DigestReference d) = Inr d"
  by (simp add: sa_ParseDigest_Inr)

lemma read_error_None: "read_error r = None \<longleftrightarrow> isOK r"
  by (cases r) (simp_all add: read_error_def)

lemma sa_DigestReference_inject [simp]: "sa_DigestReference a = sa_DigestReference b \<longleftrightarrow> a = b"
  by (simp add: sa_DigestReference_def)

lemma validate_entry_None:
  "validate_segment_entries read i prior (e # es) = None \<longleftrightarrow>
     se_Sequence e = i \<and> se_CBOR e \<noteq> [] \<and> length (se_CBOR e) \<le> MaxDocumentBytes \<and>
     se_Digest e = sa_DigestReference (sha256 (se_CBOR e)) \<and>
     (case prior of None \<Rightarrow> True | Some p \<Rightarrow> p < sha256 (se_CBOR e)) \<and> read (se_CBOR e) = None \<and>
     validate_segment_entries read (i + 1) (Some (sha256 (se_CBOR e))) es = None"
proof (cases "sa_ParseDigest (se_Digest e)")
  case (Inl x)
  then have "se_Digest e \<noteq> sa_DigestReference (sha256 (se_CBOR e))"
    using sa_ParseDigest_reference [OF length_sha256 [of "se_CBOR e"]] by auto
  with Inl show ?thesis by simp
next
  case (Inr d)
  then have "se_Digest e = sa_DigestReference d" by (simp add: sa_ParseDigest_Inr)
  with Inr show ?thesis
    by (auto simp: first_err_None fail_if_None wrap_err_None not_le not_less split: option.splits)
qed

text \<open>The entries that a segment accepts: documents with the numbers and digests of their positions.\<close>

lemma validate_segment_entries_None:
  "validate_segment_entries read i prior es = None \<longleftrightarrow>
     (\<exists>m. es = number_entries i m \<and>
       list_all (\<lambda>(d, c). d = sha256 c \<and> c \<noteq> [] \<and> length c \<le> MaxDocumentBytes \<and> read c = None) m \<and>
       strictly_sorted ((case prior of None \<Rightarrow> [] | Some p \<Rightarrow> [p]) @ map fst m))"
proof (induction es arbitrary: i prior)
  case Nil
  show ?case by (intro iffI exI [of _ "[]"]) (simp_all split: option.splits)
next
  case (Cons e es)
  have split: "(\<exists>m. e # es = number_entries i m \<and> Q m) \<longleftrightarrow>
      (\<exists>d m. e = \<lparr>se_Sequence = i, se_Digest = sa_DigestReference d, se_CBOR = se_CBOR e\<rparr> \<and>
        es = number_entries (i + 1) m \<and> Q ((d, se_CBOR e) # m))" for Q
  proof
    assume "\<exists>m. e # es = number_entries i m \<and> Q m"
    then obtain m where m: "e # es = number_entries i m" "Q m" by blast
    then obtain d c m' where "m = (d, c) # m'" by (cases m) auto
    with m show "\<exists>d m. e = \<lparr>se_Sequence = i, se_Digest = sa_DigestReference d, se_CBOR = se_CBOR e\<rparr> \<and>
        es = number_entries (i + 1) m \<and> Q ((d, se_CBOR e) # m)"
      by (intro exI [of _ d] exI [of _ m']) simp
  next
    assume "\<exists>d m. e = \<lparr>se_Sequence = i, se_Digest = sa_DigestReference d, se_CBOR = se_CBOR e\<rparr> \<and>
        es = number_entries (i + 1) m \<and> Q ((d, se_CBOR e) # m)"
    then obtain d m where *: "e = \<lparr>se_Sequence = i, se_Digest = sa_DigestReference d, se_CBOR = se_CBOR e\<rparr>"
        "es = number_entries (i + 1) m" "Q ((d, se_CBOR e) # m)" by blast
    then show "\<exists>m. e # es = number_entries i m \<and> Q m"
      by (intro exI [of _ "(d, se_CBOR e) # m"]) simp
  qed
  have eta: "e = \<lparr>se_Sequence = i, se_Digest = sa_DigestReference d, se_CBOR = se_CBOR e\<rparr> \<longleftrightarrow>
      se_Sequence e = i \<and> se_Digest e = sa_DigestReference d" for d by (cases e) simp
  define P where "P = list_all (\<lambda>(d, c). d = sha256 c \<and> c \<noteq> [] \<and> length c \<le> MaxDocumentBytes \<and> read c = None)"
  have p: "P ((d, c) # m) \<longleftrightarrow> d = sha256 c \<and> c \<noteq> [] \<and> length c \<le> MaxDocumentBytes \<and> read c = None \<and> P m" for d c m
    by (simp add: P_def)
  have ss: "strictly_sorted ((case prior of None \<Rightarrow> [] | Some p \<Rightarrow> [p]) @ map fst ((d, c) # m)) \<longleftrightarrow>
      (case prior of None \<Rightarrow> True | Some p \<Rightarrow> p < d) \<and> strictly_sorted ([d] @ map fst m)" for d c m
    by (cases prior) simp_all
  show ?case
    unfolding split eta validate_entry_None Cons.IH P_def [symmetric] ss p option.case by blast
qed


lemma length_number_entries: "length (number_entries i m) = length m"
  by (induction i m rule: number_entries.induct) simp_all

lemma number_entries_Nil: "number_entries i m = [] \<longleftrightarrow> m = []"
  by (cases m) auto

text \<open>The packets that a segment holds, or its deltas, when their reader accepts them.\<close>

definition documents_ok :: "(byte list \<Rightarrow> error + 'a) \<Rightarrow> (byte list \<times> byte list) list \<Rightarrow> bool" where
  "documents_ok read m \<longleftrightarrow> length m \<le> MaxSegmentEntries \<and> distinct (map fst m) \<and>
     list_all (\<lambda>(d, c). d = sha256 c \<and> c \<noteq> [] \<and> length c \<le> MaxDocumentBytes \<and> isOK (read c)) m"

lemma sorted_entries_iff:
  "(\<exists>m. es = number_entries 1 m \<and> length m \<le> MaxSegmentEntries \<and>
      list_all (\<lambda>(d, c). d = sha256 c \<and> c \<noteq> [] \<and> length c \<le> MaxDocumentBytes \<and> isOK (read c)) m \<and>
      strictly_sorted (map fst m)) \<longleftrightarrow>
   (\<exists>m. es = number_entries 1 (sort_key fst m) \<and> documents_ok read m)"
proof
  assume "\<exists>m. es = number_entries 1 m \<and> length m \<le> MaxSegmentEntries \<and>
      list_all (\<lambda>(d, c). d = sha256 c \<and> c \<noteq> [] \<and> length c \<le> MaxDocumentBytes \<and> isOK (read c)) m \<and>
      strictly_sorted (map fst m)"
  then obtain m where m: "es = number_entries 1 m" "length m \<le> MaxSegmentEntries"
    "list_all (\<lambda>(d, c). d = sha256 c \<and> c \<noteq> [] \<and> length c \<le> MaxDocumentBytes \<and> isOK (read c)) m"
    "strictly_sorted (map fst m)" by blast
  then have "sort_key fst m = m" by (intro sort_key_id_if_sorted) (simp add: strictly_sorted_iff)
  with m show "\<exists>m. es = number_entries 1 (sort_key fst m) \<and> documents_ok read m"
    by (intro exI [of _ m]) (simp add: documents_ok_def strictly_sorted_iff)
next
  assume "\<exists>m. es = number_entries 1 (sort_key fst m) \<and> documents_ok read m"
  then obtain m where m: "es = number_entries 1 (sort_key fst m)" "documents_ok read m" by blast
  have "distinct (map fst (sort_key fst m))"
    using m(2) by (simp add: documents_ok_def distinct_map)
  with m show "\<exists>m. es = number_entries 1 m \<and> length m \<le> MaxSegmentEntries \<and>
      list_all (\<lambda>(d, c). d = sha256 c \<and> c \<noteq> [] \<and> length c \<le> MaxDocumentBytes \<and> isOK (read c)) m \<and>
      strictly_sorted (map fst m)"
    by (intro exI [of _ "sort_key fst m"]) (simp add: documents_ok_def strictly_sorted_iff list_all_iff)
qed

text \<open>
  C29: the packet segments that start at 1. They are accepted exactly when the builder writes them:
  their entries are those of \<open>SortedPacketEntries\<close> for a non-empty set of at most 32768 packets,
  each under the digest of its octets and each accepted by the packet reader.
\<close>

theorem packet_segment_accepted:
  "PacketSegment_Validate s = None \<and> ds_StartSequence s = 1 \<longleftrightarrow>
     (\<exists>m. s = \<lparr>ds_Format = PacketSegmentFormat, ds_StartSequence = 1, ds_Entries = SortedPacketEntries m\<rparr> \<and>
       m \<noteq> [] \<and> documents_ok UnmarshalPacket m)"
proof -
  have "PacketSegment_Validate s = None \<and> ds_StartSequence s = 1 \<longleftrightarrow>
      ds_Format s = PacketSegmentFormat \<and> ds_StartSequence s = 1 \<and> ds_Entries s \<noteq> [] \<and>
      (\<exists>m. ds_Entries s = number_entries 1 m \<and> length m \<le> MaxSegmentEntries \<and>
        list_all (\<lambda>(d, c). d = sha256 c \<and> c \<noteq> [] \<and> length c \<le> MaxDocumentBytes \<and> isOK (UnmarshalPacket c)) m \<and>
        strictly_sorted (map fst m))"
    by (auto simp: PacketSegment_Validate_def first_err_None fail_if_None validate_segment_entries_None read_error_None
        length_number_entries)
  also have "\<dots> \<longleftrightarrow> (\<exists>m. s = \<lparr>ds_Format = PacketSegmentFormat, ds_StartSequence = 1, ds_Entries = SortedPacketEntries m\<rparr> \<and>
      m \<noteq> [] \<and> documents_ok UnmarshalPacket m)"
    (is "?l \<longleftrightarrow> ?r")
  proof
    assume ?l
    then obtain m where m: "ds_Entries s = SortedPacketEntries m" "documents_ok UnmarshalPacket m"
      unfolding sorted_entries_iff SortedPacketEntries_def by blast
    moreover have "m \<noteq> []" using m(1) \<open>?l\<close> by (auto simp: SortedPacketEntries_def)
    moreover have "s = \<lparr>ds_Format = PacketSegmentFormat, ds_StartSequence = 1, ds_Entries = ds_Entries s\<rparr>"
      using \<open>?l\<close> by (cases s) simp
    ultimately show ?r by metis
  next
    assume ?r
    then obtain m where m: "s = \<lparr>ds_Format = PacketSegmentFormat, ds_StartSequence = 1, ds_Entries = SortedPacketEntries m\<rparr>"
      "m \<noteq> []" "documents_ok UnmarshalPacket m" by blast
    have "sort_key fst m \<noteq> []" using m(2) by (metis length_0_conv length_sort)
    then have "ds_Entries s \<noteq> []" by (simp add: m(1) SortedPacketEntries_def number_entries_Nil)
    moreover have "\<exists>m. ds_Entries s = number_entries 1 (sort_key fst m) \<and> documents_ok UnmarshalPacket m"
      using m(3) by (intro exI [of _ m]) (simp add: m(1) SortedPacketEntries_def)
    ultimately show ?l unfolding sorted_entries_iff by (simp add: m(1))
  qed
  finally show ?thesis .
qed

lemma validate_proof_artifacts_None:
  "validate_proof_artifacts previous as = None \<longleftrightarrow>
     list_all (\<lambda>a. pa_Name a \<noteq> [] \<and> pa_Size a \<noteq> 0 \<and> ValidateSnapshotPath (pa_Path a) = None \<and>
       isOK (sa_ParseDigest (pa_Digest a))) as \<and> strictly_sorted (previous # map pa_Name as)"
  by (induction as arbitrary: previous) (auto simp: first_err_None fail_if_None not_le)

lemma validate_proof_entries_None:
  "validate_proof_entries previous es = None \<Longrightarrow>
     strictly_sorted (previous # map pe_PacketDigest es) \<and>
     list_all (\<lambda>e. isOK (sa_ParseDigest (pe_PacketDigest e)) \<and> isOK (sa_ParseDigest (pe_EvidenceID e)) \<and>
       pe_Artifacts e \<noteq> [] \<and> validate_proof_artifacts [] (pe_Artifacts e) = None) es"
  by (induction es arbitrary: previous) (auto simp: first_err_None fail_if_None not_le)

end
