(* ===== verification/Snapshot_Runtime.thy ===== *)
theory Snapshot_Runtime
  imports Query_Result Snapshot_Artifact Go_Sort "HOL-Library.Product_Lexorder"
begin

text \<open>
  \<open>internal/snapshotruntime/runtime.go\<close>: a loaded snapshot and the queries it answers. The
  deadline of a query is an argument that tells what \<open>ctx.Done\<close> reports when it is asked at
  a packet; the encoding of a plan as JSON is an argument.
\<close>

section \<open>The state\<close>

definition ErrInvalidSnapshot :: error where "ErrInvalidSnapshot = Msg ''snapshotruntime: invalid snapshot''"
definition ErrUnsupportedQuery :: error where
  "ErrUnsupportedQuery = Msg ''snapshotruntime: query feature is not available in the read-only Genesis profile''"
definition MaxRuntimePackets :: uint64 where "MaxRuntimePackets = 100000"

record indexed_packet =
  ip_Sequence :: uint64
  ip_Digest :: "byte list"
  ip_Bytes :: "byte list"
  ip_Packet :: packet
  ip_EvidenceClass :: string

record indexed_delta =
  id_Sequence :: uint64
  id_Digest :: "byte list"
  id_Bytes :: "byte list"
  id_Delta :: delta

record origin_description =
  od_ID :: string
  od_CanonicalOrigin :: string
  od_CanonicalHost :: string
  od_DomainFamily :: string
  od_CatalogState :: string
  od_PacketCount :: uint64
  od_PacketState :: string

text \<open>A Go map is a partial function; one whose values are \<open>struct{}\<close> is a set.\<close>

record runtime =
  rt_directory :: string
  rt_manifest :: snapshot_manifest
  rt_id :: "byte list"
  rt_manifestSize :: uint64
  rt_includeFixtures :: bool
  rt_packets :: "indexed_packet list"
  rt_byDigest :: "byte list \<Rightarrow> indexed_packet option"
  rt_deltas :: "indexed_delta list"
  rt_byDeltaDigest :: "byte list \<Rightarrow> indexed_delta option"
  rt_proofs :: "byte list \<Rightarrow> proof_entry option"
  rt_archiveKeys :: "byte list set"
  rt_archiveBatches :: "byte list set"
  rt_origins :: "origin_description list"
  rt_originByID :: "string \<Rightarrow> origin_description option"
  rt_concepts :: "string list"
  rt_mappings :: "mapping_entry list"
  rt_views :: "view list"
  rt_report :: build_report
  rt_semanticLexical :: "byte list \<Rightarrow> string option"

record query_plan =
  pl_Mode :: string
  pl_SnapshotID :: string
  pl_QueryDigest :: string
  pl_ScannedPackets :: uint64
  pl_MatchedPackets :: uint64
  pl_ReturnedPackets :: uint64
  pl_ExcludedFixtures :: uint64
  pl_Truncated :: bool
  pl_Unsupported :: "string list"
  pl_NetworkRequests :: uint64

record execution =
  qn_Result :: query_result
  qn_EconomicEvent :: economic_event
  qn_Plan :: query_plan

section \<open>Matching a packet\<close>

definition contains :: "string list \<Rightarrow> string \<Rightarrow> bool" where
  "contains values target \<longleftrightarrow>
     (let index = sort_Search (length values) (\<lambda>i. values ! i \<ge> target)
      in index < length values \<and> values ! index = target)"

fun containsAny :: "string list \<Rightarrow> string list \<Rightarrow> bool" where
  "containsAny values [] \<longleftrightarrow> False"
| "containsAny values (candidate # rest) \<longleftrightarrow>
     candidate \<noteq> [] \<and> contains values candidate \<or> containsAny values rest"

definition matchTime :: "query_time \<Rightarrow> string \<Rightarrow> string \<Rightarrow> bool" where
  "matchTime t observedAt lifecycle \<longleftrightarrow>
     (if qt_Mode t = ''current'' then lifecycle = ''current'' \<or> lifecycle = ''stale''
      else if qt_Mode t = ''as_of'' then observedAt \<le> ot_Value (qt_Until t)
      else if qt_Mode t = ''between'' then
        observedAt \<ge> ot_Value (qt_From t) \<and> observedAt \<le> ot_Value (qt_Until t)
      else if qt_Mode t = ''history'' then
        (\<not> ot_Present (qt_From t) \<or> observedAt \<ge> ot_Value (qt_From t)) \<and>
        (\<not> ot_Present (qt_Until t) \<or> observedAt \<le> ot_Value (qt_Until t))
      else False)"

text \<open>
  \<open>time.Time.Sub\<close> saturates at the bounds of a 64-bit count of nanoseconds; both texts were
  checked to be canonical UTC seconds when their documents were read, so that \<open>time.Parse\<close> succeeds.
  The maximum age is converted to a 64-bit duration.
\<close>

definition duration_between :: "string \<Rightarrow> string \<Rightarrow> int" where
  "duration_between later earlier =
     max (- (2 ^ 63)) (min (2 ^ 63 - 1) ((utc_second_value later - utc_second_value earlier) * 1000000000))"

definition seconds_duration :: "uint64 \<Rightarrow> int" where
  "seconds_duration age = sint (age * 1000000000)"

definition packet_matches :: "query \<Rightarrow> packet \<Rightarrow> string \<Rightarrow> bool" where
  "packet_matches q p snapshotTime \<longleftrightarrow>
     (if \<not> containsAny (q_Select q) [pp_Native (pk_Predicate p), ot_Value (pp_Semantic (pk_Predicate p))] then False
      else if ot_Present (qs_Concept (q_Subject q)) \<and>
        \<not> contains (sj_CanonicalCandidates (pk_Subject p)) (ot_Value (qs_Concept (q_Subject q))) then False
      else if qs_IDs (q_Subject q) \<noteq> [] \<and>
        \<not> containsAny (qs_IDs (q_Subject q)) (sj_Native (pk_Subject p) # sj_CanonicalCandidates (pk_Subject p)) then False
      else if qr_AllowedOriginIDs (q_Sources q) \<noteq> [] \<and>
        \<not> contains (qr_AllowedOriginIDs (q_Sources q)) (sr_OriginID (pk_Source p)) then False
      else if qr_AllowedAuthorityClasses (q_Sources q) \<noteq> [] \<and>
        \<not> contains (qr_AllowedAuthorityClasses (q_Sources q)) (ep_AuthorityClass (pk_Epistemic p)) then False
      else if \<not> contains (qu_AllowedLanes (q_Trust q)) (ep_Lane (pk_Epistemic p)) \<or>
        \<not> contains (qu_AllowedMappingStatuses (q_Trust q)) (ep_MappingStatus (pk_Epistemic p)) then False
      else if \<not> matchTime (q_Time q) (tm_ObservedAt (pk_Time p)) (lc_State (pk_Lifecycle p)) then False
      else if ep_FreshnessStatus (pk_Epistemic p) = ''stale'' \<and> qf_StaleBehavior (q_Freshness q) = ''exclude'' then False
      else (case qf_MaximumAgeSeconds (q_Freshness q) of
          None \<Rightarrow> True
        | Some age \<Rightarrow> \<not> duration_between snapshotTime (tm_ObservedAt (pk_Time p)) > seconds_duration age))"

section \<open>Queries\<close>

definition unsupported_features :: "query \<Rightarrow> string list" where
  "unsupported_features q =
     (if qo_MaximumDepth (q_Ontology q) \<noteq> 0 \<or> qo_MaximumPathCostMillionths (q_Ontology q) \<noteq> 0
      then [''ontology_expansion''] else []) @
     (if q_Dimensions q \<noteq> [] then [''dimension_relations''] else []) @
     (if ot_Present (qe_MaximumPrice (q_Economics q)) \<or> qe_AllowedFundingClasses (q_Economics q) \<noteq> []
      then [''economic_filtering''] else []) @
     (if qp_Level (q_Proof q) \<noteq> ''packet'' then [''non_packet_proof_level''] else []) @
     (if q_Conflicts q \<noteq> ''preserve_sources'' then [''conflict_resolution''] else []) @
     (if q_Preference q \<noteq> ''highest_proof'' then [''preference_ranking''] else [])"

text \<open>The loop over the packets; the deadline is looked at before every 128th.\<close>

fun scan_packets :: "(nat \<Rightarrow> error option) \<Rightarrow> runtime \<Rightarrow> query \<Rightarrow> nat \<Rightarrow> uint64 \<Rightarrow> indexed_packet list \<Rightarrow>
    indexed_packet list \<Rightarrow> error + uint64 \<times> indexed_packet list" where
  "scan_packets expired r q index excluded matched [] = Inr (excluded, matched)"
| "scan_packets expired r q index excluded matched (p # ps) =
     (case if index mod 128 = 0 then expired index else None of
        Some e \<Rightarrow> Inl (Wrap ''snapshotruntime: query deadline'' e)
      | None \<Rightarrow>
          if \<not> rt_includeFixtures r \<and> ip_EvidenceClass p = ''test_fixture''
          then scan_packets expired r q (index + 1) (excluded + 1) matched ps
          else if packet_matches q (ip_Packet p) (sm_CreatedAt (rt_manifest r))
          then scan_packets expired r q (index + 1) excluded (matched @ [p]) ps
          else scan_packets expired r q (index + 1) excluded matched ps)"

definition row_of_packet :: "indexed_packet \<Rightarrow> result_row" where
  "row_of_packet candidate =
     (let p = ip_Packet candidate;
          predicate = (if ot_Present (pp_Semantic (pk_Predicate p)) then ot_Value (pp_Semantic (pk_Predicate p))
                       else pp_Native (pk_Predicate p))
      in \<lparr>rr_SubjectID = sj_Native (pk_Subject p), rr_PredicateID = predicate,
          rr_Status = ob_NativeStatus (pk_Object p), rr_NativeTerm = pp_Native (pk_Predicate p),
          rr_NativeLocator = sr_Locator (pk_Source p), rr_NativeLexical = ob_NativeLexical (pk_Object p),
          rr_SemanticTerm = pp_Semantic (pk_Predicate p), rr_Typed = ob_Typed (pk_Object p),
          rr_OriginID = sr_OriginID (pk_Source p), rr_PacketDigest = ip_Digest candidate,
          rr_ObservationDigest = dv_ObservationDigest (pk_Derivation p), rr_Lane = ep_Lane (pk_Epistemic p),
          rr_ObservedAt = tm_ObservedAt (pk_Time p)\<rparr>)"

definition packet_size :: "indexed_packet \<Rightarrow> uint64" where
  "packet_size p = word_of_nat (length (ip_Bytes p))"

record collection =
  cl_truncated :: bool
  cl_rows :: "result_row list"
  cl_proofs :: "digest_size_entry list"
  cl_proofBytes :: uint64
  cl_origins :: "string set"

definition collect_packet :: "indexed_packet \<Rightarrow> collection \<Rightarrow> collection" where
  "collect_packet p c =
     c\<lparr>cl_rows := cl_rows c @ [row_of_packet p],
       cl_proofs := cl_proofs c @ [\<lparr>de_Digest = ip_Digest p, de_Size = packet_size p\<rparr>],
       cl_proofBytes := cl_proofBytes c + packet_size p,
       cl_origins := insert (sr_OriginID (pk_Source (ip_Packet p))) (cl_origins c)\<rparr>"

fun collect_packets :: "uint64 \<Rightarrow> collection \<Rightarrow> indexed_packet list \<Rightarrow> collection" where
  "collect_packets limit c [] = c"
| "collect_packets limit c (p # ps) =
     (if cl_proofBytes c + packet_size p > limit then c\<lparr>cl_truncated := True\<rparr>
      else collect_packets limit (collect_packet p c) ps)"

definition sortRows :: "result_row list \<Rightarrow> result_row list" where
  "sortRows rows = sort_key (\<lambda>r. (rr_SubjectID r, rr_PredicateID r, rr_OriginID r, rr_ObservedAt r, rr_PacketDigest r)) rows"

definition bytes_or_nil :: "error + byte list \<Rightarrow> byte list" where
  "bytes_or_nil r = (case r of Inl _ \<Rightarrow> [] | Inr bs \<Rightarrow> bs)"

abbreviation no_text :: opt_text where "no_text \<equiv> \<lparr>ot_Present = False, ot_Value = []\<rparr>"
abbreviation no_digest :: opt_digest where "no_digest \<equiv> \<lparr>od_Present = False, od_Value = zero_digest\<rparr>"

definition not_measured :: economic_money where
  "not_measured = \<lparr>em_Currency = ''USD'', em_Amount = ''0'', em_Class = ''not_measured''\<rparr>"

definition query_event :: "runtime \<Rightarrow> byte list \<Rightarrow> uint64 \<Rightarrow> economic_event" where
  "query_event r queryDigest proofBytes =
     \<lparr>ee_Version = EconomicEventVersion, ee_EventID = ''query-'' @ hex_encode (take 8 queryDigest),
      ee_OccurredAt = sm_CreatedAt (rt_manifest r), ee_OriginID = no_text, ee_WorkType = ''snapshot_query'',
      ee_QueryDigest = \<lparr>od_Present = True, od_Value = queryDigest\<rparr>, ee_BatchID = no_digest,
      ee_Resources = \<lparr>er_Requests = 0, er_TransferredBytes = 0, er_CPUMilliseconds = 0, er_PeakMemoryBytes = 0,
        er_EvidenceBytesWritten = 0, er_ProofBytesReturned = proofBytes, er_HumanReviewSeconds = 0\<rparr>,
      ee_FundingClass = ''public_commons'', ee_SponsorID = no_text, ee_Cost = not_measured, ee_Revenue = not_measured,
      ee_MeasurementMethod = ''deterministic_snapshot_accounting''\<rparr>"

text \<open>The answer from the packets found: the limits, the rows, their order and the status.\<close>

definition answer_query ::
  "(query_plan \<Rightarrow> error + byte list) \<Rightarrow> runtime \<Rightarrow> query \<Rightarrow> uint64 \<Rightarrow> indexed_packet list \<Rightarrow> error + execution" where
  "answer_query encode r q excluded matched =
     (let queryDigest = sha256 (bytes_or_nil (MarshalQuery q));
          limits = q_Limits q;
          maximum = (if ql_MaximumPackets limits < ql_MaximumResults limits then ql_MaximumPackets limits
                     else ql_MaximumResults limits);
          manifestProof = \<lparr>de_Digest = rt_id r, de_Size = rt_manifestSize r\<rparr>;
          c = collect_packets (ql_MaximumProofBytes limits)
                \<lparr>cl_truncated = unat maximum < length matched, cl_rows = [], cl_proofs = [manifestProof],
                 cl_proofBytes = rt_manifestSize r, cl_origins = {}\<rparr> (take (unat maximum) matched);
          plan = \<lparr>pl_Mode = ''materialized_snapshot'', pl_SnapshotID = sa_DigestReference (rt_id r),
                  pl_QueryDigest = sa_DigestReference queryDigest,
                  pl_ScannedPackets = word_of_nat (length (rt_packets r)),
                  pl_MatchedPackets = word_of_nat (length matched),
                  pl_ReturnedPackets = word_of_nat (length (cl_rows c)), pl_ExcludedFixtures = excluded,
                  pl_Truncated = cl_truncated c, pl_Unsupported = [], pl_NetworkRequests = 0\<rparr>;
          unresolved = (cl_rows c = [] \<or>
                        word_of_nat (card (cl_origins c)) < qr_MinimumDistinctOrigins (q_Sources q));
          rows = (if unresolved then [] else sortRows (cl_rows c));
          proofs = (if unresolved then [manifestProof] else sort_key de_Digest (cl_proofs c));
          status = (if unresolved then ''unresolved'' else if cl_truncated c then ''partial'' else ''resolved'');
          planDigest = sha256 (bytes_or_nil (sa_Marshal encode plan));
          economic = query_event r queryDigest (cl_proofBytes c)
      in case MarshalEconomicEvent economic of
          Inl e \<Rightarrow> Inl e
        | Inr economicBytes \<Rightarrow>
            let result = \<lparr>qz_Version = QueryResultVersion, qz_QueryDigest = queryDigest, qz_PlanDigest = planDigest,
                  qz_Preference = q_Preference q, qz_SnapshotSequence = sm_HighestPacketSequence (rt_manifest r),
                  qz_Status = status, qz_Rows = rows, qz_Conflicts = [], qz_ProofArtifacts = proofs,
                  qz_EconomicEventDigest = sha256 economicBytes, qz_GeneratedAt = sm_CreatedAt (rt_manifest r)\<rparr>
            in case MarshalQueryResult result of
                Inl e \<Rightarrow> Inl e
              | Inr _ \<Rightarrow> Inr \<lparr>qn_Result = result, qn_EconomicEvent = economic, qn_Plan = plan\<rparr>)"

definition live_query :: "query \<Rightarrow> bool" where
  "live_query q \<longleftrightarrow> qx_AllowLiveRefresh (q_Execution q) \<or> qx_MaximumLiveOrigins (q_Execution q) \<noteq> 0 \<or>
     \<not> qx_AllowMaterializedState (q_Execution q)"

definition QueryContext ::
  "(query_plan \<Rightarrow> error + byte list) \<Rightarrow> (nat \<Rightarrow> error option) \<Rightarrow> runtime \<Rightarrow> query \<Rightarrow> error + execution" where
  "QueryContext encode expired r q =
     (case Query_Validate q of
        Some e \<Rightarrow> Inl e
      | None \<Rightarrow>
          if live_query q then Inl (Wrap ''live refresh'' ErrUnsupportedQuery)
          else if unsupported_features q \<noteq> [] then Inl (Wrap (strings_Join (unsupported_features q) '','') ErrUnsupportedQuery)
          else case scan_packets expired r q 0 0 [] (rt_packets r) of
              Inl e \<Rightarrow> Inl e
            | Inr (excluded, matched) \<Rightarrow> answer_query encode r q excluded matched)"

section \<open>Reading the snapshot\<close>

text \<open>\<open>uint64(info.Size())\<close> is the length of the file.\<close>

definition rt_readArtifact :: "runtime \<Rightarrow> snapshot_artifact \<Rightarrow> byte list io" where
  "rt_readArtifact r a = (\<lambda>s.
     let path = filepath_Join [rt_directory r, sa_Path a] in
     case os_Lstat path s of
       (Inr (Regular bs), s1) \<Rightarrow>
         if (word_of_nat (length bs) :: uint64) \<noteq> sa_Size a
         then (Inl (Wrap ''artifact changed after verification'' ErrInvalidSnapshot), s1)
         else (case os_ReadFile path s1 of
             (Inr content, s2) \<Rightarrow>
               if sha256 content \<noteq> sa_Digest a then (Inl (Wrap ''artifact digest changed'' ErrInvalidSnapshot), s2)
               else (Inr content, s2)
           | (Inl _, s2) \<Rightarrow> (Inl (Wrap ''artifact digest changed'' ErrInvalidSnapshot), s2))
     | (_, s1) \<Rightarrow> (Inl (Wrap ''artifact changed after verification'' ErrInvalidSnapshot), s1))"

fun find_artifact :: "string \<Rightarrow> snapshot_artifact list \<Rightarrow> snapshot_artifact option" where
  "find_artifact path [] = None"
| "find_artifact path (a # as) = (if sa_Path a = path then Some a else find_artifact path as)"

definition rt_findArtifact :: "runtime \<Rightarrow> string \<Rightarrow> snapshot_artifact option" where
  "rt_findArtifact r path = find_artifact path (sm_Artifacts (rt_manifest r))"

fun findArtifactDigest :: "snapshot_artifact list \<Rightarrow> byte list \<Rightarrow> snapshot_artifact option" where
  "findArtifactDigest [] digest = None"
| "findArtifactDigest (a # as) digest = (if sa_Digest a = digest then Some a else findArtifactDigest as digest)"

definition hidden :: "runtime \<Rightarrow> indexed_packet option \<Rightarrow> bool" where
  "hidden r packet \<longleftrightarrow> (case packet of
     None \<Rightarrow> True
   | Some p \<Rightarrow> \<not> rt_includeFixtures r \<and> ip_EvidenceClass p = ''test_fixture'')"

record trace =
  tr_PacketDigest :: string
  tr_Sequence :: uint64
  tr_EvidenceClass :: string
  tr_Packet :: packet
  tr_Proof :: "proof_entry option"

text \<open>A lookup in \<open>proofs\<close> of a missing digest is the zero value in Go, here \<open>None\<close>.\<close>

definition rt_Trace :: "runtime \<Rightarrow> string \<Rightarrow> error + trace" where
  "rt_Trace r reference =
     ebind (sa_ParseDigest reference) (\<lambda>digest.
       case rt_byDigest r digest of
         None \<Rightarrow> Inl ErrNotExist
       | Some p \<Rightarrow>
           if hidden r (Some p) then Inl ErrNotExist
           else Inr \<lparr>tr_PacketDigest = reference, tr_Sequence = ip_Sequence p, tr_EvidenceClass = ip_EvidenceClass p,
                     tr_Packet = ip_Packet p, tr_Proof = rt_proofs r digest\<rparr>)"

definition rt_PacketCBOR :: "runtime \<Rightarrow> string \<Rightarrow> error + byte list" where
  "rt_PacketCBOR r reference =
     ebind (sa_ParseDigest reference) (\<lambda>digest.
       case rt_byDigest r digest of
         None \<Rightarrow> Inl ErrNotExist
       | Some p \<Rightarrow> if hidden r (Some p) then Inl ErrNotExist else Inr (ip_Bytes p))"

definition rt_DeltaCBOR :: "runtime \<Rightarrow> string \<Rightarrow> error + byte list" where
  "rt_DeltaCBOR r reference =
     ebind (sa_ParseDigest reference) (\<lambda>digest.
       case rt_byDeltaDigest r digest of None \<Rightarrow> Inl ErrNotExist | Some d \<Rightarrow> Inr (id_Bytes d))"

definition rt_ManifestCBOR :: "runtime \<Rightarrow> byte list io" where
  "rt_ManifestCBOR r = (\<lambda>s.
     let path = filepath_Join [rt_directory r, ''manifest.cbor''] in
     case os_Lstat path s of
       (Inr (Regular bs), s1) \<Rightarrow>
         if (word_of_nat (length bs) :: uint64) \<noteq> rt_manifestSize r
         then (Inl (Wrap ''manifest changed after admission'' ErrInvalidSnapshot), s1)
         else (case os_ReadFile path s1 of
             (Inr content, s2) \<Rightarrow>
               if sha256 content \<noteq> rt_id r
               then (Inl (Wrap ''manifest identity changed after admission'' ErrInvalidSnapshot), s2)
               else (Inr content, s2)
           | (Inl _, s2) \<Rightarrow> (Inl (Wrap ''manifest identity changed after admission'' ErrInvalidSnapshot), s2))
     | (_, s1) \<Rightarrow> (Inl (Wrap ''manifest changed after admission'' ErrInvalidSnapshot), s1))"

fun find_proof_artifact :: "string \<Rightarrow> proof_artifact list \<Rightarrow> proof_artifact option" where
  "find_proof_artifact name [] = None"
| "find_proof_artifact name (a # as) = (if pa_Name a \<noteq> name then find_proof_artifact name as else Some a)"

definition rt_ProofArtifact :: "runtime \<Rightarrow> string \<Rightarrow> string \<Rightarrow> (byte list \<times> string) io" where
  "rt_ProofArtifact r reference name =
     (case sa_ParseDigest reference of
        Inl e \<Rightarrow> io_err e
      | Inr digest \<Rightarrow>
          if hidden r (rt_byDigest r digest) then io_err ErrNotExist
          else case rt_proofs r digest of
              None \<Rightarrow> io_err ErrNotExist
            | Some proof \<Rightarrow>
                (case find_proof_artifact name (pe_Artifacts proof) of
                   None \<Rightarrow> io_err ErrNotExist
                 | Some candidate \<Rightarrow>
                     (case rt_findArtifact r (pa_Path candidate) of
                        None \<Rightarrow> io_err (Wrap ''admitted proof artifact disappeared'' ErrInvalidSnapshot)
                      | Some artifact \<Rightarrow>
                          io_bind (rt_readArtifact r artifact) (\<lambda>content. io_ret (content, sa_MediaType artifact)))))"

section \<open>Pages and descriptions\<close>

text \<open>
  The bounds of a page are \<open>int\<close> values, whose sum wraps; a slice whose end is before its start is a
  panic, here \<open>None\<close>.
\<close>

definition page_of :: "'a list \<Rightarrow> int \<Rightarrow> int \<Rightarrow> ('a list \<times> nat) option" where
  "page_of values offset limit =
     (let n = int (length values);
          offset = (if offset < 0 then 0 else offset);
          offset = (if offset > n then n else offset);
          limit = (if limit < 0 then 0 else limit);
          end_at = sint (word_of_int (offset + limit) :: 64 word);
          end_at = (if end_at > n then n else end_at)
      in if end_at < offset then None
         else Some (take (nat (end_at - offset)) (drop (nat offset) values), length values))"

definition ConceptPage :: "runtime \<Rightarrow> int \<Rightarrow> int \<Rightarrow> (string list \<times> nat) option" where
  "ConceptPage r offset limit = page_of (rt_concepts r) offset limit"

definition OriginPage :: "runtime \<Rightarrow> int \<Rightarrow> int \<Rightarrow> (origin_description list \<times> nat) option" where
  "OriginPage r offset limit = page_of (rt_origins r) offset limit"

definition DescribeOrigin :: "runtime \<Rightarrow> string \<Rightarrow> origin_description option" where
  "DescribeOrigin r i = rt_originByID r i"

record view_description =
  vd_ID :: string
  vd_Definition :: string
  vd_ThroughSequence :: uint64
  vd_PublicOnly :: bool
  vd_EvidenceClasses :: "string list"
  vd_RowCount :: uint64

definition DescribeViews :: "runtime \<Rightarrow> view_description list" where
  "DescribeViews r = map (\<lambda>v. \<lparr>vd_ID = vw_ID v, vd_Definition = vw_Definition v,
     vd_ThroughSequence = vw_ThroughSequence v, vd_PublicOnly = vw_PublicOnly v,
     vd_EvidenceClasses = vw_EvidenceClasses v, vd_RowCount = word_of_nat (length (vw_Rows v))\<rparr>) (rt_views r)"

record delta_description =
  dd_Sequence :: uint64
  dd_Digest :: string
  dd_Class :: string
  dd_Kind :: string
  dd_SemanticKeyDigest :: string
  dd_BeforePacketDigest :: string
  dd_AfterPacketDigest :: string
  dd_BeforeSourceEvidenceDigest :: string
  dd_AfterSourceEvidenceDigest :: string
  dd_OriginID :: string
  dd_OccurredAt :: string
  dd_BatchID :: string
  dd_CanonVersion :: string
  dd_ReasonCode :: string

definition optionalDigestReference :: "opt_digest \<Rightarrow> string" where
  "optionalDigestReference v = (if \<not> od_Present v then [] else sa_DigestReference (od_Value v))"

definition describe_delta :: "indexed_delta \<Rightarrow> delta_description" where
  "describe_delta d = (let v = id_Delta d in
     \<lparr>dd_Sequence = id_Sequence d, dd_Digest = sa_DigestReference (id_Digest d), dd_Class = dl_Class v,
      dd_Kind = dl_Kind v, dd_SemanticKeyDigest = sa_DigestReference (dl_SemanticKeyDigest v),
      dd_BeforePacketDigest = optionalDigestReference (dl_BeforePacketDigest v),
      dd_AfterPacketDigest = optionalDigestReference (dl_AfterPacketDigest v),
      dd_BeforeSourceEvidenceDigest = optionalDigestReference (dl_BeforeSourceEvidenceDigest v),
      dd_AfterSourceEvidenceDigest = optionalDigestReference (dl_AfterSourceEvidenceDigest v),
      dd_OriginID = dl_OriginID v, dd_OccurredAt = dl_OccurredAt v, dd_BatchID = sa_DigestReference (dl_BatchID v),
      dd_CanonVersion = dl_CanonVersion v, dd_ReasonCode = dl_ReasonCode v\<rparr>)"

definition DeltaPage :: "runtime \<Rightarrow> int \<Rightarrow> int \<Rightarrow> (delta_description list \<times> nat) option" where
  "DeltaPage r offset limit = map_option (map_prod (map describe_delta) id) (page_of (rt_deltas r) offset limit)"

record description =
  ds_SnapshotID :: string
  ds_Channel :: string
  ds_CreatedAt :: string
  ds_SourceRevision :: string
  ds_Counts :: snapshot_counts
  ds_EvidenceClasses :: "string list"
  ds_Actual :: actual_counts
  ds_Target :: target_counts
  ds_Limitations :: "string list"
  ds_Execution :: string

definition rt_Describe :: "runtime \<Rightarrow> description" where
  "rt_Describe r =
     \<lparr>ds_SnapshotID = sa_DigestReference (rt_id r), ds_Channel = sm_Channel (rt_manifest r),
      ds_CreatedAt = sm_CreatedAt (rt_manifest r), ds_SourceRevision = sm_SourceRevision (rt_manifest r),
      ds_Counts = sm_Counts (rt_manifest r), ds_EvidenceClasses = sm_EvidenceClasses (rt_manifest r),
      ds_Actual = br_Actual (rt_report r), ds_Target = br_FundingDemoTarget (rt_report r),
      ds_Limitations = br_Limitations (rt_report r), ds_Execution = ''immutable_materialized_snapshot_only''\<rparr>"

end
