(* ===== verification/Go_Time_Order.thy ===== *)
theory Go_Time_Order
  imports Go_Civil
begin

text \<open>
  The order of canonical UTC seconds: comparing the texts as Go compares strings is comparing the
  instants.
\<close>

lemma less_append:
  fixes u v u' v' :: "'a::linorder list"
  shows "length u = length u' \<Longrightarrow> u @ v < u' @ v' \<longleftrightarrow> u < u' \<or> u = u' \<and> v < v'"
  by (induction u u' rule: list_induct2) auto

lemma digit_char_less: "a < 10 \<Longrightarrow> b < 10 \<Longrightarrow> digit_char a < digit_char b \<longleftrightarrow> a < b"
proof -
  have v: "a < 10 \<Longrightarrow> (of_char (digit_char a) :: nat) = 48 + a" for a
    by (auto simp: digit_char_def numeral_eq_Suc less_Suc_eq)
  assume "a < 10" "b < 10"
  then show ?thesis unfolding less_char_def by (simp add: v)
qed

lemma dec_pad_less:
  "m < 10 ^ w \<Longrightarrow> n < 10 ^ w \<Longrightarrow> (dec_pad w m < dec_pad w n \<longleftrightarrow> m < n) \<and> (dec_pad w m = dec_pad w n \<longleftrightarrow> m = n)"
proof (induction w arbitrary: m n)
  case (Suc w)
  define a b c d where defs: "a = m div 10 ^ w" "b = m mod 10 ^ w" "c = n div 10 ^ w" "d = n mod 10 ^ w"
  have ab: "m = b + a * 10 ^ w" "n = d + c * 10 ^ w" by (simp_all add: defs mod_div_mult_eq)
  have lt: "a < 10" "c < 10" "b < 10 ^ w" "d < 10 ^ w"
    using Suc.prems by (simp_all add: defs less_mult_imp_div_less)
  have e: "dec_pad (Suc w) m = digit_char a # dec_pad w b" "dec_pad (Suc w) n = digit_char c # dec_pad w d"
    using lt dec_pad_add [of w b a] dec_pad_add [of w d c] by (simp_all add: ab)
  have dc: "digit_char a = digit_char c \<longleftrightarrow> a = c" using lt digit_char_less by (metis nat_neq_iff less_irrefl)
  have step: "b + a * 10 ^ w < d + c * 10 ^ w" if "b < 10 ^ w" "a < c" for a b c d :: nat
  proof -
    have "b + a * 10 ^ w < (a + 1) * 10 ^ w" using that by simp
    also have "\<dots> \<le> c * 10 ^ w" using that by (intro mult_le_mono1) simp
    finally show ?thesis by simp
  qed
  have "m < n \<longleftrightarrow> a < c \<or> a = c \<and> b < d"
  proof (cases a c rule: linorder_cases)
    case less
    then show ?thesis using step [OF lt(3) less, of d] by (simp add: ab)
  next
    case equal
    then show ?thesis by (simp add: ab)
  next
    case greater
    then show ?thesis using step [OF lt(4) greater, of b] by (simp add: ab)
  qed
  moreover have "m = n \<longleftrightarrow> a = c \<and> b = d" by (metis ab defs)
  ultimately show ?case
    unfolding e Cons_less_Cons list.inject digit_char_less [OF lt(1,2)] dc
    using Suc.IH [OF lt(3,4)] by blast
qed simp

definition time_key :: "string \<Rightarrow> nat list" where
  "time_key s = [text_year s, text_month s, text_day s, text_hour s, text_minute s, text_second s]"

lemma canonical_key_less:
  assumes "canonical_utc_second s" "canonical_utc_second t"
  shows "s < t \<longleftrightarrow> time_key s < time_key t"
proof -
  have b: "text_year u < 10 ^ 4" "text_month u < 10 ^ 2" "text_day u < 10 ^ 2" "text_hour u < 10 ^ 2"
    "text_minute u < 10 ^ 2" "text_second u < 10 ^ 2" if "canonical_utc_second u" for u
  proof -
    note f = canonical_fields [OF that]
    have "all_digits (sub_text 0 4 u)" "length u = 20"
      using that by (auto simp: canonical_utc_second_def canonical_date_def sub_sub_text)
    then show "text_year u < 10 ^ 4" using decimal_value_less [of "sub_text 0 4 u"] by (simp add: text_year_def length_sub_text)
    have "days_in (text_year u) (text_month u) \<le> 31" by (simp add: days_in_def)
    with f show "text_month u < 10 ^ 2" "text_day u < 10 ^ 2" "text_hour u < 10 ^ 2" "text_minute u < 10 ^ 2"
      "text_second u < 10 ^ 2" by simp_all
  qed
  note bs = b [OF assms(1)] and bt = b [OF assms(2)]
  show ?thesis
    by (subst canonical_text [OF assms(1)], subst canonical_text [OF assms(2)])
      (simp only: less_append length_dec_pad list.size dec_pad_less [OF bs(1) bt(1)] dec_pad_less [OF bs(2) bt(2)]
        dec_pad_less [OF bs(3) bt(3)] dec_pad_less [OF bs(4) bt(4)] dec_pad_less [OF bs(5) bt(5)]
        dec_pad_less [OF bs(6) bt(6)] time_key_def Cons_less_Cons less_irrefl, auto)
qed

lemma months_mono: "m < m' \<Longrightarrow> d < days_in y m \<Longrightarrow> 1 \<le> m \<Longrightarrow>
   sum_list (map (days_in y) [1..<m]) + d < sum_list (map (days_in y) [1..<m'])"
proof (induction m')
  case (Suc m')
  then show ?case by (cases "m = m'") auto
qed simp

lemma day_number_mono:
  assumes "1 \<le> m" "m \<le> 12" "1 \<le> d" "d \<le> days_in y m" "1 \<le> m'" "1 \<le> d'"
    and "[y, m, d] < [y', m', d']"
  shows "day_number y m d < day_number y' m' d'"
proof -
  let ?in = "sum_list (map (days_in y) [1..<m]) + (d - 1)"
  have n: "day_number y m d = days_before_year y + ?in" by (simp add: day_number_def days_before_year_def)
  have n': "day_number y' m' d' = days_before_year y' + (sum_list (map (days_in y') [1..<m']) + (d' - 1))"
    by (simp add: day_number_def days_before_year_def)
  from assms(7) consider "y < y'" | "y = y'" "m < m'" | "y = y'" "m = m'" "d < d'" by auto
  then show ?thesis
  proof cases
    case 1
    have "day_number y m d < days_before_year (Suc y)"
      using month_day_bound [OF assms(1-4)] by (simp add: n days_before_Suc)
    also have "\<dots> \<le> days_before_year y'" using 1 by (intro days_before_mono) simp
    finally show ?thesis by (simp add: n')
  next
    case 2
    have "d - 1 < days_in y m" using assms(3,4) by linarith
    from months_mono [OF 2(2) this assms(1)] show ?thesis using n n' 2(1) by simp
  next
    case 3
    have "d - 1 < d' - 1" using 3(3) assms(3) by linarith
    then show ?thesis using n n' 3(1,2) assms(6) by simp
  qed
qed

lemma utc_second_value_key:
  "utc_second_value s = int (((day_number (text_year s) (text_month s) (text_day s) * 24 + text_hour s) * 60 +
     text_minute s) * 60 + text_second s)"
  by (simp add: utc_second_value_def text_fields Let_def)

lemma utc_second_value_mono:
  assumes "canonical_utc_second s" "canonical_utc_second t" "s < t"
  shows "utc_second_value s < utc_second_value t"
proof -
  note fs = canonical_fields [OF assms(1)] and ft = canonical_fields [OF assms(2)]
  define a b where "a = day_number (text_year s) (text_month s) (text_day s)"
    and "b = day_number (text_year t) (text_month t) (text_day t)"
  have "time_key s < time_key t" using canonical_key_less assms by blast
  then consider "a < b"
    | "a = b" "[text_hour s, text_minute s, text_second s] < [text_hour t, text_minute t, text_second t]"
    using day_number_mono [OF fs(1-4) ft(1,3), of "text_year t"] unfolding time_key_def a_def b_def
    by (auto split: if_splits)
  then have "((a * 24 + text_hour s) * 60 + text_minute s) * 60 + text_second s
      < ((b * 24 + text_hour t) * 60 + text_minute t) * 60 + text_second t"
    by cases (use fs ft in auto)
  then show ?thesis by (simp add: utc_second_value_key a_def b_def)
qed

text \<open>The comparison of the texts is that of the instants.\<close>

lemma utc_second_order:
  assumes "canonical_utc_second s" "canonical_utc_second t"
  shows "s \<le> t \<longleftrightarrow> utc_second_value s \<le> utc_second_value t"
  using utc_second_value_mono [OF assms] utc_second_value_mono [OF assms(2,1)]
  by (cases s t rule: linorder_cases) auto

end
