(* ===== verification/Snapshot_Answers.thy ===== *)
theory Snapshot_Answers
  imports Snapshot_Runtime Go_Time_Order
begin

text \<open>
  What the queries of \<open>Snapshot_Runtime\<close> answer: the packets that match, the limits, and the answers as
  documents that their own validator accepts.
\<close>

section \<open>Matching\<close>

lemma contains_iff: "sorted vs \<Longrightarrow> contains vs t \<longleftrightarrow> t \<in> set vs"
  using sort_Search_sorted [of vs t] by (simp add: contains_def Let_def)

lemma containsAny_iff: "sorted vs \<Longrightarrow> containsAny vs cs \<longleftrightarrow> (\<exists>c \<in> set cs. c \<noteq> [] \<and> c \<in> set vs)"
  by (induction cs) (auto simp: contains_iff)

text \<open>The window of a query in instants.\<close>

definition in_window :: "query_time \<Rightarrow> string \<Rightarrow> string \<Rightarrow> bool" where
  "in_window t observedAt lifecycle \<longleftrightarrow>
     (qt_Mode t = ''current'' \<longrightarrow> lifecycle \<in> {''current'', ''stale''}) \<and>
     (ot_Present (qt_From t) \<longrightarrow> utc_second_value (ot_Value (qt_From t)) \<le> utc_second_value observedAt) \<and>
     (ot_Present (qt_Until t) \<longrightarrow> utc_second_value observedAt \<le> utc_second_value (ot_Value (qt_Until t)))"

text \<open>The packets a query asks for, with sets and instants.\<close>

definition asked_for :: "query \<Rightarrow> string \<Rightarrow> packet \<Rightarrow> bool" where
  "asked_for q snapshotTime p \<longleftrightarrow>
     (pp_Native (pk_Predicate p) \<in> set (q_Select q) \<or> ot_Value (pp_Semantic (pk_Predicate p)) \<in> set (q_Select q)) \<and>
     (ot_Present (qs_Concept (q_Subject q)) \<longrightarrow>
        ot_Value (qs_Concept (q_Subject q)) \<in> set (sj_CanonicalCandidates (pk_Subject p))) \<and>
     (qs_IDs (q_Subject q) \<noteq> [] \<longrightarrow>
        set (sj_Native (pk_Subject p) # sj_CanonicalCandidates (pk_Subject p)) \<inter> set (qs_IDs (q_Subject q)) \<noteq> {}) \<and>
     (qr_AllowedOriginIDs (q_Sources q) \<noteq> [] \<longrightarrow> sr_OriginID (pk_Source p) \<in> set (qr_AllowedOriginIDs (q_Sources q))) \<and>
     (qr_AllowedAuthorityClasses (q_Sources q) \<noteq> [] \<longrightarrow>
        ep_AuthorityClass (pk_Epistemic p) \<in> set (qr_AllowedAuthorityClasses (q_Sources q))) \<and>
     ep_Lane (pk_Epistemic p) \<in> set (qu_AllowedLanes (q_Trust q)) \<and>
     ep_MappingStatus (pk_Epistemic p) \<in> set (qu_AllowedMappingStatuses (q_Trust q)) \<and>
     in_window (q_Time q) (tm_ObservedAt (pk_Time p)) (lc_State (pk_Lifecycle p)) \<and>
     (ep_FreshnessStatus (pk_Epistemic p) = ''stale'' \<longrightarrow> qf_StaleBehavior (q_Freshness q) \<noteq> ''exclude'') \<and>
     (\<forall>age. qf_MaximumAgeSeconds (q_Freshness q) = Some age \<longrightarrow>
        utc_second_value snapshotTime - utc_second_value (tm_ObservedAt (pk_Time p)) \<le> int (unat age))"

lemma matchTime_iff:
  assumes "validate_query_time t = None" "canonical_utc_second observedAt"
  shows "matchTime t observedAt lifecycle \<longleftrightarrow> in_window t observedAt lifecycle"
proof -
  have v: "qt_Mode t \<in> {''current'', ''as_of'', ''between'', ''history''}"
    "ot_Present (qt_From t) \<Longrightarrow> canonical_utc_second (ot_Value (qt_From t))"
    "ot_Present (qt_Until t) \<Longrightarrow> canonical_utc_second (ot_Value (qt_Until t))"
    "qt_Mode t = ''current'' \<Longrightarrow> \<not> ot_Present (qt_From t) \<and> \<not> ot_Present (qt_Until t)"
    "qt_Mode t = ''as_of'' \<Longrightarrow> \<not> ot_Present (qt_From t) \<and> ot_Present (qt_Until t)"
    "qt_Mode t = ''between'' \<Longrightarrow> ot_Present (qt_From t) \<and> ot_Present (qt_Until t)"
    using assms(1) unfolding validate_query_time_def first_err_None
    by (auto simp: accept_simps validateOptionalUTCSecond_def split: if_splits)
  note order = utc_second_order [OF v(2) assms(2)] utc_second_order [OF assms(2) v(3)]
  from v(1) show ?thesis
    by (elim insertE emptyE) (use v order in \<open>auto simp: matchTime_def in_window_def\<close>)
qed

lemma age_bound: "n \<le> 315576000 \<Longrightarrow> - (2 ^ 63) \<le> int n * 1000000000 \<and> int n * 1000000000 < 2 ^ 63"
  by simp

lemma age_iff:
  assumes "age \<le> 315576000"
  shows "duration_between later earlier \<le> seconds_duration age \<longleftrightarrow>
    utc_second_value later - utc_second_value earlier \<le> int (unat age)"
proof -
  have n: "unat age \<le> 315576000" using assms by (simp add: word_le_nat_alt)
  then have u: "unat (age * 1000000000) = unat age * 1000000000" by (simp add: unat_word_ariths)
  have "age * 1000000000 = word_of_int (int (unat age) * 1000000000)" by (simp add: word_uint_eq_iff uint_word_of_int)
  then have "sint (age * 1000000000) = int (unat age) * 1000000000"
    using n by (metis age_bound sint_word_of_int_small)
  then have "seconds_duration age = int (unat age) * 1000000000" by (simp add: seconds_duration_def u)
  moreover have "max (- (2 ^ 63)) (min (2 ^ 63 - 1) (d * 1000000000)) \<le> int n * 1000000000 \<longleftrightarrow> d \<le> int n"
    if "n \<le> 315576000" for n :: nat and d using that by (auto simp: min_def max_def)
  ultimately show ?thesis using n unfolding duration_between_def by metis
qed

text \<open>
  C25: which packets a query selects. For a valid query and a valid packet, the binary searches in
  the sorted lists of the documents, the comparisons of time stamps as texts and the 64-bit
  durations decide what the query says with sets, instants and unbounded seconds.
\<close>

theorem packet_matches_iff:
  assumes q: "Query_Validate q = None" and p: "Packet_Validate p = None"
  shows "packet_matches q p snapshotTime \<longleftrightarrow> asked_for q snapshotTime p"
proof -
  note v = q [unfolded Query_Validate_def first_err_None]
  have s: "sorted (q_Select q)" "\<forall>v \<in> set (q_Select q). v \<noteq> []" "sorted (qs_IDs (q_Subject q))" "\<forall>v \<in> set (qs_IDs (q_Subject q)). v \<noteq> []"
    using v by (auto simp: validate_query_subject_def accept_simps strictly_sorted_iff)
  have r: "sorted (qr_AllowedOriginIDs (q_Sources q))" "sorted (qr_AllowedAuthorityClasses (q_Sources q))"
    using v by (auto simp: validate_query_sources_def accept_simps strictly_sorted_iff)
  have u: "sorted (qu_AllowedLanes (q_Trust q))" "sorted (qu_AllowedMappingStatuses (q_Trust q))"
    using v by (auto simp: validate_query_trust_def accept_simps strictly_sorted_iff)
  have age: "age \<le> 315576000" if "qf_MaximumAgeSeconds (q_Freshness q) = Some age" for age
    using v that by (auto simp: validate_query_freshness_def accept_simps not_less)
  have c: "sorted (sj_CanonicalCandidates (pk_Subject p))" and o: "canonical_utc_second (tm_ObservedAt (pk_Time p))"
    using p by (auto simp: Packet_Validate_def validate_subject_def validate_time_def accept_simps strictly_sorted_iff)
  have t: "validate_query_time (q_Time q) = None" using v by blast
  have m: "(case qf_MaximumAgeSeconds (q_Freshness q) of None \<Rightarrow> True
      | Some age \<Rightarrow> \<not> duration_between snapshotTime (tm_ObservedAt (pk_Time p)) > seconds_duration age) \<longleftrightarrow>
      (\<forall>age. qf_MaximumAgeSeconds (q_Freshness q) = Some age \<longrightarrow>
        utc_second_value snapshotTime - utc_second_value (tm_ObservedAt (pk_Time p)) \<le> int (unat age))"
    using age_iff [OF age] by (auto simp: not_less split: option.splits)
  have sel: "containsAny (q_Select q) [a, b] \<longleftrightarrow> a \<in> set (q_Select q) \<or> b \<in> set (q_Select q)" for a b
    unfolding containsAny_iff [OF s(1)] using s(2) by auto
  have ids: "containsAny (qs_IDs (q_Subject q)) xs \<longleftrightarrow> set xs \<inter> set (qs_IDs (q_Subject q)) \<noteq> {}" for xs
    unfolding containsAny_iff [OF s(3)] using s(4) by auto
  show ?thesis
    unfolding packet_matches_def asked_for_def sel ids m matchTime_iff [OF t o]
      contains_iff [OF c] contains_iff [OF r(1)] contains_iff [OF r(2)] contains_iff [OF u(1)] contains_iff [OF u(2)]
    by (simp only: if_bool_eq_conj if_False if_True) blast
qed


section \<open>The packets of an answer\<close>

definition visible :: "runtime \<Rightarrow> indexed_packet \<Rightarrow> bool" where
  "visible r p \<longleftrightarrow> rt_includeFixtures r \<or> ip_EvidenceClass p \<noteq> ''test_fixture''"

definition found :: "runtime \<Rightarrow> query \<Rightarrow> indexed_packet list" where
  "found r q = filter (\<lambda>p. visible r p \<and> packet_matches q (ip_Packet p) (sm_CreatedAt (rt_manifest r))) (rt_packets r)"

lemma scan_packets_Inr:
  "scan_packets expired r q i ex m ps = Inr x \<Longrightarrow>
     x = (ex + of_nat (length (filter (\<lambda>p. \<not> visible r p) ps)),
       m @ filter (\<lambda>p. visible r p \<and> packet_matches q (ip_Packet p) (sm_CreatedAt (rt_manifest r))) ps)"
  by (induction expired r q i ex m ps rule: scan_packets.induct)
    (auto simp: visible_def split: option.splits if_splits)

lemma scan_packets_done:
  "(\<And>k. i \<le> k \<Longrightarrow> k < i + length ps \<Longrightarrow> 128 dvd k \<Longrightarrow> expired k = None) \<Longrightarrow> isOK (scan_packets expired r q i ex m ps)"
  by (induction expired r q i ex m ps rule: scan_packets.induct) (auto simp: mod_eq_0_iff_dvd split: option.splits)

lemma scan_packets_found:
  assumes "\<And>k. k < length (rt_packets r) \<Longrightarrow> 128 dvd k \<Longrightarrow> expired k = None"
  shows "scan_packets expired r q 0 0 [] (rt_packets r) =
    Inr (of_nat (length (filter (\<lambda>p. \<not> visible r p) (rt_packets r))), found r q)"
proof -
  have "isOK (scan_packets expired r q 0 0 [] (rt_packets r))" by (rule scan_packets_done) (use assms in simp)
  then show ?thesis using scan_packets_Inr [of expired r q 0 0 "[]" "rt_packets r"]
    by (cases "scan_packets expired r q 0 0 [] (rt_packets r)") (auto simp: found_def)
qed

text \<open>The longest prefix of a list of packets whose octets fit a limit together with those already used.\<close>

fun affordable :: "nat \<Rightarrow> nat \<Rightarrow> indexed_packet list \<Rightarrow> indexed_packet list" where
  "affordable limit used [] = []"
| "affordable limit used (p # ps) =
     (if used + length (ip_Bytes p) > limit then [] else p # affordable limit (used + length (ip_Bytes p)) ps)"

lemma affordable_prefix: "\<exists>rest. ps = affordable limit used ps @ rest"
  by (induction limit used ps rule: affordable.induct) auto

lemma affordable_bound: "affordable limit used ps \<noteq> [] \<Longrightarrow>
   used + sum_list (map (\<lambda>p. length (ip_Bytes p)) (affordable limit used ps)) \<le> limit"
proof (induction limit used ps rule: affordable.induct)
  case (2 limit used p ps)
  then show ?case by (cases "affordable limit (used + length (ip_Bytes p)) ps = []") (auto split: if_splits)
qed simp

definition collected :: "indexed_packet list \<Rightarrow> collection \<Rightarrow> collection" where
  "collected ps c =
     c\<lparr>cl_rows := cl_rows c @ map row_of_packet ps,
       cl_proofs := cl_proofs c @ map (\<lambda>p. \<lparr>de_Digest = ip_Digest p, de_Size = packet_size p\<rparr>) ps,
       cl_proofBytes := cl_proofBytes c + sum_list (map packet_size ps),
       cl_origins := (\<lambda>p. sr_OriginID (pk_Source (ip_Packet p))) ` set ps \<union> cl_origins c\<rparr>"

lemma collect_packets_affordable:
  assumes "unat limit \<le> 2 ^ 40" "unat (cl_proofBytes c) \<le> 2 ^ 40"
    and "\<And>p. p \<in> set ps \<Longrightarrow> length (ip_Bytes p) \<le> 4194304"
  shows "collect_packets limit c ps = (let kept = affordable (unat limit) (unat (cl_proofBytes c)) ps
    in (collected kept c)\<lparr>cl_truncated := cl_truncated c \<or> length kept < length ps\<rparr>)"
  using assms
proof (induction limit c ps rule: collect_packets.induct)
  case (1 limit c)
  then show ?case by (cases c) (simp add: collected_def)
next
  case (2 limit c p ps)
  have sz: "unat (packet_size p) = length (ip_Bytes p)"
    using 2(4) [of p] by (simp add: packet_size_def unat_of_nat)
  have add: "unat (cl_proofBytes c + packet_size p) = unat (cl_proofBytes c) + length (ip_Bytes p)"
    using 2(3) 2(4) [of p] by (simp add: unat_word_ariths sz)
  show ?case
  proof (cases "cl_proofBytes c + packet_size p > limit")
    case True
    then show ?thesis using add by (cases c) (simp add: collected_def word_less_nat_alt)
  next
    case False
    then have le: "unat (cl_proofBytes c) + length (ip_Bytes p) \<le> unat limit"
      using add by (simp add: word_less_nat_alt)
    have b: "cl_proofBytes (collect_packet p c) = cl_proofBytes c + packet_size p" by (simp add: collect_packet_def)
    have "collect_packets limit (collect_packet p c) ps =
        (let kept = affordable (unat limit) (unat (cl_proofBytes c) + length (ip_Bytes p)) ps
         in (collected kept (collect_packet p c))\<lparr>cl_truncated := cl_truncated c \<or> length kept < length ps\<rparr>)"
      using 2(1) [OF False 2(2)] 2(4) order_trans [OF le 2(2)] by (simp add: b add collect_packet_def)
    then show ?thesis using False le
      by (cases c) (simp add: collected_def collect_packet_def Let_def add.assoc)
  qed
qed

definition returned :: "runtime \<Rightarrow> query \<Rightarrow> indexed_packet list" where
  "returned r q = affordable (unat (ql_MaximumProofBytes (q_Limits q))) (unat (rt_manifestSize r))
     (take (min (unat (ql_MaximumResults (q_Limits q))) (unat (ql_MaximumPackets (q_Limits q)))) (found r q))"

definition truncated :: "runtime \<Rightarrow> query \<Rightarrow> bool" where
  "truncated r q \<longleftrightarrow> length (returned r q) < length (found r q)"

definition returned_origins :: "runtime \<Rightarrow> query \<Rightarrow> string set" where
  "returned_origins r q = (\<lambda>p. sr_OriginID (pk_Source (ip_Packet p))) ` set (returned r q)"

definition resolved :: "runtime \<Rightarrow> query \<Rightarrow> bool" where
  "resolved r q \<longleftrightarrow> returned r q \<noteq> [] \<and>
     unat (qr_MinimumDistinctOrigins (q_Sources q)) \<le> card (returned_origins r q)"

section \<open>The answer as a document\<close>

lemma hex_encode_ascii: "is_ascii (hex_encode bs)"
proof (induction bs)
  case (Cons b bs)
  have "n < 16 \<Longrightarrow> of_char (hex_digit n) < (128 :: nat)" for n by (auto simp: hex_digit_def)
  moreover have "unat b div 16 < 16" using unat_byte_bound [of b] by simp
  ultimately show ?case using Cons by (simp add: is_ascii_def)
qed (simp add: is_ascii_def)

lemma query_event_marshals:
  assumes "canonical_utc_second (sm_CreatedAt (rt_manifest r))" "digest32 d" "unat n \<le> 2 ^ 40"
  shows "isOK (MarshalEconomicEvent (query_event r d n))"
proof -
  have ev: "is_ascii (''query-'' @ hex_encode (take 8 d))" "length (''query-'' @ hex_encode (take 8 d)) \<le> 22"
    using hex_encode_ascii [of "take 8 d"] by (simp_all add: is_ascii_def)
  have nz: "CHR 0x00 \<notin> set (hex_encode bs)" for bs
  proof (induction bs)
    case (Cons b bs)
    have "n < 16 \<Longrightarrow> hex_digit n \<noteq> CHR 0x00" for n by (auto simp: hex_digit_def char_of_eq)
    moreover have "unat b div 16 < 16" using unat_byte_bound [of b] by simp
    ultimately show ?case using Cons by (metis hex_encode.simps(2) mod_less_divisor set_ConsD zero_less_numeral)
  qed simp
  have len: "length (sm_CreatedAt (rt_manifest r)) = 20" using assms(1) by (rule canonical_utc_second_length)
  have v: "EconomicEvent_Validate (query_event r d n) = None"
    using assms ev nz by (simp add: EconomicEvent_Validate_def query_event_def first_err_None fail_if_None
        accept_simps validateOptionalDigest_def EconomicMoney_Validate_def not_measured_def EconomicEventVersion_def
        utf8_valid_string_ascii word_less_nat_alt is_ascii_def upper_letter_def less_eq_char_def integerPattern_def
        unsigned_integer_def strip_minus_def all_digits_def is_digit_def Let_def)
  have "length (emit (economic_event_calls (query_event r d n))) \<le> MaxDocumentBytes"
    by (rule order_trans [OF emit_length]) (use ev assms(2) len in \<open>simp add: economic_event_calls_def
        query_event_def economic_resources_calls_def economic_money_calls_def not_measured_def encodeOptionalText_def
        encodeOptionalDigest_def enc_digest_def digest32_def EconomicEventVersion_def\<close>)
  moreover have "emit (economic_event_calls (query_event r d n)) \<noteq> []"
    by (rule emit_nonempty) (simp_all add: economic_event_calls_def)
  ultimately show ?thesis by (simp add: MarshalEconomicEvent_def after_def v boundedEncoding_def)
qed

definition packet_indexed :: "indexed_packet \<Rightarrow> bool" where
  "packet_indexed p \<longleftrightarrow> ip_Digest p = sha256 (ip_Bytes p) \<and> UnmarshalPacket (ip_Bytes p) = Inr (ip_Packet p)"

text \<open>What queries need of a loaded snapshot.\<close>

definition runtime_ok :: "runtime \<Rightarrow> bool" where
  "runtime_ok r \<longleftrightarrow>
     canonical_utc_second (sm_CreatedAt (rt_manifest r)) \<and> digest32 (rt_id r) \<and>
     0 < rt_manifestSize r \<and> rt_manifestSize r \<le> 4194304 \<and>
     list_all packet_indexed (rt_packets r) \<and> distinct (rt_id r # map ip_Digest (rt_packets r))"

lemma row_of_packet_valid:
  assumes "Packet_Validate p = None" "ip_Packet x = p"
  shows "QueryResultRow_Validate (row_of_packet x) = None"
proof -
  note v = assms(1) [unfolded Packet_Validate_def first_err_None]
  have s: "validate_subject p = None" and ob: "validate_object (pk_Object p) = None"
    and t: "validate_time (pk_Time p) = None" and sr: "validate_source (pk_Source p) = None"
    and ep: "validate_epistemic (pk_Epistemic p) = None" and l: "validate_lane p = None" using v by blast+
  have "ep_Lane (pk_Epistemic p) = ''observed_native'' \<longleftrightarrow> \<not> ot_Present (pp_Semantic (pk_Predicate p))"
    using l ep by (auto simp: validate_lane_def validate_epistemic_def accept_simps Let_def split: if_splits)
  moreover have "ep_Lane (pk_Epistemic p) \<in> {''observed_native'', ''provisional_semantic'', ''attested_semantic''}"
    using ep by (simp add: validate_epistemic_def first_err_None validateEnum_None)
  moreover have "validateIdentifier n (sj_Native (pk_Subject p)) = None" "validateIdentifier n (pp_Native (pk_Predicate p)) = None"
    "validateOptionalIdentifier m (pp_Semantic (pk_Predicate p)) = None"
    "ot_Present (pp_Semantic (pk_Predicate p)) \<longrightarrow> validateIdentifier n (ot_Value (pp_Semantic (pk_Predicate p))) = None" for n m
    using s by (auto simp: validate_subject_def first_err_None validateIdentifier_None validateOptionalIdentifier_def
        fail_if_None split: if_splits)
  moreover have "validateIdentifier n (sr_OriginID (pk_Source p)) = None"
    "dp_validateText n (sr_Locator (pk_Source p)) MaxLocator False = None" for n
    using sr by (auto simp: validate_source_def first_err_None validateIdentifier_None dp_validateText_None)
  moreover have "validateUTCSecond n (tm_ObservedAt (pk_Time p)) = None" for n
    using t by (auto simp: validate_time_def first_err_None validateUTCSecond_def fail_if_None)
  moreover have "validateEnum n (ob_NativeStatus (pk_Object p))
       [''resolved'', ''unknown'', ''not_observed'', ''not_provided'', ''not_applicable'', ''withheld'',
        ''redacted'', ''unresolved'', ''contradictory'', ''invalid'', ''confirmed_absent''] = None"
    "ob_NativeStatus (pk_Object p) = ''resolved'' \<longrightarrow> dp_validateText n (ob_NativeLexical (pk_Object p)) MaxLexical True = None"
    "ob_NativeStatus (pk_Object p) \<noteq> ''resolved'' \<longrightarrow> ob_NativeLexical (pk_Object p) = [] \<and> ob_Typed (pk_Object p) = None"
    "case ob_Typed (pk_Object p) of None \<Rightarrow> True
     | Some v \<Rightarrow> ob_NativeStatus (pk_Object p) = ''resolved'' \<and> TypedValue_Validate v = None" for n
    using ob unfolding validate_object_def first_err_None validateEnum_None dp_validateText_None
    by (simp_all add: first_err_None fail_if_None dp_validateText_None split: option.splits if_splits)
  ultimately show ?thesis
    unfolding QueryResultRow_Validate_def first_err_None row_of_packet_def Let_def assms(2) result_row.simps
      validateIdentifier_def fail_if_None validateEnum_None [of "''row lane''"]
    by (intro conjI) (auto simp: fail_if_def first_err_None first_err.simps(1) split: option.splits)
qed

lemma validate_rows_None:
  "validate_rows previous rs = None \<longleftrightarrow>
     list_all (\<lambda>r. QueryResultRow_Validate r = None) rs \<and> sorted_wrt (\<lambda>a b. compareRows a b < 0) rs \<and>
     (\<forall>p. previous = Some p \<longrightarrow> (\<forall>r \<in> set rs. compareRows p r < 0))"
proof
  assume "list_all (\<lambda>r. QueryResultRow_Validate r = None) rs \<and> sorted_wrt (\<lambda>a b. compareRows a b < 0) rs \<and>
     (\<forall>p. previous = Some p \<longrightarrow> (\<forall>r \<in> set rs. compareRows p r < 0))"
  then show "validate_rows previous rs = None"
  proof (induction rs arbitrary: previous)
    case (Cons r rs)
    then show ?case by (cases previous) (simp_all add: first_err_None fail_if_None not_le)
  qed simp
qed (rule validate_rows_sorted)

lemma sort_key_Nil: "sort_key f xs = [] \<longleftrightarrow> xs = []"
  by (metis length_0_conv length_sort)

lemma strictly_sorted_digests:
  assumes "distinct (map de_Digest es)"
  shows "strictly_sorted (map de_Digest (sort_key de_Digest es))"
  using assms by (simp add: strictly_sorted_iff distinct_map)

lemma compareRows_key:
  "compareRows a b < 0 \<longleftrightarrow>
     (rr_SubjectID a, rr_PredicateID a, rr_OriginID a, rr_ObservedAt a, rr_PacketDigest a) <
     (rr_SubjectID b, rr_PredicateID b, rr_OriginID b, rr_ObservedAt b, rr_PacketDigest b)"
  by (auto simp: compareRows_sign row_key_def less_prod_def)

lemma sortRows_strict:
  assumes "distinct (map rr_PacketDigest rows)"
  shows "sorted_wrt (\<lambda>a b. compareRows a b < 0) (sortRows rows)"
proof -
  let ?k = "\<lambda>r. (rr_SubjectID r, rr_PredicateID r, rr_OriginID r, rr_ObservedAt r, rr_PacketDigest r)"
  have "inj_on ?k (set rows)" using assms by (auto simp: distinct_map inj_on_def)
  moreover have "distinct rows" using assms by (simp add: distinct_map)
  ultimately have "distinct (map ?k (sortRows rows))" by (simp add: sortRows_def distinct_map)
  moreover have "sorted (map ?k (sortRows rows))" by (simp add: sortRows_def)
  ultimately have "sorted_wrt (<) (map ?k (sortRows rows))" by (simp add: strict_sorted_iff)
  then show ?thesis by (simp add: sorted_wrt_map compareRows_key)
qed

section \<open>The answers\<close>

text \<open>The answer to a query in terms of the packets returned.\<close>

definition expected_plan :: "runtime \<Rightarrow> query \<Rightarrow> query_plan" where
  "expected_plan r q =
     \<lparr>pl_Mode = ''materialized_snapshot'', pl_SnapshotID = sa_DigestReference (rt_id r),
      pl_QueryDigest = sa_DigestReference (sha256 (bytes_or_nil (MarshalQuery q))),
      pl_ScannedPackets = word_of_nat (length (rt_packets r)), pl_MatchedPackets = word_of_nat (length (found r q)),
      pl_ReturnedPackets = word_of_nat (length (returned r q)),
      pl_ExcludedFixtures = of_nat (length (filter (\<lambda>p. \<not> visible r p) (rt_packets r))),
      pl_Truncated = truncated r q, pl_Unsupported = [], pl_NetworkRequests = 0\<rparr>"

definition expected_event :: "runtime \<Rightarrow> query \<Rightarrow> economic_event" where
  "expected_event r q = query_event r (sha256 (bytes_or_nil (MarshalQuery q)))
     (rt_manifestSize r + sum_list (map packet_size (returned r q)))"

definition manifest_proof :: "runtime \<Rightarrow> digest_size_entry" where
  "manifest_proof r = \<lparr>de_Digest = rt_id r, de_Size = rt_manifestSize r\<rparr>"

definition packet_proof :: "indexed_packet \<Rightarrow> digest_size_entry" where
  "packet_proof p = \<lparr>de_Digest = ip_Digest p, de_Size = packet_size p\<rparr>"

definition expected_result :: "(query_plan \<Rightarrow> error + byte list) \<Rightarrow> runtime \<Rightarrow> query \<Rightarrow> query_result" where
  "expected_result encode r q =
     \<lparr>qz_Version = QueryResultVersion, qz_QueryDigest = sha256 (bytes_or_nil (MarshalQuery q)),
      qz_PlanDigest = sha256 (bytes_or_nil (sa_Marshal encode (expected_plan r q))),
      qz_Preference = q_Preference q, qz_SnapshotSequence = sm_HighestPacketSequence (rt_manifest r),
      qz_Status = (if \<not> resolved r q then ''unresolved'' else if truncated r q then ''partial'' else ''resolved''),
      qz_Rows = (if resolved r q then sortRows (map row_of_packet (returned r q)) else []), qz_Conflicts = [],
      qz_ProofArtifacts = (if resolved r q then sort_key de_Digest (manifest_proof r # map packet_proof (returned r q))
        else [manifest_proof r]),
      qz_EconomicEventDigest = sha256 (bytes_or_nil (MarshalEconomicEvent (expected_event r q))),
      qz_GeneratedAt = sm_CreatedAt (rt_manifest r)\<rparr>"

definition answer_size :: "(query_plan \<Rightarrow> error + byte list) \<Rightarrow> runtime \<Rightarrow> query \<Rightarrow> nat" where
  "answer_size encode r q = length (emit (query_result_calls (expected_result encode r q)))"

lemma returned_subset:
  "\<exists>rest. take (min (unat (ql_MaximumResults (q_Limits q))) (unat (ql_MaximumPackets (q_Limits q)))) (found r q) =
     returned r q @ rest"
  unfolding returned_def by (rule affordable_prefix)

lemma returned_packets:
  assumes "runtime_ok r"
  shows "set (returned r q) \<subseteq> set (found r q)" "list_all packet_indexed (returned r q)"
    "distinct (rt_id r # map ip_Digest (returned r q))"
    "length (returned r q) \<le> unat (ql_MaximumResults (q_Limits q))"
    "length (returned r q) \<le> unat (ql_MaximumPackets (q_Limits q))"
proof -
  let ?n = "min (unat (ql_MaximumResults (q_Limits q))) (unat (ql_MaximumPackets (q_Limits q)))"
  from returned_subset obtain rest where t: "take ?n (found r q) = returned r q @ rest" by blast
  then have "set (returned r q) \<subseteq> set (take ?n (found r q))" by simp
  also have "\<dots> \<subseteq> set (found r q)" by (rule set_take_subset)
  finally show sub: "set (returned r q) \<subseteq> set (found r q)" .
  then show "list_all packet_indexed (returned r q)"
    using assms by (auto simp: runtime_ok_def list_all_iff found_def)
  have "distinct (map ip_Digest (rt_packets r))" and ni: "rt_id r \<notin> set (map ip_Digest (rt_packets r))"
    using assms by (auto simp: runtime_ok_def)
  then have "distinct (map ip_Digest (found r q))" by (simp add: found_def distinct_map_filter)
  then have "distinct (map ip_Digest (take ?n (found r q)))" by (metis distinct_take take_map)
  then have "distinct (map ip_Digest (returned r q))" unfolding t by simp
  moreover have "rt_id r \<notin> set (map ip_Digest (returned r q))" using ni sub by (auto simp: found_def)
  ultimately show "distinct (rt_id r # map ip_Digest (returned r q))" by simp
  have "length (returned r q) \<le> length (take ?n (found r q))" unfolding t by simp
  then show "length (returned r q) \<le> unat (ql_MaximumResults (q_Limits q))"
    "length (returned r q) \<le> unat (ql_MaximumPackets (q_Limits q))" by simp_all
qed

lemma packet_indexed_bytes: "packet_indexed p \<Longrightarrow> 0 < length (ip_Bytes p) \<and> length (ip_Bytes p) \<le> 4194304"
  by (auto simp: packet_indexed_def UnmarshalPacket_def checkedDocument_def ebind_eq_Inr split: if_splits)

lemma packet_indexed_valid: "packet_indexed p \<Longrightarrow> Packet_Validate (ip_Packet p) = None"
  by (auto simp: packet_indexed_def UnmarshalPacket_def ebind_eq_Inr after_Inr)

lemma unat_packet_size: "packet_indexed p \<Longrightarrow> unat (packet_size p) = length (ip_Bytes p)"
  using packet_indexed_bytes [of p] by (simp add: packet_size_def unat_of_nat)

lemma query_limits:
  assumes "Query_Validate q = None"
  shows "0 < unat (ql_MaximumResults (q_Limits q))" "unat (ql_MaximumResults (q_Limits q)) \<le> 1000"
    "unat (ql_MaximumProofBytes (q_Limits q)) \<le> 16777216" "1 \<le> unat (qr_MinimumDistinctOrigins (q_Sources q))"
    "unat (qr_MinimumDistinctOrigins (q_Sources q)) \<le> 32"
  using assms by (auto simp: Query_Validate_def validate_query_limits_def validate_query_sources_def first_err_None
      fail_if_None word_le_nat_alt word_less_nat_alt not_less unat_gt_0 Suc_le_eq)

lemma expected_result_valid:
  assumes "runtime_ok r" "Query_Validate q = None"
  shows "QueryResult_Validate (expected_result encode r q) = None"
proof -
  note ps = returned_packets [OF assms(1), of q] and lim = query_limits [OF assms(2)]
  let ?rows = "map row_of_packet (returned r q)"
  have "map rr_PacketDigest ?rows = map ip_Digest (returned r q)" by (simp add: row_of_packet_def Let_def)
  then have s: "sorted_wrt (\<lambda>a b. compareRows a b < 0) (sortRows ?rows)"
    using ps(3) by (intro sortRows_strict) (metis distinct.simps(2))
  have v: "list_all (\<lambda>r. QueryResultRow_Validate r = None) (sortRows ?rows)"
    using ps(2) row_of_packet_valid [OF packet_indexed_valid refl] by (auto simp: sortRows_def list_all_iff)
  have rows: "validate_rows None (sortRows ?rows) = None" unfolding validate_rows_None using s v by simp
  let ?proofs = "manifest_proof r # map packet_proof (returned r q)"
  have "map de_Digest ?proofs = rt_id r # map ip_Digest (returned r q)"
    by (simp add: manifest_proof_def packet_proof_def)
  then have so: "strictly_sorted (map de_Digest (sort_key de_Digest ?proofs))"
    using ps(3) by (metis strictly_sorted_digests)
  have sz: "0 < packet_size p \<and> packet_size p \<le> 4194304" if "p \<in> set (returned r q)" for p
    using that ps(2) packet_indexed_bytes unat_packet_size
    by (simp add: list_all_iff word_le_nat_alt word_less_nat_alt)
  have m: "0 < rt_manifestSize r" "rt_manifestSize r \<le> 4194304" using assms(1) by (simp_all add: runtime_ok_def)
  have len: "length (returned r q) \<le> 1000" using ps(4) lim(2) by linarith
  have proofs: "validateDigestEntries n (sort_key de_Digest ?proofs) 10000 = None" for n
    unfolding validateDigestEntries_None using so sz m len
    by (auto simp: list_all_iff manifest_proof_def packet_proof_def set_insort_key)
  have pref: "validatePreference (q_Preference q) = None" using assms(2) by (simp add: Query_Validate_def first_err_None)
  have created: "canonical_utc_second (sm_CreatedAt (rt_manifest r))" using assms(1) by (simp add: runtime_ok_def)
  have ne: "sortRows ?rows \<noteq> []" if "resolved r q" using that by (simp add: resolved_def sortRows_def sort_key_Nil)
  have nep: "sort_key de_Digest ?proofs \<noteq> []" by (simp add: sort_key_Nil del: sort_key_simps)
  have m1: "validateDigestEntries n [manifest_proof r] 10000 = None" for n
    using m by (simp add: validateDigestEntries_None manifest_proof_def)
  define R where "R = expected_result encode r q"
  have f: "qz_Version R = QueryResultVersion" "qz_Preference R = q_Preference q" "qz_Conflicts R = []"
    "qz_GeneratedAt R = sm_CreatedAt (rt_manifest r)"
    "qz_Rows R = (if resolved r q then sortRows ?rows else [])"
    "qz_ProofArtifacts R = (if resolved r q then sort_key de_Digest ?proofs else [manifest_proof r])"
    "qz_Status R = (if \<not> resolved r q then ''unresolved'' else if truncated r q then ''partial'' else ''resolved'')"
    by (simp_all add: R_def expected_result_def)
  have "validate_rows None (qz_Rows R) = None" "length (qz_Rows R) \<le> 1000"
    unfolding f using rows len by (simp_all add: sortRows_def)
  moreover have "qz_ProofArtifacts R \<noteq> []" "length (qz_ProofArtifacts R) \<le> 10000"
    unfolding f using nep len by simp_all
  moreover have "validateDigestEntries n (qz_ProofArtifacts R) 10000 = None" for n
    unfolding f using proofs m1 by (cases "resolved r q") (simp_all only: if_True if_False)
  moreover have "validateEnum n (qz_Status R) [''resolved'', ''partial'', ''unresolved''] = None" for n
    unfolding f by (simp add: validateEnum_None)
  moreover have "qz_Status R = ''resolved'' \<Longrightarrow> qz_Rows R \<noteq> []" "qz_Status R = ''unresolved'' \<Longrightarrow> qz_Rows R = []"
    using ne unfolding f by (auto split: if_splits)
  ultimately show ?thesis
    unfolding R_def [symmetric] QueryResult_Validate_def first_err_None fail_if_None f(1-4)
    using pref created by (auto simp: validateUTCSecond_def fail_if_None)
qed

definition expected_execution :: "(query_plan \<Rightarrow> error + byte list) \<Rightarrow> runtime \<Rightarrow> query \<Rightarrow> execution" where
  "expected_execution encode r q =
     \<lparr>qn_Result = expected_result encode r q, qn_EconomicEvent = expected_event r q, qn_Plan = expected_plan r q\<rparr>"

lemma returned_bytes:
  assumes "runtime_ok r" "Query_Validate q = None"
  shows "unat (rt_manifestSize r + sum_list (map packet_size (returned r q))) =
      unat (rt_manifestSize r) + sum_list (map (\<lambda>p. length (ip_Bytes p)) (returned r q))"
    and "unat (rt_manifestSize r + sum_list (map packet_size (returned r q))) \<le> 2 ^ 25"
proof -
  have m: "unat (rt_manifestSize r) \<le> 4194304" using assms(1) by (simp add: runtime_ok_def word_le_nat_alt)
  have b: "unat (rt_manifestSize r) + sum_list (map (\<lambda>p. length (ip_Bytes p)) (returned r q)) \<le> 16777216"
  proof (cases "returned r q = []")
    case False
    then show ?thesis
      using affordable_bound [OF False [unfolded returned_def]] query_limits(3) [OF assms(2)]
      by (simp add: returned_def)
  qed (use m in simp)
  have "unat (a + sum_list (map packet_size ps)) = unat a + sum_list (map (\<lambda>p. length (ip_Bytes p)) ps)"
    if "unat a + sum_list (map (\<lambda>p. length (ip_Bytes p)) ps) \<le> 16777216" "list_all packet_indexed ps" for a :: uint64 and ps
    using that
  proof (induction ps arbitrary: a)
    case (Cons p ps)
    have sz: "unat (packet_size p) = length (ip_Bytes p)" using Cons.prems(2) unat_packet_size by simp
    have "unat (a + packet_size p) = unat a + length (ip_Bytes p)"
      using Cons.prems(1) sz by (simp add: unat_word_ariths)
    then show ?case using Cons.IH [of "a + packet_size p"] Cons.prems by (simp add: add.assoc)
  qed simp
  from this [OF b returned_packets(2) [OF assms(1)]]
  show e: "unat (rt_manifestSize r + sum_list (map packet_size (returned r q))) =
      unat (rt_manifestSize r) + sum_list (map (\<lambda>p. length (ip_Bytes p)) (returned r q))" .
  show "unat (rt_manifestSize r + sum_list (map packet_size (returned r q))) \<le> 2 ^ 25"
    unfolding e using b by simp
qed

lemma answer_query_expected:
  assumes "runtime_ok r" "Query_Validate q = None"
    and "ex = of_nat (length (filter (\<lambda>p. \<not> visible r p) (rt_packets r)))"
  shows "answer_query encode r q ex (found r q) =
    (if answer_size encode r q \<le> MaxDocumentBytes then Inr (expected_execution encode r q)
     else Inl (invalid ''encoded document exceeds its bound''))"
proof -
  let ?l = "q_Limits q"
  define maximum where "maximum = (if ql_MaximumPackets ?l < ql_MaximumResults ?l then ql_MaximumPackets ?l else ql_MaximumResults ?l)"
  have mx: "unat maximum = min (unat (ql_MaximumResults ?l)) (unat (ql_MaximumPackets ?l))"
    by (simp add: maximum_def word_less_nat_alt min_def)
  define c where "c = collect_packets (ql_MaximumProofBytes ?l)
     \<lparr>cl_truncated = unat maximum < length (found r q), cl_rows = [], cl_proofs = [manifest_proof r],
      cl_proofBytes = rt_manifestSize r, cl_origins = {}\<rparr> (take (unat maximum) (found r q))"
  have small: "length (ip_Bytes p) \<le> 4194304" if "p \<in> set (take (unat maximum) (found r q))" for p
    using in_set_takeD [OF that] assms(1) packet_indexed_bytes by (auto simp: found_def runtime_ok_def list_all_iff)
  have ms: "unat (rt_manifestSize r) \<le> 2 ^ 40" using assms(1) by (simp add: runtime_ok_def word_le_nat_alt)
  have limit: "unat (ql_MaximumProofBytes ?l) \<le> 2 ^ 40" using query_limits(3) [OF assms(2)] by simp
  have c: "c = (collected (returned r q) \<lparr>cl_truncated = unat maximum < length (found r q), cl_rows = [],
      cl_proofs = [manifest_proof r], cl_proofBytes = rt_manifestSize r, cl_origins = {}\<rparr>)
      \<lparr>cl_truncated := unat maximum < length (found r q) \<or> length (returned r q) < length (take (unat maximum) (found r q))\<rparr>"
    unfolding c_def by (subst collect_packets_affordable [OF limit]) (use ms small in \<open>simp_all add: returned_def mx Let_def\<close>)
  have le: "length (returned r q) \<le> length (take (unat maximum) (found r q))"
    using returned_subset [of q r] unfolding mx by (metis le_add1 length_append)
  have fields: "cl_rows c = map row_of_packet (returned r q)" "cl_proofs c = manifest_proof r # map packet_proof (returned r q)"
    "cl_proofBytes c = rt_manifestSize r + sum_list (map packet_size (returned r q))"
    "cl_origins c = returned_origins r q" "cl_truncated c = truncated r q"
    using le by (auto simp: c collected_def packet_proof_def returned_origins_def truncated_def)
  have "card (returned_origins r q) \<le> length (returned r q)"
    unfolding returned_origins_def by (metis card_length length_map list.set_map)
  then have "card (returned_origins r q) \<le> 1000"
    using returned_packets(4) [OF assms(1), of q] query_limits(2) [OF assms(2)] by linarith
  then have "unat (word_of_nat (card (returned_origins r q)) :: uint64) = card (returned_origins r q)"
    by (simp add: unat_of_nat)
  then have res: "(cl_rows c = [] \<or> word_of_nat (card (cl_origins c)) < qr_MinimumDistinctOrigins (q_Sources q)) \<longleftrightarrow> \<not> resolved r q"
    by (auto simp: fields resolved_def word_less_nat_alt not_less)
  have created: "canonical_utc_second (sm_CreatedAt (rt_manifest r))" using assms(1) by (simp add: runtime_ok_def)
  have "isOK (MarshalEconomicEvent (expected_event r q))"
    unfolding expected_event_def
    by (rule query_event_marshals [OF created]) (use returned_bytes(2) [OF assms(1,2)] in \<open>simp_all add: digest32_def\<close>)
  then obtain eb where eb: "MarshalEconomicEvent (expected_event r q) = Inr eb" by (cases "MarshalEconomicEvent (expected_event r q)") auto
  have bn: "bytes_or_nil (Inr eb) = eb" by (simp add: bytes_or_nil_def)
  have ne: "emit (query_result_calls (expected_result encode r q)) \<noteq> []"
    by (rule emit_nonempty) (simp_all add: query_result_calls_def)
  have mr: "MarshalQueryResult (expected_result encode r q) =
      (if answer_size encode r q \<le> MaxDocumentBytes then Inr (emit (query_result_calls (expected_result encode r q)))
       else Inl (invalid ''encoded document exceeds its bound''))"
    by (simp add: MarshalQueryResult_def expected_result_valid [OF assms(1,2)] after_def boundedEncoding_def Let_def ne answer_size_def)
  have "answer_query encode r q ex (found r q) =
      (case MarshalEconomicEvent (expected_event r q) of Inl e \<Rightarrow> Inl e
       | Inr economicBytes \<Rightarrow> (case MarshalQueryResult (expected_result encode r q) of Inl e \<Rightarrow> Inl e
           | Inr _ \<Rightarrow> Inr (expected_execution encode r q)))"
    unfolding answer_query_def Let_def maximum_def [symmetric] manifest_proof_def [symmetric] c_def [symmetric] res
    unfolding fields expected_event_def [symmetric] assms(3) length_map expected_plan_def [symmetric]
      expected_execution_def expected_result_def eb sum.case bn
    by (cases "resolved r q") (simp_all only: if_True if_False simp_thms)
  then show ?thesis by (simp add: eb mr split: if_splits)
qed

text \<open>
  C23: the answers of a loaded snapshot. A valid query that asks for a supported profile, and whose
  deadline does not pass at a packet where it is looked at, is answered. The answer holds, in the
  order of the format, the packets that match and are visible, in the order of the snapshot up to
  the smaller of the two limits and as long as their octets and the manifest fit the proof limit;
  it is refused only when its canonical form is longer than a document may be.
\<close>

theorem query_answered:
  assumes "runtime_ok r" "Query_Validate q = None" "\<not> live_query q" "unsupported_features q = []"
    and "\<And>k. k < length (rt_packets r) \<Longrightarrow> 128 dvd k \<Longrightarrow> expired k = None"
  shows "QueryContext encode expired r q =
    (if answer_size encode r q \<le> MaxDocumentBytes then Inr (expected_execution encode r q)
     else Inl (invalid ''encoded document exceeds its bound''))"
  using assms by (simp add: QueryContext_def scan_packets_found answer_query_expected)

lemma sum_list_sort_key:
  fixes f :: "'a \<Rightarrow> nat"
  shows "sum_list (map f (sort_key k xs)) = sum_list (map f xs)"
proof -
  have "sum_list (map f (insort_key k x ys)) = f x + sum_list (map f ys)" for x ys by (induction ys) auto
  then show ?thesis by (induction xs) auto
qed

text \<open>
  C24: what an answer may contain. Whatever the deadline does, the rows of an answer are packets of
  the snapshot that the query asks for and that are not hidden fixtures, at most as many as each of
  the two limits, together with the manifest within the proof limit, and from at least as many
  origins as the query requires.
\<close>

theorem answer_confined:
  assumes "runtime_ok r" "QueryContext encode expired r q = Inr x" "row \<in> set (qz_Rows (qn_Result x))"
  shows "(\<exists>p \<in> set (rt_packets r). row = row_of_packet p \<and> asked_for q (sm_CreatedAt (rt_manifest r)) (ip_Packet p) \<and>
       (rt_includeFixtures r \<or> ip_EvidenceClass p \<noteq> ''test_fixture'')) \<and>
     length (qz_Rows (qn_Result x)) \<le> unat (ql_MaximumResults (q_Limits q)) \<and>
     length (qz_Rows (qn_Result x)) \<le> unat (ql_MaximumPackets (q_Limits q)) \<and>
     (\<Sum>e \<leftarrow> qz_ProofArtifacts (qn_Result x). unat (de_Size e)) \<le> unat (ql_MaximumProofBytes (q_Limits q)) \<and>
     unat (qr_MinimumDistinctOrigins (q_Sources q)) \<le> card (rr_OriginID ` set (qz_Rows (qn_Result x)))"
proof -
  from assms(2) have q: "Query_Validate q = None"
    by (auto simp: QueryContext_def split: option.splits)
  from assms(2) q obtain ex m where s: "scan_packets expired r q 0 0 [] (rt_packets r) = Inr (ex, m)"
    and a: "answer_query encode r q ex m = Inr x"
    by (auto simp: QueryContext_def split: if_splits sum.splits)
  from scan_packets_Inr [OF s] have "ex = of_nat (length (filter (\<lambda>p. \<not> visible r p) (rt_packets r)))" "m = found r q"
    by (simp_all add: found_def)
  with a have x: "qn_Result x = expected_result encode r q"
    using answer_query_expected [OF assms(1) q] by (auto simp: expected_execution_def split: if_splits)
  from assms(3) have res: "resolved r q" unfolding x by (auto simp: expected_result_def split: if_splits)
  note ps = returned_packets [OF assms(1), of q]
  have rows: "set (qz_Rows (qn_Result x)) = row_of_packet ` set (returned r q)"
    "length (qz_Rows (qn_Result x)) = length (returned r q)" and
    proofs: "qz_ProofArtifacts (qn_Result x) = sort_key de_Digest (manifest_proof r # map packet_proof (returned r q))"
    using res by (simp_all add: x expected_result_def sortRows_def)
  have orig: "rr_OriginID ` row_of_packet ` set (returned r q) = returned_origins r q"
    by (simp add: returned_origins_def image_image row_of_packet_def Let_def)
  from assms(3) obtain p where p: "p \<in> set (returned r q)" "row = row_of_packet p" unfolding rows by blast
  then have f: "p \<in> set (found r q)" using ps(1) by blast
  then have "Packet_Validate (ip_Packet p) = None"
    using assms(1) packet_indexed_valid by (auto simp: found_def runtime_ok_def list_all_iff)
  then have 1: "p \<in> set (rt_packets r)" "asked_for q (sm_CreatedAt (rt_manifest r)) (ip_Packet p)"
    "rt_includeFixtures r \<or> ip_EvidenceClass p \<noteq> ''test_fixture''"
    using f packet_matches_iff [OF q] by (auto simp: found_def visible_def)
  have "(\<Sum>e \<leftarrow> qz_ProofArtifacts (qn_Result x). unat (de_Size e)) =
      (\<Sum>e \<leftarrow> manifest_proof r # map packet_proof (returned r q). unat (de_Size e))"
    unfolding proofs by (rule sum_list_sort_key)
  also have "\<dots> = unat (rt_manifestSize r) + (\<Sum>p \<leftarrow> returned r q. unat (packet_size p))"
    by (simp add: manifest_proof_def packet_proof_def comp_def)
  also have "(\<Sum>p \<leftarrow> returned r q. unat (packet_size p)) = (\<Sum>p \<leftarrow> returned r q. length (ip_Bytes p))"
    using ps(2) unat_packet_size by (intro arg_cong [of _ _ sum_list] map_cong) (auto simp: list_all_iff)
  also have "unat (rt_manifestSize r) + \<dots> \<le> unat (ql_MaximumProofBytes (q_Limits q))"
    using affordable_bound [of "unat (ql_MaximumProofBytes (q_Limits q))" "unat (rt_manifestSize r)"] res
    by (simp add: resolved_def returned_def)
  finally have 2: "(\<Sum>e \<leftarrow> qz_ProofArtifacts (qn_Result x). unat (de_Size e)) \<le> unat (ql_MaximumProofBytes (q_Limits q))" .
  show ?thesis
    unfolding rows orig using 1 2 p(2) ps(4,5) res by (auto simp: resolved_def)
qed

text \<open>
  C26: the accounts of an unresolved answer. When the packets found come from too few origins, the
  answer carries no row and no proof but the manifest, while its plan counts those packets as
  returned and its economic event counts their octets as returned.
\<close>

theorem unresolved_answer_accounts:
  assumes "runtime_ok r" "QueryContext encode expired r q = Inr x" "qz_Status (qn_Result x) = ''unresolved''"
  shows "qz_Rows (qn_Result x) = [] \<and> qz_ProofArtifacts (qn_Result x) = [\<lparr>de_Digest = rt_id r, de_Size = rt_manifestSize r\<rparr>] \<and>
     unat (pl_ReturnedPackets (qn_Plan x)) = length (returned r q) \<and>
     unat (er_ProofBytesReturned (ee_Resources (qn_EconomicEvent x))) =
       unat (rt_manifestSize r) + (\<Sum>p \<leftarrow> returned r q. length (ip_Bytes p))"
proof -
  from assms(2) have q: "Query_Validate q = None"
    by (auto simp: QueryContext_def split: option.splits)
  from assms(2) q obtain ex m where s: "scan_packets expired r q 0 0 [] (rt_packets r) = Inr (ex, m)"
    and a: "answer_query encode r q ex m = Inr x"
    by (auto simp: QueryContext_def split: if_splits sum.splits)
  from scan_packets_Inr [OF s] have "ex = of_nat (length (filter (\<lambda>p. \<not> visible r p) (rt_packets r)))" "m = found r q"
    by (simp_all add: found_def)
  with a have x: "x = expected_execution encode r q"
    using answer_query_expected [OF assms(1) q] by (auto split: if_splits)
  from assms(3) have "\<not> resolved r q" by (auto simp: x expected_execution_def expected_result_def split: if_splits)
  moreover have "length (returned r q) \<le> 1000"
    using returned_packets(4) [OF assms(1), of q] query_limits(2) [OF q] by linarith
  ultimately show ?thesis
    using returned_bytes(1) [OF assms(1) q]
    by (simp add: x expected_execution_def expected_result_def expected_plan_def expected_event_def query_event_def
        manifest_proof_def unat_of_nat)
qed

section \<open>A snapshot of one packet\<close>

definition sample_bytes :: "byte list" where "sample_bytes = emit (packet_calls sample_packet)"

definition sample_indexed :: indexed_packet where
  "sample_indexed = \<lparr>ip_Sequence = 1, ip_Digest = sha256 sample_bytes, ip_Bytes = sample_bytes,
     ip_Packet = sample_packet, ip_EvidenceClass = ''recorded_offline_replay''\<rparr>"

definition sample_report :: build_report where
  "sample_report = \<lparr>br_Format = BuildReportFormat, br_SourceRevision = ''r'', br_BuiltAt = ''2025-01-01T00:00:00Z'',
     br_Mode = ''offline_e2_replay'', br_NetworkRequests = 0, br_CurrentClaimsMade = False, br_FixtureCountedPublic = False,
     br_Actual = \<lparr>ac_AtlasIdentities = 0, ac_ArchiveProfiles = 0, ac_PublicOrigins = 1, ac_FixtureOrigins = 0,
       ac_Operations = 1, ac_Packets = 1, ac_PublicPackets = 1, ac_FixturePackets = 0, ac_ResolvedPackets = 1,
       ac_UnresolvedPackets = 0, ac_Deltas = 0, ac_MaterializedViews = 0, ac_ProofArtifacts = 0\<rparr>,
     br_FundingDemoTarget = \<lparr>tc_AtlasIdentities = 500, tc_ArchiveProfiles = 100, tc_CurrentObserved = 25,
       tc_Packets = 25000, tc_MaterializedViews = 2\<rparr>, br_Limitations = [''l'']\<rparr>"

definition sample_runtime :: runtime where
  "sample_runtime = \<lparr>rt_directory = ''d'', rt_manifest = sample_snapshot\<lparr>sm_CreatedAt := ''2025-01-01T00:00:00Z''\<rparr>,
     rt_id = map (\<lambda>b. b + 1) (sha256 sample_bytes), rt_manifestSize = 1000, rt_includeFixtures = False,
     rt_packets = [sample_indexed], rt_byDigest = [sha256 sample_bytes \<mapsto> sample_indexed], rt_deltas = [],
     rt_byDeltaDigest = Map.empty, rt_proofs = Map.empty, rt_archiveKeys = {}, rt_archiveBatches = {}, rt_origins = [],
     rt_originByID = Map.empty, rt_concepts = [], rt_mappings = [], rt_views = [], rt_report = sample_report,
     rt_semanticLexical = Map.empty\<rparr>"

definition sample_request :: "uint64 \<Rightarrow> query" where
  "sample_request origins =
     \<lparr>q_Version = QueryVersion, q_Select = [''q''],
      q_Subject = \<lparr>qs_Concept = no_text, qs_IDs = [''s'']\<rparr>, q_Dimensions = [],
      q_Time = \<lparr>qt_Mode = ''as_of'', qt_From = no_text, qt_Until = \<lparr>ot_Present = True, ot_Value = ''2024-12-31T00:00:00Z''\<rparr>\<rparr>,
      q_Ontology = \<lparr>qo_MaximumDepth = 0, qo_MaximumPathCostMillionths = 0, qo_AllowedEdgeStatuses = [''reviewed'']\<rparr>,
      q_Sources = \<lparr>qr_AllowedOriginIDs = [], qr_MinimumDistinctOrigins = origins, qr_AllowedAuthorityClasses = []\<rparr>,
      q_Trust = \<lparr>qu_AllowedLanes = [''provisional_semantic''], qu_AllowedMappingStatuses = [''candidate'']\<rparr>,
      q_Freshness = \<lparr>qf_MaximumAgeSeconds = None, qf_StaleBehavior = ''exclude''\<rparr>,
      q_Economics = \<lparr>qe_MaximumPrice = no_text, qe_Currency = no_text, qe_AllowedFundingClasses = []\<rparr>,
      q_Conflicts = ''preserve_sources'',
      q_Execution = \<lparr>qx_AllowMaterializedState = True, qx_AllowLiveRefresh = False, qx_MaximumLiveOrigins = 0,
        qx_DeadlineMilliseconds = 1000\<rparr>,
      q_Proof = \<lparr>qp_Level = ''packet'', qp_IncludePlan = False, qp_IncludeNative = True\<rparr>,
      q_Preference = ''highest_proof'',
      q_Limits = \<lparr>ql_MaximumResults = 10, ql_MaximumPackets = 10, ql_MaximumProofBytes = 16777216\<rparr>\<rparr>"

lemma sample_seconds: "canonical_utc_second ''2024-12-31T00:00:00Z''" "canonical_utc_second ''2025-01-01T00:00:00Z''"
  by code_simp+

lemma sample_request_valid: "origins \<in> {1, 2} \<Longrightarrow> Query_Validate (sample_request origins) = None"
  using sample_seconds
  by (auto simp: Query_Validate_def sample_request_def Let_def validate_query_subject_def validate_query_time_def
      validate_query_ontology_def validate_query_sources_def validate_query_trust_def validate_query_freshness_def
      validate_query_economics_def validate_query_execution_def validate_query_limits_def validatePreference_def
      first_err_None fail_if_None accept_simps QueryVersion_def validateCurrency_None
      utf8_valid_string_ascii is_ascii_def)

lemma sample_bytes_size: "length sample_bytes \<le> 2000"
  unfolding sample_bytes_def
  by (rule order_trans [OF emit_length])
    (simp add: sample_packet_def packet_calls_def PacketVersion_def subject_calls_def predicate_calls_def object_calls_def
      context_calls_def time_calls_def source_calls_def derivation_calls_def epistemic_calls_def lifecycle_calls_def
      encodeOptionalText_def encodeOptionalDigest_def encodeTextSet_def enc_counted_def enc_nullable_def enc_digest_def
      encodeTypedValue_def zero_digest_def)

lemma sample_packet_read: "UnmarshalPacket sample_bytes = Inr sample_packet"
proof -
  have "sample_bytes \<noteq> []" unfolding sample_bytes_def by (rule emit_nonempty) (simp_all add: packet_calls_def)
  moreover have "length sample_bytes \<le> MaxDocumentBytes" using sample_bytes_size by simp
  ultimately have "MarshalPacket sample_packet = Inr sample_bytes"
    by (simp add: MarshalPacket_def sample_packet_valid after_def boundedEncoding_def sample_bytes_def Let_def)
  moreover have "packet_wf sample_packet"
    by (simp add: packet_wf_def sample_packet_def digest32_def opt_digest32_def zero_digest_def)
  ultimately show ?thesis by (simp add: packet_accepted)
qed

lemma sample_runtime_ok: "runtime_ok sample_runtime"
proof -
  have "map (\<lambda>b. b + 1) d \<noteq> d" if "length d = 32" for d :: "byte list"
    using that by (cases d) auto
  then show ?thesis
    using sample_packet_read sample_seconds
    by (simp add: runtime_ok_def sample_runtime_def packet_indexed_def sample_indexed_def digest32_def)
qed

lemma sample_matches: "packet_matches (sample_request origins) sample_packet ''2025-01-01T00:00:00Z''"
proof -
  have "''2024-02-29T23:59:59Z'' \<le> ''2024-12-31T00:00:00Z''" by code_simp
  then show ?thesis
    by (simp add: packet_matches_def sample_request_def sample_packet_def contains_iff containsAny_iff matchTime_def)
qed

lemma sample_found: "found sample_runtime (sample_request origins) = [sample_indexed]"
  by (simp add: found_def sample_runtime_def visible_def sample_indexed_def sample_matches)

lemma sample_returned: "returned sample_runtime (sample_request origins) = [sample_indexed]"
  using sample_bytes_size
  by (simp add: returned_def sample_found sample_indexed_def) (simp add: sample_request_def sample_runtime_def)

lemma sample_answer_size: "answer_size encode sample_runtime (sample_request origins) \<le> MaxDocumentBytes"
proof -
  have tr: "\<not> truncated sample_runtime (sample_request origins)"
    by (simp add: truncated_def sample_returned sample_found)
  have rt: "length (rt_id sample_runtime) = 32" "sm_CreatedAt (rt_manifest sample_runtime) = ''2025-01-01T00:00:00Z''"
    by (simp_all add: sample_runtime_def)
  have pref: "q_Preference (sample_request origins) = ''highest_proof''" by (simp add: sample_request_def)
  have row: "sum_list (map call_size (result_row_calls (row_of_packet sample_indexed))) \<le> 1000"
    by (simp add: result_row_calls_def row_of_packet_def Let_def sample_indexed_def sample_packet_def encodeOptionalText_def
        enc_nullable_def encodeTypedValue_def enc_digest_def zero_digest_def)
  have digest: "length (ip_Digest sample_indexed) = 32" by (simp add: sample_indexed_def)
  have proofs: "sum_list (map call_size (encodeDigestEntries es)) \<le> 9 + 68 * length es"
    if "list_all (\<lambda>e. length (de_Digest e) = 32) es" for es
    using that by (induction es) (auto simp: encodeDigestEntries_def enc_counted_def size_entry_calls_def enc_digest_def)
  let ?R = "expected_result encode sample_runtime (sample_request origins)"
  have "list_all (\<lambda>e. length (de_Digest e) = 32) (qz_ProofArtifacts ?R)" "length (qz_ProofArtifacts ?R) \<le> 2"
    using rt digest by (auto simp: expected_result_def sample_returned manifest_proof_def packet_proof_def)
  then have p: "sum_list (map call_size (encodeDigestEntries (qz_ProofArtifacts ?R))) \<le> 200" using proofs by fastforce
  have r: "sum_list (map call_size (enc_counted result_row_calls (qz_Rows ?R))) \<le> 1100"
    using row by (simp add: expected_result_def sample_returned enc_counted_def sortRows_def)
  have f: "length (qz_QueryDigest ?R) = 32" "length (qz_PlanDigest ?R) = 32" "length (qz_EconomicEventDigest ?R) = 32"
    "qz_Conflicts ?R = []" "length (qz_GeneratedAt ?R) = 20" "length (qz_Status ?R) \<le> 10" "length (qz_Preference ?R) = 13"
    "qz_Version ?R = QueryResultVersion"
    by (simp_all add: expected_result_def rt pref tr)
  show ?thesis
    unfolding answer_size_def
    by (rule order_trans [OF emit_length]) (use p r f in \<open>simp add: query_result_calls_def QueryResultVersion_def
      enc_digest_def enc_counted_def\<close>)
qed

lemma sample_supported: "\<not> live_query (sample_request origins)" "unsupported_features (sample_request origins) = []"
  by (simp_all add: live_query_def unsupported_features_def sample_request_def)

text \<open>One origin is enough, and the packet is returned; or two are required, and the answer is unresolved.\<close>

lemma sample_resolved: "resolved sample_runtime (sample_request 1)" "\<not> resolved sample_runtime (sample_request 2)"
  by (simp_all add: resolved_def sample_returned returned_origins_def)
    (simp_all add: sample_request_def)

theorem packet_matches_iff_witness:
  "asked_for (sample_request 1) ''2025-01-01T00:00:00Z'' sample_packet"
  using packet_matches_iff [OF sample_request_valid sample_packet_valid, of 1 "''2025-01-01T00:00:00Z''"] sample_matches
  by simp

theorem query_answered_witness:
  "qz_Rows (qn_Result (expected_execution (\<lambda>_. Inr []) sample_runtime (sample_request 1))) = [row_of_packet sample_indexed] \<and>
   QueryContext (\<lambda>_. Inr []) (\<lambda>_. None) sample_runtime (sample_request 1) =
     Inr (expected_execution (\<lambda>_. Inr []) sample_runtime (sample_request 1))"
  using query_answered [OF sample_runtime_ok sample_request_valid sample_supported refl, of 1 "\<lambda>_. Inr []"]
    sample_answer_size [of _ 1]
  by (simp add: expected_execution_def expected_result_def sample_returned sample_resolved sortRows_def)

lemma sample_answers: "origins \<in> {1, 2} \<Longrightarrow> QueryContext (\<lambda>_. Inr []) (\<lambda>_. None) sample_runtime (sample_request origins) =
     Inr (expected_execution (\<lambda>_. Inr []) sample_runtime (sample_request origins))"
  using sample_answer_size [of _ origins] answer_query_expected [OF sample_runtime_ok sample_request_valid refl, of origins]
    scan_packets_found [of sample_runtime "\<lambda>_. None" "sample_request origins"]
  by (simp add: QueryContext_def sample_request_valid sample_supported del: insert_iff)

theorem answer_confined_witness:
  "qz_Rows (expected_result (\<lambda>_. Inr []) sample_runtime (sample_request 1)) = [row_of_packet sample_indexed] \<and>
   unat (qr_MinimumDistinctOrigins (q_Sources (sample_request 1))) \<le> card {rr_OriginID (row_of_packet sample_indexed)}"
proof -
  have rows: "qz_Rows (expected_result (\<lambda>_. Inr []) sample_runtime (sample_request 1)) = [row_of_packet sample_indexed]"
    by (simp add: expected_result_def sample_returned sample_resolved sortRows_def)
  then show ?thesis
    using answer_confined [OF sample_runtime_ok sample_answers, of 1 "row_of_packet sample_indexed"]
    by (simp add: expected_execution_def)
qed

theorem unresolved_answer_accounts_witness:
  "qz_Rows (expected_result (\<lambda>_. Inr []) sample_runtime (sample_request 2)) = [] \<and>
   unat (pl_ReturnedPackets (expected_plan sample_runtime (sample_request 2))) = 1"
  using unresolved_answer_accounts [OF sample_runtime_ok sample_answers, of 2] sample_resolved
  by (simp add: expected_execution_def sample_returned) (simp add: expected_result_def)

end
