(* ===== verification/Go_Json.thy ===== *)
theory Go_Json
  imports Go_Time
begin

text \<open>
  The parts of \<open>encoding/json\<close> (Go 1.23) that the program uses, on texts of octets: values as an
  \<open>any\<close> holds them (numbers stay lexemes, as under \<open>UseNumber\<close>), the scanner, the decoder into
  \<open>any\<close>, the assignment of a value to a struct, and \<open>Marshal\<close>. Texts that are printed are valid UTF-8.
\<close>

section \<open>Values\<close>

datatype json =
    JNull
  | JBool bool
  | JNumber string
  | JString string
  | JArray "json list"
  | JObject "(string \<times> json) list"

text \<open>How deep arrays and objects nest; \<open>encoding/json\<close> stops at 10000.\<close>

fun json_depth :: "json \<Rightarrow> nat" where
  "json_depth (JArray js) = Suc (fold (\<lambda>j m. max m (json_depth j)) js 0)"
| "json_depth (JObject kvs) = Suc (fold (\<lambda>(k, j) m. max m (json_depth j)) kvs 0)"
| "json_depth j = 0"

definition MaxNesting :: nat where "MaxNesting = 10000"

section \<open>Scalars\<close>

definition json_space :: "char \<Rightarrow> bool" where
  "json_space c \<longleftrightarrow> c = CHR '' '' \<or> c = CHR 0x09 \<or> c = CHR 0x0D \<or> c = CHR 0x0A"

definition skip_space :: "string \<Rightarrow> string" where
  "skip_space s = dropWhile json_space s"

lemma skip_space_shorter: "skip_space s = c # r \<Longrightarrow> length r < length s"
  using length_dropWhile_le [of json_space s] by (simp add: skip_space_def)

lemma skip_space_head: "skip_space s = c # r \<Longrightarrow> \<not> json_space c"
  by (simp add: skip_space_def dropWhile_eq_Cons_conv)

lemma skip_space_again: "skip_space s = c # r \<Longrightarrow> skip_space (c # r) = c # r"
  using skip_space_head [of s c r] by (simp add: skip_space_def)

definition span_digits :: "string \<Rightarrow> string \<times> string" where
  "span_digits s = (takeWhile is_digit s, dropWhile is_digit s)"

definition scan_int :: "string \<Rightarrow> (string \<times> string) option" where
  "scan_int s = (case s of [] \<Rightarrow> None
     | c # r \<Rightarrow> if c = CHR ''0'' then Some ([c], r)
         else if is_digit c then Some (span_digits s) else None)"

definition scan_fraction :: "string \<Rightarrow> (string \<times> string) option" where
  "scan_fraction s = (case s of [] \<Rightarrow> Some ([], [])
     | c # r \<Rightarrow> if c \<noteq> CHR ''.'' then Some ([], s)
         else (case span_digits r of (ds, r') \<Rightarrow> if ds = [] then None else Some (c # ds, r')))"

definition scan_exponent :: "string \<Rightarrow> (string \<times> string) option" where
  "scan_exponent s = (case s of [] \<Rightarrow> Some ([], [])
     | c # r \<Rightarrow> if c \<noteq> CHR ''e'' \<and> c \<noteq> CHR ''E'' then Some ([], s)
         else let (sign, r1) = (case r of x # r' \<Rightarrow> if x = CHR ''+'' \<or> x = CHR ''-'' then ([x], r') else ([], r) | [] \<Rightarrow> ([], []))
              in (case span_digits r1 of (ds, r') \<Rightarrow> if ds = [] then None else Some (c # sign @ ds, r')))"

definition scan_number :: "string \<Rightarrow> (string \<times> string) option" where
  "scan_number s = (let (sign, s1) = (case s of x # r \<Rightarrow> if x = CHR ''-'' then ([x], r) else ([], s) | [] \<Rightarrow> ([], [])) in
     case scan_int s1 of None \<Rightarrow> None | Some (i, s2) \<Rightarrow>
     (case scan_fraction s2 of None \<Rightarrow> None | Some (f, s3) \<Rightarrow>
      map_option (\<lambda>(e, s4). (sign @ i @ f @ e, s4)) (scan_exponent s3)))"

text \<open>Four hexadecimal digits of an escape, and the code point that an escape stands for.\<close>

definition hex4 :: "string \<Rightarrow> (nat \<times> string) option" where
  "hex4 s = (case s of
       a # b # c # d # r \<Rightarrow>
         (case (hex_value a, hex_value b, hex_value c, hex_value d) of
            (Some x, Some y, Some z, Some w) \<Rightarrow> Some (((x * 16 + y) * 16 + z) * 16 + w, r)
          | _ \<Rightarrow> None)
     | _ \<Rightarrow> None)"

definition high_surrogate :: "nat \<Rightarrow> bool" where "high_surrogate n \<longleftrightarrow> 0xD800 \<le> n \<and> n \<le> 0xDBFF"
definition low_surrogate :: "nat \<Rightarrow> bool" where "low_surrogate n \<longleftrightarrow> 0xDC00 \<le> n \<and> n \<le> 0xDFFF"

definition rune_escape :: "string \<Rightarrow> (nat \<times> string) option" where
  "rune_escape s = (case hex4 s of None \<Rightarrow> None
     | Some (n, r) \<Rightarrow>
         if high_surrogate n then
           (case r of
              x # y # r' \<Rightarrow>
                if x = CHR 0x5C \<and> y = CHR ''u'' then
                  (case hex4 r' of
                     Some (m, r'') \<Rightarrow>
                       if low_surrogate m then Some (0x10000 + (n - 0xD800) * 0x400 + (m - 0xDC00), r'')
                       else Some (0xFFFD, r)
                   | None \<Rightarrow> Some (0xFFFD, r))
                else Some (0xFFFD, r)
            | _ \<Rightarrow> Some (0xFFFD, r))
         else if low_surrogate n then Some (0xFFFD, r)
         else Some (n, r))"

definition simple_escape :: "char \<Rightarrow> char option" where
  "simple_escape e =
     (if e = CHR ''b'' then Some (CHR 0x08) else if e = CHR ''f'' then Some (CHR 0x0C)
      else if e = CHR ''n'' then Some (CHR 0x0A) else if e = CHR ''r'' then Some (CHR 0x0D)
      else if e = CHR ''t'' then Some (CHR 0x09)
      else if e = CHR 0x5C \<or> e = CHR ''/'' \<or> e = CHR 0x22 then Some e else None)"

lemma hex4_shorter: "hex4 s = Some (n, r) \<Longrightarrow> length r < length s"
  by (auto simp: hex4_def split: list.splits option.splits)

lemma rune_escape_shorter: "rune_escape s = Some (n, r) \<Longrightarrow> length r < length s"
  by (auto simp: rune_escape_def split: if_splits list.splits option.splits dest!: hex4_shorter)

text \<open>A string behind its opening quote: the text it stands for, and what follows the closing quote.\<close>

definition prepend :: "string \<Rightarrow> (string \<times> string) option \<Rightarrow> (string \<times> string) option" where
  "prepend a = map_option (\<lambda>(b, r). (a @ b, r))"

function scan_string :: "string \<Rightarrow> (string \<times> string) option" where
  "scan_string [] = None"
| "scan_string (c # r) =
     (if c = CHR 0x22 then Some ([], r)
      else if c = CHR 0x5C then
        (case r of [] \<Rightarrow> None
         | e # r1 \<Rightarrow>
             if e = CHR ''u'' then
               (case rune_escape r1 of None \<Rightarrow> None
                | Some (n, r2) \<Rightarrow> prepend (encode_rune n) (scan_string r2))
             else (case simple_escape e of None \<Rightarrow> None | Some x \<Rightarrow> prepend [x] (scan_string r1)))
      else if of_char c < (0x20 :: nat) then None
      else prepend [c] (scan_string r))"
  by pat_completeness auto
termination by (relation "measure length") (auto dest: rune_escape_shorter)

declare scan_string.simps(2) [simp del]

definition scan_literal :: "string \<Rightarrow> json \<Rightarrow> string \<Rightarrow> (json \<times> string) option" where
  "scan_literal w j s = (if take (length w) s = w then Some (j, drop (length w) s) else None)"

definition scan_scalar :: "string \<Rightarrow> (json \<times> string) option" where
  "scan_scalar s = (case s of [] \<Rightarrow> None
     | c # r \<Rightarrow>
         if c = CHR 0x22 then map_option (\<lambda>(t, r). (JString t, r)) (scan_string r)
         else if c = CHR ''t'' then scan_literal ''true'' (JBool True) s
         else if c = CHR ''f'' then scan_literal ''false'' (JBool False) s
         else if c = CHR ''n'' then scan_literal ''null'' JNull s
         else if c = CHR ''-'' \<or> is_digit c then map_option (\<lambda>(t, r). (JNumber t, r)) (scan_number s)
         else None)"

section \<open>Decoding into any\<close>

text \<open>
  \<open>Decoder.Decode\<close> reads one value; what follows it is left. The flag of the loops tells whether an
  element has been read, so that a comma is due. The number bounds the calls; twice the length of
  the text, and one, is enough.
\<close>

definition comma_due :: "bool \<Rightarrow> string \<Rightarrow> string option" where
  "comma_due due s = (if due then (case skip_space s of c # r \<Rightarrow> if c = CHR '','' then Some r else None | [] \<Rightarrow> None) else Some s)"

definition scan_key :: "string \<Rightarrow> (string \<times> string) option" where
  "scan_key s = (case skip_space s of c # r \<Rightarrow> if c = CHR 0x22 then scan_string r else None | [] \<Rightarrow> None)"

definition scan_colon :: "string \<Rightarrow> string option" where
  "scan_colon s = (case skip_space s of c # r \<Rightarrow> if c = CHR '':'' then Some r else None | [] \<Rightarrow> None)"

fun parse_value :: "nat \<Rightarrow> string \<Rightarrow> (json \<times> string) option"
  and parse_array :: "nat \<Rightarrow> bool \<Rightarrow> string \<Rightarrow> (json list \<times> string) option"
  and parse_object :: "nat \<Rightarrow> bool \<Rightarrow> string \<Rightarrow> ((string \<times> json) list \<times> string) option" where
  "parse_value 0 s = None"
| "parse_value (Suc n) s =
     (case skip_space s of [] \<Rightarrow> None
      | c # r \<Rightarrow>
          if c = CHR ''['' then map_option (\<lambda>(js, r). (JArray js, r)) (parse_array n False r)
          else if c = CHR ''{'' then map_option (\<lambda>(kvs, r). (JObject kvs, r)) (parse_object n False r)
          else scan_scalar (c # r))"
| "parse_array 0 due s = None"
| "parse_array (Suc n) due s =
     (case skip_space s of [] \<Rightarrow> None
      | c # r \<Rightarrow>
          if c = CHR '']'' then Some ([], r)
          else (case comma_due due s of None \<Rightarrow> None | Some s1 \<Rightarrow>
            (case parse_value n s1 of None \<Rightarrow> None | Some (j, s2) \<Rightarrow>
             map_option (\<lambda>(js, r). (j # js, r)) (parse_array n True s2))))"
| "parse_object 0 due s = None"
| "parse_object (Suc n) due s =
     (case skip_space s of [] \<Rightarrow> None
      | c # r \<Rightarrow>
          if c = CHR ''}'' then Some ([], r)
          else (case comma_due due s of None \<Rightarrow> None | Some s1 \<Rightarrow>
            (case scan_key s1 of None \<Rightarrow> None | Some (k, s2) \<Rightarrow>
             (case scan_colon s2 of None \<Rightarrow> None | Some s3 \<Rightarrow>
              (case parse_value n s3 of None \<Rightarrow> None | Some (j, s4) \<Rightarrow>
               map_option (\<lambda>(kvs, r). ((k, j) # kvs, r)) (parse_object n True s4))))))"

definition json_fuel :: "string \<Rightarrow> nat" where
  "json_fuel s = 2 * length s + 1"

definition decode_any :: "string \<Rightarrow> (json \<times> string) option" where
  "decode_any s = (case parse_value (json_fuel s) s of
       Some (j, r) \<Rightarrow> if json_depth j \<le> MaxNesting then Some (j, r) else None
     | None \<Rightarrow> None)"

section \<open>Assigning to structs\<close>

text \<open>
  A struct is a list of its fields, each with the assignment of a value to it; \<open>None\<close> is an error,
  which \<open>Decode\<close> reports at the end. A key names the field of that name or else one that differs in
  case. \<open>null\<close> leaves a value alone, and a slice that is assigned to again keeps what its elements
  held.
\<close>

type_synonym 'r json_fields = "(string \<times> ('r \<Rightarrow> json \<Rightarrow> 'r option)) list"

definition find_field :: "'r json_fields \<Rightarrow> string \<Rightarrow> ('r \<Rightarrow> json \<Rightarrow> 'r option) option" where
  "find_field fs k = (case map_of fs k of Some f \<Rightarrow> Some f
     | None \<Rightarrow> map_of (map (\<lambda>(n, f). (fold_ascii n, f)) fs) (fold_ascii k))"

fun assign_fields :: "bool \<Rightarrow> 'r json_fields \<Rightarrow> 'r \<Rightarrow> (string \<times> json) list \<Rightarrow> 'r option" where
  "assign_fields disallowUnknown fs r [] = Some r"
| "assign_fields disallowUnknown fs r ((k, j) # kvs) =
     (case find_field fs k of
        None \<Rightarrow> if disallowUnknown then None else assign_fields disallowUnknown fs r kvs
      | Some f \<Rightarrow> (case f r j of None \<Rightarrow> None | Some r' \<Rightarrow> assign_fields disallowUnknown fs r' kvs))"

definition json_struct :: "bool \<Rightarrow> 'r json_fields \<Rightarrow> 'r \<Rightarrow> json \<Rightarrow> 'r option" where
  "json_struct disallowUnknown fs r j = (case j of
       JNull \<Rightarrow> Some r
     | JObject kvs \<Rightarrow> assign_fields disallowUnknown fs r kvs
     | _ \<Rightarrow> None)"

definition json_text :: "string \<Rightarrow> json \<Rightarrow> string option" where
  "json_text old j = (case j of JString s \<Rightarrow> Some s | JNull \<Rightarrow> Some old | _ \<Rightarrow> None)"

definition json_flag :: "bool \<Rightarrow> json \<Rightarrow> bool option" where
  "json_flag old j = (case j of JBool b \<Rightarrow> Some b | JNull \<Rightarrow> Some old | _ \<Rightarrow> None)"

definition json_uint64 :: "uint64 \<Rightarrow> json \<Rightarrow> uint64 option" where
  "json_uint64 old j = (case j of JNumber s \<Rightarrow> map_option word_of_nat (ParseUint 64 s) | JNull \<Rightarrow> Some old | _ \<Rightarrow> None)"

fun json_elements :: "('a \<Rightarrow> json \<Rightarrow> 'a option) \<Rightarrow> 'a \<Rightarrow> 'a list \<Rightarrow> json list \<Rightarrow> 'a list option" where
  "json_elements f zero old [] = Some []"
| "json_elements f zero old (j # js) =
     (case f (if old = [] then zero else hd old) j of None \<Rightarrow> None
      | Some x \<Rightarrow> map_option (\<lambda>xs. x # xs) (json_elements f zero (tl old) js))"

definition json_slice :: "('a \<Rightarrow> json \<Rightarrow> 'a option) \<Rightarrow> 'a \<Rightarrow> 'a list \<Rightarrow> json \<Rightarrow> 'a list option" where
  "json_slice f zero old j = (case j of JArray js \<Rightarrow> json_elements f zero old js | JNull \<Rightarrow> Some [] | _ \<Rightarrow> None)"

definition field_of :: "('r \<Rightarrow> 'a) \<Rightarrow> (('a \<Rightarrow> 'a) \<Rightarrow> 'r \<Rightarrow> 'r) \<Rightarrow> ('a \<Rightarrow> json \<Rightarrow> 'a option) \<Rightarrow> 'r \<Rightarrow> json \<Rightarrow> 'r option" where
  "field_of get upd f r j = map_option (\<lambda>x. upd (\<lambda>_. x) r) (f (get r) j)"

section \<open>Printing\<close>

text \<open>\<open>Marshal\<close>, with the characters escaped that HTML gives a meaning.\<close>

definition escape_char :: "char \<Rightarrow> string" where
  "escape_char c =
     (let n = of_char c :: nat in
      if c = CHR 0x22 \<or> c = CHR 0x5C then [CHR 0x5C, c]
      else if c = CHR 0x08 then [CHR 0x5C, CHR ''b''] else if c = CHR 0x0C then [CHR 0x5C, CHR ''f'']
      else if c = CHR 0x0A then [CHR 0x5C, CHR ''n''] else if c = CHR 0x0D then [CHR 0x5C, CHR ''r'']
      else if c = CHR 0x09 then [CHR 0x5C, CHR ''t'']
      else if n < 0x20 \<or> c = CHR ''<'' \<or> c = CHR ''>'' \<or> c = CHR ''&''
        then CHR 0x5C # ''u00'' @ [hex_digit (n div 16), hex_digit (n mod 16)]
      else [c])"

fun marshal_text :: "string \<Rightarrow> string" where
  "marshal_text (c # d # e # s) =
     (if c = CHR 0xE2 \<and> d = CHR 0x80 \<and> (e = CHR 0xA8 \<or> e = CHR 0xA9)
      then CHR 0x5C # ''u202'' @ (if e = CHR 0xA8 then ''8'' else ''9'') @ marshal_text s
      else escape_char c @ marshal_text (d # e # s))"
| "marshal_text (c # s) = escape_char c @ marshal_text s"
| "marshal_text [] = []"

definition json_quote :: "string \<Rightarrow> string" where
  "json_quote s = CHR 0x22 # marshal_text s @ [CHR 0x22]"

fun Marshal_json :: "json \<Rightarrow> string" where
  "Marshal_json JNull = ''null''"
| "Marshal_json (JBool b) = (if b then ''true'' else ''false'')"
| "Marshal_json (JNumber s) = s"
| "Marshal_json (JString s) = json_quote s"
| "Marshal_json (JArray js) = ''['' @ strings_Join (map Marshal_json js) '','' @ '']''"
| "Marshal_json (JObject kvs) = ''{'' @ strings_Join (map (\<lambda>(k, j). json_quote k @ '':'' @ Marshal_json j) kvs) '','' @ ''}''"

text \<open>\<open>MarshalIndent\<close> without a prefix, two spaces for each level.\<close>

definition new_line :: "nat \<Rightarrow> string" where
  "new_line d = CHR 0x0A # replicate (2 * d) (CHR '' '')"

fun indent_json :: "nat \<Rightarrow> json \<Rightarrow> string" where
  "indent_json d (JArray js) =
     (if js = [] then ''[]''
      else ''['' @ new_line (Suc d) @ strings_Join (map (indent_json (Suc d)) js) ('','' @ new_line (Suc d)) @ new_line d @ '']'')"
| "indent_json d (JObject kvs) =
     (if kvs = [] then ''{}''
      else ''{'' @ new_line (Suc d) @
        strings_Join (map (\<lambda>(k, j). json_quote k @ '': '' @ indent_json (Suc d) j) kvs) ('','' @ new_line (Suc d)) @
        new_line d @ ''}'')"
| "indent_json d j = Marshal_json j"

end
