(* ===== verification/Json_Bounded.thy ===== *)
theory Json_Bounded
  imports Go_Json
begin

text \<open>
  \<open>internal/jsonbounded/jsonbounded.go\<close>: the bounded JSON profile. The validator reads the tokens
  of a \<open>json.Decoder\<close>, whose state machine is modelled here, and checks depth, sizes, counts and
  duplicate keys; then the document is decoded. Of an error the kind is kept.
\<close>

section \<open>Policies\<close>

datatype kind =
    KindInvalidSyntax
  | KindTrailingData
  | KindDuplicateKey
  | KindDocumentTooLarge
  | KindDepthExceeded
  | KindScalarTooLarge
  | KindContainerTooLarge
  | KindTokenLimit

record policy =
  po_MaxBytes :: int
  po_MaxDepth :: int
  po_MaxScalarBytes :: int
  po_MaxContainerEntries :: int
  po_MaxTokens :: int

definition policy_validate :: "policy \<Rightarrow> kind option" where
  "policy_validate p =
     (if po_MaxBytes p \<le> 0 \<or> po_MaxDepth p \<le> 0 \<or> po_MaxScalarBytes p \<le> 0 \<or> po_MaxContainerEntries p \<le> 0 \<or> po_MaxTokens p \<le> 0
      then Some KindInvalidSyntax else None)"

section \<open>Unicode escapes\<close>

text \<open>\<open>None\<close> is an unpaired surrogate. The flag tells whether the octet is inside a string.\<close>

definition parseHexCodeUnit :: "string \<Rightarrow> nat option" where
  "parseHexCodeUnit s = map_option fst (hex4 s)"

function validateUnicodeEscapes :: "bool \<Rightarrow> string \<Rightarrow> kind option" where
  "validateUnicodeEscapes inString [] = None"
| "validateUnicodeEscapes inString (c # s) =
     (if \<not> inString then validateUnicodeEscapes (c = CHR 0x22) s
      else if c = CHR 0x22 then validateUnicodeEscapes False s
      else if c \<noteq> CHR 0x5C then validateUnicodeEscapes True s
      else (case s of [] \<Rightarrow> None
        | e # r \<Rightarrow>
            if e \<noteq> CHR ''u'' then validateUnicodeEscapes True r
            else (case parseHexCodeUnit r of
                None \<Rightarrow> validateUnicodeEscapes True r
              | Some codeUnit \<Rightarrow>
                  let rest = drop 4 r in
                  if low_surrogate codeUnit then Some KindInvalidSyntax
                  else if high_surrogate codeUnit then
                    if length rest < 6 \<or> take 2 rest \<noteq> CHR 0x5C # ''u'' then Some KindInvalidSyntax
                    else (case parseHexCodeUnit (drop 2 rest) of
                        Some low \<Rightarrow>
                          if low_surrogate low then validateUnicodeEscapes True (drop 6 rest) else Some KindInvalidSyntax
                      | None \<Rightarrow> Some KindInvalidSyntax)
                  else validateUnicodeEscapes True rest)))"
  by pat_completeness auto
termination by (relation "measure (\<lambda>(b, s). length s)") auto

declare validateUnicodeEscapes.simps(2) [simp del]

section \<open>The token reader of encoding/json\<close>

datatype token_state =
    TokenTopValue | TokenArrayStart | TokenArrayValue | TokenArrayComma
  | TokenObjectStart | TokenObjectKey | TokenObjectColon | TokenObjectValue | TokenObjectComma

record json_decoder =
  jd_input :: string
  jd_state :: token_state
  jd_stack :: "token_state list"

datatype token = Delim char | Scalar json

datatype read_error = ReadEOF | ReadSyntax

definition value_allowed :: "token_state \<Rightarrow> bool" where
  "value_allowed st \<longleftrightarrow> st \<in> {TokenTopValue, TokenArrayStart, TokenArrayValue, TokenObjectValue}"

definition value_end :: "token_state \<Rightarrow> token_state" where
  "value_end st = (case st of
       TokenArrayStart \<Rightarrow> TokenArrayComma
     | TokenArrayValue \<Rightarrow> TokenArrayComma
     | TokenObjectValue \<Rightarrow> TokenObjectComma
     | _ \<Rightarrow> st)"

definition open_delim :: "token_state \<Rightarrow> char \<Rightarrow> string \<Rightarrow> json_decoder \<Rightarrow> read_error + token \<times> json_decoder" where
  "open_delim start c r d =
     (if value_allowed (jd_state d)
      then Inr (Delim c, \<lparr>jd_input = r, jd_state = start, jd_stack = jd_state d # jd_stack d\<rparr>)
      else Inl ReadSyntax)"

definition close_delim :: "token_state \<Rightarrow> token_state \<Rightarrow> char \<Rightarrow> string \<Rightarrow> json_decoder \<Rightarrow> read_error + token \<times> json_decoder" where
  "close_delim start comma c r d =
     (if jd_state d \<noteq> start \<and> jd_state d \<noteq> comma then Inl ReadSyntax
      else Inr (Delim c, \<lparr>jd_input = r, jd_state = value_end (hd (jd_stack d)), jd_stack = tl (jd_stack d)\<rparr>))"

function dec_Token :: "json_decoder \<Rightarrow> read_error + token \<times> json_decoder" where
  "dec_Token d =
     (case skip_space (jd_input d) of [] \<Rightarrow> Inl ReadEOF
      | c # r \<Rightarrow>
          if c = CHR ''['' then open_delim TokenArrayStart c r d
          else if c = CHR '']'' then close_delim TokenArrayStart TokenArrayComma c r d
          else if c = CHR ''{'' then open_delim TokenObjectStart c r d
          else if c = CHR ''}'' then close_delim TokenObjectStart TokenObjectComma c r d
          else if c = CHR '':'' then
            if jd_state d \<noteq> TokenObjectColon then Inl ReadSyntax
            else dec_Token (d\<lparr>jd_input := r, jd_state := TokenObjectValue\<rparr>)
          else if c = CHR '','' then
            if jd_state d = TokenArrayComma then dec_Token (d\<lparr>jd_input := r, jd_state := TokenArrayValue\<rparr>)
            else if jd_state d = TokenObjectComma then dec_Token (d\<lparr>jd_input := r, jd_state := TokenObjectKey\<rparr>)
            else Inl ReadSyntax
          else if c = CHR 0x22 \<and> (jd_state d = TokenObjectStart \<or> jd_state d = TokenObjectKey) then
            (case scan_scalar (c # r) of None \<Rightarrow> Inl ReadSyntax
             | Some (x, r') \<Rightarrow> Inr (Scalar x, d\<lparr>jd_input := r', jd_state := TokenObjectColon\<rparr>))
          else if \<not> value_allowed (jd_state d) then Inl ReadSyntax
          else (case scan_scalar (c # r) of None \<Rightarrow> Inl ReadSyntax
             | Some (x, r') \<Rightarrow> Inr (Scalar x, d\<lparr>jd_input := r', jd_state := value_end (jd_state d)\<rparr>)))"
  by pat_completeness auto
termination
proof (relation "measure (\<lambda>d. length (jd_input d))")
  show "wf (measure (\<lambda>d. length (jd_input d)))" by simp
qed (auto dest: skip_space_shorter)

declare dec_Token.simps [simp del]

definition dec_More :: "json_decoder \<Rightarrow> bool" where
  "dec_More d = (case skip_space (jd_input d) of [] \<Rightarrow> False | c # r \<Rightarrow> c \<noteq> CHR '']'' \<and> c \<noteq> CHR ''}'')"

section \<open>The validator\<close>

record validator =
  va_decoder :: json_decoder
  va_tokens :: int

definition newValidator :: "string \<Rightarrow> validator" where
  "newValidator data = \<lparr>va_decoder = \<lparr>jd_input = data, jd_state = TokenTopValue, jd_stack = []\<rparr>, va_tokens = 0\<rparr>"

datatype token_error = Bounded kind | Reader read_error

definition v_token :: "policy \<Rightarrow> validator \<Rightarrow> token_error + token \<times> validator" where
  "v_token p v = (case dec_Token (va_decoder v) of
       Inl e \<Rightarrow> Inl (Reader e)
     | Inr (t, d) \<Rightarrow>
         if va_tokens v + 1 > po_MaxTokens p then Inl (Bounded KindTokenLimit)
         else Inr (t, \<lparr>va_decoder = d, va_tokens = va_tokens v + 1\<rparr>))"

definition v_wrap :: "token_error \<Rightarrow> kind" where
  "v_wrap e = (case e of Bounded k \<Rightarrow> k | Reader _ \<Rightarrow> KindInvalidSyntax)"

definition v_scalar :: "policy \<Rightarrow> string \<Rightarrow> validator \<Rightarrow> kind + validator" where
  "v_scalar p s v = (if int (length s) > po_MaxScalarBytes p then Inl KindScalarTooLarge else Inr v)"

definition v_close :: "policy \<Rightarrow> char \<Rightarrow> validator \<Rightarrow> kind + validator" where
  "v_close p expected v = (case v_token p v of
       Inl e \<Rightarrow> Inl (v_wrap e)
     | Inr (t, v') \<Rightarrow> if t \<noteq> Delim expected then Inl KindInvalidSyntax else Inr v')"

text \<open>
  The number bounds the calls (\<open>None\<close> when it is used up), the other numbers are the depth and
  the entries seen so far.
\<close>

fun v_value :: "nat \<Rightarrow> policy \<Rightarrow> nat \<Rightarrow> validator \<Rightarrow> (kind + validator) option"
  and v_object :: "nat \<Rightarrow> policy \<Rightarrow> nat \<Rightarrow> string list \<Rightarrow> nat \<Rightarrow> validator \<Rightarrow> (kind + validator) option"
  and v_array :: "nat \<Rightarrow> policy \<Rightarrow> nat \<Rightarrow> nat \<Rightarrow> validator \<Rightarrow> (kind + validator) option" where
  "v_value 0 p depth v = None"
| "v_value (Suc n) p depth v =
     (case v_token p v of
        Inl e \<Rightarrow> Some (Inl (v_wrap e))
      | Inr (Delim c, v1) \<Rightarrow>
          if int depth \<ge> po_MaxDepth p then Some (Inl KindDepthExceeded)
          else if c = CHR ''{'' then v_object n p (Suc depth) [] 0 v1
          else if c = CHR ''['' then v_array n p (Suc depth) 0 v1
          else Some (Inl KindInvalidSyntax)
      | Inr (Scalar (JString s), v1) \<Rightarrow> Some (v_scalar p s v1)
      | Inr (Scalar (JNumber s), v1) \<Rightarrow> Some (v_scalar p s v1)
      | Inr (Scalar (JBool b), v1) \<Rightarrow> Some (Inr v1)
      | Inr (Scalar JNull, v1) \<Rightarrow> Some (Inr v1)
      | Inr (Scalar _, v1) \<Rightarrow> Some (Inl KindInvalidSyntax))"
| "v_object 0 p depth seen entries v = None"
| "v_object (Suc n) p depth seen entries v =
     (if \<not> dec_More (va_decoder v) then Some (v_close p (CHR ''}'') v)
      else (case v_token p v of
          Inl e \<Rightarrow> Some (Inl (v_wrap e))
        | Inr (Scalar (JString key), v1) \<Rightarrow>
            (case v_scalar p key v1 of Inl k \<Rightarrow> Some (Inl k)
             | Inr v2 \<Rightarrow>
                 if key \<in> set seen then Some (Inl KindDuplicateKey)
                 else if int (Suc entries) > po_MaxContainerEntries p then Some (Inl KindContainerTooLarge)
                 else (case v_value n p depth v2 of None \<Rightarrow> None
                   | Some (Inl k) \<Rightarrow> Some (Inl k)
                   | Some (Inr v3) \<Rightarrow> v_object n p depth (key # seen) (Suc entries) v3))
        | Inr (t, v1) \<Rightarrow> Some (Inl KindInvalidSyntax)))"
| "v_array 0 p depth entries v = None"
| "v_array (Suc n) p depth entries v =
     (if \<not> dec_More (va_decoder v) then Some (v_close p (CHR '']'') v)
      else if int (Suc entries) > po_MaxContainerEntries p then Some (Inl KindContainerTooLarge)
      else (case v_value n p depth v of None \<Rightarrow> None
        | Some (Inl k) \<Rightarrow> Some (Inl k)
        | Some (Inr v1) \<Rightarrow> v_array n p depth (Suc entries) v1))"

declare v_value.simps(2) [simp del] v_object.simps(2) [simp del] v_array.simps(2) [simp del]

text \<open>
  \<open>Decode\<close>, for a destination that is assigned from a value by \<open>target\<close>. The call of the validator
  that would not end is \<open>None\<close>.
\<close>

definition json_Decode :: "(json \<Rightarrow> 'a option) \<Rightarrow> policy \<Rightarrow> byte list \<Rightarrow> (kind + 'a) option" where
  "json_Decode target p data =
     (case policy_validate p of Some k \<Rightarrow> Some (Inl k) | None \<Rightarrow>
      if int (length data) > po_MaxBytes p then Some (Inl KindDocumentTooLarge)
      else if \<not> utf8_valid data then Some (Inl KindInvalidSyntax)
      else let s = string_of_bytes data in
        (case validateUnicodeEscapes False s of Some k \<Rightarrow> Some (Inl k) | None \<Rightarrow>
        (case v_value (json_fuel s) p 0 (newValidator s) of
           None \<Rightarrow> None
         | Some (Inl k) \<Rightarrow> Some (Inl k)
         | Some (Inr v) \<Rightarrow>
             if v_token p v \<noteq> Inl (Reader ReadEOF) then Some (Inl KindTrailingData)
             else (case decode_any s of
                 None \<Rightarrow> Some (Inl KindInvalidSyntax)
               | Some (j, _) \<Rightarrow> (case target j of None \<Rightarrow> Some (Inl KindInvalidSyntax) | Some x \<Rightarrow> Some (Inr x))))))"

definition kind_text :: "kind \<Rightarrow> string" where
  "kind_text k = (case k of
       KindInvalidSyntax \<Rightarrow> ''invalid_syntax''
     | KindTrailingData \<Rightarrow> ''trailing_data''
     | KindDuplicateKey \<Rightarrow> ''duplicate_key''
     | KindDocumentTooLarge \<Rightarrow> ''document_too_large''
     | KindDepthExceeded \<Rightarrow> ''depth_exceeded''
     | KindScalarTooLarge \<Rightarrow> ''scalar_too_large''
     | KindContainerTooLarge \<Rightarrow> ''container_too_large''
     | KindTokenLimit \<Rightarrow> ''token_limit'')"

text \<open>For the callers: the error as a value of \<open>error\<close>. The call that would not end does not occur.\<close>

definition bounded_Decode :: "(json \<Rightarrow> 'a option) \<Rightarrow> policy \<Rightarrow> byte list \<Rightarrow> error + 'a" where
  "bounded_Decode target p data = (case json_Decode target p data of
       Some (Inr x) \<Rightarrow> Inr x
     | Some (Inl k) \<Rightarrow> Inl (Msg (''jsonbounded: '' @ kind_text k))
     | None \<Rightarrow> Inl (Msg ''jsonbounded''))"

end
