(* ===== verification/Archive_Profile.thy ===== *)
theory Archive_Profile
  imports Json_Bounded
begin

text \<open>
  \<open>internal/archiveprofile/profile.go\<close>: the native profile of an archived page and the title taken
  from it. Octets are read as the characters of the same numbers. The Unicode table of lower case
  letters is an argument; a slice expression whose bounds are not in the slice is a panic.
\<close>

section \<open>Data\<close>

definition ProfileFormat :: string where "ProfileFormat = ''tw.archive-native-profile/0.1''"
definition TitleLocator :: string where "TitleLocator = ''html/head/title[1]/text()''"
definition MaxBody :: nat where "MaxBody = 5242880"

record archive_spec =
  as_Format :: string
  as_ID :: string
  as_OriginID :: string
  as_OperationID :: string
  as_Subject :: string
  as_Predicate :: string
  as_Locator :: string
  as_Kind :: string
  as_MediaType :: string

record extraction_plan =
  xp_Format :: string
  xp_ProfileID :: string
  xp_Predicate :: string
  xp_Locator :: string
  xp_Transforms :: "string list"
  xp_Mappings :: "string list"

record statement =
  st_NativeLexical :: string
  st_Locator :: string

section \<open>Specifications\<close>

text \<open>The white space of Unicode beyond ASCII, which \<open>strings.TrimSpace\<close> removes, as UTF-8.\<close>

definition wide_spaces :: "string list" where
  "wide_spaces = map string_of_bytes ([[0xC2, 0x85], [0xC2, 0xA0], [0xE1, 0x9A, 0x80]] @
     map (\<lambda>b. [0xE2, 0x80, b]) [0x80, 0x81, 0x82, 0x83, 0x84, 0x85, 0x86, 0x87, 0x88, 0x89, 0x8A, 0xA8, 0xA9, 0xAF] @
     [[0xE2, 0x81, 0x9F], [0xE3, 0x80, 0x80]])"

definition ascii_space :: "char \<Rightarrow> bool" where
  "ascii_space c \<longleftrightarrow> of_char c \<in> {9, 10, 11, 12, 13, 32 :: nat}"

text \<open>\<open>strings.TrimSpace(value) == value\<close>\<close>

definition space_trimmed :: "string \<Rightarrow> bool" where
  "space_trimmed s \<longleftrightarrow> s = [] \<or>
     \<not> (ascii_space (hd s) \<or> ascii_space (last s) \<or>
        list_ex (\<lambda>w. take (length w) s = w \<or> (length w \<le> length s \<and> drop (length s - length w) s = w)) wide_spaces)"

definition ap_identifier :: "string \<Rightarrow> bool" where
  "ap_identifier val \<longleftrightarrow> \<not> (val = [] \<or> length val > 1024 \<or> \<not> space_trimmed val) \<and>
     list_all (\<lambda>c. \<not> (of_char c < (0x21 :: nat) \<or> of_char c = (0x7f :: nat))) val"

definition spec_fields :: "archive_spec json_fields" where
  "spec_fields = [
     (''format'', field_of as_Format as_Format_update json_text),
     (''id'', field_of as_ID as_ID_update json_text),
     (''origin_id'', field_of as_OriginID as_OriginID_update json_text),
     (''operation_id'', field_of as_OperationID as_OperationID_update json_text),
     (''subject'', field_of as_Subject as_Subject_update json_text),
     (''predicate'', field_of as_Predicate as_Predicate_update json_text),
     (''locator'', field_of as_Locator as_Locator_update json_text),
     (''kind'', field_of as_Kind as_Kind_update json_text),
     (''media_type'', field_of as_MediaType as_MediaType_update json_text)]"

definition empty_spec :: archive_spec where
  "empty_spec = \<lparr>as_Format = [], as_ID = [], as_OriginID = [], as_OperationID = [], as_Subject = [], as_Predicate = [], as_Locator = [], as_Kind = [], as_MediaType = []\<rparr>"

definition spec_json :: "archive_spec \<Rightarrow> json" where
  "spec_json s = JObject [
     (''format'', JString (as_Format s)),
     (''id'', JString (as_ID s)),
     (''origin_id'', JString (as_OriginID s)),
     (''operation_id'', JString (as_OperationID s)),
     (''subject'', JString (as_Subject s)),
     (''predicate'', JString (as_Predicate s)),
     (''locator'', JString (as_Locator s)),
     (''kind'', JString (as_Kind s)),
     (''media_type'', JString (as_MediaType s))]"

definition spec_policy :: policy where
  "spec_policy = \<lparr>po_MaxBytes = 16384, po_MaxDepth = 4, po_MaxScalarBytes = 4096, po_MaxContainerEntries = 32, po_MaxTokens = 256\<rparr>"

definition ParseSpec :: "byte list \<Rightarrow> error + archive_spec" where
  "ParseSpec bs = ebind (bounded_Decode (json_struct True spec_fields empty_spec) spec_policy bs) (\<lambda>s.
     if as_Format s \<noteq> ProfileFormat \<or> \<not> ap_identifier (as_ID s) \<or> \<not> ap_identifier (as_OriginID s) \<or>
        \<not> ap_identifier (as_OperationID s) \<or> \<not> ap_identifier (as_Subject s) \<or> \<not> ap_identifier (as_Predicate s) \<or>
        as_Locator s \<noteq> TitleLocator \<or> as_Kind s \<noteq> ''state'' \<or> as_MediaType s \<noteq> ''text/html''
     then Inl (Msg ''archiveprofile: invalid native profile'') else Inr s)"

definition plan_json :: "extraction_plan \<Rightarrow> json" where
  "plan_json x = JObject [(''format'', JString (xp_Format x)), (''profile_id'', JString (xp_ProfileID x)),
     (''native_predicate'', JString (xp_Predicate x)), (''native_locator'', JString (xp_Locator x)),
     (''transformations'', JArray (map JString (xp_Transforms x))), (''mappings'', JArray (map JString (xp_Mappings x)))]"

definition PlanBytes :: "archive_spec \<Rightarrow> error + byte list" where
  "PlanBytes spec = ebind (ParseSpec (bytes_of_string (Marshal_json (spec_json spec)))) (\<lambda>_.
     Inr (bytes_of_string (indent_json 0 (plan_json \<lparr>xp_Format = ''tw.archive-extraction-plan/0.1'', xp_ProfileID = as_ID spec,
         xp_Predicate = as_Predicate spec, xp_Locator = as_Locator spec, xp_Transforms = [], xp_Mappings = []\<rparr>)) @ [10]))"

section \<open>Lower case\<close>

text \<open>\<open>unicode.ToLower\<close>: ASCII letters are computed, the others are looked up.\<close>

definition unicode_ToLower :: "(nat \<Rightarrow> nat) \<Rightarrow> nat \<Rightarrow> nat" where
  "unicode_ToLower table r = (if r \<le> 0x7F then if 65 \<le> r \<and> r \<le> 90 then r + 32 else r else table r)"

text \<open>\<open>bytes.ToLower\<close> on valid UTF-8.\<close>

fun bytes_ToLower :: "(nat \<Rightarrow> nat) \<Rightarrow> string \<Rightarrow> string" where
  "bytes_ToLower table [] = []"
| "bytes_ToLower table (c # s) = (let b = of_char c :: nat; v = (\<lambda>d. of_char d mod 64 :: nat) in
     if b < 0x80 then encode_rune (unicode_ToLower table b) @ bytes_ToLower table s
     else if b < 0xE0 then (case s of
         c1 # r \<Rightarrow> encode_rune (unicode_ToLower table (b mod 32 * 64 + v c1)) @ bytes_ToLower table r
       | _ \<Rightarrow> [])
     else if b < 0xF0 then (case s of
         c1 # c2 # r \<Rightarrow> encode_rune (unicode_ToLower table ((b mod 16 * 64 + v c1) * 64 + v c2)) @ bytes_ToLower table r
       | _ \<Rightarrow> [])
     else (case s of
         c1 # c2 # c3 # r \<Rightarrow>
           encode_rune (unicode_ToLower table (((b mod 8 * 64 + v c1) * 64 + v c2) * 64 + v c3)) @ bytes_ToLower table r
       | _ \<Rightarrow> []))"

section \<open>Tags\<close>

definition slice :: "nat \<Rightarrow> nat \<Rightarrow> 'a list \<Rightarrow> 'a list" where
  "slice a b xs = take (b - a) (drop a xs)"

text \<open>\<open>bytes.IndexByte\<close> and \<open>bytes.Index\<close>\<close>

fun index_byte :: "string \<Rightarrow> char \<Rightarrow> nat option" where
  "index_byte [] c = None"
| "index_byte (x # xs) c = (if x = c then Some 0 else map_option Suc (index_byte xs c))"

fun bytes_Index :: "string \<Rightarrow> string \<Rightarrow> nat option" where
  "bytes_Index [] w = (if w = [] then Some 0 else None)"
| "bytes_Index (x # xs) w =
     (if take (length w) (x # xs) = w then Some 0 else map_option Suc (bytes_Index xs w))"

definition tagNameByte :: "char \<Rightarrow> bool" where
  "tagNameByte c \<longleftrightarrow> CHR ''a'' \<le> c \<and> c \<le> CHR ''z'' \<or> CHR ''0'' \<le> c \<and> c \<le> CHR ''9'' \<or> c = CHR '':'' \<or> c = CHR ''-''"

text \<open>The two loops over a tag: the end of its name, and the octet that closes it outside quotes.\<close>

function name_end :: "string \<Rightarrow> nat \<Rightarrow> nat \<Rightarrow> nat" where
  "name_end s cursor limit =
     (if cursor < limit \<and> tagNameByte (s ! cursor) then name_end s (cursor + 1) limit else cursor)"
  by pat_completeness auto
termination by (relation "measure (\<lambda>(s, cursor, limit). limit - cursor)") auto

function tag_end :: "string \<Rightarrow> char option \<Rightarrow> nat \<Rightarrow> nat \<Rightarrow> nat option" where
  "tag_end s quote cursor limit =
     (if cursor < limit then
        let character = s ! cursor in
        (case quote of
           Some q \<Rightarrow> tag_end s (if character = q then None else Some q) (cursor + 1) limit
         | None \<Rightarrow>
             if character = CHR 0x27 \<or> character = CHR 0x22 then tag_end s (Some character) (cursor + 1) limit
             else if character = CHR ''>'' then Some (cursor + 1)
             else tag_end s None (cursor + 1) limit)
      else None)"
  by pat_completeness auto
termination by (relation "measure (\<lambda>(s, q, cursor, limit). limit - cursor)") auto

declare name_end.simps [simp del] tag_end.simps [simp del]

record tag =
  tg_start :: nat
  tg_end :: nat
  tg_name :: string
  tg_closing :: bool

definition read_tag :: "string \<Rightarrow> nat \<Rightarrow> nat \<Rightarrow> error + tag option" where
  "read_tag s start limit =
     (let closing = (start + 1 < limit \<and> s ! (start + 1) = CHR ''/'');
          nameStart = (if closing then start + 2 else start + 1);
          cursor = name_end s nameStart limit
      in if cursor = nameStart then Inr None
         else case tag_end s None cursor limit of
             None \<Rightarrow> Inl (Msg ''archiveprofile: unterminated tag'')
           | Some e \<Rightarrow> Inr (Some \<lparr>tg_start = start, tg_end = e, tg_name = slice nameStart cursor s, tg_closing = closing\<rparr>))"

text \<open>A result of \<open>None\<close> is the start \<open>-1\<close> without an error.\<close>

function nextTag :: "string \<Rightarrow> nat \<Rightarrow> nat \<Rightarrow> error + tag option" where
  "nextTag s offset limit =
     (if offset < limit then
        (case index_byte (slice offset limit s) CHR ''<'' of
           None \<Rightarrow> Inr None
         | Some relative \<Rightarrow>
             if take 4 (slice (offset + relative) limit s) = ''<!--'' then
               (case bytes_Index (slice (offset + relative + 4) limit s) ''-->'' of
                  None \<Rightarrow> Inl (Msg ''archiveprofile: unterminated comment'')
                | Some close \<Rightarrow> nextTag s (offset + relative + 4 + close + 3) limit)
             else
               (case read_tag s (offset + relative) limit of
                  Inl e \<Rightarrow> Inl e
                | Inr (Some t) \<Rightarrow> Inr (Some t)
                | Inr None \<Rightarrow> nextTag s (offset + relative + 1) limit))
      else Inr None)"
  by pat_completeness auto
termination by (relation "measure (\<lambda>(s, offset, limit). limit - offset)") auto

declare nextTag.simps [simp del]

lemma name_end_le: "cursor \<le> name_end s cursor limit"
  by (induction s cursor limit rule: name_end.induct) (subst name_end.simps, auto)

lemma tag_end_bounds: "tag_end s q cursor limit = Some e \<Longrightarrow> cursor < e \<and> e \<le> limit \<and> s ! (e - 1) = CHR ''>''"
proof (induction s q cursor limit rule: tag_end.induct)
  case (1 s quote cursor limit)
  note ih = 1(1-3) and eq = 1(4)
  show ?case
  proof (cases "cursor < limit")
    case True
    have step: "cursor < e \<and> e \<le> limit \<and> s ! (e - 1) = CHR ''>''"
      if "cursor + 1 < e \<and> e \<le> limit \<and> s ! (e - 1) = CHR ''>''" using that by simp
    show ?thesis
    proof (cases quote)
      case None
      then show ?thesis
        using eq ih(1,2) [OF True refl None] True step
        by (subst (asm) tag_end.simps) (auto simp: Let_def split: if_splits)
    next
      case (Some q)
      then have "tag_end s (if s ! cursor = q then None else Some q) (cursor + 1) limit = Some e"
        using eq True by (subst (asm) tag_end.simps) (simp add: Let_def)
      from step [OF ih(3) [OF True refl Some this]] show ?thesis .
    qed
  next
    case False
    with eq show ?thesis by (subst (asm) tag_end.simps) simp
  qed
qed

lemma read_tag_bounds:
  assumes "read_tag s start limit = Inr (Some t)"
  shows "tg_start t = start \<and> start < tg_end t \<and> tg_end t \<le> limit \<and> s ! (tg_end t - 1) = CHR ''>''"
proof -
  let ?n = "if start + 1 < limit \<and> s ! (start + 1) = CHR ''/'' then start + 2 else start + 1"
  have "start < name_end s ?n limit" using name_end_le [of ?n s limit] by (auto split: if_splits)
  with assms tag_end_bounds [of s None "name_end s ?n limit" limit] show ?thesis
    by (auto simp: read_tag_def Let_def split: if_splits option.splits)
qed

lemma index_byte_Some: "index_byte xs c = Some k \<Longrightarrow> k < length xs \<and> xs ! k = c"
  by (induction xs arbitrary: k) (auto split: if_splits)

lemma index_slice: "index_byte (slice a b s) c = Some k \<Longrightarrow> a + k < b \<and> s ! (a + k) = c"
  by (drule index_byte_Some) (auto simp: slice_def)

text \<open>A tag lies between the offset and the limit, from an opening to a closing bracket.\<close>

lemma nextTag_bounds:
  "nextTag s offset limit = Inr (Some t) \<Longrightarrow>
     offset \<le> tg_start t \<and> tg_start t < tg_end t \<and> tg_end t \<le> limit \<and> s ! tg_start t = CHR ''<'' \<and>
     s ! (tg_end t - 1) = CHR ''>'' \<and> read_tag s (tg_start t) limit = Inr (Some t)"
proof (induction s offset limit rule: nextTag.induct)
  case (1 s offset limit)
  note ih = 1(1,2) and eq = 1(3)
  show ?case
  proof (cases "offset < limit \<and> index_byte (slice offset limit s) CHR ''<'' \<noteq> None")
    case True
    then obtain rel where lt: "offset < limit" and rel: "index_byte (slice offset limit s) CHR ''<'' = Some rel" by auto
    from index_slice [OF rel] have at: "offset + rel < limit" "s ! (offset + rel) = CHR ''<''" by simp_all
    have step: "offset \<le> tg_start t \<and> P" if "offset' \<le> tg_start t \<and> P" "offset \<le> offset'" for offset' P
      using that by auto
    show ?thesis
    proof (cases "take 4 (slice (offset + rel) limit s) = ''<!--''")
      case c: True
      with eq lt rel obtain k where "bytes_Index (slice (offset + rel + 4) limit s) ''-->'' = Some k"
        "nextTag s (offset + rel + 4 + k + 3) limit = Inr (Some t)"
        by (subst (asm) nextTag.simps) (auto split: option.splits)
      from ih(1) [OF lt rel c this] show ?thesis by (rule step) simp
    next
      case c: False
      with eq lt rel consider "read_tag s (offset + rel) limit = Inr (Some t)"
        | "read_tag s (offset + rel) limit = Inr None" "nextTag s (offset + rel + 1) limit = Inr (Some t)"
        by (subst (asm) nextTag.simps) (auto split: option.splits sum.splits)
      then show ?thesis
      proof cases
        case 1
        from read_tag_bounds [OF this] at 1 show ?thesis by auto
      next
        case 2
        from ih(2) [OF lt rel c 2(1) refl 2(2)] show ?thesis by (rule step) simp
      qed
    qed
  next
    case False
    with eq show ?thesis by (subst (asm) nextTag.simps) (auto split: if_splits)
  qed
qed

text \<open>A raw text element: its content is skipped up to its closing tag.\<close>

definition raw_text :: "tag \<Rightarrow> bool" where
  "raw_text t \<longleftrightarrow> \<not> tg_closing t \<and> (tg_name t = ''script'' \<or> tg_name t = ''style'')"

definition unterminated_raw :: error where
  "unterminated_raw = Msg ''archiveprofile: unterminated raw-text element''"

function findClosingTag :: "string \<Rightarrow> string \<Rightarrow> nat \<Rightarrow> nat \<Rightarrow> error + tag option" where
  "findClosingTag s wanted offset limit =
     (if offset < limit then
        (case nextTag s offset limit of
           Inl e \<Rightarrow> Inl e
         | Inr None \<Rightarrow> Inr None
         | Inr (Some t) \<Rightarrow>
             if tg_closing t \<and> tg_name t = wanted then Inr (Some t)
             else if raw_text t then
               (case findClosingTag s (tg_name t) (tg_end t) limit of
                  Inr (Some raw) \<Rightarrow> findClosingTag s wanted (tg_end raw) limit
                | _ \<Rightarrow> Inl unterminated_raw)
             else findClosingTag s wanted (tg_end t) limit)
      else Inr None)"
  by pat_completeness auto

lemma findClosingTag_forward:
  assumes "findClosingTag_dom (s, wanted, offset, limit)"
  shows "findClosingTag s wanted offset limit = Inr (Some t) \<Longrightarrow> offset < tg_end t"
  using assms
proof (induction s wanted offset limit arbitrary: t rule: findClosingTag.pinduct)
  case (1 s wanted offset limit)
  note ih = 1(2-4) and eq = 1(5)
  from eq obtain u where c: "offset < limit" and u: "nextTag s offset limit = Inr (Some u)"
    by (subst (asm) findClosingTag.psimps [OF 1(1)]) (auto split: if_splits sum.splits option.splits)
  from nextTag_bounds [OF u] c have b: "offset < tg_end u" by simp
  show ?case
  proof (cases "tg_closing u \<and> tg_name u = wanted")
    case True
    with eq c u b show ?thesis by (subst (asm) findClosingTag.psimps [OF 1(1)]) simp
  next
    case w: False
    show ?thesis
    proof (cases "raw_text u")
      case True
      with eq c u w obtain raw where raw: "findClosingTag s (tg_name u) (tg_end u) limit = Inr (Some raw)"
        and rest: "findClosingTag s wanted (tg_end raw) limit = Inr (Some t)"
        by (subst (asm) findClosingTag.psimps [OF 1(1)]) (auto split: sum.splits option.splits)
      from ih(1) [OF c u refl w True raw] ih(2) [OF c u refl w True raw refl rest] b show ?thesis by simp
    next
      case False
      with eq c u w have "findClosingTag s wanted (tg_end u) limit = Inr (Some t)"
        by (subst (asm) findClosingTag.psimps [OF 1(1)]) simp
      from ih(3) [OF c u refl w False this] b show ?thesis by simp
    qed
  qed
qed

lemma findClosingTag_total: "All findClosingTag_dom"
proof (rule "findClosingTag.termination" [of "measure (\<lambda>(s, wanted, offset, limit). limit - offset)"])
  show "wf (measure (\<lambda>(s, wanted, offset, limit). limit - offset))" by simp
qed (auto dest!: nextTag_bounds findClosingTag_forward)

termination findClosingTag by (rule findClosingTag_total)

declare findClosingTag.simps [simp del]

lemma findClosingTag_end: "findClosingTag s wanted offset limit = Inr (Some t) \<Longrightarrow> offset < tg_end t"
  by (rule findClosingTag_forward [OF findClosingTag_total [rule_format]])

function findOpeningTag :: "string \<Rightarrow> string \<Rightarrow> nat \<Rightarrow> nat \<Rightarrow> error + tag option" where
  "findOpeningTag s wanted offset limit =
     (if offset < limit then
        (case nextTag s offset limit of
           Inl e \<Rightarrow> Inl e
         | Inr None \<Rightarrow> Inr None
         | Inr (Some t) \<Rightarrow>
             if \<not> tg_closing t \<and> tg_name t = wanted then Inr (Some t)
             else if wanted \<noteq> tg_name t \<and> raw_text t then
               (case findClosingTag s (tg_name t) (tg_end t) limit of
                  Inr (Some raw) \<Rightarrow> findOpeningTag s wanted (tg_end raw) limit
                | _ \<Rightarrow> Inl unterminated_raw)
             else findOpeningTag s wanted (tg_end t) limit)
      else Inr None)"
  by pat_completeness auto
termination
proof (relation "measure (\<lambda>(s, wanted, offset, limit). limit - offset)")
  show "wf (measure (\<lambda>(s, wanted, offset, limit). limit - offset))" by simp
qed (auto dest!: nextTag_bounds findClosingTag_end)

function findOpeningTagBeforeClose :: "string \<Rightarrow> string \<Rightarrow> string \<Rightarrow> nat \<Rightarrow> nat \<Rightarrow> error + tag option" where
  "findOpeningTagBeforeClose s wanted boundary offset limit =
     (if offset < limit then
        (case nextTag s offset limit of
           Inl e \<Rightarrow> Inl e
         | Inr None \<Rightarrow> Inr None
         | Inr (Some t) \<Rightarrow>
             if tg_closing t \<and> tg_name t = boundary then Inr None
             else if \<not> tg_closing t \<and> tg_name t = wanted then Inr (Some t)
             else if raw_text t then
               (case findClosingTag s (tg_name t) (tg_end t) limit of
                  Inr (Some raw) \<Rightarrow> findOpeningTagBeforeClose s wanted boundary (tg_end raw) limit
                | _ \<Rightarrow> Inl unterminated_raw)
             else findOpeningTagBeforeClose s wanted boundary (tg_end t) limit)
      else Inr None)"
  by pat_completeness auto
termination
proof (relation "measure (\<lambda>(s, wanted, boundary, offset, limit). limit - offset)")
  show "wf (measure (\<lambda>(s, wanted, boundary, offset, limit). limit - offset))" by simp
qed (auto dest!: nextTag_bounds findClosingTag_end)

declare findOpeningTag.simps [simp del] findOpeningTagBeforeClose.simps [simp del]

section \<open>The title\<close>

text \<open>
  The slice of the body may reach into \<open>spare\<close>, the octets of the array behind it; beyond them
  it panics (\<open>None\<close>).
\<close>

definition title_error :: "string \<Rightarrow> (error + statement) option" where
  "title_error m = Some (Inl (Msg (''archiveprofile: '' @ m)))"

definition ExtractTitle :: "(nat \<Rightarrow> nat) \<Rightarrow> byte list \<Rightarrow> byte list \<Rightarrow> (error + statement) option" where
  "ExtractTitle table spare body =
     (if body = [] \<or> length body > MaxBody \<or> \<not> utf8_valid body \<or> 0 \<in> set body
      then title_error ''representation is outside bounds''
      else
        let lower = bytes_ToLower table (string_of_bytes body); limit = length lower in
        case findOpeningTag lower ''head'' 0 limit of
          Inr (Some head) \<Rightarrow>
            (case findOpeningTagBeforeClose lower ''title'' ''head'' (tg_end head) limit of
               Inr (Some title) \<Rightarrow>
                 (case findClosingTag lower ''title'' (tg_end title) limit of
                    Inr (Some close) \<Rightarrow>
                      if tg_start close > length body + length spare then None
                      else
                        let lexical = slice (tg_end title) (tg_start close) (string_of_bytes (body @ spare)) in
                        if lexical = [] \<or> length lexical > 65536 \<or> CHR ''<'' \<in> set lexical
                        then title_error ''title lexical value is unresolved''
                        else Some (Inr \<lparr>st_NativeLexical = lexical, st_Locator = TitleLocator\<rparr>)
                  | _ \<Rightarrow> title_error ''closing title element absent'')
             | _ \<Rightarrow> title_error ''title element absent from head'')
        | _ \<Rightarrow> title_error ''head element absent'')"

text \<open>Two entries of the Unicode table: the Kelvin sign and the letter A with stroke.\<close>

definition unicode_sample :: "nat \<Rightarrow> nat" where
  "unicode_sample r = (if r = 0x212A then 0x6B else if r = 0x23A then 0x2C65 else r)"

definition kelvin_page :: "byte list" where
  "kelvin_page = bytes_of_string ''<head a=1'' @ [0xE2, 0x84, 0xAA] @ bytes_of_string ''><title>ab</title>''"

lemma kelvin_text: "string_of_bytes kelvin_page = ''<head a=1'' @ [CHR 0xE2, CHR 0x84, CHR 0xAA] @ ''><title>ab</title>''"
  by (simp add: kelvin_page_def string_of_bytes_def bytes_of_string_def char_of_byte_def byte_of_char_def char_of_eq)

lemma kelvin_lower: "bytes_ToLower unicode_sample (string_of_bytes kelvin_page) = ''<head a=1k><title>ab</title>''"
  unfolding kelvin_text
  by (simp add: unicode_sample_def unicode_ToLower_def encode_rune_def Let_def char_of_eq)

lemmas tag_evaluation = nextTag.simps slice_def read_tag_def Let_def name_end.simps tag_end.simps tagNameByte_def
  less_eq_char_def findOpeningTag.simps findOpeningTagBeforeClose.simps findClosingTag.simps raw_text_def

lemma head_tag: "findOpeningTag ''<head a=1k><title>ab</title>'' ''head'' 0 28 =
    Inr (Some \<lparr>tg_start = 0, tg_end = 11, tg_name = ''head'', tg_closing = False\<rparr>)"
  by (simp add: tag_evaluation)

lemma title_tag: "findOpeningTagBeforeClose ''<head a=1k><title>ab</title>'' ''title'' ''head'' 11 28 =
    Inr (Some \<lparr>tg_start = 11, tg_end = 18, tg_name = ''title'', tg_closing = False\<rparr>)"
  by (simp add: tag_evaluation)

lemma close_tag: "findClosingTag ''<head a=1k><title>ab</title>'' ''title'' 18 28 =
    Inr (Some \<lparr>tg_start = 20, tg_end = 28, tg_name = ''title'', tg_closing = True\<rparr>)"
  by (simp add: tag_evaluation)

lemma page_length: "length ''<head a=1k><title>ab</title>'' = 28"
  by simp

lemma kelvin_title:
  "ExtractTitle unicode_sample spare kelvin_page = Some (Inr \<lparr>st_NativeLexical = ''e>'', st_Locator = TitleLocator\<rparr>)"
proof -
  have b: "kelvin_page \<noteq> []" "length kelvin_page = 30" "utf8_valid kelvin_page" "0 \<notin> set kelvin_page"
    by (simp_all add: kelvin_page_def bytes_of_string_def byte_of_char_def utf8_valid.simps utf8_cont_def)
  have l: "slice 18 20 (string_of_bytes (kelvin_page @ spare)) = ''e>''"
    using kelvin_text by (simp add: string_of_bytes_def slice_def)
  show ?thesis
    unfolding ExtractTitle_def Let_def kelvin_lower page_length
    by (simp add: b MaxBody_def head_tag title_tag close_tag l)
qed

definition stroke_page :: "byte list" where
  "stroke_page = bytes_of_string ''<head a='' @
     [0xC8, 0xBA, 0xC8, 0xBA, 0xC8, 0xBA, 0xC8, 0xBA, 0xC8, 0xBA, 0xC8, 0xBA, 0xC8, 0xBA, 0xC8, 0xBA, 0xC8, 0xBA] @
     bytes_of_string ''><title>ab</title>''"

abbreviation stroke_text :: string where
  "stroke_text \<equiv> ''<head a='' @
     [CHR 0xE2, CHR 0xB1, CHR 0xA5, CHR 0xE2, CHR 0xB1, CHR 0xA5, CHR 0xE2, CHR 0xB1, CHR 0xA5, CHR 0xE2, CHR 0xB1, CHR 0xA5, CHR 0xE2, CHR 0xB1, CHR 0xA5, CHR 0xE2, CHR 0xB1, CHR 0xA5, CHR 0xE2, CHR 0xB1, CHR 0xA5, CHR 0xE2, CHR 0xB1, CHR 0xA5, CHR 0xE2, CHR 0xB1, CHR 0xA5] @
     ''><title>ab</title>''"

lemma stroke_lower: "bytes_ToLower unicode_sample (string_of_bytes stroke_page) = stroke_text"
  by (simp add: stroke_page_def string_of_bytes_def bytes_of_string_def char_of_byte_def byte_of_char_def char_of_eq
      unicode_sample_def unicode_ToLower_def encode_rune_def Let_def)

lemma stroke_length: "length stroke_text = 53"
  by simp

lemma stroke_head: "findOpeningTag stroke_text ''head'' 0 53 =
    Inr (Some \<lparr>tg_start = 0, tg_end = 36, tg_name = ''head'', tg_closing = False\<rparr>)"
  by (simp add: tag_evaluation)

lemma stroke_title: "findOpeningTagBeforeClose stroke_text ''title'' ''head'' 36 53 =
    Inr (Some \<lparr>tg_start = 36, tg_end = 43, tg_name = ''title'', tg_closing = False\<rparr>)"
  by (simp add: tag_evaluation)

lemma stroke_close: "findClosingTag stroke_text ''title'' 43 53 =
    Inr (Some \<lparr>tg_start = 45, tg_end = 53, tg_name = ''title'', tg_closing = True\<rparr>)"
  by (simp add: tag_evaluation)

lemma stroke_panics: "ExtractTitle unicode_sample [] stroke_page = None"
proof -
  have "length stroke_page = 44" "utf8_valid stroke_page" "0 \<notin> set stroke_page"
    by (simp_all add: stroke_page_def bytes_of_string_def byte_of_char_def utf8_valid.simps utf8_cont_def)
  moreover from this have "stroke_page \<noteq> []" by auto
  ultimately show ?thesis
    unfolding ExtractTitle_def Let_def stroke_lower stroke_length stroke_head
    by (simp add: MaxBody_def stroke_title [simplified] stroke_close [simplified])
qed



end
