(* ===== verification/Archive_Title.thy ===== *)
theory Archive_Title
  imports Archive_Profile
begin

text \<open>
  What the extraction of \<open>Archive_Profile\<close> promises: every search returns a tag of the page, lower case
  keeps the positions of ASCII octets when no letter changes its length, and so an extracted title stands
  between the title tags of the page.
\<close>

section \<open>Titles of pages whose letters keep their length\<close>

definition keeps_length :: "(nat \<Rightarrow> nat) \<Rightarrow> bool" where
  "keeps_length table \<longleftrightarrow> (\<forall>r > 0x7F. length (encode_rune (table r)) = length (encode_rune r))"

definition lower_like :: "char \<Rightarrow> char \<Rightarrow> bool" where
  "lower_like c d \<longleftrightarrow> (if of_char c < (0x80 :: nat) then d = lower_char c else of_char d \<ge> (0x80 :: nat))"

lemma wide_rune: "1 < length (encode_rune r) \<Longrightarrow> list_all (\<lambda>d. of_char d \<ge> (0x80 :: nat)) (encode_rune r)"
  by (auto simp: encode_rune_def Let_def of_char_of)

lemma rune_length: "length (encode_rune r) =
   (if 0xD800 \<le> r \<and> r \<le> 0xDFFF \<or> 0x10FFFF < r then 3 else if r < 0x80 then 1 else if r < 0x800 then 2 else if r < 0x10000 then 3 else 4)"
  by (auto simp: encode_rune_def Let_def)

lemma wide_chunk:
  assumes "keeps_length table" "r > 0x7F" "length cs = length (encode_rune r)" "list_all (\<lambda>c. of_char c \<ge> (0x80 :: nat)) cs"
  shows "list_all2 lower_like cs (encode_rune (unicode_ToLower table r))"
proof -
  let ?e = "encode_rune (unicode_ToLower table r)"
  have l: "length ?e = length cs" using assms(1,2,3) by (simp add: unicode_ToLower_def keeps_length_def)
  moreover have "1 < length (encode_rune r)" using assms(2) by (auto simp: rune_length)
  ultimately have "list_all (\<lambda>d. of_char d \<ge> (0x80 :: nat)) ?e" using assms(3) by (intro wide_rune) simp
  moreover have "of_char (cs ! i) \<ge> (0x80 :: nat)" if "i < length cs" for i
    using assms(4) that by (simp add: list_all_length)
  ultimately show ?thesis
    using l by (simp add: list_all2_conv_all_nth lower_like_def list_all_length not_less [symmetric])
qed

lemma mod_window: "k * m \<le> n \<Longrightarrow> n < k * m + m \<Longrightarrow> n mod m = n - k * m" for n m k :: nat
  using mod_mult_self1 [of "n - k * m" k m] by simp

lemma of_char_of_byte: "of_char (char_of_byte b) = unat b"
  using unat_byte_bound [of b] by (simp add: char_of_byte_def of_char_of)

lemma utf8_valid_head:
  assumes "utf8_valid (b # bs)"
  obtains (1) "unat b < 0x80" "utf8_valid bs"
    | (2) c r where "0xC2 \<le> unat b" "unat b \<le> 0xDF" "bs = c # r" "utf8_cont c" "utf8_valid r"
    | (3) c d r where "0xE0 \<le> unat b" "unat b \<le> 0xEF" "bs = c # d # r" "utf8_cont c" "utf8_cont d"
        "unat b = 0xE0 \<longrightarrow> 0xA0 \<le> unat c" "utf8_valid r"
    | (4) c d e r where "0xF0 \<le> unat b" "unat b \<le> 0xF4" "bs = c # d # e # r" "utf8_cont c" "utf8_cont d" "utf8_cont e"
        "unat b = 0xF0 \<longrightarrow> 0x90 \<le> unat c" "unat b = 0xF4 \<longrightarrow> unat c \<le> 0x8F" "utf8_valid r"
proof -
  have le: "(v \<le> w) = (unat v \<le> unat w)" "(v < w) = (unat v < unat w)" "(v = w) = (unat v = unat w)" for v w :: byte
    by (simp_all add: word_le_nat_alt word_less_nat_alt word_unat_eq_iff)
  consider (a) "b < 0x80" | (b) "\<not> b < 0x80" "0xC2 \<le> b \<and> b \<le> 0xDF"
    | (c) "\<not> b < 0x80" "\<not> (0xC2 \<le> b \<and> b \<le> 0xDF)" "0xE0 \<le> b \<and> b \<le> 0xEF"
    | (d) "\<not> b < 0x80" "\<not> (0xC2 \<le> b \<and> b \<le> 0xDF)" "\<not> (0xE0 \<le> b \<and> b \<le> 0xEF)" "0xF0 \<le> b \<and> b \<le> 0xF4"
    using assms by (auto simp: utf8_valid.simps(2) split: if_splits)
  then show thesis
  proof cases
    case a
    with assms show thesis by (intro that(1)) (simp_all add: utf8_valid.simps(2) le)
  next
    case b
    with assms obtain c r where "bs = c # r" "utf8_cont c" "utf8_valid r"
      by (auto simp: utf8_valid.simps(2) split: list.splits)
    with b show thesis by (intro that(2)) (simp_all add: le)
  next
    case c
    with assms obtain x d r where "bs = x # d # r" "utf8_cont x" "utf8_cont d" "b = 0xE0 \<longrightarrow> 0xA0 \<le> x" "utf8_valid r"
      by (auto simp: utf8_valid.simps(2) split: list.splits)
    with c show thesis by (intro that(3) [of x d r]) (simp_all add: le)
  next
    case d
    with assms obtain x y z r where "bs = x # y # z # r" "utf8_cont x" "utf8_cont y" "utf8_cont z"
      "b = 0xF0 \<longrightarrow> 0x90 \<le> x" "b = 0xF4 \<longrightarrow> x \<le> 0x8F" "utf8_valid r"
      by (auto simp: utf8_valid.simps(2) split: list.splits)
    with d show thesis by (intro that(4) [of x y z r]) (simp_all add: le)
  qed
qed

lemma four_octets: "16 \<le> v \<Longrightarrow> v \<le> 271 \<Longrightarrow> 0x10000 \<le> (v * 64 + d mod 64) * 64 + e mod 64 \<and>
    (v * 64 + d mod 64) * 64 + e mod 64 \<le> 0x10FFFF" for v d e :: nat
  using mod_less_divisor [of 64 d] mod_less_divisor [of 64 e] by (simp add: algebra_simps)

lemma lower_agrees:
  assumes "keeps_length table"
  shows "utf8_valid bs \<Longrightarrow> list_all2 lower_like (string_of_bytes bs) (bytes_ToLower table (string_of_bytes bs))"
proof (induction bs rule: length_induct)
  case (1 bs)
  then have ih: "utf8_valid r \<Longrightarrow> length r < length bs \<Longrightarrow>
      list_all2 lower_like (string_of_bytes r) (bytes_ToLower table (string_of_bytes r))" for r by blast
  have cont: "0x80 \<le> unat c \<and> unat c \<le> 0xBF \<and> unat c mod 64 = unat c - 0x80" if "utf8_cont c" for c :: byte
  proof -
    have "0x80 \<le> unat c" "unat c \<le> 0xBF" using that by (simp_all add: utf8_cont_def word_le_nat_alt)
    with mod_window [of 2 64 "unat c"] show ?thesis by simp
  qed
  have join: "list_all2 lower_like (cs @ string_of_bytes r) (encode_rune (unicode_ToLower table n) @ bytes_ToLower table (string_of_bytes r))"
    if "utf8_valid r" "length r < length bs" "n > 0x7F" "length cs = length (encode_rune n)"
      "list_all (\<lambda>c. of_char c \<ge> (0x80 :: nat)) cs" for cs n and r :: "byte list"
    by (rule list_all2_appendI [OF wide_chunk [OF assms that(3-5)] ih [OF that(1,2)]])
  note read = string_of_bytes_def of_char_of_byte
  show ?case
  proof (cases bs)
    case (Cons b bs')
    with \<open>utf8_valid bs\<close> have "utf8_valid (b # bs')" by simp
    then show ?thesis
    proof (cases rule: utf8_valid_head)
      case 1
      have "encode_rune (unicode_ToLower table (unat b)) = [lower_char (char_of_byte b)]"
        using 1(1) by (auto simp: unicode_ToLower_def encode_rune_def lower_char_def of_char_of_byte char_of_byte_def)
      moreover have "lower_like (char_of_byte b) (lower_char (char_of_byte b))"
        using 1(1) by (simp add: lower_like_def of_char_of_byte)
      ultimately show ?thesis using 1 ih [OF 1(2)] Cons by (simp add: read)
    next
      case (2 c r)
      define n where "n = unat b mod 32 * 64 + unat c mod 64"
      have "unat b mod 32 = unat b - 0xC0" using mod_window [of 6 32 "unat b"] 2 by simp
      then have "n > 0x7F" "n < 0x800" using 2 cont [OF 2(4)] unfolding n_def by linarith+
      then show ?thesis
        using join [of r n "[char_of_byte b, char_of_byte c]"] 2 cont [OF 2(4)] Cons
        by (simp add: read rune_length n_def)
    next
      case (3 c d r)
      define n where "n = (unat b mod 16 * 64 + unat c mod 64) * 64 + unat d mod 64"
      have "unat b mod 16 = unat b - 0xE0" using mod_window [of 14 16 "unat b"] 3 by simp
      then have "n \<ge> 0x800" "n < 0x10000"
        using 3 cont [OF 3(4)] cont [OF 3(5)] unfolding n_def by (cases "unat b = 0xE0"; auto)+
      then show ?thesis
        using join [of r n "[char_of_byte b, char_of_byte c, char_of_byte d]"] 3 cont [OF 3(4)] cont [OF 3(5)] Cons
        by (simp add: read rune_length n_def)
    next
      case (4 c d e r)
      define n where "n = ((unat b mod 8 * 64 + unat c mod 64) * 64 + unat d mod 64) * 64 + unat e mod 64"
      have "unat b mod 8 = unat b - 0xF0" using mod_window [of 30 8 "unat b"] 4 by simp
      then have "16 \<le> unat b mod 8 * 64 + unat c mod 64" "unat b mod 8 * 64 + unat c mod 64 \<le> 271"
        using 4(1,2,7,8) cont [OF 4(4)] by (cases "unat b = 0xF0"; cases "unat b = 0xF4"; force)+
      then have "n \<ge> 0x10000" "n \<le> 0x10FFFF" unfolding n_def by (simp_all add: four_octets)
      moreover have "list_all (\<lambda>x. of_char x \<ge> (0x80 :: nat)) [char_of_byte b, char_of_byte c, char_of_byte d, char_of_byte e]"
        using 4(1) cont [OF 4(4)] cont [OF 4(5)] cont [OF 4(6)] by (simp add: of_char_of_byte)
      ultimately show ?thesis
        using join [of r n "[char_of_byte b, char_of_byte c, char_of_byte d, char_of_byte e]"] 4 Cons
        by (simp add: read rune_length n_def)
    qed
  qed (simp add: string_of_bytes_def)
qed


lemma slice_append:
  assumes "a \<le> b" "b \<le> c"
  shows "slice a b s @ slice b c s = slice a c s"
proof -
  from assms have "c - a = (b - a) + (c - b)" "drop (b - a) (drop a s) = drop b s" by simp_all
  then show ?thesis unfolding slice_def by (simp only: take_add)
qed

lemma slice_whole: "a \<le> b \<Longrightarrow> s = take a s @ slice a b s @ drop b s"
  using slice_append [of 0 a b s] append_take_drop_id [of b s]
  by (simp add: slice_def flip: append_assoc)

lemma slice_length: "b \<le> length s \<Longrightarrow> length (slice a b s) = b - a"
  by (simp add: slice_def)

lemma slice_nth: "i < b - a \<Longrightarrow> b \<le> length s \<Longrightarrow> slice a b s ! i = s ! (a + i)"
  by (simp add: slice_def)

text \<open>The octets a tag begins with.\<close>

definition tag_opening :: "tag \<Rightarrow> string" where
  "tag_opening t = (if tg_closing t then ''</'' else ''<'') @ tg_name t"

definition tag_text :: "string \<Rightarrow> tag \<Rightarrow> string" where
  "tag_text s t = slice (tg_start t) (tg_end t) s"

lemma read_tag_text:
  assumes "read_tag s start limit = Inr (Some t)" "s ! start = CHR ''<''" "limit \<le> length s"
  shows "take (length (tag_opening t)) (tag_text s t) = tag_opening t"
proof -
  let ?c = "start + 1 < limit \<and> s ! (start + 1) = CHR ''/''"
  define n where "n = (if ?c then start + 2 else start + 1)"
  define e where "e = name_end s n limit"
  from assms(1) have t: "tg_start t = start" "tg_closing t = ?c" "tg_name t = slice n e s" "tag_end s None e limit = Some (tg_end t)"
    by (auto simp: read_tag_def Let_def n_def e_def split: if_splits option.splits)
  from tag_end_bounds [OF t(4)] name_end_le [of n s limit] assms(3)
  have b: "n \<le> e" "e < tg_end t" "tg_end t \<le> length s" by (auto simp: e_def)
  have "slice start n s = (if ?c then ''</'' else ''<'')"
    using assms(2) b
    by (auto simp: n_def slice_length slice_nth nth_Cons' less_2_cases_iff numeral_2_eq_2 less_Suc_eq intro!: nth_equalityI)
  then have o: "tag_opening t = slice start e s"
    using slice_append [of start n e s] b by (simp add: tag_opening_def t n_def split: if_splits)
  moreover have "length (tag_opening t) = e - start" using b o by (simp add: slice_length)
  moreover have "e - start \<le> tg_end t - start" using b by simp
  ultimately show ?thesis by (simp add: tag_text_def t slice_def min_absorb1)
qed

definition tag_at :: "string \<Rightarrow> nat \<Rightarrow> tag \<Rightarrow> bool" where
  "tag_at s limit t \<longleftrightarrow> s ! tg_start t = CHR ''<'' \<and> s ! (tg_end t - 1) = CHR ''>'' \<and> tg_start t < tg_end t \<and>
     tg_end t \<le> limit \<and> read_tag s (tg_start t) limit = Inr (Some t)"

lemma nextTag_at: "nextTag s offset limit = Inr (Some t) \<Longrightarrow> offset \<le> tg_start t \<and> tag_at s limit t"
  using nextTag_bounds [of s offset limit t] by (auto simp: tag_at_def)

lemma found_later: "offset \<le> k \<Longrightarrow> k \<le> m \<and> P \<Longrightarrow> offset \<le> m \<and> P" for offset :: nat
  by auto

lemma tag_at_end: "tag_at s limit t \<Longrightarrow> tg_start t \<le> tg_end t"
  by (simp add: tag_at_def)

text \<open>How each search finds a tag.\<close>

lemma findClosingTag_Some:
  assumes "findClosingTag s wanted offset limit = Inr (Some t)"
  shows "\<exists>u. offset < limit \<and> nextTag s offset limit = Inr (Some u) \<and>
     (if tg_closing u \<and> tg_name u = wanted then u = t
      else if raw_text u then \<exists>raw. findClosingTag s (tg_name u) (tg_end u) limit = Inr (Some raw) \<and>
        findClosingTag s wanted (tg_end raw) limit = Inr (Some t)
      else findClosingTag s wanted (tg_end u) limit = Inr (Some t))"
proof -
  from assms obtain u where "offset < limit" "nextTag s offset limit = Inr (Some u)"
    by (subst (asm) findClosingTag.simps) (simp split: if_splits sum.splits option.splits)
  with assms show ?thesis
    by (intro exI [of _ u], subst (asm) findClosingTag.simps) (auto split: if_splits sum.splits option.splits)
qed

lemma findOpeningTag_Some:
  assumes "findOpeningTag s wanted offset limit = Inr (Some t)"
  shows "\<exists>u. offset < limit \<and> nextTag s offset limit = Inr (Some u) \<and>
     (if \<not> tg_closing u \<and> tg_name u = wanted then u = t
      else if wanted \<noteq> tg_name u \<and> raw_text u then \<exists>raw. findClosingTag s (tg_name u) (tg_end u) limit = Inr (Some raw) \<and>
        findOpeningTag s wanted (tg_end raw) limit = Inr (Some t)
      else findOpeningTag s wanted (tg_end u) limit = Inr (Some t))"
proof -
  from assms obtain u where "offset < limit" "nextTag s offset limit = Inr (Some u)"
    by (subst (asm) findOpeningTag.simps) (simp split: if_splits sum.splits option.splits)
  with assms show ?thesis
    by (intro exI [of _ u], subst (asm) findOpeningTag.simps) (auto split: if_splits sum.splits option.splits)
qed

lemma findOpeningTagBeforeClose_Some:
  assumes "findOpeningTagBeforeClose s wanted boundary offset limit = Inr (Some t)"
  shows "\<exists>u. offset < limit \<and> nextTag s offset limit = Inr (Some u) \<and> \<not> (tg_closing u \<and> tg_name u = boundary) \<and>
     (if \<not> tg_closing u \<and> tg_name u = wanted then u = t
      else if raw_text u then \<exists>raw. findClosingTag s (tg_name u) (tg_end u) limit = Inr (Some raw) \<and>
        findOpeningTagBeforeClose s wanted boundary (tg_end raw) limit = Inr (Some t)
      else findOpeningTagBeforeClose s wanted boundary (tg_end u) limit = Inr (Some t))"
proof -
  from assms obtain u where "offset < limit" "nextTag s offset limit = Inr (Some u)"
    by (subst (asm) findOpeningTagBeforeClose.simps) (simp split: if_splits sum.splits option.splits)
  with assms show ?thesis
    by (intro exI [of _ u], subst (asm) findOpeningTagBeforeClose.simps) (auto split: if_splits sum.splits option.splits)
qed

lemma findClosingTag_found:
  "findClosingTag s wanted offset limit = Inr (Some t) \<Longrightarrow>
     offset \<le> tg_start t \<and> tag_at s limit t \<and> tg_closing t \<and> tg_name t = wanted"
proof (induction s wanted offset limit arbitrary: t rule: findClosingTag.induct)
  case (1 s wanted offset limit)
  from findClosingTag_Some [OF 1(4)] obtain u where c: "offset < limit" and u: "nextTag s offset limit = Inr (Some u)"
    and rest: "if tg_closing u \<and> tg_name u = wanted then u = t
      else if raw_text u then \<exists>raw. findClosingTag s (tg_name u) (tg_end u) limit = Inr (Some raw) \<and>
        findClosingTag s wanted (tg_end raw) limit = Inr (Some t)
      else findClosingTag s wanted (tg_end u) limit = Inr (Some t)" by blast
  from nextTag_at [OF u] have at: "offset \<le> tg_end u" by (auto simp: tag_at_def)
  show ?case
  proof (cases "tg_closing u \<and> tg_name u = wanted")
    case True
    with rest nextTag_at [OF u] show ?thesis by simp
  next
    case w: False
    show ?thesis
    proof (cases "raw_text u")
      case True
      with rest w obtain raw where raw: "findClosingTag s (tg_name u) (tg_end u) limit = Inr (Some raw)"
        "findClosingTag s wanted (tg_end raw) limit = Inr (Some t)" by auto
      from 1(1) [OF c u refl w True raw(1)] have "tg_end u \<le> tg_end raw" by (auto simp: tag_at_def)
      with at have "offset \<le> tg_end raw" by simp
      then show ?thesis using 1(2) [OF c u refl w True raw(1) refl raw(2)] by (rule found_later)
    next
      case False
      with rest w have "findClosingTag s wanted (tg_end u) limit = Inr (Some t)" by simp
      from at 1(3) [OF c u refl w False this] show ?thesis by (rule found_later)
    qed
  qed
qed

lemma findOpeningTag_found:
  "findOpeningTag s wanted offset limit = Inr (Some t) \<Longrightarrow>
     offset \<le> tg_start t \<and> tag_at s limit t \<and> \<not> tg_closing t \<and> tg_name t = wanted"
proof (induction s wanted offset limit rule: findOpeningTag.induct)
  case (1 s wanted offset limit)
  from findOpeningTag_Some [OF 1(3)] obtain u where c: "offset < limit" and u: "nextTag s offset limit = Inr (Some u)"
    and rest: "if \<not> tg_closing u \<and> tg_name u = wanted then u = t
      else if wanted \<noteq> tg_name u \<and> raw_text u then \<exists>raw. findClosingTag s (tg_name u) (tg_end u) limit = Inr (Some raw) \<and>
        findOpeningTag s wanted (tg_end raw) limit = Inr (Some t)
      else findOpeningTag s wanted (tg_end u) limit = Inr (Some t)" by blast
  from nextTag_at [OF u] have at: "offset \<le> tg_end u" by (auto simp: tag_at_def)
  show ?case
  proof (cases "\<not> tg_closing u \<and> tg_name u = wanted")
    case True
    with rest nextTag_at [OF u] show ?thesis by simp
  next
    case w: False
    show ?thesis
    proof (cases "wanted \<noteq> tg_name u \<and> raw_text u")
      case True
      with rest w obtain raw where raw: "findClosingTag s (tg_name u) (tg_end u) limit = Inr (Some raw)"
        "findOpeningTag s wanted (tg_end raw) limit = Inr (Some t)" by auto
      from findClosingTag_found [OF raw(1)] have "tg_end u \<le> tg_end raw" by (auto simp: tag_at_def)
      with at have "offset \<le> tg_end raw" by simp
      then show ?thesis using 1(1) [OF c u refl w True raw(1) refl raw(2)] by (rule found_later)
    next
      case False
      with rest w have "findOpeningTag s wanted (tg_end u) limit = Inr (Some t)" by auto
      from at 1(2) [OF c u refl w False this] show ?thesis by (rule found_later)
    qed
  qed
qed

lemma findOpeningTagBeforeClose_found:
  "findOpeningTagBeforeClose s wanted boundary offset limit = Inr (Some t) \<Longrightarrow>
     offset \<le> tg_start t \<and> tag_at s limit t \<and> \<not> tg_closing t \<and> tg_name t = wanted"
proof (induction s wanted boundary offset limit rule: findOpeningTagBeforeClose.induct)
  case (1 s wanted boundary offset limit)
  from findOpeningTagBeforeClose_Some [OF 1(3)] obtain u where c: "offset < limit" and u: "nextTag s offset limit = Inr (Some u)"
    and nb: "\<not> (tg_closing u \<and> tg_name u = boundary)" and rest: "if \<not> tg_closing u \<and> tg_name u = wanted then u = t
      else if raw_text u then \<exists>raw. findClosingTag s (tg_name u) (tg_end u) limit = Inr (Some raw) \<and>
        findOpeningTagBeforeClose s wanted boundary (tg_end raw) limit = Inr (Some t)
      else findOpeningTagBeforeClose s wanted boundary (tg_end u) limit = Inr (Some t)" by blast
  from nextTag_at [OF u] have at: "offset \<le> tg_end u" by (auto simp: tag_at_def)
  show ?case
  proof (cases "\<not> tg_closing u \<and> tg_name u = wanted")
    case True
    with rest nextTag_at [OF u] show ?thesis by simp
  next
    case w: False
    show ?thesis
    proof (cases "raw_text u")
      case True
      with rest w obtain raw where raw: "findClosingTag s (tg_name u) (tg_end u) limit = Inr (Some raw)"
        "findOpeningTagBeforeClose s wanted boundary (tg_end raw) limit = Inr (Some t)" by auto
      from findClosingTag_found [OF raw(1)] have "tg_end u \<le> tg_end raw" by (auto simp: tag_at_def)
      with at have "offset \<le> tg_end raw" by simp
      then show ?thesis using 1(1) [OF c u refl nb w True raw(1) refl raw(2)] by (rule found_later)
    next
      case False
      with rest w have "findOpeningTagBeforeClose s wanted boundary (tg_end u) limit = Inr (Some t)" by auto
      from at 1(2) [OF c u refl nb w False this] show ?thesis by (rule found_later)
    qed
  qed
qed

lemma lower_back:
  assumes "list_all2 lower_like t s" "i < length t" "of_char (s ! i) < (0x80 :: nat)"
  shows "lower_char (t ! i) = s ! i"
  using list_all2_nthD [OF assms(1,2)] assms(3) by (auto simp: lower_like_def split: if_splits)

text \<open>An ASCII text of the lower case page stands in the page, but for the case of its letters.\<close>

lemma lower_slice:
  assumes "list_all2 lower_like t s" "b \<le> length s" "take k (slice a b s) = w" "is_ascii w"
  shows "map lower_char (take k (slice a b t)) = w"
proof (rule nth_equalityI)
  have l: "length t = length s" using assms(1) by (rule list_all2_lengthD)
  show "length (map lower_char (take k (slice a b t))) = length w"
    using assms(2) l by (simp add: slice_length flip: assms(3))
  fix i assume "i < length (map lower_char (take k (slice a b t)))"
  then have i: "i < k" "i < b - a" "a + i < length t" using assms(2) l by (auto simp: slice_length)
  then have w: "w ! i = s ! (a + i)" "i < length w"
    using assms(2) by (auto simp: slice_nth slice_length simp flip: assms(3))
  then have "of_char (s ! (a + i)) < (0x80 :: nat)" using assms(4) by (auto simp: is_ascii_def list_all_length)
  with lower_back [OF assms(1) i(3)] w i assms(2) l show "map lower_char (take k (slice a b t)) ! i = w ! i"
    by (simp add: slice_nth slice_length)
qed

definition tag_of :: "string \<Rightarrow> string \<Rightarrow> bool" where
  "tag_of opening t \<longleftrightarrow> map lower_char (take (length opening) t) = opening \<and> t \<noteq> [] \<and> last t = CHR ''>''"

lemma lower_ascii: "lower_char c = CHR ''>'' \<Longrightarrow> c = CHR ''>''"
  by (auto simp: lower_char_def Let_def char_of_eq split: if_splits)

lemma tag_of_text:
  assumes "list_all2 lower_like t s" "tag_at s (length s) x" "is_ascii (tag_opening x)"
  shows "tag_of (tag_opening x) (tag_text t x)"
proof -
  have l: "length t = length s" using assms(1) by (rule list_all2_lengthD)
  from assms(2) have at: "read_tag s (tg_start x) (length s) = Inr (Some x)" "s ! tg_start x = CHR ''<''"
    "s ! (tg_end x - 1) = CHR ''>''" "tg_start x < tg_end x" "tg_end x \<le> length s" by (auto simp: tag_at_def)
  have "map lower_char (take (length (tag_opening x)) (tag_text t x)) = tag_opening x"
    unfolding tag_text_def
    by (rule lower_slice [OF assms(1) at(5) _ assms(3)]) (use read_tag_text [OF at(1,2)] in \<open>simp add: tag_text_def\<close>)
  moreover have "length (tag_text t x) = tg_end x - tg_start x" using at l by (simp add: tag_text_def slice_length)
  moreover from this have n: "tag_text t x \<noteq> []" using at(4) by auto
  moreover have "last (tag_text t x) = t ! (tg_end x - 1)"
    using at l using n by (simp add: last_conv_nth tag_text_def slice_length slice_nth)
  moreover have "t ! (tg_end x - 1) = CHR ''>''"
    using lower_back [OF assms(1), of "tg_end x - 1"] at l by (simp add: lower_ascii)
  ultimately show ?thesis by (simp add: tag_of_def)
qed

lemma cut_page:
  assumes "a \<le> b" "b \<le> c" "c \<le> d" "d \<le> e" "e \<le> f"
  shows "\<exists>p q r. t = p @ slice a b t @ q @ slice c d t @ slice d e t @ slice e f t @ r"
proof -
  have "t = take a t @ slice a f t @ drop f t" using assms by (intro slice_whole) simp
  also have "slice a f t = slice a b t @ slice b c t @ slice c d t @ slice d e t @ slice e f t"
    using assms by (simp add: slice_append [of _ _ f])
  finally show ?thesis by (metis append_assoc)
qed

lemma ExtractTitle_Some:
  assumes "ExtractTitle table spare body = Some (Inr st)"
  shows "utf8_valid body \<and> (\<exists>h x c. let s = bytes_ToLower table (string_of_bytes body) in
    findOpeningTag s ''head'' 0 (length s) = Inr (Some h) \<and>
    findOpeningTagBeforeClose s ''title'' ''head'' (tg_end h) (length s) = Inr (Some x) \<and>
    findClosingTag s ''title'' (tg_end x) (length s) = Inr (Some c) \<and>
    (let lexical = slice (tg_end x) (tg_start c) (string_of_bytes (body @ spare)) in
     st = \<lparr>st_NativeLexical = lexical, st_Locator = TitleLocator\<rparr> \<and>
     lexical \<noteq> [] \<and> length lexical \<le> 65536 \<and> CHR ''<'' \<notin> set lexical))"
proof -
  define s where "s = bytes_ToLower table (string_of_bytes body)"
  define lexical where "lexical a b = slice a b (string_of_bytes (body @ spare))" for a b
  note body = assms [unfolded ExtractTitle_def title_error_def Let_def, folded s_def lexical_def]
  from body have u: "utf8_valid body" by (simp split: if_splits)
  from body obtain h where h: "findOpeningTag s ''head'' 0 (length s) = Inr (Some h)"
    by (simp split: if_splits sum.splits option.splits)
  from body h obtain x where x: "findOpeningTagBeforeClose s ''title'' ''head'' (tg_end h) (length s) = Inr (Some x)"
    by (simp split: if_splits sum.splits option.splits)
  from body h x obtain c where c: "findClosingTag s ''title'' (tg_end x) (length s) = Inr (Some c)"
    by (simp split: if_splits sum.splits option.splits)
  from body h x c have "st = \<lparr>st_NativeLexical = lexical (tg_end x) (tg_start c), st_Locator = TitleLocator\<rparr> \<and>
     lexical (tg_end x) (tg_start c) \<noteq> [] \<and> length (lexical (tg_end x) (tg_start c)) \<le> 65536 \<and>
     CHR ''<'' \<notin> set (lexical (tg_end x) (tg_start c))"
    by (simp split: if_splits)
  with u h x c show ?thesis by (auto simp: Let_def s_def lexical_def)
qed


lemma plain_page: "ExtractTitle (\<lambda>r. r) [] (bytes_of_string ''<head a=1k><title>ab</title>'') =
    Some (Inr \<lparr>st_NativeLexical = ''ab'', st_Locator = TitleLocator\<rparr>)"
proof -
  let ?b = "bytes_of_string ''<head a=1k><title>ab</title>''"
  have "bytes_ToLower (\<lambda>r. r) (string_of_bytes ?b) = ''<head a=1k><title>ab</title>''"
    by (simp add: unicode_ToLower_def encode_rune_def Let_def char_of_eq)
  moreover have "?b \<noteq> []" "length ?b = 28" "utf8_valid ?b" "0 \<notin> set ?b"
    by (simp_all add: bytes_of_string_def byte_of_char_def utf8_valid.simps utf8_cont_def)
  ultimately show ?thesis
    by (simp only: ExtractTitle_def Let_def page_length) (simp add: MaxBody_def head_tag title_tag close_tag slice_def)
qed


end
