(* ===== verification/Json_Validator.thy ===== *)
theory Json_Validator
  imports Json_Bounded
begin

text \<open>
  The bounded decoder against the grammar: the validator, which reads tokens, and the decoder, which
  reads values, accept the same documents, and the validator always returns.
\<close>

section \<open>The reader of tokens\<close>

abbreviation dstate :: "string \<Rightarrow> token_state \<Rightarrow> token_state list \<Rightarrow> json_decoder" where
  "dstate s st stk \<equiv> \<lparr>jd_input = s, jd_state = st, jd_stack = stk\<rparr>"

abbreviation vstate :: "string \<Rightarrow> token_state \<Rightarrow> token_state list \<Rightarrow> int \<Rightarrow> validator" where
  "vstate s st stk k \<equiv> \<lparr>va_decoder = dstate s st stk, va_tokens = k\<rparr>"

lemma scan_scalar_none:
  "scan_scalar (CHR '']'' # r) = None" "scan_scalar (CHR ''}'' # r) = None" "scan_scalar (CHR '':'' # r) = None"
  "scan_scalar (CHR '','' # r) = None" "scan_scalar (CHR ''['' # r) = None" "scan_scalar (CHR ''{'' # r) = None"
  by (simp_all add: scan_scalar_def is_digit_def less_eq_char_def)

lemma scan_scalar_cases:
  assumes "scan_scalar s = Some (j, r)"
  obtains t where "j = JString t" | t where "j = JNumber t" | b where "j = JBool b" | "j = JNull"
  using assms by (auto simp: scan_scalar_def scan_literal_def split: list.splits if_splits)

text \<open>What a value may follow, and the state in which it is read.\<close>

definition enter :: "token_state \<Rightarrow> string \<Rightarrow> (token_state \<times> string) option" where
  "enter st s = (case st of
       TokenTopValue \<Rightarrow> Some (st, s)
     | TokenArrayStart \<Rightarrow> Some (st, s)
     | TokenArrayComma \<Rightarrow> map_option (\<lambda>r. (TokenArrayValue, r)) (comma_due True s)
     | TokenObjectColon \<Rightarrow> map_option (\<lambda>r. (TokenObjectValue, r)) (scan_colon s)
     | _ \<Rightarrow> None)"

definition value_follows :: "token_state \<Rightarrow> string \<Rightarrow> bool" where
  "value_follows st s \<longleftrightarrow> st = TokenTopValue \<or> st = TokenObjectColon \<or>
     (st = TokenArrayStart \<or> st = TokenArrayComma) \<and> (\<exists>c r. skip_space s = c # r \<and> c \<noteq> CHR '']'' \<and> c \<noteq> CHR ''}'')"

definition read_value :: "token_state \<Rightarrow> token_state list \<Rightarrow> string \<Rightarrow> read_error + token \<times> json_decoder" where
  "read_value st stk s = (case skip_space s of [] \<Rightarrow> Inl ReadEOF
     | c # r \<Rightarrow>
         if c = CHR ''['' then Inr (Delim c, dstate r TokenArrayStart (st # stk))
         else if c = CHR ''{'' then Inr (Delim c, dstate r TokenObjectStart (st # stk))
         else (case scan_scalar (c # r) of None \<Rightarrow> Inl ReadSyntax
           | Some (x, r') \<Rightarrow> Inr (Scalar x, dstate r' (value_end st) stk)))"

lemma token_allowed:
  assumes "value_allowed st" "st = TokenArrayStart \<Longrightarrow> value_follows st s"
  shows "dec_Token (dstate s st stk) = read_value st stk s"
proof (cases "skip_space s")
  case (Cons c r)
  have "c \<noteq> CHR '']''" if "st = TokenArrayStart" using assms(2) [OF that] that Cons by (auto simp: value_follows_def)
  with assms(1) Cons show ?thesis
    by (subst dec_Token.simps)
      (auto simp: read_value_def open_delim_def close_delim_def value_allowed_def scan_scalar_none split: option.splits)
qed (simp add: dec_Token.simps read_value_def)

lemma token_value:
  assumes "value_follows st s"
  shows "case enter st s of None \<Rightarrow> \<exists>e. dec_Token (dstate s st stk) = Inl e
    | Some (st', s') \<Rightarrow> dec_Token (dstate s st stk) = read_value st' stk s'"
proof (cases "st = TokenArrayComma \<or> st = TokenObjectColon")
  case True
  show ?thesis
  proof (cases "skip_space s")
    case (Cons c r)
    have "dec_Token (dstate r TokenArrayValue stk) = read_value TokenArrayValue stk r"
      "dec_Token (dstate r TokenObjectValue stk) = read_value TokenObjectValue stk r"
      by (rule token_allowed; simp add: value_allowed_def)+
    with True Cons assms show ?thesis
      by (subst (1 2) dec_Token.simps)
        (auto simp: enter_def comma_due_def scan_colon_def open_delim_def close_delim_def value_allowed_def value_follows_def)
  qed (use True in \<open>auto simp: enter_def comma_due_def scan_colon_def dec_Token.simps\<close>)
next
  case False
  with assms have "value_allowed st" "enter st s = Some (st, s)" by (auto simp: value_follows_def value_allowed_def enter_def)
  with token_allowed [OF _ assms] show ?thesis by simp
qed

section \<open>What the validator accepts\<close>

fun fits :: "policy \<Rightarrow> nat \<Rightarrow> json \<Rightarrow> bool" where
  "fits p depth (JArray js) \<longleftrightarrow> int depth < po_MaxDepth p \<and> int (length js) \<le> po_MaxContainerEntries p \<and>
     (\<forall>j \<in> set js. fits p (Suc depth) j)"
| "fits p depth (JObject kvs) \<longleftrightarrow> int depth < po_MaxDepth p \<and> int (length kvs) \<le> po_MaxContainerEntries p \<and>
     distinct (map fst kvs) \<and> (\<forall>(k, j) \<in> set kvs. int (length k) \<le> po_MaxScalarBytes p \<and> fits p (Suc depth) j)"
| "fits p depth (JString s) \<longleftrightarrow> int (length s) \<le> po_MaxScalarBytes p"
| "fits p depth (JNumber s) \<longleftrightarrow> int (length s) \<le> po_MaxScalarBytes p"
| "fits p depth (JBool b) \<longleftrightarrow> True"
| "fits p depth JNull \<longleftrightarrow> True"

fun token_count :: "json \<Rightarrow> nat" where
  "token_count (JArray js) = 2 + sum_list (map token_count js)"
| "token_count (JObject kvs) = 2 + sum_list (map (\<lambda>(k, j). 1 + token_count j) kvs)"
| "token_count j = 1"


lemma v_token_Inr: "v_token p (vstate s st stk k) = Inr (t, v) \<longleftrightarrow>
   (\<exists>d. dec_Token (dstate s st stk) = Inr (t, d) \<and> k + 1 \<le> po_MaxTokens p \<and> v = \<lparr>va_decoder = d, va_tokens = k + 1\<rparr>)"
  by (auto simp: v_token_def split: sum.splits)

lemma v_close_Inr: "v_close p e (vstate s st stk k) = Inr v \<longleftrightarrow>
   (\<exists>d. dec_Token (dstate s st stk) = Inr (Delim e, d) \<and> k + 1 \<le> po_MaxTokens p \<and> v = \<lparr>va_decoder = d, va_tokens = k + 1\<rparr>)"
  unfolding v_close_def by (auto simp: v_token_def split: sum.splits)

lemma close_array:
  assumes "st = TokenArrayStart \<or> st = TokenArrayComma" "\<not> dec_More (dstate s st (q # stk))"
  shows "v_close p (CHR '']'') (vstate s st (q # stk) k) = Inr v \<longleftrightarrow>
    (\<exists>r. skip_space s = CHR '']'' # r \<and> k + 1 \<le> po_MaxTokens p \<and> v = vstate r (value_end q) stk (k + 1))"
proof (cases "skip_space s")
  case Nil
  then have "dec_Token (dstate s st (q # stk)) = Inl ReadEOF" by (simp add: dec_Token.simps)
  with Nil show ?thesis by (simp add: v_close_Inr)
next
  case (Cons c r)
  with assms(2) consider "c = CHR '']''" | "c = CHR ''}''" by (auto simp: dec_More_def)
  then have "dec_Token (dstate s st (q # stk)) =
      (if c = CHR '']'' then Inr (Delim c, dstate r (value_end q) stk) else Inl ReadSyntax)"
  proof cases
    case 1
    with Cons assms(1) show ?thesis by (subst dec_Token.simps, elim disjE) (simp_all add: close_delim_def)
  next
    case 2
    with Cons assms(1) show ?thesis by (subst dec_Token.simps, elim disjE) (simp_all add: close_delim_def)
  qed
  with Cons show ?thesis by (cases "c = CHR '']''") (simp_all add: v_close_Inr)
qed

lemma close_object:
  assumes "st = TokenObjectStart \<or> st = TokenObjectComma" "\<not> dec_More (dstate s st (q # stk))"
  shows "v_close p (CHR ''}'') (vstate s st (q # stk) k) = Inr v \<longleftrightarrow>
    (\<exists>r. skip_space s = CHR ''}'' # r \<and> k + 1 \<le> po_MaxTokens p \<and> v = vstate r (value_end q) stk (k + 1))"
proof (cases "skip_space s")
  case Nil
  then have "dec_Token (dstate s st (q # stk)) = Inl ReadEOF" by (simp add: dec_Token.simps)
  with Nil show ?thesis by (simp add: v_close_Inr)
next
  case (Cons c r)
  with assms(2) consider "c = CHR '']''" | "c = CHR ''}''" by (auto simp: dec_More_def)
  then have "dec_Token (dstate s st (q # stk)) =
      (if c = CHR ''}'' then Inr (Delim c, dstate r (value_end q) stk) else Inl ReadSyntax)"
  proof cases
    case 1
    with Cons assms(1) show ?thesis by (subst dec_Token.simps, elim disjE) (simp_all add: close_delim_def)
  next
    case 2
    with Cons assms(1) show ?thesis by (subst dec_Token.simps, elim disjE) (simp_all add: close_delim_def)
  qed
  with Cons show ?thesis by (cases "c = CHR ''}''") (simp_all add: v_close_Inr)
qed

text \<open>The key of an entry.\<close>

definition read_key :: "bool \<Rightarrow> string \<Rightarrow> (string \<times> string) option" where
  "read_key due s = (case comma_due due s of None \<Rightarrow> None | Some s' \<Rightarrow> scan_key s')"

lemma scan_scalar_string: "scan_scalar (CHR 0x22 # r) = map_option (\<lambda>(t, r). (JString t, r)) (scan_string r)"
  by (simp add: scan_scalar_def)

lemma token_key_allowed:
  assumes "st = TokenObjectStart \<and> (\<forall>r. skip_space s \<noteq> CHR ''}'' # r) \<or> st = TokenObjectKey"
  shows "dec_Token (dstate s st stk) = Inr (t, d) \<longleftrightarrow>
    (\<exists>key r. scan_key s = Some (key, r) \<and> t = Scalar (JString key) \<and> d = dstate r TokenObjectColon stk)"
proof (cases "skip_space s")
  case (Cons c r)
  with assms show ?thesis
    by (subst dec_Token.simps)
      (auto simp: scan_key_def open_delim_def close_delim_def value_allowed_def scan_scalar_string split: option.splits)
qed (simp add: dec_Token.simps scan_key_def)

lemma token_key:
  assumes "st = TokenObjectStart \<or> st = TokenObjectComma" "dec_More (dstate s st stk)"
  shows "dec_Token (dstate s st stk) = Inr (t, d) \<longleftrightarrow>
    (\<exists>key r. read_key (st = TokenObjectComma) s = Some (key, r) \<and> t = Scalar (JString key) \<and> d = dstate r TokenObjectColon stk)"
proof (cases "st = TokenObjectComma")
  case True
  from assms(2) obtain c r where c: "skip_space s = c # r" "c \<noteq> CHR '']''" "c \<noteq> CHR ''}''"
    by (auto simp: dec_More_def split: list.splits)
  show ?thesis
  proof (cases "c = CHR '',''")
    case comma: True
    with c True have "dec_Token (dstate s st stk) = dec_Token (dstate r TokenObjectKey stk)"
      by (subst dec_Token.simps) simp
    with token_key_allowed [of TokenObjectKey r stk] True comma c show ?thesis by (simp add: read_key_def comma_due_def)
  next
    case False
    with c True have "dec_Token (dstate s st stk) = Inl ReadSyntax"
      by (subst dec_Token.simps) (simp add: open_delim_def value_allowed_def)
    with c True False show ?thesis by (simp add: read_key_def comma_due_def)
  qed
next
  case False
  with assms(1) have "st = TokenObjectStart" by simp
  moreover have "\<forall>r. skip_space s \<noteq> CHR ''}'' # r" using assms(2) by (auto simp: dec_More_def)
  ultimately show ?thesis using token_key_allowed [of st s stk t d] by (simp add: read_key_def comma_due_def)
qed

section \<open>The validator reads what the decoder reads\<close>

definition value_sim :: "policy \<Rightarrow> nat \<Rightarrow> bool" where
  "value_sim p n \<longleftrightarrow> (\<forall>depth s st stk k v. value_follows st s \<longrightarrow>
     (v_value n p depth (vstate s st stk k) = Some (Inr v) \<longleftrightarrow>
      (\<exists>st' s' j r. enter st s = Some (st', s') \<and> parse_value n s' = Some (j, r) \<and> fits p depth j \<and>
        k + int (token_count j) \<le> po_MaxTokens p \<and> v = vstate r (value_end st') stk (k + int (token_count j)))))"

definition array_sim :: "policy \<Rightarrow> nat \<Rightarrow> bool" where
  "array_sim p n \<longleftrightarrow> (\<forall>depth e s st q stk k v. (st = TokenArrayStart \<or> st = TokenArrayComma) \<longrightarrow> int e \<le> po_MaxContainerEntries p \<longrightarrow>
     (v_array n p depth e (vstate s st (q # stk) k) = Some (Inr v) \<longleftrightarrow>
      (\<exists>js r. parse_array n (st = TokenArrayComma) s = Some (js, r) \<and> (\<forall>j \<in> set js. fits p depth j) \<and>
        int (e + length js) \<le> po_MaxContainerEntries p \<and>
        k + int (sum_list (map token_count js)) + 1 \<le> po_MaxTokens p \<and>
        v = vstate r (value_end q) stk (k + int (sum_list (map token_count js)) + 1))))"

definition object_sim :: "policy \<Rightarrow> nat \<Rightarrow> bool" where
  "object_sim p n \<longleftrightarrow> (\<forall>depth seen e s st q stk k v. (st = TokenObjectStart \<or> st = TokenObjectComma) \<longrightarrow> int e \<le> po_MaxContainerEntries p \<longrightarrow>
     (v_object n p depth seen e (vstate s st (q # stk) k) = Some (Inr v) \<longleftrightarrow>
      (\<exists>kvs r. parse_object n (st = TokenObjectComma) s = Some (kvs, r) \<and>
        (\<forall>(key, j) \<in> set kvs. int (length key) \<le> po_MaxScalarBytes p \<and> fits p depth j) \<and>
        distinct (map fst kvs) \<and> set (map fst kvs) \<inter> set seen = {} \<and>
        int (e + length kvs) \<le> po_MaxContainerEntries p \<and>
        k + int (sum_list (map (\<lambda>(key, j). 1 + token_count j) kvs)) + 1 \<le> po_MaxTokens p \<and>
        v = vstate r (value_end q) stk (k + int (sum_list (map (\<lambda>(key, j). 1 + token_count j) kvs)) + 1))))"

text \<open>The count of the tokens of a container, its two delimiters included.\<close>

lemma opened_array:
  assumes "R = Some (Inr v) \<longleftrightarrow> (\<exists>js r. P = Some (js, r) \<and> (\<forall>j \<in> set js. fits p (Suc depth) j) \<and>
      int (length js) \<le> po_MaxContainerEntries p \<and> k + 1 + int (sum_list (map token_count js)) + 1 \<le> po_MaxTokens p \<and>
      v = vstate r q stk (k + 1 + int (sum_list (map token_count js)) + 1))"
  shows "(if k + 1 > po_MaxTokens p then Some (Inl a) else if int depth \<ge> po_MaxDepth p then Some (Inl b) else R) = Some (Inr v) \<longleftrightarrow>
    (\<exists>j r. map_option (\<lambda>(js, r). (JArray js, r)) P = Some (j, r) \<and> fits p depth j \<and>
       k + int (token_count j) \<le> po_MaxTokens p \<and> v = vstate r q stk (k + int (token_count j)))"
proof (cases P)
  case (Some x)
  obtain js r where x: "x = (js, r)" by (cases x)
  have "k + 1 + int (sum_list (map token_count js)) + 1 = k + int (token_count (JArray js))" by simp
  with assms Some x have R: "R = Some (Inr v) \<longleftrightarrow> (\<forall>j \<in> set js. fits p (Suc depth) j) \<and>
      int (length js) \<le> po_MaxContainerEntries p \<and> k + int (token_count (JArray js)) \<le> po_MaxTokens p \<and>
      v = vstate r q stk (k + int (token_count (JArray js)))" by (simp add: ac_simps)
  moreover have "k + 1 \<le> po_MaxTokens p" if "k + int (token_count (JArray js)) \<le> po_MaxTokens p" using that by simp
  ultimately show ?thesis using Some x by (auto simp del: token_count.simps)
qed (use assms in simp)

lemma opened_object:
  assumes "R = Some (Inr v) \<longleftrightarrow> (\<exists>kvs r. P = Some (kvs, r) \<and>
      (\<forall>(key, j) \<in> set kvs. int (length key) \<le> po_MaxScalarBytes p \<and> fits p (Suc depth) j) \<and>
      distinct (map fst kvs) \<and> int (length kvs) \<le> po_MaxContainerEntries p \<and>
      k + 1 + int (sum_list (map (\<lambda>(key, j). 1 + token_count j) kvs)) + 1 \<le> po_MaxTokens p \<and>
      v = vstate r q stk (k + 1 + int (sum_list (map (\<lambda>(key, j). 1 + token_count j) kvs)) + 1))"
  shows "(if k + 1 > po_MaxTokens p then Some (Inl a) else if int depth \<ge> po_MaxDepth p then Some (Inl b) else R) = Some (Inr v) \<longleftrightarrow>
    (\<exists>j r. map_option (\<lambda>(kvs, r). (JObject kvs, r)) P = Some (j, r) \<and> fits p depth j \<and>
       k + int (token_count j) \<le> po_MaxTokens p \<and> v = vstate r q stk (k + int (token_count j)))"
proof (cases P)
  case (Some x)
  obtain kvs r where x: "x = (kvs, r)" by (cases x)
  have "k + 1 + int (sum_list (map (\<lambda>(key, j). 1 + token_count j) kvs)) + 1 = k + int (token_count (JObject kvs))" by simp
  with assms Some x have R: "R = Some (Inr v) \<longleftrightarrow>
      (\<forall>(key, j) \<in> set kvs. int (length key) \<le> po_MaxScalarBytes p \<and> fits p (Suc depth) j) \<and>
      distinct (map fst kvs) \<and> int (length kvs) \<le> po_MaxContainerEntries p \<and>
      k + int (token_count (JObject kvs)) \<le> po_MaxTokens p \<and> v = vstate r q stk (k + int (token_count (JObject kvs)))" by (simp add: ac_simps)
  moreover have "k + 1 \<le> po_MaxTokens p" if "k + int (token_count (JObject kvs)) \<le> po_MaxTokens p" using that by simp
  ultimately show ?thesis using Some x by (auto simp del: token_count.simps)
qed (use assms in simp)

lemma value_step:
  assumes "array_sim p n" "object_sim p n" "0 \<le> po_MaxContainerEntries p"
  shows "value_sim p (Suc n)"
  unfolding value_sim_def
proof (intro allI impI)
  fix depth s st stk k v
  assume f: "value_follows st s"
  show "v_value (Suc n) p depth (vstate s st stk k) = Some (Inr v) \<longleftrightarrow>
      (\<exists>st' s' j r. enter st s = Some (st', s') \<and> parse_value (Suc n) s' = Some (j, r) \<and> fits p depth j \<and>
        k + int (token_count j) \<le> po_MaxTokens p \<and> v = vstate r (value_end st') stk (k + int (token_count j)))"
  proof (cases "enter st s")
    case None
    with token_value [OF f, of stk] show ?thesis by (auto simp: v_value.simps(2) v_token_def)
  next
    case (Some x)
    then obtain st' s' where e: "enter st s = Some (st', s')" by (cases x) auto
    with token_value [OF f, of stk] have t: "dec_Token (dstate s st stk) = read_value st' stk s'" by simp
    show ?thesis
    proof (cases "skip_space s'")
      case Nil
      with t e show ?thesis by (simp add: v_value.simps(2) v_token_def read_value_def)
    next
      case (Cons c r)
      consider (array) "c = CHR ''[''" | (object) "c = CHR ''{''" | (scalar) "c \<noteq> CHR ''[''" "c \<noteq> CHR ''{''" by blast
      then show ?thesis
      proof cases
        case array
        have A: "v_array n p (Suc depth) 0 (vstate r TokenArrayStart (st' # stk) (k + 1)) = Some (Inr v) \<longleftrightarrow>
          (\<exists>js r'. parse_array n False r = Some (js, r') \<and> (\<forall>j \<in> set js. fits p (Suc depth) j) \<and>
            int (length js) \<le> po_MaxContainerEntries p \<and>
            k + 1 + int (sum_list (map token_count js)) + 1 \<le> po_MaxTokens p \<and>
            v = vstate r' (value_end st') stk (k + 1 + int (sum_list (map token_count js)) + 1))"
          using assms(1,3) unfolding array_sim_def by simp
        have V: "v_value (Suc n) p depth (vstate s st stk k) =
          (if k + 1 > po_MaxTokens p then Some (Inl KindTokenLimit)
           else if int depth \<ge> po_MaxDepth p then Some (Inl KindDepthExceeded)
           else v_array n p (Suc depth) 0 (vstate r TokenArrayStart (st' # stk) (k + 1)))"
          using array Cons t by (simp add: v_value.simps(2) v_token_def read_value_def v_wrap_def)
        show ?thesis unfolding V opened_array [OF A] by (simp add: e array Cons)
      next
        case object
        have A: "v_object n p (Suc depth) [] 0 (vstate r TokenObjectStart (st' # stk) (k + 1)) = Some (Inr v) \<longleftrightarrow>
          (\<exists>kvs r'. parse_object n False r = Some (kvs, r') \<and>
            (\<forall>(key, j) \<in> set kvs. int (length key) \<le> po_MaxScalarBytes p \<and> fits p (Suc depth) j) \<and>
            distinct (map fst kvs) \<and> int (length kvs) \<le> po_MaxContainerEntries p \<and>
            k + 1 + int (sum_list (map (\<lambda>(key, j). 1 + token_count j) kvs)) + 1 \<le> po_MaxTokens p \<and>
            v = vstate r' (value_end st') stk (k + 1 + int (sum_list (map (\<lambda>(key, j). 1 + token_count j) kvs)) + 1))"
          using assms(2,3) unfolding object_sim_def by simp
        have V: "v_value (Suc n) p depth (vstate s st stk k) =
          (if k + 1 > po_MaxTokens p then Some (Inl KindTokenLimit)
           else if int depth \<ge> po_MaxDepth p then Some (Inl KindDepthExceeded)
           else v_object n p (Suc depth) [] 0 (vstate r TokenObjectStart (st' # stk) (k + 1)))"
          using object Cons t by (simp add: v_value.simps(2) v_token_def read_value_def v_wrap_def)
        show ?thesis unfolding V opened_object [OF A] by (simp add: e object Cons)
      next
        case scalar
        show ?thesis
        proof (cases "scan_scalar (c # r)")
          case None
          with scalar Cons t e show ?thesis by (simp add: v_value.simps(2) v_token_def read_value_def)
        next
          case (Some y)
          then obtain j r' where y: "scan_scalar (c # r) = Some (j, r')" by (cases y) auto
          from y scalar Cons t e show ?thesis
            by (cases rule: scan_scalar_cases [OF y])
              (auto simp: v_value.simps(2) v_token_def read_value_def v_scalar_def)
        qed
      qed
    qed
  qed
qed


lemma array_step:
  assumes vals: "value_sim p n" and rest: "array_sim p n"
  shows "array_sim p (Suc n)"
  unfolding array_sim_def
proof (intro allI impI)
  fix depth e s st q stk k v
  assume st: "st = TokenArrayStart \<or> st = TokenArrayComma" and e: "int e \<le> po_MaxContainerEntries p"
  let ?due = "st = TokenArrayComma"
  let ?goal = "v_array (Suc n) p depth e (vstate s st (q # stk) k) = Some (Inr v) \<longleftrightarrow>
      (\<exists>js r. parse_array (Suc n) ?due s = Some (js, r) \<and> (\<forall>j \<in> set js. fits p depth j) \<and>
        int (e + length js) \<le> po_MaxContainerEntries p \<and>
        k + int (sum_list (map token_count js)) + 1 \<le> po_MaxTokens p \<and>
        v = vstate r (value_end q) stk (k + int (sum_list (map token_count js)) + 1))"
  show ?goal
  proof (cases "dec_More (dstate s st (q # stk))")
    case False
    then have "skip_space s = [] \<or> (\<exists>c r. skip_space s = c # r \<and> (c = CHR '']'' \<or> c = CHR ''}''))"
      by (auto simp: dec_More_def split: list.splits)
    moreover have "parse_value n s = None" if "skip_space s = CHR ''}'' # r" for r
      using that by (cases n) (simp_all add: scan_scalar_none)
    ultimately show ?thesis
      using False e close_array [OF st False, of p k v]
      by (auto simp: v_array.simps(2) comma_due_def split: option.splits)
  next
    case True
    then obtain c r where c: "skip_space s = c # r" "c \<noteq> CHR '']''" "c \<noteq> CHR ''}''"
      by (auto simp: dec_More_def split: list.splits)
    with st have f: "value_follows st s" by (auto simp: value_follows_def)
    from vals have v: "v_value n p depth (vstate s st (q # stk) k) = Some (Inr u) \<longleftrightarrow>
      (\<exists>st' s' j r. enter st s = Some (st', s') \<and> parse_value n s' = Some (j, r) \<and> fits p depth j \<and>
        k + int (token_count j) \<le> po_MaxTokens p \<and> u = vstate r (value_end st') (q # stk) (k + int (token_count j)))" for u
      using f unfolding value_sim_def by blast
    have en: "enter st s = map_option (\<lambda>s'. (if ?due then TokenArrayValue else TokenArrayStart, s')) (comma_due ?due s)"
      using st by (auto simp: enter_def comma_due_def)
    have after: "value_end (if ?due then TokenArrayValue else TokenArrayStart) = TokenArrayComma"
      by (simp add: value_end_def)
    define M where "M = po_MaxContainerEntries p"
    have step: "v_array (Suc n) p depth e (vstate s st (q # stk) k) = Some (Inr v) \<longleftrightarrow>
      int (Suc e) \<le> M \<and> (\<exists>s' j r. comma_due ?due s = Some s' \<and> parse_value n s' = Some (j, r) \<and> fits p depth j \<and>
        k + int (token_count j) \<le> po_MaxTokens p \<and>
        v_array n p depth (Suc e) (vstate r TokenArrayComma (q # stk) (k + int (token_count j))) = Some (Inr v))"
    proof -
      have "v_array (Suc n) p depth e (vstate s st (q # stk) k) = Some (Inr v) \<longleftrightarrow> int (Suc e) \<le> M \<and>
        (\<exists>u. v_value n p depth (vstate s st (q # stk) k) = Some (Inr u) \<and> v_array n p depth (Suc e) u = Some (Inr v))"
        using True by (auto simp: v_array.simps(2) M_def split: option.splits sum.splits)
      then show ?thesis unfolding v en using after by fastforce
    qed
    have parse: "parse_array (Suc n) ?due s = Some (js, r) \<longleftrightarrow> (\<exists>s' j r' js'. comma_due ?due s = Some s' \<and>
        parse_value n s' = Some (j, r') \<and> parse_array n True r' = Some (js', r) \<and> js = j # js')" for js r
      using c by (auto split: option.splits)
    have tail: "int (Suc e) \<le> M \<Longrightarrow> v_array n p depth (Suc e) (vstate r TokenArrayComma (q # stk) k') = Some (Inr v) \<longleftrightarrow>
      (\<exists>js r'. parse_array n True r = Some (js, r') \<and> (\<forall>j \<in> set js. fits p depth j) \<and> int (Suc e + length js) \<le> M \<and>
        k' + int (sum_list (map token_count js)) + 1 \<le> po_MaxTokens p \<and>
        v = vstate r' (value_end q) stk (k' + int (sum_list (map token_count js)) + 1))" for r k'
      using rest [unfolded array_sim_def, rule_format, where st = TokenArrayComma and e = "Suc e" and s = r and depth = depth
          and q = q and stk = stk and k = k' and v = v] by (simp add: M_def)
    show ?thesis
      unfolding step parse M_def [symmetric]
    proof (intro iffI; (elim exE conjE)?)
      fix s' j r
      assume a: "int (Suc e) \<le> M" "comma_due ?due s = Some s'" "parse_value n s' = Some (j, r)" "fits p depth j"
        "v_array n p depth (Suc e) (vstate r TokenArrayComma (q # stk) (k + int (token_count j))) = Some (Inr v)"
      from a(5) [unfolded tail [OF a(1)]] obtain js r' where "parse_array n True r = Some (js, r')"
        "\<forall>j \<in> set js. fits p depth j" "int (Suc e + length js) \<le> M"
        "k + int (token_count j) + int (sum_list (map token_count js)) + 1 \<le> po_MaxTokens p"
        "v = vstate r' (value_end q) stk (k + int (token_count j) + int (sum_list (map token_count js)) + 1)" by blast
      with a show "\<exists>js r. (\<exists>s' j r' js'. comma_due ?due s = Some s' \<and> parse_value n s' = Some (j, r') \<and>
            parse_array n True r' = Some (js', r) \<and> js = j # js') \<and> (\<forall>j \<in> set js. fits p depth j) \<and>
          int (e + length js) \<le> M \<and> k + int (sum_list (map token_count js)) + 1 \<le> po_MaxTokens p \<and>
          v = vstate r (value_end q) stk (k + int (sum_list (map token_count js)) + 1)"
        by (intro exI [of _ "j # js"] exI [of _ r']) (auto simp: add.assoc)
    next
      fix js r s' j r' js'
      assume a: "\<forall>j \<in> set js. fits p depth j" "int (e + length js) \<le> M"
        "k + int (sum_list (map token_count js)) + 1 \<le> po_MaxTokens p"
        "v = vstate r (value_end q) stk (k + int (sum_list (map token_count js)) + 1)"
        "comma_due ?due s = Some s'" "parse_value n s' = Some (j, r')" "parse_array n True r' = Some (js', r)" "js = j # js'"
      then have e': "int (Suc e) \<le> M" by simp
      from a have "v_array n p depth (Suc e) (vstate r' TokenArrayComma (q # stk) (k + int (token_count j))) = Some (Inr v)"
        unfolding tail [OF e'] by (intro exI [of _ js'] exI [of _ r]) (simp add: add.assoc)
      with a e' show "int (Suc e) \<le> M \<and> (\<exists>s' j r. comma_due ?due s = Some s' \<and> parse_value n s' = Some (j, r) \<and> fits p depth j \<and>
          k + int (token_count j) \<le> po_MaxTokens p \<and>
          v_array n p depth (Suc e) (vstate r TokenArrayComma (q # stk) (k + int (token_count j))) = Some (Inr v))"
        by (intro conjI exI [of _ s'] exI [of _ j] exI [of _ r']) simp_all
    qed
  qed
qed


lemma object_step:
  assumes vals: "value_sim p n" and rest: "object_sim p n"
  shows "object_sim p (Suc n)"
  unfolding object_sim_def
proof (intro allI impI)
  fix depth seen e s st q stk k v
  assume st: "st = TokenObjectStart \<or> st = TokenObjectComma" and e: "int e \<le> po_MaxContainerEntries p"
  let ?due = "st = TokenObjectComma"
  let ?count = "\<lambda>kvs. sum_list (map (\<lambda>(key, j). 1 + token_count j) kvs)"
  let ?ok = "\<lambda>kvs. \<forall>(key, j) \<in> set kvs. int (length key) \<le> po_MaxScalarBytes p \<and> fits p depth j"
  define M where "M = po_MaxContainerEntries p"
  show "v_object (Suc n) p depth seen e (vstate s st (q # stk) k) = Some (Inr v) \<longleftrightarrow>
      (\<exists>kvs r. parse_object (Suc n) ?due s = Some (kvs, r) \<and> ?ok kvs \<and>
        distinct (map fst kvs) \<and> set (map fst kvs) \<inter> set seen = {} \<and>
        int (e + length kvs) \<le> po_MaxContainerEntries p \<and>
        k + int (?count kvs) + 1 \<le> po_MaxTokens p \<and> v = vstate r (value_end q) stk (k + int (?count kvs) + 1))"
  proof (cases "dec_More (dstate s st (q # stk))")
    case False
    then have "skip_space s = [] \<or> (\<exists>c r. skip_space s = c # r \<and> (c = CHR '']'' \<or> c = CHR ''}''))"
      by (auto simp: dec_More_def split: list.splits)
    then show ?thesis
      using False e close_object [OF st False, of p k v]
      by (auto simp: v_object.simps(2) comma_due_def scan_key_def split: option.splits)
  next
    case True
    then obtain c r where c: "skip_space s = c # r" "c \<noteq> CHR '']''" "c \<noteq> CHR ''}''"
      by (auto simp: dec_More_def split: list.splits)
    have step: "v_object (Suc n) p depth seen e (vstate s st (q # stk) k) = Some (Inr v) \<longleftrightarrow>
      int (Suc e) \<le> M \<and> (\<exists>key r s' j r'. read_key ?due s = Some (key, r) \<and> int (length key) \<le> po_MaxScalarBytes p \<and>
        key \<notin> set seen \<and> scan_colon r = Some s' \<and> parse_value n s' = Some (j, r') \<and> fits p depth j \<and>
        k + 1 + int (token_count j) \<le> po_MaxTokens p \<and>
        v_object n p depth (key # seen) (Suc e) (vstate r' TokenObjectComma (q # stk) (k + 1 + int (token_count j))) = Some (Inr v))"
    proof -
      have "v_object (Suc n) p depth seen e (vstate s st (q # stk) k) = Some (Inr v) \<longleftrightarrow>
        int (Suc e) \<le> M \<and> (\<exists>key r u. read_key ?due s = Some (key, r) \<and> k + 1 \<le> po_MaxTokens p \<and>
          int (length key) \<le> po_MaxScalarBytes p \<and> key \<notin> set seen \<and>
          v_value n p depth (vstate r TokenObjectColon (q # stk) (k + 1)) = Some (Inr u) \<and>
          v_object n p depth (key # seen) (Suc e) u = Some (Inr v))"
      proof (cases "v_token p (vstate s st (q # stk) k)")
        case (Inl x)
        then have "\<not> (\<exists>key r. read_key ?due s = Some (key, r) \<and> k + 1 \<le> po_MaxTokens p)"
          using token_key [OF st True] by (auto simp: v_token_def split: sum.splits if_splits)
        with Inl True show ?thesis by (auto simp: v_object.simps(2))
      next
        case (Inr x)
        then obtain key r where x: "x = (Scalar (JString key), vstate r TokenObjectColon (q # stk) (k + 1))"
          and "read_key ?due s = Some (key, r)" "k + 1 \<le> po_MaxTokens p"
          by (cases x) (auto simp: v_token_Inr token_key [OF st True])
        with Inr True show ?thesis
          by (auto simp: v_object.simps(2) v_scalar_def M_def split: option.splits sum.splits)
      qed
      moreover have "v_value n p depth (vstate r TokenObjectColon (q # stk) (k + 1)) = Some (Inr u) \<longleftrightarrow>
        (\<exists>s' j r'. scan_colon r = Some s' \<and> parse_value n s' = Some (j, r') \<and> fits p depth j \<and>
          k + 1 + int (token_count j) \<le> po_MaxTokens p \<and> u = vstate r' TokenObjectComma (q # stk) (k + 1 + int (token_count j)))" for r u
        using vals [unfolded value_sim_def, rule_format, of TokenObjectColon r depth "q # stk" "k + 1" u]
        by (auto simp: value_follows_def enter_def value_end_def)
      ultimately show ?thesis by fastforce
    qed
    have parse: "parse_object (Suc n) ?due s = Some (kvs, r) \<longleftrightarrow> (\<exists>key r1 s' j r' kvs'. read_key ?due s = Some (key, r1) \<and>
        scan_colon r1 = Some s' \<and> parse_value n s' = Some (j, r') \<and> parse_object n True r' = Some (kvs', r) \<and>
        kvs = (key, j) # kvs')" for kvs r
      using c by (auto simp: read_key_def split: option.splits)
    have tail: "int (Suc e) \<le> M \<Longrightarrow> v_object n p depth seen' (Suc e) (vstate r TokenObjectComma (q # stk) k') = Some (Inr v) \<longleftrightarrow>
      (\<exists>kvs r'. parse_object n True r = Some (kvs, r') \<and> ?ok kvs \<and> distinct (map fst kvs) \<and> set (map fst kvs) \<inter> set seen' = {} \<and>
        int (Suc e + length kvs) \<le> M \<and> k' + int (?count kvs) + 1 \<le> po_MaxTokens p \<and>
        v = vstate r' (value_end q) stk (k' + int (?count kvs) + 1))" for r k' seen'
      using rest [unfolded object_sim_def, rule_format, where st = TokenObjectComma and e = "Suc e" and s = r and depth = depth
          and q = q and stk = stk and k = k' and v = v and seen = seen'] by (simp add: M_def)
    show ?thesis
      unfolding step parse M_def [symmetric]
    proof (intro iffI; (elim exE conjE)?)
      fix key r s' j r'
      assume a: "int (Suc e) \<le> M" "read_key ?due s = Some (key, r)" "int (length key) \<le> po_MaxScalarBytes p" "key \<notin> set seen"
        "scan_colon r = Some s'" "parse_value n s' = Some (j, r')" "fits p depth j"
        "v_object n p depth (key # seen) (Suc e) (vstate r' TokenObjectComma (q # stk) (k + 1 + int (token_count j))) = Some (Inr v)"
      from a(8) [unfolded tail [OF a(1)]] obtain kvs r'' where "parse_object n True r' = Some (kvs, r'')" "?ok kvs"
        "distinct (map fst kvs)" "set (map fst kvs) \<inter> set (key # seen) = {}" "int (Suc e + length kvs) \<le> M"
        "k + 1 + int (token_count j) + int (?count kvs) + 1 \<le> po_MaxTokens p"
        "v = vstate r'' (value_end q) stk (k + 1 + int (token_count j) + int (?count kvs) + 1)" by blast
      with a show "\<exists>kvs r. (\<exists>key r1 s' j r' kvs'. read_key ?due s = Some (key, r1) \<and> scan_colon r1 = Some s' \<and>
            parse_value n s' = Some (j, r') \<and> parse_object n True r' = Some (kvs', r) \<and> kvs = (key, j) # kvs') \<and>
          ?ok kvs \<and> distinct (map fst kvs) \<and> set (map fst kvs) \<inter> set seen = {} \<and> int (e + length kvs) \<le> M \<and>
          k + int (?count kvs) + 1 \<le> po_MaxTokens p \<and> v = vstate r (value_end q) stk (k + int (?count kvs) + 1)"
        by (intro exI [of _ "(key, j) # kvs"] exI [of _ r'']) (auto simp: ac_simps)
    next
      fix kvs r key r1 s' j r' kvs'
      assume a: "?ok kvs" "distinct (map fst kvs)" "set (map fst kvs) \<inter> set seen = {}" "int (e + length kvs) \<le> M"
        "k + int (?count kvs) + 1 \<le> po_MaxTokens p" "v = vstate r (value_end q) stk (k + int (?count kvs) + 1)"
        "read_key ?due s = Some (key, r1)" "scan_colon r1 = Some s'" "parse_value n s' = Some (j, r')"
        "parse_object n True r' = Some (kvs', r)" "kvs = (key, j) # kvs'"
      then have e': "int (Suc e) \<le> M" by simp
      from a have "v_object n p depth (key # seen) (Suc e) (vstate r' TokenObjectComma (q # stk) (k + 1 + int (token_count j))) = Some (Inr v)"
        unfolding tail [OF e'] by (intro exI [of _ kvs'] exI [of _ r]) (auto simp: ac_simps)
      moreover have "k + 1 + int (token_count j) \<le> po_MaxTokens p" using a by simp
      ultimately show "int (Suc e) \<le> M \<and> (\<exists>key r s' j r'. read_key ?due s = Some (key, r) \<and> int (length key) \<le> po_MaxScalarBytes p \<and>
        key \<notin> set seen \<and> scan_colon r = Some s' \<and> parse_value n s' = Some (j, r') \<and> fits p depth j \<and>
        k + 1 + int (token_count j) \<le> po_MaxTokens p \<and>
        v_object n p depth (key # seen) (Suc e) (vstate r' TokenObjectComma (q # stk) (k + 1 + int (token_count j))) = Some (Inr v))"
        using a e' by (intro conjI exI [of _ key] exI [of _ r1] exI [of _ s'] exI [of _ j] exI [of _ r']) simp_all
    qed
  qed
qed

lemma validator_sim:
  assumes "0 \<le> po_MaxContainerEntries p"
  shows "value_sim p n \<and> array_sim p n \<and> object_sim p n"
proof (induction n)
  case 0
  show ?case by (simp add: value_sim_def array_sim_def object_sim_def)
next
  case (Suc n)
  with value_step array_step object_step assms show ?case by blast
qed


section \<open>The validator returns\<close>

lemma span_digits_le: "span_digits s = (ds, r) \<Longrightarrow> length r \<le> length s \<and> (ds \<noteq> [] \<longrightarrow> length r < length s)"
proof -
  assume "span_digits s = (ds, r)"
  then have "length ds + length r = length s"
    using arg_cong [OF takeWhile_dropWhile_id [of is_digit s], of length] by (auto simp: span_digits_def)
  then show ?thesis by (cases ds) auto
qed

lemma scan_int_shorter: "scan_int s = Some (i, r) \<Longrightarrow> length r < length s"
  by (auto simp: scan_int_def span_digits_def split: list.splits if_splits intro: le_imp_less_Suc length_dropWhile_le)

lemma scan_fraction_le: "scan_fraction s = Some (f, r) \<Longrightarrow> length r \<le> length s"
  by (auto simp: scan_fraction_def split: list.splits if_splits prod.splits dest!: span_digits_le)

lemma scan_exponent_le: "scan_exponent s = Some (e, r) \<Longrightarrow> length r \<le> length s"
  by (auto simp: scan_exponent_def Let_def split: list.splits if_splits prod.splits dest!: span_digits_le)

lemma scan_number_shorter: "scan_number s = Some (t, r) \<Longrightarrow> length r < length s"
  by (auto simp: scan_number_def Let_def split: list.splits if_splits prod.splits option.splits
      dest!: scan_int_shorter scan_fraction_le scan_exponent_le)

lemma scan_string_shorter: "scan_string s = Some (t, r) \<Longrightarrow> length r < length s"
proof (induction s arbitrary: t r rule: scan_string.induct)
  case (2 c s)
  note ih = 2(1-3)
  from 2(4) consider "r = s"
    | e s1 n s2 t' where "s = e # s1" "rune_escape s1 = Some (n, s2)" "scan_string s2 = Some (t', r)" "c = CHR 0x5C" "e = CHR ''u''"
    | e s1 t' where "s = e # s1" "scan_string s1 = Some (t', r)" "c = CHR 0x5C" "e \<noteq> CHR ''u''" "simple_escape e \<noteq> None"
    | t' where "scan_string s = Some (t', r)" "c \<noteq> CHR 0x5C" "c \<noteq> CHR 0x22" "\<not> of_char c < (0x20 :: nat)"
    by (auto simp: scan_string.simps(2) prepend_def split: if_splits list.splits option.splits)
  then show ?case
  proof cases
    case 2
    with ih rune_escape_shorter [of s1 n s2] show ?thesis by fastforce
  next
    case 3
    with ih show ?thesis by fastforce
  next
    case 4
    with ih show ?thesis by fastforce
  qed simp
qed simp

lemma scan_scalar_shorter: "scan_scalar s = Some (j, r) \<Longrightarrow> length r < length s"
  by (auto simp: scan_scalar_def scan_literal_def split: list.splits if_splits
      dest!: scan_string_shorter scan_number_shorter)

lemma dec_Token_shorter: "dec_Token d = Inr (t, d') \<Longrightarrow> length (jd_input d') < length (jd_input d)"
proof (induction d rule: dec_Token.induct)
  case (1 d)
  show ?case
  proof (cases "skip_space (jd_input d)")
    case (Cons c r)
    from skip_space_shorter [OF this] have r: "length r < length (jd_input d)" .
    have s: "length r' < length (jd_input d)" if "scan_scalar (c # r) = Some (x, r')" for x r'
      using scan_scalar_shorter [OF that] r by simp
    consider (colon) "c = CHR '':''" | (comma) "c = CHR '',''" | (other) "c \<noteq> CHR '':''" "c \<noteq> CHR '',''" by blast
    then show ?thesis
    proof cases
      case colon
      with 1(4) Cons have "dec_Token (d\<lparr>jd_input := r, jd_state := TokenObjectValue\<rparr>) = Inr (t, d')" "jd_state d = TokenObjectColon"
        by (subst (asm) dec_Token.simps; simp split: if_splits)+
      with 1(1) [OF Cons] colon r show ?thesis by simp
    next
      case comma
      with 1(4) Cons consider
          "dec_Token (d\<lparr>jd_input := r, jd_state := TokenArrayValue\<rparr>) = Inr (t, d')" "jd_state d = TokenArrayComma"
        | "dec_Token (d\<lparr>jd_input := r, jd_state := TokenObjectKey\<rparr>) = Inr (t, d')" "jd_state d = TokenObjectComma"
        by (subst (asm) dec_Token.simps; simp split: if_splits)
      then show ?thesis using 1(2,3) [OF Cons] comma r by cases simp_all
    next
      case other
      with 1(4) Cons r s show ?thesis
        by (subst (asm) dec_Token.simps) (auto simp: open_delim_def close_delim_def split: if_splits option.splits)
    qed
  qed (use 1(4) in \<open>simp add: dec_Token.simps\<close>)
qed

definition va_length :: "validator \<Rightarrow> nat" where
  "va_length v = length (jd_input (va_decoder v))"

lemma v_token_shorter: "v_token p v = Inr (t, v') \<Longrightarrow> va_length v' < va_length v"
  using dec_Token_shorter by (auto simp: v_token_def va_length_def split: sum.splits if_splits)

lemma v_close_shorter: "v_close p e v = Inr v' \<Longrightarrow> va_length v' < va_length v"
  by (auto simp: v_close_def split: sum.splits if_splits dest: v_token_shorter)

definition returns :: "nat \<Rightarrow> (kind + validator) option \<Rightarrow> bool" where
  "returns k r \<longleftrightarrow> (case r of None \<Rightarrow> False | Some (Inl _) \<Rightarrow> True | Some (Inr v) \<Rightarrow> va_length v < k)"

lemma returns_simps [simp]: "returns k (Some (Inl e))" "returns k (Some (Inr v)) \<longleftrightarrow> va_length v < k"
  by (simp_all add: returns_def)

lemma returns_mono: "returns k r \<Longrightarrow> k \<le> m \<Longrightarrow> returns m r"
  by (auto simp: returns_def split: option.splits sum.splits)

lemma returns_cases: "returns k r \<Longrightarrow> (\<And>e. r = Some (Inl e) \<Longrightarrow> P) \<Longrightarrow> (\<And>v. r = Some (Inr v) \<Longrightarrow> va_length v < k \<Longrightarrow> P) \<Longrightarrow> P"
  by (auto simp: returns_def split: option.splits sum.splits)

lemma v_close_returns: "returns (va_length v) (Some (v_close p e v))"
  by (cases "v_close p e v") (auto dest: v_close_shorter)

lemma validator_returns:
  shows "2 * va_length v + 1 \<le> n \<Longrightarrow> returns (va_length v) (v_value n p depth v)"
    and "2 * va_length v + 2 \<le> n \<Longrightarrow> returns (va_length v) (v_object n p depth seen e v)"
    and "2 * va_length v + 2 \<le> n \<Longrightarrow> returns (va_length v) (v_array n p depth e v)"
proof (induction n arbitrary: v depth seen e)
  case (Suc n)
  {
    case 1
    show ?case
    proof (cases "v_token p v")
      case (Inr x)
      then obtain t v1 where x: "v_token p v = Inr (t, v1)" by (cases x) auto
      from v_token_shorter [OF this] 1 have l: "2 * va_length v1 + 2 \<le> n" "va_length v1 \<le> va_length v" "va_length v1 < va_length v" by auto
      have "returns (va_length v) (v_object n p (Suc depth) [] 0 v1)" "returns (va_length v) (v_array n p (Suc depth) 0 v1)"
        by (rule returns_mono [OF Suc(2) [OF l(1)] l(2)] returns_mono [OF Suc(3) [OF l(1)] l(2)])+
      with x l(3) show ?thesis
        by (auto simp: v_value.simps(2) v_scalar_def split: token.splits json.splits)
    qed (simp add: v_value.simps(2))
  next
    case 2
    show ?case
    proof (cases "dec_More (va_decoder v)")
      case True
      show ?thesis
      proof (cases "\<exists>key v1. v_token p v = Inr (Scalar (JString key), v1) \<and> v_scalar p key v1 = Inr v1 \<and>
          key \<notin> set seen \<and> \<not> int (Suc e) > po_MaxContainerEntries p")
        case step: True
        then obtain key v1 where x: "v_token p v = Inr (Scalar (JString key), v1)" and
          ok: "v_scalar p key v1 = Inr v1" "key \<notin> set seen" "\<not> int (Suc e) > po_MaxContainerEntries p" by blast
        from v_token_shorter [OF x] 2 have l: "2 * va_length v1 + 1 \<le> n" "va_length v1 < va_length v" by auto
        from Suc(1) [OF l(1)] show ?thesis
        proof (rule returns_cases)
          fix v2 assume r: "v_value n p depth v1 = Some (Inr v2)" "va_length v2 < va_length v1"
          with l have "2 * va_length v2 + 2 \<le> n" "va_length v2 \<le> va_length v" by auto
          from returns_mono [OF Suc(2) [OF this(1)] this(2)] x ok r True show ?thesis by (simp add: v_object.simps(2))
        qed (use x ok True in \<open>simp add: v_object.simps(2)\<close>)
      next
        case False
        with True show ?thesis
          by (auto simp: v_object.simps(2) v_scalar_def split: sum.splits token.splits json.splits)
      qed
    qed (use v_close_returns in \<open>simp add: v_object.simps(2)\<close>)
  next
    case 3
    show ?case
    proof (cases "dec_More (va_decoder v) \<and> \<not> int (Suc e) > po_MaxContainerEntries p")
      case True
      from 3 have "2 * va_length v + 1 \<le> n" by simp
      from Suc(1) [OF this] show ?thesis
      proof (rule returns_cases)
        fix v2 assume r: "v_value n p depth v = Some (Inr v2)" "va_length v2 < va_length v"
        with 3 have "2 * va_length v2 + 2 \<le> n" "va_length v2 \<le> va_length v" by auto
        from returns_mono [OF Suc(3) [OF this(1)] this(2)] r True show ?thesis by (simp add: v_array.simps(2))
      qed (use True in \<open>simp add: v_array.simps(2)\<close>)
    qed (use v_close_returns in \<open>auto simp: v_array.simps(2)\<close>)
  }
qed simp_all

section \<open>What is decoded\<close>

definition json_document :: "string \<Rightarrow> json \<Rightarrow> bool" where
  "json_document s j \<longleftrightarrow> (\<exists>r. parse_value (json_fuel s) s = Some (j, r) \<and> skip_space r = [])"

text \<open>C19: the decoder of bounded documents returns, whatever the octets and the policy are.\<close>

theorem json_Decode_returns: "json_Decode target p data \<noteq> None"
proof -
  have "returns (va_length v) (v_value (2 * va_length v + 1) p 0 v)" for v by (rule validator_returns(1)) simp
  from this [of "newValidator (string_of_bytes data)"]
  have "v_value (json_fuel (string_of_bytes data)) p 0 (newValidator (string_of_bytes data)) \<noteq> None"
    by (auto simp: returns_def newValidator_def va_length_def json_fuel_def split: option.splits)
  then show ?thesis
    by (auto simp: json_Decode_def Let_def split: option.splits sum.splits)
qed

lemma validator_document:
  assumes "0 \<le> po_MaxContainerEntries p"
  shows "(\<exists>v. v_value (json_fuel s) p 0 (newValidator s) = Some (Inr v) \<and> v_token p v = Inl (Reader ReadEOF)) \<longleftrightarrow>
    (\<exists>j. json_document s j \<and> fits p 0 j \<and> int (token_count j) \<le> po_MaxTokens p)"
proof -
  have "v_token p (vstate r TokenTopValue [] k) = Inl (Reader ReadEOF) \<longleftrightarrow> skip_space r = []" for r k
    using token_allowed [of TokenTopValue r "[]"]
    by (auto simp: v_token_def value_allowed_def read_value_def split: list.splits option.splits if_splits)
  moreover have "v_value (json_fuel s) p 0 (newValidator s) = Some (Inr v) \<longleftrightarrow>
      (\<exists>j r. parse_value (json_fuel s) s = Some (j, r) \<and> fits p 0 j \<and> int (token_count j) \<le> po_MaxTokens p \<and>
        v = vstate r TokenTopValue [] (int (token_count j)))" for v
    using validator_sim [OF assms, of "json_fuel s"] unfolding value_sim_def newValidator_def
    by (auto simp: value_follows_def enter_def value_end_def)
  ultimately show ?thesis by (auto simp: json_document_def)
qed

text \<open>
  C18: what the bounded decoder accepts. A document is decoded exactly when the policy is positive, the
  document is within its size, is valid UTF-8 and has no unpaired surrogate, and is one JSON value,
  between white space, within the limits on depth, tokens, entries and scalars and without a duplicate
  key, that the destination takes. So the reader of tokens accepts nothing that the decoder refuses.
\<close>

theorem json_Decode_accepts:
  "json_Decode target p data = Some (Inr x) \<longleftrightarrow>
     policy_validate p = None \<and> int (length data) \<le> po_MaxBytes p \<and> utf8_valid data \<and>
     validateUnicodeEscapes False (string_of_bytes data) = None \<and>
     (\<exists>j. json_document (string_of_bytes data) j \<and> fits p 0 j \<and> int (token_count j) \<le> po_MaxTokens p \<and>
        json_depth j \<le> MaxNesting \<and> target j = Some x)"
proof (cases "policy_validate p = None")
  case True
  let ?s = "string_of_bytes data"
  from True have "0 \<le> po_MaxContainerEntries p" by (auto simp: policy_validate_def split: if_splits)
  note doc = validator_document [OF this, of ?s]
  have "json_Decode target p data = Some (Inr x) \<longleftrightarrow> int (length data) \<le> po_MaxBytes p \<and> utf8_valid data \<and>
      validateUnicodeEscapes False ?s = None \<and>
      (\<exists>v. v_value (json_fuel ?s) p 0 (newValidator ?s) = Some (Inr v) \<and> v_token p v = Inl (Reader ReadEOF)) \<and>
      (\<exists>j r. decode_any ?s = Some (j, r) \<and> target j = Some x)"
    using True by (auto simp: json_Decode_def Let_def not_less split: option.splits sum.splits if_splits)
  also have "(\<exists>v. v_value (json_fuel ?s) p 0 (newValidator ?s) = Some (Inr v) \<and> v_token p v = Inl (Reader ReadEOF)) \<and>
      (\<exists>j r. decode_any ?s = Some (j, r) \<and> target j = Some x) \<longleftrightarrow>
     (\<exists>j. json_document ?s j \<and> fits p 0 j \<and> int (token_count j) \<le> po_MaxTokens p \<and> json_depth j \<le> MaxNesting \<and> target j = Some x)"
    unfolding doc by (auto simp: json_document_def decode_any_def split: if_splits)
  finally show ?thesis using True by simp
qed (auto simp: json_Decode_def split: option.splits)


end
