(* ===== verification/Json_Marshal.thy ===== *)
theory Json_Marshal
  imports Json_Validator
begin

text \<open>
  What \<open>json.Marshal\<close> writes is read back by the bounded decoder: strings with every escape, numbers
  before the octet that ends them, arrays and objects.
\<close>


section \<open>Strings\<close>

lemma hex4_digits: "n < 256 \<Longrightarrow> hex4 (CHR ''0'' # CHR ''0'' # hex_digit (n div 16) # hex_digit (n mod 16) # r) = Some (n, r)"
proof -
  have "hex_value (CHR ''0'') = Some 0" by (simp add: hex_value_def)
  then show "n < 256 \<Longrightarrow> ?thesis" by (simp add: hex4_def hex_value_digit)
qed

lemma scan_char: "c \<noteq> CHR 0x22 \<Longrightarrow> c \<noteq> CHR 0x5C \<Longrightarrow> \<not> of_char c < (0x20 :: nat) \<Longrightarrow> scan_string (c # t) = prepend [c] (scan_string t)"
  by (simp add: scan_string.simps(2))

lemma scan_simple: "simple_escape e = Some x \<Longrightarrow> scan_string (CHR 0x5C # e # t) = prepend [x] (scan_string t)"
  by (auto simp: scan_string.simps(2) simple_escape_def split: if_splits)

lemma scan_code:
  assumes "n < 0x80"
  shows "scan_string (CHR 0x5C # ''u00'' @ hex_digit (n div 16) # hex_digit (n mod 16) # t) = prepend [char_of n] (scan_string t)"
proof -
  have "rune_escape (CHR ''0'' # CHR ''0'' # hex_digit (n div 16) # hex_digit (n mod 16) # t) = Some (n, t)"
    using assms by (simp add: rune_escape_def hex4_digits high_surrogate_def low_surrogate_def)
  then show ?thesis using assms by (simp add: scan_string.simps(2) encode_rune_def Let_def)
qed

lemma short_escapes:
  "simple_escape (CHR 0x22) = Some (CHR 0x22)" "simple_escape (CHR 0x5C) = Some (CHR 0x5C)"
  "simple_escape (CHR ''b'') = Some (CHR 0x08)" "simple_escape (CHR ''f'') = Some (CHR 0x0C)"
  "simple_escape (CHR ''n'') = Some (CHR 0x0A)" "simple_escape (CHR ''r'') = Some (CHR 0x0D)"
  "simple_escape (CHR ''t'') = Some (CHR 0x09)"
  by (simp_all add: simple_escape_def)

lemma escape_char_cases:
  obtains e where "escape_char c = [CHR 0x5C, e]" "simple_escape e = Some c"
    | n where "escape_char c = CHR 0x5C # ''u00'' @ [hex_digit (n div 16), hex_digit (n mod 16)]" "n < 0x80" "c = char_of n"
    | "escape_char c = [c]" "c \<noteq> CHR 0x22" "c \<noteq> CHR 0x5C" "\<not> of_char c < (0x20 :: nat)"
proof -
  define n where "n = (of_char c :: nat)"
  have c: "c = char_of n" by (simp add: n_def)
  consider "c = CHR 0x22 \<or> c = CHR 0x5C" | "c = CHR 0x08" | "c = CHR 0x0C" | "c = CHR 0x0A" | "c = CHR 0x0D" | "c = CHR 0x09"
    | "escape_char c = CHR 0x5C # ''u00'' @ [hex_digit (n div 16), hex_digit (n mod 16)]"
        "n < 0x20 \<or> c = CHR ''<'' \<or> c = CHR ''>'' \<or> c = CHR ''&''"
    | "escape_char c = [c]" "c \<noteq> CHR 0x22" "c \<noteq> CHR 0x5C" "\<not> n < 0x20"
    unfolding escape_char_def Let_def n_def by argo
  then show thesis
  proof cases
    case 7
    then have "n < 0x80" by (auto simp: n_def)
    with 7 c that(2) show thesis by blast
  next
    case 8
    with that(3) show thesis by (simp add: n_def)
  qed (rule that(1), (simp add: escape_char_def, force simp: short_escapes)+)+
qed

lemma scan_escape_char: "scan_string (escape_char c @ t) = prepend [c] (scan_string t)"
proof (cases rule: escape_char_cases [of c])
  case (1 e)
  then show ?thesis by (simp add: scan_simple)
next
  case (2 n)
  then show ?thesis using scan_code [of n t] by simp
next
  case 3
  then show ?thesis by (simp add: scan_char)
qed

lemma scan_line_separator:
  "d = CHR ''8'' \<and> e = CHR 0xA8 \<or> d = CHR ''9'' \<and> e = CHR 0xA9 \<Longrightarrow>
   scan_string (CHR 0x5C # ''u202'' @ d # t) = prepend [CHR 0xE2, CHR 0x80, e] (scan_string t)"
proof -
  have "encode_rune 0x2028 = [CHR 0xE2, CHR 0x80, CHR 0xA8]" "encode_rune 0x2029 = [CHR 0xE2, CHR 0x80, CHR 0xA9]"
    by (simp_all add: encode_rune_def char_of_eq)
  then show "d = CHR ''8'' \<and> e = CHR 0xA8 \<or> d = CHR ''9'' \<and> e = CHR 0xA9 \<Longrightarrow> ?thesis"
    by (auto simp: scan_string.simps(2) rune_escape_def hex4_def hex_value_def high_surrogate_def low_surrogate_def)
qed

lemma prepend_prepend: "prepend a (prepend b x) = prepend (a @ b) x"
  by (cases x) (auto simp: prepend_def)

lemma prepend_Nil: "prepend [] x = x"
  by (cases x) (simp_all add: prepend_def)

lemma scan_marshalled: "scan_string (marshal_text s @ CHR 0x22 # r) = Some (s, r)"
proof -
  have q: "scan_string (CHR 0x22 # r) = Some ([], r)" by (simp add: scan_string.simps(2))
  have "scan_string (marshal_text s @ CHR 0x22 # r) = prepend s (scan_string (CHR 0x22 # r))"
  proof (induction s rule: marshal_text.induct)
    case (1 c d e s)
    then show ?case
      using scan_line_separator [of "CHR ''8''" e "marshal_text s @ CHR 0x22 # r"]
        scan_line_separator [of "CHR ''9''" e "marshal_text s @ CHR 0x22 # r"]
      by (auto simp: prepend_prepend scan_escape_char)
  qed (simp_all add: scan_escape_char prepend_prepend prepend_Nil)
  then show ?thesis by (simp add: q prepend_def)
qed

section \<open>Numbers\<close>

definition ends_number :: "string \<Rightarrow> bool" where
  "ends_number r \<longleftrightarrow> r = [] \<or> hd r \<in> {CHR '','', CHR '']'', CHR ''}''}"

lemma ends_number_head: "ends_number (c # r) \<Longrightarrow> c \<noteq> CHR ''.'' \<and> c \<noteq> CHR ''e'' \<and> c \<noteq> CHR ''E'' \<and> c \<noteq> CHR ''-'' \<and> c \<noteq> CHR ''+'' \<and> \<not> is_digit c"
  by (auto simp: ends_number_def is_digit_def less_eq_char_def)

lemma span_digits_append: "ends_number r \<Longrightarrow> span_digits s = (ds, b) \<Longrightarrow> span_digits (s @ r) = (ds, b @ r)"
proof -
  assume r: "ends_number r" and s: "span_digits s = (ds, b)"
  have "takeWhile is_digit r = []" "dropWhile is_digit r = r" using ends_number_head r by (cases r; force)+
  then have "takeWhile is_digit (s @ r) = takeWhile is_digit s" "dropWhile is_digit (s @ r) = dropWhile is_digit s @ r"
    by (simp_all add: takeWhile_append dropWhile_append takeWhile_eq_all_conv) (metis takeWhile_eq_all_conv)+
  with s show ?thesis by (simp add: span_digits_def)
qed

definition valid_number :: "string \<Rightarrow> bool" where
  "valid_number s \<longleftrightarrow> scan_number s = Some (s, [])"

lemma scan_int_append: "ends_number r \<Longrightarrow> scan_int s = Some (i, b) \<Longrightarrow> scan_int (s @ r) = Some (i, b @ r)"
  by (cases s) (auto simp: scan_int_def span_digits_append split: if_splits dest: span_digits_append)

lemma scan_fraction_append:
  assumes "ends_number r" "scan_fraction s = Some (f, b)"
  shows "scan_fraction (s @ r) = Some (f, b @ r)"
proof (cases s)
  case Nil
  with assms show ?thesis by (cases r) (auto simp: scan_fraction_def dest: ends_number_head)
next
  case (Cons c s')
  obtain ds r' where d: "span_digits s' = (ds, r')" by (cases "span_digits s'")
  from Cons assms(2) d span_digits_append [OF assms(1) d] show ?thesis by (auto simp: scan_fraction_def split: if_splits)
qed

definition scan_sign :: "string \<Rightarrow> string \<times> string" where
  "scan_sign s = (case s of x # r' \<Rightarrow> if x = CHR ''+'' \<or> x = CHR ''-'' then ([x], r') else ([], s) | [] \<Rightarrow> ([], []))"

lemma scan_sign_append: "ends_number r \<Longrightarrow> scan_sign s = (a, b) \<Longrightarrow> scan_sign (s @ r) = (a, b @ r)"
  by (cases s; cases r) (auto simp: scan_sign_def split: if_splits dest: ends_number_head)

lemma scan_exponent_append:
  assumes "ends_number r" "scan_exponent s = Some (e, b)"
  shows "scan_exponent (s @ r) = Some (e, b @ r)"
proof (cases s)
  case Nil
  with assms show ?thesis by (cases r) (auto simp: scan_exponent_def dest: ends_number_head)
next
  case (Cons c s')
  obtain a t where a: "scan_sign s' = (a, t)" by (cases "scan_sign s'")
  obtain ds r' where d: "span_digits t = (ds, r')" by (cases "span_digits t")
  from Cons assms(2) a d scan_sign_append [OF assms(1) a] span_digits_append [OF assms(1) d] show ?thesis
    by (auto simp: scan_exponent_def Let_def simp flip: scan_sign_def split: if_splits)
qed

lemma scan_number_append:
  assumes "ends_number r" "scan_number s = Some (t, b)"
  shows "scan_number (s @ r) = Some (t, b @ r)"
proof -
  obtain sg s1 where sg: "(case s of x # r \<Rightarrow> if x = CHR ''-'' then ([x], r) else ([], s) | [] \<Rightarrow> ([], [])) = (sg, s1)" by force
  from sg assms(2) obtain i s2 f s3 e where p: "scan_int s1 = Some (i, s2)" "scan_fraction s2 = Some (f, s3)"
    "scan_exponent s3 = Some (e, b)" "t = sg @ i @ f @ e"
    by (auto simp: scan_number_def split: option.splits)
  from p(1) sg have "(case s @ r of x # y \<Rightarrow> if x = CHR ''-'' then ([x], y) else ([], s @ r) | [] \<Rightarrow> ([], [])) = (sg, s1 @ r)"
    by (auto simp: scan_int_def split: list.splits if_splits)
  then show ?thesis
    using scan_int_append [OF assms(1) p(1)] scan_fraction_append [OF assms(1) p(2)] scan_exponent_append [OF assms(1) p(3)]
    by (simp add: scan_number_def p(4))
qed


section \<open>Documents\<close>

fun printable :: "json \<Rightarrow> bool" where
  "printable (JNumber s) \<longleftrightarrow> valid_number s"
| "printable (JArray js) \<longleftrightarrow> (\<forall>j \<in> set js. printable j)"
| "printable (JObject kvs) \<longleftrightarrow> (\<forall>(k, j) \<in> set kvs. printable j)"
| "printable j \<longleftrightarrow> True"

lemma valid_number_head: "valid_number s \<Longrightarrow> \<exists>c r. s = c # r \<and> (c = CHR ''-'' \<or> is_digit c)"
  by (cases s) (auto simp: valid_number_def scan_number_def scan_int_def is_digit_def less_eq_char_def split: if_splits option.splits)

lemma digit_not: "is_digit c \<Longrightarrow> c \<notin> {CHR ''['', CHR ''{'', CHR 0x22, CHR ''t'', CHR ''f'', CHR ''n'', CHR '']'', CHR ''}'', CHR '',''} \<and> \<not> json_space c"
  by (auto simp: is_digit_def json_space_def less_eq_char_def)

text \<open>The first octet of a printed value.\<close>

lemma Marshal_head:
  assumes "printable j"
  shows "\<exists>c t. Marshal_json j = c # t \<and> \<not> json_space c \<and> c \<noteq> CHR '']'' \<and> c \<noteq> CHR ''}'' \<and> c \<noteq> CHR '',''"
proof -
  have "\<exists>c t. Marshal_json j = c # t \<and> (c \<in> {CHR ''n'', CHR ''t'', CHR ''f'', CHR 0x22, CHR ''['', CHR ''{'', CHR ''-''} \<or> is_digit c)"
  proof (cases j)
    case (JNumber s)
    with assms valid_number_head [of s] show ?thesis by auto
  next
    case (JBool b)
    then show ?thesis by (cases b) simp_all
  qed (simp_all add: json_quote_def)
  then obtain c t where "Marshal_json j = c # t" "c \<in> {CHR ''n'', CHR ''t'', CHR ''f'', CHR 0x22, CHR ''['', CHR ''{'', CHR ''-''} \<or> is_digit c"
    by blast
  moreover from this(2) have "\<not> json_space c \<and> c \<noteq> CHR '']'' \<and> c \<noteq> CHR ''}'' \<and> c \<noteq> CHR '',''"
  proof (cases "is_digit c")
    case True
    from digit_not [OF this] show ?thesis by simp
  next
    case False
    with \<open>c \<in> _ \<or> is_digit c\<close> show ?thesis by (simp, elim disjE) (simp_all add: json_space_def)
  qed
  ultimately show ?thesis by blast
qed

lemma skip_space_Cons: "\<not> json_space c \<Longrightarrow> skip_space (c # r) = c # r"
  by (simp add: skip_space_def)

lemma scan_value_scalar:
  assumes "ends_number r" "printable j" "\<And>js. j \<noteq> JArray js" "\<And>kvs. j \<noteq> JObject kvs"
  shows "parse_value (Suc n) (Marshal_json j @ r) = Some (j, r)"
proof (cases j)
  case (JNumber s)
  with assms(2) have v: "valid_number s" by simp
  from valid_number_head [OF this] obtain c t where c: "s = c # t" "c = CHR ''-'' \<or> is_digit c" by auto
  from scan_number_append [OF assms(1), of s s "[]"] v have "scan_number (c # t @ r) = Some (s, r)"
    by (simp add: valid_number_def c)
  with JNumber c digit_not [of c] show ?thesis by (auto simp: scan_scalar_def skip_space_Cons json_space_def)
next
  case (JString s)
  then show ?thesis by (simp add: json_quote_def skip_space_Cons json_space_def scan_scalar_def scan_marshalled)
next
  case (JBool b)
  then show ?thesis by (auto simp: skip_space_Cons json_space_def scan_scalar_def scan_literal_def)
next
  case JNull
  then show ?thesis by (auto simp: skip_space_Cons json_space_def scan_scalar_def scan_literal_def)
qed (use assms in auto)

lemma strings_Join_Cons: "strings_Join (x # xs) sep = x @ concat (map (\<lambda>y. sep @ y) xs)"
  by (induction xs arbitrary: x) simp_all

definition prints :: "json \<Rightarrow> bool" where
  "prints j \<longleftrightarrow> (\<forall>r n. ends_number r \<longrightarrow> 2 * length (Marshal_json j @ r) + 1 \<le> n \<longrightarrow> parse_value n (Marshal_json j @ r) = Some (j, r))"

lemma ends_number_simps [simp]: "ends_number (CHR '','' # r)" "ends_number (CHR '']'' # r)" "ends_number (CHR ''}'' # r)" "ends_number []"
  by (simp_all add: ends_number_def)

lemma parse_array_more:
  assumes "\<forall>j \<in> set js. prints j \<and> printable j"
  shows "2 * length (concat (map (\<lambda>j. CHR '','' # Marshal_json j) js) @ CHR '']'' # r) + 2 \<le> n \<Longrightarrow>
    parse_array n True (concat (map (\<lambda>j. CHR '','' # Marshal_json j) js) @ CHR '']'' # r) = Some (js, r)"
  using assms
proof (induction js arbitrary: n)
  case Nil
  then show ?case by (cases n) (simp_all add: skip_space_Cons json_space_def)
next
  case (Cons j js)
  let ?rest = "concat (map (\<lambda>j. CHR '','' # Marshal_json j) js) @ CHR '']'' # r"
  from Cons obtain m where n: "n = Suc m" by (cases n) auto
  have e: "ends_number ?rest" by (cases js) simp_all
  with Cons n have "parse_value m (Marshal_json j @ ?rest) = Some (j, ?rest)" by (simp add: prints_def)
  moreover from Cons n have "parse_array m True ?rest = Some (js, r)" by simp
  ultimately show ?case by (simp add: n skip_space_Cons json_space_def comma_due_def)
qed

lemma parse_array_all:
  assumes "\<forall>j \<in> set js. prints j \<and> printable j" "2 * length (strings_Join (map Marshal_json js) '','' @ CHR '']'' # r) + 2 \<le> n"
  shows "parse_array n False (strings_Join (map Marshal_json js) '','' @ CHR '']'' # r) = Some (js, r)"
proof (cases js)
  case Nil
  with assms show ?thesis by (cases n) (simp_all add: skip_space_Cons json_space_def)
next
  case (Cons j js')
  let ?rest = "concat (map (\<lambda>j. CHR '','' # Marshal_json j) js') @ CHR '']'' # r"
  from assms(2) obtain m where n: "n = Suc m" by (cases n) auto
  have join: "strings_Join (map Marshal_json js) '','' @ CHR '']'' # r = Marshal_json j @ ?rest"
    using Cons by (simp add: strings_Join_Cons comp_def)
  have "ends_number ?rest" by (cases js') simp_all
  with assms Cons n join have v: "parse_value m (Marshal_json j @ ?rest) = Some (j, ?rest)" by (simp add: prints_def)
  from assms(1) Cons Marshal_head [of j] obtain c t where c: "Marshal_json j = c # t" "\<not> json_space c" "c \<noteq> CHR '']''" by auto
  from assms Cons n join have "2 * length ?rest + 2 \<le> m" using c by simp
  with parse_array_more [of js' r m] assms(1) Cons have "parse_array m True ?rest = Some (js', r)" by simp
  with v c show ?thesis unfolding join by (simp add: n skip_space_Cons comma_due_def Cons)
qed

definition entry_text :: "string \<times> json \<Rightarrow> string" where
  "entry_text kv = json_quote (fst kv) @ '':'' @ Marshal_json (snd kv)"

lemma parse_entry:
  assumes "prints j" "ends_number r" "2 * length (entry_text (k, j) @ r) \<le> m"
  shows "\<exists>s1. scan_key (entry_text (k, j) @ r) = Some (k, s1) \<and> scan_colon s1 = Some (Marshal_json j @ r) \<and>
    parse_value m (Marshal_json j @ r) = Some (j, r)"
  using assms
  by (simp add: entry_text_def json_quote_def scan_key_def scan_colon_def skip_space_Cons json_space_def scan_marshalled prints_def)

lemma parse_object_more:
  assumes "\<forall>kv \<in> set kvs. prints (snd kv)"
  shows "2 * length (concat (map (\<lambda>kv. CHR '','' # entry_text kv) kvs) @ CHR ''}'' # r) + 2 \<le> n \<Longrightarrow>
    parse_object n True (concat (map (\<lambda>kv. CHR '','' # entry_text kv) kvs) @ CHR ''}'' # r) = Some (kvs, r)"
  using assms
proof (induction kvs arbitrary: n)
  case Nil
  then show ?case by (cases n) (simp_all add: skip_space_Cons json_space_def)
next
  case (Cons kv kvs)
  let ?rest = "concat (map (\<lambda>kv. CHR '','' # entry_text kv) kvs) @ CHR ''}'' # r"
  obtain k j where kv: "kv = (k, j)" by (cases kv)
  from Cons obtain m where n: "n = Suc m" by (cases n) auto
  have e: "ends_number ?rest" by (cases kvs) simp_all
  from Cons n kv have "prints j" "2 * length (entry_text (k, j) @ ?rest) \<le> m" by simp_all
  from parse_entry [OF this(1) e this(2)] obtain s1 where "scan_key (entry_text (k, j) @ ?rest) = Some (k, s1)"
    "scan_colon s1 = Some (Marshal_json j @ ?rest)" "parse_value m (Marshal_json j @ ?rest) = Some (j, ?rest)" by blast
  moreover from Cons n have "parse_object m True ?rest = Some (kvs, r)" by simp
  ultimately show ?case by (simp add: n kv skip_space_Cons json_space_def comma_due_def)
qed

lemma parse_object_all:
  assumes "\<forall>kv \<in> set kvs. prints (snd kv)" "2 * length (strings_Join (map entry_text kvs) '','' @ CHR ''}'' # r) + 2 \<le> n"
  shows "parse_object n False (strings_Join (map entry_text kvs) '','' @ CHR ''}'' # r) = Some (kvs, r)"
proof (cases kvs)
  case Nil
  with assms show ?thesis by (cases n) (simp_all add: skip_space_Cons json_space_def)
next
  case (Cons kv kvs')
  let ?rest = "concat (map (\<lambda>kv. CHR '','' # entry_text kv) kvs') @ CHR ''}'' # r"
  obtain k j where kv: "kv = (k, j)" by (cases kv)
  from assms(2) obtain m where n: "n = Suc m" by (cases n) auto
  have join: "strings_Join (map entry_text kvs) '','' @ CHR ''}'' # r = entry_text (k, j) @ ?rest"
    using Cons kv by (simp add: strings_Join_Cons comp_def)
  have e: "ends_number ?rest" by (cases kvs') simp_all
  from assms Cons kv n join have "prints j" "2 * length (entry_text (k, j) @ ?rest) \<le> m" by simp_all
  from parse_entry [OF this(1) e this(2)] obtain s1 where s1: "scan_key (entry_text (k, j) @ ?rest) = Some (k, s1)"
    "scan_colon s1 = Some (Marshal_json j @ ?rest)" "parse_value m (Marshal_json j @ ?rest) = Some (j, ?rest)" by blast
  from assms Cons kv n join have "2 * length ?rest + 2 \<le> m" by (simp add: entry_text_def json_quote_def)
  with parse_object_more [of kvs' r m] assms(1) Cons have "parse_object m True ?rest = Some (kvs', r)" by simp
  moreover have "\<exists>t. entry_text (k, j) @ ?rest = CHR 0x22 # t" by (simp add: entry_text_def json_quote_def)
  ultimately show ?thesis using s1 unfolding join
    by (auto simp: n skip_space_Cons json_space_def comma_due_def Cons kv)
qed

lemma printsI:
  assumes "\<And>r n. ends_number r \<Longrightarrow> 2 * length (Marshal_json j @ r) \<le> n \<Longrightarrow> parse_value (Suc n) (Marshal_json j @ r) = Some (j, r)"
  shows "prints j"
  unfolding prints_def
proof (intro allI impI)
  fix r n
  assume r: "ends_number r" and "2 * length (Marshal_json j @ r) + 1 \<le> n"
  then obtain m where "n = Suc m" "2 * length (Marshal_json j @ r) \<le> m" by (cases n) auto
  with assms [OF r] show "parse_value n (Marshal_json j @ r) = Some (j, r)" by simp
qed

lemma printed: "printable j \<Longrightarrow> prints j"
proof (induction j)
  case (JArray js)
  then have a: "\<forall>j \<in> set js. prints j \<and> printable j" by auto
  show ?case
  proof (rule printsI)
    fix r n
    assume "2 * length (Marshal_json (JArray js) @ r) \<le> n"
    with parse_array_all [OF a, of r n] show "parse_value (Suc n) (Marshal_json (JArray js) @ r) = Some (JArray js, r)"
      by (simp add: skip_space_Cons json_space_def)
  qed
next
  case (JObject kvs)
  have a: "\<forall>kv \<in> set kvs. prints (snd kv)"
  proof
    fix kv assume kv: "kv \<in> set kvs"
    with JObject.prems have "printable (snd kv)" by auto
    with JObject.IH [OF kv, of "snd kv"] show "prints (snd kv)" by (cases kv) simp
  qed
  have e: "(\<lambda>(k, j). json_quote k @ '':'' @ Marshal_json j) = entry_text" by (auto simp: entry_text_def)
  show ?case
  proof (rule printsI)
    fix r n
    assume "2 * length (Marshal_json (JObject kvs) @ r) \<le> n"
    with parse_object_all [OF a, of r n] e show "parse_value (Suc n) (Marshal_json (JObject kvs) @ r) = Some (JObject kvs, r)"
      by (simp add: skip_space_Cons json_space_def)
  qed
qed (rule printsI, rule scan_value_scalar; simp)+

lemma Marshal_document: "printable j \<Longrightarrow> json_document (Marshal_json j) j"
proof -
  assume "printable j"
  from printed [OF this, unfolded prints_def, rule_format, of "[]" "json_fuel (Marshal_json j)"]
  show ?thesis by (auto simp: json_document_def json_fuel_def skip_space_def simp del: parse_value.simps)
qed

section \<open>No surrogate is escaped\<close>

lemma escapes_outside: "CHR 0x22 \<notin> set s \<Longrightarrow> validateUnicodeEscapes False (s @ r) = validateUnicodeEscapes False r"
  by (induction s) (auto simp: validateUnicodeEscapes.simps(2))

lemma escapes_code:
  assumes "n < 256"
  shows "validateUnicodeEscapes True (CHR 0x5C # ''u00'' @ hex_digit (n div 16) # hex_digit (n mod 16) # t) = validateUnicodeEscapes True t"
  using hex4_digits [OF assms, of t] assms
  by (simp add: validateUnicodeEscapes.simps(2) parseHexCodeUnit_def low_surrogate_def high_surrogate_def)

lemma escapes_separator:
  "d = CHR ''8'' \<or> d = CHR ''9'' \<Longrightarrow> validateUnicodeEscapes True (CHR 0x5C # ''u202'' @ d # t) = validateUnicodeEscapes True t"
  by (auto simp: validateUnicodeEscapes.simps(2) parseHexCodeUnit_def hex4_def hex_value_def low_surrogate_def high_surrogate_def)

lemma escapes_char: "validateUnicodeEscapes True (escape_char c @ t) = validateUnicodeEscapes True t"
proof (cases rule: escape_char_cases [of c])
  case (1 e)
  then have "e \<noteq> CHR ''u''" by (auto simp: simple_escape_def)
  with 1 show ?thesis by (simp add: validateUnicodeEscapes.simps(2))
next
  case (2 n)
  then show ?thesis using escapes_code [of n t] by simp
next
  case 3
  then show ?thesis by (simp add: validateUnicodeEscapes.simps(2))
qed

lemma escapes_text: "validateUnicodeEscapes True (marshal_text s @ r) = validateUnicodeEscapes True r"
proof (induction s rule: marshal_text.induct)
  case (1 c d e s)
  then show ?case
    using escapes_separator [of "CHR ''8''" "marshal_text s @ r"] escapes_separator [of "CHR ''9''" "marshal_text s @ r"]
    by (auto simp: escapes_char)
qed (simp_all add: escapes_char)

lemma escapes_quote: "validateUnicodeEscapes False (json_quote s @ r) = validateUnicodeEscapes False r"
  by (simp add: json_quote_def validateUnicodeEscapes.simps(2) escapes_text)

lemma span_digits_plain: "span_digits s = (ds, b) \<Longrightarrow> CHR 0x22 \<notin> set ds"
  by (auto simp: span_digits_def is_digit_def less_eq_char_def dest: set_takeWhileD)

lemma scan_number_plain:
  assumes "scan_number s = Some (t, b)"
  shows "CHR 0x22 \<notin> set t"
proof -
  obtain sg s1 where sg: "(case s of x # r \<Rightarrow> if x = CHR ''-'' then ([x], r) else ([], s) | [] \<Rightarrow> ([], [])) = (sg, s1)" by force
  from sg assms obtain i s2 f s3 e where p: "scan_int s1 = Some (i, s2)" "scan_fraction s2 = Some (f, s3)"
    "scan_exponent s3 = Some (e, b)" "t = sg @ i @ f @ e"
    by (auto simp: scan_number_def split: option.splits)
  have "CHR 0x22 \<notin> set sg" using sg by (auto split: list.splits if_splits)
  moreover have "CHR 0x22 \<notin> set i" using p(1) by (auto simp: scan_int_def split: list.splits if_splits dest: span_digits_plain)
  moreover have "CHR 0x22 \<notin> set f"
    using p(2) by (auto simp: scan_fraction_def split: list.splits if_splits prod.splits dest: span_digits_plain)
  moreover have "CHR 0x22 \<notin> set e"
    using p(3) by (auto simp: scan_exponent_def Let_def split: list.splits if_splits prod.splits dest: span_digits_plain)
  ultimately show ?thesis by (simp add: p(4))
qed

lemma escapes_join:
  assumes "\<forall>x \<in> set xs. \<forall>r. validateUnicodeEscapes False (x @ r) = validateUnicodeEscapes False r"
  shows "validateUnicodeEscapes False (strings_Join xs '','' @ r) = validateUnicodeEscapes False r"
proof (cases xs)
  case (Cons x ys)
  have "validateUnicodeEscapes False (concat (map (\<lambda>y. '','' @ y) zs) @ r) = validateUnicodeEscapes False r"
    if "set zs \<subseteq> set xs" for zs
    using that assms by (induction zs) (auto simp: validateUnicodeEscapes.simps(2))
  from this [of ys] assms Cons show ?thesis by (auto simp: strings_Join_Cons)
qed simp

lemma escapes_json: "printable j \<Longrightarrow> validateUnicodeEscapes False (Marshal_json j @ r) = validateUnicodeEscapes False r"
proof (induction j arbitrary: r)
  case (JNumber s)
  then show ?case using scan_number_plain [of s s "[]"] by (simp add: valid_number_def escapes_outside)
next
  case (JArray js)
  then have "validateUnicodeEscapes False (strings_Join (map Marshal_json js) '','' @ '']'' @ r) = validateUnicodeEscapes False ('']'' @ r)"
    by (intro escapes_join) auto
  then show ?case by (simp add: validateUnicodeEscapes.simps(2))
next
  case (JObject kvs)
  have "validateUnicodeEscapes False (entry_text kv @ r) = validateUnicodeEscapes False r" if kv: "kv \<in> set kvs" for kv r
  proof -
    from JObject.prems kv have "printable (snd kv)" by auto
    with JObject.IH [OF kv, of "snd kv"] show ?thesis
      by (cases kv) (simp add: entry_text_def escapes_quote validateUnicodeEscapes.simps(2))
  qed
  then have "validateUnicodeEscapes False (strings_Join (map entry_text kvs) '','' @ ''}'' @ r) = validateUnicodeEscapes False (''}'' @ r)"
    by (intro escapes_join) auto
  moreover have "(\<lambda>(k, j). json_quote k @ '':'' @ Marshal_json j) = entry_text" by (auto simp: entry_text_def)
  ultimately show ?case by (simp add: validateUnicodeEscapes.simps(2))
qed (simp_all add: escapes_quote validateUnicodeEscapes.simps(2))

text \<open>
  C20: what \<open>Marshal\<close> writes, the bounded decoder reads back: the same value, when its numbers are JSON
  numbers, the text is valid UTF-8 and the value is within the limits of the policy.
\<close>

theorem Marshal_decodes:
  assumes "printable j" "utf8_valid (bytes_of_string (Marshal_json j))"
    and "policy_validate p = None" "int (length (Marshal_json j)) \<le> po_MaxBytes p"
    and "fits p 0 j" "int (token_count j) \<le> po_MaxTokens p" "json_depth j \<le> MaxNesting"
  shows "json_Decode Some p (bytes_of_string (Marshal_json j)) = Some (Inr j)"
  using Marshal_document [OF assms(1)] escapes_json [OF assms(1), of "[]"] assms
  by (auto simp: json_Decode_accepts)

definition sample_json :: json where
  "sample_json = JObject [(''id'', JString [CHR 0x22, CHR ''<'', CHR 0xE2, CHR 0x80, CHR 0xA8, CHR 0x0A]),
     (''rows'', JArray [JNumber ''-1.50e+3'', JBool True, JNull, JArray []])]"

definition sample_policy :: policy where
  "sample_policy = \<lparr>po_MaxBytes = 512, po_MaxDepth = 3, po_MaxScalarBytes = 64, po_MaxContainerEntries = 8, po_MaxTokens = 32\<rparr>"

theorem Marshal_decodes_witness:
  "json_Decode Some sample_policy (bytes_of_string (Marshal_json sample_json)) = Some (Inr sample_json)"
proof (rule Marshal_decodes)
  have "is_ascii (Marshal_json sample_json)" by code_simp
  then show "utf8_valid (bytes_of_string (Marshal_json sample_json))"
    using utf8_valid_string_ascii by (simp add: utf8_valid_string_def)
qed code_simp+


end
