(* ===== verification/Spec2Isabelle.thy ===== *)
theory Spec2Isabelle
  imports Observation Fetch_Policy Cas_Store Proof_Bundle Robots Documents Snapshot_Directory Atlas_Frontier Atlas_Metrics Artifact_Segment Snapshot_Answers Archive_Title Json_Marshal
begin

text \<open>
  A verification development for the evidence kernel and the semantic data plane of TWIRX (Go,
  directory \<open>src/internal\<close>).

  The program observes public sources under a policy, stores what it saw under the digest of
  its octets, and compiles it into canonical documents that name each other by digest: an
  observation envelope and its transport evidence, typed results, proof bundles, and the packets,
  batches, deltas, queries, answers, frames, ontologies and snapshots of the data plane. Every document is a fixed array of the
  deterministic CBOR subset of \<open>cborlite\<close>; a reader accepts only the octets a writer
  produces, so that digests identify documents. Files are published by a temporary file and a
  rename; a proof bundle is complete when its manifest, written last, exists.

  Parts of the development, in the order of their imports:

  \<^item> \<open>Twirx_Prelude\<close>: errors and early returns, octets, UTF-8, hexadecimal text, the
    collections of simplification rules. \<open>Sha256\<close>: \<open>crypto/sha256\<close>. \<open>Go_Time\<close>: the
    parts of \<open>time.Parse\<close> and \<open>Format\<close> that the formats use.
  \<^item> \<open>Cborlite\<close> (\<open>cborlite/cborlite.go\<close>): the encoder as calls that extend a
    buffer, the decoder as a parser over the octets read and unread. The locale
    \<open>codec\<close> is the contract of a pair of an encoding routine and a parser: the parser
    reads what the routine wrote, and accepts nothing else. All later codecs interpret it, and
    it composes along sequencing, counted arrays and nullable items.
  \<^item> \<open>Cbor_Document\<close>: a whole document; the locale \<open>document\<close> states that
    marshalling and unmarshalling are inverse and that accepted octets are canonical. Every
    document kind interprets it.
  \<^item> \<open>Safefetch\<close>, \<open>Observation\<close>, \<open>Transport\<close>, \<open>E2_Result\<close>: the
    evidence of a fetch (\<open>observation/observation.go\<close>, \<open>transportevidence/transport.go\<close>) and
    the typed results (\<open>e2format/result.go\<close>).
  \<^item> \<open>Go_Url\<close>: \<open>net/url\<close>. \<open>Fetch_Policy\<close>
    (\<open>safefetch/safefetch.go\<close>): which URLs may be requested and which addresses dialled, and a
    fetch with its redirects; the exchange with a server, the resolver and the dialer are arguments.
  \<^item> \<open>File_System\<close>: the calls of \<open>os\<close> and \<open>path/filepath\<close> that the writers use, as
    functions on a state with the files and a plan of what each call meets: success, a fault,
    a crash after which nothing happens any more, and the files other processes publish in
    between. Each call consumes one entry of the plan, and fails when there is none, so that
    statements over all plans are statements over all faults.
  \<^item> \<open>Cas_Store\<close> (\<open>cas/cas.go\<close>), \<open>Atomic_File\<close>
    (\<open>atomicfile/atomicfile.go\<close>), \<open>Proof_Bundle\<close>
    (\<open>proofbundle/bundle.go\<close>): the store, the atomic write, and bundles with \<open>Write\<close>
    and \<open>Verify\<close>. The locale \<open>content_store\<close> is what clients of a store rely on;
    the model of \<open>Put\<close> and \<open>Read\<close> interprets it.
  \<^item> \<open>Robots\<close> (\<open>robotstxt/robotstxt.go\<close>): parsing, path normalization, the
    backtracking pattern matcher against a recursive definition of the pattern language, and
    the decision.
  \<^item> \<open>Dataplane_Common\<close> (\<open>dataplane/common.go\<close>), \<open>Packet\<close> and
    \<open>Packet_Batch\<close> (\<open>dataplane/packet.go\<close>), \<open>Query\<close> and
    \<open>Query_Result\<close> (\<open>dataplane/query.go\<close>): the documents of the data plane, for
    each its record, its validator on every branch, its encoder and parser, and its
    interpretation of \<open>document\<close>.

  \<^item> \<open>Frame\<close>, \<open>Ontology\<close> (\<open>dataplane/ontology.go\<close>): frames of derived
    slots, mapping claims, ontology modules and semantic universes. \<open>Snapshot\<close> and
    \<open>Snapshot_Directory\<close> (\<open>dataplane/snapshot.go\<close>, \<open>snapshot_root_linux.go\<close>):
    snapshot manifests, their paths, and the verifier of a directory with links.
    \<open>Documents\<close> (\<open>dataplane/document.go\<close>): the dispatch over the kinds of documents.
  \<^item> \<open>Go_Civil\<close>: instants and their texts, with the round trip. \<open>Atlas_Selection\<close>,
    \<open>Atlas_Policy\<close>, \<open>Atlas_Record\<close>, \<open>Atlas_Registry\<close>
    (\<open>atlas/selection.go\<close>, \<open>policy.go\<close>, \<open>state.go\<close>, \<open>capability.go\<close>): the selected
    universe of 500 origins, the reviewed policies, and the registry with the validators of its
    orthogonal dimensions. \<open>Atlas_Frontier\<close> (\<open>frontier.go\<close>): the dry-run plan, with what
    a planned job stands on and the exactness of its 64-bit priority. \<open>Atlas_Metrics\<close>
    (\<open>metrics.go\<close>): the counters of the report; the locale \<open>dimension_counter\<close> is
    what every counter of a dimension satisfies, and the ten counters interpret it.
    \<open>Atlas_Sample\<close>: a selection, policy set and registry that all validators accept.
  \<^item> \<open>Artifact_Segment\<close> (\<open>artifactsegment/segment.go\<close>): content-addressed containers, whose builder
    and opener are inverse, with the binary search of \<open>Go_Sort\<close>. \<open>Snapshot_Artifact\<close>
    (\<open>snapshotartifact/artifact.go\<close>): the JSON containers of a snapshot and their validators.
    \<open>Snapshot_Runtime\<close> (\<open>snapshotruntime/runtime.go\<close>): the loaded snapshot with its queries, pages
    and reads. \<open>Snapshot_Answers\<close>: the answers against a specification with sets and instants, by
    the order of time stamps proved in \<open>Go_Time_Order\<close>, and the answers as documents that the
    validator of \<open>Query_Result\<close> accepts.

  \<^item> \<open>Go_Json\<close>: JSON values, the scanner, the decoder and the printer of \<open>encoding/json\<close>, and how a
    value is assigned to a struct. \<open>Json_Bounded\<close> (\<open>jsonbounded/jsonbounded.go\<close>): the bounded
    decoder, with the state machine of \<open>json.Decoder.Token\<close> that its validator drives. The calls of
    the validator are bounded by a number, twice the length of the document and one, and
    \<open>Json_Validator\<close> proves that it is never used up, and that the decoder accepts exactly the
    documents of the grammar within the limits. \<open>Json_Marshal\<close>: what \<open>Marshal\<close> writes is read back.
  \<^item> \<open>Archive_Profile\<close> (\<open>archiveprofile/profile.go\<close>): native profiles and the search for the tags
    of a page; every search is a total function, the nested one on raw text elements included.
    \<open>Archive_Title\<close>: where an extracted title stands in its page.

  Conventions. Go strings and byte slices are lists of characters and of \<open>8 word\<close>; an
  array of 32 octets is a list whose length is a hypothesis (\<open>digest32\<close>); \<open>uint64\<close> is
  \<open>64 word\<close>, lengths are \<open>nat\<close>, which is exact as no slice reaches \<open>2 ^ 63\<close>. A
  pointer that may be nil is an option. An error is a value of \<open>error\<close>: sentinels are
  constructors, messages keep their literal text and drop the numbers printed into them.
  A validator is a list of checks of which the first failure is returned. Where Go ranges over
  a map, only one of several errors is reported in an unspecified order; the model fixes an order,
  and no statement depends on it. Loops that are not structural are functions with
  a measure, apart from the pattern matcher, a \<open>partial_function\<close> that is proved to return.

  Not modelled: packages that are surfaces over \<open>net/http\<close>, \<open>encoding/json\<close>,
  \<open>compress/gzip\<close> and processes (the manifest of the components lists each with its reason).
  Decoding and encoding JSON, the exchange with a server, the resolver and the dialer are arguments
  of the definitions that use them.\<close>

end
